(* ===== verification/Prelude.thy ===== *)
theory Prelude
  imports Main "HOL-Library.Word" "HOL-Library.Signed_Division" "HOL-Library.Monad_Syntax"
begin

text \<open>
  Shared vocabulary of the development: the machine integer types of BootApp.c, the
  reading of undefined behaviour as \<open>None\<close> of the option monad, the weakest-precondition
  predicate \<open>wp\<close> in which the component lemmas are stated, the counted \<open>for\<close> loop and
  checked array reads.  Collections: \<open>wp_simps\<close> (equations that push \<open>wp\<close> through
  the program text) and \<open>word_nat\<close> (translations of word facts to natural numbers).
\<close>

unbundle bit_operations_syntax

named_theorems wp_simps
named_theorems word_nat

subsection \<open>The integer types of the source\<close>

text \<open>
  Signed integers are two's complement words read with \<open>sint\<close>; signed comparison is
  \<open><s\<close> and \<open>\<le>s\<close>, and signed arithmetic wraps, as the compiled x64 code does.
  A cast between \<open>INT32\<close> and \<open>UINT32\<close> is therefore the identity.
\<close>

type_synonym UINT8 = "8 word"
type_synonym UINT16 = "16 word"
type_synonym UINT32 = "32 word"
type_synonym UINT64 = "64 word"
type_synonym UINTN = "64 word"
type_synonym INT32 = "32 word"
type_synonym INT64 = "64 word"
type_synonym EFI_STATUS = "64 word"

text \<open>C's signed division truncates towards zero.\<close>

definition sdivw :: "'a::len word \<Rightarrow> 'a word \<Rightarrow> 'a word" where
  "sdivw a b = word_of_int (sint a sdiv sint b)"

text \<open>Shifts of a 32-bit value: a shift count of 32 or more is undefined in C.\<close>

definition shl32 :: "UINT32 \<Rightarrow> UINT32 \<Rightarrow> UINT32 option" where
  "shl32 x n = (if n < 32 then Some (push_bit (unat n) x) else None)"

definition shr32 :: "UINT32 \<Rightarrow> UINT32 \<Rightarrow> UINT32 option" where
  "shr32 x n = (if n < 32 then Some (drop_bit (unat n) x) else None)"

definition bool8 :: "bool \<Rightarrow> UINT8" where
  "bool8 b = (if b then 1 else 0)"

lemma bool8_simps [simp]: "bool8 True = 1" "bool8 False = 0" "bool8 b = 0 \<longleftrightarrow> \<not> b"
  by (simp_all add: bool8_def)

subsection \<open>Defined results: the predicate wp\<close>

text \<open>
  A computation of the model has type \<open>'a option\<close>: \<open>None\<close> is behaviour that C leaves
  undefined or a loop that never ends, \<open>Some\<close> a result.  \<open>wp Q m\<close> says that \<open>m\<close>
  is defined and its result satisfies \<open>Q\<close>.
\<close>

definition wp :: "('a \<Rightarrow> bool) \<Rightarrow> 'a option \<Rightarrow> bool" where
  "wp Q m = (case m of None \<Rightarrow> False | Some x \<Rightarrow> Q x)"

lemma wp_Some [simp, wp_simps]: "wp Q (Some x) = Q x"
  by (simp add: wp_def)

lemma wp_None [simp, wp_simps]: "wp Q None = False"
  by (simp add: wp_def)

lemma wp_bind [simp, wp_simps]: "wp Q (Option.bind m f) = wp (\<lambda>x. wp Q (f x)) m"
  by (cases m) simp_all

lemma wp_if [wp_simps]: "wp Q (if b then m else n) = (if b then wp Q m else wp Q n)"
  by simp

lemma wp_let [wp_simps]: "wp Q (let x = a in f x) = (let x = a in wp Q (f x))"
  by (simp add: Let_def)

lemma wp_prod [wp_simps]: "wp Q (case p of (x, y) \<Rightarrow> f x y) = (case p of (x, y) \<Rightarrow> wp Q (f x y))"
  by (cases p) simp

lemma wp_iff: "wp Q m \<longleftrightarrow> (\<exists>x. m = Some x \<and> Q x)"
  by (cases m) simp_all

lemma wp_mono: "wp P m \<Longrightarrow> (\<And>x. P x \<Longrightarrow> Q x) \<Longrightarrow> wp Q m"
  by (cases m) simp_all

lemma wp_conj: "wp P m \<Longrightarrow> wp Q m \<Longrightarrow> wp (\<lambda>x. P x \<and> Q x) m"
  by (cases m) simp_all

lemma wp_with_eq: "wp P m \<Longrightarrow> wp (\<lambda>x. P x \<and> m = Some x) m"
  by (cases m) simp_all

lemma wpE:
  assumes "wp Q m" obtains x where "m = Some x" "Q x"
  using assms by (auto simp: wp_iff)

lemma wp_SomeD: "wp Q m \<Longrightarrow> m = Some x \<Longrightarrow> Q x"
  by simp

lemma wp_eq_Some: "wp (\<lambda>x. x = y) m \<longleftrightarrow> m = Some y"
  by (cases m) auto

text \<open>Partial correctness, for loops that need not end: \<open>Q\<close> holds if there is a result.\<close>

definition ret :: "('a \<Rightarrow> bool) \<Rightarrow> 'a option \<Rightarrow> bool" where
  "ret Q m = (case m of None \<Rightarrow> True | Some x \<Rightarrow> Q x)"

lemma ret_simps [simp]:
  "ret Q (Some x) = Q x" "ret Q None" "ret Q (Option.bind m f) = ret (\<lambda>x. ret Q (f x)) m"
  by (simp_all add: ret_def split: option.split bind_splits)

lemma ret_any: "(\<And>x. Q x) \<Longrightarrow> ret Q m"
  by (simp add: ret_def split: option.split)

lemma ret_mono: "ret P m \<Longrightarrow> (\<And>x. P x \<Longrightarrow> Q x) \<Longrightarrow> ret Q m"
  by (simp add: ret_def split: option.splits)

lemma retD: "ret Q m \<Longrightarrow> m = Some x \<Longrightarrow> Q x"
  by simp

lemma wp_ret: "wp Q m \<Longrightarrow> ret Q m"
  by (cases m) simp_all

subsection \<open>Words as natural numbers\<close>

lemma unat_lt32 [simp]: "unat (x :: 32 word) < 4294967296"
  using unsigned_less [of x, where ?'a = nat] by simp

lemma unat_lt8 [simp]: "unat (x :: 8 word) < 256"
  using unsigned_less [of x, where ?'a = nat] by simp

lemma unat_lt64 [simp]: "unat (x :: 64 word) < 18446744073709551616"
  using unsigned_less [of x, where ?'a = nat] by simp

lemma unat_le8 [simp]: "unat (x :: 8 word) \<le> 255"
  using unat_lt8 [of x] by linarith

lemma unat_ucast_le [simp]:
  "LENGTH('a) \<le> LENGTH('b) \<Longrightarrow> unat (ucast (x :: 'a::len word) :: 'b::len word) = unat x"
  by (simp add: unsigned_ucast_eq take_bit_nat_eq_self_iff)
     (meson less_le_trans one_le_numeral power_increasing unsigned_less)

lemma unat_ucast_32_8: "unat (ucast (x :: 32 word) :: 8 word) = unat x mod 256"
  by (simp add: unsigned_ucast_eq take_bit_eq_mod)

lemma unat_add32: "unat a + unat b < 2 ^ LENGTH('a) \<Longrightarrow> unat (a + b :: 'a::len word) = unat a + unat b"
  by (rule unat_add_lem [THEN iffD1])

lemma unat_mult32: "unat a * unat b < 2 ^ LENGTH('a) \<Longrightarrow> unat (a * b :: 'a::len word) = unat a * unat b"
  by (rule unat_mult_lem [THEN iffD1])

lemma unat_diff: "b \<le> a \<Longrightarrow> unat (a - b :: 'a::len word) = unat a - unat b"
  by (simp add: unat_sub)

lemma unat_of_nat_lt: "n < 2 ^ LENGTH('a) \<Longrightarrow> unat (of_nat n :: 'a::len word) = n"
  by (simp add: unat_of_nat take_bit_nat_eq_self)

lemmas word_nat_simps [word_nat] =
  word_less_nat_alt word_le_nat_alt unat_add32 unat_mult32 unat_diff unat_of_nat_lt

lemma word_eq_unatI: "unat a = unat b \<Longrightarrow> a = b"
  by (rule word_unat_eq_iff [THEN iffD2])

text \<open>Signed readings: exact where no overflow happens.\<close>

lemma sint_lower32: "- 2147483648 \<le> sint (x :: 32 word)"
  using sint_ge [of x] by simp

lemma sint_upper32: "sint (x :: 32 word) \<le> 2147483647"
  using sint_lt [of x] by simp

lemma sint_eq_unat:
  assumes "\<not> (x :: 32 word) <s 0"
  shows "sint x = int (unat x)"
proof -
  have "0 \<le> sint x" using assms by (simp add: word_sless_alt)
  then have "take_bit 32 (sint x) = sint x"
    using sint_upper32 [of x] by (simp add: take_bit_int_eq_self)
  then have "uint x = sint x" by (simp add: uint_sint)
  then show ?thesis by simp
qed

lemma sint_of_small:
  assumes "unat (x :: 32 word) < 2147483648" shows "sint x = int (unat x)"
proof -
  have "uint x < 2 ^ 31" using assms of_nat_less_iff [of "unat x" "2 ^ 31", where ?'a = int] by simp
  moreover have "- (2 ^ 31) \<le> uint x"
    by (rule order_trans [OF _ uint_nonnegative]) simp
  ultimately have "signed_take_bit 31 (uint x) = uint x"
    by (intro signed_take_bit_int_eq_self)
  then show ?thesis by (simp add: sint_uint)
qed

lemma sless_below:
  assumes "\<not> (x :: 32 word) <s 0" "x <s lim"
  shows "x < lim"
proof -
  have x: "sint x = int (unat x)" using assms(1) by (rule sint_eq_unat)
  then have "0 \<le> sint lim" using assms(2) by (simp only: word_sless_alt)
  then have "\<not> lim <s 0" by (simp add: word_sless_alt)
  then have "sint lim = int (unat lim)" by (rule sint_eq_unat)
  with x assms(2) have "int (unat x) < int (unat lim)" by (simp only: word_sless_alt)
  then show ?thesis by (simp only: of_nat_less_iff word_less_nat_alt)
qed

lemma below_sless:
  assumes "(x :: 32 word) < lim" "unat lim < 2147483648"
  shows "\<not> x <s 0" "x <s lim"
proof -
  from assms have "unat x < unat lim" by (simp add: word_less_nat_alt)
  then show "\<not> x <s 0" "x <s lim"
    using assms(2) by (simp_all only: word_sless_alt sint_of_small of_nat_less_iff sint_0)
qed

lemma clip_iff:
  "unat lim < 2147483648 \<Longrightarrow> (\<not> (x :: 32 word) <s 0 \<and> x <s lim) \<longleftrightarrow> x < lim"
  using below_sless [of x lim] sless_below [of x lim] by auto

lemma sint_add_exact:
  "- 2147483648 \<le> sint a + sint b \<Longrightarrow> sint a + sint b \<le> 2147483647 \<Longrightarrow>
   sint (a + b :: 32 word) = sint a + sint b"
  by (simp add: sint_word_add signed_take_bit_int_eq_self)

lemma sint_diff_exact:
  "- 2147483648 \<le> sint a - sint b \<Longrightarrow> sint a - sint b \<le> 2147483647 \<Longrightarrow>
   sint (a - b :: 32 word) = sint a - sint b"
  by (simp add: sint_word_diff signed_take_bit_int_eq_self)

lemma sint_mult_exact:
  "- 2147483648 \<le> sint a * sint b \<Longrightarrow> sint a * sint b \<le> 2147483647 \<Longrightarrow>
   sint (a * b :: 32 word) = sint a * sint b"
  by (simp add: sint_word_mult signed_take_bit_int_eq_self)

lemma sint_minus_exact:
  "- 2147483648 < sint a \<Longrightarrow> sint (- a :: 32 word) = - sint a"
  using sint_upper32 [of a] by (simp add: sint_word_minus signed_take_bit_int_eq_self)

lemma sint_word_of_int32:
  "- 2147483648 \<le> k \<Longrightarrow> k \<le> 2147483647 \<Longrightarrow> sint (word_of_int k :: 32 word) = k"
  by (simp add: sint_sbintrunc' signed_take_bit_int_eq_self)

text \<open>Signed division on integers, by the sign of the dividend.\<close>

lemma sdiv_pos: "0 \<le> (a :: int) \<Longrightarrow> 0 < n \<Longrightarrow> a sdiv n = a div n"
  by (cases "a = 0") (simp_all add: signed_divide_int_def)

lemma sdiv_neg: "(a :: int) \<le> 0 \<Longrightarrow> 0 < n \<Longrightarrow> a sdiv n = - ((- a) div n)"
  by (cases "a = 0") (simp_all add: signed_divide_int_def sgn_if)

subsection \<open>The counted loop\<close>

text \<open>
  \<open>for32 i n f s\<close> is \<open>for (; i < n; i++) f(i)\<close> with a \<open>UINT32\<close> counter and the state
  \<open>s\<close> threaded through: inside the loop \<open>i < n\<close>, so the increment never wraps.
\<close>

lemma unat_Suc_word: "(i :: 32 word) < n \<Longrightarrow> unat (i + 1) = Suc (unat i)"
proof -
  assume "i < n"
  then have "unat i < unat n" by (simp add: word_less_nat_alt)
  then have "unat i < 4294967295" using unat_lt32 [of n] by linarith
  then have "unat i + unat (1 :: 32 word) < 2 ^ LENGTH(32)" by simp
  then show ?thesis by (subst unat_add32) simp_all
qed

function for32 :: "UINT32 \<Rightarrow> UINT32 \<Rightarrow> (UINT32 \<Rightarrow> 's \<Rightarrow> 's option) \<Rightarrow> 's \<Rightarrow> 's option" where
  "for32 i n f s = (if i < n then do { s' \<leftarrow> f i s; for32 (i + 1) n f s' } else Some s)"
  by pat_completeness auto
termination
  by (relation "measure (\<lambda>(i, n, _). unat n - unat i)")
     (auto simp: unat_Suc_word word_less_nat_alt)

declare for32.simps [simp del]

lemma for32_done [simp]: "\<not> i < n \<Longrightarrow> for32 i n f s = Some s"
  by (subst for32.simps) simp

lemma for32_step: "i < n \<Longrightarrow> for32 i n f s = do { s' \<leftarrow> f i s; for32 (i + 1) n f s' }"
  by (subst for32.simps) simp

lemma wp_for32_from:
  assumes "i \<le> n" "I (unat i) s"
    and "\<And>j s. i \<le> j \<Longrightarrow> j < n \<Longrightarrow> I (unat j) s \<Longrightarrow> wp (I (Suc (unat j))) (f j s)"
  shows "wp (I (unat n)) (for32 i n f s)"
  using assms
proof (induction i n f s rule: for32.induct)
  case (1 i n f s)
  show ?case
  proof (cases "i < n")
    case True
    have body: "wp (I (Suc (unat i))) (f i s)" using 1 True by simp
    have "wp (\<lambda>s'. wp (I (unat n)) (for32 (i + 1) n f s')) (f i s)"
    proof (rule wp_mono [OF wp_with_eq [OF body]])
      fix s' assume "I (Suc (unat i)) s' \<and> f i s = Some s'"
      moreover have "i + 1 \<le> n" "i \<le> i + 1"
        using True by (simp_all add: word_le_nat_alt word_less_nat_alt unat_Suc_word)
      ultimately show "wp (I (unat n)) (for32 (i + 1) n f s')"
        using 1 True by (intro "1.IH") (auto simp: unat_Suc_word intro: order_trans)
    qed
    then show ?thesis using True by (simp add: for32_step)
  next
    case False
    then show ?thesis using "1.prems" by (simp add: order.antisym)
  qed
qed

text \<open>The loop rule: an invariant indexed by the number of completed iterations.\<close>

lemma wp_for32:
  assumes "I 0 s"
    and "\<And>j s. j < n \<Longrightarrow> I (unat j) s \<Longrightarrow> wp (I (Suc (unat j))) (f j s)"
    and "\<And>s. I (unat n) s \<Longrightarrow> Q s"
  shows "wp Q (for32 0 n f s)"
  by (rule wp_mono [OF wp_for32_from [where I = I]]) (use assms in auto)

lemma for32_cong_body:
  assumes "\<And>j s. i \<le> j \<Longrightarrow> j < n \<Longrightarrow> f j s = g j s"
  shows "for32 i n f s = for32 i n g s"
  using assms
proof (induction i n f s rule: for32.induct)
  case (1 i n f s)
  show ?case
  proof (cases "i < n")
    case True
    have "i \<le> i + 1" using True by (simp add: word_le_nat_alt unat_Suc_word)
    then have "for32 (i + 1) n f s' = for32 (i + 1) n g s'" if "f i s = Some s'" for s'
      using that "1.prems" True by (intro "1.IH") (auto intro: order_trans)
    then show ?thesis
      using "1.prems" [of i s] True by (cases "g i s") (simp_all add: for32_step)
  qed simp
qed

text \<open>
  \<open>for (i = lo; i <= hi; i++)\<close> with a signed counter: at \<open>INT32_MAX\<close> the increment overflows,
  so a loop that gets there has no defined result.
\<close>

function for_sle :: "INT32 \<Rightarrow> INT32 \<Rightarrow> (INT32 \<Rightarrow> 's \<Rightarrow> 's option) \<Rightarrow> 's \<Rightarrow> 's option" where
  "for_sle i hi f s =
     (if i \<le>s hi then do {
        s \<leftarrow> f i s;
        if i = 0x7FFFFFFF then None else for_sle (i + 1) hi f s }
      else Some s)"
  by pat_completeness auto
termination
proof (relation "measure (\<lambda>(i, hi, _). nat (sint hi - sint i + 1))")
  fix i hi :: INT32 and f :: "INT32 \<Rightarrow> 's \<Rightarrow> 's option" and s s'
  assume a: "i \<le>s hi" "i \<noteq> 0x7FFFFFFF"
  have "sint i \<noteq> 2147483647"
  proof
    assume "sint i = 2147483647"
    then have "sint i = sint (0x7FFFFFFF :: INT32)" by simp
    then have "i = 0x7FFFFFFF" by (rule signed_word_eqI)
    with a(2) show False by simp
  qed
  then have "sint (i + 1) = sint i + 1"
    using sint_upper32 [of i] sint_lower32 [of i] by (subst sint_add_exact) simp_all
  then show "((i + 1, hi, f, s'), i, hi, f, s) \<in> measure (\<lambda>(i, hi, _). nat (sint hi - sint i + 1))"
    using a(1) by (simp add: word_sle_eq)
qed simp

declare for_sle.simps [simp del]

subsection \<open>Checked reads of constant arrays\<close>

text \<open>\<open>a[i]\<close> for an array whose contents are the list \<open>xs\<close>: out of range is undefined.\<close>

definition rd :: "'a list \<Rightarrow> UINT32 \<Rightarrow> 'a option" where
  "rd xs i = (if unat i < length xs then Some (xs ! unat i) else None)"

lemma rd_wp [simp]: "wp Q (rd xs i) \<longleftrightarrow> unat i < length xs \<and> Q (xs ! unat i)"
  by (simp add: rd_def)

lemma rd_Some: "unat i < length xs \<Longrightarrow> rd xs i = Some (xs ! unat i)"
  by (simp add: rd_def)

text \<open>\<open>a[i] = v\<close> in such an array.\<close>

definition wr :: "'a list \<Rightarrow> UINT32 \<Rightarrow> 'a \<Rightarrow> 'a list option" where
  "wr xs i v = (if unat i < length xs then Some (xs[unat i := v]) else None)"

lemma wr_Some: "unat i < length xs \<Longrightarrow> wr xs i v = Some (xs[unat i := v])"
  by (simp add: wr_def)

text \<open>A C string literal is the list of its characters before the terminating NUL.\<close>

type_synonym cstring = "char list"

abbreviation glyph_of :: "char \<Rightarrow> UINT8" where
  "glyph_of c \<equiv> of_char c"

end
