(* ===== verification/Memory.thy ===== *)
theory Memory
  imports Prelude
begin

text \<open>
  The memory that framebuffers, shadow buffers and the cursor's saved pixels live in, and
  the two bulk routines of BootApp.c on it, \<open>FillPixels32\<close> and \<open>CopyPixels32\<close>, with their
  64-bit fast paths.  A heap maps the (4-byte aligned) address of a \<open>UINT32\<close> cell to its
  value; an address outside its domain belongs to no object, and reading or writing it is
  undefined behaviour (\<open>None\<close>).  A \<open>UINT64\<close> access covers two adjacent cells, low word
  first (x64 is little endian).  The specifications \<open>fill\<close> and \<open>blit\<close> say what the bulk
  routines do to a whole heap at once.
\<close>

subsection \<open>Cells\<close>

type_synonym ptr = "64 word"
type_synonym heap = "ptr \<Rightarrow> UINT32 option"

definition load32 :: "ptr \<Rightarrow> heap \<Rightarrow> UINT32 option" where
  "load32 p h = h p"

definition store32 :: "ptr \<Rightarrow> UINT32 \<Rightarrow> heap \<Rightarrow> heap option" where
  "store32 p v h = (case h p of None \<Rightarrow> None | Some _ \<Rightarrow> Some (h(p \<mapsto> v)))"

text \<open>\<open>&p[i]\<close> for a \<open>UINT32*\<close> and a \<open>UINT64*\<close> with a \<open>UINT32\<close> index.\<close>

definition elem32 :: "ptr \<Rightarrow> UINT32 \<Rightarrow> ptr" where
  "elem32 p i = p + 4 * ucast i"

definition elem64 :: "ptr \<Rightarrow> UINT32 \<Rightarrow> ptr" where
  "elem64 p i = p + 8 * ucast i"

definition load64 :: "ptr \<Rightarrow> heap \<Rightarrow> UINT64 option" where
  "load64 p h = do {
     lo \<leftarrow> load32 p h;
     hi \<leftarrow> load32 (p + 4) h;
     Some (push_bit 32 (ucast hi) OR ucast lo) }"

definition store64 :: "ptr \<Rightarrow> UINT64 \<Rightarrow> heap \<Rightarrow> heap option" where
  "store64 p v h = do {
     h \<leftarrow> store32 p (ucast v) h;
     store32 (p + 4) (ucast (drop_bit 32 v)) h }"

subsection \<open>FillPixels32\<close>

text \<open>The unrolled body of the bulk loop: eight 64-bit stores.\<close>

definition FillPixels32_block :: "ptr \<Rightarrow> UINT32 \<Rightarrow> UINT64 \<Rightarrow> heap \<Rightarrow> heap option" where
  "FillPixels32_block Destination64 PairIndex Color64 h = do {
     h \<leftarrow> store64 (elem64 Destination64 (PairIndex + 0)) Color64 h;
     h \<leftarrow> store64 (elem64 Destination64 (PairIndex + 1)) Color64 h;
     h \<leftarrow> store64 (elem64 Destination64 (PairIndex + 2)) Color64 h;
     h \<leftarrow> store64 (elem64 Destination64 (PairIndex + 3)) Color64 h;
     h \<leftarrow> store64 (elem64 Destination64 (PairIndex + 4)) Color64 h;
     h \<leftarrow> store64 (elem64 Destination64 (PairIndex + 5)) Color64 h;
     h \<leftarrow> store64 (elem64 Destination64 (PairIndex + 6)) Color64 h;
     store64 (elem64 Destination64 (PairIndex + 7)) Color64 h }"

text \<open>
  \<open>PairIndex\<close> runs through the multiples of 8 below \<open>BulkPairCount\<close> (itself a multiple
  of 8), then through the rest of the pairs; the last loop writes the odd pixel, or every
  pixel when the destination is not 8-byte aligned.
\<close>

definition FillPixels32 :: "ptr \<Rightarrow> UINT32 \<Rightarrow> UINT32 \<Rightarrow> heap \<Rightarrow> heap option" where
  "FillPixels32 Destination Count Color h = do {
     (Index, h) \<leftarrow>
       (if Destination AND 7 = 0 then
          let Color64 = push_bit 32 (ucast Color) OR ucast Color;
              PairCount = drop_bit 1 Count;
              BulkPairCount = PairCount AND NOT 7
          in do {
            h \<leftarrow> for32 0 (BulkPairCount div 8)
                   (\<lambda>b. FillPixels32_block Destination (8 * b) Color64) h;
            h \<leftarrow> for32 BulkPairCount PairCount
                   (\<lambda>PairIndex. store64 (elem64 Destination PairIndex) Color64) h;
            Some (push_bit 1 PairCount, h) }
        else Some (0, h));
     for32 Index Count (\<lambda>Index. store32 (elem32 Destination Index) Color) h }"

subsection \<open>CopyPixels32\<close>

definition CopyPixels32_pair :: "ptr \<Rightarrow> ptr \<Rightarrow> UINT32 \<Rightarrow> heap \<Rightarrow> heap option" where
  "CopyPixels32_pair Destination64 Source64 PairIndex h = do {
     v \<leftarrow> load64 (elem64 Source64 PairIndex) h;
     store64 (elem64 Destination64 PairIndex) v h }"

definition CopyPixels32_block :: "ptr \<Rightarrow> ptr \<Rightarrow> UINT32 \<Rightarrow> heap \<Rightarrow> heap option" where
  "CopyPixels32_block Destination64 Source64 PairIndex h = do {
     h \<leftarrow> CopyPixels32_pair Destination64 Source64 (PairIndex + 0) h;
     h \<leftarrow> CopyPixels32_pair Destination64 Source64 (PairIndex + 1) h;
     h \<leftarrow> CopyPixels32_pair Destination64 Source64 (PairIndex + 2) h;
     h \<leftarrow> CopyPixels32_pair Destination64 Source64 (PairIndex + 3) h;
     h \<leftarrow> CopyPixels32_pair Destination64 Source64 (PairIndex + 4) h;
     h \<leftarrow> CopyPixels32_pair Destination64 Source64 (PairIndex + 5) h;
     h \<leftarrow> CopyPixels32_pair Destination64 Source64 (PairIndex + 6) h;
     CopyPixels32_pair Destination64 Source64 (PairIndex + 7) h }"

definition CopyPixels32 :: "ptr \<Rightarrow> ptr \<Rightarrow> UINT32 \<Rightarrow> heap \<Rightarrow> heap option" where
  "CopyPixels32 Destination Source Count h = do {
     (Index, h) \<leftarrow>
       (if (Destination OR Source) AND 7 = 0 then
          let PairCount = drop_bit 1 Count;
              BulkPairCount = PairCount AND NOT 7
          in do {
            h \<leftarrow> for32 0 (BulkPairCount div 8)
                   (\<lambda>b. CopyPixels32_block Destination Source (8 * b)) h;
            h \<leftarrow> for32 BulkPairCount PairCount (CopyPixels32_pair Destination Source) h;
            Some (push_bit 1 PairCount, h) }
        else Some (0, h));
     for32 Index Count (\<lambda>Index h. do {
       v \<leftarrow> load32 (elem32 Source Index) h;
       store32 (elem32 Destination Index) v h }) h }"

subsection \<open>Cell ranges and the specifications\<close>

definition cells :: "ptr \<Rightarrow> nat \<Rightarrow> ptr set" where
  "cells p n = (\<lambda>i. p + 4 * of_nat i) ` {..<n}"

definition fill :: "ptr set \<Rightarrow> UINT32 \<Rightarrow> heap \<Rightarrow> heap" where
  "fill A c h = (\<lambda>q. if q \<in> A then Some c else h q)"

definition blit :: "ptr \<Rightarrow> ptr \<Rightarrow> nat \<Rightarrow> heap \<Rightarrow> heap" where
  "blit d s n h = (\<lambda>q. if q \<in> cells d n then h (q - d + s) else h q)"

lemma cells_0 [simp]: "cells p 0 = {}"
  by (simp add: cells_def)

lemma cells_Suc: "cells p (Suc n) = insert (p + 4 * of_nat n) (cells p n)"
  by (simp add: cells_def lessThan_Suc)

lemma cells_mono: "m \<le> n \<Longrightarrow> cells p m \<subseteq> cells p n"
  by (auto simp: cells_def)

lemma cells_memI: "i < n \<Longrightarrow> p + 4 * of_nat i \<in> cells p n"
  by (auto simp: cells_def)

lemma elem32_nat: "elem32 p i = p + 4 * of_nat (unat i)"
  by (simp add: elem32_def)

lemma elem64_nat: "elem64 p i = p + 4 * of_nat (2 * unat i)"
  by (simp add: elem64_def)

lemma elem32_in_cells: "unat i < n \<Longrightarrow> elem32 p i \<in> cells p n"
  unfolding elem32_nat by (rule cells_memI)

lemma fill_empty [simp]: "fill {} c h = h"
  by (simp add: fill_def)

lemma fill_upd: "(fill A c h)(q \<mapsto> c) = fill (insert q A) c h"
  by (auto simp: fill_def fun_eq_iff)

lemma fill_fill: "fill B c (fill A c h) = fill (A \<union> B) c h"
  by (auto simp: fill_def fun_eq_iff)

lemma dom_fill: "A \<subseteq> dom h \<Longrightarrow> dom (fill A c h) = dom h"
  by (auto simp: fill_def split: if_splits)

lemma blit_0 [simp]: "blit d s 0 h = h"
  by (simp add: blit_def)

lemma cells_shift: "q \<in> cells d n \<Longrightarrow> q - d + s \<in> cells s n"
  by (auto simp: cells_def)

lemma dom_blit:
  assumes "cells d n \<subseteq> dom h" "cells s n \<subseteq> dom h"
  shows "dom (blit d s n h) = dom h"
proof -
  have "q \<in> dom (blit d s n h) \<longleftrightarrow> q \<in> dom h" for q
    using assms cells_shift [of q d n s] by (cases "q \<in> cells d n") (auto simp: blit_def)
  then show ?thesis by blast
qed

lemma store32_wp [wp_simps]: "wp Q (store32 p v h) \<longleftrightarrow> p \<in> dom h \<and> Q (h(p \<mapsto> v))"
  by (auto simp: store32_def split: option.splits)

lemma load32_wp [wp_simps]: "wp Q (load32 p h) \<longleftrightarrow> p \<in> dom h \<and> Q (the (h p))"
  by (auto simp: load32_def wp_def split: option.splits)


subsection \<open>FillPixels32 is fill\<close>

lemma store32_fill:
  "p + 4 * of_nat n \<in> dom h \<Longrightarrow>
   store32 (p + 4 * of_nat n) c (fill (cells p n) c h) = Some (fill (cells p (Suc n)) c h)"
  by (auto simp: store32_def cells_Suc fill_upd [symmetric] fill_def split: option.splits)

lemma color64_lo: "ucast (push_bit 32 (ucast (hi :: UINT32)) OR ucast lo :: UINT64) = (lo :: UINT32)"
  by (rule bit_eqI) (auto simp: bit_simps)

lemma color64_hi:
  "ucast (drop_bit 32 (push_bit 32 (ucast hi) OR ucast lo :: UINT64)) = (hi :: UINT32)"
  for lo :: UINT32
  by (rule bit_eqI) (auto simp: bit_simps dest: bit_imp_le_length)

lemma store64_fill:
  assumes "unat j = m" "cells p (Suc (Suc (2 * m))) \<subseteq> dom h"
  shows "store64 (elem64 p j) (push_bit 32 (ucast c) OR ucast c) (fill (cells p (2 * m)) c h)
         = Some (fill (cells p (Suc (Suc (2 * m)))) c h)"
proof -
  have lo: "p + 4 * of_nat (2 * m) \<in> dom h" and hi: "p + 4 * of_nat (Suc (2 * m)) \<in> dom h"
    using assms(2) by (auto simp: cells_Suc)
  have "elem64 p j = p + 4 * of_nat (2 * m)" unfolding elem64_nat assms(1) ..
  moreover have "p + 4 * of_nat (2 * m) + 4 = p + 4 * of_nat (Suc (2 * m))" by simp
  ultimately show ?thesis
    by (simp only: store64_def color64_lo color64_hi store32_fill [OF lo] store32_fill [OF hi]
        Option.bind.simps)
qed

text \<open>The words the two routines compute with: pairs, and whole blocks of eight pairs.\<close>

lemma unat_pairs: "unat (drop_bit 1 (n :: UINT32)) = unat n div 2"
  unfolding unat_drop_bit_eq by (simp add: drop_bit_eq_div)

lemma unat_double: "2 * unat (x :: UINT32) < 4294967296 \<Longrightarrow> unat (push_bit 1 x) = 2 * unat x"
  unfolding push_bit_eq_mult by (simp add: unat_mult32)

lemma unat_pairs_double: "unat (push_bit 1 (drop_bit 1 (n :: UINT32))) = 2 * (unat n div 2)"
proof -
  have "2 * unat (drop_bit 1 n) < 4294967296"
    unfolding unat_pairs using unat_lt32 [of n] by linarith
  then show ?thesis by (simp only: unat_double unat_pairs)
qed

lemma and_not_7: "(n :: UINT32) AND NOT 7 = push_bit 3 (drop_bit 3 n)"
proof -
  have "(7 :: UINT32) = mask 3" by (simp add: mask_eq_exp_minus_1)
  then have "n AND NOT 7 = n AND NOT (mask 3)" by (simp only:)
  also have "\<dots> = push_bit 3 (drop_bit 3 n)" by (rule bit_eqI) (auto simp: bit_simps)
  finally show ?thesis .
qed

lemma unat_and_not_7: "unat (n AND NOT 7 :: UINT32) = 8 * (unat n div 8)"
proof -
  have d: "unat (drop_bit 3 n) = unat n div 8"
    unfolding unat_drop_bit_eq by (simp add: drop_bit_eq_div)
  have "8 * (unat n div 8) < 4294967296" using unat_lt32 [of n] by linarith
  then show ?thesis
    unfolding and_not_7 push_bit_eq_mult by (simp add: unat_mult32 d)
qed

lemma unat_bulk_blocks: "unat ((n AND NOT 7 :: UINT32) div 8) = unat n div 8"
  unfolding unat_div unat_and_not_7 by simp

lemma bulk_le: "n AND NOT 7 \<le> (n :: UINT32)"
  unfolding word_le_nat_alt unat_and_not_7 by simp

lemma unat_block_index:
  assumes "b < n div 8" "k < 8"
  shows "unat (8 * b + k :: UINT32) = 8 * unat b + unat k"
proof -
  have b: "unat b < unat n div 8" and k: "unat k < 8"
    using assms by (simp_all add: word_less_nat_alt unat_div)
  then have "8 * unat b + unat k < 4294967296" using unat_lt32 [of n] by linarith
  moreover from this have "unat (8 * b) = 8 * unat b" by (subst unat_mult32) simp_all
  ultimately show ?thesis by (subst unat_add32) simp_all
qed

lemma block_bound: "k < 8 \<Longrightarrow> Suc (Suc (2 * (8 * b + k))) \<le> 2 * (8 * Suc b)" for b k :: nat
  by simp

text \<open>
  Both routines have the same three loops.  If \<open>F m\<close> is the heap after \<open>m\<close> cells and a
  pair step and a single step each advance it, eight pair steps advance it by a block, and
  the loops reach \<open>F\<close> of the whole count, whether or not the fast path is taken.
\<close>

lemma eight_pairs:
  assumes b: "b < (n :: UINT32) div 8" and len: "2 * (8 * Suc (unat b)) \<le> N"
    and pair: "\<And>j. Suc (Suc (2 * unat j)) \<le> N \<Longrightarrow>
      pr j (F (2 * unat j)) = Some (F (Suc (Suc (2 * unat j))))"
  shows "do { h \<leftarrow> pr (8 * b + 0) (F (2 * (8 * unat b))); h \<leftarrow> pr (8 * b + 1) h;
      h \<leftarrow> pr (8 * b + 2) h; h \<leftarrow> pr (8 * b + 3) h; h \<leftarrow> pr (8 * b + 4) h;
      h \<leftarrow> pr (8 * b + 5) h; h \<leftarrow> pr (8 * b + 6) h; pr (8 * b + 7) h }
    = Some (F (2 * (8 * Suc (unat b))))"
proof -
  let ?B = "8 * unat b" and ?F = "\<lambda>m. F (2 * m)"
  have step: "pr (8 * b + k) (?F m) = Some (?F m')"
    if "k < (8 :: UINT32)" "m = ?B + unat k" "m' = Suc m" for k m m'
  proof -
    have "Suc (Suc (2 * m)) \<le> N"
      using that len block_bound [of "unat k" "unat b"] by (simp add: word_less_nat_alt)
    then show ?thesis
      using pair [of "8 * b + k"] that unfolding unat_block_index [OF b that(1)] by simp
  qed
  have s: "pr (8 * b + 0) (?F ?B) = Some (?F (?B + 1))"
    "pr (8 * b + 1) (?F (?B + 1)) = Some (?F (?B + 2))"
    "pr (8 * b + 2) (?F (?B + 2)) = Some (?F (?B + 3))"
    "pr (8 * b + 3) (?F (?B + 3)) = Some (?F (?B + 4))"
    "pr (8 * b + 4) (?F (?B + 4)) = Some (?F (?B + 5))"
    "pr (8 * b + 5) (?F (?B + 5)) = Some (?F (?B + 6))"
    "pr (8 * b + 6) (?F (?B + 6)) = Some (?F (?B + 7))"
    "pr (8 * b + 7) (?F (?B + 7)) = Some (?F (?B + 8))"
    by (rule step; simp)+
  have "8 * Suc (unat b) = ?B + 8" by simp
  then show ?thesis by (simp only: s Option.bind.simps)
qed

lemma paired_loops:
  assumes block: "\<And>b. b < (drop_bit 1 n AND NOT 7) div 8 \<Longrightarrow> 2 * (8 * Suc (unat b)) \<le> unat n \<Longrightarrow>
      blk b (F (2 * (8 * unat b))) = Some (F (2 * (8 * Suc (unat b))))"
    and pair: "\<And>j. Suc (Suc (2 * unat j)) \<le> unat n \<Longrightarrow>
      pr j (F (2 * unat j)) = Some (F (Suc (Suc (2 * unat j))))"
    and single: "\<And>i. unat i < unat n \<Longrightarrow> sg i (F (unat i)) = Some (F (Suc (unat i)))"
  shows "do { (i, h) \<leftarrow>
        (if fast then do {
           h \<leftarrow> for32 0 ((drop_bit 1 n AND NOT 7) div 8) blk (F 0);
           h \<leftarrow> for32 (drop_bit 1 n AND NOT 7) (drop_bit 1 n) pr h;
           Some (push_bit 1 (drop_bit 1 n), h) }
         else Some (0, F 0));
      for32 i n sg h } = Some (F (unat n))"
proof -
  define P where "P = drop_bit 1 n"
  define B where "B = P AND NOT 7"
  have uP: "unat P = unat n div 2" "unat (push_bit 1 P) = 2 * unat P"
    unfolding P_def unat_pairs_double unat_pairs by simp_all
  have uB: "unat B = 8 * (unat P div 8)" "unat (B div 8) = unat P div 8" "B \<le> P"
    unfolding B_def unat_and_not_7 unat_bulk_blocks by (simp_all only: bulk_le)
  have bulk: "wp (\<lambda>h. h = F (2 * unat B)) (for32 0 (B div 8) blk (F 0))"
  proof (rule wp_for32 [where I = "\<lambda>k h. h = F (2 * (8 * k))"], goal_cases)
    case (2 b h)
    then have "unat b < unat P div 8" by (simp add: word_less_nat_alt uB)
    then have "2 * (8 * Suc (unat b)) \<le> unat n" by (simp add: uP)
    with block 2 show ?case by (simp only: B_def P_def wp_Some)
  qed (simp_all add: uB)
  have pairs: "wp (\<lambda>h. h = F (2 * unat P)) (for32 B P pr (F (2 * unat B)))"
  proof (rule wp_for32_from [where I = "\<lambda>k h. h = F (2 * k)"], goal_cases)
    case (3 j h)
    then have "Suc (Suc (2 * unat j)) \<le> unat n" by (simp add: word_less_nat_alt uP)
    with pair 3 show ?case by simp
  qed (simp_all add: uB)
  have rest: "wp (\<lambda>h. h = F (unat n)) (for32 i n sg (F (unat i)))" if "i \<le> n" for i
    by (rule wp_for32_from [where I = "\<lambda>k h. h = F k"])
       (use that single in \<open>simp_all add: word_less_nat_alt\<close>)
  have "push_bit 1 P \<le> n" by (simp add: word_le_nat_alt uP del: One_nat_def)
  from rest [OF this] have even: "wp (\<lambda>h. h = F (unat n)) (for32 (push_bit 1 P) n sg (F (2 * unat P)))"
    by (simp only: uP)
  show ?thesis
    using bulk pairs rest [of 0] even
    unfolding wp_eq_Some P_def [symmetric] B_def [symmetric] by simp
qed

theorem FillPixels32_fill:
  assumes dom: "cells p (unat n) \<subseteq> dom h"
  shows "FillPixels32 p n c h = Some (fill (cells p (unat n)) c h)"
proof -
  have sub: "cells p m \<subseteq> dom h" if "m \<le> unat n" for m
    using dom cells_mono [OF that, of p] by blast
  let ?F = "\<lambda>m. fill (cells p m) c h"
  let ?pr = "\<lambda>j. store64 (elem64 p j) (push_bit 32 (ucast c) OR ucast c)"
  have pair: "?pr j (?F (2 * unat j)) = Some (?F (Suc (Suc (2 * unat j))))"
    if "Suc (Suc (2 * unat j)) \<le> unat n" for j
    using store64_fill [OF refl sub [OF that]] .
  have single: "store32 (elem32 p i) c (?F (unat i)) = Some (?F (Suc (unat i)))"
    if "unat i < unat n" for i
    using sub [of "Suc (unat i)"] that unfolding elem32_nat
    by (intro store32_fill) (auto simp: cells_Suc)
  have block: "FillPixels32_block p (8 * b) (push_bit 32 (ucast c) OR ucast c) (?F (2 * (8 * unat b)))
      = Some (?F (2 * (8 * Suc (unat b))))"
    if "b < (drop_bit 1 n AND NOT 7) div 8" "2 * (8 * Suc (unat b)) \<le> unat n" for b
    unfolding FillPixels32_block_def by (rule eight_pairs [OF that]) (rule pair)
  from paired_loops [where F = ?F and pr = ?pr and sg = "\<lambda>i. store32 (elem32 p i) c"
      and blk = "\<lambda>b. FillPixels32_block p (8 * b) (push_bit 32 (ucast c) OR ucast c)"
      and fast = "p AND 7 = 0", OF block pair single]
  show ?thesis unfolding FillPixels32_def Let_def by (simp only: cells_0 fill_empty)
qed

subsection \<open>CopyPixels32 is blit\<close>

lemma load64_wp [wp_simps]:
  "wp Q (load64 p h) \<longleftrightarrow> p \<in> dom h \<and> p + 4 \<in> dom h \<and>
     Q (push_bit 32 (ucast (the (h (p + 4)))) OR ucast (the (h p)))"
  by (simp add: load64_def load32_wp)

lemma blit_upd:
  "(blit d s n h)(d + 4 * of_nat n \<mapsto> the (h (s + 4 * of_nat n))) = blit d s (Suc n) h"
  if "s + 4 * of_nat n \<in> dom h"
  using that by (auto simp: blit_def cells_Suc fun_eq_iff algebra_simps)

text \<open>A source cell not yet overwritten, or overwritten with itself, still has its old value.\<close>

lemma blit_source:
  assumes "cells d n \<inter> cells s N = {} \<or> d = s" "i < N"
  shows "blit d s n h (s + 4 * of_nat i) = h (s + 4 * of_nat i)"
  using assms cells_memI [of i N s] by (auto simp: blit_def)

lemma store32_blit:
  assumes "s + 4 * of_nat n \<in> dom h" "d + 4 * of_nat n \<in> dom h"
  shows "store32 (d + 4 * of_nat n) (the (h (s + 4 * of_nat n))) (blit d s n h)
         = Some (blit d s (Suc n) h)"
proof -
  have "d + 4 * of_nat n \<in> dom (blit d s n h)"
    using assms by (auto simp: blit_def add.commute)
  then show ?thesis
    using blit_upd [OF assms(1)] by (auto simp: store32_def)
qed

theorem CopyPixels32_blit:
  assumes dst: "cells d (unat n) \<subseteq> dom h" and src: "cells s (unat n) \<subseteq> dom h"
    and apart: "cells d (unat n) \<inter> cells s (unat n) = {} \<or> d = s"
  shows "CopyPixels32 d s n h = Some (blit d s (unat n) h)"
proof -
  let ?F = "\<lambda>m. blit d s m h"
  have there: "p + 4 * of_nat i \<in> dom h" if "i < unat n" "p = d \<or> p = s" for i p
    using that dst src by (auto intro!: cells_memI subsetD)
  have old: "?F m (s + 4 * of_nat i) = h (s + 4 * of_nat i)" if "m \<le> unat n" "i < unat n" for m i
    using that apart cells_mono [OF that(1), of d] by (intro blit_source [where N = "unat n"]) auto
  have read: "load32 (s + 4 * of_nat i) (?F m) = Some (the (h (s + 4 * of_nat i)))"
    if "m \<le> unat n" "i < unat n" for m i
    using old [OF that] there [OF that(2), of s] by (auto simp: load32_def)
  have single: "do { v \<leftarrow> load32 (elem32 s i) (?F (unat i)); store32 (elem32 d i) v (?F (unat i)) }
    = Some (?F (Suc (unat i)))" if "unat i < unat n" for i
    unfolding elem32_nat
    using that read [of "unat i" "unat i"] store32_blit [OF there there, of "unat i" s d] by simp
  have pair: "CopyPixels32_pair d s j (?F (2 * unat j)) = Some (?F (Suc (Suc (2 * unat j))))"
    if len: "Suc (Suc (2 * unat j)) \<le> unat n" for j
  proof -
    have lo: "2 * unat j < unat n" and hi: "Suc (2 * unat j) < unat n" using len by simp_all
    have "p + 4 * of_nat (2 * unat j) + 4 = p + 4 * of_nat (Suc (2 * unat j))" for p :: ptr
      by simp
    then show ?thesis
      unfolding CopyPixels32_pair_def load64_def store64_def elem64_nat
      using read [OF less_imp_le [OF lo] lo] read [OF less_imp_le [OF lo] hi]
        store32_blit [OF there [OF lo] there [OF lo], of s d]
        store32_blit [OF there [OF hi] there [OF hi], of s d]
      by (simp only: Option.bind.simps color64_lo color64_hi) simp
  qed
  have block: "CopyPixels32_block d s (8 * b) (?F (2 * (8 * unat b)))
      = Some (?F (2 * (8 * Suc (unat b))))"
    if "b < (drop_bit 1 n AND NOT 7) div 8" "2 * (8 * Suc (unat b)) \<le> unat n" for b
    unfolding CopyPixels32_block_def by (rule eight_pairs [OF that]) (rule pair)
  from paired_loops [where F = ?F and pr = "CopyPixels32_pair d s"
      and sg = "\<lambda>i h. do { v \<leftarrow> load32 (elem32 s i) h; store32 (elem32 d i) v h }"
      and blk = "\<lambda>b. CopyPixels32_block d s (8 * b)"
      and fast = "(d OR s) AND 7 = 0", OF block pair single]
  show ?thesis unfolding CopyPixels32_def Let_def by (simp only: blit_0)
qed

end
