(* ===== verification/Pixel.thy ===== *)
theory Pixel
  imports Memory
begin

text \<open>
  Pixel formats: the \<open>FRAMEBUFFER_INFO\<close> record and the routines that pack 8-bit channels
  into a pixel of the display's format and take them out again.  The bit-mask format
  computes shift and width of each channel from its mask; on a mask that has no set bit
  \<open>MaskShift\<close> never finds one, and on an all-ones mask the width is 32 and \<open>1u << 32\<close>
  is undefined: both are \<open>None\<close> here.
\<close>

record FRAMEBUFFER_INFO =
  ScreenWidth :: UINT32
  ScreenHeight :: UINT32
  PixelsPerScanLine :: UINT32
  PixelFormat :: UINT32
  RedMask :: UINT32
  GreenMask :: UINT32
  BlueMask :: UINT32
  Framebuffer :: ptr

definition GOP_PIXEL_RED_GREEN_BLUE_RESERVED_8BIT :: UINT32 where
  "GOP_PIXEL_RED_GREEN_BLUE_RESERVED_8BIT = 0"

definition GOP_PIXEL_BLUE_GREEN_RED_RESERVED_8BIT :: UINT32 where
  "GOP_PIXEL_BLUE_GREEN_RED_RESERVED_8BIT = 1"

definition GOP_PIXEL_BIT_MASK :: UINT32 where
  "GOP_PIXEL_BIT_MASK = 2"

definition GOP_PIXEL_BLT_ONLY :: UINT32 where
  "GOP_PIXEL_BLT_ONLY = 3"

lemmas gop_format_defs =
  GOP_PIXEL_RED_GREEN_BLUE_RESERVED_8BIT_def GOP_PIXEL_BLUE_GREEN_RED_RESERVED_8BIT_def
  GOP_PIXEL_BIT_MASK_def GOP_PIXEL_BLT_ONLY_def

subsection \<open>Channel masks\<close>

function MaskShift_loop :: "UINT32 \<Rightarrow> UINT32 \<Rightarrow> UINT32 option" where
  "MaskShift_loop channelMask shift = do {
     v \<leftarrow> shr32 channelMask shift;
     if v AND 1 = 0 then MaskShift_loop channelMask (shift + 1) else Some shift }"
  by pat_completeness auto
termination
  by (relation "measure (\<lambda>(_, shift). 32 - unat shift)")
     (auto simp: shr32_def word_less_nat_alt unat_Suc_word [of _ 32] split: if_splits)

definition MaskShift :: "UINT32 \<Rightarrow> UINT32 option" where
  "MaskShift channelMask = MaskShift_loop channelMask 0"

function MaskWidth_loop :: "UINT32 \<Rightarrow> UINT32 \<Rightarrow> UINT32" where
  "MaskWidth_loop value width =
     (if value AND 1 \<noteq> 0 then MaskWidth_loop (drop_bit 1 value) (width + 1) else width)"
  by pat_completeness auto
termination
proof (relation "measure (\<lambda>(value, _). unat value)")
  fix v :: UINT32 and w :: UINT32
  assume "v AND 1 \<noteq> 0"
  then have "v \<noteq> 0" by auto
  then have "0 < unat v" by (simp add: unat_gt_0)
  then have "unat (drop_bit 1 v) < unat v" unfolding unat_pairs by simp
  then show "((drop_bit 1 v, w + 1), v, w) \<in> measure (\<lambda>(value, _). unat value)" by simp
qed simp

definition MaskWidth :: "UINT32 \<Rightarrow> UINT32 \<Rightarrow> UINT32 option" where
  "MaskWidth channelMask shift = do {
     value \<leftarrow> shr32 channelMask shift;
     Some (MaskWidth_loop value 0) }"

definition ScaleChannel :: "UINT32 \<Rightarrow> UINT32 \<Rightarrow> UINT32 option" where
  "ScaleChannel channel channelMask =
     (if channelMask = 0 then Some 0
      else do {
        shift \<leftarrow> MaskShift channelMask;
        width \<leftarrow> MaskWidth channelMask shift;
        one \<leftarrow> shl32 1 width;
        let maxValue = one - 1;
        let scaled = (channel * maxValue + 127) div 255;
        s \<leftarrow> shl32 scaled shift;
        Some (s AND channelMask) })"

definition ExpandChannel :: "UINT32 \<Rightarrow> UINT32 \<Rightarrow> UINT8 option" where
  "ExpandChannel channel width =
     (if width = 0 then Some 0
      else do {
        one \<leftarrow> shl32 1 width;
        let maxValue = one - 1;
        Some (ucast ((channel * 255 + drop_bit 1 maxValue) div maxValue)) })"

subsection \<open>Composing and decomposing pixels\<close>

definition ComposePixel ::
  "UINT8 \<Rightarrow> UINT8 \<Rightarrow> UINT8 \<Rightarrow> UINT32 \<Rightarrow> UINT32 \<Rightarrow> UINT32 \<Rightarrow> UINT32 \<Rightarrow> UINT32 option" where
  "ComposePixel red green blue pixelFormat redMask greenMask blueMask =
     (if pixelFormat = GOP_PIXEL_RED_GREEN_BLUE_RESERVED_8BIT then
        Some (ucast red OR push_bit 8 (ucast green) OR push_bit 16 (ucast blue))
      else if pixelFormat = GOP_PIXEL_BLUE_GREEN_RED_RESERVED_8BIT then
        Some (ucast blue OR push_bit 8 (ucast green) OR push_bit 16 (ucast red))
      else if pixelFormat = GOP_PIXEL_BIT_MASK then do {
        r \<leftarrow> ScaleChannel (ucast red) redMask;
        g \<leftarrow> ScaleChannel (ucast green) greenMask;
        b \<leftarrow> ScaleChannel (ucast blue) blueMask;
        Some (r OR g OR b) }
      else Some 0)"

definition DecomposePixel ::
  "UINT32 \<Rightarrow> UINT32 \<Rightarrow> UINT32 \<Rightarrow> UINT32 \<Rightarrow> UINT32 \<Rightarrow> (UINT8 \<times> UINT8 \<times> UINT8) option" where
  "DecomposePixel pixel pixelFormat redMask greenMask blueMask =
     (if pixelFormat = GOP_PIXEL_RED_GREEN_BLUE_RESERVED_8BIT then
        Some (ucast (pixel AND 0xFF), ucast (drop_bit 8 pixel AND 0xFF),
          ucast (drop_bit 16 pixel AND 0xFF))
      else if pixelFormat = GOP_PIXEL_BLUE_GREEN_RED_RESERVED_8BIT then
        Some (ucast (drop_bit 16 pixel AND 0xFF), ucast (drop_bit 8 pixel AND 0xFF),
          ucast (pixel AND 0xFF))
      else if pixelFormat = GOP_PIXEL_BIT_MASK then do {
        redShift \<leftarrow> MaskShift redMask;
        greenShift \<leftarrow> MaskShift greenMask;
        blueShift \<leftarrow> MaskShift blueMask;
        redWidth \<leftarrow> MaskWidth redMask redShift;
        greenWidth \<leftarrow> MaskWidth greenMask greenShift;
        blueWidth \<leftarrow> MaskWidth blueMask blueShift;
        r \<leftarrow> shr32 (pixel AND redMask) redShift;
        red \<leftarrow> ExpandChannel r redWidth;
        g \<leftarrow> shr32 (pixel AND greenMask) greenShift;
        green \<leftarrow> ExpandChannel g greenWidth;
        b \<leftarrow> shr32 (pixel AND blueMask) blueShift;
        blue \<leftarrow> ExpandChannel b blueWidth;
        Some (red, green, blue) }
      else Some (0, 0, 0))"

text \<open>\<open>ComposePixel\<close> with a surface's format, as every drawing routine calls it.\<close>

definition ComposeFor :: "FRAMEBUFFER_INFO \<Rightarrow> UINT8 \<Rightarrow> UINT8 \<Rightarrow> UINT8 \<Rightarrow> UINT32 option" where
  "ComposeFor fb red green blue =
     ComposePixel red green blue (PixelFormat fb) (RedMask fb) (GreenMask fb) (BlueMask fb)"

definition BlendChannel :: "UINT8 \<Rightarrow> UINT8 \<Rightarrow> UINT8 \<Rightarrow> UINT8" where
  "BlendChannel channel destination alpha =
     ucast ((ucast channel * ucast alpha + ucast destination * (255 - ucast alpha) + 127) div 255
            :: UINT32)"

definition AlphaBlendPixel ::
  "FRAMEBUFFER_INFO \<Rightarrow> UINT32 \<Rightarrow> UINT8 \<Rightarrow> UINT8 \<Rightarrow> UINT8 \<Rightarrow> UINT8 \<Rightarrow> UINT32 option" where
  "AlphaBlendPixel framebufferInfo destinationPixel red green blue alpha =
     (if alpha = 255 then ComposeFor framebufferInfo red green blue
      else if alpha = 0 then Some destinationPixel
      else do {
        (destinationRed, destinationGreen, destinationBlue) \<leftarrow>
          DecomposePixel destinationPixel (PixelFormat framebufferInfo)
            (RedMask framebufferInfo) (GreenMask framebufferInfo) (BlueMask framebufferInfo);
        ComposeFor framebufferInfo
          (BlendChannel red destinationRed alpha)
          (BlendChannel green destinationGreen alpha)
          (BlendChannel blue destinationBlue alpha) })"

definition BlendChannelOverBlack :: "UINT8 \<Rightarrow> UINT8 \<Rightarrow> UINT8" where
  "BlendChannelOverBlack channel alpha =
     ucast ((ucast channel * ucast alpha + 127) div 255 :: UINT32)"

subsection \<open>Shift and width of a mask\<close>

declare MaskShift_loop.simps [simp del]
declare MaskWidth_loop.simps [simp del]

lemma drop_and_1: "drop_bit n (x :: UINT32) AND 1 = 0 \<longleftrightarrow> \<not> bit x n"
  by (simp add: and_one_eq mod_2_eq_odd bit_iff_odd_drop_bit)

lemma MaskShift_loop_spec:
  assumes "\<exists>k. unat s \<le> k \<and> k < 32 \<and> bit m k"
  shows "\<exists>r. MaskShift_loop m s = Some r \<and> unat r < 32 \<and> s \<le> r \<and> bit m (unat r) \<and>
           (\<forall>k. unat s \<le> k \<longrightarrow> k < unat r \<longrightarrow> \<not> bit m k)"
  using assms
proof (induction m s rule: MaskShift_loop.induct)
  case (1 m s)
  then have s: "s < 32" by (auto simp: word_less_nat_alt)
  show ?case
  proof (cases "bit m (unat s)")
    case True
    then show ?thesis
      using s by (subst MaskShift_loop.simps) (simp add: shr32_def drop_and_1 word_less_nat_alt)
  next
    case False
    with "1.prems" have "\<exists>k. unat (s + 1) \<le> k \<and> k < 32 \<and> bit m k"
      using s by (metis Suc_leI le_neq_implies_less unat_Suc_word)
    with "1.IH" [of "drop_bit (unat s) m"] False s obtain r where
      "MaskShift_loop m (s + 1) = Some r" "unat r < 32" "s + 1 \<le> r" "bit m (unat r)"
      "\<forall>k. unat (s + 1) \<le> k \<longrightarrow> k < unat r \<longrightarrow> \<not> bit m k"
      by (auto simp: shr32_def drop_and_1)
    moreover from this False s have "\<forall>k. unat s \<le> k \<longrightarrow> k < unat r \<longrightarrow> \<not> bit m k"
      by (metis Suc_leI le_neq_implies_less unat_Suc_word)
    ultimately show ?thesis
      using False s
      by (subst MaskShift_loop.simps)
         (auto simp: shr32_def drop_and_1 word_le_nat_alt unat_Suc_word)
  qed
qed

lemma MaskShift_loop_none:
  assumes "\<forall>k. unat s \<le> k \<longrightarrow> \<not> bit m k"
  shows "MaskShift_loop m s = None"
  using assms
proof (induction m s rule: MaskShift_loop.induct)
  case (1 m s)
  show ?case
  proof (cases "s < 32")
    case True
    then have "MaskShift_loop m (s + 1) = None"
      using "1.IH" [of "drop_bit (unat s) m"] "1.prems"
      by (auto simp: shr32_def drop_and_1 unat_Suc_word)
    then show ?thesis
      using "1.prems" by (subst MaskShift_loop.simps) (auto simp: shr32_def drop_and_1)
  next
    case False
    then show ?thesis by (subst MaskShift_loop.simps) (simp add: shr32_def)
  qed
qed

lemma MaskShift_zero: "MaskShift 0 = None"
  unfolding MaskShift_def by (rule MaskShift_loop_none) simp

lemma MaskShift_spec:
  assumes "m \<noteq> 0"
  obtains s where "MaskShift m = Some s" "unat s < 32" "bit m (unat s)" "\<forall>k<unat s. \<not> bit m k"
proof -
  from assms obtain k where k: "bit m k" by (auto simp: bit_eq_iff)
  then have "k < 32" using bit_imp_le_length [of m k] by simp
  with k have "\<exists>k. unat 0 \<le> k \<and> k < 32 \<and> bit m k" by auto
  from MaskShift_loop_spec [OF this] that show thesis by (auto simp: MaskShift_def)
qed

lemma MaskWidth_loop_spec:
  "\<exists>k. (\<forall>i<k. bit v i) \<and> \<not> bit v k \<and> MaskWidth_loop v w = w + of_nat k"
proof (induction v w rule: MaskWidth_loop.induct)
  case (1 v w)
  show ?case
  proof (cases "bit v 0")
    case True
    then have "v AND 1 \<noteq> 0" using drop_and_1 [of 0 v] by simp
    with 1 obtain k where k: "\<forall>i<k. bit (drop_bit 1 v) i" "\<not> bit (drop_bit 1 v) k"
      "MaskWidth_loop (drop_bit 1 v) (w + 1) = w + 1 + of_nat k" by blast
    have "\<forall>i<Suc k. bit v i"
      using k(1) True by (auto simp: bit_drop_bit_eq less_Suc_eq_0_disj)
    moreover have "\<not> bit v (Suc k)" using k(2) by (simp add: bit_drop_bit_eq)
    moreover have "MaskWidth_loop v w = w + of_nat (Suc k)"
      using k(3) \<open>v AND 1 \<noteq> 0\<close> by (subst MaskWidth_loop.simps) (simp add: add.assoc)
    ultimately show ?thesis by blast
  next
    case False
    then have "v AND 1 = 0" using drop_and_1 [of 0 v] by simp
    then show ?thesis using False by (subst MaskWidth_loop.simps) (auto intro: exI [of _ 0])
  qed
qed

text \<open>The channel a mask describes: \<open>w\<close> set bits from bit \<open>s\<close> on.\<close>

definition layout :: "UINT32 \<Rightarrow> nat \<Rightarrow> nat \<Rightarrow> bool" where
  "layout m s w \<longleftrightarrow> 0 < w \<and> s + w \<le> 32 \<and> (\<forall>k < s. \<not> bit m k) \<and>
     (\<forall>i<w. bit m (s + i)) \<and> \<not> bit m (s + w)"

lemma mask_layout:
  assumes "m \<noteq> 0"
  obtains s w where "MaskShift m = Some s" "MaskWidth m s = Some w" "layout m (unat s) (unat w)"
proof -
  from assms obtain s where s: "MaskShift m = Some s" "unat s < 32" "bit m (unat s)"
      "\<forall>k<unat s. \<not> bit m k" by (rule MaskShift_spec)
  obtain k where k: "\<forall>i<k. bit m (unat s + i)" "\<not> bit m (unat s + k)"
      "MaskWidth_loop (drop_bit (unat s) m) 0 = of_nat k"
    using MaskWidth_loop_spec [of "drop_bit (unat s) m" 0] by (auto simp: bit_drop_bit_eq)
  have "0 < k" using s(3) k(2) by (cases k) auto
  moreover have "unat s + k \<le> 32"
  proof (rule ccontr)
    assume "\<not> unat s + k \<le> 32"
    then have "bit m (unat s + (32 - unat s))" using s(2) by (intro k(1) [rule_format]) linarith
    then show False using s(2) bit_imp_le_length [of m 32] by simp
  qed
  moreover from this have "unat (of_nat k :: UINT32) = k" by (intro unat_of_nat_lt) simp
  ultimately show thesis
    using that [of s "of_nat k"] s k
    by (simp add: MaskWidth_def shr32_def layout_def word_less_nat_alt)
qed

definition mask_ok :: "UINT32 \<Rightarrow> bool" where
  "mask_ok m \<longleftrightarrow> m \<noteq> 0 \<and> m \<noteq> 0xFFFFFFFF"

lemma layout_width_lt:
  assumes "layout m s w" "m \<noteq> 0xFFFFFFFF" shows "w < 32"
proof (rule ccontr)
  assume "\<not> w < 32"
  then have "s = 0" "w = 32" using assms(1) by (auto simp: layout_def)
  then have all: "bit m i" if "i < 32" for i using assms(1) that by (auto simp: layout_def)
  have "(0xFFFFFFFF :: UINT32) = - 1" by simp
  also have "\<dots> = m" by (rule bit_eqI) (simp add: all)
  finally show False using assms(2) by simp
qed

definition format_ok :: "FRAMEBUFFER_INFO \<Rightarrow> bool" where
  "format_ok fb \<longleftrightarrow> (PixelFormat fb = GOP_PIXEL_BIT_MASK \<longrightarrow>
     mask_ok (RedMask fb) \<and> mask_ok (GreenMask fb) \<and> mask_ok (BlueMask fb))"

lemma shift_defined: "layout m (unat (s :: UINT32)) (unat w) \<Longrightarrow> s < 32"
  by (auto simp: layout_def word_less_nat_alt)

lemma ScaleChannel_defined:
  assumes "m \<noteq> 0xFFFFFFFF" shows "\<exists>y. ScaleChannel c m = Some y"
proof (cases "m = 0")
  case False
  then obtain s w where m: "MaskShift m = Some s" "MaskWidth m s = Some w"
      "layout m (unat s) (unat w)" by (rule mask_layout)
  then have "w < 32" "s < 32"
    using layout_width_lt [OF m(3) assms] shift_defined [OF m(3)] by (simp_all add: word_less_nat_alt)
  then show ?thesis using m False by (simp add: ScaleChannel_def shl32_def Let_def)
qed (simp add: ScaleChannel_def)

lemma ComposeFor_defined:
  assumes "format_ok fb" shows "\<exists>y. ComposeFor fb r g b = Some y"
proof (cases "PixelFormat fb = GOP_PIXEL_BIT_MASK")
  case True
  with assms have "RedMask fb \<noteq> 0xFFFFFFFF" "GreenMask fb \<noteq> 0xFFFFFFFF" "BlueMask fb \<noteq> 0xFFFFFFFF"
    by (auto simp: format_ok_def mask_ok_def)
  then obtain r' g' b' where "ScaleChannel (ucast r) (RedMask fb) = Some r'"
    "ScaleChannel (ucast g) (GreenMask fb) = Some g'" "ScaleChannel (ucast b) (BlueMask fb) = Some b'"
    using ScaleChannel_defined by metis
  then show ?thesis using True by (simp add: ComposeFor_def ComposePixel_def gop_format_defs)
next
  case False
  then show ?thesis by (simp add: ComposeFor_def ComposePixel_def)
qed

lemma channel_defined:
  assumes "mask_ok m"
  shows "\<exists>s w v e. MaskShift m = Some s \<and> MaskWidth m s = Some w \<and>
    shr32 (p AND m) s = Some v \<and> ExpandChannel v w = Some e"
proof -
  from assms have "m \<noteq> 0" by (simp add: mask_ok_def)
  then obtain s w where m: "MaskShift m = Some s" "MaskWidth m s = Some w"
      "layout m (unat s) (unat w)" by (rule mask_layout)
  then have "w < 32" "s < 32"
    using layout_width_lt [OF m(3)] shift_defined [OF m(3)] assms
    by (simp_all add: word_less_nat_alt mask_ok_def)
  then show ?thesis using m by (simp add: ExpandChannel_def shl32_def shr32_def Let_def)
qed

lemma DecomposePixel_defined:
  assumes "format_ok fb"
  shows "\<exists>r g b. DecomposePixel d (PixelFormat fb) (RedMask fb) (GreenMask fb) (BlueMask fb)
    = Some (r, g, b)"
proof (cases "PixelFormat fb = GOP_PIXEL_BIT_MASK")
  case True
  with assms have ok: "mask_ok (RedMask fb)" "mask_ok (GreenMask fb)" "mask_ok (BlueMask fb)"
    by (auto simp: format_ok_def)
  from channel_defined [OF ok(1), of d] channel_defined [OF ok(2), of d]
    channel_defined [OF ok(3), of d] True show ?thesis
    by (elim exE conjE) (simp add: DecomposePixel_def gop_format_defs)
next
  case False
  then show ?thesis by (simp add: DecomposePixel_def)
qed

lemma AlphaBlendPixel_defined:
  assumes "format_ok fb" shows "\<exists>y. AlphaBlendPixel fb d r g b a = Some y"
proof -
  obtain dr dg db where d: "DecomposePixel d (PixelFormat fb) (RedMask fb) (GreenMask fb) (BlueMask fb)
      = Some (dr, dg, db)" using DecomposePixel_defined [OF assms] by blast
  then show ?thesis using ComposeFor_defined [OF assms] by (simp add: AlphaBlendPixel_def)
qed

subsection \<open>Blending\<close>

lemma unat_prod8: "unat (ucast (x :: UINT8) * ucast (y :: UINT8) :: UINT32) = unat x * unat y"
proof -
  have "unat x * unat y \<le> 255 * 255" by (intro mult_le_mono) simp_all
  then show ?thesis by (subst unat_mult32) simp_all
qed

lemma unat_inverse8: "unat (255 - ucast (a :: UINT8) :: UINT32) = 255 - unat a"
  by (subst unat_diff) (simp_all add: word_le_nat_alt)

lemma blend_sum:
  assumes "c \<le> 255" "d \<le> 255" "a \<le> (255 :: nat)"
  shows "min c d * 255 \<le> c * a + d * (255 - a)" "c * a + d * (255 - a) \<le> max c d * 255"
proof -
  have "min c d * 255 = min c d * a + min c d * (255 - a)"
    using assms(3) by (simp add: add_mult_distrib2 [symmetric])
  also have "\<dots> \<le> c * a + d * (255 - a)" by (intro add_mono mult_le_mono) simp_all
  finally show "min c d * 255 \<le> c * a + d * (255 - a)" .
  have "c * a + d * (255 - a) \<le> max c d * a + max c d * (255 - a)"
    by (intro add_mono mult_le_mono) simp_all
  also have "\<dots> = max c d * 255" using assms(3) by (simp add: add_mult_distrib2 [symmetric])
  finally show "c * a + d * (255 - a) \<le> max c d * 255" .
qed

lemma BlendChannel_unat:
  "unat (BlendChannel c d a) = (unat c * unat a + unat d * (255 - unat a) + 127) div 255"
proof -
  let ?s = "unat c * unat a + unat d * (255 - unat a)"
  have s: "?s \<le> max (unat c) (unat d) * 255" by (rule blend_sum) simp_all
  have m: "max (unat c) (unat d) \<le> 255" by simp
  have s': "?s \<le> 65025" using s m by linarith
  have p2: "unat (ucast d * (255 - ucast a) :: UINT32) = unat d * (255 - unat a)"
  proof -
    have "unat d * (255 - unat a) \<le> 65025" using s' by linarith
    then show ?thesis by (subst unat_mult32) (simp_all add: unat_inverse8)
  qed
  have "unat (ucast c * ucast a + ucast d * (255 - ucast a) :: UINT32) = ?s"
    using s' by (subst unat_add32) (simp_all add: unat_prod8 p2)
  then have "unat (ucast c * ucast a + ucast d * (255 - ucast a) + 127 :: UINT32) = ?s + 127"
    using s' by (subst unat_add32) simp_all
  moreover have "(?s + 127) div 255 < 256" using s' by linarith
  ultimately show ?thesis by (simp add: BlendChannel_def unat_ucast_32_8 unat_div)
qed

lemma div_255_between:
  "m * 255 \<le> s \<Longrightarrow> s \<le> M * 255 \<Longrightarrow> m \<le> (s + 127) div 255 \<and> (s + 127) div 255 \<le> M" for s :: nat
  by arith

lemma BlendChannel_between:
  "min (unat c) (unat d) \<le> unat (BlendChannel c d a) \<and> unat (BlendChannel c d a) \<le> max (unat c) (unat d)"
  unfolding BlendChannel_unat by (rule div_255_between; rule blend_sum; simp)

lemma BlendChannel_opaque: "BlendChannel c d 255 = c"
  by (rule word_eq_unatI) (simp add: BlendChannel_unat)

lemma BlendChannel_clear: "BlendChannel c d 0 = d"
  by (rule word_eq_unatI) (simp add: BlendChannel_unat)

lemma BlendChannelOverBlack_eq: "BlendChannelOverBlack c a = BlendChannel c 0 a"
  by (simp add: BlendChannelOverBlack_def BlendChannel_def)

subsection \<open>Round trips\<close>

lemma and_255: "(x :: UINT32) AND 255 = take_bit 8 x"
proof -
  have "(255 :: UINT32) = mask 8" by (simp add: mask_eq_exp_minus_1)
  then show ?thesis by (simp add: take_bit_eq_mask)
qed

lemma byte_of_compose:
  fixes x y z :: UINT8
  defines "p \<equiv> ucast x OR push_bit 8 (ucast y) OR push_bit 16 (ucast z) :: UINT32"
  shows "ucast (p AND 255) = x" "ucast (drop_bit 8 p AND 255) = y" "ucast (drop_bit 16 p AND 255) = z"
  unfolding p_def and_255
  by (rule bit_eqI; auto simp: bit_simps dest: bit_imp_le_length)+

definition rgb8 :: "UINT32 \<Rightarrow> bool" where
  "rgb8 fmt \<longleftrightarrow> fmt = GOP_PIXEL_RED_GREEN_BLUE_RESERVED_8BIT \<or>
     fmt = GOP_PIXEL_BLUE_GREEN_RED_RESERVED_8BIT"

lemma compose_decompose_8bit:
  assumes "rgb8 fmt"
  shows "do { p \<leftarrow> ComposePixel r g b fmt rm gm bm; DecomposePixel p fmt rm gm bm } = Some (r, g, b)"
  using assms by (auto simp: rgb8_def ComposePixel_def DecomposePixel_def gop_format_defs byte_of_compose
      simp del: drop_bit_or)

text \<open>Rounding to \<open>M + 1\<close> levels and back, and the other way round.\<close>

lemma scale_expand:
  assumes "255 \<le> M" "c \<le> (255 :: nat)"
  shows "((c * M + 127) div 255 * 255 + M div 2) div M = c"
proof -
  let ?q = "(c * M + 127) div 255"
  have "?q * 255 + (c * M + 127) mod 255 = c * M + 127" by (rule div_mult_mod_eq)
  moreover have "(c * M + 127) mod 255 < 255" by simp
  ultimately have q: "?q * 255 \<le> c * M + 127" "c * M \<le> ?q * 255 + 127" by linarith+
  have half: "127 \<le> M div 2" "127 + M div 2 < M" using assms(1) by linarith+
  have "c * M \<le> ?q * 255 + M div 2" using q half by linarith
  moreover have "?q * 255 + M div 2 < Suc c * M" using q half by simp
  ultimately show ?thesis using div_nat_eqI [of M c "?q * 255 + M div 2"] by (simp add: mult.commute)
qed

lemma scale_bound: "c \<le> (255 :: nat) \<Longrightarrow> (c * M + 127) div 255 \<le> M"
proof -
  assume "c \<le> 255"
  then have "c * M \<le> 255 * M" by (rule mult_le_mono1)
  then have "(c * M + 127) div 255 \<le> (255 * M + 127) div 255" by (intro div_le_mono) simp
  then show ?thesis by simp
qed

lemma unat_max_value:
  assumes "0 < w" "w < 32"
  shows "unat (push_bit w 1 - 1 :: UINT32) = 2 ^ w - 1"
proof -
  have "(2 :: nat) ^ w < 2 ^ LENGTH(32)" using assms(2) by (intro power_strict_increasing) simp_all
  then have "unat (of_nat (2 ^ w) :: UINT32) = 2 ^ w" by (rule unat_of_nat_lt)
  then have p: "unat (push_bit w 1 :: UINT32) = 2 ^ w"
    by (simp add: push_bit_eq_mult)
  then have "unat (1 :: UINT32) \<le> unat (push_bit w 1 :: UINT32)" unfolding p by simp
  then have "(1 :: UINT32) \<le> push_bit w 1" unfolding word_le_nat_alt .
  then show ?thesis unfolding unat_diff [OF \<open>1 \<le> push_bit w 1\<close>] p by simp
qed

lemma two_power_bounds:
  "8 \<le> w \<Longrightarrow> w \<le> 24 \<Longrightarrow> 255 \<le> 2 ^ w - (1 :: nat) \<and> 2 ^ w - (1 :: nat) \<le> 16777215"
  using power_increasing [of 8 w "2 :: nat"] power_increasing [of w 24 "2 :: nat"]
  by (simp add: le_diff_conv le_diff_conv2)

text \<open>One channel through \<open>ScaleChannel\<close>'s arithmetic and \<open>ExpandChannel\<close>.\<close>

lemma ExpandChannel_scaled:
  assumes w: "8 \<le> unat w" "unat w \<le> 24"
  defines "M \<equiv> push_bit (unat w) 1 - 1 :: UINT32"
  shows "unat ((ucast c * M + 127) div 255) \<le> unat M"
    "ExpandChannel ((ucast c * M + 127) div 255) w = Some c"
proof -
  have M: "unat M = 2 ^ unat w - 1" unfolding M_def using w by (intro unat_max_value) simp_all
  then have Mb: "255 \<le> unat M" "unat M \<le> 16777215" using two_power_bounds [OF w] by simp_all
  have "unat c * unat M \<le> 255 * 16777215" using Mb by (intro mult_le_mono) simp_all
  then have "unat (ucast c * M + 127) = unat c * unat M + 127"
    by (simp add: unat_add32 unat_mult32)
  then have q: "unat ((ucast c * M + 127) div 255) = (unat c * unat M + 127) div 255"
    by (simp add: unat_div)
  have qM: "(unat c * unat M + 127) div 255 \<le> unat M" by (rule scale_bound) simp
  then show "unat ((ucast c * M + 127) div 255) \<le> unat M" by (simp only: q)
  let ?q = "(ucast c * M + 127) div 255"
  have "unat (?q * 255 + drop_bit 1 M) = unat ?q * 255 + unat M div 2"
  proof -
    have "unat ?q * 255 \<le> 16777215 * 255" unfolding q using qM Mb by (intro mult_le_mono) simp_all
    then have "unat (?q * 255) = unat ?q * 255" by (subst unat_mult32) simp_all
    moreover have "unat ?q * 255 + unat M div 2 < 4294967296"
      using \<open>unat ?q * 255 \<le> 16777215 * 255\<close> Mb by linarith
    ultimately show ?thesis by (subst unat_add32) (simp_all only: unat_pairs, simp_all)
  qed
  then have "unat ((?q * 255 + drop_bit 1 M) div M) = (unat ?q * 255 + unat M div 2) div unat M"
    by (simp only: unat_div)
  then have "unat ((?q * 255 + drop_bit 1 M) div M) = unat c"
    unfolding q using scale_expand [OF Mb(1), of "unat c"] by simp
  then have "ucast ((?q * 255 + drop_bit 1 M) div M) = c"
    by (intro word_eq_unatI) (simp add: unat_ucast_32_8)
  moreover have "w \<noteq> 0" "w < 32" using w by (auto simp: word_less_nat_alt)
  ultimately show "ExpandChannel ?q w = Some c"
    by (simp add: ExpandChannel_def shl32_def M_def)
qed

text \<open>A contiguous mask of \<open>w\<close> bits from bit \<open>s\<close> on, and what the mask routines read off it.\<close>

definition channel_mask :: "nat \<Rightarrow> nat \<Rightarrow> UINT32" where
  "channel_mask s w = push_bit s (mask w)"

lemma bit_channel_mask: "bit (channel_mask s w) i \<longleftrightarrow> i < 32 \<and> s \<le> i \<and> i < s + w"
  by (auto simp: channel_mask_def bit_simps)

lemma layout_unique:
  assumes "layout m s w" "layout m s' w'" shows "s = s'" "w = w'"
proof -
  have "\<not> s < s'" using assms by (auto simp: layout_def)
  moreover have "\<not> s' < s" using assms by (auto simp: layout_def)
  ultimately show s: "s = s'" by simp
  have "\<not> w < w'" "\<not> w' < w" using assms unfolding s by (auto simp: layout_def)
  then show "w = w'" by simp
qed

lemma channel_mask_layout:
  assumes "0 < w" "s + w \<le> 32" shows "layout (channel_mask s w) s w"
  using assms by (auto simp: layout_def bit_channel_mask)

lemma channel_mask_shift_width:
  assumes w: "0 < w" "s + w \<le> 32"
  shows "MaskShift (channel_mask s w) = Some (of_nat s)"
    "MaskWidth (channel_mask s w) (of_nat s) = Some (of_nat w)"
proof -
  have "channel_mask s w \<noteq> 0"
    using w bit_channel_mask [of s w s] by auto
  then obtain a b where ab: "MaskShift (channel_mask s w) = Some a"
      "MaskWidth (channel_mask s w) a = Some b" "layout (channel_mask s w) (unat a) (unat b)"
    by (rule mask_layout)
  with layout_unique [OF ab(3) channel_mask_layout [OF w]] have "a = of_nat s" "b = of_nat w"
    by (auto simp flip: word_unat_eq_iff simp: word_nat)
  with ab show "MaskShift (channel_mask s w) = Some (of_nat s)"
    "MaskWidth (channel_mask s w) (of_nat s) = Some (of_nat w)" by simp_all
qed

lemma and_zero_iff: "a AND b = (0 :: UINT32) \<longleftrightarrow> (\<forall>i. \<not> (bit a i \<and> bit b i))"
proof
  assume "a AND b = 0"
  then have "\<not> bit (a AND b) i" for i by simp
  then show "\<forall>i. \<not> (bit a i \<and> bit b i)" by (simp only: bit_and_iff) blast
next
  assume "\<forall>i. \<not> (bit a i \<and> bit b i)"
  then show "a AND b = 0" by (intro bit_eqI) (simp add: bit_and_iff)
qed

lemma bits_below:
  assumes "unat (x :: UINT32) < 2 ^ w" "bit x i" shows "i < w"
proof -
  have "unat (take_bit w x) = unat x"
    using assms(1) by (simp add: unsigned_take_bit_eq take_bit_nat_eq_self)
  then have "take_bit w x = x" by (rule word_eq_unatI)
  then have "bit (take_bit w x) i" using assms(2) by simp
  then show ?thesis by (simp add: bit_take_bit_iff)
qed

definition scaled :: "nat \<Rightarrow> UINT8 \<Rightarrow> UINT32" where
  "scaled w c = (ucast c * (2 ^ w - 1) + 127) div 255"

lemma bit_scaled:
  assumes "8 \<le> w" "w \<le> 24" "bit (scaled w c) i" shows "i < w"
proof -
  have w: "unat (of_nat w :: UINT32) = w" using assms by (intro unat_of_nat_lt) simp
  have "unat (scaled w c) \<le> unat (push_bit w 1 - 1 :: UINT32)"
    using ExpandChannel_scaled(1) [of "of_nat w" c] assms unfolding w by (simp add: scaled_def)
  also have "\<dots> < 2 ^ w" using assms by (subst unat_max_value) simp_all
  finally show ?thesis using bits_below assms(3) by blast
qed

lemma ScaleChannel_channel_mask:
  assumes "8 \<le> w" "w \<le> 24" "s + w \<le> 32"
  shows "ScaleChannel (ucast c) (channel_mask s w) = Some (push_bit s (scaled w c))"
proof -
  have sw: "MaskShift (channel_mask s w) = Some (of_nat s)"
    "MaskWidth (channel_mask s w) (of_nat s) = Some (of_nat w)"
    using assms by (simp_all add: channel_mask_shift_width)
  have "channel_mask s w \<noteq> 0" using bit_channel_mask [of s w s] assms by auto
  moreover have "unat (of_nat s :: UINT32) = s" "unat (of_nat w :: UINT32) = w"
    using assms by (simp_all add: unat_of_nat_lt)
  moreover have "push_bit s (scaled w c) AND channel_mask s w = push_bit s (scaled w c)"
    using assms by (intro bit_eqI) (auto simp: bit_simps bit_channel_mask dest: bit_scaled)
  ultimately show ?thesis
    using sw assms by (simp add: ScaleChannel_def shl32_def word_less_nat_alt scaled_def [symmetric] Let_def)
qed

lemma channel_of_pixel:
  assumes w: "8 \<le> w" "w \<le> 24" "s + w \<le> 32" and rest: "rest AND channel_mask s w = 0"
    and p: "p = push_bit s (scaled w c) OR rest"
  defines "m \<equiv> channel_mask s w"
  shows "do { v \<leftarrow> shr32 (p AND m) (of_nat s);
      ExpandChannel v (of_nat w) } = Some c"
proof -
  have "\<not> bit rest (s + i)" if "i < w" for i
  proof -
    have "s + i < 32" "s \<le> s + i" "s + i < s + w" using w that by simp_all
    then show ?thesis using rest unfolding and_zero_iff bit_channel_mask by blast
  qed
  then have "drop_bit s ((push_bit s (scaled w c) OR rest) AND m) = scaled w c"
    using w unfolding m_def
    by (intro bit_eqI) (auto simp: bit_simps bit_channel_mask dest: bit_scaled)
  moreover have "unat (of_nat s :: UINT32) = s" "unat (of_nat w :: UINT32) = w"
    using w by (simp_all add: unat_of_nat_lt)
  ultimately show ?thesis
    using ExpandChannel_scaled(2) [of "of_nat w" c] w
    by (simp add: p shr32_def word_less_nat_alt scaled_def)
qed

definition wide_channel :: "nat \<Rightarrow> nat \<Rightarrow> bool" where
  "wide_channel s w \<longleftrightarrow> 8 \<le> w \<and> w \<le> 24 \<and> s + w \<le> 32"

lemma scaled_in_mask:
  "wide_channel s w \<Longrightarrow> bit (push_bit s (scaled w c)) i \<Longrightarrow> bit (channel_mask s w) i"
  by (auto simp: bit_simps bit_channel_mask wide_channel_def dest: bit_scaled)

theorem compose_decompose_bit_mask:
  assumes wide: "wide_channel rs rw" "wide_channel gs gw" "wide_channel bs bw"
    and apart: "channel_mask rs rw AND channel_mask gs gw = 0"
      "channel_mask rs rw AND channel_mask bs bw = 0" "channel_mask gs gw AND channel_mask bs bw = 0"
  shows "do { p \<leftarrow> ComposePixel r g b GOP_PIXEL_BIT_MASK
           (channel_mask rs rw) (channel_mask gs gw) (channel_mask bs bw);
         DecomposePixel p GOP_PIXEL_BIT_MASK
           (channel_mask rs rw) (channel_mask gs gw) (channel_mask bs bw) } = Some (r, g, b)"
proof -
  let ?R = "push_bit rs (scaled rw r)" and ?G = "push_bit gs (scaled gw g)"
  let ?B = "push_bit bs (scaled bw b)"
  let ?p = "?R OR ?G OR ?B"
  have zero: "(?G OR ?B) AND channel_mask rs rw = 0" "(?R OR ?B) AND channel_mask gs gw = 0"
    "(?R OR ?G) AND channel_mask bs bw = 0"
    using apart scaled_in_mask [OF wide(1), of r] scaled_in_mask [OF wide(2), of g]
      scaled_in_mask [OF wide(3), of b]
    unfolding and_zero_iff bit_or_iff by blast+
  have order: "?p = ?G OR (?R OR ?B)" "?p = ?B OR (?R OR ?G)" by (simp_all add: ac_simps)
  have sep: "do { v \<leftarrow> shr32 (?p AND channel_mask rs rw) (of_nat rs); ExpandChannel v (of_nat rw) } = Some r"
    "do { v \<leftarrow> shr32 (?p AND channel_mask gs gw) (of_nat gs); ExpandChannel v (of_nat gw) } = Some g"
    "do { v \<leftarrow> shr32 (?p AND channel_mask bs bw) (of_nat bs); ExpandChannel v (of_nat bw) } = Some b"
    using wide channel_of_pixel [OF _ _ _ zero(1) refl] channel_of_pixel [OF _ _ _ zero(2) order(1)]
      channel_of_pixel [OF _ _ _ zero(3) order(2)]
    by (simp_all only: wide_channel_def)
  have compose: "ComposePixel r g b GOP_PIXEL_BIT_MASK
      (channel_mask rs rw) (channel_mask gs gw) (channel_mask bs bw) = Some ?p"
    using wide by (simp add: ComposePixel_def gop_format_defs wide_channel_def
        ScaleChannel_channel_mask or.assoc)
  have "0 < rw" "0 < gw" "0 < bw" using wide by (auto simp: wide_channel_def)
  note sw = channel_mask_shift_width [OF this(1)] channel_mask_shift_width [OF this(2)]
    channel_mask_shift_width [OF this(3)]
  have "DecomposePixel ?p GOP_PIXEL_BIT_MASK
      (channel_mask rs rw) (channel_mask gs gw) (channel_mask bs bw) = Some (r, g, b)"
    using sep wide sw unfolding wide_channel_def
    by (auto simp: DecomposePixel_def gop_format_defs Option.bind_eq_Some_conv)
  with compose show ?thesis by simp
qed

text \<open>Three masks that share no bit, each a run of 8 to 24 bits.\<close>

definition wide_masks :: "UINT32 \<Rightarrow> UINT32 \<Rightarrow> UINT32 \<Rightarrow> bool" where
  "wide_masks rm gm bm \<longleftrightarrow> (\<exists>rs rw gs gw bs bw. wide_channel rs rw \<and> wide_channel gs gw \<and> wide_channel bs bw \<and>
     rm = channel_mask rs rw \<and> gm = channel_mask gs gw \<and> bm = channel_mask bs bw \<and>
     rm AND gm = 0 \<and> rm AND bm = 0 \<and> gm AND bm = 0)"

end
