(* ===== verification/Surface.thy ===== *)
theory Surface
  imports Pixel
begin

text \<open>
  Surfaces (framebuffers in memory) and the routines that clear, fill and copy rectangles
  of them.  \<open>recolours fb F h h'\<close> is the specification language of all drawing code: going
  from heap \<open>h\<close> to \<open>h'\<close>, every on-screen pixel \<open>(x, y)\<close> of \<open>fb\<close> changed its colour
  \<open>c\<close> to \<open>F x y c\<close> and nothing else in memory changed.
\<close>

subsection \<open>The routines\<close>

definition ClearScreen :: "FRAMEBUFFER_INFO \<Rightarrow> UINT32 \<Rightarrow> UINT8 \<Rightarrow> heap \<Rightarrow> heap option" where
  "ClearScreen Fb Color IgnoreBlackPixels h =
     (if IgnoreBlackPixels \<noteq> 0 \<and> Color = 0 then Some h
      else let Total = PixelsPerScanLine Fb * ScreenHeight Fb
           in FillPixels32 (Framebuffer Fb) Total Color h)"

definition ClearRect ::
  "FRAMEBUFFER_INFO \<Rightarrow> UINT32 \<Rightarrow> UINT32 \<Rightarrow> UINT32 \<Rightarrow> UINT32 \<Rightarrow> UINT32 \<Rightarrow> heap \<Rightarrow> heap option" where
  "ClearRect fb x y width height color h =
     (if x \<ge> ScreenWidth fb \<or> y \<ge> ScreenHeight fb then Some h
      else
        let maxWidth = ScreenWidth fb - x;
            maxHeight = ScreenHeight fb - y;
            width = (if width > maxWidth then maxWidth else width);
            height = (if height > maxHeight then maxHeight else height)
        in for32 0 height (\<lambda>row.
             let offset = (y + row) * PixelsPerScanLine fb + x
             in FillPixels32 (elem32 (Framebuffer fb) offset) width color) h)"

text \<open>Parameters the code compares with the null pointer are options.\<close>

definition BlitSurfaceRect ::
  "FRAMEBUFFER_INFO option \<Rightarrow> FRAMEBUFFER_INFO option \<Rightarrow> UINT32 \<Rightarrow> UINT32 \<Rightarrow> UINT32 \<Rightarrow> UINT32 \<Rightarrow>
   heap \<Rightarrow> heap option" where
  "BlitSurfaceRect Destination Source X Y Width Height h =
     (case (Destination, Source) of
        (Some d, Some s) \<Rightarrow>
          if Framebuffer d = 0 \<or> Framebuffer s = 0 then Some h
          else if X \<ge> ScreenWidth d \<or> Y \<ge> ScreenHeight d \<or> X \<ge> ScreenWidth s \<or> Y \<ge> ScreenHeight s
          then Some h
          else
            let MaxWidth = ScreenWidth d - X;
                MaxWidth = (if ScreenWidth s - X < MaxWidth then ScreenWidth s - X else MaxWidth);
                MaxHeight = ScreenHeight d - Y;
                MaxHeight = (if ScreenHeight s - Y < MaxHeight then ScreenHeight s - Y else MaxHeight);
                Width = (if Width > MaxWidth then MaxWidth else Width);
                Height = (if Height > MaxHeight then MaxHeight else Height)
            in for32 0 Height (\<lambda>Row.
                 let DestinationOffset = (Y + Row) * PixelsPerScanLine d + X;
                     SourceOffset = (Y + Row) * PixelsPerScanLine s + X
                 in CopyPixels32 (elem32 (Framebuffer d) DestinationOffset)
                      (elem32 (Framebuffer s) SourceOffset) Width) h
      | _ \<Rightarrow> Some h)"

subsection \<open>Surfaces in memory\<close>

text \<open>The address of pixel \<open>(x, y)\<close>, as the code computes it: the index wraps at 32 bits.\<close>

definition pixel_at :: "FRAMEBUFFER_INFO \<Rightarrow> UINT32 \<Rightarrow> UINT32 \<Rightarrow> ptr" where
  "pixel_at fb x y = elem32 (Framebuffer fb) (y * PixelsPerScanLine fb + x)"

definition on_screen :: "FRAMEBUFFER_INFO \<Rightarrow> UINT32 \<Rightarrow> UINT32 \<Rightarrow> bool" where
  "on_screen fb x y \<longleftrightarrow> x < ScreenWidth fb \<and> y < ScreenHeight fb"

text \<open>
  A well-formed mode: scan lines hold the visible width, the number of pixels fits 32 bits
  and both dimensions fit a non-negative \<open>INT32\<close>.
\<close>

definition surface_ok :: "FRAMEBUFFER_INFO \<Rightarrow> bool" where
  "surface_ok fb \<longleftrightarrow> ScreenWidth fb \<le> PixelsPerScanLine fb \<and>
     unat (PixelsPerScanLine fb) * unat (ScreenHeight fb) < 4294967296 \<and>
     unat (ScreenWidth fb) < 2147483648 \<and> unat (ScreenHeight fb) < 2147483648"

definition surface_cells :: "FRAMEBUFFER_INFO \<Rightarrow> ptr set" where
  "surface_cells fb = cells (Framebuffer fb) (unat (PixelsPerScanLine fb * ScreenHeight fb))"

definition mapped :: "FRAMEBUFFER_INFO \<Rightarrow> heap \<Rightarrow> bool" where
  "mapped fb h \<longleftrightarrow> surface_ok fb \<and> surface_cells fb \<subseteq> dom h"

definition visible :: "FRAMEBUFFER_INFO \<Rightarrow> ptr set" where
  "visible fb = {pixel_at fb x y | x y. on_screen fb x y}"

type_synonym shader = "UINT32 \<Rightarrow> UINT32 \<Rightarrow> UINT32 \<Rightarrow> UINT32"

definition recolours :: "FRAMEBUFFER_INFO \<Rightarrow> shader \<Rightarrow> heap \<Rightarrow> heap \<Rightarrow> bool" where
  "recolours fb F h h' \<longleftrightarrow>
     (\<forall>q. q \<notin> visible fb \<longrightarrow> h' q = h q) \<and>
     (\<forall>x y. on_screen fb x y \<longrightarrow> h' (pixel_at fb x y) = map_option (F x y) (h (pixel_at fb x y)))"

text \<open>The rectangle \<open>[x, x + w) \<times> [y, y + h)\<close> of unsigned coordinates.\<close>

definition in_rect :: "UINT32 \<Rightarrow> UINT32 \<Rightarrow> UINT32 \<Rightarrow> UINT32 \<Rightarrow> UINT32 \<Rightarrow> UINT32 \<Rightarrow> bool" where
  "in_rect x y w h X Y \<longleftrightarrow> x \<le> X \<and> X - x < w \<and> y \<le> Y \<and> Y - y < h"

subsection \<open>Addresses of pixels\<close>

lemma elem32_inj [simp]: "elem32 p i = elem32 p j \<longleftrightarrow> i = j"
proof
  assume "elem32 p i = elem32 p j"
  then have "(4 :: UINT64) * ucast i = 4 * ucast j" by (simp add: elem32_def)
  then have "unat ((4 :: UINT64) * ucast i) = unat ((4 :: UINT64) * ucast j)" by simp
  moreover have "unat ((4 :: UINT64) * ucast (k :: UINT32)) = 4 * unat k" for k
  proof -
    have "4 * unat k < 18446744073709551616" using unat_lt32 [of k] by linarith
    then show ?thesis by (subst unat_mult32) simp_all
  qed
  ultimately show "i = j" by (simp add: word_unat_eq_iff)
qed simp

lemma index_nat:
  assumes "surface_ok fb" "x < PixelsPerScanLine fb" "y < ScreenHeight fb"
  shows "unat (y * PixelsPerScanLine fb + x) = unat y * unat (PixelsPerScanLine fb) + unat x"
    "unat y * unat (PixelsPerScanLine fb) + unat x
     < unat (PixelsPerScanLine fb) * unat (ScreenHeight fb)"
proof -
  have x: "unat x < unat (PixelsPerScanLine fb)" and y: "Suc (unat y) \<le> unat (ScreenHeight fb)"
    using assms by (simp_all add: word_less_nat_alt)
  have "unat y * unat (PixelsPerScanLine fb) + unat x < Suc (unat y) * unat (PixelsPerScanLine fb)"
    using x by simp
  also have "\<dots> \<le> unat (ScreenHeight fb) * unat (PixelsPerScanLine fb)"
    using y by (rule mult_le_mono1)
  finally show *: "unat y * unat (PixelsPerScanLine fb) + unat x
     < unat (PixelsPerScanLine fb) * unat (ScreenHeight fb)" by (simp add: mult.commute)
  with assms(1) have "unat y * unat (PixelsPerScanLine fb) + unat x < 4294967296"
    unfolding surface_ok_def by linarith
  then show "unat (y * PixelsPerScanLine fb + x) = unat y * unat (PixelsPerScanLine fb) + unat x"
    by (simp add: unat_add32 unat_mult32)
qed

lemma surface_pixels:
  "surface_ok fb \<Longrightarrow> unat (PixelsPerScanLine fb * ScreenHeight fb)
   = unat (PixelsPerScanLine fb) * unat (ScreenHeight fb)"
  by (simp add: surface_ok_def unat_mult32)

lemma on_screen_line: "surface_ok fb \<Longrightarrow> on_screen fb x y \<Longrightarrow> x < PixelsPerScanLine fb"
  by (auto simp: on_screen_def surface_ok_def)

lemma pixel_at_in_surface:
  assumes "surface_ok fb" "on_screen fb x y" shows "pixel_at fb x y \<in> surface_cells fb"
  unfolding pixel_at_def surface_cells_def
  using assms index_nat [OF assms(1) on_screen_line [OF assms]]
  by (intro elem32_in_cells) (simp add: surface_pixels on_screen_def)

lemma pixel_at_inj:
  assumes ok: "surface_ok fb" and scr: "on_screen fb x y" "on_screen fb x' y'"
  shows "pixel_at fb x y = pixel_at fb x' y' \<longleftrightarrow> x = x' \<and> y = y'"
proof
  assume "pixel_at fb x y = pixel_at fb x' y'"
  then have "y * PixelsPerScanLine fb + x = y' * PixelsPerScanLine fb + x'"
    by (simp add: pixel_at_def)
  then have eq: "unat y * unat (PixelsPerScanLine fb) + unat x
      = unat y' * unat (PixelsPerScanLine fb) + unat x'"
    using scr index_nat(1) [OF ok on_screen_line [OF ok scr(1)], of y]
      index_nat(1) [OF ok on_screen_line [OF ok scr(2)], of y'] by (simp add: on_screen_def)
  have lt: "unat x < unat (PixelsPerScanLine fb)" "unat x' < unat (PixelsPerScanLine fb)"
    using on_screen_line [OF ok] scr by (simp_all add: word_less_nat_alt)
  have "unat x = unat x'"
    using arg_cong [OF eq, of "\<lambda>n. n mod unat (PixelsPerScanLine fb)"] lt by simp
  moreover have "unat y = unat y'"
    using arg_cong [OF eq, of "\<lambda>n. n div unat (PixelsPerScanLine fb)"] lt by simp
  ultimately show "x = x' \<and> y = y'" by (simp add: word_unat_eq_iff)
qed simp

lemma pixel_visible [simp]: "on_screen fb x y \<Longrightarrow> pixel_at fb x y \<in> visible fb"
  by (auto simp: visible_def)

lemma visible_subset: "surface_ok fb \<Longrightarrow> visible fb \<subseteq> surface_cells fb"
  by (auto simp: visible_def pixel_at_in_surface)

lemma mapped_pixel: "mapped fb h \<Longrightarrow> on_screen fb x y \<Longrightarrow> pixel_at fb x y \<in> dom h"
  unfolding mapped_def using pixel_at_in_surface by blast

subsection \<open>The calculus of recolourings\<close>

lemma recoloursD_other: "recolours fb F h h' \<Longrightarrow> q \<notin> visible fb \<Longrightarrow> h' q = h q"
  by (simp add: recolours_def)

lemma recoloursD_pixel:
  "recolours fb F h h' \<Longrightarrow> on_screen fb x y \<Longrightarrow>
   h' (pixel_at fb x y) = map_option (F x y) (h (pixel_at fb x y))"
  by (simp add: recolours_def)

lemma recolours_refl: "(\<And>x y c. on_screen fb x y \<Longrightarrow> F x y c = c) \<Longrightarrow> recolours fb F h h"
  by (auto simp: recolours_def option.map_ident_strong)

lemma recolours_cong:
  "recolours fb F h h' \<Longrightarrow> (\<And>x y c. on_screen fb x y \<Longrightarrow> F x y c = G x y c) \<Longrightarrow> recolours fb G h h'"
  by (auto simp: recolours_def cong: option.map_cong)

lemma recolours_trans:
  "recolours fb F h h1 \<Longrightarrow> recolours fb G h1 h2 \<Longrightarrow>
   (\<And>x y c. on_screen fb x y \<Longrightarrow> G x y (F x y c) = H x y c) \<Longrightarrow> recolours fb H h h2"
  by (auto simp: recolours_def option.map_comp o_def cong: option.map_cong)

lemma recolours_dom:
  assumes "recolours fb F h h'" shows "dom h' = dom h"
proof -
  have "q \<in> dom h' \<longleftrightarrow> q \<in> dom h" for q
  proof (cases "q \<in> visible fb")
    case True
    then obtain x y where "q = pixel_at fb x y" "on_screen fb x y" by (auto simp: visible_def)
    then show ?thesis using recoloursD_pixel [OF assms, of x y] by (auto simp: dom_def)
  qed (use recoloursD_other [OF assms] in \<open>simp add: dom_def\<close>)
  then show ?thesis by blast
qed

lemma recolours_mapped [simp]: "recolours fb F h h' \<Longrightarrow> mapped fb' h' \<longleftrightarrow> mapped fb' h"
  by (simp add: mapped_def recolours_dom)

lemma recolours_unique:
  assumes "recolours fb F h h1" "recolours fb F h h2" shows "h1 = h2"
proof
  fix q
  show "h1 q = h2 q"
  proof (cases "q \<in> visible fb")
    case True
    then obtain x y where "q = pixel_at fb x y" "on_screen fb x y" by (auto simp: visible_def)
    then show ?thesis using assms by (simp add: recoloursD_pixel)
  qed (use assms in \<open>simp add: recoloursD_other\<close>)
qed

text \<open>Writing one pixel.\<close>

lemma recolours_upd:
  assumes "surface_ok fb" "on_screen fb x y" "h (pixel_at fb x y) = Some c0"
  shows "recolours fb (\<lambda>X Y c. if X = x \<and> Y = y then F c else c) h (h(pixel_at fb x y \<mapsto> F c0))"
  using assms by (auto simp: recolours_def pixel_at_inj option.map_ident_strong)

lemma recolours_put:
  assumes "mapped fb h" "on_screen fb x y"
  shows "wp (recolours fb (\<lambda>X Y c. if X = x \<and> Y = y then v else c) h) (store32 (pixel_at fb x y) v h)"
  using assms mapped_pixel [OF assms] recolours_upd [of fb x y h _ "\<lambda>_. v"]
  by (auto simp: store32_wp mapped_def)

text \<open>A pixel update that reads the old colour first.\<close>

lemma recolours_update:
  assumes "mapped fb h" "on_screen fb x y"
  shows "wp (recolours fb (\<lambda>X Y c. if X = x \<and> Y = y then F c else c) h)
           (do { c \<leftarrow> load32 (pixel_at fb x y) h; store32 (pixel_at fb x y) (F c) h })"
  using assms mapped_pixel [OF assms] recolours_upd [of fb x y h _ F]
  by (auto simp: store32_wp load32_wp mapped_def)

text \<open>
  A loop of recolourings: if iteration \<open>j\<close> recolours by \<open>G j\<close>, and \<open>Fs\<close> accumulates them,
  the loop recolours by \<open>Fs\<close> of its bound.
\<close>

lemma for32_recolours_inv:
  assumes J: "J h" "\<And>h h' F. J h \<Longrightarrow> recolours fb F h h' \<Longrightarrow> J h'"
    and body: "\<And>j h. j < n \<Longrightarrow> J h \<Longrightarrow> wp (recolours fb (G j) h) (f j h)"
    and zero: "\<And>x y c. on_screen fb x y \<Longrightarrow> Fs 0 x y c = c"
    and Suc: "\<And>j x y c. j < n \<Longrightarrow> on_screen fb x y \<Longrightarrow>
      Fs (Suc (unat j)) x y c = G j x y (Fs (unat j) x y c)"
  shows "wp (recolours fb (Fs (unat n)) h) (for32 0 n f h)"
proof (rule wp_for32 [where I = "\<lambda>k h'. recolours fb (Fs k) h h'"])
  show "recolours fb (Fs 0) h h" by (rule recolours_refl) (rule zero)
next
  fix j h' assume j: "j < n" and IH: "recolours fb (Fs (unat j)) h h'"
  then have "J h'" using J by blast
  from body [OF j this] show "wp (recolours fb (Fs (Suc (unat j))) h) (f j h')"
    by (rule wp_mono) (rule recolours_trans [OF IH], assumption, simp add: Suc j)
qed

lemma word_offset_iff: "unat (x - X) = unat j \<longleftrightarrow> x = X + (j :: UINT32)"
proof
  assume "unat (x - X) = unat j"
  then have "x - X = j" by (rule word_eq_unatI)
  then show "x = X + j" by (simp add: diff_eq_eq add.commute)
qed simp

text \<open>
  Rows and columns with wrapping coordinates: column \<open>j\<close> of a row of \<open>w\<close> columns starting at
  \<open>X\<close> is the pixel with \<open>x = X + j\<close>; together they are the pixels with \<open>x - X < w\<close>.
\<close>

lemma columns_recolour:
  assumes "mapped fb h"
    and "\<And>col h. col < w \<Longrightarrow> mapped fb h \<Longrightarrow>
      wp (recolours fb (\<lambda>x y c. if x = X + col \<and> y = Yr then g col x y c else c) h) (body col h)"
  shows "wp (recolours fb (\<lambda>x y c. if x - X < w \<and> y = Yr then g (x - X) x y c else c) h)
           (for32 0 w body h)"
proof -
  have "wp (recolours fb (\<lambda>x y c. if unat (x - X) < unat w \<and> y = Yr then g (x - X) x y c else c) h)
         (for32 0 w body h)"
    by (rule for32_recolours_inv [where J = "mapped fb" and
          Fs = "\<lambda>k x y c. if unat (x - X) < k \<and> y = Yr then g (x - X) x y c else c"])
       (use assms in \<open>auto simp: less_Suc_eq word_offset_iff\<close>)
  then show ?thesis by (simp add: word_less_nat_alt)
qed

lemma rows_recolour_inv:
  assumes "J h" "\<And>h h' F. J h \<Longrightarrow> recolours fb F h h' \<Longrightarrow> J h'"
    and "\<And>row h. row < n \<Longrightarrow> J h \<Longrightarrow>
      wp (recolours fb (\<lambda>x y c. if P row x \<and> y = Y + row then g row x y c else c) h) (body row h)"
  shows "wp (recolours fb (\<lambda>x y c. if P (y - Y) x \<and> y - Y < n then g (y - Y) x y c else c) h)
           (for32 0 n body h)"
proof -
  let ?Fs = "\<lambda>k x y c. if P (y - Y) x \<and> unat (y - Y) < k then g (y - Y) x y c else c"
  have step: "?Fs (Suc (unat j)) x y c =
      (\<lambda>c. if P j x \<and> y = Y + j then g j x y c else c) (?Fs (unat j) x y c)" for j x y c
  proof (cases "y = Y + j")
    case False
    then have "unat (y - Y) \<noteq> unat j" by (simp only: word_offset_iff) simp
    with False show ?thesis by (simp add: less_Suc_eq)
  qed simp
  have "wp (recolours fb (?Fs (unat n)) h) (for32 0 n body h)"
    by (rule for32_recolours_inv [where Fs = ?Fs and J = J and
          G = "\<lambda>row x y c. if P row x \<and> y = Y + row then g row x y c else c"])
       (use assms in \<open>simp_all only: step not_less_zero simp_thms if_False\<close>)
  then show ?thesis by (simp add: word_less_nat_alt)
qed

lemma rows_recolour:
  assumes "mapped fb h"
    and "\<And>row h. row < n \<Longrightarrow> mapped fb h \<Longrightarrow>
      wp (recolours fb (\<lambda>x y c. if P row x \<and> y = Y + row then g row x y c else c) h) (body row h)"
  shows "wp (recolours fb (\<lambda>x y c. if P (y - Y) x \<and> y - Y < n then g (y - Y) x y c else c) h)
           (for32 0 n body h)"
  by (rule rows_recolour_inv [where J = "mapped fb"]) (use assms in simp_all)

subsection \<open>Clearing\<close>

lemma pixel_at_nat:
  assumes "surface_ok fb" "x < PixelsPerScanLine fb" "y < ScreenHeight fb"
  shows "pixel_at fb x y = Framebuffer fb + 4 * of_nat (unat y * unat (PixelsPerScanLine fb) + unat x)"
  unfolding pixel_at_def elem32_nat index_nat(1) [OF assms] ..

lemma pixel_at_shift:
  assumes ok: "surface_ok fb" and y: "y < ScreenHeight fb"
    and i: "unat x + i < unat (ScreenWidth fb)"
  shows "pixel_at fb x y + 4 * of_nat i = pixel_at fb (x + of_nat i) y"
proof -
  have W: "unat (ScreenWidth fb) \<le> unat (PixelsPerScanLine fb)"
    using ok by (simp add: surface_ok_def word_le_nat_alt)
  have "i < 4294967296" using i unat_lt32 [of "ScreenWidth fb"] by linarith
  then have ui: "unat (of_nat i :: UINT32) = i" by (intro unat_of_nat_lt) simp
  have "unat x + i < 4294967296" using i unat_lt32 [of "ScreenWidth fb"] by linarith
  then have xi: "unat (x + of_nat i) = unat x + i" using ui by (subst unat_add32) simp_all
  have "x < PixelsPerScanLine fb" "x + of_nat i < PixelsPerScanLine fb"
    using i W unfolding word_less_nat_alt xi by linarith+
  then show ?thesis by (simp add: pixel_at_nat ok y xi algebra_simps)
qed

lemma row_cell_iff:
  assumes ok: "surface_ok fb" and y: "y < ScreenHeight fb"
    and w: "unat x + unat w \<le> unat (ScreenWidth fb)" and scr: "on_screen fb X Y"
  shows "pixel_at fb X Y \<in> cells (pixel_at fb x y) (unat w) \<longleftrightarrow> Y = y \<and> x \<le> X \<and> X - x < w"
proof
  assume "pixel_at fb X Y \<in> cells (pixel_at fb x y) (unat w)"
  then obtain i where i: "i < unat w" "pixel_at fb X Y = pixel_at fb x y + 4 * of_nat i"
    by (auto simp: cells_def)
  have xi: "unat x + i < unat (ScreenWidth fb)" using i(1) w by linarith
  have lt: "unat x + i < 4294967296" using xi unat_lt32 [of "ScreenWidth fb"] by linarith
  then have ui: "unat (of_nat i :: UINT32) = i" by (intro unat_of_nat_lt) simp
  then have uxi: "unat (x + of_nat i) = unat x + i" using lt by (subst unat_add32) simp_all
  have "on_screen fb (x + of_nat i) y"
    unfolding on_screen_def word_less_nat_alt uxi using xi y by (simp add: word_less_nat_alt)
  then have "X = x + of_nat i" "Y = y"
    using i(2) pixel_at_shift [OF ok y xi] pixel_at_inj [OF ok scr] by simp_all
  then show "Y = y \<and> x \<le> X \<and> X - x < w"
    using i(1) uxi ui by (simp add: word_less_nat_alt word_le_nat_alt)
next
  assume a: "Y = y \<and> x \<le> X \<and> X - x < w"
  then have "unat (X - x) < unat w" "X = x + of_nat (unat (X - x))"
    by (simp_all add: word_less_nat_alt)
  then have "pixel_at fb X Y = pixel_at fb x y + 4 * of_nat (unat (X - x))"
    using a w pixel_at_shift [OF ok y, of x "unat (X - x)"] by simp
  moreover have "pixel_at fb x y + 4 * of_nat (unat (X - x)) \<in> cells (pixel_at fb x y) (unat w)"
    using \<open>unat (X - x) < unat w\<close> by (rule cells_memI)
  ultimately show "pixel_at fb X Y \<in> cells (pixel_at fb x y) (unat w)" by (simp only:)
qed

text \<open>The cells of a row segment are on the screen.\<close>

lemma row_cells_visible:
  assumes ok: "surface_ok fb" and y: "y < ScreenHeight fb"
    and w: "unat x + unat w \<le> unat (ScreenWidth fb)"
  shows "cells (pixel_at fb x y) (unat w) \<subseteq> visible fb"
proof
  fix q assume "q \<in> cells (pixel_at fb x y) (unat w)"
  then obtain i where i: "i < unat w" "q = pixel_at fb x y + 4 * of_nat i"
    by (auto simp: cells_def)
  then have xi: "unat x + i < unat (ScreenWidth fb)" using w by linarith
  have lt: "unat x + i < 4294967296" using xi unat_lt32 [of "ScreenWidth fb"] by linarith
  then have "unat (of_nat i :: UINT32) = i" by (intro unat_of_nat_lt) simp
  then have uxi: "unat (x + of_nat i) = unat x + i" using lt by (subst unat_add32) simp_all
  have "on_screen fb (x + of_nat i) y"
    unfolding on_screen_def word_less_nat_alt uxi using xi y by (simp add: word_less_nat_alt)
  then show "q \<in> visible fb" unfolding i(2) pixel_at_shift [OF ok y xi] by simp
qed

lemma row_cells_mapped:
  assumes "mapped fb h" "y < ScreenHeight fb" "unat x + unat w \<le> unat (ScreenWidth fb)"
  shows "cells (pixel_at fb x y) (unat w) \<subseteq> dom h"
  using row_cells_visible [of fb y x w] visible_subset [of fb] assms
  unfolding mapped_def by blast

lemma fill_row_recolours:
  assumes "mapped fb h" "y < ScreenHeight fb" "unat x + unat w \<le> unat (ScreenWidth fb)"
  shows "wp (recolours fb (\<lambda>X Y c. if (x \<le> X \<and> X - x < w) \<and> Y = y then color else c) h)
           (FillPixels32 (pixel_at fb x y) w color h)"
proof -
  have ok: "surface_ok fb" using assms(1) by (simp add: mapped_def)
  have "recolours fb (\<lambda>X Y c. if (x \<le> X \<and> X - x < w) \<and> Y = y then color else c) h
      (fill (cells (pixel_at fb x y) (unat w)) color h)"
    unfolding recolours_def
  proof (intro conjI allI impI)
    fix q assume "q \<notin> visible fb"
    then show "fill (cells (pixel_at fb x y) (unat w)) color h q = h q"
      using row_cells_visible [OF ok assms(2,3)] by (auto simp: fill_def)
  next
    fix X Y assume scr: "on_screen fb X Y"
    obtain c where "h (pixel_at fb X Y) = Some c" using mapped_pixel [OF assms(1) scr] by blast
    then show "fill (cells (pixel_at fb x y) (unat w)) color h (pixel_at fb X Y) =
        map_option (\<lambda>c. if (x \<le> X \<and> X - x < w) \<and> Y = y then color else c) (h (pixel_at fb X Y))"
      using row_cell_iff [OF ok assms(2,3) scr] by (auto simp: fill_def)
  qed
  then show ?thesis
    by (simp add: FillPixels32_fill [OF row_cells_mapped [OF assms]])
qed

text \<open>Clipping a width to the screen makes the wrapping and the unsigned rectangle agree.\<close>

lemma unat_minus_wrap: "x > X \<Longrightarrow> unat (X - x :: UINT32) = 4294967296 + unat X - unat x"
  by (simp add: unat_sub_if_size word_size word_le_nat_alt word_less_nat_alt)

lemma no_wrap:
  assumes "X < (W :: UINT32)" "x < W" "unat n \<le> unat W - unat x" "X - x < n"
  shows "x \<le> X"
proof (rule ccontr)
  assume "\<not> x \<le> X"
  then have "unat (X - x) = 4294967296 + unat X - unat x" by (simp add: unat_minus_wrap)
  then have "unat W - unat x \<le> unat (X - x)"
    using unat_lt32 [of W] unat_lt32 [of x] by linarith
  with assms(3,4) show False by (simp add: word_less_nat_alt)
qed

theorem ClearRect_recolours:
  assumes m: "mapped fb h"
  shows "wp (recolours fb (\<lambda>X Y c. if x < ScreenWidth fb \<and> y < ScreenHeight fb \<and> in_rect x y w n X Y
            then color else c) h) (ClearRect fb x y w n color h)"
proof (cases "x < ScreenWidth fb \<and> y < ScreenHeight fb")
  case False
  then show ?thesis
    by (auto simp: ClearRect_def not_less intro!: recolours_refl)
next
  case True
  then have in_bounds: "(ScreenWidth fb \<le> x \<or> ScreenHeight fb \<le> y) = False"
    by (simp add: not_le)
  define W where "W = (if w > ScreenWidth fb - x then ScreenWidth fb - x else w)"
  define N where "N = (if n > ScreenHeight fb - y then ScreenHeight fb - y else n)"
  have W: "unat W \<le> unat (ScreenWidth fb) - unat x" and N: "unat N \<le> unat (ScreenHeight fb) - unat y"
    using True by (auto simp: W_def N_def word_less_nat_alt word_le_nat_alt unat_diff)
  have row: "wp (recolours fb (\<lambda>X Y c. if (x \<le> X \<and> X - x < W) \<and> Y = y + row then color else c) h)
      (FillPixels32 (pixel_at fb x (y + row)) W color h)" if "row < N" "mapped fb h" for row h
  proof -
    have "unat y + unat row < unat (ScreenHeight fb)"
      using that(1) N by (simp add: word_less_nat_alt)
    moreover from this have "unat y + unat row < 4294967296"
      using unat_lt32 [of "ScreenHeight fb"] by linarith
    ultimately have "y + row < ScreenHeight fb" by (simp add: word_less_nat_alt unat_add32)
    moreover have "unat x + unat W \<le> unat (ScreenWidth fb)"
      using W True unfolding word_less_nat_alt by linarith
    ultimately show ?thesis using that(2) by (intro fill_row_recolours)
  qed
  have "wp (recolours fb (\<lambda>X Y c. if (x \<le> X \<and> X - x < W) \<and> Y - y < N then color else c) h)
      (for32 0 N (\<lambda>row. FillPixels32 (pixel_at fb x (y + row)) W color) h)"
    by (rule rows_recolour [where P = "\<lambda>_ X. x \<le> X \<and> X - x < W" and g = "\<lambda>_ _ _ _. color", OF m])
       (rule row)
  then have "wp (recolours fb (\<lambda>X Y c. if (x \<le> X \<and> X - x < W) \<and> Y - y < N then color else c) h)
      (ClearRect fb x y w n color h)"
    using in_bounds by (simp only: ClearRect_def pixel_at_def W_def N_def Let_def if_False)
  then show ?thesis
  proof (rule wp_mono, elim recolours_cong)
    fix X Y c assume scr: "on_screen fb X Y"
    have "X - x < W \<longleftrightarrow> X - x < w" if "x \<le> X"
      using that scr True by (auto simp: W_def on_screen_def word_less_nat_alt unat_diff word_le_nat_alt)
    moreover have "Y - y < N \<longleftrightarrow> y \<le> Y \<and> Y - y < n"
      using no_wrap [of Y "ScreenHeight fb" y N] N scr True
      by (auto simp: N_def on_screen_def word_less_nat_alt unat_diff word_le_nat_alt)
    ultimately show "(if (x \<le> X \<and> X - x < W) \<and> Y - y < N then color else c) =
        (if x < ScreenWidth fb \<and> y < ScreenHeight fb \<and> in_rect x y w n X Y then color else c)"
      using True by (auto simp: in_rect_def)
  qed
qed

theorem ClearScreen_fill:
  assumes m: "mapped fb h"
  shows "ClearScreen fb color ignore h =
    Some (if ignore \<noteq> 0 \<and> color = 0 then h else fill (surface_cells fb) color h)"
  using m FillPixels32_fill [of "Framebuffer fb" "PixelsPerScanLine fb * ScreenHeight fb" h color]
  by (simp add: ClearScreen_def surface_cells_def mapped_def)

lemma mapped_fill: "A \<subseteq> dom h \<Longrightarrow> mapped fb (fill A c h) \<longleftrightarrow> mapped fb h"
  by (simp add: mapped_def dom_fill)

subsection \<open>Copying rectangles between surfaces\<close>

text \<open>Two surfaces do not overlap, or are the same one.\<close>

definition apart :: "FRAMEBUFFER_INFO \<Rightarrow> FRAMEBUFFER_INFO \<Rightarrow> bool" where
  "apart d s \<longleftrightarrow> surface_cells d \<inter> surface_cells s = {}"

lemma offset_back [simp]: "x + (X - x) = (X :: 'a::ab_group_add)"
  by (simp add: algebra_simps)

lemma copy_row_recolours:
  assumes d: "mapped d h" and s: "mapped s h" and ap: "apart d s"
    and yd: "y < ScreenHeight d" "unat x + unat w \<le> unat (ScreenWidth d)"
    and ys: "y' < ScreenHeight s" "unat x' + unat w \<le> unat (ScreenWidth s)"
  shows "wp (recolours d (\<lambda>X Y c. if (x \<le> X \<and> X - x < w) \<and> Y = y
            then the (h (pixel_at s (x' + (X - x)) y')) else c) h)
           (CopyPixels32 (pixel_at d x y) (pixel_at s x' y') w h)"
proof -
  have okd: "surface_ok d" and oks: "surface_ok s" using d s by (simp_all add: mapped_def)
  let ?D = "pixel_at d x y" and ?S = "pixel_at s x' y'"
  have disj: "cells ?D (unat w) \<inter> cells ?S (unat w) = {}"
    using row_cells_visible [OF okd yd] row_cells_visible [OF oks ys]
      visible_subset [OF okd] visible_subset [OF oks] ap unfolding apart_def by blast
  have "recolours d (\<lambda>X Y c. if (x \<le> X \<and> X - x < w) \<and> Y = y
            then the (h (pixel_at s (x' + (X - x)) y')) else c) h (blit ?D ?S (unat w) h)"
    unfolding recolours_def
  proof (intro conjI allI impI)
    fix q assume "q \<notin> visible d"
    then show "blit ?D ?S (unat w) h q = h q"
      using row_cells_visible [OF okd yd] by (auto simp: blit_def)
  next
    fix X Y assume scr: "on_screen d X Y"
    obtain c where c: "h (pixel_at d X Y) = Some c" using mapped_pixel [OF d scr] by blast
    show "blit ?D ?S (unat w) h (pixel_at d X Y) = map_option (\<lambda>c. if (x \<le> X \<and> X - x < w) \<and> Y = y
            then the (h (pixel_at s (x' + (X - x)) y')) else c) (h (pixel_at d X Y))"
    proof (cases "(x \<le> X \<and> X - x < w) \<and> Y = y")
      case True
      then have lt: "unat (X - x) < unat w" by (simp add: word_less_nat_alt)
      have "pixel_at d X Y = ?D + 4 * of_nat (unat (X - x))"
        using pixel_at_shift [OF okd yd(1), of x "unat (X - x)"] lt yd(2) True by simp
      moreover have S: "pixel_at s (x' + (X - x)) y' = ?S + 4 * of_nat (unat (X - x))"
        using pixel_at_shift [OF oks ys(1), of x' "unat (X - x)"] lt ys(2) by simp
      moreover have "pixel_at s (x' + (X - x)) y' \<in> dom h"
        unfolding S using row_cells_mapped [OF s ys] cells_memI [OF lt] by blast
      ultimately show ?thesis
        using True row_cell_iff [OF okd yd scr] c by (auto simp: blit_def algebra_simps)
    next
      case False
      then show ?thesis using row_cell_iff [OF okd yd scr] c by (auto simp: blit_def)
    qed
  qed
  then show ?thesis
    by (simp add: CopyPixels32_blit [OF row_cells_mapped [OF d yd] row_cells_mapped [OF s ys]] disj)
qed

lemma apart_keeps_source:
  assumes "apart d s" "surface_ok d" "surface_ok s" "recolours d F h h'" "on_screen s x y"
  shows "h' (pixel_at s x y) = h (pixel_at s x y)"
  using assms visible_subset [of d] pixel_at_in_surface [of s x y]
  unfolding apart_def by (intro recoloursD_other [OF assms(4)]) blast

lemma min_if: "unat (if a < b then a else b) = min (unat a) (unat b)" for a b :: UINT32
  by (auto simp: word_less_nat_alt)

lemma min_if_gt: "unat (if b > a then a else b) = min (unat a) (unat b)" for a b :: UINT32
  by (auto simp: word_less_nat_alt)

lemma offset_in_range:
  assumes "a \<le> x" "x < a + (w :: UINT32)" shows "x - a < w"
proof (cases "unat a + unat w < 4294967296")
  case True
  then have "unat (a + w) = unat a + unat w" by (simp add: unat_add32)
  then show ?thesis using assms by (simp add: word_less_nat_alt word_le_nat_alt unat_diff less_diff_conv2)
next
  case False
  then have "unat (a + w) + 4294967296 = unat a + unat w"
    using unat_lt32 [of a] unat_lt32 [of w] by (simp add: unat_plus_if_size word_size)
  then have "unat x < unat a"
    using assms(2) unat_lt32 [of w] unfolding word_less_nat_alt by linarith
  with assms(1) show ?thesis by (simp add: word_le_nat_alt)
qed

lemma rect_clip:
  assumes "x < (A :: UINT32)" "x < B" "X < A"
    and W: "unat W = min (unat w) (min (unat A - unat x) (unat B - unat x))"
  shows "X - x < W \<longleftrightarrow> x \<le> X \<and> X - x < w \<and> X < B"
proof -
  have "x \<le> X" if "X - x < W"
  proof (rule no_wrap [OF assms(3,1) _ that])
    show "unat W \<le> unat A - unat x" unfolding W by simp
  qed
  moreover have "X - x < W \<longleftrightarrow> X - x < w \<and> X < B" if "x \<le> X"
  proof -
    have "unat X - unat x < unat A - unat x" "unat X - unat x < unat B - unat x \<longleftrightarrow> unat X < unat B"
      using assms(1-3) that by (simp_all add: word_less_nat_alt word_le_nat_alt less_diff_iff diff_less_mono)
    then show ?thesis using that by (simp only: word_less_nat_alt unat_diff W min_less_iff_conj) blast
  qed
  ultimately show ?thesis by blast
qed

text \<open>A rectangle copied row by row, when it lies within both surfaces.\<close>

lemma row_in_range:
  assumes "row < (n :: UINT32)" "unat y + unat n \<le> unat H"
  shows "y + row < (H :: UINT32)"
proof -
  have "unat row < unat n" using assms(1) by (simp add: word_less_nat_alt)
  then have "unat y + unat row < unat H" using assms(2) by linarith
  moreover from this have "unat y + unat row < 4294967296" using unat_lt32 [of H] by linarith
  ultimately show ?thesis by (simp add: word_less_nat_alt unat_add32)
qed

lemma copy_rect_recolours:
  assumes d: "mapped d h" and s: "mapped s h" and ap: "apart d s"
    and bd: "unat x + unat w \<le> unat (ScreenWidth d)" "unat y + unat n \<le> unat (ScreenHeight d)"
    and bs: "unat x' + unat w \<le> unat (ScreenWidth s)" "unat y' + unat n \<le> unat (ScreenHeight s)"
  shows "wp (recolours d (\<lambda>X Y c. if (x \<le> X \<and> X - x < w) \<and> Y - y < n
            then the (h (pixel_at s (x' + (X - x)) (y' + (Y - y)))) else c) h)
     (for32 0 n (\<lambda>row. CopyPixels32 (pixel_at d x (y + row)) (pixel_at s x' (y' + row)) w) h)"
proof -
  have ok: "surface_ok d" "surface_ok s" using d s by (simp_all add: mapped_def)
  let ?J = "\<lambda>h'. mapped d h' \<and> mapped s h' \<and> (\<forall>X Y. on_screen s X Y \<longrightarrow> h' (pixel_at s X Y) = h (pixel_at s X Y))"
  let ?g = "\<lambda>row X. the (h (pixel_at s (x' + (X - x)) (y' + row)))"
  show ?thesis
  proof (rule rows_recolour_inv [where J = ?J and P = "\<lambda>_ X. x \<le> X \<and> X - x < w" and g = "\<lambda>row X _ _. ?g row X"])
    show "?J h" using d s by simp
    show "?J h2" if "?J h1" "recolours d F h1 h2" for h1 h2 F
      using that apart_keeps_source [OF ap ok that(2)] by simp
    fix row h' assume row: "row < n" and J: "?J h'"
    have yd: "y + row < ScreenHeight d" and ys: "y' + row < ScreenHeight s"
      using row_in_range [OF row bd(2)] row_in_range [OF row bs(2)] by simp_all
    have src: "h' (pixel_at s (x' + (X - x)) (y' + row)) = h (pixel_at s (x' + (X - x)) (y' + row))"
      if "X - x < w" for X
      using J row_in_range [OF that bs(1)] ys by (simp add: on_screen_def)
    show "wp (recolours d (\<lambda>X Y c. if (x \<le> X \<and> X - x < w) \<and> Y = y + row then ?g row X else c) h')
      (CopyPixels32 (pixel_at d x (y + row)) (pixel_at s x' (y' + row)) w h')"
      by (rule wp_mono [OF copy_row_recolours [OF _ _ ap yd bd(1) ys bs(1)]])
         (use J in \<open>auto simp: src elim!: recolours_cong\<close>)
  qed
qed

theorem BlitSurfaceRect_recolours:
  assumes d: "mapped d h" and s: "mapped s h" and ap: "apart d s"
    and nn: "Framebuffer d \<noteq> 0" "Framebuffer s \<noteq> 0"
  shows "wp (recolours d (\<lambda>X Y c. if in_rect x y w n X Y \<and> on_screen s X Y
            then the (h (pixel_at s X Y)) else c) h) (BlitSurfaceRect (Some d) (Some s) x y w n h)"
proof (cases "on_screen d x y \<and> on_screen s x y")
  case False
  then have "BlitSurfaceRect (Some d) (Some s) x y w n h = Some h"
    using nn by (auto simp: BlitSurfaceRect_def on_screen_def not_less)
  moreover have "\<not> (in_rect x y w n X Y \<and> on_screen s X Y)" if "on_screen d X Y" for X Y
    using that False by (auto simp: in_rect_def on_screen_def)
  ultimately show ?thesis by (auto intro!: recolours_refl)
next
  case True
  then have bounds: "(ScreenWidth d \<le> x \<or> ScreenHeight d \<le> y \<or> ScreenWidth s \<le> x \<or> ScreenHeight s \<le> y)
      = False" and lt: "x < ScreenWidth d" "y < ScreenHeight d" "x < ScreenWidth s" "y < ScreenHeight s"
    by (simp_all add: on_screen_def not_le)
  define MW where "MW = (if ScreenWidth s - x < ScreenWidth d - x then ScreenWidth s - x else ScreenWidth d - x)"
  define MH where "MH = (if ScreenHeight s - y < ScreenHeight d - y then ScreenHeight s - y else ScreenHeight d - y)"
  define W where "W = (if w > MW then MW else w)"
  define N where "N = (if n > MH then MH else n)"
  have W: "unat W = min (unat w) (min (unat (ScreenWidth d) - unat x) (unat (ScreenWidth s) - unat x))"
    and N: "unat N = min (unat n) (min (unat (ScreenHeight d) - unat y) (unat (ScreenHeight s) - unat y))"
    using lt unfolding W_def N_def MW_def MH_def min_if min_if_gt
    by (simp_all only: unat_diff less_imp_le min.commute min.left_commute min.assoc)
  let ?G = "\<lambda>X Y. the (h (pixel_at s X Y))"
  have "unat x + unat W \<le> unat (ScreenWidth d)" "unat y + unat N \<le> unat (ScreenHeight d)"
    "unat x + unat W \<le> unat (ScreenWidth s)" "unat y + unat N \<le> unat (ScreenHeight s)"
    using W N lt unfolding word_less_nat_alt by linarith+
  from copy_rect_recolours [OF d s ap this]
  have "wp (recolours d (\<lambda>X Y c. if (x \<le> X \<and> X - x < W) \<and> Y - y < N then ?G X Y else c) h)
      (for32 0 N (\<lambda>row. CopyPixels32 (pixel_at d x (y + row)) (pixel_at s x (y + row)) W) h)"
    unfolding offset_back .
  then have "wp (recolours d (\<lambda>X Y c. if (x \<le> X \<and> X - x < W) \<and> Y - y < N then ?G X Y else c) h)
      (BlitSurfaceRect (Some d) (Some s) x y w n h)"
    using bounds nn by (simp only: BlitSurfaceRect_def pixel_at_def W_def N_def MW_def MH_def Let_def
        if_False option.case prod.case simp_thms)
  then show ?thesis
  proof (rule wp_mono, elim recolours_cong)
    fix X Y c assume scr: "on_screen d X Y"
    have "X - x < W \<longleftrightarrow> x \<le> X \<and> X - x < w \<and> X < ScreenWidth s"
      using rect_clip [OF lt(1,3) _ W] scr by (simp add: on_screen_def)
    moreover have "Y - y < N \<longleftrightarrow> y \<le> Y \<and> Y - y < n \<and> Y < ScreenHeight s"
      using rect_clip [OF lt(2,4) _ N] scr by (simp add: on_screen_def)
    ultimately show "(if (x \<le> X \<and> X - x < W) \<and> Y - y < N then ?G X Y else c) =
        (if in_rect x y w n X Y \<and> on_screen s X Y then ?G X Y else c)"
      by (auto simp: in_rect_def on_screen_def)
  qed
qed

subsection \<open>Drawing that stays on the screen\<close>

text \<open>
  The coarse specification of whole screens: \<open>draws fb h h'\<close> says that between the two
  heaps no cell appeared or vanished and only visible pixels of \<open>fb\<close> may differ.
\<close>

definition draws :: "FRAMEBUFFER_INFO \<Rightarrow> heap \<Rightarrow> heap \<Rightarrow> bool" where
  "draws fb h h' \<longleftrightarrow> dom h' = dom h \<and> (\<forall>q. q \<notin> visible fb \<longrightarrow> h' q = h q)"

lemma recolours_draws: "recolours fb F h h' \<Longrightarrow> draws fb h h'"
  by (simp add: draws_def recolours_dom recoloursD_other)

lemma wp_recolours_draws: "wp (recolours fb F h) m \<Longrightarrow> wp (draws fb h) m"
  by (erule wp_mono) (rule recolours_draws)

lemma draws_refl [simp]: "draws fb h h"
  by (simp add: draws_def)

lemma draws_trans: "draws fb h1 h2 \<Longrightarrow> draws fb h2 h3 \<Longrightarrow> draws fb h1 h3"
  by (simp add: draws_def)

lemma draws_mapped: "draws fb h h' \<Longrightarrow> mapped fb' h' \<longleftrightarrow> mapped fb' h"
  by (simp add: mapped_def draws_def)

lemma draws_bind:
  assumes "mapped fb h" "wp (draws fb h) m" "\<And>h'. mapped fb h' \<Longrightarrow> wp (draws fb h') (k h')"
  shows "wp (draws fb h) (Option.bind m k)"
proof (simp, rule wp_mono [OF assms(2)])
  fix h' assume d: "draws fb h h'"
  then have "mapped fb h'" using assms(1) by (simp add: draws_mapped)
  from assms(3) [OF this] show "wp (draws fb h) (k h')"
    by (rule wp_mono) (rule draws_trans [OF d])
qed

lemma draws_for32:
  assumes "mapped fb h" "\<And>j h. mapped fb h \<Longrightarrow> wp (draws fb h) (f j h)"
  shows "wp (draws fb h) (for32 0 n f h)"
proof (rule wp_for32 [where I = "\<lambda>_. draws fb h"])
  fix j h' assume d: "draws fb h h'"
  then have "mapped fb h'" using assms(1) by (simp add: draws_mapped)
  from assms(2) [OF this, of j] show "wp (draws fb h) (f j h')"
    by (rule wp_mono) (rule draws_trans [OF d])
qed simp_all

end
