(* ===== verification/Shapes.thy ===== *)
theory Shapes
  imports Surface
begin

text \<open>
  Rounded boxes: the \<open>UI_BOX\<close> record, the membership test \<open>PointInRoundedBox\<close> with its
  mixture of signed and unsigned arithmetic, and \<open>DrawRoundedBox\<close>, which paints exactly the
  on-screen pixels the test accepts.
\<close>

record UI_BOX =
  X :: UINT32
  Y :: UINT32
  Width :: UINT32
  Height :: UINT32
  Radius :: UINT32
  Color :: UINT32
  Dragging :: UINT8
  DragOffsetX :: INT32
  DragOffsetY :: INT32

definition PointInRoundedBox :: "UINT32 \<Rightarrow> UINT32 \<Rightarrow> UI_BOX \<Rightarrow> UINT8" where
  "PointInRoundedBox x y box =
     (if x < X box \<or> y < Y box \<or> x \<ge> X box + Width box \<or> y \<ge> Y box + Height box then 0
      else let radius = Radius box in
        if radius \<le>s 0 then 1
        else
          let localX = x - X box; localY = y - Y box in
          if localX \<ge> Radius box \<and> localX < Width box - Radius box then 1
          else if localY \<ge> Radius box \<and> localY < Height box - Radius box then 1
          else
            let dx = (if localX <s radius then radius - 1 - localX else localX - (Width box - radius));
                dy = (if localY <s radius then radius - 1 - localY else localY - (Height box - radius))
            in bool8 (dx * dx + dy * dy <s radius * radius))"

definition DrawRoundedBox :: "FRAMEBUFFER_INFO \<Rightarrow> UI_BOX \<Rightarrow> heap \<Rightarrow> heap option" where
  "DrawRoundedBox fb box h =
     for32 0 (Height box) (\<lambda>row.
       for32 0 (Width box) (\<lambda>column h.
         let pixelX = X box + column; pixelY = Y box + row in
         if pixelX \<ge> ScreenWidth fb \<or> pixelY \<ge> ScreenHeight fb then Some h
         else if PointInRoundedBox pixelX pixelY box \<noteq> 0 then
           store32 (elem32 (Framebuffer fb) (pixelY * PixelsPerScanLine fb + pixelX)) (Color box) h
         else Some h)) h"

subsection \<open>The test and the rectangle\<close>

lemma PointInRoundedBox_in_rect:
  assumes "PointInRoundedBox x y box \<noteq> 0"
  shows "x - X box < Width box" "y - Y box < Height box"
proof -
  have "X box \<le> x" "Y box \<le> y" "x < X box + Width box" "y < Y box + Height box"
    using assms by (auto simp: PointInRoundedBox_def not_less not_le split: if_splits)
  then show "x - X box < Width box" "y - Y box < Height box" by (simp_all add: offset_in_range)
qed

subsection \<open>Drawing\<close>

lemma DrawRoundedBox_recolours:
  assumes m: "mapped fb h"
  shows "wp (recolours fb (\<lambda>x y c. if PointInRoundedBox x y box \<noteq> 0 then Color box else c) h)
           (DrawRoundedBox fb box h)"
proof -
  let ?body = "\<lambda>row column h.
         let pixelX = X box + column; pixelY = Y box + row in
         if pixelX \<ge> ScreenWidth fb \<or> pixelY \<ge> ScreenHeight fb then Some h
         else if PointInRoundedBox pixelX pixelY box \<noteq> 0 then
           store32 (elem32 (Framebuffer fb) (pixelY * PixelsPerScanLine fb + pixelX)) (Color box) h
         else Some h"
  let ?c = "\<lambda>x y c. if PointInRoundedBox x y box \<noteq> 0 then Color box else c"
  have px: "wp (recolours fb (\<lambda>x y c. if x = X box + col \<and> y = Y box + row then ?c x y c else c) h)
      (?body row col h)" if "mapped fb h" for row col h
  proof (cases "on_screen fb (X box + col) (Y box + row)")
    case False
    then show ?thesis by (auto simp: on_screen_def not_less intro!: recolours_refl)
  next
    case True
    show ?thesis
    proof (cases "PointInRoundedBox (X box + col) (Y box + row) box = 0")
      case True
      then show ?thesis using \<open>on_screen fb _ _\<close>
        by (simp add: on_screen_def not_less Let_def) (auto intro!: recolours_refl)
    next
      case False
      then have "?body row col h = store32 (pixel_at fb (X box + col) (Y box + row)) (Color box) h"
        using True by (auto simp: on_screen_def not_le pixel_at_def Let_def)
      then show ?thesis
        by (simp only:) (rule wp_mono [OF recolours_put [OF that True, of "Color box"]],
          erule recolours_cong, auto simp: False)
    qed
  qed
  have row: "wp (recolours fb (\<lambda>x y c. if x - X box < Width box \<and> y = Y box + row then ?c x y c else c) h)
      (for32 0 (Width box) (?body row) h)" if "mapped fb h" for row h
    by (rule columns_recolour [where g = "\<lambda>_. ?c", OF that]) (rule px)
  have "wp (recolours fb (\<lambda>x y c. if x - X box < Width box \<and> y - Y box < Height box then ?c x y c else c) h)
      (for32 0 (Height box) (\<lambda>row. for32 0 (Width box) (?body row)) h)"
    by (rule rows_recolour [where P = "\<lambda>_ x. x - X box < Width box" and g = "\<lambda>_. ?c", OF m]) (rule row)
  then show ?thesis unfolding DrawRoundedBox_def
    by (rule wp_mono) (erule recolours_cong, auto dest: PointInRoundedBox_in_rect)
qed

subsection \<open>Geometry of the test\<close>

text \<open>
  A box that neither wraps nor overflows the signed arithmetic: its radius fits twice into
  both sides, and the sides are positive \<open>INT32\<close> values.
\<close>

definition box_ok :: "UI_BOX \<Rightarrow> bool" where
  "box_ok box \<longleftrightarrow> unat (X box) + unat (Width box) < 4294967296 \<and>
     unat (Y box) + unat (Height box) < 4294967296 \<and>
     unat (Width box) < 2147483648 \<and> unat (Height box) < 2147483648 \<and>
     2 * unat (Radius box) \<le> unat (Width box) \<and> 2 * unat (Radius box) \<le> unat (Height box) \<and>
     unat (Radius box) < 32768"

text \<open>The distance from the inner edge of the corner band, along one side of length \<open>n\<close>.\<close>

definition band :: "nat \<Rightarrow> nat \<Rightarrow> nat \<Rightarrow> nat" where
  "band n r i = (if i < r then r - 1 - i else i - (n - r))"

definition rounded :: "nat \<Rightarrow> nat \<Rightarrow> nat \<Rightarrow> nat \<Rightarrow> nat \<Rightarrow> bool" where
  "rounded w h r i j \<longleftrightarrow> i < w \<and> j < h \<and>
     (r = 0 \<or> (r \<le> i \<and> i < w - r) \<or> (r \<le> j \<and> j < h - r) \<or>
      (band w r i)\<^sup>2 + (band h r j)\<^sup>2 < r\<^sup>2)"

lemma sless_small:
  "unat (a :: 32 word) < 2147483648 \<Longrightarrow> unat b < 2147483648 \<Longrightarrow> a <s b \<longleftrightarrow> unat a < unat b"
  by (simp only: word_sless_alt sint_of_small of_nat_less_iff)

lemma band_word:
  assumes i: "unat (i :: 32 word) < unat (n :: 32 word)" and n: "unat n < 2147483648" and r: "2 * unat r \<le> unat n" "0 < unat r"
  shows "unat (if i <s r then r - 1 - i else i - (n - r)) = band (unat n) (unat r) (unat i)
      \<or> (unat r \<le> unat i \<and> unat i < unat n - unat r)"
proof (cases "unat i < unat r")
  case True
  then have "i <s r" using i n r by (subst sless_small) linarith+
  moreover have r1: "unat (r - 1) = unat r - 1" using r(2) by (subst unat_diff) (simp_all add: word_le_nat_alt)
  moreover have "unat (r - 1 - i) = unat r - 1 - unat i"
    using True by (subst unat_diff) (simp_all add: word_le_nat_alt r1)
  ultimately show ?thesis using True by (simp add: band_def)
next
  case False
  then have ns: "\<not> i <s r" using i n r by (subst sless_small) linarith+
  have nr: "unat (n - r) = unat n - unat r" using r(1) by (subst unat_diff) (simp_all add: word_le_nat_alt)
  show ?thesis
  proof (cases "unat i < unat n - unat r")
    case True
    then show ?thesis using False by simp
  next
    case False
    then have "unat (i - (n - r)) = unat i - (unat n - unat r)"
      by (subst unat_diff) (simp_all add: word_le_nat_alt nr)
    then show ?thesis using ns \<open>\<not> unat i < unat r\<close> by (simp add: band_def)
  qed
qed

lemma band_bound: "i < n \<Longrightarrow> 2 * r \<le> n \<Longrightarrow> 0 < r \<Longrightarrow> \<not> (r \<le> i \<and> i < n - r) \<Longrightarrow> band n r i < r"
  by (auto simp: band_def)

lemma square_bound: "a < 32768 \<Longrightarrow> a * a \<le> (1073676289 :: nat)"
proof -
  assume "a < 32768"
  then have "a * a \<le> 32767 * 32767" by (intro mult_le_mono) simp_all
  then show ?thesis by simp
qed

lemma unat_sum_squares:
  assumes "unat dx < r" "unat dy < r" "r < 32768"
  shows "unat (dx * dx + dy * dy :: 32 word) = unat dx * unat dx + unat dy * unat dy"
    "unat dx * unat dx + unat dy * unat dy < 2147483648"
proof -
  have b: "unat dx * unat dx \<le> 1073676289" "unat dy * unat dy \<le> 1073676289"
    using assms by (auto intro: square_bound)
  then show "unat dx * unat dx + unat dy * unat dy < 2147483648" by linarith
  have "unat (dx * dx) = unat dx * unat dx" "unat (dy * dy) = unat dy * unat dy"
    using b by (simp_all add: unat_mult32)
  then show "unat (dx * dx + dy * dy) = unat dx * unat dx + unat dy * unat dy"
    using b by (subst unat_add32) simp_all
qed

lemma bool8_chain:
  "(if a then 1 else if b then 1 else if c then 1 else bool8 d) \<noteq> 0 \<longleftrightarrow> a \<or> b \<or> c \<or> d"
  by simp

lemma PointInRoundedBox_rounded:
  assumes ok: "box_ok box"
  shows "PointInRoundedBox x y box \<noteq> 0 \<longleftrightarrow> X box \<le> x \<and> Y box \<le> y \<and>
    rounded (unat (Width box)) (unat (Height box)) (unat (Radius box)) (unat (x - X box)) (unat (y - Y box))"
proof (cases "X box \<le> x \<and> Y box \<le> y \<and> x < X box + Width box \<and> y < Y box + Height box")
  case False
  have "x < X box + Width box" if "X box \<le> x" "unat (x - X box) < unat (Width box)"
    using that ok by (simp add: box_ok_def word_less_nat_alt word_le_nat_alt unat_diff unat_add32)
  moreover have "y < Y box + Height box" if "Y box \<le> y" "unat (y - Y box) < unat (Height box)"
    using that ok by (simp add: box_ok_def word_less_nat_alt word_le_nat_alt unat_diff unat_add32)
  ultimately show ?thesis
    using False by (auto simp: PointInRoundedBox_def rounded_def not_less not_le)
next
  case True
  define i j r w n where "i = x - X box" and "j = y - Y box" and "r = Radius box"
    and "w = Width box" and "n = Height box"
  have ij: "unat i < unat w" "unat j < unat n"
    using True offset_in_range [of "X box" x w] offset_in_range [of "Y box" y n]
    by (simp_all add: i_def j_def w_def n_def word_less_nat_alt)
  have b: "unat w < 2147483648" "unat n < 2147483648" "2 * unat r \<le> unat w" "2 * unat r \<le> unat n"
    "unat r < 32768" using ok by (simp_all add: box_ok_def w_def n_def r_def)
  have in_box: "(x < X box \<or> y < Y box \<or> x \<ge> X box + Width box \<or> y \<ge> Y box + Height box) = False"
    using True by (simp add: not_le not_less)
  have r0: "r \<le>s 0 \<longleftrightarrow> unat r = 0"
  proof -
    have "r \<le>s 0 \<longleftrightarrow> int (unat r) \<le> 0"
      using b(5) by (simp only: word_sle_eq sint_of_small sint_0)
    then show ?thesis by (simp only: of_nat_le_0_iff)
  qed
  have mid: "(i \<ge> r \<and> i < w - r) \<longleftrightarrow> unat r \<le> unat i \<and> unat i < unat w - unat r"
    "(j \<ge> r \<and> j < n - r) \<longleftrightarrow> unat r \<le> unat j \<and> unat j < unat n - unat r"
    using b by (simp_all add: word_less_nat_alt word_le_nat_alt unat_diff)
  let ?dx = "if i <s r then r - 1 - i else i - (w - r)"
  let ?dy = "if j <s r then r - 1 - j else j - (n - r)"
  have corner: "?dx * ?dx + ?dy * ?dy <s r * r \<longleftrightarrow>
      (band (unat w) (unat r) (unat i))\<^sup>2 + (band (unat n) (unat r) (unat j))\<^sup>2 < (unat r)\<^sup>2"
    if "0 < unat r" "\<not> (unat r \<le> unat i \<and> unat i < unat w - unat r)"
      "\<not> (unat r \<le> unat j \<and> unat j < unat n - unat r)"
  proof -
    have dx: "unat ?dx = band (unat w) (unat r) (unat i)" and dy: "unat ?dy = band (unat n) (unat r) (unat j)"
      using band_word [OF ij(1) b(1,3) that(1)] band_word [OF ij(2) b(2,4) that(1)] that(2,3) by argo+
    have lt: "unat ?dx < unat r" "unat ?dy < unat r"
      unfolding dx dy using band_bound [OF ij(1) b(3) that(1,2)] band_bound [OF ij(2) b(4) that(1,3)] .
    have "unat r * unat r < 2147483648" using square_bound [OF b(5)] by linarith
    then have rr: "unat (r * r) = unat r * unat r" "unat (r * r) < 2147483648"
      by (simp_all add: unat_mult32)
    show ?thesis
      using unat_sum_squares [OF lt b(5)] rr
      by (subst sless_small) (simp_all only: dx dy power2_eq_square)
  qed
  have "PointInRoundedBox x y box \<noteq> 0 \<longleftrightarrow> r \<le>s 0 \<or> (i \<ge> r \<and> i < w - r) \<or> (j \<ge> r \<and> j < n - r) \<or>
      ?dx * ?dx + ?dy * ?dy <s r * r"
    unfolding PointInRoundedBox_def Let_def in_box if_False
    unfolding i_def [symmetric] j_def [symmetric] r_def [symmetric] w_def [symmetric] n_def [symmetric]
    by (rule bool8_chain)
  also have "\<dots> \<longleftrightarrow> rounded (unat w) (unat n) (unat r) (unat i) (unat j)"
    unfolding r0 mid rounded_def using ij corner by blast
  finally show ?thesis using True by (simp only: i_def j_def r_def w_def n_def simp_thms)
qed

text \<open>The shape is its own mirror image in both directions.\<close>

lemma band_mirror: "i < n \<Longrightarrow> 2 * r \<le> n \<Longrightarrow> band n r (n - 1 - i) = band n r i \<or> (r \<le> i \<and> i < n - r)"
  by (auto simp: band_def)

lemma mid_mirror: "i < n \<Longrightarrow> (r \<le> n - 1 - i \<and> n - 1 - i < n - r) \<longleftrightarrow> r \<le> i \<and> i < n - r" for i n r :: nat
  by auto

lemma rounded_mirror:
  assumes "2 * r \<le> w" "2 * r \<le> h" "i < w" "j < h"
  shows "rounded w h r (w - 1 - i) j = rounded w h r i j"
    "rounded w h r i (h - 1 - j) = rounded w h r i j"
  unfolding rounded_def mid_mirror [OF assms(3)] mid_mirror [OF assms(4)]
  using band_mirror [OF assms(3,1)] band_mirror [OF assms(4,2)] assms(3,4) by auto

end
