(* ===== verification/Glyphs.thy ===== *)
theory Glyphs
  imports Surface
begin

text \<open>
  Glyph drawing.  The bitmaps, fonts and tables that the builder generates into
  \<open>generated_bitmap.h\<close> are parameters, collected in the record \<open>ASSETS\<close>.  Each of the
  glyph routines is shown to recolour exactly the on-screen pixels under the glyph whose
  alpha is not zero, for every position, on or off the screen.
\<close>

subsection \<open>Generated assets\<close>

record FONT =
  FIRST_CHAR :: UINT32
  GLYPH_COUNT :: UINT32
  GLYPH_WIDTH :: UINT32
  GLYPH_HEIGHT :: UINT32
  GlyphAlpha :: "UINT8 list"
  GlyphAdvance :: "UINT8 list"

record IMAGE =
  IMAGE_WIDTH :: UINT32
  IMAGE_HEIGHT :: UINT32
  ImagePixels :: "UINT8 list"
  ImageAlpha :: "UINT8 list"

datatype tween_curve =
    LinearIn | LinearOut | LinearInOut | LinearOutIn
  | SineIn | SineOut | SineInOut | SineOutIn
  | CubicIn | CubicOut | CubicInOut | CubicOutIn
  | ExponentialIn | ExponentialOut | ExponentialInOut | ExponentialOutIn
  | BackIn | BackOut | BackInOut | BackOutIn

record ASSETS =
  Splash :: IMAGE
  CursorImage :: IMAGE
  SetupIcon :: IMAGE
  Font :: FONT
  IconFont :: FONT
  SetupTitleFont :: FONT
  SetupUiFont :: FONT
  gTween :: "tween_curve \<Rightarrow> UINT16 list"
  gRuntimeSummaryText :: cstring
  gRuntimeVideoText :: cstring
  gRuntimeRegistryText :: cstring
  gConsoleIconText :: cstring

text \<open>What the builder guarantees: tables as long as their declared dimensions say.\<close>

definition font_ok :: "FONT \<Rightarrow> bool" where
  "font_ok f \<longleftrightarrow>
     unat (GLYPH_COUNT f) * (unat (GLYPH_WIDTH f) * unat (GLYPH_HEIGHT f)) < 4294967296 \<and>
     length (GlyphAlpha f) = unat (GLYPH_COUNT f) * (unat (GLYPH_WIDTH f) * unat (GLYPH_HEIGHT f)) \<and>
     length (GlyphAdvance f) = unat (GLYPH_COUNT f)"

definition image_ok :: "IMAGE \<Rightarrow> bool" where
  "image_ok im \<longleftrightarrow>
     0 < IMAGE_WIDTH im \<and> 0 < IMAGE_HEIGHT im \<and>
     unat (IMAGE_WIDTH im) \<le> 4096 \<and> unat (IMAGE_HEIGHT im) \<le> 4096 \<and>
     length (ImagePixels im) = unat (IMAGE_WIDTH im) * unat (IMAGE_HEIGHT im) * 3 \<and>
     length (ImageAlpha im) = unat (IMAGE_WIDTH im) * unat (IMAGE_HEIGHT im)"

subsection \<open>The routines\<close>

text \<open>The statement \<open>Framebuffer[i] = AlphaBlendPixel(fb, Framebuffer[i], r, g, b, a)\<close>.\<close>

definition BlendInto ::
  "FRAMEBUFFER_INFO \<Rightarrow> UINT32 \<Rightarrow> UINT8 \<Rightarrow> UINT8 \<Rightarrow> UINT8 \<Rightarrow> UINT8 \<Rightarrow> heap \<Rightarrow> heap option" where
  "BlendInto fb i red green blue alpha h = do {
     old \<leftarrow> load32 (elem32 (Framebuffer fb) i) h;
     new \<leftarrow> AlphaBlendPixel fb old red green blue alpha;
     store32 (elem32 (Framebuffer fb) i) new h }"

definition DrawGlyph ::
  "ASSETS \<Rightarrow> FRAMEBUFFER_INFO \<Rightarrow> INT32 \<Rightarrow> INT32 \<Rightarrow> UINT8 \<Rightarrow> UINT8 \<Rightarrow> UINT8 \<Rightarrow> UINT8 \<Rightarrow> heap \<Rightarrow> heap option" where
  "DrawGlyph A fb x y glyph red green blue h =
     (if ucast glyph < FIRST_CHAR (Font A) \<or> ucast glyph \<ge> FIRST_CHAR (Font A) + GLYPH_COUNT (Font A)
      then Some h
      else
        let glyphIndex = ucast glyph - FIRST_CHAR (Font A) in
        for32 0 (GLYPH_HEIGHT (Font A)) (\<lambda>row h.
          let pixelY = y + row in
          if pixelY <s 0 \<or> ScreenHeight fb \<le>s pixelY then Some h
          else for32 0 (GLYPH_WIDTH (Font A)) (\<lambda>column h.
            let pixelX = x + column in
            if pixelX <s 0 \<or> ScreenWidth fb \<le>s pixelX then Some h
            else
              let alphaIndex = glyphIndex * GLYPH_WIDTH (Font A) * GLYPH_HEIGHT (Font A)
                    + row * GLYPH_WIDTH (Font A) + column
              in do {
                alpha \<leftarrow> rd (GlyphAlpha (Font A)) alphaIndex;
                if alpha = 0 then Some h
                else BlendInto fb (pixelY * PixelsPerScanLine fb + pixelX) red green blue alpha h }) h) h)"

definition DrawGlyphAtlas ::
  "FRAMEBUFFER_INFO \<Rightarrow> INT32 \<Rightarrow> INT32 \<Rightarrow> UINT8 \<Rightarrow> UINT8 \<Rightarrow> UINT8 \<Rightarrow> UINT8 \<Rightarrow>
   UINT32 \<Rightarrow> UINT32 \<Rightarrow> UINT32 \<Rightarrow> UINT32 \<Rightarrow> UINT8 list option \<Rightarrow> heap \<Rightarrow> heap option" where
  "DrawGlyphAtlas fb x y glyph red green blue firstChar glyphCount glyphWidth glyphHeight glyphAlpha h =
     (case glyphAlpha of
        None \<Rightarrow> Some h
      | Some table \<Rightarrow>
          if ucast glyph < firstChar \<or> ucast glyph \<ge> firstChar + glyphCount then Some h
          else
            let glyphIndex = ucast glyph - firstChar in
            for32 0 glyphHeight (\<lambda>row h.
              let pixelY = y + row in
              if pixelY <s 0 \<or> ScreenHeight fb \<le>s pixelY then Some h
              else for32 0 glyphWidth (\<lambda>column h.
                let pixelX = x + column in
                if pixelX <s 0 \<or> ScreenWidth fb \<le>s pixelX then Some h
                else
                  let alphaIndex = glyphIndex * glyphWidth * glyphHeight + row * glyphWidth + column
                  in do {
                    alpha \<leftarrow> rd table alphaIndex;
                    if alpha = 0 then Some h
                    else BlendInto fb (pixelY * PixelsPerScanLine fb + pixelX) red green blue alpha h }) h) h)"

definition DrawGlyphScaled ::
  "ASSETS \<Rightarrow> FRAMEBUFFER_INFO \<Rightarrow> INT32 \<Rightarrow> INT32 \<Rightarrow> UINT8 \<Rightarrow> UINT8 \<Rightarrow> UINT8 \<Rightarrow> UINT8 \<Rightarrow> UINT32 \<Rightarrow>
   heap \<Rightarrow> heap option" where
  "DrawGlyphScaled A fb x y glyph red green blue scale h =
     (if scale = 0 \<or> ucast glyph < FIRST_CHAR (Font A)
         \<or> ucast glyph \<ge> FIRST_CHAR (Font A) + GLYPH_COUNT (Font A)
      then Some h
      else
        let glyphIndex = ucast glyph - FIRST_CHAR (Font A) in
        for32 0 (GLYPH_HEIGHT (Font A)) (\<lambda>row.
          for32 0 (GLYPH_WIDTH (Font A)) (\<lambda>column h.
            let alphaIndex = glyphIndex * GLYPH_WIDTH (Font A) * GLYPH_HEIGHT (Font A)
                  + row * GLYPH_WIDTH (Font A) + column
            in do {
              alpha \<leftarrow> rd (GlyphAlpha (Font A)) alphaIndex;
              if alpha = 0 then Some h
              else for32 0 scale (\<lambda>scaleY h.
                let pixelY = y + (row * scale + scaleY) in
                if pixelY <s 0 \<or> ScreenHeight fb \<le>s pixelY then Some h
                else for32 0 scale (\<lambda>scaleX h.
                  let pixelX = x + (column * scale + scaleX) in
                  if pixelX <s 0 \<or> ScreenWidth fb \<le>s pixelX then Some h
                  else
                    let destinationIndex = pixelY * PixelsPerScanLine fb + pixelX
                    in BlendInto fb destinationIndex red green blue alpha h) h) h })) h)"

definition DrawIconGlyph ::
  "ASSETS \<Rightarrow> FRAMEBUFFER_INFO \<Rightarrow> INT32 \<Rightarrow> INT32 \<Rightarrow> UINT8 \<Rightarrow> UINT8 \<Rightarrow> UINT8 \<Rightarrow> UINT8 \<Rightarrow> heap \<Rightarrow> heap option" where
  "DrawIconGlyph A fb x y glyph red green blue h =
     (if ucast glyph < FIRST_CHAR (IconFont A)
         \<or> ucast glyph \<ge> FIRST_CHAR (IconFont A) + GLYPH_COUNT (IconFont A)
      then Some h
      else
        let glyphIndex = ucast glyph - FIRST_CHAR (IconFont A) in
        for32 0 (GLYPH_HEIGHT (IconFont A)) (\<lambda>row h.
          let pixelY = y + row in
          if pixelY <s 0 \<or> ScreenHeight fb \<le>s pixelY then Some h
          else for32 0 (GLYPH_WIDTH (IconFont A)) (\<lambda>column h.
            let pixelX = x + column in
            if pixelX <s 0 \<or> ScreenWidth fb \<le>s pixelX then Some h
            else
              let alphaIndex = glyphIndex * GLYPH_WIDTH (IconFont A) * GLYPH_HEIGHT (IconFont A)
                    + row * GLYPH_WIDTH (IconFont A) + column
              in do {
                alpha \<leftarrow> rd (GlyphAlpha (IconFont A)) alphaIndex;
                if alpha = 0 then Some h
                else BlendInto fb (pixelY * PixelsPerScanLine fb + pixelX) red green blue alpha h }) h) h)"

subsection \<open>Blending one pixel\<close>

definition blended :: "FRAMEBUFFER_INFO \<Rightarrow> UINT8 \<Rightarrow> UINT8 \<Rightarrow> UINT8 \<Rightarrow> UINT8 \<Rightarrow> UINT32 \<Rightarrow> UINT32" where
  "blended fb red green blue alpha c = the (AlphaBlendPixel fb c red green blue alpha)"

lemma AlphaBlendPixel_blended:
  "format_ok fb \<Longrightarrow> AlphaBlendPixel fb c r g b a = Some (blended fb r g b a c)"
  using AlphaBlendPixel_defined [of fb c r g b a] by (auto simp: blended_def)

lemma BlendInto_recolours:
  assumes "mapped fb h" "format_ok fb" "on_screen fb x y"
  shows "wp (recolours fb (\<lambda>X Y c. if X = x \<and> Y = y then blended fb r g b a c else c) h)
           (BlendInto fb (y * PixelsPerScanLine fb + x) r g b a h)"
  using recolours_update [OF assms(1,3), of "blended fb r g b a"]
  by (simp add: BlendInto_def AlphaBlendPixel_blended [OF assms(2)] pixel_at_def)

lemma mapped_clip:
  assumes "mapped fb h"
  shows "(x <s 0 \<or> ScreenWidth fb \<le>s x) \<longleftrightarrow> \<not> x < ScreenWidth fb"
    "(y <s 0 \<or> ScreenHeight fb \<le>s y) \<longleftrightarrow> \<not> y < ScreenHeight fb"
  using assms clip_iff [of "ScreenWidth fb" x] clip_iff [of "ScreenHeight fb" y]
  by (auto simp: mapped_def surface_ok_def signed.not_less)

subsection \<open>Glyph shaders\<close>

text \<open>Column and row within the glyph are wrapping differences of coordinates.\<close>

definition glyph_alpha :: "UINT8 list \<Rightarrow> UINT32 \<Rightarrow> UINT32 \<Rightarrow> UINT32 \<Rightarrow> UINT32 \<Rightarrow> UINT32 \<Rightarrow> UINT8" where
  "glyph_alpha table w h g column row = table ! unat (g * w * h + row * w + column)"

definition glyph_shader ::
  "FRAMEBUFFER_INFO \<Rightarrow> UINT32 \<Rightarrow> UINT32 \<Rightarrow> (UINT32 \<Rightarrow> UINT32 \<Rightarrow> UINT8) \<Rightarrow> INT32 \<Rightarrow> INT32 \<Rightarrow>
   UINT8 \<Rightarrow> UINT8 \<Rightarrow> UINT8 \<Rightarrow> shader" where
  "glyph_shader fb w h alpha x y r g b = (\<lambda>X Y c.
     if X - x < w \<and> Y - y < h \<and> alpha (X - x) (Y - y) \<noteq> 0
     then blended fb r g b (alpha (X - x) (Y - y)) c else c)"

lemma alpha_index:
  assumes "g < count" "row < h" "column < (w :: UINT32)"
    and lim: "unat count * (unat w * unat h) < 4294967296"
  shows "unat (g * w * h + row * w + column) = unat g * unat w * unat h + unat row * unat w + unat column"
    "unat (g * w * h + row * w + column) < unat count * (unat w * unat h)"
proof -
  have lt: "Suc (unat g) \<le> unat count" "Suc (unat row) \<le> unat h" "unat column < unat w"
    using assms(1-3) by (simp_all add: word_less_nat_alt)
  have "unat row * unat w + unat column < Suc (unat row) * unat w" using lt by simp
  also have "\<dots> \<le> unat h * unat w" using lt(2) by (rule mult_le_mono1)
  finally have "unat g * unat w * unat h + unat row * unat w + unat column < Suc (unat g) * (unat w * unat h)"
    by (simp add: mult.assoc mult.commute [of "unat h"])
  also have "\<dots> \<le> unat count * (unat w * unat h)" using lt(1) by (rule mult_le_mono1)
  finally have bound: "unat g * unat w * unat h + unat row * unat w + unat column
      < unat count * (unat w * unat h)" .
  have p1: "unat (row * w) = unat row * unat w" using bound lim by (intro unat_mult32) simp
  have gwh: "unat g * unat w * unat h < 4294967296" using bound lim by linarith
  have "unat g * unat w \<le> unat g * unat w * unat h" using lt(2) by simp
  then have "unat g * unat w < 4294967296" using gwh by (rule le_less_trans)
  then have p2: "unat (g * w) = unat g * unat w" by (intro unat_mult32) simp
  then have p3: "unat (g * w * h) = unat g * unat w * unat h" using gwh by (subst unat_mult32) simp_all
  have p4: "unat (g * w * h + row * w) = unat g * unat w * unat h + unat row * unat w"
    using bound lim by (subst unat_add32) (simp_all add: p1 p3)
  show *: "unat (g * w * h + row * w + column) = unat g * unat w * unat h + unat row * unat w + unat column"
    using bound lim by (subst unat_add32) (simp_all add: p4)
  show "unat (g * w * h + row * w + column) < unat count * (unat w * unat h)" using bound * by simp
qed

text \<open>
  The two nested loops every clipped image shares: rows and columns outside the screen are
  skipped, and what happens at an on-screen pixel touches that pixel only.
\<close>

lemma clipped_pixels_recolour:
  assumes m: "mapped fb h"
    and px: "\<And>row col h. row < gh \<Longrightarrow> col < gw \<Longrightarrow> mapped fb h \<Longrightarrow> on_screen fb (x + col) (y + row) \<Longrightarrow>
      wp (recolours fb (\<lambda>X Y c. if X = x + col \<and> Y = y + row then g row col c else c) h) (B row col h)"
  shows "wp (recolours fb (\<lambda>X Y c. if X - x < gw \<and> Y - y < gh then g (Y - y) (X - x) c else c) h)
    (for32 0 gh (\<lambda>row h.
       if y + row <s 0 \<or> ScreenHeight fb \<le>s y + row then Some h
       else for32 0 gw (\<lambda>col h.
         if x + col <s 0 \<or> ScreenWidth fb \<le>s x + col then Some h else B row col h) h) h)"
    (is "wp _ (for32 0 gh ?row h)")
proof -
  have pixel: "wp (recolours fb (\<lambda>X Y c. if X = x + col \<and> Y = y + row then g row col c else c) h)
      (if x + col <s 0 \<or> ScreenWidth fb \<le>s x + col then Some h else B row col h)"
    if "row < gh" "y + row < ScreenHeight fb" "col < gw" "mapped fb h" for row col h
  proof (cases "x + col < ScreenWidth fb")
    case False
    then show ?thesis
      by (auto simp: mapped_clip [OF that(4)] on_screen_def intro!: recolours_refl)
  next
    case True
    then show ?thesis
      using px [OF that(1,3,4)] that(2) by (simp add: mapped_clip [OF that(4)] on_screen_def)
  qed
  have row: "wp (recolours fb (\<lambda>X Y c. if X - x < gw \<and> Y = y + row then g row (X - x) c else c) h)
      (?row row h)" if "row < gh" "mapped fb h" for row h
  proof (cases "y + row < ScreenHeight fb")
    case False
    then show ?thesis
      by (auto simp: mapped_clip [OF that(2)] on_screen_def intro!: recolours_refl)
  next
    case True
    then have inside: "(y + row <s 0 \<or> ScreenHeight fb \<le>s y + row) = False"
      by (simp add: mapped_clip(2) [OF that(2)])
    show ?thesis
      unfolding inside if_False
      by (rule columns_recolour [where g = "\<lambda>col _ _. g row col", OF that(2) pixel [OF that(1) True]])
  qed
  show ?thesis
    by (rule rows_recolour [where P = "\<lambda>_ X. X - x < gw" and g = "\<lambda>row X _. g row (X - x)", OF m]) (rule row)
qed

lemma glyph_pixels_recolour:
  assumes m: "mapped fb h" and f: "format_ok fb"
    and tab: "\<And>row column. row < gh \<Longrightarrow> column < gw \<Longrightarrow> rd table (idx row column) = Some (alpha column row)"
  shows "wp (recolours fb (glyph_shader fb gw gh alpha x y r g b) h)
    (for32 0 gh (\<lambda>row h.
       let pixelY = y + row in
       if pixelY <s 0 \<or> ScreenHeight fb \<le>s pixelY then Some h
       else for32 0 gw (\<lambda>column h.
         let pixelX = x + column in
         if pixelX <s 0 \<or> ScreenWidth fb \<le>s pixelX then Some h
         else let alphaIndex = idx row column in do {
           alpha \<leftarrow> rd table alphaIndex;
           if alpha = 0 then Some h
           else BlendInto fb (pixelY * PixelsPerScanLine fb + pixelX) r g b alpha h }) h) h)"
proof -
  let ?g = "\<lambda>row col c. if alpha col row \<noteq> 0 then blended fb r g b (alpha col row) c else c"
  have "wp (recolours fb (\<lambda>X Y c. if X - x < gw \<and> Y - y < gh then ?g (Y - y) (X - x) c else c) h)
    (for32 0 gh (\<lambda>row h.
       if y + row <s 0 \<or> ScreenHeight fb \<le>s y + row then Some h
       else for32 0 gw (\<lambda>col h.
         if x + col <s 0 \<or> ScreenWidth fb \<le>s x + col then Some h
         else let alphaIndex = idx row col in do {
           alpha \<leftarrow> rd table alphaIndex;
           if alpha = 0 then Some h
           else BlendInto fb ((y + row) * PixelsPerScanLine fb + (x + col)) r g b alpha h }) h) h)"
  proof (rule clipped_pixels_recolour [OF m, where g = ?g])
    fix row col h
    assume i: "row < gh" "col < gw" "mapped fb h" "on_screen fb (x + col) (y + row)"
    show "wp (recolours fb (\<lambda>X Y c. if X = x + col \<and> Y = y + row then ?g row col c else c) h)
        (let alphaIndex = idx row col in do {
           alpha \<leftarrow> rd table alphaIndex;
           if alpha = 0 then Some h
           else BlendInto fb ((y + row) * PixelsPerScanLine fb + (x + col)) r g b alpha h })"
      using tab [OF i(1,2)] BlendInto_recolours [OF i(3) f i(4), of r g b "alpha col row"]
      by (cases "alpha col row = 0") (simp_all add: Let_def recolours_refl cong: if_cong)
  qed
  then show ?thesis
    unfolding Let_def by (rule wp_mono) (erule recolours_cong, simp add: glyph_shader_def)
qed

text \<open>What a glyph of a font looks like, as a shader; glyphs the font lacks draw nothing.\<close>

definition has_glyph :: "UINT32 \<Rightarrow> UINT32 \<Rightarrow> UINT8 \<Rightarrow> bool" where
  "has_glyph firstChar glyphCount glyph \<longleftrightarrow>
     \<not> ucast glyph < firstChar \<and> \<not> firstChar + glyphCount \<le> ucast glyph"

definition atlas_shader ::
  "FRAMEBUFFER_INFO \<Rightarrow> UINT32 \<Rightarrow> UINT32 \<Rightarrow> UINT32 \<Rightarrow> UINT32 \<Rightarrow> UINT8 list \<Rightarrow> INT32 \<Rightarrow> INT32 \<Rightarrow> UINT8 \<Rightarrow>
   UINT8 \<Rightarrow> UINT8 \<Rightarrow> UINT8 \<Rightarrow> shader" where
  "atlas_shader fb first count w h table x y glyph r g b =
     (if has_glyph first count glyph
      then glyph_shader fb w h (glyph_alpha table w h (ucast glyph - first)) x y r g b
      else (\<lambda>_ _ c. c))"

definition atlas_ok :: "UINT32 \<Rightarrow> UINT32 \<Rightarrow> UINT32 \<Rightarrow> UINT8 list \<Rightarrow> bool" where
  "atlas_ok count w h table \<longleftrightarrow> unat count * (unat w * unat h) < 4294967296 \<and>
     unat count * (unat w * unat h) \<le> length table"

lemma font_ok_atlas: "font_ok f \<Longrightarrow> atlas_ok (GLYPH_COUNT f) (GLYPH_WIDTH f) (GLYPH_HEIGHT f) (GlyphAlpha f)"
  by (simp add: font_ok_def atlas_ok_def)

lemma has_glyph_index: "has_glyph first count glyph \<Longrightarrow> ucast glyph - first < (count :: UINT32)"
  using offset_in_range [of first "ucast glyph" count] by (simp add: has_glyph_def not_less not_le)

lemma has_glyph_cases:
  "(ucast glyph < first \<or> ucast glyph \<ge> first + count) \<longleftrightarrow> \<not> has_glyph first count glyph"
  by (auto simp: has_glyph_def)

lemma rd_glyph_alpha:
  assumes "atlas_ok count w h table" "g < count" "row < h" "column < w"
  shows "rd table (g * w * h + row * w + column) = Some (glyph_alpha table w h g column row)"
  using alpha_index(2) [OF assms(2-4)] assms(1) by (simp add: rd_Some glyph_alpha_def atlas_ok_def)

lemma DrawGlyphAtlas_recolours:
  assumes m: "mapped fb h" and f: "format_ok fb" and a: "atlas_ok count gw gh table"
  shows "wp (recolours fb (atlas_shader fb first count gw gh table x y glyph r g b) h)
           (DrawGlyphAtlas fb x y glyph r g b first count gw gh (Some table) h)"
proof (cases "has_glyph first count glyph")
  case True
  have index: "ucast glyph - first < count" using True by (rule has_glyph_index)
  show ?thesis
    unfolding DrawGlyphAtlas_def option.case has_glyph_cases atlas_shader_def if_P [OF True]
      Let_def [of "ucast glyph - first"]
    using True glyph_pixels_recolour [OF m f, where alpha = "glyph_alpha table gw gh (ucast glyph - first)"
        and idx = "\<lambda>row column. (ucast glyph - first) * gw * gh + row * gw + column",
        OF rd_glyph_alpha [OF a index]]
    by (simp only: simp_thms if_False)
next
  case False
  then show ?thesis
    by (simp add: DrawGlyphAtlas_def has_glyph_cases atlas_shader_def recolours_refl)
qed

lemma DrawGlyphAtlas_None [simp]:
  "DrawGlyphAtlas fb x y glyph r g b first count gw gh None h = Some h"
  by (simp add: DrawGlyphAtlas_def)

text \<open>The console font and the icon font are drawn as their atlases.\<close>

lemma DrawGlyph_atlas:
  "DrawGlyph A fb x y glyph r g b = DrawGlyphAtlas fb x y glyph r g b (FIRST_CHAR (Font A))
     (GLYPH_COUNT (Font A)) (GLYPH_WIDTH (Font A)) (GLYPH_HEIGHT (Font A)) (Some (GlyphAlpha (Font A)))"
  by (rule ext) (simp only: DrawGlyph_def DrawGlyphAtlas_def option.case)

lemma DrawIconGlyph_atlas:
  "DrawIconGlyph A fb x y glyph r g b = DrawGlyphAtlas fb x y glyph r g b (FIRST_CHAR (IconFont A))
     (GLYPH_COUNT (IconFont A)) (GLYPH_WIDTH (IconFont A)) (GLYPH_HEIGHT (IconFont A))
     (Some (GlyphAlpha (IconFont A)))"
  by (rule ext) (simp only: DrawIconGlyph_def DrawGlyphAtlas_def option.case)

subsection \<open>Scaled glyphs\<close>

text \<open>
  Each font pixel becomes a square of \<open>scale\<close> by \<open>scale\<close> pixels, as long as the scaled
  glyph's size does not overflow.
\<close>

definition scaled_shader ::
  "FRAMEBUFFER_INFO \<Rightarrow> UINT32 \<Rightarrow> UINT32 \<Rightarrow> (UINT32 \<Rightarrow> UINT32 \<Rightarrow> UINT8) \<Rightarrow> UINT32 \<Rightarrow> INT32 \<Rightarrow> INT32 \<Rightarrow>
   UINT8 \<Rightarrow> UINT8 \<Rightarrow> UINT8 \<Rightarrow> shader" where
  "scaled_shader fb w h alpha scale x y r g b = (\<lambda>X Y c.
     if (X - x) div scale < w \<and> (Y - y) div scale < h \<and> alpha ((X - x) div scale) ((Y - y) div scale) \<noteq> 0
     then blended fb r g b (alpha ((X - x) div scale) ((Y - y) div scale)) c else c)"

lemma div_eq_between:
  assumes "0 < (s :: nat)" shows "d div s = k \<longleftrightarrow> k * s \<le> d \<and> d < k * s + s"
proof
  assume "d div s = k"
  then show "k * s \<le> d \<and> d < k * s + s"
    using dividend_less_times_div [OF assms, of d] times_div_less_eq_dividend [of s d]
    by (simp add: mult.commute)
next
  assume "k * s \<le> d \<and> d < k * s + s"
  then show "d div s = k" by (intro div_nat_eqI) (simp_all add: mult.commute)
qed

lemma square_offset:
  assumes "scale \<noteq> 0" "unat k < n" "n * unat scale < 4294967296"
  shows "X - (x + k * scale) < scale \<longleftrightarrow> (X - x) div scale = (k :: UINT32)"
proof -
  define d where "d = X - x"
  have pos: "0 < unat scale" using assms(1) by (simp add: unat_gt_0)
  have "Suc (unat k) * unat scale \<le> n * unat scale" using assms(2) by (intro mult_le_mono1) simp
  then have end_: "unat k * unat scale + unat scale < 4294967296" using assms(3) by simp
  then have ks: "unat (k * scale) = unat k * unat scale" by (intro unat_mult32) simp
  have "d - k * scale < scale \<longleftrightarrow> k * scale \<le> d \<and> unat d < unat k * unat scale + unat scale"
  proof
    assume a: "d - k * scale < scale"
    have "k * scale \<le> d"
    proof (rule ccontr)
      assume "\<not> k * scale \<le> d"
      then have "unat (d - k * scale) = 4294967296 + unat d - unat k * unat scale"
        by (simp add: unat_minus_wrap ks)
      then show False using a end_ by (simp add: word_less_nat_alt)
    qed
    then show "k * scale \<le> d \<and> unat d < unat k * unat scale + unat scale"
      using a by (simp add: word_less_nat_alt word_le_nat_alt unat_diff ks)
  next
    assume "k * scale \<le> d \<and> unat d < unat k * unat scale + unat scale"
    then show "d - k * scale < scale"
      by (simp add: word_less_nat_alt word_le_nat_alt unat_diff ks) linarith
  qed
  also have "\<dots> \<longleftrightarrow> unat d div unat scale = unat k"
    unfolding word_le_nat_alt ks div_eq_between [OF pos] ..
  also have "\<dots> \<longleftrightarrow> d div scale = k" by (simp add: word_unat_eq_iff unat_div)
  finally show ?thesis by (simp add: d_def diff_diff_eq)
qed

lemma square_recolours:
  assumes m: "mapped fb h" and f: "format_ok fb" and a: "a \<noteq> 0"
  shows "wp (recolours fb (\<lambda>X Y c. if X - (x + col) < scale \<and> Y - (y + row) < scale
              then blended fb r g b a c else c) h)
    (for32 0 scale (\<lambda>scaleY h.
       let pixelY = y + (row + scaleY) in
       if pixelY <s 0 \<or> ScreenHeight fb \<le>s pixelY then Some h
       else for32 0 scale (\<lambda>scaleX h.
         let pixelX = x + (col + scaleX) in
         if pixelX <s 0 \<or> ScreenWidth fb \<le>s pixelX then Some h
         else let destinationIndex = pixelY * PixelsPerScanLine fb + pixelX
              in BlendInto fb destinationIndex r g b a h) h) h)"
  using glyph_pixels_recolour [OF m f, where table = "[a]" and idx = "\<lambda>_ _. 0" and alpha = "\<lambda>_ _. a"
      and gw = scale and gh = scale and x = "x + col" and y = "y + row" and r = r and g = g and b = b] a
  by (simp add: rd_def glyph_shader_def add.assoc cong: if_cong)

lemma scaled_pixels_recolour:
  assumes m: "mapped fb h" and f: "format_ok fb" and s: "scale \<noteq> 0"
    and size: "unat gw * unat scale < 4294967296" "unat gh * unat scale < 4294967296"
    and tab: "\<And>row column. row < gh \<Longrightarrow> column < gw \<Longrightarrow> rd table (idx row column) = Some (alpha column row)"
  shows "wp (recolours fb (scaled_shader fb gw gh alpha scale x y r g b) h)
    (for32 0 gh (\<lambda>row. for32 0 gw (\<lambda>column h.
      let alphaIndex = idx row column in do {
        alpha \<leftarrow> rd table alphaIndex;
        if alpha = 0 then Some h
        else for32 0 scale (\<lambda>scaleY h.
          let pixelY = y + (row * scale + scaleY) in
          if pixelY <s 0 \<or> ScreenHeight fb \<le>s pixelY then Some h
          else for32 0 scale (\<lambda>scaleX h.
            let pixelX = x + (column * scale + scaleX) in
            if pixelX <s 0 \<or> ScreenWidth fb \<le>s pixelX then Some h
            else let destinationIndex = pixelY * PixelsPerScanLine fb + pixelX
                 in BlendInto fb destinationIndex r g b alpha h) h) h })) h)"
    (is "wp _ (for32 0 gh (\<lambda>row. for32 0 gw (?body row)) h)")
proof -
  let ?cx = "\<lambda>X. (X - x) div scale" and ?cy = "\<lambda>Y. (Y - y) div scale"
  let ?ink = "\<lambda>X Y c. if alpha (?cx X) (?cy Y) \<noteq> 0 then blended fb r g b (alpha (?cx X) (?cy Y)) c else c"
  have cell: "wp (recolours fb (\<lambda>X Y c. if ?cx X = col \<and> ?cy Y = row then ?ink X Y c else c) h)
      (?body row col h)" if "col < gw" "row < gh" "mapped fb h" for row col h
  proof (cases "alpha col row = 0")
    case True
    then show ?thesis using tab [OF that(2,1)] by (auto intro!: recolours_refl simp: Let_def)
  next
    case False
    have shape: "X - (x + col * scale) < scale \<longleftrightarrow> ?cx X = col"
      "Y - (y + row * scale) < scale \<longleftrightarrow> ?cy Y = row" for X Y
      using square_offset [OF s that(1) [unfolded word_less_nat_alt] size(1)]
        square_offset [OF s that(2) [unfolded word_less_nat_alt] size(2)] by blast+
    show ?thesis
      using square_recolours [OF that(3) f False, of x "col * scale" scale y "row * scale" r g b]
        tab [OF that(2,1)] False
      unfolding shape by (simp add: Let_def) (erule wp_mono, erule recolours_cong, simp)
  qed
  have row: "wp (recolours fb (\<lambda>X Y c. if unat (?cx X) < unat gw \<and> ?cy Y = row then ?ink X Y c else c) h)
      (for32 0 gw (?body row) h)" if "row < gh" "mapped fb h" for row h
    by (rule for32_recolours_inv [where J = "mapped fb" and
          G = "\<lambda>col X Y c. if ?cx X = col \<and> ?cy Y = row then ?ink X Y c else c" and
          Fs = "\<lambda>k X Y c. if unat (?cx X) < k \<and> ?cy Y = row then ?ink X Y c else c"])
       (use that cell in \<open>auto simp: less_Suc_eq word_unat_eq_iff\<close>)
  have "wp (recolours fb (\<lambda>X Y c. if unat (?cx X) < unat gw \<and> unat (?cy Y) < unat gh then ?ink X Y c else c) h)
      (for32 0 gh (\<lambda>row. for32 0 gw (?body row)) h)"
    by (rule for32_recolours_inv [where J = "mapped fb" and
          G = "\<lambda>row X Y c. if unat (?cx X) < unat gw \<and> ?cy Y = row then ?ink X Y c else c" and
          Fs = "\<lambda>k X Y c. if unat (?cx X) < unat gw \<and> unat (?cy Y) < k then ?ink X Y c else c"])
       (use m row in \<open>auto simp: less_Suc_eq word_unat_eq_iff\<close>)
  then show ?thesis
    by (rule wp_mono) (erule recolours_cong, simp add: scaled_shader_def word_less_nat_alt)
qed

text \<open>The scaled glyph of the console font.\<close>

definition font_scaled_shader ::
  "FRAMEBUFFER_INFO \<Rightarrow> FONT \<Rightarrow> UINT32 \<Rightarrow> INT32 \<Rightarrow> INT32 \<Rightarrow> UINT8 \<Rightarrow> UINT8 \<Rightarrow> UINT8 \<Rightarrow> UINT8 \<Rightarrow> shader" where
  "font_scaled_shader fb F scale x y glyph r g b =
     (if scale \<noteq> 0 \<and> has_glyph (FIRST_CHAR F) (GLYPH_COUNT F) glyph
      then scaled_shader fb (GLYPH_WIDTH F) (GLYPH_HEIGHT F)
        (glyph_alpha (GlyphAlpha F) (GLYPH_WIDTH F) (GLYPH_HEIGHT F) (ucast glyph - FIRST_CHAR F)) scale x y r g b
      else (\<lambda>_ _ c. c))"

definition scale_ok :: "FONT \<Rightarrow> UINT32 \<Rightarrow> bool" where
  "scale_ok F scale \<longleftrightarrow> unat (GLYPH_WIDTH F) * unat scale < 4294967296 \<and>
     unat (GLYPH_HEIGHT F) * unat scale < 4294967296"

lemma DrawGlyphScaled_recolours:
  assumes m: "mapped fb h" and f: "format_ok fb" and ok: "font_ok (Font A)" and sc: "scale_ok (Font A) scale"
  shows "wp (recolours fb (font_scaled_shader fb (Font A) scale x y glyph r g b) h)
           (DrawGlyphScaled A fb x y glyph r g b scale h)"
proof (cases "scale \<noteq> 0 \<and> has_glyph (FIRST_CHAR (Font A)) (GLYPH_COUNT (Font A)) glyph")
  case True
  let ?g = "ucast glyph - FIRST_CHAR (Font A)"
  let ?w = "GLYPH_WIDTH (Font A)" and ?h = "GLYPH_HEIGHT (Font A)"
  have index: "?g < GLYPH_COUNT (Font A)" using True by (simp add: has_glyph_index)
  show ?thesis
    unfolding DrawGlyphScaled_def has_glyph_cases font_scaled_shader_def if_P [OF True] Let_def [of ?g]
    using True sc scaled_pixels_recolour [OF m f, where alpha = "glyph_alpha (GlyphAlpha (Font A)) ?w ?h ?g"
        and idx = "\<lambda>row column. ?g * ?w * ?h + row * ?w + column",
        OF _ _ _ rd_glyph_alpha [OF font_ok_atlas [OF ok] index]]
    by (simp only: simp_thms if_False scale_ok_def)
next
  case False
  then show ?thesis
    by (auto simp add: DrawGlyphScaled_def has_glyph_cases font_scaled_shader_def intro!: recolours_refl)
qed

text \<open>At scale 1 the scaled routine is the plain one.\<close>

lemma DrawGlyphScaled_1:
  assumes m: "mapped fb h" and f: "format_ok fb" and ok: "font_ok (Font A)"
  shows "DrawGlyphScaled A fb x y glyph r g b 1 h = DrawGlyph A fb x y glyph r g b h"
proof -
  let ?F = "Font A"
  let ?S = "atlas_shader fb (FIRST_CHAR ?F) (GLYPH_COUNT ?F) (GLYPH_WIDTH ?F) (GLYPH_HEIGHT ?F) (GlyphAlpha ?F)
    x y glyph r g b"
  have sc: "scale_ok ?F 1" by (simp add: scale_ok_def)
  have same: "font_scaled_shader fb ?F 1 x y glyph r g b = ?S"
    by (auto simp: font_scaled_shader_def atlas_shader_def scaled_shader_def glyph_shader_def fun_eq_iff)
  obtain h1 where h1: "DrawGlyphScaled A fb x y glyph r g b 1 h = Some h1" "recolours fb ?S h h1"
    using DrawGlyphScaled_recolours [OF m f ok sc, of x y glyph r g b] unfolding same by (rule wpE)
  obtain h2 where "DrawGlyph A fb x y glyph r g b h = Some h2" "recolours fb ?S h h2"
    unfolding DrawGlyph_atlas by (rule wpE [OF DrawGlyphAtlas_recolours [OF m f font_ok_atlas [OF ok]]])
  with h1 show ?thesis by (simp add: recolours_unique)
qed

end
