(* ===== verification/Tween.thy ===== *)
theory Tween
  imports Glyphs
begin

text \<open>
  The precomputed easing curves: \<open>EvaluateTween\<close> selects one of twenty tables by family and
  mode and reads it at a progress clamped to 1024.
\<close>

definition TweenCurve :: "UINT32 \<Rightarrow> UINT32 \<Rightarrow> tween_curve" where
  "TweenCurve tweenFamily tweenMode =
     (if tweenFamily = 1 then
        (if tweenMode = 0 then SineIn else if tweenMode = 1 then SineOut
         else if tweenMode = 2 then SineInOut else SineOutIn)
      else if tweenFamily = 2 then
        (if tweenMode = 0 then CubicIn else if tweenMode = 1 then CubicOut
         else if tweenMode = 2 then CubicInOut else CubicOutIn)
      else if tweenFamily = 3 then
        (if tweenMode = 0 then ExponentialIn else if tweenMode = 1 then ExponentialOut
         else if tweenMode = 2 then ExponentialInOut else ExponentialOutIn)
      else if tweenFamily = 4 then
        (if tweenMode = 0 then BackIn else if tweenMode = 1 then BackOut
         else if tweenMode = 2 then BackInOut else BackOutIn)
      else
        (if tweenMode = 0 then LinearIn else if tweenMode = 1 then LinearOut
         else if tweenMode = 2 then LinearInOut else LinearOutIn))"

definition EvaluateTween :: "ASSETS \<Rightarrow> UINT32 \<Rightarrow> UINT32 \<Rightarrow> UINT32 \<Rightarrow> UINT16 option" where
  "EvaluateTween A tweenFamily tweenMode progress1024 =
     (let progress1024 = (if progress1024 > 1024 then 1024 else progress1024);
          table = gTween A (TweenCurve tweenFamily tweenMode)
      in rd table progress1024)"

text \<open>The curves are finitely many, so that a condition on all tables can be computed.\<close>

instantiation tween_curve :: enum
begin

definition enum_tween_curve :: "tween_curve list" where
  "enum_tween_curve =
     [LinearIn, LinearOut, LinearInOut, LinearOutIn,
      SineIn, SineOut, SineInOut, SineOutIn,
      CubicIn, CubicOut, CubicInOut, CubicOutIn,
      ExponentialIn, ExponentialOut, ExponentialInOut, ExponentialOutIn,
      BackIn, BackOut, BackInOut, BackOutIn]"

definition enum_all_tween_curve :: "(tween_curve \<Rightarrow> bool) \<Rightarrow> bool" where
  "enum_all_tween_curve P \<longleftrightarrow> list_all P enum_class.enum"

definition enum_ex_tween_curve :: "(tween_curve \<Rightarrow> bool) \<Rightarrow> bool" where
  "enum_ex_tween_curve P \<longleftrightarrow> list_ex P enum_class.enum"

instance
proof
  show univ: "UNIV = set (enum_class.enum :: tween_curve list)"
    by (rule UNIV_eq_I, rename_tac c, case_tac c) (simp_all add: enum_tween_curve_def)
  show "distinct (enum_class.enum :: tween_curve list)" by (simp add: enum_tween_curve_def)
  show "enum_class.enum_all P \<longleftrightarrow> Ball UNIV P" for P :: "tween_curve \<Rightarrow> bool"
    unfolding univ by (simp add: enum_all_tween_curve_def list_all_iff)
  show "enum_class.enum_ex P \<longleftrightarrow> Bex UNIV P" for P :: "tween_curve \<Rightarrow> bool"
    unfolding univ by (simp add: enum_ex_tween_curve_def list_ex_iff)
qed

end

text \<open>What the builder generates: 1025 samples per curve, none above 1024.\<close>

definition tweens_ok :: "ASSETS \<Rightarrow> bool" where
  "tweens_ok A \<longleftrightarrow> (\<forall>curve. length (gTween A curve) = 1025 \<and> (\<forall>v \<in> set (gTween A curve). v \<le> 1024))"

lemma EvaluateTween_defined:
  assumes "tweens_ok A"
  shows "\<exists>v. EvaluateTween A fam mode p = Some v \<and> unat v \<le> 1024"
proof -
  let ?t = "gTween A (TweenCurve fam mode)" and ?p = "if p > 1024 then 1024 else p"
  have len: "length ?t = 1025" and le: "\<forall>v \<in> set ?t. v \<le> 1024" using assms by (simp_all add: tweens_ok_def)
  have p: "unat ?p \<le> 1024" by (simp add: word_less_nat_alt)
  then have lt: "unat ?p < length ?t" using len by linarith
  then have "?t ! unat ?p \<le> 1024" using le nth_mem by blast
  then have "unat (?t ! unat ?p) \<le> 1024" by (simp only: word_le_nat_alt) simp
  then show ?thesis
    unfolding EvaluateTween_def Let_def using rd_Some [OF lt] by blast
qed

text \<open>A progress beyond the end is the end.\<close>

lemma EvaluateTween_saturates:
  "1024 \<le> p \<Longrightarrow> EvaluateTween A fam mode p = EvaluateTween A fam mode 1024"
  by (cases "p = 1024") (simp_all add: EvaluateTween_def)

end
