(* ===== verification/Image.thy ===== *)
theory Image
  imports Tween
begin

text \<open>
  Scaled images: the bilinear \<open>DrawImageNearestAlpha\<close> with its 8-bit fixed point sampling,
  and the splash animation.  Sampling never leaves the source image, for any destination
  size, even where the fixed point product wraps; an interpolated channel lies between the
  channels of its four neighbours.
\<close>

subsection \<open>Sampling\<close>

text \<open>The source row (or column) of a destination row, the one after it, and the blend weight.\<close>

definition SourceFixed :: "UINT32 \<Rightarrow> UINT32 \<Rightarrow> UINT32 \<Rightarrow> UINT32" where
  "SourceFixed i drawSize sourceSize =
     (if drawSize > 1 then (i * (sourceSize - 1) * 256) div (drawSize - 1) else 0)"

definition SourceNext :: "UINT32 \<Rightarrow> UINT32 \<Rightarrow> UINT32" where
  "SourceNext s sourceSize = (if s + 1 < sourceSize then s + 1 else s)"

text \<open>The weighted sum of a table at the four neighbours, and its rounding to a byte.\<close>

definition WeightedSum ::
  "UINT8 list \<Rightarrow> UINT32 \<Rightarrow> UINT32 \<Rightarrow> UINT32 \<Rightarrow> UINT32 \<Rightarrow> UINT32 \<Rightarrow> UINT32 \<Rightarrow> UINT32 \<Rightarrow> UINT32 \<Rightarrow> UINT32 option" where
  "WeightedSum t i00 i10 i01 i11 weight00 weight10 weight01 weight11 = do {
     a00 \<leftarrow> rd t i00; a10 \<leftarrow> rd t i10; a01 \<leftarrow> rd t i01; a11 \<leftarrow> rd t i11;
     Some (ucast a00 * weight00 + ucast a10 * weight10 + ucast a01 * weight01 + ucast a11 * weight11) }"

definition RoundChannel :: "UINT32 \<Rightarrow> UINT8" where
  "RoundChannel w = ucast (drop_bit 16 (w + 32768))"

definition DrawImageNearestAlpha ::
  "FRAMEBUFFER_INFO \<Rightarrow> INT32 \<Rightarrow> INT32 \<Rightarrow> UINT32 \<Rightarrow> UINT32 \<Rightarrow> UINT32 \<Rightarrow> UINT32 \<Rightarrow> UINT8 list option \<Rightarrow>
   UINT8 list option \<Rightarrow> heap \<Rightarrow> heap option" where
  "DrawImageNearestAlpha fb x y drawWidth drawHeight sourceWidth sourceHeight pixels alpha h =
     (if drawWidth = 0 \<or> drawHeight = 0 \<or> sourceWidth = 0 \<or> sourceHeight = 0 then Some h
      else case (pixels, alpha) of
        (Some pixels, Some alpha) \<Rightarrow>
          for32 0 drawHeight (\<lambda>row h.
            let sourceYFixed = SourceFixed row drawHeight sourceHeight;
                sourceY = drop_bit 8 sourceYFixed;
                sourceYNext = SourceNext sourceY sourceHeight;
                blendY = sourceYFixed AND 0xFF;
                pixelY = y + row
            in if pixelY <s 0 \<or> ScreenHeight fb \<le>s pixelY then Some h
               else for32 0 drawWidth (\<lambda>column h.
                 let sourceXFixed = SourceFixed column drawWidth sourceWidth;
                     sourceX = drop_bit 8 sourceXFixed;
                     sourceXNext = SourceNext sourceX sourceWidth;
                     blendX = sourceXFixed AND 0xFF;
                     i00 = sourceY * sourceWidth + sourceX;
                     i10 = sourceY * sourceWidth + sourceXNext;
                     i01 = sourceYNext * sourceWidth + sourceX;
                     i11 = sourceYNext * sourceWidth + sourceXNext;
                     weight00 = (256 - blendX) * (256 - blendY);
                     weight10 = blendX * (256 - blendY);
                     weight01 = (256 - blendX) * blendY;
                     weight11 = blendX * blendY;
                     pixelX = x + column
                 in if pixelX <s 0 \<or> ScreenWidth fb \<le>s pixelX then Some h
                    else do {
                      sourceAlphaWeighted \<leftarrow>
                        WeightedSum alpha i00 i10 i01 i11 weight00 weight10 weight01 weight11;
                      let sourceAlpha = RoundChannel sourceAlphaWeighted;
                      if sourceAlpha = 0 then Some h
                      else do {
                        red \<leftarrow> WeightedSum pixels (i00 * 3 + 0) (i10 * 3 + 0) (i01 * 3 + 0) (i11 * 3 + 0)
                          weight00 weight10 weight01 weight11;
                        green \<leftarrow> WeightedSum pixels (i00 * 3 + 1) (i10 * 3 + 1) (i01 * 3 + 1) (i11 * 3 + 1)
                          weight00 weight10 weight01 weight11;
                        blue \<leftarrow> WeightedSum pixels (i00 * 3 + 2) (i10 * 3 + 2) (i01 * 3 + 2) (i11 * 3 + 2)
                          weight00 weight10 weight01 weight11;
                        let destinationIndex = pixelY * PixelsPerScanLine fb + pixelX;
                        BlendInto fb destinationIndex (RoundChannel red) (RoundChannel green)
                          (RoundChannel blue) sourceAlpha h } }) h) h
      | _ \<Rightarrow> Some h)"

subsection \<open>The splash animation\<close>

definition ComputeSplashRect ::
  "ASSETS \<Rightarrow> FRAMEBUFFER_INFO \<Rightarrow> UINT32 \<Rightarrow> UINT32 \<times> UINT32 \<times> UINT32 \<times> UINT32" where
  "ComputeSplashRect A fb scale1024 =
     (let drawWidth = (IMAGE_WIDTH (Splash A) * scale1024) div 1024;
          drawHeight = (IMAGE_HEIGHT (Splash A) * scale1024) div 1024;
          drawWidth = (if drawWidth > ScreenWidth fb then ScreenWidth fb else drawWidth);
          drawHeight = (if drawHeight > ScreenHeight fb then ScreenHeight fb else drawHeight);
          (startX, startY) =
            (if drawWidth = 0 \<or> drawHeight = 0 then (0, 0)
             else
               (if ScreenWidth fb > drawWidth then drop_bit 1 (ScreenWidth fb - drawWidth) else 0,
                if ScreenHeight fb > drawHeight then drop_bit 1 (ScreenHeight fb - drawHeight) else 0))
      in (startX, startY, drawWidth, drawHeight))"

definition DrawSplashFrame ::
  "ASSETS \<Rightarrow> FRAMEBUFFER_INFO \<Rightarrow> UINT8 \<Rightarrow> UINT32 \<Rightarrow> heap \<Rightarrow> heap option" where
  "DrawSplashFrame A fb alpha scale1024 h =
     (let (startX, startY, drawWidth, drawHeight) = ComputeSplashRect A fb scale1024 in
      if drawWidth = 0 \<or> drawHeight = 0 then Some h
      else for32 0 drawHeight (\<lambda>y.
        let framebufferRow = (startY + y) * PixelsPerScanLine fb + startX;
            sourceY = (y * IMAGE_HEIGHT (Splash A)) div drawHeight;
            sourceRow = sourceY * IMAGE_WIDTH (Splash A) * 3
        in for32 0 drawWidth (\<lambda>x h.
          let sourceX = (x * IMAGE_WIDTH (Splash A)) div drawWidth;
              sourceIndex = sourceRow + sourceX * 3
          in do {
            r \<leftarrow> rd (ImagePixels (Splash A)) (sourceIndex + 0);
            g \<leftarrow> rd (ImagePixels (Splash A)) (sourceIndex + 1);
            b \<leftarrow> rd (ImagePixels (Splash A)) (sourceIndex + 2);
            let red = BlendChannelOverBlack r alpha;
            let green = BlendChannelOverBlack g alpha;
            let blue = BlendChannelOverBlack b alpha;
            pixel \<leftarrow> ComposeFor fb red green blue;
            store32 (elem32 (Framebuffer fb) (framebufferRow + x)) pixel h })) h)"

text \<open>
  The firmware's \<open>Stall\<close> changes the state \<open>'e\<close> of the environment; its status is ignored.
\<close>

definition PlaySplashFrame ::
  "ASSETS \<Rightarrow> (UINTN \<Rightarrow> 'e \<Rightarrow> 'e) \<Rightarrow> FRAMEBUFFER_INFO \<Rightarrow> UINT32 \<Rightarrow> heap \<times> 'e \<Rightarrow> (heap \<times> 'e) option" where
  "PlaySplashFrame A stall fb frame = (\<lambda>(h, e). do {
     let frameCount = 30;
     let progress1024 = (frame * 1024) div (frameCount - 1);
     eased \<leftarrow> EvaluateTween A 2 1 progress1024;
     let eased1024 = ucast eased;
     let scale1024 = (975 * (1024 - eased1024) + 1024 * eased1024) div 1024;
     let alpha1024 = eased1024;
     let alpha255 = ucast ((alpha1024 * 255) div 1024);
     black \<leftarrow> ComposeFor fb 0 0 0;
     h \<leftarrow> ClearScreen fb black 1 h;
     h \<leftarrow> DrawSplashFrame A fb alpha255 scale1024 h;
     Some (h, stall 16667 e) })"

definition PlaySplashSequence ::
  "ASSETS \<Rightarrow> (UINTN \<Rightarrow> 'e \<Rightarrow> 'e) \<Rightarrow> FRAMEBUFFER_INFO \<Rightarrow> heap \<times> 'e \<Rightarrow> (heap \<times> 'e) option" where
  "PlaySplashSequence A stall fb = (\<lambda>(h, e). do {
     let e = stall 1000000 e;
     (h, e) \<leftarrow> for32 0 30 (PlaySplashFrame A stall fb) (h, e);
     Some (h, stall 1000000 e) })"

subsection \<open>Sampling stays inside the source\<close>

lemma unat_mult_le: "unat (a * b :: 'a::len word) \<le> unat a * unat b"
  by (simp add: unat_word_ariths)

lemma unat_add_le: "unat (a + b :: 'a::len word) \<le> unat a + unat b"
  by (simp add: unat_word_ariths)

lemma unat_drop_bit: "unat (drop_bit n (w :: 'a::len word)) = unat w div 2 ^ n"
  unfolding unat_drop_bit_eq by (simp add: drop_bit_eq_div)

lemma SourceFixed_bound:
  assumes "i < draw" "src \<noteq> 0"
  shows "unat (SourceFixed i draw src) \<le> (unat src - 1) * 256"
proof (cases "draw > 1")
  case True
  have s1: "unat (src - 1) = unat src - 1"
    using assms(2) by (subst unat_diff) (simp_all add: word_le_nat_alt unat_gt_0 Suc_leI)
  have d1: "unat (draw - 1) = unat draw - 1"
    using True by (subst unat_diff) (simp_all add: word_less_nat_alt word_le_nat_alt)
  have pos: "0 < unat draw - 1" using True by (simp add: word_less_nat_alt)
  have i: "unat i \<le> unat draw - 1" using assms(1) by (simp add: word_less_nat_alt)
  have "unat (i * (src - 1) * 256) \<le> unat (i * (src - 1)) * 256"
    using unat_mult_le [of "i * (src - 1)" 256] by simp
  also have "\<dots> \<le> (unat i * (unat src - 1)) * 256"
    using unat_mult_le [of i "src - 1"] by (simp add: s1)
  also have "\<dots> \<le> ((unat draw - 1) * (unat src - 1)) * 256"
    using i by (intro mult_le_mono1)
  finally have "unat (i * (src - 1) * 256) \<le> (unat draw - 1) * ((unat src - 1) * 256)"
    by (simp only: mult.assoc)
  then have "unat (i * (src - 1) * 256) div (unat draw - 1) \<le> (unat draw - 1) * ((unat src - 1) * 256) div (unat draw - 1)"
    by (rule div_le_mono)
  then show ?thesis using True pos by (simp add: SourceFixed_def unat_div d1)
qed (simp add: SourceFixed_def)

lemma SourceFixed_in_range:
  assumes "i < draw" "src \<noteq> 0"
  shows "drop_bit 8 (SourceFixed i draw src) < src"
proof -
  have "unat (SourceFixed i draw src) div 256 \<le> ((unat src - 1) * 256) div 256"
    using SourceFixed_bound [OF assms] by (rule div_le_mono)
  moreover have "0 < unat src" using assms(2) by (simp add: unat_gt_0)
  ultimately show ?thesis by (simp add: word_less_nat_alt unat_drop_bit)
qed

lemma SourceNext_in_range: "s < src \<Longrightarrow> SourceNext s src < src"
  by (simp add: SourceNext_def)

lemma sample_index:
  assumes "sy < sh" "sx < sw" and lim: "unat sw * unat sh * 3 < 4294967296"
  shows "unat (sy * sw + sx) < unat sw * unat sh"
    "unat (sy * sw + sx) * 3 + 2 < unat sw * unat sh * 3"
proof -
  have lt: "Suc (unat sy) \<le> unat sh" "unat sx < unat sw"
    using assms by (simp_all add: word_less_nat_alt)
  have "unat sy * unat sw + unat sx < Suc (unat sy) * unat sw" using lt by simp
  also have "\<dots> \<le> unat sh * unat sw" using lt(1) by (rule mult_le_mono1)
  finally have b: "unat sy * unat sw + unat sx < unat sw * unat sh" by (simp add: mult.commute)
  have "unat (sy * sw + sx) \<le> unat (sy * sw) + unat sx" by (rule unat_add_le)
  also have "\<dots> \<le> unat sy * unat sw + unat sx" using unat_mult_le by simp
  finally show "unat (sy * sw + sx) < unat sw * unat sh" using b by linarith
  then show "unat (sy * sw + sx) * 3 + 2 < unat sw * unat sh * 3" by linarith
qed

subsection \<open>Interpolated channels\<close>

definition Weights :: "UINT32 \<Rightarrow> UINT32 \<Rightarrow> UINT32 \<times> UINT32 \<times> UINT32 \<times> UINT32" where
  "Weights blendX blendY =
     ((256 - blendX) * (256 - blendY), blendX * (256 - blendY), (256 - blendX) * blendY, blendX * blendY)"

lemma weight_sum:
  fixes x y :: nat assumes "x < 256" "y < 256"
  shows "(256 - x) * (256 - y) + x * (256 - y) + (256 - x) * y + x * y = 65536"
proof -
  have "(256 - x) * (256 - y) + x * (256 - y) = 256 * (256 - y)"
    using assms by (simp flip: add_mult_distrib)
  moreover have "(256 - x) * y + x * y = 256 * y"
    using assms by (simp flip: add_mult_distrib)
  ultimately show ?thesis using assms by simp
qed

lemma weighted_nat_between:
  fixes p q r s :: nat
  assumes "p + q + r + s = 65536"
    and "lo \<le> a" "lo \<le> b" "lo \<le> c" "lo \<le> d" "a \<le> hi" "b \<le> hi" "c \<le> hi" "d \<le> hi"
  shows "lo * 65536 \<le> a * p + b * q + c * r + d * s" "a * p + b * q + c * r + d * s \<le> hi * 65536"
proof -
  have "lo * (p + q + r + s) \<le> a * p + b * q + c * r + d * s"
    unfolding distrib_left using assms by (intro add_mono mult_le_mono1)
  then show "lo * 65536 \<le> a * p + b * q + c * r + d * s" by (simp only: assms(1))
  have "a * p + b * q + c * r + d * s \<le> hi * (p + q + r + s)"
    unfolding distrib_left using assms by (intro add_mono mult_le_mono1)
  then show "a * p + b * q + c * r + d * s \<le> hi * 65536" by (simp only: assms(1))
qed

definition interpolate :: "UINT8 \<Rightarrow> UINT8 \<Rightarrow> UINT8 \<Rightarrow> UINT8 \<Rightarrow> UINT32 \<Rightarrow> UINT32 \<Rightarrow> UINT8" where
  "interpolate a00 a10 a01 a11 blendX blendY =
     (case Weights blendX blendY of (w00, w10, w01, w11) \<Rightarrow>
        RoundChannel (ucast a00 * w00 + ucast a10 * w10 + ucast a01 * w01 + ucast a11 * w11))"

lemma unat_byte32 [simp]: "unat (ucast (b :: UINT8) :: UINT32) = unat b"
  by (rule unat_ucast_le) simp

lemma unat_sum4:
  "unat a + unat b + unat c + unat d < 4294967296 \<Longrightarrow>
   unat (a + b + c + d :: UINT32) = unat a + unat b + unat c + unat d"
  by (simp add: unat_add32)

lemma interpolate_nat:
  assumes bx: "blendX < 256" and by': "blendY < 256"
  defines "x \<equiv> unat blendX" and "y \<equiv> unat blendY"
  shows "unat (interpolate a00 a10 a01 a11 blendX blendY) =
    (unat a00 * ((256 - x) * (256 - y)) + unat a10 * (x * (256 - y)) + unat a01 * ((256 - x) * y)
     + unat a11 * (x * y) + 32768) div 65536"
proof -
  let ?S = "unat a00 * ((256 - x) * (256 - y)) + unat a10 * (x * (256 - y)) + unat a01 * ((256 - x) * y)
     + unat a11 * (x * y)"
  have xy: "x < 256" "y < 256" using bx by' by (simp_all add: x_def y_def word_less_nat_alt)
  have S: "?S \<le> 255 * 65536"
    by (rule weighted_nat_between(2) [OF weight_sum [OF xy], of 0]) simp_all
  have cx: "unat (256 - blendX) = 256 - x" "unat (256 - blendY) = 256 - y"
    using bx by' by (simp_all add: x_def y_def unat_diff)
  have small: "p * q \<le> 65536" if "p \<le> 256" "q \<le> 256" for p q :: nat
    using mult_le_mono [OF that] by simp
  have w: "unat ((256 - blendX) * (256 - blendY)) = (256 - x) * (256 - y)"
    "unat (blendX * (256 - blendY)) = x * (256 - y)"
    "unat ((256 - blendX) * blendY) = (256 - x) * y"
    "unat (blendX * blendY) = x * y"
    using small [of "256 - x" "256 - y"] small [of x "256 - y"] small [of "256 - x" y] small [of x y] xy cx
    by (simp_all add: unat_mult32 x_def [symmetric] y_def [symmetric])
  have t: "unat (ucast (a :: UINT8) * v :: UINT32) = unat a * unat v" if "unat a * unat v \<le> 255 * 65536" for a v
    using that by (subst unat_mult32) simp_all
  have prods: "unat (ucast a00 * ((256 - blendX) * (256 - blendY)) :: UINT32) = unat a00 * ((256 - x) * (256 - y))"
    "unat (ucast a10 * (blendX * (256 - blendY)) :: UINT32) = unat a10 * (x * (256 - y))"
    "unat (ucast a01 * ((256 - blendX) * blendY) :: UINT32) = unat a01 * ((256 - x) * y)"
    "unat (ucast a11 * (blendX * blendY) :: UINT32) = unat a11 * (x * y)"
    using S by (subst t; simp only: w)+
  let ?W = "ucast a00 * ((256 - blendX) * (256 - blendY)) + ucast a10 * (blendX * (256 - blendY))
    + ucast a01 * ((256 - blendX) * blendY) + ucast a11 * (blendX * blendY) :: UINT32"
  have W: "unat ?W = ?S"
    using S unat_sum4 [of "ucast a00 * ((256 - blendX) * (256 - blendY))" "ucast a10 * (blendX * (256 - blendY))"
      "ucast a01 * ((256 - blendX) * blendY)" "ucast a11 * (blendX * blendY)"]
    unfolding prods by linarith
  then have "unat (?W + 32768) = ?S + 32768" using S by (subst unat_add32) simp_all
  moreover have "(?S + 32768) div 65536 < 256" using S by simp
  ultimately show ?thesis
    by (simp add: interpolate_def Weights_def RoundChannel_def unat_ucast_32_8 unat_drop_bit)
qed

lemma interpolate_between:
  assumes "blendX < 256" "blendY < 256"
    and "\<forall>c \<in> {a00, a10, a01, a11}. lo \<le> unat c \<and> unat c \<le> hi"
  shows "lo \<le> unat (interpolate a00 a10 a01 a11 blendX blendY)"
    "unat (interpolate a00 a10 a01 a11 blendX blendY) \<le> hi"
proof -
  define x y where "x = unat blendX" and "y = unat blendY"
  have xy: "x < 256" "y < 256" using assms(1,2) by (simp_all add: x_def y_def word_less_nat_alt)
  define S where "S = unat a00 * ((256 - x) * (256 - y)) + unat a10 * (x * (256 - y))
     + unat a01 * ((256 - x) * y) + unat a11 * (x * y)"
  have "lo * 65536 \<le> S" "S \<le> hi * 65536"
    unfolding S_def using assms(3)
    by (simp_all add: weighted_nat_between [OF weight_sum [OF xy], of lo _ _ _ _ hi])
  then have "lo \<le> (S + 32768) div 65536" "(S + 32768) div 65536 \<le> hi" by linarith+
  then show "lo \<le> unat (interpolate a00 a10 a01 a11 blendX blendY)"
    "unat (interpolate a00 a10 a01 a11 blendX blendY) \<le> hi"
    unfolding interpolate_nat [OF assms(1,2)] S_def x_def y_def .
qed

subsection \<open>Drawing an image\<close>

text \<open>One channel of the scaled image at a destination column and row.\<close>

definition sample ::
  "UINT8 list \<Rightarrow> UINT32 \<Rightarrow> UINT32 \<Rightarrow> UINT32 \<Rightarrow> UINT32 \<Rightarrow> UINT32 \<Rightarrow> UINT32 \<Rightarrow> UINT32 \<Rightarrow> UINT32 \<Rightarrow> UINT8" where
  "sample t stride k drawWidth drawHeight sourceWidth sourceHeight column row =
     (let fx = SourceFixed column drawWidth sourceWidth; fy = SourceFixed row drawHeight sourceHeight;
          sx = drop_bit 8 fx; sy = drop_bit 8 fy;
          sx' = SourceNext sx sourceWidth; sy' = SourceNext sy sourceHeight;
          a = (\<lambda>sx sy. t ! unat ((sy * sourceWidth + sx) * stride + k))
      in interpolate (a sx sy) (a sx' sy) (a sx sy') (a sx' sy') (fx AND 0xFF) (fy AND 0xFF))"

definition image_pixel ::
  "FRAMEBUFFER_INFO \<Rightarrow> UINT8 list \<Rightarrow> UINT8 list \<Rightarrow> UINT32 \<Rightarrow> UINT32 \<Rightarrow> UINT32 \<Rightarrow> UINT32 \<Rightarrow> UINT32 \<Rightarrow> UINT32 \<Rightarrow>
   UINT32 \<Rightarrow> UINT32" where
  "image_pixel fb px al dw dh sw sh row col c =
     (let a = sample al 1 0 dw dh sw sh col row in
      if a = 0 then c
      else blended fb (sample px 3 0 dw dh sw sh col row) (sample px 3 1 dw dh sw sh col row)
             (sample px 3 2 dw dh sw sh col row) a c)"

definition image_shader ::
  "FRAMEBUFFER_INFO \<Rightarrow> INT32 \<Rightarrow> INT32 \<Rightarrow> UINT32 \<Rightarrow> UINT32 \<Rightarrow> UINT32 \<Rightarrow> UINT32 \<Rightarrow> UINT8 list \<Rightarrow> UINT8 list \<Rightarrow> shader"
where
  "image_shader fb x y dw dh sw sh px al = (\<lambda>X Y c.
     if X - x < dw \<and> Y - y < dh then image_pixel fb px al dw dh sw sh (Y - y) (X - x) c else c)"

definition source_ok :: "UINT32 \<Rightarrow> UINT32 \<Rightarrow> UINT8 list \<Rightarrow> UINT8 list \<Rightarrow> bool" where
  "source_ok sw sh px al \<longleftrightarrow> unat sw * unat sh * 3 < 4294967296 \<and>
     unat sw * unat sh * 3 \<le> length px \<and> unat sw * unat sh \<le> length al"

lemma rd_sample:
  assumes "sy < sh" "sx < sw" "unat sw * unat sh * 3 < 4294967296"
  shows "unat sw * unat sh \<le> length al \<Longrightarrow> rd al (sy * sw + sx) = Some (al ! unat (sy * sw + sx))"
    "unat sw * unat sh * 3 \<le> length px \<Longrightarrow> unat k \<le> 2 \<Longrightarrow>
     rd px ((sy * sw + sx) * 3 + k) = Some (px ! unat ((sy * sw + sx) * 3 + k))"
proof -
  show "rd al (sy * sw + sx) = Some (al ! unat (sy * sw + sx))" if "unat sw * unat sh \<le> length al"
    using that sample_index(1) [OF assms] by (intro rd_Some) linarith
  assume px: "unat sw * unat sh * 3 \<le> length px" "unat k \<le> 2"
  have "unat ((sy * sw + sx) * 3 + k) \<le> unat ((sy * sw + sx) * 3) + unat k" by (rule unat_add_le)
  also have "\<dots> \<le> unat (sy * sw + sx) * 3 + 2"
    using px(2) unat_mult_le [of "sy * sw + sx" 3] by simp
  finally show "rd px ((sy * sw + sx) * 3 + k) = Some (px ! unat ((sy * sw + sx) * 3 + k))"
    using px(1) sample_index(2) [OF assms] by (intro rd_Some) linarith
qed

lemma DrawImageNearestAlpha_recolours:
  assumes m: "mapped fb h" and f: "format_ok fb" and src: "source_ok sw sh px al"
    and nz: "dw \<noteq> 0" "dh \<noteq> 0" "sw \<noteq> 0" "sh \<noteq> 0"
  shows "wp (recolours fb (image_shader fb x y dw dh sw sh px al) h)
           (DrawImageNearestAlpha fb x y dw dh sw sh (Some px) (Some al) h)"
proof -
  have lim: "unat sw * unat sh * 3 < 4294967296" "unat sw * unat sh * 3 \<le> length px"
    "unat sw * unat sh \<le> length al" using src by (simp_all add: source_ok_def)
  have guard: "(dw = 0 \<or> dh = 0 \<or> sw = 0 \<or> sh = 0) = False" using nz by simp
  show ?thesis
    unfolding DrawImageNearestAlpha_def image_shader_def guard if_False option.case prod.case Let_def
  proof (rule clipped_pixels_recolour [OF m, where g = "image_pixel fb px al dw dh sw sh"], goal_cases)
    case (1 row col h)
    define fx fy where "fx = SourceFixed col dw sw" and "fy = SourceFixed row dh sh"
    have s: "drop_bit 8 fx < sw" "drop_bit 8 fy < sh"
      unfolding fx_def fy_def using SourceFixed_in_range [OF 1(2) nz(3)] SourceFixed_in_range [OF 1(1) nz(4)] .
    note s' = s [THEN SourceNext_in_range]
    note reads = rd_sample(1) [OF s(2,1) lim(1,3)] rd_sample(1) [OF s(2) s'(1) lim(1,3)]
      rd_sample(1) [OF s'(2) s(1) lim(1,3)] rd_sample(1) [OF s'(2,1) lim(1,3)]
      rd_sample(2) [OF s(2,1) lim(1,2)] rd_sample(2) [OF s(2) s'(1) lim(1,2)]
      rd_sample(2) [OF s'(2) s(1) lim(1,2)] rd_sample(2) [OF s'(2,1) lim(1,2)]
    let ?s = "\<lambda>t stride k. sample t stride k dw dh sw sh col row"
    define nx ny where "nx = SourceNext (drop_bit 8 fx) sw" and "ny = SourceNext (drop_bit 8 fy) sh"
    define ws where "ws t stride k =
        ucast (t ! unat ((drop_bit 8 fy * sw + drop_bit 8 fx) * stride + k)) * ((256 - (fx AND 0xFF)) * (256 - (fy AND 0xFF)))
      + ucast (t ! unat ((drop_bit 8 fy * sw + nx) * stride + k)) * ((fx AND 0xFF) * (256 - (fy AND 0xFF)))
      + ucast (t ! unat ((ny * sw + drop_bit 8 fx) * stride + k)) * ((256 - (fx AND 0xFF)) * (fy AND 0xFF))
      + ucast (t ! unat ((ny * sw + nx) * stride + k)) * ((fx AND 0xFF) * (fy AND 0xFF))"
      for t :: "UINT8 list" and stride k :: UINT32
    have ws: "RoundChannel (ws t stride k) = ?s t stride k" for t stride k
      by (simp only: sample_def interpolate_def Weights_def Let_def prod.case ws_def fx_def fy_def nx_def ny_def)
    have al: "WeightedSum al (drop_bit 8 fy * sw + drop_bit 8 fx) (drop_bit 8 fy * sw + nx)
        (ny * sw + drop_bit 8 fx) (ny * sw + nx) ((256 - (fx AND 0xFF)) * (256 - (fy AND 0xFF)))
        ((fx AND 0xFF) * (256 - (fy AND 0xFF))) ((256 - (fx AND 0xFF)) * (fy AND 0xFF))
        ((fx AND 0xFF) * (fy AND 0xFF)) = Some (ws al 1 0)"
      unfolding WeightedSum_def nx_def ny_def reads(1-4) by (simp add: ws_def nx_def ny_def)
    have px: "WeightedSum px ((drop_bit 8 fy * sw + drop_bit 8 fx) * 3 + k) ((drop_bit 8 fy * sw + nx) * 3 + k)
        ((ny * sw + drop_bit 8 fx) * 3 + k) ((ny * sw + nx) * 3 + k)
        ((256 - (fx AND 0xFF)) * (256 - (fy AND 0xFF))) ((fx AND 0xFF) * (256 - (fy AND 0xFF)))
        ((256 - (fx AND 0xFF)) * (fy AND 0xFF)) ((fx AND 0xFF) * (fy AND 0xFF)) = Some (ws px 3 k)"
      if "unat k \<le> 2" for k
      unfolding WeightedSum_def nx_def ny_def reads(5-8) [OF that] Option.bind.simps ws_def ..
    have k: "unat (0 :: UINT32) \<le> 2" "unat (1 :: UINT32) \<le> 2" "unat (2 :: UINT32) \<le> 2" by simp_all
    show ?case
      unfolding fx_def [symmetric] fy_def [symmetric] nx_def [symmetric] ny_def [symmetric]
        al px [OF k(1)] px [OF k(2)] px [OF k(3)] Option.bind.simps ws
      using BlendInto_recolours [OF 1(3) f 1(4)]
      by (simp add: image_pixel_def Let_def recolours_refl cong: if_cong)
  qed
qed

lemma DrawImageNearestAlpha_draws:
  assumes "mapped fb h" "format_ok fb" "source_ok sw sh px al"
  shows "wp (draws fb h) (DrawImageNearestAlpha fb x y dw dh sw sh (Some px) (Some al) h)"
proof (cases "dw = 0 \<or> dh = 0 \<or> sw = 0 \<or> sh = 0")
  case True
  then show ?thesis by (simp add: DrawImageNearestAlpha_def)
next
  case False
  then show ?thesis
    using wp_recolours_draws [OF DrawImageNearestAlpha_recolours [OF assms]] by simp
qed

subsection \<open>Black\<close>

text \<open>Black is the pixel 0 in every format, so clearing to black while ignoring black does nothing.\<close>

lemma ScaleChannel_black:
  assumes "m \<noteq> 0xFFFFFFFF" shows "ScaleChannel 0 m = Some 0"
proof (cases "m = 0")
  case False
  then obtain s w where m: "MaskShift m = Some s" "MaskWidth m s = Some w"
      "layout m (unat s) (unat w)" by (rule mask_layout)
  then have "w < 32" "s < 32"
    using layout_width_lt [OF m(3) assms] shift_defined [OF m(3)] by (simp_all add: word_less_nat_alt)
  then show ?thesis using m False by (simp add: ScaleChannel_def shl32_def Let_def)
qed (simp add: ScaleChannel_def)

lemma ComposeFor_black: "format_ok fb \<Longrightarrow> ComposeFor fb 0 0 0 = Some 0"
  by (auto simp: ComposeFor_def ComposePixel_def ScaleChannel_black format_ok_def mask_ok_def)

lemma ClearScreen_black: "ClearScreen fb 0 1 h = Some h"
  by (simp add: ClearScreen_def)

subsection \<open>The splash stays on the screen\<close>

lemma centred:
  fixes d s :: UINT32
  assumes "d \<le> s" shows "unat (if s > d then drop_bit 1 (s - d) else 0) + unat d \<le> unat s"
proof -
  have "unat (drop_bit 1 (s - d)) = (unat s - unat d) div 2"
    using assms unfolding unat_drop_bit by (simp add: unat_diff)
  then show ?thesis using assms by (auto simp: word_le_nat_alt)
qed

lemma ComputeSplashRect_on_screen:
  assumes "ComputeSplashRect A fb scale = (sx, sy, dw, dh)"
  shows "unat sx + unat dw \<le> unat (ScreenWidth fb)" "unat sy + unat dh \<le> unat (ScreenHeight fb)"
proof -
  let ?W = "(IMAGE_WIDTH (Splash A) * scale) div 1024" and ?H = "(IMAGE_HEIGHT (Splash A) * scale) div 1024"
  have d: "dw = (if ?W > ScreenWidth fb then ScreenWidth fb else ?W)"
    "dh = (if ?H > ScreenHeight fb then ScreenHeight fb else ?H)"
    "sx = (if dw = 0 \<or> dh = 0 then 0 else if ScreenWidth fb > dw then drop_bit 1 (ScreenWidth fb - dw) else 0)"
    "sy = (if dw = 0 \<or> dh = 0 then 0 else if ScreenHeight fb > dh then drop_bit 1 (ScreenHeight fb - dh) else 0)"
    using assms by (auto simp add: ComputeSplashRect_def Let_def split: if_splits)
  then have le: "dw \<le> ScreenWidth fb" "dh \<le> ScreenHeight fb" by auto
  show "unat sx + unat dw \<le> unat (ScreenWidth fb)" "unat sy + unat dh \<le> unat (ScreenHeight fb)"
    using centred [OF le(1)] centred [OF le(2)] le unfolding d(3,4) by (auto simp: word_le_nat_alt)
qed

lemma nearest_in_range:
  assumes "i < draw" shows "unat ((i * src) div draw) < unat src \<or> src = (0 :: UINT32)"
proof (cases "src = 0")
  case False
  have pos: "0 < unat draw" "0 < unat src" using assms False by (auto simp: word_less_nat_alt unat_gt_0)
  have "unat (i * src) \<le> unat i * unat src" by (rule unat_mult_le)
  also have "\<dots> < unat draw * unat src" using assms pos by (simp add: word_less_nat_alt)
  finally have "unat (i * src) div unat draw < unat src"
    using pos(1) by (simp add: less_mult_imp_div_less mult.commute)
  then show ?thesis by (simp add: unat_div)
qed simp

definition splash_pixel :: "ASSETS \<Rightarrow> FRAMEBUFFER_INFO \<Rightarrow> UINT8 \<Rightarrow> UINT32 \<Rightarrow> UINT32 \<Rightarrow> UINT32 \<Rightarrow> UINT32 \<Rightarrow> UINT32" where
  "splash_pixel A fb alpha dw dh row col =
     (let i = ((row * IMAGE_HEIGHT (Splash A)) div dh) * IMAGE_WIDTH (Splash A) * 3
                + ((col * IMAGE_WIDTH (Splash A)) div dw) * 3;
          ch = (\<lambda>k. BlendChannelOverBlack (ImagePixels (Splash A) ! unat (i + k)) alpha)
      in the (ComposeFor fb (ch 0) (ch 1) (ch 2)))"

lemma DrawSplashFrame_recolours:
  assumes m: "mapped fb h" and f: "format_ok fb" and im: "image_ok (Splash A)"
    and r: "ComputeSplashRect A fb scale = (sx, sy, dw, dh)"
  shows "wp (recolours fb (\<lambda>X Y c. if X - sx < dw \<and> Y - sy < dh
            then splash_pixel A fb alpha dw dh (Y - sy) (X - sx) else c) h)
           (DrawSplashFrame A fb alpha scale h)"
proof (cases "dw = 0 \<or> dh = 0")
  case True
  then show ?thesis by (auto simp: DrawSplashFrame_def r intro!: recolours_refl)
next
  case False
  let ?S = "Splash A"
  have lim: "unat (IMAGE_WIDTH ?S) * unat (IMAGE_HEIGHT ?S) * 3 < 4294967296"
    "length (ImagePixels ?S) = unat (IMAGE_WIDTH ?S) * unat (IMAGE_HEIGHT ?S) * 3"
    "IMAGE_WIDTH ?S \<noteq> 0" "IMAGE_HEIGHT ?S \<noteq> 0"
  proof -
    have "unat (IMAGE_WIDTH ?S) * unat (IMAGE_HEIGHT ?S) \<le> 4096 * 4096"
      using im by (intro mult_le_mono) (simp_all add: image_ok_def)
    then show "unat (IMAGE_WIDTH ?S) * unat (IMAGE_HEIGHT ?S) * 3 < 4294967296" by simp
  qed (use im in \<open>auto simp: image_ok_def\<close>)
  have px: "wp (recolours fb (\<lambda>X Y c. if X = sx + col \<and> Y = sy + row then splash_pixel A fb alpha dw dh row col else c) h)
      (do {
        r \<leftarrow> rd (ImagePixels ?S) (row * IMAGE_HEIGHT ?S div dh * IMAGE_WIDTH ?S * 3 + col * IMAGE_WIDTH ?S div dw * 3 + 0);
        g \<leftarrow> rd (ImagePixels ?S) (row * IMAGE_HEIGHT ?S div dh * IMAGE_WIDTH ?S * 3 + col * IMAGE_WIDTH ?S div dw * 3 + 1);
        b \<leftarrow> rd (ImagePixels ?S) (row * IMAGE_HEIGHT ?S div dh * IMAGE_WIDTH ?S * 3 + col * IMAGE_WIDTH ?S div dw * 3 + 2);
        pixel \<leftarrow> ComposeFor fb (BlendChannelOverBlack r alpha) (BlendChannelOverBlack g alpha) (BlendChannelOverBlack b alpha);
        store32 (elem32 (Framebuffer fb) ((sy + row) * PixelsPerScanLine fb + sx + col)) pixel h })"
    if i: "row < dh" "col < dw" "mapped fb h" for row col h
  proof -
    have "row * IMAGE_HEIGHT ?S div dh < IMAGE_HEIGHT ?S" "col * IMAGE_WIDTH ?S div dw < IMAGE_WIDTH ?S"
      using nearest_in_range [OF i(1), of "IMAGE_HEIGHT ?S"] nearest_in_range [OF i(2), of "IMAGE_WIDTH ?S"] lim
      by (simp_all add: word_less_nat_alt)
    note rd = rd_sample(2) [OF this lim(1), of "ImagePixels ?S", unfolded lim(2), OF order_refl]
    have rd3: "rd (ImagePixels ?S) (row * IMAGE_HEIGHT ?S div dh * IMAGE_WIDTH ?S * 3 + col * IMAGE_WIDTH ?S div dw * 3 + k)
        = Some (ImagePixels ?S ! unat (row * IMAGE_HEIGHT ?S div dh * IMAGE_WIDTH ?S * 3 + col * IMAGE_WIDTH ?S div dw * 3 + k))"
      if "unat k \<le> 2" for k
      using rd [OF that] unfolding distrib_right .
    have k: "unat (0 :: UINT32) \<le> 2" "unat (1 :: UINT32) \<le> 2" "unat (2 :: UINT32) \<le> 2" by simp_all
    obtain v where v: "ComposeFor fb
        (BlendChannelOverBlack (ImagePixels ?S ! unat (row * IMAGE_HEIGHT ?S div dh * IMAGE_WIDTH ?S * 3 + col * IMAGE_WIDTH ?S div dw * 3 + 0)) alpha)
        (BlendChannelOverBlack (ImagePixels ?S ! unat (row * IMAGE_HEIGHT ?S div dh * IMAGE_WIDTH ?S * 3 + col * IMAGE_WIDTH ?S div dw * 3 + 1)) alpha)
        (BlendChannelOverBlack (ImagePixels ?S ! unat (row * IMAGE_HEIGHT ?S div dh * IMAGE_WIDTH ?S * 3 + col * IMAGE_WIDTH ?S div dw * 3 + 2)) alpha)
        = Some v" using ComposeFor_defined [OF f] by blast
    then have sp: "splash_pixel A fb alpha dw dh row col = v" by (simp only: splash_pixel_def Let_def option.sel)
    have "unat sx + unat col < unat (ScreenWidth fb)" "unat sy + unat row < unat (ScreenHeight fb)"
      using ComputeSplashRect_on_screen [OF r] i by (simp_all add: word_less_nat_alt)
    moreover from this have "unat (sx + col) = unat sx + unat col" "unat (sy + row) = unat sy + unat row"
      using unat_lt32 [of "ScreenWidth fb"] unat_lt32 [of "ScreenHeight fb"]
      by (simp_all add: unat_add32 del: unat_lt32)
    ultimately have "on_screen fb (sx + col) (sy + row)" by (simp add: on_screen_def word_less_nat_alt)
    from recolours_put [OF i(3) this, of v] show ?thesis
      unfolding rd3 [OF k(1)] rd3 [OF k(2)] rd3 [OF k(3)] Option.bind.simps v sp pixel_at_def
      by (simp only: add.assoc)
  qed
  have guard: "(dw = 0 \<or> dh = 0) = False" using False by simp
  show ?thesis
    unfolding DrawSplashFrame_def r prod.case guard if_False Let_def
  proof (rule rows_recolour [where P = "\<lambda>_ X. X - sx < dw" and
        g = "\<lambda>row X Y c. splash_pixel A fb alpha dw dh row (X - sx)", OF m])
    fix row h assume i: "row < dh" "mapped fb h"
    show "wp (recolours fb (\<lambda>X Y c. if X - sx < dw \<and> Y = sy + row then splash_pixel A fb alpha dw dh row (X - sx) else c) h)
      (for32 0 dw (\<lambda>x h. do {
        r \<leftarrow> rd (ImagePixels ?S) (row * IMAGE_HEIGHT ?S div dh * IMAGE_WIDTH ?S * 3 + x * IMAGE_WIDTH ?S div dw * 3 + 0);
        g \<leftarrow> rd (ImagePixels ?S) (row * IMAGE_HEIGHT ?S div dh * IMAGE_WIDTH ?S * 3 + x * IMAGE_WIDTH ?S div dw * 3 + 1);
        b \<leftarrow> rd (ImagePixels ?S) (row * IMAGE_HEIGHT ?S div dh * IMAGE_WIDTH ?S * 3 + x * IMAGE_WIDTH ?S div dw * 3 + 2);
        pixel \<leftarrow> ComposeFor fb (BlendChannelOverBlack r alpha) (BlendChannelOverBlack g alpha) (BlendChannelOverBlack b alpha);
        store32 (elem32 (Framebuffer fb) ((sy + row) * PixelsPerScanLine fb + sx + x)) pixel h }) h)"
      by (rule columns_recolour [where g = "\<lambda>col _ _ _. splash_pixel A fb alpha dw dh row col", OF i(2) px [OF i(1)]])
  qed
qed

end
