(* ===== verification/Cursor.thy ===== *)
theory Cursor
  imports Image
begin

text \<open>
  The software cursor: its pixels resolved once for the display's format, the background
  saved below it, and the routines that save, draw, restore and composite it.  The array
  \<open>SavedPixels\<close> is the only part of the cursor that the code passes to \<open>CopyPixels32\<close>, so it
  lives in the heap and the record holds its address; the two arrays computed at start-up
  are lists.
\<close>

record SOFTWARE_CURSOR =
  X :: UINT32
  Y :: UINT32
  SavedWidth :: UINT32
  SavedHeight :: UINT32
  Visible :: UINT8
  SavedPixels :: ptr
  ResolvedPixels :: "UINT32 list"
  OpaqueMask :: "UINT8 list"
  AccumX :: INT32
  AccumY :: INT32
  LeftButtonDown :: UINT8
  LastRawX :: INT32
  LastRawY :: INT32
  LastPixelX :: INT32
  LastPixelY :: INT32
  LastPollCount :: UINT32

abbreviation CURSOR_WIDTH :: "ASSETS \<Rightarrow> UINT32" where
  "CURSOR_WIDTH A \<equiv> IMAGE_WIDTH (CursorImage A)"

abbreviation CURSOR_HEIGHT :: "ASSETS \<Rightarrow> UINT32" where
  "CURSOR_HEIGHT A \<equiv> IMAGE_HEIGHT (CursorImage A)"

subsection \<open>The routines\<close>

text \<open>One pixel of the cursor bitmap: transparent, or blended over black and composed.\<close>

definition ResolveCursorPixel ::
  "ASSETS \<Rightarrow> FRAMEBUFFER_INFO \<Rightarrow> UINT32 \<Rightarrow> UINT32 \<Rightarrow> SOFTWARE_CURSOR \<Rightarrow> SOFTWARE_CURSOR option" where
  "ResolveCursorPixel A fb row column cursor =
     (let CursorRow = row * CURSOR_WIDTH A;
          PixelRow = CursorRow * 3;
          PixelIndex = CursorRow + column;
          SourceIndex = PixelRow + column * 3
      in do {
        Alpha \<leftarrow> rd (ImageAlpha (CursorImage A)) PixelIndex;
        if Alpha = 0 then do {
          om \<leftarrow> wr (OpaqueMask cursor) PixelIndex 0;
          rp \<leftarrow> wr (ResolvedPixels cursor) PixelIndex 0;
          Some (cursor\<lparr>OpaqueMask := om, ResolvedPixels := rp\<rparr>) }
        else do {
          om \<leftarrow> wr (OpaqueMask cursor) PixelIndex 1;
          r \<leftarrow> rd (ImagePixels (CursorImage A)) (SourceIndex + 0);
          g \<leftarrow> rd (ImagePixels (CursorImage A)) (SourceIndex + 1);
          b \<leftarrow> rd (ImagePixels (CursorImage A)) (SourceIndex + 2);
          pixel \<leftarrow> ComposeFor fb (BlendChannelOverBlack r Alpha) (BlendChannelOverBlack g Alpha)
                    (BlendChannelOverBlack b Alpha);
          rp \<leftarrow> wr (ResolvedPixels cursor) PixelIndex pixel;
          Some (cursor\<lparr>OpaqueMask := om, ResolvedPixels := rp\<rparr>) } })"

definition InitializeCursorSurface ::
  "ASSETS \<Rightarrow> FRAMEBUFFER_INFO \<Rightarrow> SOFTWARE_CURSOR \<Rightarrow> SOFTWARE_CURSOR option" where
  "InitializeCursorSurface A fb cursor =
     for32 0 (CURSOR_HEIGHT A) (\<lambda>row. for32 0 (CURSOR_WIDTH A) (ResolveCursorPixel A fb row)) cursor"

text \<open>Row \<open>y\<close> of the saved background, and the framebuffer row it belongs to.\<close>

definition RestoreCursorBackground ::
  "ASSETS \<Rightarrow> FRAMEBUFFER_INFO \<Rightarrow> SOFTWARE_CURSOR \<Rightarrow> heap \<Rightarrow> (heap \<times> SOFTWARE_CURSOR) option" where
  "RestoreCursorBackground A fb cursor h =
     (if Visible cursor = 0 then Some (h, cursor)
      else do {
        h \<leftarrow> for32 0 (SavedHeight cursor) (\<lambda>y.
               let framebufferRow = (Y cursor + y) * PixelsPerScanLine fb + X cursor;
                   savedRow = y * CURSOR_WIDTH A
               in CopyPixels32 (elem32 (Framebuffer fb) framebufferRow)
                    (elem32 (SavedPixels cursor) savedRow) (SavedWidth cursor)) h;
        Some (h, cursor\<lparr>Visible := 0\<rparr>) })"

definition SaveCursorBackground ::
  "ASSETS \<Rightarrow> FRAMEBUFFER_INFO \<Rightarrow> SOFTWARE_CURSOR \<Rightarrow> heap \<Rightarrow> (heap \<times> SOFTWARE_CURSOR) option" where
  "SaveCursorBackground A fb cursor h =
     (let cursor = cursor\<lparr>SavedWidth := CURSOR_WIDTH A, SavedHeight := CURSOR_HEIGHT A\<rparr>;
          cursor = (if X cursor + SavedWidth cursor > ScreenWidth fb
                    then cursor\<lparr>SavedWidth := ScreenWidth fb - X cursor\<rparr> else cursor);
          cursor = (if Y cursor + SavedHeight cursor > ScreenHeight fb
                    then cursor\<lparr>SavedHeight := ScreenHeight fb - Y cursor\<rparr> else cursor)
      in do {
        h \<leftarrow> for32 0 (SavedHeight cursor) (\<lambda>y.
               let framebufferRow = (Y cursor + y) * PixelsPerScanLine fb + X cursor;
                   savedRow = y * CURSOR_WIDTH A
               in CopyPixels32 (elem32 (SavedPixels cursor) savedRow)
                    (elem32 (Framebuffer fb) framebufferRow) (SavedWidth cursor)) h;
        Some (h, cursor) })"

definition DrawCursor ::
  "ASSETS \<Rightarrow> FRAMEBUFFER_INFO \<Rightarrow> SOFTWARE_CURSOR \<Rightarrow> heap \<Rightarrow> heap option" where
  "DrawCursor A fb cursor h =
     for32 0 (SavedHeight cursor) (\<lambda>row.
       let FramebufferRow = (Y cursor + row) * PixelsPerScanLine fb + X cursor;
           CursorRow = row * CURSOR_WIDTH A
       in for32 0 (SavedWidth cursor) (\<lambda>column h.
         let PixelIndex = CursorRow + column in do {
           opaque \<leftarrow> rd (OpaqueMask cursor) PixelIndex;
           if opaque = 0 then Some h
           else do {
             pixel \<leftarrow> rd (ResolvedPixels cursor) PixelIndex;
             store32 (elem32 (Framebuffer fb) (FramebufferRow + column)) pixel h } })) h"

text \<open>
  Compose off screen and copy, or draw straight into the destination when there is no
  compose buffer of its own.  Pointers the code tests are options.
\<close>

definition CopySavedToCompose ::
  "ASSETS \<Rightarrow> FRAMEBUFFER_INFO \<Rightarrow> SOFTWARE_CURSOR \<Rightarrow> heap \<Rightarrow> heap option" where
  "CopySavedToCompose A compose cursor h =
     for32 0 (SavedHeight cursor) (\<lambda>y.
       let framebufferRow = (Y cursor + y) * PixelsPerScanLine compose + X cursor;
           savedRow = y * CURSOR_WIDTH A
       in CopyPixels32 (elem32 (Framebuffer compose) framebufferRow)
            (elem32 (SavedPixels cursor) savedRow) (SavedWidth cursor)) h"

definition BlitCursorComposite ::
  "ASSETS \<Rightarrow> FRAMEBUFFER_INFO option \<Rightarrow> FRAMEBUFFER_INFO option \<Rightarrow> FRAMEBUFFER_INFO option \<Rightarrow>
   SOFTWARE_CURSOR option \<Rightarrow> heap \<Rightarrow> (heap \<times> SOFTWARE_CURSOR option) option" where
  "BlitCursorComposite A destination shadow compose cursor h =
     (case (destination, shadow, cursor) of
        (Some d, Some s, Some cursor) \<Rightarrow> do {
          (h, cursor) \<leftarrow> SaveCursorBackground A s cursor h;
          h \<leftarrow> (case compose of
             Some c \<Rightarrow>
               if Framebuffer c \<noteq> 0 \<and> Framebuffer c \<noteq> Framebuffer d \<and> Framebuffer c \<noteq> Framebuffer s
               then do {
                 h \<leftarrow> CopySavedToCompose A c cursor h;
                 h \<leftarrow> DrawCursor A c cursor h;
                 BlitSurfaceRect destination compose (X cursor) (Y cursor)
                   (SavedWidth cursor) (SavedHeight cursor) h }
               else DrawCursor A d cursor h
           | None \<Rightarrow> DrawCursor A d cursor h);
          Some (h, Some (cursor\<lparr>Visible := 1\<rparr>)) }
      | _ \<Rightarrow> Some (h, cursor))"

subsection \<open>Cursors that fit the screen\<close>

text \<open>The saved background as a surface of its own.\<close>

definition saved_surface :: "ASSETS \<Rightarrow> SOFTWARE_CURSOR \<Rightarrow> FRAMEBUFFER_INFO" where
  "saved_surface A cursor =
     \<lparr>ScreenWidth = CURSOR_WIDTH A, ScreenHeight = CURSOR_HEIGHT A,
      PixelsPerScanLine = CURSOR_WIDTH A, PixelFormat = 0, RedMask = 0, GreenMask = 0,
      BlueMask = 0, Framebuffer = SavedPixels cursor\<rparr>"

text \<open>
  A cursor whose arrays have the bitmap's size, at a position on the screen (or at its
  far edge).
\<close>

definition cursor_ok :: "ASSETS \<Rightarrow> FRAMEBUFFER_INFO \<Rightarrow> SOFTWARE_CURSOR \<Rightarrow> bool" where
  "cursor_ok A fb cursor \<longleftrightarrow> image_ok (CursorImage A) \<and>
     length (ResolvedPixels cursor) = unat (CURSOR_WIDTH A) * unat (CURSOR_HEIGHT A) \<and>
     length (OpaqueMask cursor) = unat (CURSOR_WIDTH A) * unat (CURSOR_HEIGHT A) \<and>
     X cursor \<le> ScreenWidth fb \<and> Y cursor \<le> ScreenHeight fb"

text \<open>The part of the cursor that is on the screen.\<close>

definition clipped :: "ASSETS \<Rightarrow> FRAMEBUFFER_INFO \<Rightarrow> SOFTWARE_CURSOR \<Rightarrow> bool" where
  "clipped A fb cursor \<longleftrightarrow>
     unat (SavedWidth cursor) = min (unat (CURSOR_WIDTH A)) (unat (ScreenWidth fb) - unat (X cursor)) \<and>
     unat (SavedHeight cursor) = min (unat (CURSOR_HEIGHT A)) (unat (ScreenHeight fb) - unat (Y cursor))"

definition under_cursor :: "SOFTWARE_CURSOR \<Rightarrow> UINT32 \<Rightarrow> UINT32 \<Rightarrow> bool" where
  "under_cursor cursor x y \<longleftrightarrow> in_rect (X cursor) (Y cursor) (SavedWidth cursor) (SavedHeight cursor) x y"

definition cursor_index :: "ASSETS \<Rightarrow> SOFTWARE_CURSOR \<Rightarrow> UINT32 \<Rightarrow> UINT32 \<Rightarrow> nat" where
  "cursor_index A cursor x y = unat ((y - Y cursor) * CURSOR_WIDTH A + (x - X cursor))"

definition cursor_shader :: "ASSETS \<Rightarrow> SOFTWARE_CURSOR \<Rightarrow> shader" where
  "cursor_shader A cursor = (\<lambda>x y c.
     if under_cursor cursor x y \<and> OpaqueMask cursor ! cursor_index A cursor x y \<noteq> 0
     then ResolvedPixels cursor ! cursor_index A cursor x y else c)"

lemma cursor_image:
  assumes "image_ok (CursorImage A)"
  shows "unat (CURSOR_WIDTH A) \<le> 4096" "unat (CURSOR_HEIGHT A) \<le> 4096"
    "unat (CURSOR_WIDTH A) * unat (CURSOR_HEIGHT A) \<le> 16777216"
  using assms mult_le_mono [of "unat (CURSOR_WIDTH A)" 4096 "unat (CURSOR_HEIGHT A)" 4096]
  by (simp_all add: image_ok_def)

lemma saved_surface_ok: "image_ok (CursorImage A) \<Longrightarrow> surface_ok (saved_surface A cursor)"
  using cursor_image [of A] by (simp add: surface_ok_def saved_surface_def)

lemma saved_surface_simps [simp]:
  "ScreenWidth (saved_surface A cursor) = CURSOR_WIDTH A"
  "ScreenHeight (saved_surface A cursor) = CURSOR_HEIGHT A"
  "PixelsPerScanLine (saved_surface A cursor) = CURSOR_WIDTH A"
  "Framebuffer (saved_surface A cursor) = SavedPixels cursor"
  by (simp_all add: saved_surface_def)

lemma saved_surface_cong: "SavedPixels c = SavedPixels c' \<Longrightarrow> saved_surface A c = saved_surface A c'"
  by (simp add: saved_surface_def)

lemma clip_size:
  fixes p n s :: UINT32
  assumes "p \<le> s" "unat n \<le> 4096" "unat s < 2147483648"
  shows "unat (if p + n > s then s - p else n) = min (unat n) (unat s - unat p)"
proof -
  have "unat (p + n) = unat p + unat n"
    using assms by (intro unat_add32) (simp add: word_le_nat_alt)
  then show ?thesis using assms(1) by (auto simp: word_less_nat_alt word_le_nat_alt unat_diff)
qed

text \<open>The cursor after \<open>SaveCursorBackground\<close>: its size clipped at the right and lower edge.\<close>

definition saved_cursor :: "ASSETS \<Rightarrow> FRAMEBUFFER_INFO \<Rightarrow> SOFTWARE_CURSOR \<Rightarrow> SOFTWARE_CURSOR" where
  "saved_cursor A fb cursor = cursor\<lparr>
     SavedWidth := (if X cursor + CURSOR_WIDTH A > ScreenWidth fb then ScreenWidth fb - X cursor else CURSOR_WIDTH A),
     SavedHeight := (if Y cursor + CURSOR_HEIGHT A > ScreenHeight fb then ScreenHeight fb - Y cursor else CURSOR_HEIGHT A)\<rparr>"

lemma saved_cursor_clipped:
  assumes "surface_ok fb" "cursor_ok A fb cursor"
  shows "clipped A fb (saved_cursor A fb cursor)"
  using assms cursor_image [of A] clip_size [of "X cursor" "ScreenWidth fb" "CURSOR_WIDTH A"]
    clip_size [of "Y cursor" "ScreenHeight fb" "CURSOR_HEIGHT A"]
  unfolding clipped_def by (simp add: saved_cursor_def cursor_ok_def surface_ok_def)

lemma clipped_bounds:
  assumes "cursor_ok A fb cursor" "clipped A fb cursor"
  shows "unat (X cursor) + unat (SavedWidth cursor) \<le> unat (ScreenWidth fb)"
    "unat (Y cursor) + unat (SavedHeight cursor) \<le> unat (ScreenHeight fb)"
    "SavedWidth cursor \<le> CURSOR_WIDTH A" "SavedHeight cursor \<le> CURSOR_HEIGHT A"
  using assms by (auto simp: cursor_ok_def clipped_def word_le_nat_alt)

subsection \<open>Saving and restoring\<close>

lemma SaveCursorBackground_eq:
  "SaveCursorBackground A fb cursor h =
     (let c = saved_cursor A fb cursor in do {
        h \<leftarrow> for32 0 (SavedHeight c) (\<lambda>row. CopyPixels32 (pixel_at (saved_surface A c) 0 (0 + row))
               (pixel_at fb (X c) (Y c + row)) (SavedWidth c)) h;
        Some (h, c) })"
  by (cases cursor) (simp add: SaveCursorBackground_def saved_cursor_def pixel_at_def Let_def)

lemma SaveCursorBackground_saves:
  assumes m: "mapped fb h" and ms: "mapped (saved_surface A cursor) h" and ap: "apart (saved_surface A cursor) fb"
    and ok: "cursor_ok A fb cursor"
  defines "c \<equiv> saved_cursor A fb cursor"
  shows "wp (\<lambda>(h', cursor'). cursor' = c \<and>
      recolours (saved_surface A cursor) (\<lambda>x y p. if x < SavedWidth c \<and> y < SavedHeight c
        then the (h (pixel_at fb (X c + x) (Y c + y))) else p) h h') (SaveCursorBackground A fb cursor h)"
proof -
  have same: "saved_surface A c = saved_surface A cursor"
    by (rule saved_surface_cong) (simp add: c_def saved_cursor_def)
  have okc: "cursor_ok A fb c" using ok by (simp add: cursor_ok_def c_def saved_cursor_def)
  have cl: "clipped A fb c" unfolding c_def using m ok by (simp add: saved_cursor_clipped mapped_def)
  note b = clipped_bounds [OF okc cl]
  have "wp (recolours (saved_surface A cursor) (\<lambda>x y p. if (0 \<le> x \<and> x - 0 < SavedWidth c) \<and> y - 0 < SavedHeight c
        then the (h (pixel_at fb (X c + (x - 0)) (Y c + (y - 0)))) else p) h)
    (for32 0 (SavedHeight c) (\<lambda>row. CopyPixels32 (pixel_at (saved_surface A cursor) 0 (0 + row))
               (pixel_at fb (X c) (Y c + row)) (SavedWidth c)) h)"
    by (rule copy_rect_recolours [OF ms m ap]) (use b in \<open>simp_all add: word_le_nat_alt\<close>)
  then show ?thesis
    by (simp add: SaveCursorBackground_eq c_def [symmetric] same Let_def cong: if_cong)
qed

lemma row_in_clip:
  assumes "Y0 \<le> H" "unat n \<le> unat H - unat Y0" "y < H" "y - Y0 < (n :: UINT32)"
  shows "Y0 \<le> (y :: UINT32)"
proof (cases "Y0 < H")
  case True
  then show ?thesis using no_wrap [OF assms(3) True _ assms(4)] assms(2) by simp
next
  case False
  then have "unat n = 0" using assms(1,2) by (simp add: word_less_nat_alt word_le_nat_alt)
  then show ?thesis using assms(4) by (simp add: word_less_nat_alt)
qed

lemma under_cursor_iff:
  assumes ok: "cursor_ok A fb cursor" and cl: "clipped A fb cursor" and scr: "on_screen fb x y"
  shows "under_cursor cursor x y \<longleftrightarrow> x - X cursor < SavedWidth cursor \<and> y - Y cursor < SavedHeight cursor"
  using row_in_clip [of "X cursor" "ScreenWidth fb" "SavedWidth cursor" x]
    row_in_clip [of "Y cursor" "ScreenHeight fb" "SavedHeight cursor" y] ok cl scr
  by (auto simp: under_cursor_def in_rect_def cursor_ok_def clipped_def on_screen_def)

text \<open>The saved background put back, on any surface of the screen's size.\<close>

lemma put_saved_recolours:
  assumes m: "mapped fb h" and ms: "mapped (saved_surface A cursor) h" and ap: "apart fb (saved_surface A cursor)"
    and ok: "cursor_ok A fb cursor" and cl: "clipped A fb cursor"
  shows "wp (recolours fb (\<lambda>x y p. if under_cursor cursor x y
        then the (h (pixel_at (saved_surface A cursor) (x - X cursor) (y - Y cursor))) else p) h)
    (for32 0 (SavedHeight cursor) (\<lambda>row. CopyPixels32 (pixel_at fb (X cursor) (Y cursor + row))
       (pixel_at (saved_surface A cursor) 0 row) (SavedWidth cursor)) h)"
proof -
  note b = clipped_bounds [OF ok cl]
  have "wp (recolours fb (\<lambda>x y p. if (X cursor \<le> x \<and> x - X cursor < SavedWidth cursor) \<and> y - Y cursor < SavedHeight cursor
        then the (h (pixel_at (saved_surface A cursor) (0 + (x - X cursor)) (0 + (y - Y cursor)))) else p) h)
    (for32 0 (SavedHeight cursor) (\<lambda>row. CopyPixels32 (pixel_at fb (X cursor) (Y cursor + row))
       (pixel_at (saved_surface A cursor) 0 (0 + row)) (SavedWidth cursor)) h)"
    by (rule copy_rect_recolours [OF m ms ap]) (use b in \<open>simp_all add: word_le_nat_alt\<close>)
  then show ?thesis
    unfolding add_0
    by (rule wp_mono) (erule recolours_cong,
      simp add: under_cursor_iff [OF ok cl], auto simp: under_cursor_iff [OF ok cl, symmetric] under_cursor_def in_rect_def)
qed

lemma RestoreCursorBackground_restores:
  assumes "mapped fb h" "mapped (saved_surface A cursor) h" "apart fb (saved_surface A cursor)"
    and "cursor_ok A fb cursor" "clipped A fb cursor" and vis: "Visible cursor \<noteq> 0"
  shows "wp (\<lambda>(h', cursor'). cursor' = cursor\<lparr>Visible := 0\<rparr> \<and>
      recolours fb (\<lambda>x y p. if under_cursor cursor x y
        then the (h (pixel_at (saved_surface A cursor) (x - X cursor) (y - Y cursor))) else p) h h')
    (RestoreCursorBackground A fb cursor h)"
  using put_saved_recolours [OF assms(1-5)] vis
  by (simp add: RestoreCursorBackground_def pixel_at_def Let_def cong: if_cong)

subsection \<open>Resolving the bitmap\<close>

text \<open>Mask and colour of entry \<open>i\<close> of the bitmap, and the first \<open>n\<close> entries resolved.\<close>

definition cursor_entry :: "ASSETS \<Rightarrow> FRAMEBUFFER_INFO \<Rightarrow> nat \<Rightarrow> UINT8 \<times> UINT32" where
  "cursor_entry A fb i =
     (let a = ImageAlpha (CursorImage A) ! i;
          ch = (\<lambda>k. BlendChannelOverBlack (ImagePixels (CursorImage A) ! (i * 3 + k)) a)
      in if a = 0 then (0, 0) else (1, the (ComposeFor fb (ch 0) (ch 1) (ch 2))))"

definition resolved :: "ASSETS \<Rightarrow> FRAMEBUFFER_INFO \<Rightarrow> SOFTWARE_CURSOR \<Rightarrow> nat \<Rightarrow> SOFTWARE_CURSOR \<Rightarrow> bool" where
  "resolved A fb c0 n c \<longleftrightarrow> (\<exists>om rp. c = c0\<lparr>OpaqueMask := om, ResolvedPixels := rp\<rparr> \<and>
     length om = unat (CURSOR_WIDTH A) * unat (CURSOR_HEIGHT A) \<and>
     length rp = unat (CURSOR_WIDTH A) * unat (CURSOR_HEIGHT A) \<and>
     (\<forall>i<n. (om ! i, rp ! i) = cursor_entry A fb i))"

lemma ResolveCursorPixel_step:
  assumes im: "image_ok (CursorImage A)" and f: "format_ok fb"
    and rc: "row < CURSOR_HEIGHT A" "col < CURSOR_WIDTH A"
    and r: "resolved A fb c0 (unat row * unat (CURSOR_WIDTH A) + unat col) c"
  shows "wp (resolved A fb c0 (Suc (unat row * unat (CURSOR_WIDTH A) + unat col))) (ResolveCursorPixel A fb row col c)"
proof -
  let ?I = "CursorImage A"
  let ?w = "CURSOR_WIDTH A" and ?h = "CURSOR_HEIGHT A"
  define n where "n = unat row * unat ?w + unat col"
  have N: "unat ?w * unat ?h \<le> 16777216" using cursor_image [OF im] by simp
  have len: "length (ImagePixels ?I) = unat ?w * unat ?h * 3" "length (ImageAlpha ?I) = unat ?w * unat ?h"
    using im by (simp_all add: image_ok_def)
  have "n < Suc (unat row) * unat ?w" using rc(2) by (simp add: n_def word_less_nat_alt)
  also have "\<dots> \<le> unat ?h * unat ?w" using rc(1) by (intro mult_le_mono1) (simp add: word_less_nat_alt)
  finally have nN: "n < unat ?w * unat ?h" by (simp add: mult.commute)
  have rw: "unat (row * ?w) = unat row * unat ?w" using nN N by (intro unat_mult32) (simp add: n_def)
  have idx: "unat (row * ?w + col) = n"
    using nN N by (subst unat_add32) (simp_all add: rw n_def)
  have "row * ?w * 3 + col * 3 = (row * ?w + col) * 3" by (simp add: distrib_right)
  moreover have n3: "unat ((row * ?w + col) * 3) = n * 3"
    using nN N by (subst unat_mult32) (simp_all add: idx)
  ultimately have src: "unat (row * ?w * 3 + col * 3 + k) = n * 3 + unat k" if "unat k \<le> 2" for k
    using nN N that by (subst unat_add32) (simp_all add: n3)
  obtain om rp where c: "c = c0\<lparr>OpaqueMask := om, ResolvedPixels := rp\<rparr>"
      "length om = unat ?w * unat ?h" "length rp = unat ?w * unat ?h"
      "\<forall>i<n. (om ! i, rp ! i) = cursor_entry A fb i"
    using r by (auto simp: resolved_def n_def)
  let ?a = "ImageAlpha ?I ! n"
  obtain v where v: "ComposeFor fb (BlendChannelOverBlack (ImagePixels ?I ! (n * 3)) ?a)
      (BlendChannelOverBlack (ImagePixels ?I ! (n * 3 + 1)) ?a)
      (BlendChannelOverBlack (ImagePixels ?I ! (n * 3 + 2)) ?a) = Some v"
    using ComposeFor_defined [OF f] by blast
  have step: "resolved A fb c0 (Suc n) (c0\<lparr>OpaqueMask := om[n := fst (cursor_entry A fb n)],
      ResolvedPixels := rp[n := snd (cursor_entry A fb n)]\<rparr>)"
    unfolding resolved_def
    by (rule exI [of _ "om[n := fst (cursor_entry A fb n)]"], rule exI [of _ "rp[n := snd (cursor_entry A fb n)]"])
       (use c nN in \<open>auto simp: less_Suc_eq nth_list_update\<close>)
  have reads: "rd (ImageAlpha ?I) (row * ?w + col) = Some ?a"
    "rd (ImagePixels ?I) (row * ?w * 3 + col * 3) = Some (ImagePixels ?I ! (n * 3))"
    "rd (ImagePixels ?I) (row * ?w * 3 + col * 3 + 1) = Some (ImagePixels ?I ! (n * 3 + 1))"
    "rd (ImagePixels ?I) (row * ?w * 3 + col * 3 + 2) = Some (ImagePixels ?I ! (n * 3 + 2))"
    using nN len src [of 0] src [of 1] src [of 2] by (simp_all add: rd_def idx)
  have writes: "wr om (row * ?w + col) x = Some (om[n := x])" "wr rp (row * ?w + col) y = Some (rp[n := y])"
    for x y using nN c by (simp_all add: wr_def idx)
  show ?thesis
  proof (cases "?a = 0")
    case True
    then show ?thesis using step
      by (simp add: ResolveCursorPixel_def Let_def reads writes c(1) cursor_entry_def n_def [symmetric])
  next
    case False
    then show ?thesis using step v
      by (simp add: ResolveCursorPixel_def Let_def reads writes c(1) cursor_entry_def n_def [symmetric])
  qed
qed

lemma InitializeCursorSurface_resolves:
  assumes im: "image_ok (CursorImage A)" and f: "format_ok fb"
    and len: "length (OpaqueMask c) = unat (CURSOR_WIDTH A) * unat (CURSOR_HEIGHT A)"
      "length (ResolvedPixels c) = unat (CURSOR_WIDTH A) * unat (CURSOR_HEIGHT A)"
  shows "wp (resolved A fb c (unat (CURSOR_HEIGHT A) * unat (CURSOR_WIDTH A))) (InitializeCursorSurface A fb c)"
  unfolding InitializeCursorSurface_def
proof (rule wp_for32 [where I = "\<lambda>k. resolved A fb c (k * unat (CURSOR_WIDTH A))"])
  have "c = c\<lparr>OpaqueMask := OpaqueMask c, ResolvedPixels := ResolvedPixels c\<rparr>" by simp
  then show "resolved A fb c (0 * unat (CURSOR_WIDTH A)) c" unfolding resolved_def using len
    by (intro exI [of _ "OpaqueMask c"] exI [of _ "ResolvedPixels c"]) simp
next
  fix row c1 assume row: "row < CURSOR_HEIGHT A" and r: "resolved A fb c (unat row * unat (CURSOR_WIDTH A)) c1"
  show "wp (resolved A fb c (Suc (unat row) * unat (CURSOR_WIDTH A))) (for32 0 (CURSOR_WIDTH A) (ResolveCursorPixel A fb row) c1)"
    by (rule wp_for32 [where I = "\<lambda>j. resolved A fb c (unat row * unat (CURSOR_WIDTH A) + j)"])
       (use r ResolveCursorPixel_step [OF im f row] in \<open>simp_all add: add.commute\<close>)
qed

subsection \<open>Drawing\<close>

lemma cursor_index_bound:
  assumes ok: "cursor_ok A fb cursor" and cl: "clipped A fb cursor"
    and i: "row < SavedHeight cursor" "col < SavedWidth cursor"
  shows "unat (row * CURSOR_WIDTH A + col) < unat (CURSOR_WIDTH A) * unat (CURSOR_HEIGHT A)"
proof -
  have im: "image_ok (CursorImage A)" using ok by (simp add: cursor_ok_def)
  have "row < CURSOR_HEIGHT A" "col < CURSOR_WIDTH A"
    using i clipped_bounds(3,4) [OF ok cl] by (auto intro: less_le_trans)
  moreover have "unat (CURSOR_WIDTH A) * unat (CURSOR_HEIGHT A) * 3 < 4294967296"
    using cursor_image [OF im] by linarith
  ultimately show ?thesis by (rule sample_index(1))
qed

lemma DrawCursor_recolours:
  assumes m: "mapped fb h" and ok: "cursor_ok A fb cursor" and cl: "clipped A fb cursor"
  shows "wp (recolours fb (cursor_shader A cursor) h) (DrawCursor A fb cursor h)"
proof -
  note b = clipped_bounds [OF ok cl]
  let ?i = "\<lambda>row col. unat (row * CURSOR_WIDTH A + col)"
  let ?g = "\<lambda>row col c. if OpaqueMask cursor ! ?i row col \<noteq> 0 then ResolvedPixels cursor ! ?i row col else c"
  have px: "wp (recolours fb (\<lambda>x y c. if x = X cursor + col \<and> y = Y cursor + row then ?g row col c else c) h)
      (do { opaque \<leftarrow> rd (OpaqueMask cursor) (row * CURSOR_WIDTH A + col);
            if opaque = 0 then Some h
            else do {
              pixel \<leftarrow> rd (ResolvedPixels cursor) (row * CURSOR_WIDTH A + col);
              store32 (elem32 (Framebuffer fb) ((Y cursor + row) * PixelsPerScanLine fb + X cursor + col)) pixel h } })"
    if i: "row < SavedHeight cursor" "col < SavedWidth cursor" "mapped fb h" for row col h
  proof -
    have "?i row col < length (OpaqueMask cursor)" "?i row col < length (ResolvedPixels cursor)"
      using cursor_index_bound [OF ok cl i(1,2)] ok by (simp_all add: cursor_ok_def)
    note rd = this [THEN rd_Some]
    have "X cursor + col < ScreenWidth fb" "Y cursor + row < ScreenHeight fb"
      using row_in_range [OF i(2) b(1)] row_in_range [OF i(1) b(2)] .
    then have scr: "on_screen fb (X cursor + col) (Y cursor + row)" by (simp add: on_screen_def)
    show ?thesis
      unfolding rd Option.bind.simps
      using recolours_put [OF i(3) scr, of "ResolvedPixels cursor ! ?i row col"]
      by (simp add: recolours_refl pixel_at_def add.assoc cong: if_cong)
  qed
  have "wp (recolours fb (\<lambda>x y c. if x - X cursor < SavedWidth cursor \<and> y - Y cursor < SavedHeight cursor
      then ?g (y - Y cursor) (x - X cursor) c else c) h) (DrawCursor A fb cursor h)"
    unfolding DrawCursor_def Let_def
  proof (rule rows_recolour [where P = "\<lambda>_ x. x - X cursor < SavedWidth cursor"
        and g = "\<lambda>row x y c. ?g row (x - X cursor) c", OF m])
    fix row h assume i: "row < SavedHeight cursor" "mapped fb h"
    show "wp (recolours fb (\<lambda>x y c. if x - X cursor < SavedWidth cursor \<and> y = Y cursor + row then ?g row (x - X cursor) c else c) h)
      (for32 0 (SavedWidth cursor) (\<lambda>col h. do {
            opaque \<leftarrow> rd (OpaqueMask cursor) (row * CURSOR_WIDTH A + col);
            if opaque = 0 then Some h
            else do {
              pixel \<leftarrow> rd (ResolvedPixels cursor) (row * CURSOR_WIDTH A + col);
              store32 (elem32 (Framebuffer fb) ((Y cursor + row) * PixelsPerScanLine fb + X cursor + col)) pixel h } }) h)"
      by (rule columns_recolour [where g = "\<lambda>col _ _ c. ?g row col c", OF i(2) px [OF i(1)]])
  qed
  then show ?thesis
    by (rule wp_mono) (erule recolours_cong,
      simp add: cursor_shader_def under_cursor_iff [OF ok cl] cursor_index_def)
qed

subsection \<open>Save, draw, restore\<close>

lemma apart_sym: "apart a b \<Longrightarrow> apart b a"
  by (auto simp: apart_def)

lemma saved_pixel:
  assumes "unat x < unat (SavedWidth c)" "unat y < unat (SavedHeight c)"
    and "SavedWidth c \<le> CURSOR_WIDTH A" "SavedHeight c \<le> CURSOR_HEIGHT A"
  shows "on_screen (saved_surface A c) x y"
  using assms by (simp add: on_screen_def word_less_nat_alt word_le_nat_alt)

lemma saved_cursor_simps [simp]:
  "X (saved_cursor A fb c) = X c" "Y (saved_cursor A fb c) = Y c"
  "SavedPixels (saved_cursor A fb c) = SavedPixels c"
  "OpaqueMask (saved_cursor A fb c) = OpaqueMask c"
  "ResolvedPixels (saved_cursor A fb c) = ResolvedPixels c"
  by (simp_all add: saved_cursor_def)

lemma under_cursor_visible [simp]: "under_cursor (c\<lparr>Visible := v\<rparr>) = under_cursor c"
  by (simp add: under_cursor_def fun_eq_iff)

lemma saved_surface_saved [simp]: "saved_surface A (saved_cursor A fb c) = saved_surface A c"
  by (rule saved_surface_cong) simp

lemma cursor_ok_saved [simp]: "cursor_ok A fb' (saved_cursor A fb c) = cursor_ok A fb' c"
  by (simp add: cursor_ok_def)

text \<open>What \<open>SaveCursorBackground\<close> leaves behind, pixel by pixel.\<close>

lemma saved_background:
  assumes m: "mapped fb h" and ms: "mapped (saved_surface A cursor) h" and ap: "apart (saved_surface A cursor) fb"
    and ok: "cursor_ok A fb cursor"
  defines "c \<equiv> saved_cursor A fb cursor"
  shows "\<exists>h1. SaveCursorBackground A fb cursor h = Some (h1, c) \<and>
    recolours (saved_surface A cursor) (\<lambda>x y p. if x < SavedWidth c \<and> y < SavedHeight c
        then the (h (pixel_at fb (X c + x) (Y c + y))) else p) h h1 \<and>
    (\<forall>x y. on_screen fb x y \<longrightarrow> under_cursor c x y \<longrightarrow>
      h1 (pixel_at (saved_surface A cursor) (x - X c) (y - Y c)) = h (pixel_at fb x y))"
proof -
  from SaveCursorBackground_saves [OF m ms ap ok] obtain h1 where
    h1: "SaveCursorBackground A fb cursor h = Some (h1, c)" and
    r: "recolours (saved_surface A cursor) (\<lambda>x y p. if x < SavedWidth c \<and> y < SavedHeight c
        then the (h (pixel_at fb (X c + x) (Y c + y))) else p) h h1"
    unfolding c_def by (auto elim!: wpE)
  have okc: "cursor_ok A fb c" using ok by (simp add: c_def)
  have cl: "clipped A fb c" unfolding c_def using m ok by (simp add: saved_cursor_clipped mapped_def)
  have "h1 (pixel_at (saved_surface A cursor) (x - X c) (y - Y c)) = h (pixel_at fb x y)"
    if scr: "on_screen fb x y" and u: "under_cursor c x y" for x y
  proof -
    have lt: "x - X c < SavedWidth c" "y - Y c < SavedHeight c" using u by (simp_all add: under_cursor_def in_rect_def)
    have "on_screen (saved_surface A cursor) (x - X c) (y - Y c)"
      using saved_pixel [of "x - X c" c "y - Y c" A] lt clipped_bounds(3,4) [OF okc cl]
      by (simp add: c_def word_less_nat_alt)
    moreover from this obtain p where "h (pixel_at (saved_surface A cursor) (x - X c) (y - Y c)) = Some p"
      using mapped_pixel [OF ms] by blast
    moreover obtain q where "h (pixel_at fb x y) = Some q" using mapped_pixel [OF m scr] by blast
    ultimately show ?thesis using recoloursD_pixel [OF r] lt by simp
  qed
  with h1 r show ?thesis by blast
qed

text \<open>
  Saving the background, drawing the cursor over it and restoring it leaves the screen as it
  was: only the saved-pixels buffer differs.
\<close>

lemma save_draw_restore:
  assumes m: "mapped fb h" and ms: "mapped (saved_surface A cursor) h" and ap: "apart (saved_surface A cursor) fb"
    and ok: "cursor_ok A fb cursor"
  shows "wp (\<lambda>h'. \<forall>q. q \<notin> surface_cells (saved_surface A cursor) \<longrightarrow> h' q = h q)
    (do { (h, c) \<leftarrow> SaveCursorBackground A fb cursor h;
          h \<leftarrow> DrawCursor A fb c h;
          (h, c) \<leftarrow> RestoreCursorBackground A fb (c\<lparr>Visible := 1\<rparr>) h;
          Some h })"
proof -
  let ?S = "saved_surface A cursor"
  define c where "c = saved_cursor A fb cursor"
  obtain h1 where h1: "SaveCursorBackground A fb cursor h = Some (h1, c)"
    and r1: "recolours ?S (\<lambda>x y p. if x < SavedWidth c \<and> y < SavedHeight c
        then the (h (pixel_at fb (X c + x) (Y c + y))) else p) h h1"
    and bg: "\<And>x y. on_screen fb x y \<Longrightarrow> under_cursor c x y \<Longrightarrow> h1 (pixel_at ?S (x - X c) (y - Y c)) = h (pixel_at fb x y)"
    using saved_background [OF m ms ap ok] unfolding c_def by blast
  have okc: "cursor_ok A fb c" and cl: "clipped A fb c"
    unfolding c_def using m ok by (simp_all add: saved_cursor_clipped mapped_def)
  have oks: "surface_ok fb" "surface_ok ?S" using m ms by (simp_all add: mapped_def)
  have m1: "mapped fb h1" "mapped ?S h1" using m ms r1 by simp_all
  obtain h2 where h2: "DrawCursor A fb c h1 = Some h2" and r2: "recolours fb (cursor_shader A c) h1 h2"
    by (rule wpE [OF DrawCursor_recolours [OF m1(1) okc cl]])
  have m2: "mapped fb h2" "mapped ?S h2" using m1 r2 by simp_all
  let ?c = "c\<lparr>Visible := 1\<rparr>"
  have sc: "saved_surface A ?c = ?S" by (rule saved_surface_cong) (simp add: c_def)
  have okv: "cursor_ok A fb ?c" "clipped A fb ?c" using okc cl by (simp_all add: cursor_ok_def clipped_def)
  have "wp (\<lambda>(h', cursor'). cursor' = ?c\<lparr>Visible := 0\<rparr> \<and>
      recolours fb (\<lambda>x y p. if under_cursor c x y then the (h2 (pixel_at ?S (x - X c) (y - Y c))) else p) h2 h')
    (RestoreCursorBackground A fb ?c h2)"
    using RestoreCursorBackground_restores [OF m2(1) _ _ okv] m2 apart_sym [OF ap]
    by (simp add: sc cong: if_cong)
  then obtain h3 c3 where h3: "RestoreCursorBackground A fb ?c h2 = Some (h3, c3)"
    and r3: "recolours fb (\<lambda>x y p. if under_cursor c x y then the (h2 (pixel_at ?S (x - X c) (y - Y c))) else p) h2 h3"
    by (auto elim!: wpE)
  have "h3 q = h q" if q: "q \<notin> surface_cells ?S" for q
  proof (cases "q \<in> visible fb")
    case True
    then obtain x y where xy: "q = pixel_at fb x y" "on_screen fb x y" by (auto simp: visible_def)
    have h1q: "h1 q = h q"
      using recoloursD_other [OF r1, of q] q visible_subset [OF oks(2)] by blast
    obtain p where p: "h q = Some p" using mapped_pixel [OF m xy(2)] xy(1) by blast
    show ?thesis
    proof (cases "under_cursor c x y")
      case u: True
      have lt: "x - X c < SavedWidth c" "y - Y c < SavedHeight c" using u by (simp_all add: under_cursor_def in_rect_def)
      have "on_screen ?S (x - X c) (y - Y c)"
        using saved_pixel [of "x - X c" c "y - Y c" A] lt clipped_bounds(3,4) [OF okc cl]
        by (simp add: c_def word_less_nat_alt)
      then have "h2 (pixel_at ?S (x - X c) (y - Y c)) = h1 (pixel_at ?S (x - X c) (y - Y c))"
        by (rule apart_keeps_source [OF apart_sym [OF ap] oks r2])
      then show ?thesis
        using recoloursD_pixel [OF r3 xy(2)] recoloursD_pixel [OF r2 xy(2)] bg [OF xy(2) u] u p h1q xy(1) by simp
    next
      case False
      then show ?thesis
        using recoloursD_pixel [OF r3 xy(2)] recoloursD_pixel [OF r2 xy(2)] p h1q xy(1)
        by (simp add: cursor_shader_def)
    qed
  next
    case False
    then show ?thesis
      using recoloursD_other [OF r3 False] recoloursD_other [OF r2 False] recoloursD_other [OF r1, of q]
        q visible_subset [OF oks(2)] by auto
  qed
  then show ?thesis by (simp add: h1 h2 h3)
qed

subsection \<open>The composited cursor\<close>

definition same_size :: "FRAMEBUFFER_INFO \<Rightarrow> FRAMEBUFFER_INFO \<Rightarrow> bool" where
  "same_size d s \<longleftrightarrow> ScreenWidth d = ScreenWidth s \<and> ScreenHeight d = ScreenHeight s"

lemma same_size_simps:
  "same_size d s \<Longrightarrow> on_screen s = on_screen d" "same_size d s \<Longrightarrow> cursor_ok A s = cursor_ok A d"
  "same_size d s \<Longrightarrow> saved_cursor A s = saved_cursor A d" "same_size d s \<Longrightarrow> clipped A s = clipped A d"
  by (simp_all add: same_size_def on_screen_def cursor_ok_def saved_cursor_def clipped_def fun_eq_iff)

text \<open>The screen \<open>d\<close> shows \<open>s\<close>, and \<open>s\<close> with the cursor on top.\<close>

definition synced :: "FRAMEBUFFER_INFO \<Rightarrow> FRAMEBUFFER_INFO \<Rightarrow> heap \<Rightarrow> bool" where
  "synced d s h \<longleftrightarrow> (\<forall>x y. on_screen d x y \<longrightarrow> h (pixel_at d x y) = h (pixel_at s x y))"

definition displays :: "ASSETS \<Rightarrow> FRAMEBUFFER_INFO \<Rightarrow> FRAMEBUFFER_INFO \<Rightarrow> SOFTWARE_CURSOR \<Rightarrow> heap \<Rightarrow> bool" where
  "displays A d s cursor h \<longleftrightarrow> (\<forall>x y. on_screen d x y \<longrightarrow>
     h (pixel_at d x y) = map_option (cursor_shader A cursor x y) (h (pixel_at s x y)))"

definition own_buffer :: "FRAMEBUFFER_INFO \<Rightarrow> FRAMEBUFFER_INFO \<Rightarrow> FRAMEBUFFER_INFO \<Rightarrow> bool" where
  "own_buffer d s c \<longleftrightarrow> Framebuffer c \<noteq> 0 \<and> Framebuffer c \<noteq> Framebuffer d \<and> Framebuffer c \<noteq> Framebuffer s"

text \<open>
  The surfaces of the compositor: screen, shadow, saved background and, when it has a
  buffer of its own, the compose surface, all in memory, of one size and disjoint.
\<close>

definition compositor_ok ::
  "ASSETS \<Rightarrow> FRAMEBUFFER_INFO \<Rightarrow> FRAMEBUFFER_INFO \<Rightarrow> FRAMEBUFFER_INFO option \<Rightarrow> SOFTWARE_CURSOR \<Rightarrow> heap \<Rightarrow> bool" where
  "compositor_ok A d s compose cursor h \<longleftrightarrow>
     mapped d h \<and> mapped s h \<and> mapped (saved_surface A cursor) h \<and> same_size d s \<and> Framebuffer d \<noteq> 0 \<and>
     apart d s \<and> apart (saved_surface A cursor) d \<and> apart (saved_surface A cursor) s \<and>
     (case compose of None \<Rightarrow> True | Some c \<Rightarrow> own_buffer d s c \<longrightarrow>
        mapped c h \<and> same_size d c \<and> apart c d \<and> apart c s \<and> apart c (saved_surface A cursor))"

lemma compositor_ok_dom:
  "dom h' = dom h \<Longrightarrow> compositor_ok A d s compose cursor h' = compositor_ok A d s compose cursor h"
  by (simp add: compositor_ok_def mapped_def split: option.split)

lemma compositor_ok_cursor:
  "SavedPixels c' = SavedPixels c \<Longrightarrow> compositor_ok A d s compose c' h = compositor_ok A d s compose c h"
  using saved_surface_cong [of c' c A] by (simp add: compositor_ok_def split: option.split)

lemma keeps_surface:
  assumes "recolours d F h h'" "surface_ok d" "surface_cells d \<inter> S = {}" "q \<in> S"
  shows "h' q = h q"
  using recoloursD_other [OF assms(1)] visible_subset [OF assms(2)] assms(3,4) by blast

text \<open>Composing off screen: the compose surface shows the shadow with the cursor on top.\<close>

lemma compose_shows:
  assumes m: "mapped c h" "mapped sv h" "apart c sv" and sv: "sv = saved_surface A cursor"
    and ok: "cursor_ok A c cursor" and cl: "clipped A c cursor"
    and bg: "\<And>x y. on_screen c x y \<Longrightarrow> under_cursor cursor x y \<Longrightarrow> h (pixel_at sv (x - X cursor) (y - Y cursor)) = Some (bgd x y)"
  shows "wp (recolours c (\<lambda>x y p. if under_cursor cursor x y then cursor_shader A cursor x y (bgd x y) else p) h)
    (do { h \<leftarrow> CopySavedToCompose A c cursor h; DrawCursor A c cursor h })"
proof -
  have "wp (\<lambda>h1. wp (recolours c (\<lambda>x y p. if under_cursor cursor x y then cursor_shader A cursor x y (bgd x y) else p) h)
      (DrawCursor A c cursor h1)) (CopySavedToCompose A c cursor h)"
  proof -
    have "CopySavedToCompose A c cursor h = for32 0 (SavedHeight cursor) (\<lambda>row. CopyPixels32 (pixel_at c (X cursor) (Y cursor + row))
       (pixel_at sv 0 row) (SavedWidth cursor)) h"
      by (simp add: CopySavedToCompose_def pixel_at_def sv)
    then have "wp (recolours c (\<lambda>x y p. if under_cursor cursor x y then the (h (pixel_at sv (x - X cursor) (y - Y cursor))) else p) h)
      (CopySavedToCompose A c cursor h)"
      using put_saved_recolours [OF m(1) _ _ ok cl] m unfolding sv by simp
    then show ?thesis
    proof (rule wp_mono)
      fix h1 assume r1: "recolours c (\<lambda>x y p. if under_cursor cursor x y then the (h (pixel_at sv (x - X cursor) (y - Y cursor))) else p) h h1"
      then have "mapped c h1" using m by simp
      from DrawCursor_recolours [OF this ok cl]
      show "wp (recolours c (\<lambda>x y p. if under_cursor cursor x y then cursor_shader A cursor x y (bgd x y) else p) h)
        (DrawCursor A c cursor h1)"
        by (rule wp_mono) (rule recolours_trans [OF r1], assumption, auto simp: bg cursor_shader_def)
    qed
  qed
  then show ?thesis by simp
qed

lemma BlitCursorComposite_displays:
  assumes ok: "compositor_ok A d s compose cursor h" and cok: "cursor_ok A d cursor" and sync: "synced d s h"
  defines "c \<equiv> saved_cursor A d cursor"
  shows "wp (\<lambda>(h', cursor'). cursor' = Some (c\<lparr>Visible := 1\<rparr>) \<and> dom h' = dom h \<and> displays A d s c h' \<and>
      (\<forall>q \<in> surface_cells s. h' q = h q))
    (BlitCursorComposite A (Some d) (Some s) compose (Some cursor) h)"
proof -
  let ?S = "saved_surface A cursor"
  have m: "mapped d h" "mapped s h" "mapped ?S h" and size: "same_size d s" and nn: "Framebuffer d \<noteq> 0"
    and ap: "apart d s" "apart ?S d" "apart ?S s" using ok by (simp_all add: compositor_ok_def)
  have sok: "surface_ok d" "surface_ok s" "surface_ok ?S" using m by (simp_all add: mapped_def)
  note sz = same_size_simps [OF size]
  have ssc: "saved_surface A c = ?S" by (simp add: c_def)
  have okc: "cursor_ok A d c" and cl: "clipped A d c"
    unfolding c_def using m cok by (simp_all add: saved_cursor_clipped mapped_def)
  obtain h1 where h1: "SaveCursorBackground A s cursor h = Some (h1, c)"
    and r1: "recolours ?S (\<lambda>x y p. if x < SavedWidth c \<and> y < SavedHeight c
        then the (h (pixel_at s (X c + x) (Y c + y))) else p) h h1"
    and bg: "\<And>x y. on_screen d x y \<Longrightarrow> under_cursor c x y \<Longrightarrow> h1 (pixel_at ?S (x - X c) (y - Y c)) = h (pixel_at s x y)"
    using saved_background [OF m(2,3) ap(3)] cok unfolding c_def sz by blast
  have keep1: "h1 q = h q" if "q \<in> surface_cells d \<union> surface_cells s" for q
    using that keeps_surface [OF r1 sok(3), of _ q] ap unfolding apart_def by blast
  have m1: "mapped d h1" "mapped s h1" "mapped ?S h1" and dom1: "dom h1 = dom h"
    using m r1 by (simp_all add: recolours_dom)
  have pix: "pixel_at d x y \<in> surface_cells d" "pixel_at s x y \<in> surface_cells s" if "on_screen d x y" for x y
    using that pixel_at_in_surface [OF sok(1)] pixel_at_in_surface [OF sok(2)] by (simp_all add: sz)
  have sval: "\<exists>p. h (pixel_at s x y) = Some p" if "on_screen d x y" for x y
    using mapped_pixel [OF m(2), of x y] that by (auto simp: sz)
  text \<open>Drawing straight onto the screen.\<close>
  have direct: "wp (\<lambda>h'. dom h' = dom h \<and> displays A d s c h' \<and> (\<forall>q \<in> surface_cells s. h' q = h q)) (DrawCursor A d c h1)"
  proof (rule wp_mono [OF DrawCursor_recolours [OF m1(1) okc cl]], intro conjI ballI)
    fix h2 assume r2: "recolours d (cursor_shader A c) h1 h2"
    show "dom h2 = dom h" using r2 dom1 by (simp add: recolours_dom)
    show ks: "h2 q = h q" if "q \<in> surface_cells s" for q
      using keeps_surface [OF r2 sok(1), of _ q] keep1 [of q] that ap(1) unfolding apart_def by simp
    show "displays A d s c h2"
      unfolding displays_def
    proof (intro allI impI)
      fix x y assume scr: "on_screen d x y"
      have "h1 (pixel_at d x y) = h (pixel_at s x y)"
        using keep1 [of "pixel_at d x y"] pix(1) [OF scr] sync scr by (simp add: synced_def)
      then show "h2 (pixel_at d x y) = map_option (cursor_shader A c x y) (h2 (pixel_at s x y))"
        using recoloursD_pixel [OF r2 scr] ks [OF pix(2) [OF scr]] by simp
    qed
  qed
  text \<open>Composing off screen and copying.\<close>
  have composed: "wp (\<lambda>h'. dom h' = dom h \<and> displays A d s c h' \<and> (\<forall>q \<in> surface_cells s. h' q = h q))
      (do { h \<leftarrow> CopySavedToCompose A b c h1; h \<leftarrow> DrawCursor A b c h;
            BlitSurfaceRect (Some d) (Some b) (X c) (Y c) (SavedWidth c) (SavedHeight c) h })"
    if b: "own_buffer d s b" "mapped b h" "same_size d b" "apart b d" "apart b s" "apart b ?S" for b
  proof -
    note bz = same_size_simps [OF b(3)]
    have mb: "mapped b h1" using b(2) r1 by simp
    have bok: "surface_ok b" using b(2) by (simp add: mapped_def)
    have shown: "wp (recolours b (\<lambda>x y p. if under_cursor c x y then cursor_shader A c x y (the (h (pixel_at s x y))) else p) h1)
      (do { h \<leftarrow> CopySavedToCompose A b c h1; DrawCursor A b c h })"
      by (rule compose_shows [OF mb m1(3) b(6) ssc [symmetric]])
         (use okc cl bg sval in \<open>auto simp: bz\<close>)
    have "wp (\<lambda>h2. wp (\<lambda>h'. dom h' = dom h \<and> displays A d s c h' \<and> (\<forall>q \<in> surface_cells s. h' q = h q))
        (BlitSurfaceRect (Some d) (Some b) (X c) (Y c) (SavedWidth c) (SavedHeight c) h2))
      (do { h \<leftarrow> CopySavedToCompose A b c h1; DrawCursor A b c h })"
    proof (rule wp_mono [OF shown])
      fix h2 assume r2: "recolours b (\<lambda>x y p. if under_cursor c x y then cursor_shader A c x y (the (h (pixel_at s x y))) else p) h1 h2"
      have m2: "mapped d h2" "mapped b h2" using m1 mb r2 by simp_all
      have keep2: "h2 q = h q" if "q \<in> surface_cells d \<union> surface_cells s" for q
        using that keeps_surface [OF r2 bok, of _ q] keep1 [OF that] b(4,5) unfolding apart_def by auto
      have nb: "Framebuffer b \<noteq> 0" using b(1) by (simp add: own_buffer_def)
      show "wp (\<lambda>h'. dom h' = dom h \<and> displays A d s c h' \<and> (\<forall>q \<in> surface_cells s. h' q = h q))
        (BlitSurfaceRect (Some d) (Some b) (X c) (Y c) (SavedWidth c) (SavedHeight c) h2)"
      proof (rule wp_mono [OF BlitSurfaceRect_recolours [OF m2 apart_sym [OF b(4)] nn nb]], intro conjI ballI)
        fix h3 assume r3: "recolours d (\<lambda>x y p. if in_rect (X c) (Y c) (SavedWidth c) (SavedHeight c) x y \<and> on_screen b x y
            then the (h2 (pixel_at b x y)) else p) h2 h3"
        show "dom h3 = dom h" using r3 r2 dom1 by (simp add: recolours_dom)
        show ks: "h3 q = h q" if "q \<in> surface_cells s" for q
          using keeps_surface [OF r3 sok(1), of _ q] keep2 [of q] that ap(1) unfolding apart_def by simp
        show "displays A d s c h3"
          unfolding displays_def
        proof (intro allI impI)
          fix x y assume scr: "on_screen d x y"
          obtain p where p: "h (pixel_at s x y) = Some p" using sval [OF scr] by blast
          obtain p' where "h1 (pixel_at b x y) = Some p'" using mapped_pixel [OF mb, of x y] scr by (auto simp: bz)
          then have "under_cursor c x y \<Longrightarrow> h2 (pixel_at b x y) = Some (cursor_shader A c x y p)"
            using recoloursD_pixel [OF r2, of x y] scr p by (simp add: bz)
          moreover have "h2 (pixel_at d x y) = Some p"
            using keep2 [of "pixel_at d x y"] pix(1) [OF scr] sync scr p by (simp add: synced_def)
          ultimately show "h3 (pixel_at d x y) = map_option (cursor_shader A c x y) (h3 (pixel_at s x y))"
            using recoloursD_pixel [OF r3 scr] ks [OF pix(2) [OF scr]] scr p
            by (auto simp: under_cursor_def bz cursor_shader_def)
        qed
      qed
    qed
    then show ?thesis by simp
  qed
  show ?thesis
  proof (cases "\<exists>b. compose = Some b \<and> own_buffer d s b")
    case True
    then obtain b where b: "compose = Some b" "own_buffer d s b" by blast
    with ok have "mapped b h" "same_size d b" "apart b d" "apart b s" "apart b ?S"
      by (simp_all add: compositor_ok_def)
    with composed [OF b(2)] b show ?thesis
      by (simp add: BlitCursorComposite_def h1 own_buffer_def)
  next
    case False
    then show ?thesis using direct
      by (cases compose) (auto simp: BlitCursorComposite_def h1 own_buffer_def)
  qed
qed

end
