(* ===== verification/Text.thy ===== *)
theory Text
  imports Glyphs
begin

text \<open>
  Strings on the screen.  Six routines walk over a C string with a horizontal cursor, one
  glyph at a time; their common contract is the locale \<open>text_renderer\<close>, whose conclusion
  (a string recolours the screen glyph by glyph, in order) is proved once and interpreted
  for every one of them.
\<close>

text \<open>The character \<open>'\n'\<close>, and a read through a table pointer that may be null.\<close>

abbreviation newline :: UINT8 where
  "newline \<equiv> 10"

definition rd_ptr :: "UINT8 list option \<Rightarrow> UINT32 \<Rightarrow> UINT8 option" where
  "rd_ptr table i = do { xs \<leftarrow> table; rd xs i }"

lemma rd_ptr_Some [simp]: "rd_ptr (Some xs) = rd xs"
  by (simp add: rd_ptr_def fun_eq_iff)

subsection \<open>Plain strings\<close>

fun DrawTextString_loop ::
  "ASSETS \<Rightarrow> FRAMEBUFFER_INFO \<Rightarrow> INT32 \<Rightarrow> UINT8 \<Rightarrow> UINT8 \<Rightarrow> UINT8 \<Rightarrow> INT32 \<Rightarrow> INT32 \<Rightarrow> cstring \<Rightarrow>
   heap \<Rightarrow> heap option" where
  "DrawTextString_loop A fb x red green blue cursorX y [] h = Some h"
| "DrawTextString_loop A fb x red green blue cursorX y (c # text) h =
     (let glyph = glyph_of c in
      if glyph = newline then
        DrawTextString_loop A fb x red green blue x (y + GLYPH_HEIGHT (Font A)) text h
      else do {
        h \<leftarrow> DrawGlyph A fb cursorX y glyph red green blue h;
        advance \<leftarrow>
          (if ucast glyph \<ge> FIRST_CHAR (Font A) \<and> ucast glyph < FIRST_CHAR (Font A) + GLYPH_COUNT (Font A)
           then do { a \<leftarrow> rd (GlyphAdvance (Font A)) (ucast glyph - FIRST_CHAR (Font A)); Some (ucast a) }
           else Some 8);
        DrawTextString_loop A fb x red green blue (cursorX + advance) y text h })"

definition DrawTextString ::
  "ASSETS \<Rightarrow> FRAMEBUFFER_INFO \<Rightarrow> INT32 \<Rightarrow> INT32 \<Rightarrow> cstring option \<Rightarrow> UINT8 \<Rightarrow> UINT8 \<Rightarrow> UINT8 \<Rightarrow>
   heap \<Rightarrow> heap option" where
  "DrawTextString A fb x y text red green blue h =
     (case text of
        None \<Rightarrow> Some h
      | Some text \<Rightarrow> DrawTextString_loop A fb x red green blue x y text h)"

fun DrawTextStringAtlas_loop ::
  "FRAMEBUFFER_INFO \<Rightarrow> INT32 \<Rightarrow> UINT8 \<Rightarrow> UINT8 \<Rightarrow> UINT8 \<Rightarrow> UINT32 \<Rightarrow> UINT32 \<Rightarrow> UINT32 \<Rightarrow> UINT32 \<Rightarrow>
   UINT8 list option \<Rightarrow> UINT8 list \<Rightarrow> INT32 \<Rightarrow> INT32 \<Rightarrow> cstring \<Rightarrow> heap \<Rightarrow> heap option" where
  "DrawTextStringAtlas_loop fb x red green blue firstChar glyphCount glyphWidth glyphHeight
     glyphAlpha glyphAdvance cursorX y [] h = Some h"
| "DrawTextStringAtlas_loop fb x red green blue firstChar glyphCount glyphWidth glyphHeight
     glyphAlpha glyphAdvance cursorX y (c # text) h =
     (let glyph = glyph_of c in
      if glyph = newline then
        DrawTextStringAtlas_loop fb x red green blue firstChar glyphCount glyphWidth glyphHeight
          glyphAlpha glyphAdvance x (y + glyphHeight) text h
      else do {
        h \<leftarrow> DrawGlyphAtlas fb cursorX y glyph red green blue firstChar glyphCount glyphWidth glyphHeight
               glyphAlpha h;
        advance \<leftarrow>
          (if ucast glyph \<ge> firstChar \<and> ucast glyph < firstChar + glyphCount
           then do { a \<leftarrow> rd glyphAdvance (ucast glyph - firstChar); Some (ucast a) }
           else Some (glyphWidth div 2));
        DrawTextStringAtlas_loop fb x red green blue firstChar glyphCount glyphWidth glyphHeight
          glyphAlpha glyphAdvance (cursorX + advance) y text h })"

definition DrawTextStringAtlas ::
  "FRAMEBUFFER_INFO \<Rightarrow> INT32 \<Rightarrow> INT32 \<Rightarrow> cstring option \<Rightarrow> UINT8 \<Rightarrow> UINT8 \<Rightarrow> UINT8 \<Rightarrow> UINT32 \<Rightarrow> UINT32 \<Rightarrow>
   UINT32 \<Rightarrow> UINT32 \<Rightarrow> UINT8 list option \<Rightarrow> UINT8 list option \<Rightarrow> heap \<Rightarrow> heap option" where
  "DrawTextStringAtlas fb x y text red green blue firstChar glyphCount glyphWidth glyphHeight
     glyphAlpha glyphAdvance h =
     (case (text, glyphAdvance) of
        (Some text, Some adv) \<Rightarrow>
          DrawTextStringAtlas_loop fb x red green blue firstChar glyphCount glyphWidth glyphHeight
            glyphAlpha adv x y text h
      | _ \<Rightarrow> Some h)"

fun DrawTextStringScaled_loop ::
  "ASSETS \<Rightarrow> FRAMEBUFFER_INFO \<Rightarrow> INT32 \<Rightarrow> UINT8 \<Rightarrow> UINT8 \<Rightarrow> UINT8 \<Rightarrow> UINT32 \<Rightarrow> INT32 \<Rightarrow> INT32 \<Rightarrow> cstring \<Rightarrow>
   heap \<Rightarrow> heap option" where
  "DrawTextStringScaled_loop A fb x red green blue scale cursorX y [] h = Some h"
| "DrawTextStringScaled_loop A fb x red green blue scale cursorX y (c # text) h =
     (let glyph = glyph_of c in
      if glyph = newline then
        DrawTextStringScaled_loop A fb x red green blue scale x (y + GLYPH_HEIGHT (Font A) * scale) text h
      else do {
        h \<leftarrow> DrawGlyphScaled A fb cursorX y glyph red green blue scale h;
        advance \<leftarrow>
          (if ucast glyph \<ge> FIRST_CHAR (Font A) \<and> ucast glyph < FIRST_CHAR (Font A) + GLYPH_COUNT (Font A)
           then do { a \<leftarrow> rd (GlyphAdvance (Font A)) (ucast glyph - FIRST_CHAR (Font A)); Some (ucast a * scale) }
           else Some (8 * scale));
        DrawTextStringScaled_loop A fb x red green blue scale (cursorX + advance) y text h })"

definition DrawTextStringScaled ::
  "ASSETS \<Rightarrow> FRAMEBUFFER_INFO \<Rightarrow> INT32 \<Rightarrow> INT32 \<Rightarrow> cstring option \<Rightarrow> UINT8 \<Rightarrow> UINT8 \<Rightarrow> UINT8 \<Rightarrow> UINT32 \<Rightarrow>
   heap \<Rightarrow> heap option" where
  "DrawTextStringScaled A fb x y text red green blue scale h =
     (case text of
        None \<Rightarrow> Some h
      | Some text \<Rightarrow>
          if scale = 0 then Some h
          else DrawTextStringScaled_loop A fb x red green blue scale x y text h)"

fun DrawIconTextString_loop ::
  "ASSETS \<Rightarrow> FRAMEBUFFER_INFO \<Rightarrow> INT32 \<Rightarrow> UINT8 \<Rightarrow> UINT8 \<Rightarrow> UINT8 \<Rightarrow> INT32 \<Rightarrow> INT32 \<Rightarrow> cstring \<Rightarrow>
   heap \<Rightarrow> heap option" where
  "DrawIconTextString_loop A fb x red green blue cursorX y [] h = Some h"
| "DrawIconTextString_loop A fb x red green blue cursorX y (c # text) h =
     (let glyph = glyph_of c in
      if glyph = newline then
        DrawIconTextString_loop A fb x red green blue x (y + GLYPH_HEIGHT (IconFont A)) text h
      else do {
        h \<leftarrow> DrawIconGlyph A fb cursorX y glyph red green blue h;
        advance \<leftarrow>
          (if ucast glyph \<ge> FIRST_CHAR (IconFont A)
              \<and> ucast glyph < FIRST_CHAR (IconFont A) + GLYPH_COUNT (IconFont A)
           then do { a \<leftarrow> rd (GlyphAdvance (IconFont A)) (ucast glyph - FIRST_CHAR (IconFont A)); Some (ucast a) }
           else Some 4);
        DrawIconTextString_loop A fb x red green blue (cursorX + advance) y text h })"

definition DrawIconTextString ::
  "ASSETS \<Rightarrow> FRAMEBUFFER_INFO \<Rightarrow> INT32 \<Rightarrow> INT32 \<Rightarrow> cstring option \<Rightarrow> UINT8 \<Rightarrow> UINT8 \<Rightarrow> UINT8 \<Rightarrow>
   heap \<Rightarrow> heap option" where
  "DrawIconTextString A fb x y text red green blue h =
     (case text of
        None \<Rightarrow> Some h
      | Some text \<Rightarrow> DrawIconTextString_loop A fb x red green blue x y text h)"

subsection \<open>Measuring\<close>

fun MeasureTextStringAtlas_loop ::
  "UINT32 \<Rightarrow> UINT32 \<Rightarrow> UINT8 list \<Rightarrow> UINT32 \<Rightarrow> INT32 \<Rightarrow> INT32 \<Rightarrow> cstring \<Rightarrow> INT32 option" where
  "MeasureTextStringAtlas_loop firstChar glyphCount glyphAdvance fallbackAdvance lineWidth maxWidth [] =
     Some (if maxWidth <s lineWidth then lineWidth else maxWidth)"
| "MeasureTextStringAtlas_loop firstChar glyphCount glyphAdvance fallbackAdvance lineWidth maxWidth (c # text) =
     (let glyph = glyph_of c in
      if glyph = newline then
        MeasureTextStringAtlas_loop firstChar glyphCount glyphAdvance fallbackAdvance 0
          (if maxWidth <s lineWidth then lineWidth else maxWidth) text
      else do {
        advance \<leftarrow>
          (if ucast glyph \<ge> firstChar \<and> ucast glyph < firstChar + glyphCount
           then do { a \<leftarrow> rd glyphAdvance (ucast glyph - firstChar); Some (ucast a) }
           else Some fallbackAdvance);
        MeasureTextStringAtlas_loop firstChar glyphCount glyphAdvance fallbackAdvance
          (lineWidth + advance) maxWidth text })"

definition MeasureTextStringAtlas ::
  "cstring option \<Rightarrow> UINT32 \<Rightarrow> UINT32 \<Rightarrow> UINT8 list option \<Rightarrow> UINT32 \<Rightarrow> INT32 option" where
  "MeasureTextStringAtlas text firstChar glyphCount glyphAdvance fallbackAdvance =
     (case (text, glyphAdvance) of
        (Some text, Some adv) \<Rightarrow> MeasureTextStringAtlas_loop firstChar glyphCount adv fallbackAdvance 0 0 text
      | _ \<Rightarrow> Some 0)"

fun MeasureTextStringScaled_loop :: "ASSETS \<Rightarrow> UINT32 \<Rightarrow> INT32 \<Rightarrow> INT32 \<Rightarrow> cstring \<Rightarrow> INT32 option" where
  "MeasureTextStringScaled_loop A scale lineWidth maxWidth [] =
     Some (if maxWidth <s lineWidth then lineWidth else maxWidth)"
| "MeasureTextStringScaled_loop A scale lineWidth maxWidth (c # text) =
     (let glyph = glyph_of c in
      if glyph = newline then
        MeasureTextStringScaled_loop A scale 0 (if maxWidth <s lineWidth then lineWidth else maxWidth) text
      else do {
        advance \<leftarrow>
          (if ucast glyph \<ge> FIRST_CHAR (Font A) \<and> ucast glyph < FIRST_CHAR (Font A) + GLYPH_COUNT (Font A)
           then do { a \<leftarrow> rd (GlyphAdvance (Font A)) (ucast glyph - FIRST_CHAR (Font A)); Some (ucast a * scale) }
           else Some (8 * scale));
        MeasureTextStringScaled_loop A scale (lineWidth + advance) maxWidth text })"

definition MeasureTextStringScaled :: "ASSETS \<Rightarrow> cstring option \<Rightarrow> UINT32 \<Rightarrow> INT32 option" where
  "MeasureTextStringScaled A text scale =
     (case text of
        None \<Rightarrow> Some 0
      | Some text \<Rightarrow> if scale = 0 then Some 0 else MeasureTextStringScaled_loop A scale 0 0 text)"

subsection \<open>Outlined text with a colour gradient\<close>

text \<open>How far a glyph is along the line, in 1024ths, and the colour there.\<close>

definition GradientProgress :: "INT32 \<Rightarrow> INT32 \<Rightarrow> INT32 \<Rightarrow> INT32 \<Rightarrow> UINT32" where
  "GradientProgress x cursorX glyphAdvance totalWidth =
     (let glyphCenter = cursorX - x + sdivw glyphAdvance 2;
          progress1024 = (if 0 <s totalWidth then sdivw (glyphCenter * 1024) totalWidth else 0)
      in if progress1024 > 1024 then 1024 else progress1024)"

definition GradientChannel :: "UINT8 \<Rightarrow> UINT8 \<Rightarrow> UINT32 \<Rightarrow> UINT8" where
  "GradientChannel start stop progress1024 =
     ucast (ucast start + sdivw ((ucast stop - ucast start) * progress1024) 1024 :: INT32)"

text \<open>The outline: the text in black at every offset of the surrounding square but the centre.\<close>

definition DrawOutline ::
  "UINT32 \<Rightarrow> (INT32 \<Rightarrow> INT32 \<Rightarrow> heap \<Rightarrow> heap option) \<Rightarrow> heap \<Rightarrow> heap option" where
  "DrawOutline outlineThickness draw h =
     (if outlineThickness \<noteq> 0 then
        for_sle (- outlineThickness) outlineThickness (\<lambda>offsetY.
          for_sle (- outlineThickness) outlineThickness (\<lambda>offsetX h.
            if offsetX = 0 \<and> offsetY = 0 then Some h else draw offsetX offsetY h)) h
      else Some h)"

fun DrawGradientTextAtlas_loop ::
  "FRAMEBUFFER_INFO \<Rightarrow> INT32 \<Rightarrow> UINT8 \<Rightarrow> UINT8 \<Rightarrow> UINT8 \<Rightarrow> UINT8 \<Rightarrow> UINT8 \<Rightarrow> UINT8 \<Rightarrow> UINT32 \<Rightarrow> UINT32 \<Rightarrow> UINT32 \<Rightarrow>
   UINT32 \<Rightarrow> UINT8 list option \<Rightarrow> UINT8 list option \<Rightarrow> UINT32 \<Rightarrow> INT32 \<Rightarrow> INT32 \<Rightarrow> INT32 \<Rightarrow> cstring \<Rightarrow>
   heap \<Rightarrow> heap option" where
  "DrawGradientTextAtlas_loop fb x startRed startGreen startBlue endRed endGreen endBlue
     firstChar glyphCount glyphWidth glyphHeight glyphAlpha glyphAdvance fallbackAdvance totalWidth
     cursorX y [] h = Some h"
| "DrawGradientTextAtlas_loop fb x startRed startGreen startBlue endRed endGreen endBlue
     firstChar glyphCount glyphWidth glyphHeight glyphAlpha glyphAdvance fallbackAdvance totalWidth
     cursorX y (c # text) h =
     (let glyph = glyph_of c in
      if glyph = newline then
        DrawGradientTextAtlas_loop fb x startRed startGreen startBlue endRed endGreen endBlue
          firstChar glyphCount glyphWidth glyphHeight glyphAlpha glyphAdvance fallbackAdvance totalWidth
          x (y + glyphHeight) text h
      else do {
        glyphAdvancePixels \<leftarrow>
          (if ucast glyph \<ge> firstChar \<and> ucast glyph < firstChar + glyphCount
           then do { a \<leftarrow> rd_ptr glyphAdvance (ucast glyph - firstChar); Some (ucast a) }
           else Some fallbackAdvance);
        let progress1024 = GradientProgress x cursorX glyphAdvancePixels totalWidth;
        let red = GradientChannel startRed endRed progress1024;
        let green = GradientChannel startGreen endGreen progress1024;
        let blue = GradientChannel startBlue endBlue progress1024;
        h \<leftarrow> DrawGlyphAtlas fb cursorX y glyph red green blue firstChar glyphCount glyphWidth glyphHeight
               glyphAlpha h;
        DrawGradientTextAtlas_loop fb x startRed startGreen startBlue endRed endGreen endBlue
          firstChar glyphCount glyphWidth glyphHeight glyphAlpha glyphAdvance fallbackAdvance totalWidth
          (cursorX + glyphAdvancePixels) y text h })"

definition DrawGradientOutlinedTextAtlas ::
  "FRAMEBUFFER_INFO \<Rightarrow> INT32 \<Rightarrow> INT32 \<Rightarrow> cstring option \<Rightarrow> UINT8 \<Rightarrow> UINT8 \<Rightarrow> UINT8 \<Rightarrow> UINT8 \<Rightarrow> UINT8 \<Rightarrow> UINT8 \<Rightarrow>
   UINT32 \<Rightarrow> UINT32 \<Rightarrow> UINT32 \<Rightarrow> UINT32 \<Rightarrow> UINT32 \<Rightarrow> UINT8 list option \<Rightarrow> UINT8 list option \<Rightarrow> UINT32 \<Rightarrow>
   heap \<Rightarrow> heap option" where
  "DrawGradientOutlinedTextAtlas fb x y text startRed startGreen startBlue endRed endGreen endBlue
     outlineThickness firstChar glyphCount glyphWidth glyphHeight glyphAlpha glyphAdvance fallbackAdvance h =
     (case text of
        None \<Rightarrow> Some h
      | Some string \<Rightarrow> do {
          totalWidth \<leftarrow> MeasureTextStringAtlas text firstChar glyphCount glyphAdvance fallbackAdvance;
          h \<leftarrow> DrawOutline outlineThickness (\<lambda>offsetX offsetY.
                 DrawTextStringAtlas fb (x + offsetX) (y + offsetY) text 0 0 0 firstChar glyphCount
                   glyphWidth glyphHeight glyphAlpha glyphAdvance) h;
          DrawGradientTextAtlas_loop fb x startRed startGreen startBlue endRed endGreen endBlue
            firstChar glyphCount glyphWidth glyphHeight glyphAlpha glyphAdvance fallbackAdvance totalWidth
            x y string h })"

fun DrawGradientTextScaled_loop ::
  "ASSETS \<Rightarrow> FRAMEBUFFER_INFO \<Rightarrow> INT32 \<Rightarrow> UINT32 \<Rightarrow> UINT8 \<Rightarrow> UINT8 \<Rightarrow> UINT8 \<Rightarrow> UINT8 \<Rightarrow> UINT8 \<Rightarrow> UINT8 \<Rightarrow>
   INT32 \<Rightarrow> INT32 \<Rightarrow> INT32 \<Rightarrow> cstring \<Rightarrow> heap \<Rightarrow> heap option" where
  "DrawGradientTextScaled_loop A fb x scale startRed startGreen startBlue endRed endGreen endBlue
     totalWidth cursorX y [] h = Some h"
| "DrawGradientTextScaled_loop A fb x scale startRed startGreen startBlue endRed endGreen endBlue
     totalWidth cursorX y (c # text) h =
     (let glyph = glyph_of c in
      if glyph = newline then
        DrawGradientTextScaled_loop A fb x scale startRed startGreen startBlue endRed endGreen endBlue
          totalWidth x (y + GLYPH_HEIGHT (Font A) * scale) text h
      else do {
        glyphAdvance \<leftarrow>
          (if ucast glyph \<ge> FIRST_CHAR (Font A) \<and> ucast glyph < FIRST_CHAR (Font A) + GLYPH_COUNT (Font A)
           then do { a \<leftarrow> rd (GlyphAdvance (Font A)) (ucast glyph - FIRST_CHAR (Font A)); Some (ucast a * scale) }
           else Some (8 * scale));
        let progress1024 = GradientProgress x cursorX glyphAdvance totalWidth;
        let red = GradientChannel startRed endRed progress1024;
        let green = GradientChannel startGreen endGreen progress1024;
        let blue = GradientChannel startBlue endBlue progress1024;
        h \<leftarrow> DrawGlyphScaled A fb cursorX y glyph red green blue scale h;
        DrawGradientTextScaled_loop A fb x scale startRed startGreen startBlue endRed endGreen endBlue
          totalWidth (cursorX + glyphAdvance) y text h })"

definition DrawGradientOutlinedTextScaled ::
  "ASSETS \<Rightarrow> FRAMEBUFFER_INFO \<Rightarrow> INT32 \<Rightarrow> INT32 \<Rightarrow> cstring option \<Rightarrow> UINT32 \<Rightarrow> UINT8 \<Rightarrow> UINT8 \<Rightarrow> UINT8 \<Rightarrow> UINT8 \<Rightarrow>
   UINT8 \<Rightarrow> UINT8 \<Rightarrow> UINT32 \<Rightarrow> heap \<Rightarrow> heap option" where
  "DrawGradientOutlinedTextScaled A fb x y text scale startRed startGreen startBlue endRed endGreen endBlue
     outlineThickness h =
     (case text of
        None \<Rightarrow> Some h
      | Some string \<Rightarrow>
          if scale = 0 then Some h
          else do {
            totalWidth \<leftarrow> MeasureTextStringScaled A text scale;
            h \<leftarrow> DrawOutline outlineThickness (\<lambda>offsetX offsetY.
                   DrawTextStringScaled A fb (x + offsetX) (y + offsetY) text 0 0 0 scale) h;
            DrawGradientTextScaled_loop A fb x scale startRed startGreen startBlue endRed endGreen endBlue
              totalWidth x y string h })"

subsection \<open>The contract of a text renderer\<close>

text \<open>The colour a string gives to a pixel: its glyphs' shaders, applied from left to right.\<close>

fun text_shader ::
  "(INT32 \<Rightarrow> INT32 \<Rightarrow> UINT8 \<Rightarrow> shader) \<Rightarrow> (UINT8 \<Rightarrow> INT32) \<Rightarrow> INT32 \<Rightarrow> INT32 \<Rightarrow> INT32 \<Rightarrow> INT32 \<Rightarrow> cstring \<Rightarrow> shader"
where
  "text_shader shade step line x cx y [] = (\<lambda>X Y c. c)"
| "text_shader shade step line x cx y (ch # text) =
     (if glyph_of ch = newline then text_shader shade step line x x (y + line) text
      else (\<lambda>X Y c. text_shader shade step line x (cx + step (glyph_of ch)) y text X Y
              (shade cx y (glyph_of ch) X Y c)))"

locale text_renderer =
  fixes ready :: bool
    and fb :: FRAMEBUFFER_INFO
    and shade :: "INT32 \<Rightarrow> INT32 \<Rightarrow> UINT8 \<Rightarrow> shader"
    and step :: "UINT8 \<Rightarrow> INT32"
    and line :: INT32
    and draw :: "INT32 \<Rightarrow> INT32 \<Rightarrow> UINT8 \<Rightarrow> heap \<Rightarrow> heap option"
    and loop :: "INT32 \<Rightarrow> INT32 \<Rightarrow> cstring \<Rightarrow> heap \<Rightarrow> heap option"
    and x :: INT32
  assumes draw: "ready \<Longrightarrow> mapped fb h \<Longrightarrow> wp (recolours fb (shade cx y glyph) h) (draw cx y glyph h)"
    and loop_end: "loop cx y [] h = Some h"
    and loop_newline: "glyph_of c = newline \<Longrightarrow> loop cx y (c # text) h = loop x (y + line) text h"
    and loop_glyph: "ready \<Longrightarrow> glyph_of c \<noteq> newline \<Longrightarrow> loop cx y (c # text) h =
      do { h \<leftarrow> draw cx y (glyph_of c) h; loop (cx + step (glyph_of c)) y text h }"
begin

lemma renders:
  assumes "ready" "mapped fb h"
  shows "wp (recolours fb (text_shader shade step line x cx y str) h) (loop cx y str h)"
  using assms(2)
proof (induction str arbitrary: cx y h)
  case Nil
  show ?case by (simp add: loop_end recolours_refl)
next
  case (Cons c str)
  show ?case
  proof (cases "glyph_of c = newline")
    case True
    then show ?thesis using Cons by (simp add: loop_newline)
  next
    case False
    have "wp (\<lambda>h1. wp (recolours fb (text_shader shade step line x cx y (c # str)) h)
        (loop (cx + step (glyph_of c)) y str h1)) (draw cx y (glyph_of c) h)"
    proof (rule wp_mono [OF draw [OF assms(1) Cons.prems]])
      fix h1 assume d: "recolours fb (shade cx y (glyph_of c)) h h1"
      then have "mapped fb h1" using Cons.prems by simp
      from Cons.IH [OF this] show "wp (recolours fb (text_shader shade step line x cx y (c # str)) h)
        (loop (cx + step (glyph_of c)) y str h1)"
        by (rule wp_mono) (rule recolours_trans [OF d], assumption, simp add: False)
    qed
    then show ?thesis using False by (simp add: loop_glyph [OF assms(1)])
  qed
qed

lemma renders_draws: "ready \<Longrightarrow> mapped fb h \<Longrightarrow> wp (draws fb h) (loop cx y str h)"
  by (rule wp_recolours_draws [OF renders])

end

subsection \<open>The six renderers\<close>

definition glyph_step :: "UINT32 \<Rightarrow> UINT32 \<Rightarrow> UINT8 list \<Rightarrow> UINT32 \<Rightarrow> INT32 \<Rightarrow> UINT8 \<Rightarrow> INT32" where
  "glyph_step first count adv scale fallback glyph =
     (if has_glyph first count glyph then ucast (adv ! unat (ucast glyph - first)) * scale else fallback)"

lemma has_glyph_pos:
  "(ucast glyph \<ge> first \<and> ucast glyph < first + count) \<longleftrightarrow> has_glyph first count glyph"
  by (auto simp: has_glyph_def)

lemma rd_advance:
  "has_glyph first count glyph \<Longrightarrow> unat count \<le> length adv \<Longrightarrow>
   rd adv (ucast glyph - first) = Some (adv ! unat (ucast glyph - first))"
  using has_glyph_index [of first count glyph] by (simp add: rd_Some word_less_nat_alt)

lemma glyph_advance:
  assumes "unat count \<le> length adv"
  shows "(if ucast glyph \<ge> first \<and> ucast glyph < first + count
      then do { a \<leftarrow> rd adv (ucast glyph - first); Some (ucast a * scale) } else Some fallback)
    = Some (glyph_step first count adv scale fallback glyph)"
    "(if ucast glyph \<ge> first \<and> ucast glyph < first + count
      then do { a \<leftarrow> rd adv (ucast glyph - first); Some (ucast a) } else Some fallback)
    = Some (glyph_step first count adv 1 fallback glyph)"
  unfolding has_glyph_pos using rd_advance [OF _ assms, of first glyph] by (auto simp: glyph_step_def)

lemma font_ok_advance: "font_ok F \<Longrightarrow> unat (GLYPH_COUNT F) \<le> length (GlyphAdvance F)"
  by (simp add: font_ok_def)

definition font_shader :: "FRAMEBUFFER_INFO \<Rightarrow> FONT \<Rightarrow> UINT8 \<Rightarrow> UINT8 \<Rightarrow> UINT8 \<Rightarrow> INT32 \<Rightarrow> INT32 \<Rightarrow> UINT8 \<Rightarrow> shader" where
  "font_shader fb F r g b cx y glyph =
     atlas_shader fb (FIRST_CHAR F) (GLYPH_COUNT F) (GLYPH_WIDTH F) (GLYPH_HEIGHT F) (GlyphAlpha F) cx y glyph r g b"

definition font_step :: "FONT \<Rightarrow> UINT32 \<Rightarrow> INT32 \<Rightarrow> UINT8 \<Rightarrow> INT32" where
  "font_step F = glyph_step (FIRST_CHAR F) (GLYPH_COUNT F) (GlyphAdvance F)"

lemmas font_advance = glyph_advance [OF font_ok_advance]

interpretation console: text_renderer "format_ok fb \<and> font_ok (Font A)" fb "font_shader fb (Font A) r g b"
  "font_step (Font A) 1 8" "GLYPH_HEIGHT (Font A)" "\<lambda>cx y glyph. DrawGlyph A fb cx y glyph r g b"
  "DrawTextString_loop A fb x r g b" x for A fb r g b x
proof (unfold_locales, goal_cases)
  case (1 h cx y glyph)
  then show ?case
    using DrawGlyphAtlas_recolours [OF 1(2), of "GLYPH_COUNT (Font A)" "GLYPH_WIDTH (Font A)"
        "GLYPH_HEIGHT (Font A)" "GlyphAlpha (Font A)" "FIRST_CHAR (Font A)" cx y glyph r g b]
    by (simp add: DrawGlyph_atlas font_shader_def font_ok_atlas)
next
  case (4 c cx y str h)
  then show ?case by (simp add: font_advance font_step_def Let_def)
qed simp_all

interpretation icons: text_renderer "format_ok fb \<and> font_ok (IconFont A)" fb "font_shader fb (IconFont A) r g b"
  "font_step (IconFont A) 1 4" "GLYPH_HEIGHT (IconFont A)" "\<lambda>cx y glyph. DrawIconGlyph A fb cx y glyph r g b"
  "DrawIconTextString_loop A fb x r g b" x for A fb r g b x
proof (unfold_locales, goal_cases)
  case (1 h cx y glyph)
  then show ?case
    using DrawGlyphAtlas_recolours [OF 1(2), of "GLYPH_COUNT (IconFont A)" "GLYPH_WIDTH (IconFont A)"
        "GLYPH_HEIGHT (IconFont A)" "GlyphAlpha (IconFont A)" "FIRST_CHAR (IconFont A)" cx y glyph r g b]
    by (simp add: DrawIconGlyph_atlas font_shader_def font_ok_atlas)
next
  case (4 c cx y str h)
  then show ?case by (simp add: font_advance font_step_def Let_def)
qed simp_all

interpretation scaled: text_renderer "format_ok fb \<and> font_ok (Font A) \<and> scale_ok (Font A) scale" fb
  "\<lambda>cx y glyph. font_scaled_shader fb (Font A) scale cx y glyph r g b"
  "font_step (Font A) scale (8 * scale)" "GLYPH_HEIGHT (Font A) * scale"
  "\<lambda>cx y glyph. DrawGlyphScaled A fb cx y glyph r g b scale"
  "DrawTextStringScaled_loop A fb x r g b scale" x for A fb r g b scale x
proof (unfold_locales, goal_cases)
  case (1 h cx y glyph)
  then show ?case by (simp add: DrawGlyphScaled_recolours)
next
  case (4 c cx y str h)
  then show ?case by (simp add: font_advance font_step_def Let_def)
qed simp_all

interpretation gradient_scaled: text_renderer "format_ok fb \<and> font_ok (Font A) \<and> scale_ok (Font A) scale" fb
  "\<lambda>cx y glyph. let p = GradientProgress x cx (font_step (Font A) scale (8 * scale) glyph) totalWidth in
     font_scaled_shader fb (Font A) scale cx y glyph
       (GradientChannel r r' p) (GradientChannel g g' p) (GradientChannel b b' p)"
  "font_step (Font A) scale (8 * scale)" "GLYPH_HEIGHT (Font A) * scale"
  "\<lambda>cx y glyph. let p = GradientProgress x cx (font_step (Font A) scale (8 * scale) glyph) totalWidth in
     DrawGlyphScaled A fb cx y glyph
       (GradientChannel r r' p) (GradientChannel g g' p) (GradientChannel b b' p) scale"
  "DrawGradientTextScaled_loop A fb x scale r g b r' g' b' totalWidth" x
  for A fb r g b r' g' b' scale totalWidth x
proof (unfold_locales, goal_cases)
  case (1 h cx y glyph)
  then show ?case unfolding Let_def by (simp add: DrawGlyphScaled_recolours)
next
  case (4 c cx y str h)
  then show ?case by (simp add: font_advance font_step_def Let_def)
qed simp_all

text \<open>The atlas renderers, whose table pointers are not null.\<close>

interpretation atlas: text_renderer "format_ok fb \<and> atlas_ok count gw gh table \<and> unat count \<le> length adv" fb
  "\<lambda>cx y glyph. atlas_shader fb first count gw gh table cx y glyph r g b"
  "glyph_step first count adv 1 (gw div 2)" gh
  "\<lambda>cx y glyph. DrawGlyphAtlas fb cx y glyph r g b first count gw gh (Some table)"
  "DrawTextStringAtlas_loop fb x r g b first count gw gh (Some table) adv" x
  for fb first count gw gh table adv r g b x
proof (unfold_locales, goal_cases)
  case (1 h cx y glyph)
  then show ?case by (simp add: DrawGlyphAtlas_recolours)
next
  case (4 c cx y str h)
  then show ?case by (simp add: glyph_advance Let_def)
qed simp_all

interpretation gradient_atlas:
  text_renderer "format_ok fb \<and> atlas_ok count gw gh table \<and> unat count \<le> length adv" fb
  "\<lambda>cx y glyph. let p = GradientProgress x cx (glyph_step first count adv 1 fallback glyph) totalWidth in
     atlas_shader fb first count gw gh table cx y glyph
       (GradientChannel r r' p) (GradientChannel g g' p) (GradientChannel b b' p)"
  "glyph_step first count adv 1 fallback" gh
  "\<lambda>cx y glyph. let p = GradientProgress x cx (glyph_step first count adv 1 fallback glyph) totalWidth in
     DrawGlyphAtlas fb cx y glyph
       (GradientChannel r r' p) (GradientChannel g g' p) (GradientChannel b b' p) first count gw gh (Some table)"
  "DrawGradientTextAtlas_loop fb x r g b r' g' b' first count gw gh (Some table) (Some adv) fallback totalWidth" x
  for fb first count gw gh table adv fallback r g b r' g' b' totalWidth x
proof (unfold_locales, goal_cases)
  case (1 h cx y glyph)
  then show ?case unfolding Let_def by (simp add: DrawGlyphAtlas_recolours)
next
  case (4 c cx y str h)
  then show ?case by (simp add: has_glyph_pos rd_advance glyph_step_def Let_def)
qed simp_all

subsection \<open>Whole strings\<close>

lemma DrawTextString_recolours:
  assumes "mapped fb h" "format_ok fb" "font_ok (Font A)"
  shows "wp (recolours fb (text_shader (font_shader fb (Font A) r g b) (font_step (Font A) 1 8)
           (GLYPH_HEIGHT (Font A)) x x y str) h) (DrawTextString A fb x y (Some str) r g b h)"
  using assms by (simp add: DrawTextString_def console.renders)

lemma DrawTextString_draws:
  "mapped fb h \<Longrightarrow> format_ok fb \<Longrightarrow> font_ok (Font A) \<Longrightarrow> wp (draws fb h) (DrawTextString A fb x y str r g b h)"
  by (simp add: DrawTextString_def console.renders_draws split: option.split)

lemma DrawIconTextString_draws:
  "mapped fb h \<Longrightarrow> format_ok fb \<Longrightarrow> font_ok (IconFont A) \<Longrightarrow>
   wp (draws fb h) (DrawIconTextString A fb x y str r g b h)"
  by (simp add: DrawIconTextString_def icons.renders_draws split: option.split)

lemma DrawTextStringScaled_draws:
  "mapped fb h \<Longrightarrow> format_ok fb \<Longrightarrow> font_ok (Font A) \<Longrightarrow> scale_ok (Font A) scale \<Longrightarrow>
   wp (draws fb h) (DrawTextStringScaled A fb x y str r g b scale h)"
  by (simp add: DrawTextStringScaled_def scaled.renders_draws split: option.split)

lemma DrawTextStringAtlas_draws:
  "mapped fb h \<Longrightarrow> format_ok fb \<Longrightarrow> font_ok F \<Longrightarrow>
   wp (draws fb h) (DrawTextStringAtlas fb x y str r g b (FIRST_CHAR F) (GLYPH_COUNT F) (GLYPH_WIDTH F)
     (GLYPH_HEIGHT F) (Some (GlyphAlpha F)) (Some (GlyphAdvance F)) h)"
  by (simp add: DrawTextStringAtlas_def atlas.renders_draws font_ok_atlas font_ok_advance split: option.split)

subsection \<open>Measuring is total\<close>

lemma MeasureTextStringAtlas_loop_defined:
  "unat count \<le> length adv \<Longrightarrow> \<exists>n. MeasureTextStringAtlas_loop first count adv fallback lw mw str = Some n"
  by (induction str arbitrary: lw mw) (simp_all add: glyph_advance Let_def)

lemma MeasureTextStringAtlas_defined:
  "font_ok F \<Longrightarrow> \<exists>n. MeasureTextStringAtlas str (FIRST_CHAR F) (GLYPH_COUNT F) (Some (GlyphAdvance F)) fallback = Some n"
  by (auto simp: MeasureTextStringAtlas_def MeasureTextStringAtlas_loop_defined font_ok_advance split: option.split)

lemma MeasureTextStringScaled_loop_defined:
  "font_ok (Font A) \<Longrightarrow> \<exists>n. MeasureTextStringScaled_loop A scale lw mw str = Some n"
  by (induction str arbitrary: lw mw) (simp_all add: font_advance Let_def)

lemma MeasureTextStringScaled_defined:
  "font_ok (Font A) \<Longrightarrow> \<exists>n. MeasureTextStringScaled A str scale = Some n"
  by (auto simp: MeasureTextStringScaled_def MeasureTextStringScaled_loop_defined split: option.split)

subsection \<open>Outlines\<close>

lemma for_sle_done: "\<not> i \<le>s hi \<Longrightarrow> for_sle i hi f s = Some s"
  by (subst for_sle.simps) (simp only: if_False)

lemma int32_max: "i \<le>s hi \<Longrightarrow> hi \<noteq> 0x7FFFFFFF \<Longrightarrow> i \<noteq> (0x7FFFFFFF :: INT32)"
proof
  assume a: "i \<le>s hi" "hi \<noteq> 0x7FFFFFFF" "i = 0x7FFFFFFF"
  then have "sint hi = sint (0x7FFFFFFF :: INT32)"
    using sint_upper32 [of hi] by (simp add: word_sle_eq)
  then have "hi = 0x7FFFFFFF" by (rule signed_word_eqI)
  with a(2) show False by (rule notE)
qed

lemma for_sle_step:
  "i \<le>s hi \<Longrightarrow> hi \<noteq> 0x7FFFFFFF \<Longrightarrow> for_sle i hi f s = do { s \<leftarrow> f i s; for_sle (i + 1) hi f s }"
  using int32_max [of i hi] by (subst for_sle.simps) simp

lemma draws_for_sle:
  assumes "mapped fb h" "hi \<noteq> 0x7FFFFFFF" "\<And>j h. mapped fb h \<Longrightarrow> wp (draws fb h) (f j h)"
  shows "wp (draws fb h) (for_sle i hi f h)"
  using assms
proof (induction i hi f h rule: for_sle.induct)
  case (1 i hi f h)
  show ?case
  proof (cases "i \<le>s hi")
    case True
    have "wp (\<lambda>h1. wp (draws fb h) (for_sle (i + 1) hi f h1)) (f i h)"
    proof (rule wp_mono [OF wp_with_eq [OF "1.prems"(3) [OF "1.prems"(1), of i]]], elim conjE)
      fix h1 assume h1: "draws fb h h1" and eq: "f i h = Some h1"
      from h1 have "mapped fb h1" using "1.prems"(1) by (simp add: draws_mapped)
      then have "wp (draws fb h1) (for_sle (i + 1) hi f h1)"
        using "1.prems"(2,3) by (intro "1.IH" [OF True eq int32_max [OF True "1.prems"(2)]])
      then show "wp (draws fb h) (for_sle (i + 1) hi f h1)"
        by (rule wp_mono) (rule draws_trans [OF h1])
    qed
    then show ?thesis by (simp only: for_sle_step [OF True "1.prems"(2)] wp_bind)
  next
    case False
    then show ?thesis by (simp add: for_sle_done)
  qed
qed

lemma DrawOutline_draws:
  assumes "mapped fb h" "t \<noteq> 0x7FFFFFFF" "\<And>dx dy h. mapped fb h \<Longrightarrow> wp (draws fb h) (draw dx dy h)"
  shows "wp (draws fb h) (DrawOutline t draw h)"
  unfolding DrawOutline_def using assms by (auto intro!: draws_for_sle)

lemma DrawGradientOutlinedTextAtlas_draws:
  assumes m: "mapped fb h" and f: "format_ok fb" and ok: "font_ok F" and t: "t \<noteq> 0x7FFFFFFF"
  shows "wp (draws fb h) (DrawGradientOutlinedTextAtlas fb x y str r g b r' g' b' t (FIRST_CHAR F)
    (GLYPH_COUNT F) (GLYPH_WIDTH F) (GLYPH_HEIGHT F) (Some (GlyphAlpha F)) (Some (GlyphAdvance F)) fallback h)"
proof (cases str)
  case (Some s)
  obtain n where n: "MeasureTextStringAtlas str (FIRST_CHAR F) (GLYPH_COUNT F) (Some (GlyphAdvance F)) fallback = Some n"
    using MeasureTextStringAtlas_defined [OF ok] by blast
  show ?thesis
    unfolding DrawGradientOutlinedTextAtlas_def Some option.case n [unfolded Some] Option.bind.simps
    by (rule draws_bind [OF m DrawOutline_draws [OF m t]])
       (simp_all add: DrawTextStringAtlas_draws f ok gradient_atlas.renders_draws font_ok_atlas font_ok_advance)
qed (simp add: DrawGradientOutlinedTextAtlas_def)

lemma DrawGradientOutlinedTextScaled_draws:
  assumes m: "mapped fb h" and f: "format_ok fb" and ok: "font_ok (Font A)" and sc: "scale_ok (Font A) scale"
    and t: "t \<noteq> 0x7FFFFFFF"
  shows "wp (draws fb h) (DrawGradientOutlinedTextScaled A fb x y str scale r g b r' g' b' t h)"
proof (cases str)
  case (Some s)
  obtain n where n: "MeasureTextStringScaled A str scale = Some n"
    using MeasureTextStringScaled_defined [OF ok] by blast
  have "wp (draws fb h) (do {
      h \<leftarrow> DrawOutline t (\<lambda>dx dy. DrawTextStringScaled A fb (x + dx) (y + dy) (Some s) 0 0 0 scale) h;
      DrawGradientTextScaled_loop A fb x scale r g b r' g' b' n x y s h })"
    by (rule draws_bind [OF m DrawOutline_draws [OF m t]])
       (simp_all add: DrawTextStringScaled_draws f ok sc gradient_scaled.renders_draws)
  then show ?thesis
    using n by (simp add: DrawGradientOutlinedTextScaled_def Some)
qed (simp add: DrawGradientOutlinedTextScaled_def)

subsection \<open>Gradients\<close>

lemma GradientProgress_le: "GradientProgress x cx adv width \<le> 1024"
  by (simp add: GradientProgress_def Let_def not_less)

lemma gradient_step_between:
  assumes "0 \<le> p" "p \<le> (1024 :: int)"
  shows "min 0 d \<le> (d * p) sdiv 1024 \<and> (d * p) sdiv 1024 \<le> max 0 d"
proof (cases "0 \<le> d")
  case True
  then have "0 \<le> d * p" "d * p \<le> d * 1024" using assms by (simp_all add: mult_left_mono)
  then have "0 \<le> d * p div 1024" "d * p div 1024 \<le> d" by linarith+
  then show ?thesis using True \<open>0 \<le> d * p\<close> by (simp add: sdiv_pos)
next
  case False
  then have "0 \<le> (- d) * p" "(- d) * p \<le> (- d) * 1024"
    using assms by (auto intro: mult_left_mono mult_nonpos_nonneg)
  then have "0 \<le> ((- d) * p) div 1024" "((- d) * p) div 1024 \<le> - d" by linarith+
  then show ?thesis using False \<open>0 \<le> (- d) * p\<close> by (simp add: sdiv_neg)
qed

lemma sint_byte: "sint (ucast (b :: UINT8) :: INT32) = int (unat b)"
proof -
  have "unat (ucast b :: INT32) = unat b" by (rule unat_ucast_le) simp
  moreover from this have "unat (ucast b :: INT32) < 2147483648" using unat_lt8 [of b] by linarith
  ultimately show ?thesis by (simp only: sint_of_small)
qed

lemma GradientChannel_int:
  assumes p: "p \<le> 1024"
  shows "int (unat (GradientChannel s e p))
    = int (unat s) + ((int (unat e) - int (unat s)) * int (unat p)) sdiv 1024"
proof -
  define d where "d = int (unat e) - int (unat s)"
  define k where "k = (d * int (unat p)) sdiv 1024"
  have up: "unat p \<le> 1024" using p by (simp add: word_le_nat_alt)
  then have upi: "int (unat p) \<le> 1024" by (simp only: of_nat_le_numeral_iff)
  from up have sp: "sint p = int (unat p)" by (intro sint_of_small) simp
  have s8: "int (unat s) \<le> 255" "int (unat e) \<le> 255"
    by (simp_all only: of_nat_le_numeral_iff unat_le8)
  then have d: "- 255 \<le> d" "d \<le> 255" unfolding d_def by linarith+
  have sd: "sint (ucast e - ucast s :: INT32) = d"
  proof (subst sint_diff_exact)
  qed (use d in \<open>unfold sint_byte d_def [symmetric], linarith+\<close>)
  have "\<bar>d * int (unat p)\<bar> \<le> 255 * 1024"
  proof -
    have "\<bar>d\<bar> \<le> 255" "\<bar>int (unat p)\<bar> \<le> 1024" using d up by linarith+
    then show ?thesis unfolding abs_mult by (rule mult_mono) simp_all
  qed
  then have b: "- 261120 \<le> d * int (unat p)" "d * int (unat p) \<le> 261120"
    unfolding abs_le_iff by linarith+
  have sdp: "sint ((ucast e - ucast s) * p :: INT32) = d * int (unat p)"
  proof (subst sint_mult_exact)
  qed (use b in \<open>unfold sd sp, linarith+\<close>)
  have k: "min 0 d \<le> k" "k \<le> max 0 d"
    unfolding k_def using gradient_step_between [of "int (unat p)" d] upi by simp_all
  have sk: "sint (sdivw ((ucast e - ucast s) * p) 1024 :: INT32) = k"
    unfolding sdivw_def sdp using k d by (subst sint_word_of_int32) (simp_all add: k_def)
  have r: "0 \<le> int (unat s) + k" "int (unat s) + k \<le> 255"
    using k s8 unfolding d_def by linarith+
  have sum: "sint (ucast s + sdivw ((ucast e - ucast s) * p) 1024 :: INT32) = int (unat s) + k"
  proof (subst sint_add_exact)
  qed (use r in \<open>unfold sint_byte sk, linarith+\<close>)
  let ?w = "ucast s + sdivw ((ucast e - ucast s) * p) 1024 :: INT32"
  have "\<not> ?w <s 0" using r(1) by (simp only: word_sless_alt sum sint_0 not_less)
  then have "int (unat ?w) = int (unat s) + k"
    unfolding sum [symmetric] by (rule sint_eq_unat [symmetric])
  moreover from this have "unat ?w < 256" using r(2) by linarith
  ultimately show ?thesis
    by (simp only: GradientChannel_def unat_ucast_32_8 mod_less k_def d_def)
qed

lemma GradientChannel_between:
  assumes "p \<le> 1024"
  shows "min (unat s) (unat e) \<le> unat (GradientChannel s e p)"
    "unat (GradientChannel s e p) \<le> max (unat s) (unat e)"
proof -
  have "int (unat p) \<le> 1024"
    using assms by (simp only: of_nat_le_numeral_iff) (simp add: word_le_nat_alt)
  then have "min 0 (int (unat e) - int (unat s)) \<le> int (unat (GradientChannel s e p)) - int (unat s)"
    "int (unat (GradientChannel s e p)) - int (unat s) \<le> max 0 (int (unat e) - int (unat s))"
    using gradient_step_between [of "int (unat p)" "int (unat e) - int (unat s)"]
    unfolding GradientChannel_int [OF assms] by simp_all
  then show "min (unat s) (unat e) \<le> unat (GradientChannel s e p)"
    "unat (GradientChannel s e p) \<le> max (unat s) (unat e)" by linarith+
qed

end
