(* ===== verification/Console.thy ===== *)
theory Console
  imports Cursor Text
begin

text \<open>
  Text output: the formatting routines that write into fixed-size line buffers through a
  moving \<open>char*\<close>, line counting and console blocks, and the mouse debug overlay.  A buffer
  is its capacity and what has been written so far; a write at the end of a full buffer is
  undefined.  The printed numbers parse back to the values printed.
\<close>

record line_buffer =
  Capacity :: nat
  Written :: "char list"

text \<open>\<open>**cursor = c; (*cursor)++\<close>, and the final \<open>*cursor = 0\<close> that makes it a string.\<close>

definition put_char :: "char \<Rightarrow> line_buffer \<Rightarrow> line_buffer option" where
  "put_char c b = (if length (Written b) < Capacity b then Some (b\<lparr>Written := Written b @ [c]\<rparr>) else None)"

definition end_line :: "line_buffer \<Rightarrow> cstring option" where
  "end_line b =
     (if length (Written b) < Capacity b then Some (takeWhile (\<lambda>c. of_char c \<noteq> (0 :: UINT8)) (Written b)) else None)"

definition new_line :: "nat \<Rightarrow> line_buffer" where
  "new_line n = \<lparr>Capacity = n, Written = []\<rparr>"

subsection \<open>Formatting\<close>

fun AppendText :: "line_buffer \<Rightarrow> cstring \<Rightarrow> line_buffer option" where
  "AppendText cursor [] = Some cursor"
| "AppendText cursor (c # text) = do { cursor \<leftarrow> put_char c cursor; AppendText cursor text }"

text \<open>The digits, least significant first, in the local array of 16.\<close>

function AppendInt_digits :: "UINT32 \<Rightarrow> char list \<Rightarrow> char list option" where
  "AppendInt_digits magnitude digits =
     (if magnitude > 0 then
        if length digits < 16 then
          AppendInt_digits (magnitude div 10) (digits @ [char_of (48 + unat (magnitude mod 10))])
        else None
      else Some digits)"
  by pat_completeness auto
termination
  by (relation "measure (\<lambda>(m, _). unat m)") (simp_all add: unat_div word_less_nat_alt)

definition AppendInt :: "line_buffer \<Rightarrow> INT32 \<Rightarrow> line_buffer option" where
  "AppendInt cursor v =
     (if v = 0 then put_char (CHR ''0'') cursor
      else do {
        (cursor, magnitude) \<leftarrow>
          (if v <s 0 then do { cursor \<leftarrow> put_char (CHR ''-'') cursor; Some (cursor, - v) }
           else Some (cursor, v));
        digits \<leftarrow> AppendInt_digits magnitude [];
        AppendText cursor (rev digits) })"

definition AppendUIntHexFixed :: "line_buffer \<Rightarrow> UINT32 \<Rightarrow> UINT32 \<Rightarrow> line_buffer option" where
  "AppendUIntHexFixed cursor v digits =
     for32 0 digits (\<lambda>index cursor. do {
       let shift = (digits - 1 - index) * 4;
       shifted \<leftarrow> shr32 v shift;
       let nibble = shifted AND 0xF;
       put_char (char_of (if nibble < 10 then 48 + unat nibble else 65 + (unat nibble - 10))) cursor }) cursor"

subsection \<open>Lines and blocks\<close>

fun CountTextLines_loop :: "UINT32 \<Rightarrow> cstring \<Rightarrow> UINT32" where
  "CountTextLines_loop lines [] = lines"
| "CountTextLines_loop lines (c # text) = CountTextLines_loop (if glyph_of c = newline then lines + 1 else lines) text"

definition CountTextLines :: "cstring option \<Rightarrow> UINT32" where
  "CountTextLines text = (case text of None \<Rightarrow> 0 | Some s \<Rightarrow> if s = [] then 0 else CountTextLines_loop 1 s)"

definition CountIconTextLines :: "cstring option \<Rightarrow> UINT32" where
  "CountIconTextLines text = CountTextLines text"

definition AdvanceConsoleBlockY :: "ASSETS \<Rightarrow> INT32 \<Rightarrow> cstring option \<Rightarrow> INT32" where
  "AdvanceConsoleBlockY A y text = y + CountTextLines text * GLYPH_HEIGHT (Font A) + 5"

definition AdvanceIconConsoleBlockY :: "ASSETS \<Rightarrow> INT32 \<Rightarrow> cstring option \<Rightarrow> INT32" where
  "AdvanceIconConsoleBlockY A y text = y + CountIconTextLines text * GLYPH_HEIGHT (IconFont A) + 5"

definition DrawConsoleBlock ::
  "ASSETS \<Rightarrow> FRAMEBUFFER_INFO \<Rightarrow> INT32 \<Rightarrow> INT32 \<Rightarrow> cstring option \<Rightarrow> heap \<Rightarrow> (INT32 \<times> heap) option" where
  "DrawConsoleBlock A fb x y text h =
     (if text = None \<or> text = Some [] then Some (y, h)
      else do {
        h \<leftarrow> DrawTextString A fb x y text 255 255 255 h;
        let lines = CountTextLines text;
        Some (y + lines * GLYPH_HEIGHT (Font A) + 5, h) })"

definition DrawIconConsoleBlock ::
  "ASSETS \<Rightarrow> FRAMEBUFFER_INFO \<Rightarrow> INT32 \<Rightarrow> INT32 \<Rightarrow> cstring option \<Rightarrow> heap \<Rightarrow> (INT32 \<times> heap) option" where
  "DrawIconConsoleBlock A fb x y text h =
     (if text = None \<or> text = Some [] then Some (y, h)
      else do {
        h \<leftarrow> DrawIconTextString A fb x y text 255 255 255 h;
        let lines = CountIconTextLines text;
        Some (y + lines * GLYPH_HEIGHT (IconFont A) + 5, h) })"

text \<open>The two lines of the debug overlay, each built in \<open>char line[96]\<close>.\<close>

definition MouseDebugLine1 :: "SOFTWARE_CURSOR \<Rightarrow> cstring option" where
  "MouseDebugLine1 cursor = do {
     w \<leftarrow> AppendText (new_line 96) ''Raw '';
     w \<leftarrow> AppendInt w (LastRawX cursor);
     w \<leftarrow> AppendText w '','';
     w \<leftarrow> AppendInt w (LastRawY cursor);
     w \<leftarrow> AppendText w '' Poll '';
     w \<leftarrow> AppendInt w (LastPollCount cursor);
     end_line w }"

definition MouseDebugLine2 :: "SOFTWARE_CURSOR \<Rightarrow> cstring option" where
  "MouseDebugLine2 cursor = do {
     w \<leftarrow> AppendText (new_line 96) ''Px '';
     w \<leftarrow> AppendInt w (LastPixelX cursor);
     w \<leftarrow> AppendText w '','';
     w \<leftarrow> AppendInt w (LastPixelY cursor);
     end_line w }"

definition DrawMouseDebug :: "ASSETS \<Rightarrow> FRAMEBUFFER_INFO \<Rightarrow> SOFTWARE_CURSOR \<Rightarrow> heap \<Rightarrow> heap option" where
  "DrawMouseDebug A fb cursor h = do {
     black \<leftarrow> ComposeFor fb 0 0 0;
     let debugHeight = GLYPH_HEIGHT (Font A) * 2 + 8;
     let debugY = (if ScreenHeight fb > debugHeight + 16 then ScreenHeight fb - debugHeight - 16 else 0);
     h \<leftarrow> ClearRect fb 24 debugY 420 debugHeight black h;
     line \<leftarrow> MouseDebugLine1 cursor;
     h \<leftarrow> DrawTextString A fb 24 debugY (Some line) 170 220 255 h;
     line \<leftarrow> MouseDebugLine2 cursor;
     DrawTextString A fb 24 (debugY + GLYPH_HEIGHT (Font A)) (Some line) 170 255 170 h }"

subsection \<open>What is written\<close>

text \<open>\<open>writes n b P m\<close>: \<open>m\<close> appends at most \<open>n\<close> characters to \<open>b\<close>, and they satisfy \<open>P\<close>.\<close>

definition writes :: "nat \<Rightarrow> line_buffer \<Rightarrow> (char list \<Rightarrow> bool) \<Rightarrow> line_buffer option \<Rightarrow> bool" where
  "writes n b P m \<longleftrightarrow> wp (\<lambda>b'. \<exists>s. b' = b\<lparr>Written := Written b @ s\<rparr> \<and> length s \<le> n \<and> P s) m"

lemma writesI: "m = Some (b\<lparr>Written := Written b @ s\<rparr>) \<Longrightarrow> length s \<le> n \<Longrightarrow> P s \<Longrightarrow> writes n b P m"
  by (auto simp: writes_def)

lemma writes_mono: "writes n b P m \<Longrightarrow> n \<le> k \<Longrightarrow> (\<And>s. P s \<Longrightarrow> Q s) \<Longrightarrow> writes k b Q m"
  unfolding writes_def by (erule wp_mono) fastforce

lemma writes_bind:
  assumes "writes n b P m"
    and "\<And>s. P s \<Longrightarrow> length s \<le> n \<Longrightarrow> writes k (b\<lparr>Written := Written b @ s\<rparr>) (\<lambda>t. Q (s @ t)) (f (b\<lparr>Written := Written b @ s\<rparr>))"
  shows "writes (n + k) b Q (Option.bind m f)"
  unfolding writes_def
proof (simp, rule wp_mono [OF assms(1) [unfolded writes_def]], elim exE conjE)
  fix b' s assume s: "b' = b\<lparr>Written := Written b @ s\<rparr>" "length s \<le> n" "P s"
  from assms(2) [OF s(3,2)] show "wp (\<lambda>b'. \<exists>s. b' = b\<lparr>Written := Written b @ s\<rparr> \<and> length s \<le> n + k \<and> Q s) (f b')"
    unfolding writes_def s(1)
  proof (rule wp_mono, elim exE conjE)
    fix b'' t
    assume "b'' = b\<lparr>Written := Written b @ s\<rparr>\<lparr>Written := Written (b\<lparr>Written := Written b @ s\<rparr>) @ t\<rparr>"
      "length t \<le> k" "Q (s @ t)"
    then show "\<exists>s. b'' = b\<lparr>Written := Written b @ s\<rparr> \<and> length s \<le> n + k \<and> Q s"
      using s(2) by (intro exI [of _ "s @ t"]) simp
  qed
qed

lemma AppendText_eq:
  "length (Written b) + length s \<le> Capacity b \<Longrightarrow> AppendText b s = Some (b\<lparr>Written := Written b @ s\<rparr>)"
  by (induction s arbitrary: b) (simp_all add: put_char_def)

lemma AppendText_writes:
  "length (Written b) + length s \<le> Capacity b \<Longrightarrow> writes (length s) b (\<lambda>t. t = s) (AppendText b s)"
  by (rule writesI [where s = s]) (simp_all add: AppendText_eq)

subsection \<open>Decimal numbers parse back\<close>

definition digit_value :: "char \<Rightarrow> nat" where
  "digit_value c = (if of_char c < (58 :: nat) then of_char c - 48 else of_char c - 55)"

fun parse_nat :: "nat \<Rightarrow> nat \<Rightarrow> char list \<Rightarrow> nat" where
  "parse_nat base acc [] = acc"
| "parse_nat base acc (c # cs) = parse_nat base (acc * base + digit_value c) cs"

definition parse_int :: "char list \<Rightarrow> int" where
  "parse_int s = (case s of
       [] \<Rightarrow> 0
     | c # t \<Rightarrow> if c = CHR ''-'' then - int (parse_nat 10 0 t) else int (parse_nat 10 0 s))"

lemma parse_nat_append: "parse_nat base acc (s @ t) = parse_nat base (parse_nat base acc s) t"
  by (induction s arbitrary: acc) simp_all

lemma of_char_digit: "d < 10 \<Longrightarrow> of_char (char_of (48 + d) :: char) = (48 + d :: nat)"
  by (simp add: of_char_of)

lemma digit_value_digit: "d < 10 \<Longrightarrow> digit_value (char_of (48 + d)) = d"
  by (simp add: digit_value_def of_char_digit)

declare AppendInt_digits.simps [simp del]

text \<open>The digits of \<open>m\<close> in reverse: a decimal number of at most \<open>k\<close> digits has value below \<open>10^k\<close>.\<close>

lemma AppendInt_digits_spec:
  assumes "unat m < 10 ^ k" "length ds + k \<le> 16"
  shows "\<exists>es. AppendInt_digits m ds = Some (ds @ es) \<and> length es \<le> k \<and>
    parse_nat 10 0 (rev es) = unat m \<and> (\<forall>c \<in> set es. \<exists>d<10. c = char_of (48 + d :: nat)) \<and> (m \<noteq> 0 \<longrightarrow> es \<noteq> [])"
  using assms
proof (induction m ds arbitrary: k rule: AppendInt_digits.induct)
  case (1 m ds)
  show ?case
  proof (cases "m > 0")
    case True
    then have "k \<noteq> 0" using "1.prems"(1) by (cases k) (auto simp: word_less_nat_alt)
    then obtain k' where k: "k = Suc k'" by (cases k) auto
    let ?c = "char_of (48 + unat (m mod 10)) :: char"
    have d: "unat (m mod 10) = unat m mod 10" "unat (m div 10) = unat m div 10"
      by (simp_all add: unat_div unat_mod)
    have "unat (m div 10) < 10 ^ k'" using "1.prems"(1) unfolding d k by (simp add: less_mult_imp_div_less mult.commute)
    moreover have len: "length ds < 16" "length (ds @ [?c]) + k' \<le> 16" using "1.prems"(2) k by simp_all
    ultimately obtain es where es: "AppendInt_digits (m div 10) (ds @ [?c]) = Some ((ds @ [?c]) @ es)"
      "length es \<le> k'" "parse_nat 10 0 (rev es) = unat (m div 10)" "\<forall>c \<in> set es. \<exists>d<10. c = char_of (48 + d :: nat)"
      using "1.IH" [OF True len(1)] by blast
    have "AppendInt_digits m ds = Some (ds @ (?c # es))"
      using True len(1) es(1) by (subst AppendInt_digits.simps) simp
    moreover have "digit_value ?c = unat m mod 10" unfolding d by (rule digit_value_digit) simp
    then have "parse_nat 10 0 (rev (?c # es)) = unat m"
      using es(3) by (simp add: parse_nat_append d)
    moreover have "\<exists>d<10. ?c = char_of (48 + d :: nat)" unfolding d by (rule exI [of _ "unat m mod 10"]) simp
    ultimately show ?thesis using es(2,4) k by (intro exI [of _ "?c # es"]) simp
  next
    case False
    then have "m = 0" by (simp add: word_gt_0)
    then show ?thesis by (subst AppendInt_digits.simps) (intro exI [of _ "[]"], simp)
  qed
qed

lemma digit_not_minus: "d < 10 \<Longrightarrow> char_of (48 + d :: nat) \<noteq> CHR ''-''"
proof
  assume "d < 10" "char_of (48 + d :: nat) = CHR ''-''"
  then have "(48 + d :: nat) = of_char (CHR ''-'')" using of_char_digit [of d] by simp
  then show False by simp
qed

lemma parse_int_digits:
  assumes "\<forall>c \<in> set s. \<exists>d<10. c = char_of (48 + d :: nat)"
  shows "parse_int s = int (parse_nat 10 0 s)"
proof (cases s)
  case (Cons c t)
  then have "c \<noteq> CHR ''-''" using assms digit_not_minus by auto
  then show ?thesis by (simp add: parse_int_def Cons)
qed (simp add: parse_int_def)

lemma unat_negative:
  assumes "sint (v :: 32 word) < 0" shows "int (unat v) = sint v + 4294967296"
proof -
  have "uint v = (sint v + 4294967296) mod 4294967296"
    by (simp add: uint_sint take_bit_eq_mod)
  also have "\<dots> = sint v + 4294967296"
    using assms sint_lower32 [of v] by (intro mod_pos_pos_trivial) linarith+
  finally show ?thesis by simp
qed

lemma AppendInt_writes:
  assumes room: "length (Written b) + 11 \<le> Capacity b"
  shows "writes 11 b (\<lambda>s. parse_int s = sint v) (AppendInt b v)"
proof (cases "v = 0")
  case True
  have "parse_int ''0'' = 0" by (simp add: parse_int_def digit_value_def)
  then show ?thesis using True room by (intro writesI [where s = "''0''"]) (simp_all add: AppendInt_def put_char_def)
next
  case False
  define neg where "neg \<longleftrightarrow> v <s 0"
  define m where "m = (if neg then - v else v)"
  have "unat m < 10 ^ 10" by (rule less_trans [OF unat_lt32]) simp
  from AppendInt_digits_spec [OF this, of "[]"] obtain es where es: "AppendInt_digits m [] = Some es" "length es \<le> 10"
    "parse_nat 10 0 (rev es) = unat m" "\<forall>c \<in> set (rev es). \<exists>d<10. c = char_of (48 + d :: nat)" by auto
  have val: "sint v = (if neg then - int (unat m) else int (unat m))"
  proof (cases neg)
    case True
    then have "sint v < 0" by (simp add: neg_def word_sless_alt)
    then have "int (unat v) = sint v + 4294967296" by (rule unat_negative)
    moreover have "unat (- v) = 4294967296 - unat v" using unat_minus_wrap [of 0 v] False by (simp add: word_gt_0)
    ultimately have "int (unat (- v)) = - sint v"
      using less_imp_le [OF unat_lt32 [of v]] by (simp only: of_nat_diff of_nat_numeral)
    then show ?thesis using True by (simp only: m_def if_True)
  next
    case False
    then show ?thesis using sint_eq_unat [of v] by (simp add: neg_def m_def)
  qed
  let ?s = "(if neg then ''-'' else []) @ rev es"
  have "AppendInt b v = Some (b\<lparr>Written := Written b @ ?s\<rparr>)"
    using room es(1,2) False
    by (cases neg) (simp_all add: AppendInt_def neg_def [symmetric] put_char_def AppendText_eq m_def)
  moreover have "parse_int ?s = sint v"
    using es(3) parse_int_digits [OF es(4)] by (simp add: val) (simp add: parse_int_def)
  ultimately show ?thesis using es(2) by (intro writesI [where s = ?s]) simp_all
qed

subsection \<open>Hexadecimal numbers parse back\<close>

definition hex_char :: "UINT32 \<Rightarrow> char" where
  "hex_char nibble = char_of (if nibble < 10 then 48 + unat nibble else 65 + (unat nibble - 10))"

lemma digit_value_hex:
  assumes "unat n < 16" shows "digit_value (hex_char n) = unat n"
proof (cases "unat n < 10")
  case True
  then show ?thesis by (simp add: hex_char_def digit_value_digit word_less_nat_alt)
next
  case False
  then have "hex_char n = char_of (55 + unat n)" by (simp add: hex_char_def word_less_nat_alt)
  moreover have "of_char (char_of (55 + unat n) :: char) = (55 + unat n :: nat)"
    using assms by (simp add: of_char_of)
  ultimately show ?thesis using False assms by (simp add: digit_value_def)
qed

lemma unat_nibble: "unat (drop_bit k v AND (0xF :: UINT32)) = unat v div 2 ^ k mod 16"
proof -
  have "(0xF :: UINT32) = mask 4" by (simp add: mask_eq_exp_minus_1)
  then have "drop_bit k v AND 0xF = take_bit 4 (drop_bit k v)" by (simp only: take_bit_eq_mask)
  then show ?thesis by (simp add: take_bit_eq_mod unat_mod unat_drop_bit)
qed

text \<open>After \<open>j\<close> of \<open>n\<close> digits the leading \<open>j\<close> nibbles have been printed.\<close>

lemma AppendUIntHexFixed_writes:
  assumes n: "unat n \<le> 8" and room: "length (Written b) + unat n \<le> Capacity b"
  shows "writes (unat n) b (\<lambda>s. length s = unat n \<and> parse_nat 16 0 s = unat v mod 16 ^ unat n)
    (AppendUIntHexFixed b v n)"
  unfolding writes_def AppendUIntHexFixed_def
proof (rule wp_for32 [where I = "\<lambda>j b'. \<exists>s. b' = b\<lparr>Written := Written b @ s\<rparr> \<and> length s = j \<and>
      parse_nat 16 0 s = unat v mod 16 ^ unat n div 16 ^ (unat n - j)"], goal_cases)
  case 1
  show ?case by (rule exI [of _ "[]"]) simp
next
  case (2 j b')
  then obtain s where s: "b' = b\<lparr>Written := Written b @ s\<rparr>" "length s = unat j"
    "parse_nat 16 0 s = unat v mod 16 ^ unat n div 16 ^ (unat n - unat j)" by blast
  have j: "unat j < unat n" using 2(1) by (simp add: word_less_nat_alt)
  define k where "k = unat n - 1 - unat j"
  have nj: "unat n - unat j = Suc k" "unat n - Suc (unat j) = k" using j by (simp_all add: k_def)
  have "unat (n - 1) = unat n - 1" using j by (subst unat_diff) (simp_all add: word_le_nat_alt)
  moreover from this have "unat (n - 1 - j) = k" using j by (subst unat_diff) (simp_all add: word_le_nat_alt k_def)
  ultimately have sh: "unat ((n - 1 - j) * 4) = 4 * k"
    using n by (subst unat_mult32) (simp_all add: k_def)
  then have lt: "(n - 1 - j) * 4 < 32" using n j by (simp add: word_less_nat_alt k_def)
  have nib: "unat (drop_bit (4 * k) v AND 0xF) = unat v div 16 ^ k mod 16"
    unfolding unat_nibble by (simp add: power_mult)
  let ?c = "hex_char (drop_bit (4 * k) v AND 0xF)"
  have val: "digit_value ?c = unat v div 16 ^ k mod 16" using nib by (subst digit_value_hex) simp_all
  have "unat v mod 16 ^ unat n div 16 ^ k = unat v mod 16 ^ unat n div 16 ^ Suc k * 16
      + unat v mod 16 ^ unat n div 16 ^ k mod 16"
    by (simp only: power_Suc2 div_mult2_eq div_mult_mod_eq)
  moreover have "unat v mod 16 ^ unat n div 16 ^ k mod 16 = unat v div 16 ^ k mod 16"
  proof -
    have "unat n = k + Suc (unat j)" using j by (simp add: k_def)
    then have "(16::nat) ^ unat n = 16 ^ k * 16 ^ Suc (unat j)" by (simp only: power_add)
    then have "unat v mod 16 ^ unat n div 16 ^ k = unat v div 16 ^ k mod 16 ^ Suc (unat j)"
      by (simp only: mod_mult2_eq) simp
    then show ?thesis by (simp add: mod_mod_cancel)
  qed
  ultimately have "parse_nat 16 0 (s @ [?c]) = unat v mod 16 ^ unat n div 16 ^ (unat n - Suc (unat j))"
    using s(3) val by (simp only: parse_nat_append nj parse_nat.simps)
  then show ?case
    using s room j lt sh
    by (simp add: shr32_def put_char_def Let_def flip: hex_char_def) (rule exI [of _ "s @ [?c]"], simp)
next
  case (3 b')
  then show ?case by auto
qed

subsection \<open>Line counts and blocks\<close>

lemma CountTextLines_loop_count:
  "CountTextLines_loop n s = n + of_nat (length (filter (\<lambda>c. glyph_of c = newline) s))"
  by (induction s arbitrary: n) (simp_all add: algebra_simps)

lemma CountTextLines_count:
  "CountTextLines (Some s) = (if s = [] then 0 else 1 + of_nat (length (filter (\<lambda>c. glyph_of c = newline) s)))"
  by (simp add: CountTextLines_def CountTextLines_loop_count)

text \<open>A drawn block ends where \<open>AdvanceConsoleBlockY\<close> says, unless there is no text.\<close>

lemma DrawConsoleBlock_advance:
  assumes m: "mapped fb h" and f: "format_ok fb" and ok: "font_ok (Font A)"
  shows "wp (\<lambda>(y', h'). draws fb h h' \<and>
      y' = (if str = None \<or> str = Some [] then y else AdvanceConsoleBlockY A y str)) (DrawConsoleBlock A fb x y str h)"
  using DrawTextString_draws [OF m f ok, of x y str 255 255 255]
  by (auto simp: DrawConsoleBlock_def AdvanceConsoleBlockY_def elim!: wp_mono)

lemma DrawIconConsoleBlock_advance:
  assumes m: "mapped fb h" and f: "format_ok fb" and ok: "font_ok (IconFont A)"
  shows "wp (\<lambda>(y', h'). draws fb h h' \<and>
      y' = (if str = None \<or> str = Some [] then y else AdvanceIconConsoleBlockY A y str)) (DrawIconConsoleBlock A fb x y str h)"
  using DrawIconTextString_draws [OF m f ok, of x y str 255 255 255]
  by (auto simp: DrawIconConsoleBlock_def AdvanceIconConsoleBlockY_def elim!: wp_mono)

text \<open>The debug overlay's lines fit their buffers.\<close>

lemma writes_end_line:
  assumes "writes n (new_line k) P m" "n < k" shows "\<exists>s. do { w \<leftarrow> m; end_line w } = Some s"
  using assms by (auto simp: writes_def wp_iff new_line_def end_line_def)

lemma writes_text:
  "length (Written b) + length s \<le> Capacity b \<Longrightarrow> writes (length s) b (\<lambda>_. True) (AppendText b s)"
  by (rule writes_mono [OF AppendText_writes]) simp_all

lemma writes_int:
  "length (Written b) + 11 \<le> Capacity b \<Longrightarrow> writes 11 b (\<lambda>_. True) (AppendInt b v)"
  by (rule writes_mono [OF AppendInt_writes]) simp_all

lemma writes_hex:
  "unat n \<le> 8 \<Longrightarrow> length (Written b) + unat n \<le> Capacity b \<Longrightarrow>
   writes (unat n) b (\<lambda>_. True) (AppendUIntHexFixed b v n)"
  by (rule writes_mono [OF AppendUIntHexFixed_writes]) simp_all

text \<open>Chaining: room is what is left of the buffer after the worst case so far.\<close>

definition room :: "nat \<Rightarrow> nat \<Rightarrow> line_buffer option \<Rightarrow> bool" where
  "room used k m \<longleftrightarrow> wp (\<lambda>b. Capacity b = k \<and> length (Written b) \<le> used) m"

lemma room_new: "room 0 k (Some (new_line k))"
  by (simp add: room_def new_line_def)

lemma room_step:
  assumes "room used k m" "\<And>b :: line_buffer. length (Written b) \<le> used \<Longrightarrow> Capacity b = k \<Longrightarrow> writes n b (\<lambda>_. True) (f b)"
  shows "room (used + n) k (Option.bind m f)"
  unfolding room_def
proof (simp, rule wp_mono [OF assms(1) [unfolded room_def]], elim conjE)
  fix b :: line_buffer assume b: "Capacity b = k" "length (Written b) \<le> used"
  show "wp (\<lambda>b. Capacity b = k \<and> length (Written b) \<le> used + n) (f b)"
    by (rule wp_mono [OF assms(2) [OF b(2,1), unfolded writes_def]]) (use b in auto)
qed

lemma room_text: "room used k m \<Longrightarrow> used + length s \<le> k \<Longrightarrow> room (used + length s) k (do { b \<leftarrow> m; AppendText b s })"
  by (erule room_step) (simp add: writes_text)

lemma room_int: "room used k m \<Longrightarrow> used + 11 \<le> k \<Longrightarrow> room (used + 11) k (do { b \<leftarrow> m; AppendInt b v })"
  by (erule room_step) (simp add: writes_int)

lemma room_hex:
  "room used k m \<Longrightarrow> unat n \<le> 8 \<Longrightarrow> used + unat n \<le> k \<Longrightarrow>
   room (used + unat n) k (do { b \<leftarrow> m; AppendUIntHexFixed b v n })"
  by (erule room_step) (simp add: writes_hex)

lemma room_end: "room used k m \<Longrightarrow> used < k \<Longrightarrow> \<exists>s. do { b \<leftarrow> m; end_line b } = Some s"
  by (auto simp: room_def wp_iff end_line_def)

text \<open>One \<open>rule\<close> per statement of a line builder, on the left-nested program.\<close>

lemmas line_rules = room_text room_int room_hex

lemma MouseDebugLine1_defined: "\<exists>s. MouseDebugLine1 cursor = Some s"
proof -
  have "room (0 + length ''Raw '' + 11 + length '','' + 11 + length '' Poll '' + 11) 96
    (do { w \<leftarrow> do { w \<leftarrow> do { w \<leftarrow> do { w \<leftarrow> do { w \<leftarrow> do { w \<leftarrow> Some (new_line 96);
      AppendText w ''Raw '' }; AppendInt w (LastRawX cursor) }; AppendText w '','' };
      AppendInt w (LastRawY cursor) }; AppendText w '' Poll '' }; AppendInt w (LastPollCount cursor) })"
    by (intro line_rules room_new) simp_all
  from room_end [OF this] show ?thesis by (simp add: MouseDebugLine1_def)
qed

lemma MouseDebugLine2_defined: "\<exists>s. MouseDebugLine2 cursor = Some s"
proof -
  have "room (0 + length ''Px '' + 11 + length '','' + 11) 96
    (do { w \<leftarrow> do { w \<leftarrow> do { w \<leftarrow> do { w \<leftarrow> Some (new_line 96);
      AppendText w ''Px '' }; AppendInt w (LastPixelX cursor) }; AppendText w '','' };
      AppendInt w (LastPixelY cursor) })"
    by (intro line_rules room_new) simp_all
  from room_end [OF this] show ?thesis by (simp add: MouseDebugLine2_def)
qed

lemma draws_seq:
  assumes "mapped fb h" "wp (draws fb h) m" "\<And>h'. mapped fb h' \<Longrightarrow> wp (draws fb h') (k h')"
  shows "wp (\<lambda>h'. wp (draws fb h) (k h')) m"
  using draws_bind [OF assms] by simp

lemma ClearRect_draws: "mapped fb h \<Longrightarrow> wp (draws fb h) (ClearRect fb x y w n color h)"
  by (rule wp_recolours_draws [OF ClearRect_recolours])

lemma DrawMouseDebug_draws:
  assumes m: "mapped fb h" and f: "format_ok fb" and ok: "font_ok (Font A)"
  shows "wp (draws fb h) (DrawMouseDebug A fb cursor h)"
proof -
  obtain l1 l2 where l: "MouseDebugLine1 cursor = Some l1" "MouseDebugLine2 cursor = Some l2"
    using MouseDebugLine1_defined MouseDebugLine2_defined by blast
  show ?thesis
    unfolding DrawMouseDebug_def ComposeFor_black [OF f] l Let_def Option.bind.simps
    by (rule draws_bind [OF m ClearRect_draws [OF m]], rule draws_bind)
       (simp_all add: DrawTextString_draws f ok)
qed

end
