(* ===== verification/Pointer.thy ===== *)
theory Pointer
  imports Cursor
begin

text \<open>
  Pointer input: clamping, the movement curve, fixed-point scaling and acceleration, and the
  two UEFI pointer protocols.  Movement accumulates in 1/256 pixels; what is carried over is
  always less than a pixel.  Every source of movement keeps the cursor where its bitmap
  fits: the contract \<open>cursor_updater\<close>.
\<close>

subsection \<open>Status codes\<close>

definition EFI_SUCCESS :: EFI_STATUS where "EFI_SUCCESS = 0"
definition EFI_ERROR_BIT :: EFI_STATUS where "EFI_ERROR_BIT = 0x8000000000000000"
definition EFI_INVALID_PARAMETER :: EFI_STATUS where "EFI_INVALID_PARAMETER = EFI_ERROR_BIT OR 2"
definition EFI_UNSUPPORTED :: EFI_STATUS where "EFI_UNSUPPORTED = EFI_ERROR_BIT OR 3"
definition EFI_BUFFER_TOO_SMALL :: EFI_STATUS where "EFI_BUFFER_TOO_SMALL = EFI_ERROR_BIT OR 5"
definition EFI_NOT_READY :: EFI_STATUS where "EFI_NOT_READY = EFI_ERROR_BIT OR 6"

lemmas efi_status_defs = EFI_SUCCESS_def EFI_INVALID_PARAMETER_def EFI_UNSUPPORTED_def
  EFI_BUFFER_TOO_SMALL_def EFI_NOT_READY_def EFI_ERROR_BIT_def

lemma efi_status_distinct [simp]:
  "EFI_NOT_READY \<noteq> EFI_SUCCESS" "EFI_SUCCESS \<noteq> EFI_NOT_READY"
  "EFI_INVALID_PARAMETER \<noteq> EFI_SUCCESS" "EFI_UNSUPPORTED \<noteq> EFI_SUCCESS"
  "EFI_BUFFER_TOO_SMALL \<noteq> EFI_SUCCESS" "EFI_SUCCESS \<noteq> EFI_BUFFER_TOO_SMALL"
  "EFI_INVALID_PARAMETER \<noteq> EFI_BUFFER_TOO_SMALL" "EFI_BUFFER_TOO_SMALL \<noteq> EFI_INVALID_PARAMETER"
  by (simp_all add: efi_status_defs)

subsection \<open>Clamping and scaling\<close>

definition ClampCoordinate :: "INT32 \<Rightarrow> UINT32 \<Rightarrow> UINT32" where
  "ClampCoordinate v limit =
     (if limit = 0 then 0
      else if v <s 0 then 0
      else
        let maxValue = limit - 1 in
        if maxValue <s v then limit - 1 else v)"

definition ClampCursorX :: "ASSETS \<Rightarrow> INT32 \<Rightarrow> FRAMEBUFFER_INFO \<Rightarrow> UINT32" where
  "ClampCursorX A v fb =
     (let limit = (if ScreenWidth fb > CURSOR_WIDTH A then ScreenWidth fb - CURSOR_WIDTH A else 0)
      in ClampCoordinate v (limit + 1))"

definition ClampCursorY :: "ASSETS \<Rightarrow> INT32 \<Rightarrow> FRAMEBUFFER_INFO \<Rightarrow> UINT32" where
  "ClampCursorY A v fb =
     (let limit = (if ScreenHeight fb > CURSOR_HEIGHT A then ScreenHeight fb - CURSOR_HEIGHT A else 0)
      in ClampCoordinate v (limit + 1))"

definition ClampI32 :: "INT32 \<Rightarrow> INT32 \<Rightarrow> INT32 \<Rightarrow> INT32" where
  "ClampI32 Value MinV MaxV = (if Value <s MinV then MinV else if MaxV <s Value then MaxV else Value)"

definition ApplyMouseCurve :: "INT32 \<Rightarrow> INT32" where
  "ApplyMouseCurve Delta =
     (let AbsDelta = (if Delta <s 0 then - Delta else Delta) in
      if AbsDelta \<le>s 1 then Delta
      else
        let Curve = AbsDelta + sdivw (AbsDelta * AbsDelta) 8;
            Curve = (if 64 <s Curve then 64 else Curve)
        in if Delta <s 0 then - Curve else Curve)"

definition POINTER_SENSITIVITY_PCT :: UINT32 where "POINTER_SENSITIVITY_PCT = 100"

abbreviation FIXED_PIXEL_ONE :: INT32 where "FIXED_PIXEL_ONE \<equiv> 256"

definition CountsToFixedPixels :: "INT32 \<Rightarrow> UINT64 \<Rightarrow> UINT32 \<Rightarrow> INT32" where
  "CountsToFixedPixels Counts Resolution Span =
     (if Counts = 0 \<or> Span = 0 then 0
      else
        let Res = (if Resolution = 0 \<or> Resolution > 400 then 8 else Resolution);
            Pixels = sdivw (scast Counts * ucast Span * 2 * ucast POINTER_SENSITIVITY_PCT * scast FIXED_PIXEL_ONE)
                       (Res * 10000 :: INT64)
        in ucast Pixels)"

definition ApplyMouseAcceleration :: "INT32 \<Rightarrow> INT32" where
  "ApplyMouseAcceleration DeltaFixed =
     (let AbsDelta = (if DeltaFixed <s 0 then - DeltaFixed else DeltaFixed);
          Gain1024 = 1024 + sdivw (AbsDelta * 192) FIXED_PIXEL_ONE;
          Gain1024 = (if Gain1024 > 3072 then 3072 else Gain1024);
          Accelerated = sdivw (scast DeltaFixed * ucast Gain1024 :: INT64) 1024
      in ucast Accelerated)"

text \<open>
  Adding a movement to an accumulator: whole pixels out, the rest carried over.  Returns the
  pixels and the new accumulator.
\<close>

definition Accumulate :: "INT32 \<Rightarrow> INT32 \<Rightarrow> INT32 \<times> INT32" where
  "Accumulate Accum DeltaFixed =
     (let Accum = ClampI32 (Accum + DeltaFixed) (- (FIXED_PIXEL_ONE * 64)) (FIXED_PIXEL_ONE * 64);
          Delta = sdivw Accum FIXED_PIXEL_ONE
      in (Delta, Accum - Delta * FIXED_PIXEL_ONE))"

subsection \<open>The UEFI pointer protocols\<close>

text \<open>
  \<open>GetState\<close> is firmware: it acts on the environment \<open>'e\<close>, returns a status, and may or may
  not write the caller's \<open>State\<close> variable, which starts uninitialised.
\<close>

record EFI_SIMPLE_POINTER_STATE =
  RelativeMovementX :: INT32
  RelativeMovementY :: INT32
  RelativeMovementZ :: INT32
  LeftButton :: UINT8
  RightButton :: UINT8

record EFI_SIMPLE_POINTER_MODE =
  ResolutionX :: UINT64
  ResolutionY :: UINT64
  ResolutionZ :: UINT64
  ModeLeftButton :: UINT8
  ModeRightButton :: UINT8

record 'e EFI_SIMPLE_POINTER_PROTOCOL =
  GetState :: "'e \<Rightarrow> EFI_STATUS \<times> EFI_SIMPLE_POINTER_STATE option \<times> 'e"
  Mode :: "EFI_SIMPLE_POINTER_MODE option"

record EFI_ABSOLUTE_POINTER_STATE =
  CurrentX :: UINT64
  CurrentY :: UINT64
  CurrentZ :: UINT64
  ActiveButtons :: UINT32

record EFI_ABSOLUTE_POINTER_MODE =
  AbsoluteMinX :: UINT64
  AbsoluteMinY :: UINT64
  AbsoluteMinZ :: UINT64
  AbsoluteMaxX :: UINT64
  AbsoluteMaxY :: UINT64
  AbsoluteMaxZ :: UINT64
  Attributes :: UINT32

record 'e EFI_ABSOLUTE_POINTER_PROTOCOL =
  GetAbsoluteState :: "'e \<Rightarrow> EFI_STATUS \<times> EFI_ABSOLUTE_POINTER_STATE option \<times> 'e"
  AbsoluteMode :: "EFI_ABSOLUTE_POINTER_MODE option"

definition written :: "'s option \<Rightarrow> 's option \<Rightarrow> 's option" where
  "written old new = (case new of Some s \<Rightarrow> Some s | None \<Rightarrow> old)"

text \<open>The polling loop has no bound of its own: firmware that is always ready keeps it going.\<close>

partial_function (option) AbsolutePointer_poll ::
  "'e EFI_ABSOLUTE_POINTER_PROTOCOL \<Rightarrow> EFI_ABSOLUTE_POINTER_STATE option \<Rightarrow> UINT8 \<Rightarrow> 'e \<Rightarrow>
   ((EFI_ABSOLUTE_POINTER_STATE option \<times> UINT8) option \<times> 'e) option" where
  "AbsolutePointer_poll Pointer State HasState e =
     (case GetAbsoluteState Pointer e of (Status, out, e) \<Rightarrow>
        let State = written State out in
        if Status = EFI_NOT_READY then Some (Some (State, HasState), e)
        else if Status \<noteq> EFI_SUCCESS then Some (None, e)
        else AbsolutePointer_poll Pointer State 1 e)"

definition TryUpdateCursorFromAbsolutePointer ::
  "ASSETS \<Rightarrow> 'e EFI_ABSOLUTE_POINTER_PROTOCOL option \<Rightarrow> SOFTWARE_CURSOR option \<Rightarrow> FRAMEBUFFER_INFO option \<Rightarrow>
   'e \<Rightarrow> (UINT8 \<times> SOFTWARE_CURSOR option \<times> 'e) option" where
  "TryUpdateCursorFromAbsolutePointer A Pointer Cursor FramebufferInfo e =
     (case (Pointer, Cursor, FramebufferInfo) of
        (Some P, Some cursor, Some fb) \<Rightarrow>
          (case AbsoluteMode P of
             None \<Rightarrow> Some (0, Cursor, e)
           | Some M \<Rightarrow> do {
               (r, e) \<leftarrow> AbsolutePointer_poll P None 0 e;
               (case r of
                  None \<Rightarrow> Some (0, Cursor, e)
                | Some (S, HasState) \<Rightarrow>
                    if HasState = 0 then Some (0, Cursor, e)
                    else
                      let RangeX = AbsoluteMaxX M - AbsoluteMinX M;
                          RangeY = AbsoluteMaxY M - AbsoluteMinY M
                      in if RangeX = 0 \<or> RangeY = 0 then Some (0, Cursor, e)
                         else do {
                           State \<leftarrow> S;
                           let NewX = ucast (((CurrentX State - AbsoluteMinX M) * ucast (ScreenWidth fb)) div RangeX);
                           let NewY = ucast (((CurrentY State - AbsoluteMinY M) * ucast (ScreenHeight fb)) div RangeY);
                           let cursor = cursor\<lparr>LeftButtonDown := bool8 (ActiveButtons State AND 1 \<noteq> 0)\<rparr>;
                           if NewX = X cursor \<and> NewY = Y cursor then Some (0, Some cursor, e)
                           else
                             let cursor = cursor\<lparr>X := ClampCursorX A NewX fb\<rparr>;
                                 cursor = cursor\<lparr>Y := ClampCursorY A NewY fb\<rparr>
                             in Some (1, Some cursor, e) }) })
      | _ \<Rightarrow> Some (0, Cursor, e))"

text \<open>The relative pointer: at most 64 reports are summed.\<close>

record simple_poll =
  TotalCountsX :: INT64
  TotalCountsY :: INT64
  PollCount :: UINT32
  PollLeftButtonDown :: UINT8

lemma unat_next_poll: "unat (x + 1) < 64 \<Longrightarrow> unat (2 + x) = Suc (unat (x + 1 :: UINT32))"
proof -
  assume "unat (x + 1) < 64"
  then have "x + 1 < 64" by (simp add: word_less_nat_alt)
  from unat_Suc_word [OF this] show ?thesis by (simp add: add.commute add.left_commute)
qed

function SimplePointer_poll ::
  "'e EFI_SIMPLE_POINTER_PROTOCOL \<Rightarrow> EFI_SIMPLE_POINTER_STATE option \<Rightarrow> simple_poll \<Rightarrow> 'e \<Rightarrow>
   (simple_poll option \<times> 'e) option" where
  "SimplePointer_poll Pointer S p e =
     (case GetState Pointer e of (Status, out, e) \<Rightarrow>
        if Status = EFI_NOT_READY then Some (Some p, e)
        else if Status \<noteq> EFI_SUCCESS then Some (None, e)
        else do {
          State \<leftarrow> written S out;
          let p' = \<lparr>TotalCountsX = TotalCountsX p + scast (RelativeMovementX State),
                    TotalCountsY = TotalCountsY p + scast (RelativeMovementY State),
                    PollCount = PollCount p + 1,
                    PollLeftButtonDown = (if LeftButton State \<noteq> 0 then 1 else 0)\<rparr>;
          if PollCount p' \<ge> 64 then Some (Some p', e)
          else SimplePointer_poll Pointer (written S out) p' e })"
  by pat_completeness auto
termination
  by (relation "measure (\<lambda>(_, _, p, _). 64 - unat (PollCount p + 1))")
     (auto simp: not_le unat_next_poll word_less_nat_alt)

declare SimplePointer_poll.simps [simp del]

definition MoveCursorSimple ::
  "ASSETS \<Rightarrow> EFI_SIMPLE_POINTER_MODE option \<Rightarrow> FRAMEBUFFER_INFO \<Rightarrow> INT64 \<Rightarrow> INT64 \<Rightarrow> SOFTWARE_CURSOR \<Rightarrow>
   UINT8 \<times> SOFTWARE_CURSOR" where
  "MoveCursorSimple A mode fb TotalX TotalY Cursor =
     (let ResX = (case mode of Some M \<Rightarrow> ResolutionX M | None \<Rightarrow> 0);
          ResY = (case mode of Some M \<Rightarrow> ResolutionY M | None \<Rightarrow> 0);
          DeltaXFixed = CountsToFixedPixels (ApplyMouseCurve (ClampI32 (ucast TotalX) (- 256) 256)) ResX (ScreenWidth fb);
          DeltaYFixed = CountsToFixedPixels (ApplyMouseCurve (ClampI32 (ucast TotalY) (- 256) 256)) ResY (ScreenHeight fb);
          DeltaXFixed = (if DeltaXFixed = 0 \<and> TotalX \<noteq> 0
                         then ClampI32 (ucast TotalX) (- 8) 8 * sdivw FIXED_PIXEL_ONE 2 else DeltaXFixed);
          DeltaYFixed = (if DeltaYFixed = 0 \<and> TotalY \<noteq> 0
                         then ClampI32 (ucast TotalY) (- 8) 8 * sdivw FIXED_PIXEL_ONE 2 else DeltaYFixed);
          DeltaXFixed = ApplyMouseAcceleration DeltaXFixed;
          DeltaYFixed = ApplyMouseAcceleration DeltaYFixed;
          (DeltaX, accumX) = Accumulate (AccumX Cursor) DeltaXFixed;
          (DeltaY, accumY) = Accumulate (AccumY Cursor) DeltaYFixed;
          Cursor = Cursor\<lparr>AccumX := accumX, AccumY := accumY, LastPixelX := DeltaX, LastPixelY := DeltaY\<rparr>
      in if DeltaX = 0 \<and> DeltaY = 0 then (0, Cursor)
         else
           let NewX = X Cursor + DeltaX; NewY = Y Cursor + DeltaY
           in (1, Cursor\<lparr>X := ClampCursorX A NewX fb, Y := ClampCursorY A NewY fb\<rparr>))"

definition TryUpdateCursorFromSimplePointer ::
  "ASSETS \<Rightarrow> 'e EFI_SIMPLE_POINTER_PROTOCOL option \<Rightarrow> SOFTWARE_CURSOR option \<Rightarrow> FRAMEBUFFER_INFO option \<Rightarrow>
   'e \<Rightarrow> (UINT8 \<times> SOFTWARE_CURSOR option \<times> 'e) option" where
  "TryUpdateCursorFromSimplePointer A Pointer Cursor FramebufferInfo e =
     (case (Pointer, Cursor, FramebufferInfo) of
        (Some P, Some cursor, Some fb) \<Rightarrow> do {
          (r, e) \<leftarrow> SimplePointer_poll P None
             \<lparr>TotalCountsX = 0, TotalCountsY = 0, PollCount = 0, PollLeftButtonDown = LeftButtonDown cursor\<rparr> e;
          (case r of
             None \<Rightarrow> Some (0, Cursor, e)
           | Some p \<Rightarrow>
               if PollCount p = 0 then Some (0, Cursor, e)
               else
                 let cursor = cursor\<lparr>LeftButtonDown := PollLeftButtonDown p,
                       LastRawX := ClampI32 (ucast (TotalCountsX p)) (- 9999) 9999,
                       LastRawY := ClampI32 (ucast (TotalCountsY p)) (- 9999) 9999,
                       LastPollCount := PollCount p\<rparr>
                 in if TotalCountsX p = 0 \<and> TotalCountsY p = 0
                    then Some (0, Some (cursor\<lparr>LastPixelX := 0, LastPixelY := 0\<rparr>), e)
                    else
                      let (moved, cursor) = MoveCursorSimple A (Mode P) fb (TotalCountsX p) (TotalCountsY p) cursor
                      in Some (moved, Some cursor, e)) }
      | _ \<Rightarrow> Some (0, Cursor, e))"

subsection \<open>Clamping stays within its limits\<close>

lemma ClampI32_sint:
  assumes "sint a \<le> sint b" shows "sint (ClampI32 v a b) = max (sint a) (min (sint b) (sint v))"
  using assms by (auto simp: ClampI32_def word_sless_alt)

lemma ClampCoordinate_sint:
  assumes "limit \<noteq> 0" "unat limit \<le> 2147483648"
  shows "sint (ClampCoordinate v limit) = max 0 (min (int (unat limit) - 1) (sint v))"
    "unat (ClampCoordinate v limit) < unat limit"
proof -
  have pos: "0 < unat limit" using assms(1) by (simp add: unat_gt_0)
  then have u: "unat (limit - 1) = unat limit - 1" by (subst unat_diff) (simp_all add: word_le_nat_alt)
  then have s: "sint (limit - 1) = int (unat limit) - 1" using assms(2) pos by (subst sint_of_small) linarith+
  have c: "ClampCoordinate v limit = (if v <s 0 then 0 else if limit - 1 <s v then limit - 1 else v)"
    using assms(1) by (simp add: ClampCoordinate_def Let_def)
  show "sint (ClampCoordinate v limit) = max 0 (min (int (unat limit) - 1) (sint v))"
    unfolding c using pos by (auto simp: word_sless_alt s simp del: of_nat_unat)
  show "unat (ClampCoordinate v limit) < unat limit"
  proof (cases "v <s 0 \<or> limit - 1 <s v")
    case True
    then show ?thesis unfolding c using pos u by auto
  next
    case False
    then have "\<not> v <s 0" by simp
    moreover have "sint v \<le> int (unat limit) - 1"
      using False unfolding word_sless_alt s by linarith
    ultimately have "int (unat v) \<le> int (unat limit) - 1" using sint_eq_unat [of v] by linarith
    then have "unat v < unat limit" by linarith
    then show ?thesis unfolding c using False by simp
  qed
qed

text \<open>Where the cursor's bitmap fits: up to \<open>screen - bitmap\<close>, or 0 on a smaller screen.\<close>

definition cursor_limit :: "UINT32 \<Rightarrow> UINT32 \<Rightarrow> UINT32" where
  "cursor_limit screen bitmap = (if screen > bitmap then screen - bitmap else 0)"

definition in_bounds :: "ASSETS \<Rightarrow> FRAMEBUFFER_INFO \<Rightarrow> SOFTWARE_CURSOR \<Rightarrow> bool" where
  "in_bounds A fb c \<longleftrightarrow> X c \<le> cursor_limit (ScreenWidth fb) (CURSOR_WIDTH A) \<and>
     Y c \<le> cursor_limit (ScreenHeight fb) (CURSOR_HEIGHT A)"

lemma cursor_limit_le: "cursor_limit s b \<le> s"
  by (simp add: cursor_limit_def word_le_nat_alt word_less_nat_alt unat_diff)

lemma ClampCursor_bounds:
  assumes "surface_ok fb"
  shows "ClampCursorX A v fb \<le> cursor_limit (ScreenWidth fb) (CURSOR_WIDTH A)"
    "ClampCursorY A v fb \<le> cursor_limit (ScreenHeight fb) (CURSOR_HEIGHT A)"
proof -
  have clamp: "ClampCoordinate v (cursor_limit s b + 1) \<le> cursor_limit s b" if "unat s < 2147483648" for s b
  proof -
    have "unat (cursor_limit s b) < 2147483648"
      using that cursor_limit_le [of s b] unfolding word_le_nat_alt by linarith
    then have u: "unat (cursor_limit s b + 1) = unat (cursor_limit s b) + 1" by (subst unat_add32) simp_all
    then have "cursor_limit s b + 1 \<noteq> 0" by auto
    then have "unat (ClampCoordinate v (cursor_limit s b + 1)) < unat (cursor_limit s b + 1)"
      using \<open>unat (cursor_limit s b) < 2147483648\<close> u by (intro ClampCoordinate_sint(2)) simp_all
    then show ?thesis unfolding u by (simp add: word_le_nat_alt)
  qed
  show "ClampCursorX A v fb \<le> cursor_limit (ScreenWidth fb) (CURSOR_WIDTH A)"
    "ClampCursorY A v fb \<le> cursor_limit (ScreenHeight fb) (CURSOR_HEIGHT A)"
    unfolding ClampCursorX_def ClampCursorY_def Let_def cursor_limit_def [symmetric]
    using assms by (simp_all add: clamp surface_ok_def)
qed

lemma ClampCursor_identity:
  assumes ok: "surface_ok fb" and v: "0 \<le> sint v"
  shows "v \<le> cursor_limit (ScreenWidth fb) (CURSOR_WIDTH A) \<Longrightarrow> ClampCursorX A v fb = v"
    "v \<le> cursor_limit (ScreenHeight fb) (CURSOR_HEIGHT A) \<Longrightarrow> ClampCursorY A v fb = v"
proof -
  have clamp: "ClampCoordinate v (cursor_limit s b + 1) = v" if "unat s < 2147483648" "v \<le> cursor_limit s b" for s b
  proof -
    have l: "unat (cursor_limit s b) < 2147483648"
      using that(1) cursor_limit_le [of s b] unfolding word_le_nat_alt by linarith
    then have u: "unat (cursor_limit s b + 1) = unat (cursor_limit s b) + 1" by (subst unat_add32) simp_all
    then have nz: "cursor_limit s b + 1 \<noteq> 0" by auto
    have "\<not> v <s 0" using v by (simp add: word_sless_alt)
    moreover have "\<not> cursor_limit s b <s v"
      using that(2) l sint_eq_unat [OF calculation]
      by (simp add: word_sless_alt sint_of_small word_le_nat_alt del: of_nat_unat)
    ultimately show ?thesis using nz by (simp add: ClampCoordinate_def Let_def)
  qed
  show "v \<le> cursor_limit (ScreenWidth fb) (CURSOR_WIDTH A) \<Longrightarrow> ClampCursorX A v fb = v"
    "v \<le> cursor_limit (ScreenHeight fb) (CURSOR_HEIGHT A) \<Longrightarrow> ClampCursorY A v fb = v"
    unfolding ClampCursorX_def ClampCursorY_def Let_def cursor_limit_def [symmetric]
    using ok by (simp_all add: clamp surface_ok_def)
qed

lemma in_bounds_cursor_ok:
  assumes "in_bounds A fb c" shows "X c \<le> ScreenWidth fb" "Y c \<le> ScreenHeight fb"
  using assms cursor_limit_le order_trans unfolding in_bounds_def by blast+

subsection \<open>Signed division\<close>

lemma abs_sdiv: "0 < n \<Longrightarrow> \<bar>a sdiv n\<bar> = \<bar>a\<bar> div (n :: int)"
  by (auto simp: signed_divide_int_def abs_mult sgn_if pos_imp_zdiv_nonneg_iff)

lemma sdiv_minus: "(- a) sdiv n = - (a sdiv n)" for a n :: int
  by (simp add: signed_divide_int_def sgn_minus)

lemma sint_sdivw:
  assumes "0 < n" "n \<le> 2147483647"
  shows "sint (sdivw (a :: 32 word) (word_of_int n)) = sint a sdiv n"
proof -
  have n: "sint (word_of_int n :: 32 word) = n" using assms by (intro sint_word_of_int32) linarith+
  have "\<bar>sint a sdiv n\<bar> \<le> \<bar>sint a\<bar>"
    unfolding abs_sdiv [OF assms(1)] using assms(1) zdiv_mono2 [of "\<bar>sint a\<bar>" 1 n] by simp
  moreover have "sint a sdiv n \<noteq> 2147483648"
  proof
    assume e: "sint a sdiv n = 2147483648"
    have "sint a sdiv n \<le> 0" if "sint a \<le> 0"
      using that assms(1) by (simp add: sdiv_neg pos_imp_zdiv_nonneg_iff)
    then have "0 < sint a" using e by linarith
    then show False using e calculation sint_upper32 [of a] by linarith
  qed
  ultimately have "- 2147483648 \<le> sint a sdiv n" "sint a sdiv n \<le> 2147483647"
    using sint_lower32 [of a] sint_upper32 [of a] by linarith+
  then show ?thesis by (simp add: sdivw_def n sint_word_of_int32)
qed

lemma sint_sdivw_256: "sint (sdivw (a :: 32 word) 256) = sint a sdiv 256"
  and sint_sdivw_8: "sint (sdivw (a :: 32 word) 8) = sint a sdiv 8"
  using sint_sdivw [of 256 a] sint_sdivw [of 8 a] by simp_all

lemma sdiv_rem:
  assumes "0 < n" shows "\<bar>a - (a sdiv n) * n\<bar> < (n :: int)" "0 \<le> a * (a - (a sdiv n) * n)"
proof -
  have "\<bar>a\<bar> - \<bar>a\<bar> div n * n = \<bar>a\<bar> mod n" by (simp add: minus_div_mult_eq_mod)
  then have b: "0 \<le> \<bar>a\<bar> - \<bar>a\<bar> div n * n" "\<bar>a\<bar> - \<bar>a\<bar> div n * n < n" using assms by simp_all
  have e: "a - (a sdiv n) * n = sgn a * (\<bar>a\<bar> - \<bar>a\<bar> div n * n)"
    using assms by (cases "a = 0") (auto simp: signed_divide_int_def sgn_if algebra_simps)
  show "\<bar>a - (a sdiv n) * n\<bar> < n" unfolding e abs_mult using b assms by (cases "a = 0") (simp_all add: abs_sgn_eq)
  show "0 \<le> a * (a - (a sdiv n) * n)"
    unfolding e using b by (cases "a = 0") (simp_all add: mult.assoc [symmetric] abs_sgn [symmetric] sgn_if)
qed

subsection \<open>Curve, acceleration and accumulation\<close>

lemma sint_abs:
  assumes "sint v \<noteq> - 2147483648" shows "sint (if v <s 0 then - v else v :: INT32) = \<bar>sint v\<bar>"
  using assms sint_lower32 [of v] by (auto simp: word_sless_alt sint_minus_exact)

text \<open>The curve on the range its callers clamp to: odd, growing with the square, at most 64.\<close>

lemma ApplyMouseCurve_sint:
  assumes "\<bar>sint d\<bar> \<le> 256"
  shows "sint (ApplyMouseCurve d) =
    (if \<bar>sint d\<bar> \<le> 1 then sint d else sgn (sint d) * min 64 (\<bar>sint d\<bar> + (sint d)\<^sup>2 div 8))"
proof -
  let ?a = "if d <s 0 then - d else d"
  have a: "sint ?a = \<bar>sint d\<bar>" using assms by (intro sint_abs) auto
  have le: "(?a \<le>s 1) \<longleftrightarrow> \<bar>sint d\<bar> \<le> 1" by (simp only: word_sle_eq a) simp
  have sq: "\<bar>sint d\<bar> * \<bar>sint d\<bar> \<le> 256 * 256" using assms by (intro mult_mono) simp_all
  then have aa: "sint (?a * ?a) = \<bar>sint d\<bar> * \<bar>sint d\<bar>"
    using mult_nonneg_nonneg [OF abs_ge_zero abs_ge_zero, of "sint d" "sint d"]
    by (subst sint_mult_exact; unfold a) linarith+
  then have q: "sint (sdivw (?a * ?a) 8) = (sint d)\<^sup>2 div 8"
    by (simp add: sint_sdivw_8 sdiv_pos power2_eq_square)
  have q_le: "0 \<le> (sint d)\<^sup>2 div 8" "(sint d)\<^sup>2 div 8 \<le> 8192"
    using sq by (simp_all add: power2_eq_square pos_imp_zdiv_nonneg_iff)
  let ?c = "?a + sdivw (?a * ?a) 8"
  have c: "sint ?c = \<bar>sint d\<bar> + (sint d)\<^sup>2 div 8"
    using q_le assms by (subst sint_add_exact; unfold a q) linarith+
  define c where "c = (if 64 <s ?c then 64 else ?c)"
  have sc: "sint c = min 64 (\<bar>sint d\<bar> + (sint d)\<^sup>2 div 8)" 
    unfolding c_def if_distrib [of sint] word_sless_alt [of 64 ?c] c by (simp add: min_def)
  then have "- 2147483648 < sint c" using q_le by linarith
  then have mc: "sint (- c) = - sint c" by (rule sint_minus_exact)
  have res: "ApplyMouseCurve d = (if ?a \<le>s 1 then d else if d <s 0 then - c else c)"
    unfolding ApplyMouseCurve_def Let_def c_def by simp
  show ?thesis
    unfolding res le using mc sc by (auto simp: word_sless_alt sgn_if)
qed

lemma ApplyMouseCurve_bound:
  assumes "\<bar>sint d\<bar> \<le> 256" shows "\<bar>sint (ApplyMouseCurve d)\<bar> \<le> 64"
proof -
  have "0 \<le> (sint d)\<^sup>2 div 8" by (simp add: pos_imp_zdiv_nonneg_iff)
  then show ?thesis unfolding ApplyMouseCurve_sint [OF assms] by (auto simp: abs_mult sgn_if)
qed

lemma ucast_word_of_int: "ucast (word_of_int k :: 64 word) = (word_of_int k :: 32 word)"
  by (rule bit_word_eqI) (simp add: bit_simps)

definition gain :: "int \<Rightarrow> int" where
  "gain d = min 3072 (1024 + \<bar>d\<bar> * 192 div 256)"

lemma ApplyMouseAcceleration_sint:
  assumes d: "\<bar>sint d\<bar> \<le> 11184810" shows "sint (ApplyMouseAcceleration d) = (sint d * gain (sint d)) sdiv 1024"
proof -
  let ?a = "if d <s 0 then - d else d"
  have a: "sint ?a = \<bar>sint d\<bar>" using d by (intro sint_abs) auto
  have m: "sint (?a * 192) = \<bar>sint d\<bar> * 192" using d by (subst sint_mult_exact; unfold a) simp_all
  then have q: "sint (sdivw (?a * 192) 256) = \<bar>sint d\<bar> * 192 div 256" by (simp add: sint_sdivw_256 sdiv_pos)
  have q_le: "0 \<le> \<bar>sint d\<bar> * 192 div 256" "\<bar>sint d\<bar> * 192 div 256 \<le> 8388608" using d by simp_all
  let ?g = "1024 + sdivw (?a * 192) 256"
  have g: "sint ?g = 1024 + \<bar>sint d\<bar> * 192 div 256"
    using q_le by (subst sint_add_exact; unfold q) simp_all
  then have "\<not> ?g <s 0" using q_le by (simp add: word_sless_alt)
  then have ug: "int (unat ?g) = 1024 + \<bar>sint d\<bar> * 192 div 256" using g sint_eq_unat by metis
  define g where "g = (if ?g > 3072 then 3072 else ?g)"
  have "int (unat g) = gain (sint d)"
    unfolding g_def gain_def using ug by (auto simp: word_less_nat_alt min_def simp del: of_nat_unat)
  have gb: "0 \<le> gain (sint d)" "gain (sint d) \<le> 3072" using q_le by (simp_all add: gain_def)
  have sg: "sint (ucast g :: INT64) = gain (sint d)"
  proof -
    have "unat (ucast g :: INT64) = unat g" by (rule unat_ucast_le) simp
    then have "uint (ucast g :: INT64) = gain (sint d)"
      using \<open>int (unat g) = gain (sint d)\<close> by (metis of_nat_unat)
    then show ?thesis using gb by (simp add: sint_uint signed_take_bit_int_eq_self)
  qed
  have sd: "sint (scast d :: INT64) = sint d"
    by (rule sint_up_scast) (simp add: is_up)
  have b: "\<bar>sint d * gain (sint d)\<bar> \<le> 11184810 * 3072"
    unfolding abs_mult using d gb by (intro mult_mono) simp_all
  then have p: "sint (scast d * ucast g :: INT64) = sint d * gain (sint d)"
    by (simp add: sint_word_mult sg sd signed_take_bit_int_eq_self)
  have "\<bar>(sint d * gain (sint d)) sdiv 1024\<bar> \<le> 33554430"
    using b zdiv_mono1 [of "\<bar>sint d * gain (sint d)\<bar>" "11184810 * 3072" 1024] by (simp add: abs_sdiv)
  then show ?thesis
    unfolding ApplyMouseAcceleration_def Let_def g_def [symmetric]
    by (simp add: sdivw_def p ucast_word_of_int sint_word_of_int32)
qed

lemma ApplyMouseAcceleration_between:
  assumes d: "\<bar>sint d\<bar> \<le> 11184810"
  shows "\<bar>sint d\<bar> \<le> \<bar>sint (ApplyMouseAcceleration d)\<bar>" "\<bar>sint (ApplyMouseAcceleration d)\<bar> \<le> 3 * \<bar>sint d\<bar>"
    "0 \<le> sint d * sint (ApplyMouseAcceleration d)"
proof -
  have g: "1024 \<le> gain (sint d)" "gain (sint d) \<le> 3072" by (simp_all add: gain_def pos_imp_zdiv_nonneg_iff)
  have e: "\<bar>sint (ApplyMouseAcceleration d)\<bar> = \<bar>sint d\<bar> * gain (sint d) div 1024"
    unfolding ApplyMouseAcceleration_sint [OF d] using g by (simp add: abs_sdiv abs_mult)
  have "\<bar>sint d\<bar> * 1024 \<le> \<bar>sint d\<bar> * gain (sint d)" "\<bar>sint d\<bar> * gain (sint d) \<le> \<bar>sint d\<bar> * 3072"
    using g by (simp_all add: mult_left_mono)
  then show "\<bar>sint d\<bar> \<le> \<bar>sint (ApplyMouseAcceleration d)\<bar>" "\<bar>sint (ApplyMouseAcceleration d)\<bar> \<le> 3 * \<bar>sint d\<bar>"
    unfolding e by linarith+
  show "0 \<le> sint d * sint (ApplyMouseAcceleration d)"
    unfolding ApplyMouseAcceleration_sint [OF d] using g
    by (cases "0 \<le> sint d") (simp_all add: sdiv_pos sdiv_neg mult_nonpos_nonneg mult_nonpos_nonpos pos_imp_zdiv_nonneg_iff)
qed

text \<open>
  Nothing of a movement is lost or invented: what goes in comes out as whole pixels plus a
  remainder of less than one pixel, with the sign of the movement.
\<close>

lemma Accumulate_conserves:
  assumes r: "- 2147483648 \<le> sint a + sint d" "sint a + sint d \<le> 2147483647"
  shows "case Accumulate a d of (pixels, rest) \<Rightarrow>
     sint pixels * 256 + sint rest = max (- 16384) (min 16384 (sint a + sint d)) \<and>
     \<bar>sint rest\<bar> < 256 \<and> \<bar>sint pixels\<bar> \<le> 64 \<and> 0 \<le> sint pixels * sint rest"
proof -
  define c where "c = ClampI32 (a + d) (- (256 * 64)) (256 * 64)"
  have "sint (a + d) = sint a + sint d" using r by (rule sint_add_exact)
  then have c: "sint c = max (- 16384) (min 16384 (sint a + sint d))"
    unfolding c_def by (subst ClampI32_sint) simp_all
  define p where "p = sdivw c 256"
  have p: "sint p = sint c sdiv 256" unfolding p_def by (rule sint_sdivw_256)
  have ab: "\<bar>sint c\<bar> \<le> 16384" unfolding c by linarith
  then have pb: "\<bar>sint p\<bar> \<le> 64" unfolding p by (simp add: abs_sdiv)
  then have p256: "sint (p * 256) = sint p * 256" by (subst sint_mult_exact) (simp_all add: abs_le_iff)
  have rest: "sint (c - p * 256) = sint c - sint p * 256"
    using ab pb by (subst sint_diff_exact; unfold p256) linarith+
  have rem: "\<bar>sint c - sint p * 256\<bar> < 256" "0 \<le> sint c * (sint c - sint p * 256)"
    using sdiv_rem [of 256 "sint c"] by (simp_all add: p)
  have same: "0 \<le> sint p * (sint c - sint p * 256)"
  proof (cases "0 \<le> sint c")
    case True
    then have "0 \<le> sint p" unfolding p by (simp add: sdiv_pos pos_imp_zdiv_nonneg_iff)
    moreover have "0 \<le> sint c - sint p * 256"
      using rem True by (cases "sint c = 0") (auto simp: zero_le_mult_iff p)
    ultimately show ?thesis by simp
  next
    case False
    then have "sint p \<le> 0" unfolding p by (simp add: sdiv_neg pos_imp_zdiv_nonneg_iff)
    moreover have "sint c - sint p * 256 \<le> 0" using rem(2) False by (simp add: zero_le_mult_iff)
    ultimately show ?thesis by (rule mult_nonpos_nonpos)
  qed
  have "Accumulate a d = (p, c - p * 256)" by (simp add: Accumulate_def Let_def c_def p_def)
  then show ?thesis using rest rem(1) pb same c by simp
qed

subsection \<open>The contract of a cursor updater\<close>

text \<open>What a movement may change: position, accumulators, button and debug fields.\<close>

definition moves :: "SOFTWARE_CURSOR \<Rightarrow> SOFTWARE_CURSOR \<Rightarrow> bool" where
  "moves c c' \<longleftrightarrow> SavedWidth c' = SavedWidth c \<and> SavedHeight c' = SavedHeight c \<and> Visible c' = Visible c \<and>
     SavedPixels c' = SavedPixels c \<and> ResolvedPixels c' = ResolvedPixels c \<and> OpaqueMask c' = OpaqueMask c"

lemma moves_refl [simp]: "moves c c"
  by (simp add: moves_def)

lemma moves_trans: "moves a b \<Longrightarrow> moves b c \<Longrightarrow> moves a c"
  by (simp add: moves_def)

lemma moves_cursor_ok:
  "moves c c' \<Longrightarrow> in_bounds A fb c' \<Longrightarrow> cursor_ok A fb c \<Longrightarrow> cursor_ok A fb c'"
  using in_bounds_cursor_ok [of A fb c'] by (simp add: moves_def cursor_ok_def)

text \<open>
  A source of movement, as a function of the cursor and an environment; it may also not
  return.  Any number of updates keeps the cursor inside the screen and its images intact.
\<close>

locale cursor_updater =
  fixes A :: ASSETS and fb :: FRAMEBUFFER_INFO
    and update :: "SOFTWARE_CURSOR \<Rightarrow> 'e \<Rightarrow> (UINT8 \<times> SOFTWARE_CURSOR option \<times> 'e) option"
  assumes update_result: "surface_ok fb \<Longrightarrow> in_bounds A fb c \<Longrightarrow>
      ret (\<lambda>(r, c', e'). \<exists>d. c' = Some d \<and> moves c d \<and> in_bounds A fb d) (update c e)"
begin

inductive updates :: "SOFTWARE_CURSOR \<Rightarrow> SOFTWARE_CURSOR \<Rightarrow> bool" where
  none: "updates c c"
| more: "updates c d \<Longrightarrow> update d e = Some (r, Some d', e') \<Longrightarrow> updates c d'"

lemma updates_in_bounds:
  "updates c d \<Longrightarrow> surface_ok fb \<Longrightarrow> in_bounds A fb c \<Longrightarrow> moves c d \<and> in_bounds A fb d"
proof (induction rule: updates.induct)
  case (more c d e r d' e')
  then have "moves c d" "in_bounds A fb d" by simp_all
  moreover from retD [OF update_result [OF more.prems(1) this(2)] more.hyps(2)]
  have "moves d d'" "in_bounds A fb d'" by simp_all
  ultimately show ?case using moves_trans by blast
qed simp

lemma updates_cursor_ok:
  "updates c d \<Longrightarrow> surface_ok fb \<Longrightarrow> in_bounds A fb c \<Longrightarrow> cursor_ok A fb c \<Longrightarrow> cursor_ok A fb d"
  using updates_in_bounds moves_cursor_ok by blast

end

interpretation absolute: cursor_updater A fb
  "\<lambda>c e. TryUpdateCursorFromAbsolutePointer A P (Some c) (Some fb) e" for A fb P
proof
  fix c e assume ok: "surface_ok fb" "in_bounds A fb c"
  show "ret (\<lambda>(r, c', e'). \<exists>d. c' = Some d \<and> moves c d \<and> in_bounds A fb d)
    (TryUpdateCursorFromAbsolutePointer A P (Some c) (Some fb) e)"
    unfolding TryUpdateCursorFromAbsolutePointer_def Let_def
    using ok ClampCursor_bounds [OF ok(1), of A]
    by (auto simp: moves_def in_bounds_def intro!: ret_any split: option.split prod.split)
qed

lemma MoveCursorSimple_moves:
  assumes "surface_ok fb" "in_bounds A fb c"
  shows "case MoveCursorSimple A mode fb tx ty c of (r, d) \<Rightarrow> moves c d \<and> in_bounds A fb d"
  using assms ClampCursor_bounds [OF assms(1), of A]
  by (auto simp: MoveCursorSimple_def Let_def moves_def in_bounds_def split: prod.split)

interpretation simple: cursor_updater A fb
  "\<lambda>c e. TryUpdateCursorFromSimplePointer A P (Some c) (Some fb) e" for A fb P
proof
  fix c e assume ok: "surface_ok fb" "in_bounds A fb c"
  have move: "case MoveCursorSimple A mode fb tx ty (c\<lparr>LeftButtonDown := l, LastRawX := x, LastRawY := y, LastPollCount := n\<rparr>)
      of (r, d) \<Rightarrow> moves c d \<and> in_bounds A fb d" for mode tx ty l x y n
    using MoveCursorSimple_moves [OF ok(1), of A "c\<lparr>LeftButtonDown := l, LastRawX := x, LastRawY := y, LastPollCount := n\<rparr>"
        mode tx ty] ok(2)
    by (auto simp: moves_def in_bounds_def)
  show "ret (\<lambda>(r, c', e'). \<exists>d. c' = Some d \<and> moves c d \<and> in_bounds A fb d)
    (TryUpdateCursorFromSimplePointer A P (Some c) (Some fb) e)"
  proof (cases P)
    case (Some p)
    show ?thesis
      unfolding TryUpdateCursorFromSimplePointer_def Some option.case prod.case ret_simps
    proof (rule ret_any, clarify, goal_cases)
      case (1 r e')
      show ?case
      proof (cases r)
        case None
        then show ?thesis using ok by simp
      next
        case (Some q)
        then show ?thesis using ok move [where l = "PollLeftButtonDown q" and n = "PollCount q" and mode = "Mode p"
              and tx = "TotalCountsX q" and ty = "TotalCountsY q"
              and x = "ClampI32 (ucast (TotalCountsX q)) (- 9999) 9999"
              and y = "ClampI32 (ucast (TotalCountsY q)) (- 9999) 9999"]
          by (auto simp: Let_def moves_def in_bounds_def split: prod.splits)
      qed
    qed
  qed (use ok in \<open>simp add: TryUpdateCursorFromSimplePointer_def\<close>)
qed

end
