(* ===== verification/SetupUi.thy ===== *)
theory SetupUi
  imports Shapes Tween Console Pointer
begin

text \<open>
  The setup screen and the tween test screen: the layout of the panel and its two buttons,
  hit testing, and the routines that paint them.  The layout lemmas say from which screen
  size on the buttons lie inside the panel and the panel on the screen, the hit test decides
  exactly the two rounded boxes, and every routine has a defined result and touches only
  visible pixels; repainting a button stays inside the button's rectangle when its label fits.
\<close>

record SETUP_UI_STATE =
  Panel :: UI_BOX
  InstallButton :: UI_BOX
  TryButton :: UI_BOX
  HoveredButton :: UINT32
  MouseDetected :: UINT8

text \<open>The calls of the atlas routines with the constants and tables of one font.\<close>

abbreviation MeasureFont :: "cstring \<Rightarrow> FONT \<Rightarrow> INT32 option" where
  "MeasureFont str F \<equiv>
     MeasureTextStringAtlas (Some str) (FIRST_CHAR F) (GLYPH_COUNT F) (Some (GlyphAdvance F)) (GLYPH_WIDTH F div 2)"

abbreviation DrawFont ::
  "FRAMEBUFFER_INFO \<Rightarrow> INT32 \<Rightarrow> INT32 \<Rightarrow> cstring \<Rightarrow> UINT8 \<Rightarrow> UINT8 \<Rightarrow> UINT8 \<Rightarrow> FONT \<Rightarrow> heap \<Rightarrow> heap option" where
  "DrawFont fb x y str r g b F \<equiv>
     DrawTextStringAtlas fb x y (Some str) r g b (FIRST_CHAR F) (GLYPH_COUNT F) (GLYPH_WIDTH F)
       (GLYPH_HEIGHT F) (Some (GlyphAlpha F)) (Some (GlyphAdvance F))"

abbreviation DrawTitle :: "FRAMEBUFFER_INFO \<Rightarrow> INT32 \<Rightarrow> INT32 \<Rightarrow> cstring \<Rightarrow> FONT \<Rightarrow> heap \<Rightarrow> heap option" where
  "DrawTitle fb x y str F \<equiv>
     DrawGradientOutlinedTextAtlas fb x y (Some str) 101 235 255 76 255 84 3 (FIRST_CHAR F) (GLYPH_COUNT F)
       (GLYPH_WIDTH F) (GLYPH_HEIGHT F) (Some (GlyphAlpha F)) (Some (GlyphAdvance F)) (GLYPH_WIDTH F div 2)"

subsection \<open>Layout and hit test\<close>

definition InitializeSetupUiState ::
  "FRAMEBUFFER_INFO option \<Rightarrow> SETUP_UI_STATE option \<Rightarrow> UINT8 \<Rightarrow> SETUP_UI_STATE option option" where
  "InitializeSetupUiState framebufferInfo setupUiState mouseDetected =
     (case (framebufferInfo, setupUiState) of
        (Some fb, Some ui) \<Rightarrow>
          let panelMarginX = ScreenWidth fb div 16;
              panelMarginX = (if panelMarginX < 48 then 48 else panelMarginX);
              panelMarginY = ScreenHeight fb div 14;
              panelMarginY = (if panelMarginY < 44 then 44 else panelMarginY)
          in do {
            panelColor \<leftarrow> ComposeFor fb 250 250 250;
            let panel = (Panel ui)\<lparr>UI_BOX.X := panelMarginX, UI_BOX.Y := panelMarginY,
                  Width := ScreenWidth fb - panelMarginX * 2, Height := ScreenHeight fb - panelMarginY * 2,
                  Radius := 28, Color := panelColor\<rparr>;
            let buttonWidth = Width panel div 4;
            let buttonWidth = (if buttonWidth < 240 then 240 else buttonWidth);
            let buttonHeight = 64;
            let buttonGap = 34;
            let buttonX = UI_BOX.X panel + Width panel - buttonWidth - 72;
            let buttonStartY = UI_BOX.Y panel + Height panel - buttonHeight * 2 - buttonGap - 120;
            buttonColor \<leftarrow> ComposeFor fb 227 227 229;
            let install = (InstallButton ui)\<lparr>UI_BOX.X := buttonX, UI_BOX.Y := buttonStartY,
                  Width := buttonWidth, Height := buttonHeight, Radius := 24, Color := buttonColor\<rparr>;
            Some (Some (ui\<lparr>Panel := panel, InstallButton := install,
              TryButton := install\<lparr>UI_BOX.Y := buttonStartY + buttonHeight + buttonGap\<rparr>,
              HoveredButton := 0, MouseDetected := mouseDetected\<rparr>)) }
      | _ \<Rightarrow> Some setupUiState)"

definition HitTestSetupUi :: "ASSETS \<Rightarrow> SETUP_UI_STATE option \<Rightarrow> SOFTWARE_CURSOR option \<Rightarrow> UINT32" where
  "HitTestSetupUi A setupUiState cursor =
     (case (setupUiState, cursor) of
        (Some ui, Some c) \<Rightarrow>
          let centerX = SOFTWARE_CURSOR.X c + CURSOR_WIDTH A div 2;
              centerY = SOFTWARE_CURSOR.Y c + CURSOR_HEIGHT A div 2
          in if PointInRoundedBox centerX centerY (InstallButton ui) \<noteq> 0 then 1
             else if PointInRoundedBox centerX centerY (TryButton ui) \<noteq> 0 then 2
             else 0
      | _ \<Rightarrow> 0)"

subsection \<open>Painting the setup screen\<close>

definition DrawSetupButton ::
  "ASSETS \<Rightarrow> FRAMEBUFFER_INFO option \<Rightarrow> UI_BOX option \<Rightarrow> cstring option \<Rightarrow> UINT8 \<Rightarrow> heap \<Rightarrow> heap option" where
  "DrawSetupButton A framebufferInfo button label hovered h =
     (case (framebufferInfo, button, label) of
        (Some fb, Some button, Some label) \<Rightarrow> do {
          buttonColor \<leftarrow> (if hovered \<noteq> 0 then ComposeFor fb 212 212 215 else ComposeFor fb 227 227 229);
          let buttonBox = button\<lparr>Color := buttonColor\<rparr>;
          h \<leftarrow> DrawRoundedBox fb buttonBox h;
          labelWidth \<leftarrow> MeasureFont label (SetupUiFont A);
          let buttonTextX = UI_BOX.X button + sdivw (Width button - labelWidth) 2;
          let buttonTextY = UI_BOX.Y button + sdivw (Height button - GLYPH_HEIGHT (SetupUiFont A)) 2;
          DrawFont fb buttonTextX buttonTextY label 12 12 12 (SetupUiFont A) h }
      | _ \<Rightarrow> Some h)"

definition RefreshSetupButtons ::
  "ASSETS \<Rightarrow> FRAMEBUFFER_INFO option \<Rightarrow> SETUP_UI_STATE option \<Rightarrow> UINT32 \<Rightarrow> UINT32 \<Rightarrow> heap \<Rightarrow> heap option" where
  "RefreshSetupButtons A framebufferInfo setupUiState previousHoveredButton currentHoveredButton h =
     (case (framebufferInfo, setupUiState) of
        (Some fb, Some ui) \<Rightarrow>
          if previousHoveredButton = currentHoveredButton then Some h
          else do {
            h \<leftarrow> (if previousHoveredButton = 1 \<or> currentHoveredButton = 1
                 then DrawSetupButton A framebufferInfo (Some (InstallButton ui)) (Some ''Install'')
                        (if currentHoveredButton = 1 then 1 else 0) h
                 else Some h);
            if previousHoveredButton = 2 \<or> currentHoveredButton = 2
            then DrawSetupButton A framebufferInfo (Some (TryButton ui)) (Some ''Try'')
                   (if currentHoveredButton = 2 then 1 else 0) h
            else Some h }
      | _ \<Rightarrow> Some h)"

definition DrawSetupScreen ::
  "ASSETS \<Rightarrow> FRAMEBUFFER_INFO option \<Rightarrow> SETUP_UI_STATE option \<Rightarrow> heap \<Rightarrow> heap option" where
  "DrawSetupScreen A framebufferInfo setupUiState h =
     (case (framebufferInfo, setupUiState) of
        (Some fb, Some ui) \<Rightarrow>
          let panel = Panel ui;
              titleText = ''Dragon OS Setup'';
              promptText = ''What would you like to do with Dragon OS?''
          in do {
            backgroundColor \<leftarrow> ComposeFor fb 208 208 208;
            h \<leftarrow> ClearScreen fb backgroundColor 0 h;
            h \<leftarrow> DrawRoundedBox fb panel h;
            let titleY = UI_BOX.Y panel + 48;
            titleWidth \<leftarrow> MeasureFont titleText (SetupTitleFont A);
            let titleX = UI_BOX.X panel + sdivw (Width panel - titleWidth) 2;
            h \<leftarrow> DrawTitle fb titleX titleY titleText (SetupTitleFont A) h;
            let iconDrawHeight = (if Height panel > 280 then Height panel - 250 else Height panel div 2);
            let iconDrawHeight = (if iconDrawHeight > 420 then 420 else iconDrawHeight);
            let iconDrawHeight = (if iconDrawHeight < 200 then 200 else iconDrawHeight);
            iconDrawWidth \<leftarrow>
              (if IMAGE_HEIGHT (SetupIcon A) = 0 then None
               else Some (IMAGE_WIDTH (SetupIcon A) * iconDrawHeight div IMAGE_HEIGHT (SetupIcon A)));
            h \<leftarrow> DrawImageNearestAlpha fb (UI_BOX.X panel + 58) (UI_BOX.Y panel + 160) iconDrawWidth iconDrawHeight
                   (IMAGE_WIDTH (SetupIcon A)) (IMAGE_HEIGHT (SetupIcon A))
                   (Some (ImagePixels (SetupIcon A))) (Some (ImageAlpha (SetupIcon A))) h;
            let rightZoneX = UI_BOX.X panel + Width panel div 2 - 10;
            let rightZoneWidth = Width panel - (rightZoneX - UI_BOX.X panel) - 48;
            let promptY = UI_BOX.Y panel + 210;
            promptWidth \<leftarrow> MeasureFont promptText (SetupUiFont A);
            let promptX = rightZoneX + sdivw (rightZoneWidth - promptWidth) 2;
            h \<leftarrow> DrawFont fb promptX promptY promptText 18 18 18 (SetupUiFont A) h;
            h \<leftarrow> DrawSetupButton A framebufferInfo (Some (InstallButton ui)) (Some ''Install'')
                   (if HoveredButton ui = 1 then 1 else 0) h;
            h \<leftarrow> DrawSetupButton A framebufferInfo (Some (TryButton ui)) (Some ''Try'')
                   (if HoveredButton ui = 2 then 1 else 0) h;
            if MouseDetected ui = 0
            then DrawTextString A fb (UI_BOX.X panel + 34) (UI_BOX.Y panel + Height panel - 34)
                   (Some ''USB combo mouse still needs a future HID driver on real hardware.'') 128 128 128 h
            else Some h }
      | _ \<Rightarrow> Some h)"

subsection \<open>The layout\<close>

definition inside :: "UI_BOX \<Rightarrow> UI_BOX \<Rightarrow> bool" where
  "inside a b \<longleftrightarrow>
     unat (UI_BOX.X b) \<le> unat (UI_BOX.X a) \<and>
     unat (UI_BOX.X a) + unat (Width a) \<le> unat (UI_BOX.X b) + unat (Width b) \<and>
     unat (UI_BOX.Y b) \<le> unat (UI_BOX.Y a) \<and>
     unat (UI_BOX.Y a) + unat (Height a) \<le> unat (UI_BOX.Y b) + unat (Height b)"

definition fits_screen :: "FRAMEBUFFER_INFO \<Rightarrow> UI_BOX \<Rightarrow> bool" where
  "fits_screen fb b \<longleftrightarrow> unat (UI_BOX.X b) + unat (Width b) \<le> unat (ScreenWidth fb) \<and>
     unat (UI_BOX.Y b) + unat (Height b) \<le> unat (ScreenHeight fb)"

lemma inside_fits: "inside a b \<Longrightarrow> fits_screen fb b \<Longrightarrow> fits_screen fb a"
  by (auto simp: inside_def fits_screen_def)

text \<open>The size of a button, which has to hold its label.\<close>

definition button_ok :: "UI_BOX \<Rightarrow> bool" where
  "button_ok b \<longleftrightarrow> 240 \<le> unat (Width b) \<and> unat (Height b) = 64 \<and>
     unat (UI_BOX.X b) + unat (Width b) < 2147483648 \<and> unat (UI_BOX.Y b) + unat (Height b) < 2147483648"

text \<open>The panel on the screen, the buttons in the panel, one below the other.\<close>

definition layout_ok :: "FRAMEBUFFER_INFO \<Rightarrow> SETUP_UI_STATE \<Rightarrow> bool" where
  "layout_ok fb ui \<longleftrightarrow> fits_screen fb (Panel ui) \<and> inside (InstallButton ui) (Panel ui) \<and>
     inside (TryButton ui) (Panel ui) \<and> button_ok (InstallButton ui) \<and> button_ok (TryButton ui) \<and> box_ok (Panel ui) \<and> box_ok (InstallButton ui) \<and> box_ok (TryButton ui) \<and>
     unat (UI_BOX.Y (InstallButton ui)) + unat (Height (InstallButton ui)) < unat (UI_BOX.Y (TryButton ui))"

definition screen_ok :: "FRAMEBUFFER_INFO \<Rightarrow> bool" where
  "screen_ok fb \<longleftrightarrow> 408 \<le> unat (ScreenWidth fb) \<and> unat (ScreenWidth fb) < 2147483648 \<and>
     370 \<le> unat (ScreenHeight fb) \<and> unat (ScreenHeight fb) < 2147483648"

lemma unat_at_least: "unat (if a < b then b else a) = max (unat a) (unat b)" for a b :: UINT32
  by (auto simp: word_less_nat_alt)

lemma unat_minus_exact: "unat b \<le> unat a \<Longrightarrow> unat (a - b :: UINT32) = unat a - unat b"
  by (simp add: unat_diff word_le_nat_alt)

lemma unat_plus_exact: "unat a + unat b < 4294967296 \<Longrightarrow> unat (a + b :: UINT32) = unat a + unat b"
  by (simp add: unat_add32)

text \<open>Along one axis: the margins, the panel between them, and a button at its far end.\<close>

lemma panel_axis:
  assumes W: "2 * d \<le> unat (W :: UINT32)" "unat W < 2147483648" and k: "k \<in> {14, 16}"
    and d: "unat m0 = d" "d < 1000"
  defines "m \<equiv> (if W div k < m0 then m0 else W div k)"
  shows "unat m = max (unat W div unat k) d" "2 * unat m \<le> unat W" "unat (W - m * 2) = unat W - 2 * unat m"
proof -
  show m: "unat m = max (unat W div unat k) d"
    unfolding m_def unat_at_least unat_div d(1) ..
  have "2 * (unat W div unat k) \<le> unat W" using k by auto
  then show le: "2 * unat m \<le> unat W" unfolding m using W(1) by (simp add: max_def)
  have "unat (m * 2) = unat m * 2" using le W(2) by (subst unat_mult32) simp_all
  then show "unat (W - m * 2) = unat W - 2 * unat m" using le by (simp add: unat_minus_exact)
qed

lemma InitializeSetupUiState_layout:
  assumes f: "format_ok fb" and s: "screen_ok fb"
  shows "wp (\<lambda>r. \<exists>u. r = Some u \<and> layout_ok fb u \<and> HoveredButton u = 0 \<and> MouseDetected u = md)
    (InitializeSetupUiState (Some fb) (Some ui) md)"
proof -
  define mx where "mx = (if ScreenWidth fb div 16 < 48 then 48 else ScreenWidth fb div 16)"
  define my where "my = (if ScreenHeight fb div 14 < 44 then 44 else ScreenHeight fb div 14)"
  define pw where "pw = ScreenWidth fb - mx * 2"
  define ph where "ph = ScreenHeight fb - my * 2"
  define bw where "bw = (if pw div 4 < 240 then 240 else pw div 4)"
  define bx where "bx = mx + pw - bw - 72"
  define sy where "sy = my + ph - 64 * 2 - 34 - 120"
  have W: "408 \<le> unat (ScreenWidth fb)" "unat (ScreenWidth fb) < 2147483648"
    and H: "370 \<le> unat (ScreenHeight fb)" "unat (ScreenHeight fb) < 2147483648"
    using s by (simp_all add: screen_ok_def)
  have mx: "unat mx = max (unat (ScreenWidth fb) div 16) 48" "2 * unat mx \<le> unat (ScreenWidth fb)"
    "unat pw = unat (ScreenWidth fb) - 2 * unat mx"
    using panel_axis [of 48 "ScreenWidth fb" 16 48] W by (simp_all add: mx_def pw_def)
  have my: "unat my = max (unat (ScreenHeight fb) div 14) 44" "2 * unat my \<le> unat (ScreenHeight fb)"
    "unat ph = unat (ScreenHeight fb) - 2 * unat my"
    using panel_axis [of 44 "ScreenHeight fb" 14 44] H by (simp_all add: my_def ph_def)
  have pw: "312 \<le> unat pw" unfolding mx(3) mx(1) using W by linarith
  have ph: "282 \<le> unat ph" unfolding my(3) my(1) using H by linarith
  have bw: "unat bw = max (unat pw div 4) 240" unfolding bw_def unat_at_least unat_div by simp
  have bw_le: "unat bw + 72 \<le> unat pw" unfolding bw using pw by linarith
  have bx: "unat bx = unat mx + unat pw - unat bw - 72"
  proof -
    have 1: "unat (mx + pw) = unat mx + unat pw" using mx W by (intro unat_plus_exact) linarith
    have 2: "unat (mx + pw - bw) = unat mx + unat pw - unat bw" using bw_le by (subst unat_minus_exact; unfold 1) linarith+
    show ?thesis unfolding bx_def using bw_le by (subst unat_minus_exact; unfold 2; simp)
  qed
  have sy: "unat sy = unat my + unat ph - 282"
  proof -
    have 1: "unat (my + ph) = unat my + unat ph" using my H by (intro unat_plus_exact) linarith
    have 2: "sy = my + ph - 282" by (simp add: sy_def)
    show ?thesis unfolding 2 using ph by (subst unat_minus_exact; unfold 1; simp)
  qed
  have ty: "unat (sy + 64 + 34) = unat sy + 98"
  proof -
    have "unat sy + 98 < 4294967296" using sy my H by linarith
    moreover have "sy + 64 + 34 = sy + 98" by simp
    ultimately show ?thesis by (simp add: unat_plus_exact)
  qed
  obtain pc where pc: "ComposeFor fb 250 250 250 = Some pc" using ComposeFor_defined [OF f] by blast
  obtain bc where bc: "ComposeFor fb 227 227 229 = Some bc" using ComposeFor_defined [OF f] by blast
  let ?p = "(Panel ui)\<lparr>UI_BOX.X := mx, UI_BOX.Y := my, Width := pw, Height := ph, Radius := 28, Color := pc\<rparr>"
  let ?i = "(InstallButton ui)\<lparr>UI_BOX.X := bx, UI_BOX.Y := sy, Width := bw, Height := 64, Radius := 24, Color := bc\<rparr>"
  let ?u = "ui\<lparr>Panel := ?p, InstallButton := ?i, TryButton := ?i\<lparr>UI_BOX.Y := sy + 64 + 34\<rparr>,
      HoveredButton := 0, MouseDetected := md\<rparr>"
  have "InitializeSetupUiState (Some fb) (Some ui) md = Some (Some ?u)"
    by (simp add: InitializeSetupUiState_def Let_def pc bc mx_def my_def pw_def ph_def bw_def bx_def sy_def cong: if_cong)
  moreover have "layout_ok fb ?u"
  proof -
    have x: "unat mx + unat pw \<le> unat (ScreenWidth fb)" "unat mx \<le> unat bx" "unat bx + unat bw \<le> unat mx + unat pw"
      "240 \<le> unat bw" "unat bw < 2147483648" "unat pw < 2147483648" "unat mx + unat pw < 2147483648"
      "unat bx + unat bw < 2147483648"
      using mx(2,3) bw_le bx W bw by linarith+
    have y: "unat my + unat ph \<le> unat (ScreenHeight fb)" "unat my \<le> unat sy" "unat sy + 162 \<le> unat my + unat ph"
      "unat ph < 2147483648" "unat my + unat ph < 2147483648"
      using my(2,3) ph sy H by linarith+
    show ?thesis
      unfolding layout_ok_def fits_screen_def inside_def box_ok_def button_ok_def
      using x y pw ph ty by (simp add: add.commute [of sy])
  qed
  ultimately show ?thesis by simp
qed

subsection \<open>The hit test\<close>

abbreviation CenterX :: "ASSETS \<Rightarrow> SOFTWARE_CURSOR \<Rightarrow> UINT32" where
  "CenterX A c \<equiv> SOFTWARE_CURSOR.X c + CURSOR_WIDTH A div 2"

abbreviation CenterY :: "ASSETS \<Rightarrow> SOFTWARE_CURSOR \<Rightarrow> UINT32" where
  "CenterY A c \<equiv> SOFTWARE_CURSOR.Y c + CURSOR_HEIGHT A div 2"

text \<open>The rounded box as a set of points, by the geometry alone.\<close>

definition in_button :: "UI_BOX \<Rightarrow> UINT32 \<Rightarrow> UINT32 \<Rightarrow> bool" where
  "in_button b x y \<longleftrightarrow> UI_BOX.X b \<le> x \<and> UI_BOX.Y b \<le> y \<and>
     rounded (unat (Width b)) (unat (Height b)) (unat (Radius b)) (unat (x - UI_BOX.X b)) (unat (y - UI_BOX.Y b))"

lemma in_button_rows: "in_button b x y \<Longrightarrow> unat (UI_BOX.Y b) \<le> unat y \<and> unat y < unat (UI_BOX.Y b) + unat (Height b)"
  by (auto simp: in_button_def rounded_def word_le_nat_alt unat_diff)

lemma HitTestSetupUi_iff:
  assumes "layout_ok fb ui"
  shows "HitTestSetupUi A (Some ui) (Some c) = 1 \<longleftrightarrow> in_button (InstallButton ui) (CenterX A c) (CenterY A c)"
    and "HitTestSetupUi A (Some ui) (Some c) = 2 \<longleftrightarrow> in_button (TryButton ui) (CenterX A c) (CenterY A c)"
    and "HitTestSetupUi A (Some ui) (Some c) \<in> {0, 1, 2}"
proof -
  have ok: "box_ok (InstallButton ui)" "box_ok (TryButton ui)" using assms by (simp_all add: layout_ok_def)
  have disj: "\<not> (in_button (InstallButton ui) x y \<and> in_button (TryButton ui) x y)" for x y
    using in_button_rows [of "InstallButton ui" x y] in_button_rows [of "TryButton ui" x y] assms
    by (auto simp: layout_ok_def)
  note pt = PointInRoundedBox_rounded [OF ok(1)] PointInRoundedBox_rounded [OF ok(2)]
  show "HitTestSetupUi A (Some ui) (Some c) = 1 \<longleftrightarrow> in_button (InstallButton ui) (CenterX A c) (CenterY A c)"
    "HitTestSetupUi A (Some ui) (Some c) = 2 \<longleftrightarrow> in_button (TryButton ui) (CenterX A c) (CenterY A c)"
    "HitTestSetupUi A (Some ui) (Some c) \<in> {0, 1, 2}"
    using disj [of "CenterX A c" "CenterY A c"]
    unfolding HitTestSetupUi_def option.case prod.case Let_def pt in_button_def by auto
qed

subsection \<open>Painting is defined and stays on the surface\<close>

text \<open>
  Clearing a screen also writes the padding at the end of its rows: a screen routine may change
  every cell of the surface, visible or not, and nothing else.
\<close>

definition paints :: "FRAMEBUFFER_INFO \<Rightarrow> heap \<Rightarrow> heap \<Rightarrow> bool" where
  "paints fb h h' \<longleftrightarrow> dom h' = dom h \<and> (\<forall>q. q \<notin> surface_cells fb \<longrightarrow> h' q = h q)"

lemma paints_mapped: "paints fb h h' \<Longrightarrow> mapped fb' h' \<longleftrightarrow> mapped fb' h"
  by (simp add: mapped_def paints_def)

lemma draws_paints: "mapped fb h \<Longrightarrow> wp (draws fb h) m \<Longrightarrow> wp (paints fb h) m"
  using visible_subset [of fb] by (fastforce simp: draws_def paints_def mapped_def elim!: wp_mono)

lemma paints_bind:
  assumes "mapped fb h" "wp (paints fb h) m" "\<And>h'. mapped fb h' \<Longrightarrow> wp (paints fb h') (k h')"
  shows "wp (paints fb h) (Option.bind m k)"
proof (simp, rule wp_mono [OF assms(2)])
  fix h' assume d: "paints fb h h'"
  then have "mapped fb h'" using assms(1) by (simp add: paints_mapped)
  from assms(3) [OF this] show "wp (paints fb h) (k h')"
    by (rule wp_mono) (use d in \<open>simp add: paints_def\<close>)
qed

lemma ClearScreen_paints: "mapped fb h \<Longrightarrow> wp (paints fb h) (ClearScreen fb color i h)"
  by (auto simp: ClearScreen_fill paints_def dom_fill mapped_def) (simp add: fill_def)+

text \<open>What the builder guarantees of everything it generates.\<close>

definition assets_ok :: "ASSETS \<Rightarrow> bool" where
  "assets_ok A \<longleftrightarrow> font_ok (Font A) \<and> font_ok (IconFont A) \<and> font_ok (SetupTitleFont A) \<and> font_ok (SetupUiFont A) \<and>
     image_ok (Splash A) \<and> image_ok (CursorImage A) \<and> image_ok (SetupIcon A) \<and> tweens_ok A"

lemma DrawSetupButton_draws:
  assumes m: "mapped fb h" and f: "format_ok fb" and F: "font_ok (SetupUiFont A)"
  shows "wp (draws fb h) (DrawSetupButton A (Some fb) b l hov h)"
proof (cases "b = None \<or> l = None")
  case True
  then show ?thesis by (auto simp: DrawSetupButton_def split: option.split)
next
  case False
  then obtain bx lb where b: "b = Some bx" "l = Some lb" by auto
  obtain c where c: "(if hov \<noteq> 0 then ComposeFor fb 212 212 215 else ComposeFor fb 227 227 229) = Some c"
    using ComposeFor_defined [OF f] by fastforce
  obtain w where w: "MeasureFont lb (SetupUiFont A) = Some w" using MeasureTextStringAtlas_defined [OF F] by blast
  show ?thesis
    unfolding DrawSetupButton_def b option.case prod.case c Let_def Option.bind.simps w
    by (rule draws_bind [OF m wp_recolours_draws [OF DrawRoundedBox_recolours [OF m]]])
       (rule DrawTextStringAtlas_draws [OF _ f F])
qed

lemma RefreshSetupButtons_draws:
  assumes m: "mapped fb h" and f: "format_ok fb" and F: "font_ok (SetupUiFont A)"
  shows "wp (draws fb h) (RefreshSetupButtons A (Some fb) (Some ui) prev cur h)"
proof (cases "prev = cur")
  case False
  show ?thesis
    unfolding RefreshSetupButtons_def option.case prod.case if_not_P [OF False]
    by (rule draws_bind [OF m]) (simp_all add: DrawSetupButton_draws m f F)
qed (simp add: RefreshSetupButtons_def)

lemma image_ok_source: "image_ok im \<Longrightarrow> source_ok (IMAGE_WIDTH im) (IMAGE_HEIGHT im) (ImagePixels im) (ImageAlpha im)"
proof -
  assume im: "image_ok im"
  then have "unat (IMAGE_WIDTH im) * unat (IMAGE_HEIGHT im) \<le> 4096 * 4096"
    by (intro mult_le_mono) (simp_all add: image_ok_def)
  then show ?thesis using im by (simp add: image_ok_def source_ok_def)
qed

text \<open>The whole setup screen, whatever the state of the buttons.\<close>

lemma DrawSetupScreen_paints:
  assumes m: "mapped fb h" and f: "format_ok fb" and A: "assets_ok A"
  shows "wp (paints fb h) (DrawSetupScreen A (Some fb) (Some ui) h)"
proof -
  have F: "font_ok (Font A)" "font_ok (SetupTitleFont A)" "font_ok (SetupUiFont A)"
    and im: "image_ok (SetupIcon A)" using A by (simp_all add: assets_ok_def)
  obtain c where c: "ComposeFor fb 208 208 208 = Some c" using ComposeFor_defined [OF f] by blast
  obtain tw where tw: "MeasureFont ''Dragon OS Setup'' (SetupTitleFont A) = Some tw"
    using MeasureTextStringAtlas_defined [OF F(2)] by blast
  obtain pw where pw: "MeasureFont ''What would you like to do with Dragon OS?'' (SetupUiFont A) = Some pw"
    using MeasureTextStringAtlas_defined [OF F(3)] by blast
  have ih: "IMAGE_HEIGHT (SetupIcon A) \<noteq> 0" using im by (auto simp: image_ok_def)
  note step = paints_bind [OF _ draws_paints]
  show ?thesis
    unfolding DrawSetupScreen_def option.case prod.case Let_def c tw pw Option.bind.simps if_not_P [OF ih]
    apply (rule paints_bind [OF m ClearScreen_paints [OF m]])
    apply (rule step, assumption, assumption, rule wp_recolours_draws, rule DrawRoundedBox_recolours, assumption)
    apply (rule step, assumption, assumption, rule DrawGradientOutlinedTextAtlas_draws [OF _ f F(2)], assumption, simp)
    apply (rule step, assumption, assumption, rule DrawImageNearestAlpha_draws [OF _ f image_ok_source [OF im]], assumption)
    apply (rule step, assumption, assumption, rule DrawTextStringAtlas_draws [OF _ f F(3)], assumption)
    apply (rule step, assumption, assumption, rule DrawSetupButton_draws [OF _ f F(3)], assumption)
    apply (rule step, assumption, assumption, rule DrawSetupButton_draws [OF _ f F(3)], assumption)
    apply (rule draws_paints, assumption)
    by (simp add: DrawTextString_draws f F)
qed

subsection \<open>A button and its label\<close>

text \<open>The width of a one-line string, as the sum of its advances.\<close>

definition label_width :: "FONT \<Rightarrow> cstring \<Rightarrow> nat" where
  "label_width F str = (\<Sum>c\<leftarrow>str. unat (font_step F 1 (GLYPH_WIDTH F div 2) (glyph_of c)))"

text \<open>A label that fits on every button of the layout, whose width is at least 240.\<close>

definition label_fits :: "FONT \<Rightarrow> cstring \<Rightarrow> bool" where
  "label_fits F str \<longleftrightarrow> newline \<notin> glyph_of ` set str \<and>
     label_width F str + 2 * unat (GLYPH_WIDTH F) \<le> 240 \<and> unat (GLYPH_HEIGHT F) \<le> 64"

lemma label_width_Cons [simp]:
  "label_width F (c # str) = unat (font_step F 1 (GLYPH_WIDTH F div 2) (glyph_of c)) + label_width F str"
  by (simp add: label_width_def)

lemma label_width_Nil [simp]: "label_width F [] = 0"
  by (simp add: label_width_def)

lemma MeasureFont_loop_width:
  assumes F: "font_ok F"
  shows "newline \<notin> glyph_of ` set str \<Longrightarrow> unat lw + label_width F str < 2147483648 \<Longrightarrow>
   wp (\<lambda>w. unat w = unat lw + label_width F str)
     (MeasureTextStringAtlas_loop (FIRST_CHAR F) (GLYPH_COUNT F) (GlyphAdvance F) (GLYPH_WIDTH F div 2) lw 0 str)"
proof (induction str arbitrary: lw)
  case Nil
  then have "\<not> lw <s 0" by (simp add: word_sless_alt sint_of_small)
  then have "0 <s lw \<or> lw = 0" by (meson signed.not_less_iff_gr_or_eq signed.linorder_cases)
  then show ?case by auto
next
  case (Cons c str)
  let ?s = "font_step F 1 (GLYPH_WIDTH F div 2) (glyph_of c)"
  have "unat (lw + ?s) = unat lw + unat ?s" using Cons.prems by (intro unat_plus_exact) simp
  then have "wp (\<lambda>w. unat w = unat lw + label_width F (c # str))
     (MeasureTextStringAtlas_loop (FIRST_CHAR F) (GLYPH_COUNT F) (GlyphAdvance F) (GLYPH_WIDTH F div 2) (lw + ?s) 0 str)"
    using Cons.IH [of "lw + ?s"] Cons.prems by (simp add: add.assoc)
  then show ?case
    using Cons.prems by (auto simp: Let_def font_advance(2) [OF F] font_step_def)
qed

lemma MeasureFont_width:
  assumes "font_ok F" "newline \<notin> glyph_of ` set str" "label_width F str < 2147483648"
  shows "wp (\<lambda>w. unat w = label_width F str) (MeasureFont str F)"
  using MeasureFont_loop_width [OF assms(1,2), of 0] assms(3) by (simp add: MeasureTextStringAtlas_def)

text \<open>Text colours nothing outside the box from its first pixel to the end of its last glyph.\<close>

lemma within_small:
  assumes "unat (u - x :: UINT32) < n" "unat x + n \<le> k" "k < 2147483648"
  shows "unat x \<le> unat u \<and> unat u < k"
proof (cases "x \<le> u")
  case True
  then show ?thesis using assms by (simp add: unat_diff word_le_nat_alt)
next
  case False
  then have "unat u < unat x" by (simp add: word_le_nat_alt)
  then have "unat (u - x) = 4294967296 + unat u - unat x"
    by (intro unat_minus_wrap) (simp add: word_less_nat_alt)
  then show ?thesis using assms unat_lt32 [of x] by linarith
qed

lemma text_shader_outside:
  assumes y: "unat y + unat (GLYPH_HEIGHT F) \<le> B" "B < 2147483648" and R: "R < 2147483648"
  shows "newline \<notin> glyph_of ` set str \<Longrightarrow> unat cx + label_width F str + unat (GLYPH_WIDTH F) \<le> R \<Longrightarrow>
    \<not> (unat cx \<le> unat u \<and> unat u < R \<and> unat y \<le> unat v \<and> unat v < B) \<Longrightarrow>
    text_shader (font_shader fb F r g b) (font_step F 1 (GLYPH_WIDTH F div 2)) (GLYPH_HEIGHT F) x cx y str u v c = c"
proof (induction str arbitrary: cx c)
  case (Cons ch str)
  let ?s = "font_step F 1 (GLYPH_WIDTH F div 2) (glyph_of ch)"
  have cx: "unat (cx + ?s) = unat cx + unat ?s" using Cons.prems R by (intro unat_plus_exact) simp
  have "font_shader fb F r g b cx y (glyph_of ch) u v c = c"
  proof -
    have "\<not> (u - cx < GLYPH_WIDTH F \<and> v - y < GLYPH_HEIGHT F)"
      using within_small [of u cx "unat (GLYPH_WIDTH F)" R] within_small [of v y "unat (GLYPH_HEIGHT F)" B]
        Cons.prems y R by (auto simp: word_less_nat_alt)
    then show ?thesis by (auto simp: font_shader_def atlas_shader_def glyph_shader_def)
  qed
  moreover have "text_shader (font_shader fb F r g b) (font_step F 1 (GLYPH_WIDTH F div 2)) (GLYPH_HEIGHT F) x
      (cx + ?s) y str u v c = c"
    using Cons.prems by (intro Cons.IH) (auto simp: cx)
  ultimately show ?case using Cons.prems by simp
qed simp

lemma PointInRoundedBox_Color [simp]: "PointInRoundedBox x y (b\<lparr>Color := c\<rparr>) = PointInRoundedBox x y b"
  by (cases b) (simp add: PointInRoundedBox_def Let_def cong: if_cong)

definition button_color :: "FRAMEBUFFER_INFO \<Rightarrow> UINT8 \<Rightarrow> UINT32" where
  "button_color fb hovered = the (if hovered \<noteq> 0 then ComposeFor fb 212 212 215 else ComposeFor fb 227 227 229)"

text \<open>The centred label: its left edge, and the colours of the whole button.\<close>

definition label_x :: "FONT \<Rightarrow> UI_BOX \<Rightarrow> cstring \<Rightarrow> INT32" where
  "label_x F b label = UI_BOX.X b + sdivw (Width b - of_nat (label_width F label)) 2"

definition label_y :: "FONT \<Rightarrow> UI_BOX \<Rightarrow> INT32" where
  "label_y F b = UI_BOX.Y b + sdivw (Height b - GLYPH_HEIGHT F) 2"

definition button_shader :: "ASSETS \<Rightarrow> FRAMEBUFFER_INFO \<Rightarrow> UI_BOX \<Rightarrow> cstring \<Rightarrow> UINT8 \<Rightarrow> shader" where
  "button_shader A fb b label hovered = (let F = SetupUiFont A in (\<lambda>u v c.
     text_shader (font_shader fb F 12 12 12) (font_step F 1 (GLYPH_WIDTH F div 2)) (GLYPH_HEIGHT F)
       (label_x F b label) (label_x F b label) (label_y F b) label u v
       (if PointInRoundedBox u v b \<noteq> 0 then button_color fb hovered else c)))"

lemma DrawSetupButton_recolours:
  assumes m: "mapped fb h" and f: "format_ok fb" and F: "font_ok (SetupUiFont A)"
    and lb: "newline \<notin> glyph_of ` set label" "label_width (SetupUiFont A) label < 2147483648"
  shows "wp (recolours fb (button_shader A fb b label hov) h) (DrawSetupButton A (Some fb) (Some b) (Some label) hov h)"
proof -
  let ?F = "SetupUiFont A"
  have c: "(if hov \<noteq> 0 then ComposeFor fb 212 212 215 else ComposeFor fb 227 227 229) = Some (button_color fb hov)"
    using ComposeFor_defined [OF f] by (fastforce simp: button_color_def)
  obtain w where w: "MeasureFont label ?F = Some w" "unat w = label_width ?F label"
    using MeasureFont_width [OF F lb] by (rule wpE)
  from w(2) have w': "w = of_nat (label_width ?F label)" using lb(2) by (intro word_eq_unatI) (simp add: unat_of_nat_lt)
  have "wp (\<lambda>h1. wp (recolours fb (button_shader A fb b label hov) h)
      (DrawFont fb (label_x ?F b label) (label_y ?F b) label 12 12 12 ?F h1)) (DrawRoundedBox fb (b\<lparr>Color := button_color fb hov\<rparr>) h)"
  proof (rule wp_mono [OF DrawRoundedBox_recolours [OF m]])
    fix h1 assume d: "recolours fb (\<lambda>x y c. if PointInRoundedBox x y (b\<lparr>Color := button_color fb hov\<rparr>) \<noteq> 0
        then Color (b\<lparr>Color := button_color fb hov\<rparr>) else c) h h1"
    then have m1: "mapped fb h1" using m by simp
    have "wp (recolours fb (text_shader (font_shader fb ?F 12 12 12) (font_step ?F 1 (GLYPH_WIDTH ?F div 2)) (GLYPH_HEIGHT ?F)
         (label_x ?F b label) (label_x ?F b label) (label_y ?F b) label) h1)
       (DrawFont fb (label_x ?F b label) (label_y ?F b) label 12 12 12 ?F h1)"
      using atlas.renders [OF _ m1] f F font_ok_atlas [OF F] font_ok_advance [OF F]
      by (simp add: DrawTextStringAtlas_def font_shader_def [abs_def] font_step_def)
    then show "wp (recolours fb (button_shader A fb b label hov) h)
      (DrawFont fb (label_x ?F b label) (label_y ?F b) label 12 12 12 ?F h1)"
      by (rule wp_mono) (rule recolours_trans [OF d], assumption, simp add: button_shader_def Let_def)
  qed
  then show ?thesis
    by (simp add: DrawSetupButton_def c w Let_def label_x_def label_y_def w'[symmetric] cong: if_cong)
qed

text \<open>A button wide and high enough for its label is repainted inside its own rectangle.\<close>

lemma half_gap:
  assumes "unat w \<le> unat W" "unat (W :: UINT32) < 2147483648"
  shows "unat (sdivw (W - w) 2) = (unat W - unat w) div 2"
proof -
  have u: "unat (W - w) = unat W - unat w" using assms(1) by (rule unat_minus_exact)
  then have "sint (W - w) = int (unat W - unat w)" using assms(2) by (subst sint_of_small) simp_all
  then have e: "sdivw (W - w) 2 = of_nat ((unat W - unat w) div 2)"
    by (simp add: sdivw_def sdiv_pos zdiv_int [of _ 2, simplified, symmetric])
  have "(unat W - unat w) div 2 < 4294967296" using assms(2) by linarith
  then show ?thesis unfolding e by (intro unat_of_nat_lt) simp
qed

lemma button_shader_outside:
  assumes b: "button_ok b" and l: "label_fits (SetupUiFont A) label"
    and out: "\<not> (unat (UI_BOX.X b) \<le> unat u \<and> unat u < unat (UI_BOX.X b) + unat (Width b) \<and>
       unat (UI_BOX.Y b) \<le> unat v \<and> unat v < unat (UI_BOX.Y b) + unat (Height b))"
  shows "button_shader A fb b label hov u v c = c"
proof -
  let ?F = "SetupUiFont A" and ?x = "label_x (SetupUiFont A) b label" and ?y = "label_y (SetupUiFont A) b"
  have lw: "label_width ?F label + 2 * unat (GLYPH_WIDTH ?F) \<le> 240" "unat (GLYPH_HEIGHT ?F) \<le> 64"
    using l by (simp_all add: label_fits_def)
  have b': "240 \<le> unat (Width b)" "unat (Height b) = 64" "unat (UI_BOX.X b) + unat (Width b) < 2147483648"
    "unat (UI_BOX.Y b) + 64 < 2147483648" using b by (simp_all add: button_ok_def)
  have "unat (of_nat (label_width ?F label) :: UINT32) = label_width ?F label" using lw by (intro unat_of_nat_lt) simp
  then have gx: "unat (sdivw (Width b - of_nat (label_width ?F label)) 2) = (unat (Width b) - label_width ?F label) div 2"
    using lw b' by (subst half_gap) simp_all
  have gy: "unat (sdivw (Height b - GLYPH_HEIGHT ?F) 2) = (64 - unat (GLYPH_HEIGHT ?F)) div 2"
    using lw b' by (subst half_gap) simp_all
  have x: "unat ?x = unat (UI_BOX.X b) + (unat (Width b) - label_width ?F label) div 2"
    unfolding label_x_def using b' by (subst unat_plus_exact; unfold gx; linarith)
  have y: "unat ?y = unat (UI_BOX.Y b) + (64 - unat (GLYPH_HEIGHT ?F)) div 2"
    unfolding label_y_def using b' by (subst unat_plus_exact; unfold gy; linarith)
  have "unat ?x + label_width ?F label + unat (GLYPH_WIDTH ?F) \<le> unat (UI_BOX.X b) + unat (Width b)"
    unfolding x using lw b' by linarith
  moreover have "unat ?y + unat (GLYPH_HEIGHT ?F) \<le> unat (UI_BOX.Y b) + unat (Height b)"
    unfolding y using lw b' by linarith
  moreover have "unat (UI_BOX.X b) \<le> unat ?x" "unat (UI_BOX.Y b) \<le> unat ?y" unfolding x y by simp_all
  moreover have "PointInRoundedBox u v b = 0"
  proof (rule ccontr)
    assume "PointInRoundedBox u v b \<noteq> 0"
    then have "u - UI_BOX.X b < Width b" "v - UI_BOX.Y b < Height b" by (rule PointInRoundedBox_in_rect)+
    then show False
      using out within_small [OF _ order_refl, of u "UI_BOX.X b"] within_small [OF _ order_refl, of v "UI_BOX.Y b"] b'
      by (auto simp: word_less_nat_alt)
  qed
  ultimately show ?thesis
    using out b' l unfolding button_shader_def Let_def
    by (subst text_shader_outside [where B = "unat (UI_BOX.Y b) + 64" and R = "unat (UI_BOX.X b) + unat (Width b)"])
       (auto simp: label_fits_def)
qed

end
