(* ===== verification/Ps2.thy ===== *)
theory Ps2
  imports Pointer "HOL-Library.Sublist"
begin

text \<open>
  The PS/2 mouse driver on the ports 0x60 and 0x64: bounded waits, the initialisation
  handshake, packet assembly with resynchronisation, and the cursor update.  The controller
  is a parameter: a record of what reading and writing a port does to its state \<open>'d\<close>, and
  of what passes while the processor spins for one iteration.
\<close>

record 'd PORTS =
  inbyte :: "UINT16 \<Rightarrow> 'd \<Rightarrow> UINT8 \<times> 'd"
  outbyte :: "UINT16 \<Rightarrow> UINT8 \<Rightarrow> 'd \<Rightarrow> 'd"
  spin :: "'d \<Rightarrow> 'd"

record PS2_MOUSE_STATE =
  Enabled :: UINT8
  PacketIndex :: UINT8
  MouseLeftButtonDown :: UINT8
  Reserved :: UINT8
  Packet :: "UINT8 list"
  LastDeltaX :: INT32
  LastDeltaY :: INT32
  PacketCount :: UINT32

subsection \<open>Port access with bounded waits\<close>

lemma unat_next: "unat (x :: UINT32) < n \<Longrightarrow> n \<le> 4294967295 \<Longrightarrow> unat (x + 1) = Suc (unat x)"
  by (subst unat_add32) simp_all

definition BusyPause :: "'d PORTS \<Rightarrow> UINT32 \<Rightarrow> 'd \<Rightarrow> 'd option" where
  "BusyPause P iterations d = for32 0 iterations (\<lambda>_ d. Some (spin P d)) d"

function Ps2WaitForInputClear_loop :: "'d PORTS \<Rightarrow> UINT32 \<Rightarrow> 'd \<Rightarrow> (UINT8 \<times> 'd) option" where
  "Ps2WaitForInputClear_loop P attempt d =
     (if attempt < 100000 then
        case inbyte P 0x64 d of (status, d) \<Rightarrow>
          if status AND 0x02 = 0 then Some (1, d)
          else do { d \<leftarrow> BusyPause P 32 d; Ps2WaitForInputClear_loop P (attempt + 1) d }
      else Some (0, d))"
  by pat_completeness auto
termination
  by (relation "measure (\<lambda>(_, attempt, _). 100000 - unat attempt)")
     (auto simp: unat_next [where n = 100000] word_less_nat_alt)

definition Ps2WaitForInputClear :: "'d PORTS \<Rightarrow> 'd \<Rightarrow> (UINT8 \<times> 'd) option" where
  "Ps2WaitForInputClear P d = Ps2WaitForInputClear_loop P 0 d"

text \<open>The byte stored through \<open>dataOut\<close>, if any, is part of the result.\<close>

function Ps2WaitForOutputByte_loop ::
  "'d PORTS \<Rightarrow> UINT8 \<Rightarrow> UINT32 \<Rightarrow> 'd \<Rightarrow> (UINT8 \<times> UINT8 option \<times> 'd) option" where
  "Ps2WaitForOutputByte_loop P requireMouseData attempt d =
     (if attempt < 100000 then
        case inbyte P 0x64 d of (status, d) \<Rightarrow>
          if status AND 0x01 \<noteq> 0 then
            case inbyte P 0x60 d of (data, d) \<Rightarrow>
              if requireMouseData = 0 \<or> status AND 0x20 \<noteq> 0 then Some (1, Some data, d)
              else do { d \<leftarrow> BusyPause P 32 d; Ps2WaitForOutputByte_loop P requireMouseData (attempt + 1) d }
          else do { d \<leftarrow> BusyPause P 32 d; Ps2WaitForOutputByte_loop P requireMouseData (attempt + 1) d }
      else Some (0, None, d))"
  by pat_completeness auto
termination
  by (relation "measure (\<lambda>(_, _, attempt, _). 100000 - unat attempt)")
     (auto simp: unat_next [where n = 100000] word_less_nat_alt)

definition Ps2WaitForOutputByte :: "'d PORTS \<Rightarrow> UINT8 \<Rightarrow> 'd \<Rightarrow> (UINT8 \<times> UINT8 option \<times> 'd) option" where
  "Ps2WaitForOutputByte P requireMouseData d = Ps2WaitForOutputByte_loop P requireMouseData 0 d"

text \<open>A byte and whether it came from the mouse, or nothing.\<close>

definition Ps2TryReadByte :: "'d PORTS \<Rightarrow> 'd \<Rightarrow> (UINT8 \<times> UINT8) option \<times> 'd" where
  "Ps2TryReadByte P d =
     (case inbyte P 0x64 d of (status, d) \<Rightarrow>
        if status AND 0x01 = 0 then (None, d)
        else case inbyte P 0x60 d of (data, d) \<Rightarrow>
          (Some (data, if status AND 0x20 \<noteq> 0 then 1 else 0), d))"

function Ps2FlushOutputBuffer_loop :: "'d PORTS \<Rightarrow> UINT32 \<Rightarrow> 'd \<Rightarrow> 'd option" where
  "Ps2FlushOutputBuffer_loop P flushCount d =
     (if flushCount < 64 then
        case inbyte P 0x64 d of (status, d) \<Rightarrow>
          if status AND 0x01 = 0 then Some d
          else case inbyte P 0x60 d of (_, d) \<Rightarrow>
            do { d \<leftarrow> BusyPause P 16 d; Ps2FlushOutputBuffer_loop P (flushCount + 1) d }
      else Some d)"
  by pat_completeness auto
termination
  by (relation "measure (\<lambda>(_, flushCount, _). 64 - unat flushCount)")
     (auto simp: unat_next [where n = 64] word_less_nat_alt)

definition Ps2FlushOutputBuffer :: "'d PORTS \<Rightarrow> 'd \<Rightarrow> 'd option" where
  "Ps2FlushOutputBuffer P d = Ps2FlushOutputBuffer_loop P 0 d"

definition Ps2WriteControllerCommand :: "'d PORTS \<Rightarrow> UINT8 \<Rightarrow> 'd \<Rightarrow> (UINT8 \<times> 'd) option" where
  "Ps2WriteControllerCommand P command d = do {
     (ok, d) \<leftarrow> Ps2WaitForInputClear P d;
     if ok = 0 then Some (0, d) else Some (1, outbyte P 0x64 command d) }"

definition Ps2WriteControllerData :: "'d PORTS \<Rightarrow> UINT8 \<Rightarrow> 'd \<Rightarrow> (UINT8 \<times> 'd) option" where
  "Ps2WriteControllerData P v d = do {
     (ok, d) \<leftarrow> Ps2WaitForInputClear P d;
     if ok = 0 then Some (0, d) else Some (1, outbyte P 0x60 v d) }"

definition Ps2WriteMouseCommand :: "'d PORTS \<Rightarrow> UINT8 \<Rightarrow> 'd \<Rightarrow> (UINT8 \<times> 'd) option" where
  "Ps2WriteMouseCommand P command d = do {
     (ok, d) \<leftarrow> Ps2WriteControllerCommand P 0xD4 d;
     if ok = 0 then Some (0, d)
     else do {
       (ok, d) \<leftarrow> Ps2WriteControllerData P command d;
       if ok = 0 then Some (0, d) else Some (1, d) } }"

subsection \<open>Initialisation\<close>

text \<open>
  \<open>acknowledge\<close> keeps its old value when no byte arrives, but is then not looked at.
\<close>

definition Ps2Acknowledged :: "'d PORTS \<Rightarrow> 'd \<Rightarrow> (bool \<times> 'd) option" where
  "Ps2Acknowledged P d = do {
     (ok, acknowledge, d) \<leftarrow> Ps2WaitForOutputByte P 1 d;
     if ok = 0 then Some (False, d) else do { a \<leftarrow> acknowledge; Some (a = 0xFA, d) } }"

definition InitializePs2Mouse ::
  "'d PORTS \<Rightarrow> PS2_MOUSE_STATE option \<Rightarrow> 'd \<Rightarrow> (UINT8 \<times> PS2_MOUSE_STATE option \<times> 'd) option" where
  "InitializePs2Mouse P mouseState d =
     (case mouseState of
        None \<Rightarrow> Some (0, None, d)
      | Some m \<Rightarrow>
          let m = m\<lparr>Enabled := 0, PacketIndex := 0, MouseLeftButtonDown := 0, Reserved := 0,
                    LastDeltaX := 0, LastDeltaY := 0, PacketCount := 0\<rparr>
          in do {
            d \<leftarrow> Ps2FlushOutputBuffer P d;
            (ok, d) \<leftarrow> Ps2WriteControllerCommand P 0xA8 d;
            if ok = 0 then Some (0, Some m, d) else do {
            (ok, d) \<leftarrow> Ps2WriteControllerCommand P 0x20 d;
            if ok = 0 then Some (0, Some m, d) else do {
            (ok, config, d) \<leftarrow> Ps2WaitForOutputByte P 0 d;
            if ok = 0 then Some (0, Some m, d) else do {
            controllerConfig \<leftarrow> config;
            let controllerConfig = controllerConfig OR 0x02;
            let controllerConfig = controllerConfig AND 0xDF;
            (ok, d) \<leftarrow> Ps2WriteControllerCommand P 0x60 d;
            if ok = 0 then Some (0, Some m, d) else do {
            (ok, d) \<leftarrow> Ps2WriteControllerData P controllerConfig d;
            if ok = 0 then Some (0, Some m, d) else do {
            d \<leftarrow> Ps2FlushOutputBuffer P d;
            (ok, d) \<leftarrow> Ps2WriteMouseCommand P 0xF6 d;
            if ok = 0 then Some (0, Some m, d) else do {
            (ack, d) \<leftarrow> Ps2Acknowledged P d;
            if \<not> ack then Some (0, Some m, d) else do {
            (ok, d) \<leftarrow> Ps2WriteMouseCommand P 0xF4 d;
            if ok = 0 then Some (0, Some m, d) else do {
            (ack, d) \<leftarrow> Ps2Acknowledged P d;
            if \<not> ack then Some (0, Some m, d)
            else Some (1, Some (m\<lparr>Enabled := 1\<rparr>), d) } } } } } } } } })"

subsection \<open>Packets\<close>

text \<open>What the polling loop keeps: the mouse state and its local totals.\<close>

record ps2_poll =
  mouse :: PS2_MOUSE_STATE
  totalDeltaX :: INT32
  totalDeltaY :: INT32
  packetCount :: UINT32
  leftButtonDown :: UINT8

text \<open>
  One byte from the mouse: dropped while out of step, else stored; the third byte completes
  the packet, whose overflow bits discard the movement but not the button.
\<close>

definition Ps2ReceiveByte :: "UINT8 \<Rightarrow> ps2_poll \<Rightarrow> ps2_poll option" where
  "Ps2ReceiveByte data p =
     (let m = mouse p in
      if PacketIndex m = 0 \<and> data AND 0x08 = 0 then Some p
      else do {
        packet \<leftarrow> wr (Packet m) (ucast (PacketIndex m)) data;
        let m = m\<lparr>Packet := packet, PacketIndex := PacketIndex m + 1\<rparr>;
        if PacketIndex m < 3 then Some (p\<lparr>mouse := m\<rparr>)
        else do {
          let m = m\<lparr>PacketIndex := 0\<rparr>;
          b0 \<leftarrow> rd (Packet m) 0;
          b1 \<leftarrow> rd (Packet m) 1;
          b2 \<leftarrow> rd (Packet m) 2;
          let p = p\<lparr>mouse := m, leftButtonDown := (if b0 AND 0x01 \<noteq> 0 then 1 else 0)\<rparr>;
          if b0 AND 0xC0 \<noteq> 0 then Some p
          else Some (p\<lparr>totalDeltaX := totalDeltaX p + scast b1,
                      totalDeltaY := totalDeltaY p + scast b2,
                      packetCount := packetCount p + 1\<rparr>) } })"

text \<open>At most 96 bytes and 32 complete packets.\<close>

function Ps2PollLoop :: "'d PORTS \<Rightarrow> UINT32 \<Rightarrow> ps2_poll \<Rightarrow> 'd \<Rightarrow> (ps2_poll \<times> 'd) option" where
  "Ps2PollLoop P readCount p d =
     (if readCount < 96 then
        case Ps2TryReadByte P d of
          (None, d) \<Rightarrow> Some (p, d)
        | (Some (data, isMouseData), d) \<Rightarrow>
            if isMouseData = 0 then Ps2PollLoop P (readCount + 1) p d
            else do {
              p' \<leftarrow> Ps2ReceiveByte data p;
              if packetCount p' \<noteq> packetCount p \<and> packetCount p' \<ge> 32 then Some (p', d)
              else Ps2PollLoop P (readCount + 1) p' d }
      else Some (p, d))"
  by pat_completeness auto
termination
  by (relation "measure (\<lambda>(_, readCount, _, _). 96 - unat readCount)")
     (auto simp: unat_next [where n = 96] word_less_nat_alt)

definition MoveCursorPs2 ::
  "ASSETS \<Rightarrow> FRAMEBUFFER_INFO \<Rightarrow> INT32 \<Rightarrow> INT32 \<Rightarrow> PS2_MOUSE_STATE \<Rightarrow> SOFTWARE_CURSOR \<Rightarrow>
   PS2_MOUSE_STATE \<times> SOFTWARE_CURSOR" where
  "MoveCursorPs2 A fb totalX totalY m cursor =
     (let m = m\<lparr>LastDeltaX := ApplyMouseAcceleration (ClampI32 totalX (- 64) 64 * sdivw FIXED_PIXEL_ONE 2),
                LastDeltaY := ApplyMouseAcceleration (ClampI32 (- totalY) (- 64) 64 * sdivw FIXED_PIXEL_ONE 2)\<rparr>;
          (pixelX, accumX) = Accumulate (AccumX cursor) (LastDeltaX m);
          (pixelY, accumY) = Accumulate (AccumY cursor) (LastDeltaY m);
          cursor = cursor\<lparr>AccumX := accumX, AccumY := accumY, LastPixelX := pixelX, LastPixelY := pixelY\<rparr>;
          cursor = (if LastPixelX cursor \<noteq> 0 \<or> LastPixelY cursor \<noteq> 0
                    then cursor\<lparr>X := ClampCursorX A (X cursor + LastPixelX cursor) fb,
                                Y := ClampCursorY A (Y cursor + LastPixelY cursor) fb\<rparr>
                    else cursor)
      in (m, cursor))"

text \<open>What follows the polling loop: the result, the mouse and the cursor.\<close>

definition Ps2Report ::
  "ASSETS \<Rightarrow> FRAMEBUFFER_INFO \<Rightarrow> SOFTWARE_CURSOR \<Rightarrow> ps2_poll \<Rightarrow> UINT8 \<times> PS2_MOUSE_STATE \<times> SOFTWARE_CURSOR" where
  "Ps2Report A fb c p =
     (let m = mouse p;
          c = c\<lparr>LeftButtonDown := leftButtonDown p, LastPollCount := packetCount p\<rparr>
      in if packetCount p = 0 then (0, m, c)
         else let c = c\<lparr>LastRawX := ClampI32 (totalDeltaX p) (- 9999) 9999,
                        LastRawY := ClampI32 (totalDeltaY p) (- 9999) 9999\<rparr>
           in if totalDeltaX p = 0 \<and> totalDeltaY p = 0
              then (1, m, c\<lparr>LastPixelX := 0, LastPixelY := 0\<rparr>)
              else case MoveCursorPs2 A fb (totalDeltaX p) (totalDeltaY p) m c of (m, c) \<Rightarrow>
                (1, m\<lparr>PacketCount := PacketCount m + packetCount p\<rparr>, c))"

definition UpdateCursorFromPs2Mouse ::
  "ASSETS \<Rightarrow> 'd PORTS \<Rightarrow> PS2_MOUSE_STATE option \<Rightarrow> SOFTWARE_CURSOR option \<Rightarrow> FRAMEBUFFER_INFO option \<Rightarrow> 'd \<Rightarrow>
   (UINT8 \<times> PS2_MOUSE_STATE option \<times> SOFTWARE_CURSOR option \<times> 'd) option" where
  "UpdateCursorFromPs2Mouse A P mouseState cursor framebufferInfo d =
     (case (mouseState, cursor, framebufferInfo) of
        (Some m, Some c, Some fb) \<Rightarrow>
          if Enabled m = 0 then Some (0, mouseState, cursor, d)
          else do {
            (p, d) \<leftarrow> Ps2PollLoop P 0
               \<lparr>mouse = m, totalDeltaX = 0, totalDeltaY = 0, packetCount = 0, leftButtonDown = LeftButtonDown c\<rparr> d;
            let (r, m, c) = Ps2Report A fb c p;
            Some (r, Some m, Some c, d) }
      | _ \<Rightarrow> Some (0, mouseState, cursor, d))"

declare Ps2WaitForInputClear_loop.simps [simp del] Ps2WaitForOutputByte_loop.simps [simp del]
  Ps2FlushOutputBuffer_loop.simps [simp del] Ps2PollLoop.simps [simp del]

subsection \<open>Every wait ends\<close>

lemma BusyPause_spins [simp]: "BusyPause P n d = Some ((spin P ^^ unat n) d)"
proof -
  have "wp (\<lambda>s. s = (spin P ^^ unat n) d) (BusyPause P n d)"
    unfolding BusyPause_def by (rule wp_for32 [where I = "\<lambda>i s. s = (spin P ^^ i) d"]) simp_all
  then show ?thesis by (simp add: wp_eq_Some)
qed

lemma Ps2WaitForInputClear_loop_wp: "wp (\<lambda>(ok, d). ok = 0 \<or> ok = 1) (Ps2WaitForInputClear_loop P a d)"
proof (induction P a d rule: Ps2WaitForInputClear_loop.induct)
  case (1 P a d)
  then show ?case
    by (subst Ps2WaitForInputClear_loop.simps) (auto split: prod.split)
qed

lemma Ps2WaitForInputClear_wp: "wp (\<lambda>(ok, d). ok = 0 \<or> ok = 1) (Ps2WaitForInputClear P d)"
  unfolding Ps2WaitForInputClear_def by (rule Ps2WaitForInputClear_loop_wp)

text \<open>A byte is stored exactly when the wait reports success.\<close>

lemma Ps2WaitForOutputByte_loop_wp:
  "wp (\<lambda>(ok, b, d). (ok = 0 \<and> b = None) \<or> (ok = 1 \<and> b \<noteq> None)) (Ps2WaitForOutputByte_loop P req a d)"
proof (induction P req a d rule: Ps2WaitForOutputByte_loop.induct)
  case (1 P req a d)
  then show ?case
    by (subst Ps2WaitForOutputByte_loop.simps) (auto split: prod.split)
qed

lemma Ps2WaitForOutputByte_wp:
  "wp (\<lambda>(ok, b, d). (ok = 0 \<and> b = None) \<or> (ok = 1 \<and> b \<noteq> None)) (Ps2WaitForOutputByte P req d)"
  unfolding Ps2WaitForOutputByte_def by (rule Ps2WaitForOutputByte_loop_wp)

lemma Ps2FlushOutputBuffer_loop_wp: "wp (\<lambda>_. True) (Ps2FlushOutputBuffer_loop P n d)"
proof (induction P n d rule: Ps2FlushOutputBuffer_loop.induct)
  case (1 P n d)
  then show ?case
    by (subst Ps2FlushOutputBuffer_loop.simps) (auto split: prod.split)
qed

lemma Ps2FlushOutputBuffer_wp: "wp (\<lambda>_. True) (Ps2FlushOutputBuffer P d)"
  unfolding Ps2FlushOutputBuffer_def by (rule Ps2FlushOutputBuffer_loop_wp)

subsection \<open>The initialisation handshake\<close>

text \<open>
  The ports with a log of what is written to them, and the bytes the handshake sends when the
  controller's configuration byte reads \<open>config\<close>: enable the auxiliary device, read and write
  back the configuration with the mouse interrupt on and its clock not disabled, then the
  mouse commands "set defaults" and "enable reporting".
\<close>

definition logged :: "'d PORTS \<Rightarrow> ('d \<times> (UINT16 \<times> UINT8) list) PORTS" where
  "logged P = \<lparr>inbyte = (\<lambda>port (d, l). case inbyte P port d of (v, d) \<Rightarrow> (v, (d, l))),
               outbyte = (\<lambda>port v (d, l). (outbyte P port v d, l @ [(port, v)])),
               spin = (\<lambda>(d, l). (spin P d, l))\<rparr>"

definition handshake :: "UINT8 \<Rightarrow> (UINT16 \<times> UINT8) list" where
  "handshake config =
     [(0x64, 0xA8), (0x64, 0x20), (0x64, 0x60), (0x60, (config OR 0x02) AND 0xDF),
      (0x64, 0xD4), (0x60, 0xF6), (0x64, 0xD4), (0x60, 0xF4)]"

lemma logged_simps [simp]:
  "inbyte (logged P) port s = (case inbyte P port (fst s) of (v, d) \<Rightarrow> (v, (d, snd s)))"
  "outbyte (logged P) port v s = (outbyte P port v (fst s), snd s @ [(port, v)])"
  "spin (logged P) s = (spin P (fst s), snd s)"
  by (simp_all add: logged_def split: prod.split)

lemma spin_log [simp]: "(spin (logged P) ^^ n) s = ((spin P ^^ n) (fst s), snd s)"
  by (induction n) simp_all

lemma Ps2WaitForInputClear_loop_log:
  "wp (\<lambda>(ok, s'). snd s' = snd s) (Ps2WaitForInputClear_loop (logged P) a s)"
proof (induction "logged P" a s rule: Ps2WaitForInputClear_loop.induct)
  case (1 a s)
  then show ?case
    by (subst Ps2WaitForInputClear_loop.simps)
       (auto split: prod.split)
qed

lemma Ps2WaitForInputClear_log:
  "wp (\<lambda>(ok, s'). (ok = 0 \<or> ok = 1) \<and> snd s' = snd s) (Ps2WaitForInputClear (logged P) s)"
  unfolding Ps2WaitForInputClear_def
  using wp_conj [OF Ps2WaitForInputClear_loop_wp Ps2WaitForInputClear_loop_log [of s P 0]]
  by (rule wp_mono) auto

lemma Ps2WaitForOutputByte_loop_log:
  "wp (\<lambda>(ok, b, s'). snd s' = snd s) (Ps2WaitForOutputByte_loop (logged P) req a s)"
proof (induction "logged P" req a s rule: Ps2WaitForOutputByte_loop.induct)
  case (1 req a s)
  then show ?case
    by (subst Ps2WaitForOutputByte_loop.simps)
       (auto split: prod.split)
qed

lemma Ps2FlushOutputBuffer_loop_log: "wp (\<lambda>s'. snd s' = snd s) (Ps2FlushOutputBuffer_loop (logged P) n s)"
proof (induction "logged P" n s rule: Ps2FlushOutputBuffer_loop.induct)
  case (1 n s)
  then show ?case
    by (subst Ps2FlushOutputBuffer_loop.simps)
       (auto split: prod.split)
qed

text \<open>The two controller writes append their byte exactly when they report success.\<close>

lemma Ps2WriteControllerCommand_log:
  "wp (\<lambda>(ok, s'). (ok = 0 \<and> snd s' = snd s) \<or> (ok = 1 \<and> snd s' = snd s @ [(0x64, c)]))
     (Ps2WriteControllerCommand (logged P) c s)"
  unfolding Ps2WriteControllerCommand_def wp_bind by (rule wp_mono [OF Ps2WaitForInputClear_log]) auto

lemma Ps2WriteControllerData_log:
  "wp (\<lambda>(ok, s'). (ok = 0 \<and> snd s' = snd s) \<or> (ok = 1 \<and> snd s' = snd s @ [(0x60, c)]))
     (Ps2WriteControllerData (logged P) c s)"
  unfolding Ps2WriteControllerData_def wp_bind by (rule wp_mono [OF Ps2WaitForInputClear_log]) auto

lemma Ps2WriteMouseCommand_log:
  "wp (\<lambda>(ok, s'). (ok = 0 \<and> (snd s' = snd s \<or> snd s' = snd s @ [(0x64, 0xD4)])) \<or>
        (ok = 1 \<and> snd s' = snd s @ [(0x64, 0xD4), (0x60, c)]))
     (Ps2WriteMouseCommand (logged P) c s)"
  unfolding Ps2WriteMouseCommand_def wp_bind
  by (rule wp_mono [OF Ps2WriteControllerCommand_log])
     (auto intro!: wp_mono [OF Ps2WriteControllerData_log])

lemma Ps2WaitForOutputByte_log:
  "wp (\<lambda>(ok, b, s'). ((ok = 0 \<and> b = None) \<or> (ok = 1 \<and> b \<noteq> None)) \<and> snd s' = snd s)
     (Ps2WaitForOutputByte (logged P) req s)"
  using wp_conj [OF Ps2WaitForOutputByte_wp Ps2WaitForOutputByte_loop_log [of s P req 0, folded Ps2WaitForOutputByte_def]]
  by (rule wp_mono) auto

lemma Ps2Acknowledged_log: "wp (\<lambda>(ack, s'). snd s' = snd s) (Ps2Acknowledged (logged P) s)"
  unfolding Ps2Acknowledged_def wp_bind by (rule wp_mono [OF Ps2WaitForOutputByte_log]) auto

lemma Ps2FlushOutputBuffer_log: "wp (\<lambda>s'. snd s' = snd s) (Ps2FlushOutputBuffer (logged P) s)"
  unfolding Ps2FlushOutputBuffer_def by (rule Ps2FlushOutputBuffer_loop_log)

definition fresh_mouse :: "UINT8 \<Rightarrow> PS2_MOUSE_STATE \<Rightarrow> PS2_MOUSE_STATE" where
  "fresh_mouse e m = m\<lparr>Enabled := e, PacketIndex := 0, MouseLeftButtonDown := 0, Reserved := 0,
                      LastDeltaX := 0, LastDeltaY := 0, PacketCount := 0\<rparr>"

text \<open>
  The initialisation always returns; it reports success with the mouse enabled after the whole
  handshake, or failure with the mouse disabled after a prefix of it.
\<close>

lemma InitializePs2Mouse_log:
  "wp (\<lambda>(r, m', s'). m' = Some (fresh_mouse r m) \<and>
         (\<exists>config sent. snd s' = l @ sent \<and> prefix sent (handshake config) \<and>
            (r = 0 \<or> (r = 1 \<and> sent = handshake config))))
     (InitializePs2Mouse (logged P) (Some m) (d, l))"
proof -
  note step = wp_mono [OF Ps2WriteControllerCommand_log] wp_mono [OF Ps2WriteControllerData_log]
    wp_mono [OF Ps2WriteMouseCommand_log] wp_mono [OF Ps2Acknowledged_log] wp_mono [OF Ps2FlushOutputBuffer_log]
    wp_mono [OF Ps2WaitForOutputByte_log]
  show ?thesis
    unfolding InitializePs2Mouse_def option.case Let_def wp_bind fresh_mouse_def
    by (auto simp: handshake_def intro!: step; blast)
qed

text \<open>The same without the log.\<close>

lemma Ps2WriteControllerCommand_wp: "wp (\<lambda>(ok, d). ok = 0 \<or> ok = 1) (Ps2WriteControllerCommand P c d)"
  unfolding Ps2WriteControllerCommand_def wp_bind by (rule wp_mono [OF Ps2WaitForInputClear_wp]) auto

lemma Ps2WriteControllerData_wp: "wp (\<lambda>(ok, d). ok = 0 \<or> ok = 1) (Ps2WriteControllerData P c d)"
  unfolding Ps2WriteControllerData_def wp_bind by (rule wp_mono [OF Ps2WaitForInputClear_wp]) auto

lemma Ps2WriteMouseCommand_wp: "wp (\<lambda>(ok, d). ok = 0 \<or> ok = 1) (Ps2WriteMouseCommand P c d)"
  unfolding Ps2WriteMouseCommand_def wp_bind
  by (rule wp_mono [OF Ps2WriteControllerCommand_wp]) (auto intro!: wp_mono [OF Ps2WriteControllerData_wp])

lemma Ps2Acknowledged_wp: "wp (\<lambda>_. True) (Ps2Acknowledged P d)"
  unfolding Ps2Acknowledged_def wp_bind by (rule wp_mono [OF Ps2WaitForOutputByte_wp]) auto

lemma InitializePs2Mouse_wp:
  "wp (\<lambda>(r, m', d'). m' = Some (fresh_mouse r m) \<and> (r = 0 \<or> r = 1)) (InitializePs2Mouse P (Some m) d)"
proof -
  note step = wp_mono [OF Ps2WriteControllerCommand_wp] wp_mono [OF Ps2WriteControllerData_wp]
    wp_mono [OF Ps2WriteMouseCommand_wp] wp_mono [OF Ps2Acknowledged_wp] wp_mono [OF Ps2FlushOutputBuffer_wp]
    wp_mono [OF Ps2WaitForOutputByte_wp]
  show ?thesis
    unfolding InitializePs2Mouse_def option.case Let_def wp_bind fresh_mouse_def
    by (auto intro!: step)
qed

subsection \<open>Packet assembly\<close>

text \<open>
  The driver's invariant: the index is inside the packet, and the first byte of a packet under
  way carries the synchronisation bit.
\<close>

definition ps2_ok :: "PS2_MOUSE_STATE \<Rightarrow> bool" where
  "ps2_ok m \<longleftrightarrow> unat (PacketIndex m) < 3 \<and> 3 \<le> length (Packet m) \<and>
     (PacketIndex m \<noteq> 0 \<longrightarrow> Packet m ! 0 AND 0x08 \<noteq> 0)"

text \<open>The bytes of the packet under way.\<close>

definition pending :: "PS2_MOUSE_STATE \<Rightarrow> UINT8 list" where
  "pending m = take (unat (PacketIndex m)) (Packet m)"

text \<open>
  The reference decoder: a stream of mouse bytes is cut into packets of three, each starting at
  the first byte with bit 3 set; what is left over waits for the next poll.
\<close>

fun packets :: "UINT8 list \<Rightarrow> (UINT8 \<times> UINT8 \<times> UINT8) list" where
  "packets (a # b # c # bs) = (if a AND 0x08 = 0 then packets (b # c # bs) else (a, b, c) # packets bs)"
| "packets _ = []"

fun leftover :: "UINT8 list \<Rightarrow> UINT8 list" where
  "leftover (a # b # c # bs) = (if a AND 0x08 = 0 then leftover (b # c # bs) else leftover bs)"
| "leftover [a, b] = (if a AND 0x08 = 0 then leftover [b] else [a, b])"
| "leftover [a] = (if a AND 0x08 = 0 then [] else [a])"
| "leftover [] = []"

definition good :: "(UINT8 \<times> UINT8 \<times> UINT8) list \<Rightarrow> (UINT8 \<times> UINT8 \<times> UINT8) list" where
  "good ps = filter (\<lambda>(a, _). a AND 0xC0 = 0) ps"

definition left_button :: "UINT8 \<Rightarrow> (UINT8 \<times> UINT8 \<times> UINT8) list \<Rightarrow> UINT8" where
  "left_button l ps = (if ps = [] then l else bool8 (fst (last ps) AND 0x01 \<noteq> 0))"

fun receive :: "UINT8 list \<Rightarrow> ps2_poll \<Rightarrow> ps2_poll option" where
  "receive [] p = Some p"
| "receive (b # bs) p = do { p \<leftarrow> Ps2ReceiveByte b p; receive bs p }"

definition keeps_mouse :: "PS2_MOUSE_STATE \<Rightarrow> PS2_MOUSE_STATE \<Rightarrow> bool" where
  "keeps_mouse m m' \<longleftrightarrow> length (Packet m') = length (Packet m) \<and> Enabled m' = Enabled m \<and>
     PacketCount m' = PacketCount m"

definition decoded :: "UINT8 list \<Rightarrow> ps2_poll \<Rightarrow> ps2_poll \<Rightarrow> bool" where
  "decoded bs p p' \<longleftrightarrow>
     pending (mouse p') = leftover bs \<and>
     totalDeltaX p' = totalDeltaX p + (\<Sum>(_, x, _) \<leftarrow> good (packets bs). scast x) \<and>
     totalDeltaY p' = totalDeltaY p + (\<Sum>(_, _, y) \<leftarrow> good (packets bs). scast y) \<and>
     packetCount p' = packetCount p + of_nat (length (good (packets bs))) \<and>
     leftButtonDown p' = left_button (leftButtonDown p) (packets bs)"

lemma Packet_3: "3 \<le> length xs \<Longrightarrow> \<exists>a b c ys. xs = a # b # c # (ys :: 'a list)"
  by (cases xs rule: remdups_adj.cases) (auto simp: Suc_le_length_iff numeral_3_eq_3)

lemma index_cases: "unat (i :: UINT8) < 3 \<Longrightarrow> i = 0 \<or> i = 1 \<or> i = 2"
  by (auto simp: less_Suc_eq numeral_3_eq_3 unat_eq_0 intro!: word_eq_unatI)

lemma Ps2ReceiveByte_wp:
  assumes ok: "ps2_ok (mouse p)"
  shows "wp (\<lambda>p'. ps2_ok (mouse p') \<and> keeps_mouse (mouse p) (mouse p') \<and>
            decoded (pending (mouse p) @ [b]) p p') (Ps2ReceiveByte b p)"
proof -
  obtain x y z ws where pk: "Packet (mouse p) = x # y # z # ws"
    using Packet_3 [of "Packet (mouse p)"] ok unfolding ps2_ok_def by blast
  have "PacketIndex (mouse p) = 0 \<or> PacketIndex (mouse p) = 1 \<or> PacketIndex (mouse p) = 2"
    using index_cases ok by (simp add: ps2_ok_def)
  then show ?thesis
    using ok pk
    by (elim disjE)
       (auto simp: Ps2ReceiveByte_def Let_def wr_def rd_def ps2_ok_def pending_def decoded_def
          keeps_mouse_def good_def left_button_def word_less_nat_alt)
qed

text \<open>A first part of a stream leaves its unfinished packet to the rest of it.\<close>

lemma out_of_step: "a AND 0x08 = 0 \<Longrightarrow> leftover (a # bs) = leftover bs" "a AND 0x08 = 0 \<Longrightarrow> packets (a # bs) = packets bs"
  by (cases "a # bs" rule: leftover.cases; simp)+

lemma leftover_append: "leftover (as @ bs) = leftover (leftover as @ bs)"
  by (induction as rule: leftover.induct) (simp_all add: out_of_step)

lemma packets_append: "packets (as @ bs) = packets as @ packets (leftover as @ bs)"
  by (induction as rule: leftover.induct) (simp_all add: out_of_step)

lemma decoded_trans:
  assumes "decoded as p q" "decoded (leftover as @ bs) q r"
  shows "decoded (as @ bs) p r"
  using assms
  by (auto simp: decoded_def packets_append [of as bs] leftover_append [of as bs] good_def left_button_def)

lemma pending_alone:
  assumes "ps2_ok m" shows "packets (pending m) = []" "leftover (pending m) = pending m"
proof -
  obtain x y z ws where pk: "Packet m = x # y # z # ws"
    using Packet_3 [of "Packet m"] assms unfolding ps2_ok_def by blast
  have "PacketIndex m = 0 \<or> PacketIndex m = 1 \<or> PacketIndex m = 2"
    using index_cases assms by (simp add: ps2_ok_def)
  then show "packets (pending m) = []" "leftover (pending m) = pending m"
    using assms pk by (auto simp: ps2_ok_def pending_def)
qed

text \<open>Receiving a stream is decoding it.\<close>

lemma receive_wp:
  "ps2_ok (mouse p) \<Longrightarrow> wp (\<lambda>p'. ps2_ok (mouse p') \<and> keeps_mouse (mouse p) (mouse p') \<and>
      decoded (pending (mouse p) @ bs) p p') (receive bs p)"
proof (induction bs arbitrary: p)
  case Nil
  then show ?case
    by (simp add: keeps_mouse_def decoded_def pending_alone good_def left_button_def)
next
  case (Cons b bs)
  show ?case
    unfolding receive.simps wp_bind
  proof (rule wp_mono [OF Ps2ReceiveByte_wp [OF Cons.prems, of b]], clarify)
    fix q assume q: "ps2_ok (mouse q)" "keeps_mouse (mouse p) (mouse q)" "decoded (pending (mouse p) @ [b]) p q"
    then have "pending (mouse q) = leftover (pending (mouse p) @ [b])" by (simp add: decoded_def)
    with Cons.IH [OF q(1)] decoded_trans [OF q(3), of bs] q(2)
    show "wp (\<lambda>p'. ps2_ok (mouse p') \<and> keeps_mouse (mouse p) (mouse p') \<and>
        decoded (pending (mouse p) @ b # bs) p p') (receive bs q)"
      by (auto simp: keeps_mouse_def elim!: wp_mono)
  qed
qed

lemma Ps2ReceiveByte_count:
  "ret (\<lambda>p'. packetCount p' = packetCount p \<or> packetCount p' = packetCount p + 1) (Ps2ReceiveByte b p)"
  unfolding Ps2ReceiveByte_def Let_def by (auto simp: rd_def wr_def)

text \<open>A poll receives at most 96 mouse bytes, in order, and stops after 32 complete packets.\<close>

lemma Ps2PollLoop_wp:
  "unat n \<le> 96 \<Longrightarrow> ps2_ok (mouse p) \<Longrightarrow> unat (packetCount p) < 32 \<Longrightarrow>
   wp (\<lambda>(p', d'). \<exists>bs. length bs + unat n \<le> 96 \<and> receive bs p = Some p' \<and> unat (packetCount p') \<le> 32)
      (Ps2PollLoop P n p d)"
proof (induction P n p d rule: Ps2PollLoop.induct)
  case (1 P n p d)
  obtain o' d' where rd: "Ps2TryReadByte P d = (o', d')" by fastforce
  have n1: "unat (n + 1) = Suc (unat n)" "unat n < 96" if "n < 96"
    using that unat_next [of n 96] by (simp_all add: word_less_nat_alt)
  show ?case
  proof (cases "n < 96 \<and> o' \<noteq> None")
    case False
    then show ?thesis
      using "1.prems" rd by (subst Ps2PollLoop.simps) (auto split: option.split intro!: exI [of _ "[]"])
  next
    case True
    then obtain b src where o': "o' = Some (b, src)" and lt: "n < 96" by auto
    show ?thesis
    proof (cases "src = 0")
      case src: True
      have "wp (\<lambda>(p', d'). \<exists>bs. length bs + unat (n + 1) \<le> 96 \<and> receive bs p = Some p' \<and> unat (packetCount p') \<le> 32)
          (Ps2PollLoop P (n + 1) p d')"
        using "1.IH"(1) [OF lt rd [symmetric] o' refl src] n1 [OF lt] "1.prems" by simp
      then show ?thesis
        using rd o' lt src n1 [OF lt]
        by (subst Ps2PollLoop.simps) (auto elim!: wp_mono, rule exI, erule conjI [rotated], simp)
    next
      case src: False
      from Ps2ReceiveByte_wp [OF "1.prems"(2), of b] obtain q where
        q: "Ps2ReceiveByte b p = Some q" "ps2_ok (mouse q)" by (auto elim: wpE)
      have c: "packetCount q = packetCount p \<or> packetCount q = packetCount p + 1"
        using Ps2ReceiveByte_count [of p b] q by simp
      have c1: "unat (packetCount p + 1) = Suc (unat (packetCount p))"
        using "1.prems"(3) unat_next [of "packetCount p" 32] by simp
      show ?thesis
      proof (cases "packetCount q \<noteq> packetCount p \<and> packetCount q \<ge> 32")
        case stop: True
        then show ?thesis
          using rd o' lt src q(1) n1 [OF lt] c c1 "1.prems"(3)
          by (subst Ps2PollLoop.simps) (auto intro!: exI [of _ "[b]"])
      next
        case go: False
        then have "unat (packetCount q) < 32"
          using c "1.prems"(3) by (auto simp: word_le_nat_alt)
        then have "wp (\<lambda>(p', d'). \<exists>bs. length bs + unat (n + 1) \<le> 96 \<and> receive bs q = Some p' \<and> unat (packetCount p') \<le> 32)
            (Ps2PollLoop P (n + 1) q d')"
          using "1.IH"(2) [OF lt rd [symmetric] o' refl src q(1) go] n1 [OF lt] q(2) by simp
        then show ?thesis
          using rd o' lt src go n1 [OF lt] q(1)
          by (subst Ps2PollLoop.simps)
             (simp, elim conjE disjE; simp, elim wp_mono, clarsimp, rule_tac x = "b # bs" in exI, simp)
      qed
    qed
  qed
qed

text \<open>Movement is a signed byte per packet, so the totals of a poll stay far from overflow.\<close>

lemma sint_scast8: "sint (scast (x :: UINT8) :: INT32) = sint x"
  by (rule sint_up_scast) (simp add: is_up)

lemma sint8_bounds: "- 128 \<le> sint (x :: UINT8)" "sint (x :: UINT8) \<le> 127"
  using sint_ge [of x] sint_lt [of x] by simp_all

lemma movement_sum:
  "length xs \<le> 32 \<Longrightarrow>
   sint (\<Sum>x\<leftarrow>xs. scast (x :: UINT8) :: INT32) = (\<Sum>x\<leftarrow>xs. sint x) \<and>
   \<bar>\<Sum>x\<leftarrow>xs. sint x\<bar> \<le> 128 * int (length xs)"
proof (induction xs)
  case (Cons x xs)
  then show ?case
    using sint8_bounds [of x] by (auto simp: sint_add_exact sint_scast8)
qed simp

subsection \<open>The cursor update\<close>

lemma MoveCursorPs2_moves:
  assumes "surface_ok fb" "in_bounds A fb c" "MoveCursorPs2 A fb tx ty m c = (m', c')"
  shows "moves c c'" "in_bounds A fb c'"
    "PacketIndex m' = PacketIndex m" "Packet m' = Packet m" "Enabled m' = Enabled m" "PacketCount m' = PacketCount m"
  using assms(2,3) ClampCursor_bounds [OF assms(1), of A]
  by (auto simp: MoveCursorPs2_def Let_def moves_def in_bounds_def split: prod.splits)

definition polls :: "PS2_MOUSE_STATE \<Rightarrow> SOFTWARE_CURSOR \<Rightarrow> UINT8 list \<Rightarrow> ps2_poll \<Rightarrow> bool" where
  "polls m c bs p \<longleftrightarrow> length bs \<le> 96 \<and> decoded (pending m @ bs)
      \<lparr>mouse = m, totalDeltaX = 0, totalDeltaY = 0, packetCount = 0, leftButtonDown = LeftButtonDown c\<rparr> p \<and>
      ps2_ok (mouse p) \<and> keeps_mouse m (mouse p) \<and> unat (packetCount p) \<le> 32"

lemma Ps2PollLoop_polls:
  assumes "ps2_ok m"
  shows "wp (\<lambda>(p, d'). \<exists>bs. polls m c bs p) (Ps2PollLoop P 0
      \<lparr>mouse = m, totalDeltaX = 0, totalDeltaY = 0, packetCount = 0, leftButtonDown = LeftButtonDown c\<rparr> d)"
    (is "wp _ (Ps2PollLoop P 0 ?p d)")
proof (rule wp_mono [OF Ps2PollLoop_wp [of 0 ?p P d]], goal_cases)
  case (4 r)
  then obtain bs where bs: "length bs \<le> 96" "receive bs ?p = Some (fst r)" "unat (packetCount (fst r)) \<le> 32"
    by (auto split: prod.splits)
  moreover have "wp (\<lambda>p'. ps2_ok (mouse p') \<and> keeps_mouse m (mouse p') \<and> decoded (pending m @ bs) ?p p') (receive bs ?p)"
    using receive_wp [of ?p bs] assms by simp
  ultimately show ?case by (auto simp: polls_def split: prod.split)
qed (use assms in simp_all)

lemma Ps2Report_moves:
  assumes "surface_ok fb" "in_bounds A fb c" "Ps2Report A fb c p = (r, m, e)"
  shows "moves c e" "in_bounds A fb e" "r = bool8 (packetCount p \<noteq> 0)" "Enabled m = Enabled (mouse p)"
    "LeftButtonDown e = leftButtonDown p" "LastPollCount e = packetCount p"
    "ps2_ok (mouse p) \<Longrightarrow> ps2_ok m" "packetCount p = 0 \<Longrightarrow> X e = X c \<and> Y e = Y c"
proof -
  let ?c = "c\<lparr>LeftButtonDown := leftButtonDown p, LastPollCount := packetCount p,
     LastRawX := ClampI32 (totalDeltaX p) (- 9999) 9999, LastRawY := ClampI32 (totalDeltaY p) (- 9999) 9999\<rparr>"
  have c: "in_bounds A fb ?c" using assms(2) by (simp add: in_bounds_def)
  obtain m' c' where mv: "MoveCursorPs2 A fb (totalDeltaX p) (totalDeltaY p) (mouse p) ?c = (m', c')" by fastforce
  note mv' = MoveCursorPs2_moves [OF assms(1) c mv]
  have c': "LeftButtonDown c' = leftButtonDown p" "LastPollCount c' = packetCount p"
    using mv by (auto simp: MoveCursorPs2_def Let_def split: prod.splits)
  show "moves c e" "in_bounds A fb e" "r = bool8 (packetCount p \<noteq> 0)" "Enabled m = Enabled (mouse p)"
    "LeftButtonDown e = leftButtonDown p" "LastPollCount e = packetCount p"
    "ps2_ok (mouse p) \<Longrightarrow> ps2_ok m" "packetCount p = 0 \<Longrightarrow> X e = X c \<and> Y e = Y c"
    using assms mv mv' c'
    by (auto simp: Ps2Report_def Let_def moves_def in_bounds_def ps2_ok_def split: if_splits)
qed

text \<open>
  An update always returns.  It reads at most 96 mouse bytes, decodes them, leaves the driver's
  invariant and the cursor's bounds in place, and reports whether complete packets came.
\<close>

lemma UpdateCursorFromPs2Mouse_wp:
  assumes ok: "ps2_ok m" and fb: "surface_ok fb" "in_bounds A fb c"
  shows "wp (\<lambda>(r, m', c', d'). \<exists>n e. m' = Some n \<and> c' = Some e \<and> ps2_ok n \<and> Enabled n = Enabled m \<and>
        moves c e \<and> in_bounds A fb e \<and> (r = 0 \<longrightarrow> X e = X c \<and> Y e = Y c) \<and>
        (Enabled m \<noteq> 0 \<longrightarrow> (\<exists>bs p. polls m c bs p \<and> LeftButtonDown e = leftButtonDown p \<and>
            LastPollCount e = packetCount p \<and> r = bool8 (packetCount p \<noteq> 0))))
     (UpdateCursorFromPs2Mouse A P (Some m) (Some c) (Some fb) d)"
proof (cases "Enabled m = 0")
  case True
  then show ?thesis using assms by (simp add: UpdateCursorFromPs2Mouse_def)
next
  case False
  show ?thesis
    unfolding UpdateCursorFromPs2Mouse_def option.case prod.case if_not_P [OF False] wp_bind
  proof (rule wp_mono [OF Ps2PollLoop_polls [OF ok]], clarify, goal_cases)
    case (1 p d' bs)
    then have p: "ps2_ok (mouse p)" "keeps_mouse m (mouse p)" by (simp_all add: polls_def)
    obtain r n e where r: "Ps2Report A fb c p = (r, n, e)" using prod_cases3 by blast
    note r' = Ps2Report_moves [OF fb r]
    have "Enabled n = Enabled m" using r'(4) p(2) by (simp add: keeps_mouse_def)
    moreover have "r = 0 \<longrightarrow> X e = X c \<and> Y e = Y c" using r'(3,8) by simp
    ultimately show ?case
      using 1 p(1) r'(1,2,3,5,6,7) by (auto simp: r)
  qed
qed

text \<open>The PS/2 mouse is a third source of movement; its environment holds the driver's state.\<close>

definition Ps2Update ::
  "ASSETS \<Rightarrow> 'd PORTS \<Rightarrow> FRAMEBUFFER_INFO \<Rightarrow> SOFTWARE_CURSOR \<Rightarrow> PS2_MOUSE_STATE \<times> 'd \<Rightarrow>
   (UINT8 \<times> SOFTWARE_CURSOR option \<times> (PS2_MOUSE_STATE \<times> 'd)) option" where
  "Ps2Update A P fb c e = (case e of (m, d) \<Rightarrow> do {
     (r, m', c', d') \<leftarrow> UpdateCursorFromPs2Mouse A P (Some m) (Some c) (Some fb) d;
     n \<leftarrow> m';
     Some (r, c', (n, d')) })"

interpretation ps2: cursor_updater A fb "Ps2Update A P fb" for A fb P
proof (standard, goal_cases)
  case (1 c e)
  obtain m d where e: "e = (m, d)" by fastforce
  show ?case
  proof (cases "Enabled m = 0")
    case True
    then show ?thesis using 1 by (simp add: e Ps2Update_def UpdateCursorFromPs2Mouse_def)
  next
    case False
    show ?thesis
      unfolding Ps2Update_def UpdateCursorFromPs2Mouse_def e prod.case option.case if_not_P [OF False] ret_simps
      by (rule ret_any) (auto split: prod.splits dest: Ps2Report_moves [OF 1])
  qed
qed

end
