(* ===== verification/Boot.thy ===== *)
theory Boot
  imports Pointer Ps2
begin

text \<open>
  What the loader does with the firmware: finding the framebuffer, measuring the time stamp
  counter, enumerating PCI devices and leaving boot services.  The firmware is a parameter:
  a record of what each service does to its state \<open>'e\<close>, by the address of its code, and of
  the words its tables hold.  The lemmas relate the results to what the services reported.
\<close>

record EFI_GUID =
  Data1 :: UINT32
  Data2 :: UINT16
  Data3 :: UINT16
  Data4 :: "UINT8 list"

record PCI_DEVICE_INFO =
  VendorId :: UINT16
  DeviceId :: UINT16
  ClassCode :: UINT8
  Subclass :: UINT8
  ProgIf :: UINT8
  Kind :: UINT8
  Segment :: UINT8
  Bus :: UINT8
  Device :: UINT8
  Function :: UINT8

record KERNEL_BOOT_INFO =
  BootFramebuffer :: FRAMEBUFFER_INFO
  ShadowFramebuffer :: ptr
  ComposeFramebuffer :: ptr
  TscTicksPerSecond :: UINT64
  MemoryMap :: ptr
  MemoryMapSize :: UINTN
  MemoryMapKey :: UINTN
  MemoryDescriptorSize :: UINTN
  MemoryDescriptorVersion :: UINT32
  MemoryDescriptorCount :: UINTN
  GpuCount :: UINTN
  AudioCount :: UINTN
  PciDeviceCount :: UINTN
  PciDevices :: "PCI_DEVICE_INFO list"

subsection \<open>Constants\<close>

definition EFI_BY_PROTOCOL :: UINT32 where "EFI_BY_PROTOCOL = 2"
definition EFI_BOOT_SERVICES_DATA :: UINT32 where "EFI_BOOT_SERVICES_DATA = 4"
definition EFI_PCI_IO_PROTOCOL_WIDTH_UINT32 :: UINT32 where "EFI_PCI_IO_PROTOCOL_WIDTH_UINT32 = 2"
definition KERNEL_PCI_KIND_GPU :: UINT8 where "KERNEL_PCI_KIND_GPU = 1"
definition KERNEL_PCI_KIND_AUDIO :: UINT8 where "KERNEL_PCI_KIND_AUDIO = 2"

lemmas pci_defs = KERNEL_PCI_KIND_GPU_def KERNEL_PCI_KIND_AUDIO_def

definition EFI_SYSTEM_TABLE_BOOT_SERVICES_OFFSET :: UINTN where "EFI_SYSTEM_TABLE_BOOT_SERVICES_OFFSET = 0x60"
definition EFI_BOOT_SERVICES_GET_MEMORY_MAP_OFFSET :: UINTN where "EFI_BOOT_SERVICES_GET_MEMORY_MAP_OFFSET = 0x38"
definition EFI_BOOT_SERVICES_ALLOCATE_POOL_OFFSET :: UINTN where "EFI_BOOT_SERVICES_ALLOCATE_POOL_OFFSET = 0x40"
definition EFI_BOOT_SERVICES_FREE_POOL_OFFSET :: UINTN where "EFI_BOOT_SERVICES_FREE_POOL_OFFSET = 0x48"
definition EFI_BOOT_SERVICES_LOCATE_PROTOCOL_OFFSET :: UINTN where "EFI_BOOT_SERVICES_LOCATE_PROTOCOL_OFFSET = 0x140"
definition EFI_BOOT_SERVICES_HANDLE_PROTOCOL_OFFSET :: UINTN where "EFI_BOOT_SERVICES_HANDLE_PROTOCOL_OFFSET = 0x98"
definition EFI_BOOT_SERVICES_EXIT_BOOT_SERVICES_OFFSET :: UINTN where "EFI_BOOT_SERVICES_EXIT_BOOT_SERVICES_OFFSET = 0xE8"
definition EFI_BOOT_SERVICES_LOCATE_HANDLE_BUFFER_OFFSET :: UINTN where "EFI_BOOT_SERVICES_LOCATE_HANDLE_BUFFER_OFFSET = 0x138"
definition EFI_BOOT_SERVICES_STALL_OFFSET :: UINTN where "EFI_BOOT_SERVICES_STALL_OFFSET = 0xF8"
definition GOP_MODE_OFFSET :: UINTN where "GOP_MODE_OFFSET = 0x18"
definition GOP_MODE_INFO_OFFSET :: UINTN where "GOP_MODE_INFO_OFFSET = 0x08"
definition GOP_MODE_FRAMEBUFFER_BASE_OFFSET :: UINTN where "GOP_MODE_FRAMEBUFFER_BASE_OFFSET = 0x18"
definition GOP_MODE_FRAMEBUFFER_SIZE_OFFSET :: UINTN where "GOP_MODE_FRAMEBUFFER_SIZE_OFFSET = 0x20"
definition GOP_INFO_HORIZONTAL_RESOLUTION_OFFSET :: UINTN where "GOP_INFO_HORIZONTAL_RESOLUTION_OFFSET = 0x04"
definition GOP_INFO_VERTICAL_RESOLUTION_OFFSET :: UINTN where "GOP_INFO_VERTICAL_RESOLUTION_OFFSET = 0x08"
definition GOP_INFO_PIXEL_FORMAT_OFFSET :: UINTN where "GOP_INFO_PIXEL_FORMAT_OFFSET = 0x0C"
definition GOP_INFO_RED_MASK_OFFSET :: UINTN where "GOP_INFO_RED_MASK_OFFSET = 0x10"
definition GOP_INFO_GREEN_MASK_OFFSET :: UINTN where "GOP_INFO_GREEN_MASK_OFFSET = 0x14"
definition GOP_INFO_BLUE_MASK_OFFSET :: UINTN where "GOP_INFO_BLUE_MASK_OFFSET = 0x18"
definition GOP_INFO_PIXELS_PER_SCANLINE_OFFSET :: UINTN where "GOP_INFO_PIXELS_PER_SCANLINE_OFFSET = 0x20"

definition gGraphicsOutputProtocolGuid :: EFI_GUID where
  "gGraphicsOutputProtocolGuid = \<lparr>Data1 = 0x9042A9DE, Data2 = 0x23DC, Data3 = 0x4A38,
     Data4 = [0x96, 0xFB, 0x7A, 0xDE, 0xD0, 0x80, 0x51, 0x6A]\<rparr>"

definition gSimplePointerProtocolGuid :: EFI_GUID where
  "gSimplePointerProtocolGuid = \<lparr>Data1 = 0x31878C87, Data2 = 0x0B75, Data3 = 0x11D5,
     Data4 = [0x9A, 0x4F, 0x00, 0x90, 0x27, 0x3F, 0xC1, 0x4D]\<rparr>"

definition gAbsolutePointerProtocolGuid :: EFI_GUID where
  "gAbsolutePointerProtocolGuid = \<lparr>Data1 = 0x8D59D32B, Data2 = 0xC655, Data3 = 0x4AE9,
     Data4 = [0x9B, 0x15, 0xF2, 0x59, 0x04, 0x99, 0x2A, 0x43]\<rparr>"

definition gPciIoProtocolGuid :: EFI_GUID where
  "gPciIoProtocolGuid = \<lparr>Data1 = 0x4CF5B200, Data2 = 0x68B8, Data3 = 0x4CA5,
     Data4 = [0x9E, 0xEC, 0xB2, 0x3E, 0x3F, 0x50, 0x02, 0x9A]\<rparr>"

subsection \<open>The firmware\<close>

text \<open>
  The two members of \<open>EFI_PCI_IO_PROTOCOL\<close> that the code calls, null where the option is
  \<open>None\<close>.  \<open>PciRead width offset count\<close> may store one value; \<open>GetLocation\<close> may store
  each of segment, bus, device and function.
\<close>

record 'e EFI_PCI_IO_PROTOCOL =
  PciRead :: "(UINT32 \<Rightarrow> UINT32 \<Rightarrow> UINTN \<Rightarrow> 'e \<Rightarrow> EFI_STATUS \<times> UINT32 option \<times> 'e) option"
  GetLocation :: "('e \<Rightarrow> EFI_STATUS \<times> (UINTN option \<times> UINTN option \<times> UINTN option \<times> UINTN option) \<times> 'e) option"

type_synonym EFI_HANDLE = ptr

text \<open>The in/out arguments of \<open>GetMemoryMap\<close>; a call returns their new values.\<close>

record map_args =
  MapSize :: UINTN
  MapKey :: UINTN
  DescriptorSize :: UINTN
  DescriptorVersion :: UINT32

text \<open>
  \<open>read64\<close> and \<open>read32\<close> are the words in the firmware's tables; the services are indexed by
  the address of their code.  \<open>AllocatePool\<close> also extends the heap of pixel cells.
\<close>

record 'e FIRMWARE =
  read64 :: "'e \<Rightarrow> ptr \<Rightarrow> UINT64 option"
  read32 :: "'e \<Rightarrow> ptr \<Rightarrow> UINT32 option"
  LocateProtocol :: "ptr \<Rightarrow> EFI_GUID \<Rightarrow> 'e \<Rightarrow> EFI_STATUS \<times> ptr \<times> 'e"
  Stall :: "ptr \<Rightarrow> UINTN \<Rightarrow> 'e \<Rightarrow> 'e"
  GetMemoryMap :: "ptr \<Rightarrow> map_args \<Rightarrow> ptr \<Rightarrow> 'e \<Rightarrow> EFI_STATUS \<times> map_args \<times> 'e"
  AllocatePool :: "ptr \<Rightarrow> UINT32 \<Rightarrow> UINTN \<Rightarrow> heap \<times> 'e \<Rightarrow> EFI_STATUS \<times> ptr option \<times> heap \<times> 'e"
  FreePool :: "ptr \<Rightarrow> ptr \<Rightarrow> 'e \<Rightarrow> 'e"
  HandleProtocol :: "ptr \<Rightarrow> EFI_HANDLE \<Rightarrow> EFI_GUID \<Rightarrow> 'e \<Rightarrow> EFI_STATUS \<times> 'e EFI_PCI_IO_PROTOCOL option \<times> 'e"
  LocateHandleBuffer :: "ptr \<Rightarrow> UINT32 \<Rightarrow> EFI_GUID \<Rightarrow> 'e \<Rightarrow> EFI_STATUS \<times> UINTN \<times> (ptr \<times> EFI_HANDLE list) option \<times> 'e"
  ExitBootServices :: "ptr \<Rightarrow> EFI_HANDLE \<Rightarrow> UINTN \<Rightarrow> 'e \<Rightarrow> EFI_STATUS \<times> 'e"
  rdtsc :: "'e \<Rightarrow> UINT64 \<times> 'e"

subsection \<open>The framebuffer\<close>

text \<open>The status, what was stored through \<open>framebufferInfo\<close> and the stall service.\<close>

definition InitializeFramebuffer ::
  "'e FIRMWARE \<Rightarrow> ptr \<Rightarrow> FRAMEBUFFER_INFO \<Rightarrow> 'e \<Rightarrow> (EFI_STATUS \<times> FRAMEBUFFER_INFO \<times> ptr \<times> 'e) option" where
  "InitializeFramebuffer F systemTable fb e = do {
     bootServicesBytes \<leftarrow> read64 F e (systemTable + EFI_SYSTEM_TABLE_BOOT_SERVICES_OFFSET);
     locateProtocol \<leftarrow> read64 F e (bootServicesBytes + EFI_BOOT_SERVICES_LOCATE_PROTOCOL_OFFSET);
     stall \<leftarrow> read64 F e (bootServicesBytes + EFI_BOOT_SERVICES_STALL_OFFSET);
     let (status, graphicsOutputProtocol, e) = LocateProtocol F locateProtocol gGraphicsOutputProtocolGuid e;
     if status \<noteq> EFI_SUCCESS \<or> graphicsOutputProtocol = 0
     then Some (if status \<noteq> EFI_SUCCESS then status else EFI_UNSUPPORTED, fb, stall, e)
     else do {
       modeBytes \<leftarrow> read64 F e (graphicsOutputProtocol + GOP_MODE_OFFSET);
       infoBytes \<leftarrow> read64 F e (modeBytes + GOP_MODE_INFO_OFFSET);
       width \<leftarrow> read32 F e (infoBytes + GOP_INFO_HORIZONTAL_RESOLUTION_OFFSET);
       height \<leftarrow> read32 F e (infoBytes + GOP_INFO_VERTICAL_RESOLUTION_OFFSET);
       pixelFormat \<leftarrow> read32 F e (infoBytes + GOP_INFO_PIXEL_FORMAT_OFFSET);
       scanLine \<leftarrow> read32 F e (infoBytes + GOP_INFO_PIXELS_PER_SCANLINE_OFFSET);
       redMask \<leftarrow> read32 F e (infoBytes + GOP_INFO_RED_MASK_OFFSET);
       greenMask \<leftarrow> read32 F e (infoBytes + GOP_INFO_GREEN_MASK_OFFSET);
       blueMask \<leftarrow> read32 F e (infoBytes + GOP_INFO_BLUE_MASK_OFFSET);
       let fb = fb\<lparr>ScreenWidth := width, ScreenHeight := height, PixelFormat := pixelFormat,
                   PixelsPerScanLine := scanLine, RedMask := redMask, GreenMask := greenMask, BlueMask := blueMask\<rparr>;
       if PixelFormat fb = GOP_PIXEL_BLT_ONLY then Some (EFI_UNSUPPORTED, fb, stall, e)
       else do {
         base \<leftarrow> read64 F e (modeBytes + GOP_MODE_FRAMEBUFFER_BASE_OFFSET);
         framebufferSizeBytes \<leftarrow> read64 F e (modeBytes + GOP_MODE_FRAMEBUFFER_SIZE_OFFSET);
         let fb = fb\<lparr>Framebuffer := base\<rparr>;
         let maxPixels = (ucast (framebufferSizeBytes div 4) :: UINT32);
         let totalPixels = PixelsPerScanLine fb * ScreenHeight fb;
         if totalPixels > maxPixels then Some (EFI_UNSUPPORTED, fb, stall, e)
         else Some (EFI_SUCCESS, fb, stall, e) } } }"

definition EstimateTscTicksPerSecond :: "'e FIRMWARE \<Rightarrow> ptr \<Rightarrow> 'e \<Rightarrow> UINT64 \<times> 'e" where
  "EstimateTscTicksPerSecond F stall e =
     (if stall = 0 then (0, e)
      else
        let (startTicks, e) = rdtsc F e;
            e = Stall F stall 50000 e;
            (endTicks, e) = rdtsc F e;
            deltaTicks = endTicks - startTicks
        in if deltaTicks = 0 then (0, e) else (deltaTicks * 20, e))"

subsection \<open>PCI devices\<close>

definition or_zero :: "UINTN option \<Rightarrow> UINTN" where
  "or_zero v = (case v of None \<Rightarrow> 0 | Some x \<Rightarrow> x)"

text \<open>What the identification and class registers say of a device; nothing for a device to skip.\<close>

definition PciKind :: "UINT8 \<Rightarrow> UINT8" where
  "PciKind classCode =
     (if classCode = 0x03 then KERNEL_PCI_KIND_GPU else if classCode = 0x04 then KERNEL_PCI_KIND_AUDIO else 0)"

definition DecodePciDevice :: "UINT32 \<Rightarrow> UINT32 \<Rightarrow> PCI_DEVICE_INFO option" where
  "DecodePciDevice idRegister classRegister =
     (let vendorId = ucast (idRegister AND 0xFFFF);
          deviceId = ucast (drop_bit 16 idRegister AND 0xFFFF)
      in if vendorId = 0xFFFF then None
         else
           let classCode = ucast (drop_bit 24 classRegister AND 0xFF);
               subclass = ucast (drop_bit 16 classRegister AND 0xFF);
               progIf = ucast (drop_bit 8 classRegister AND 0xFF);
               kind = PciKind classCode
           in if kind = 0 then None
              else Some \<lparr>VendorId = vendorId, DeviceId = deviceId, ClassCode = classCode, Subclass = subclass,
                        ProgIf = progIf, Kind = kind, Segment = 0, Bus = 0, Device = 0, Function = 0\<rparr>)"

text \<open>Counting a device, and storing its entry while the array has room.\<close>

definition CountPciDevice :: "PCI_DEVICE_INFO \<Rightarrow> KERNEL_BOOT_INFO \<Rightarrow> KERNEL_BOOT_INFO" where
  "CountPciDevice entry b =
     (if Kind entry = KERNEL_PCI_KIND_GPU then b\<lparr>GpuCount := GpuCount b + 1\<rparr>
      else b\<lparr>AudioCount := AudioCount b + 1\<rparr>)"

definition StorePciDevice :: "PCI_DEVICE_INFO \<Rightarrow> KERNEL_BOOT_INFO \<Rightarrow> KERNEL_BOOT_INFO option" where
  "StorePciDevice entry b =
     (if PciDeviceCount b < 32 then do {
        devices \<leftarrow> wr (PciDevices b) (ucast (PciDeviceCount b)) entry;
        Some (b\<lparr>PciDevices := devices, PciDeviceCount := PciDeviceCount b + 1\<rparr>) }
      else Some b)"

text \<open>One handle of the list.  A register that the firmware does not store keeps its preset value.\<close>

definition CollectPciDevice ::
  "'e FIRMWARE \<Rightarrow> ptr \<Rightarrow> EFI_HANDLE \<Rightarrow> KERNEL_BOOT_INFO \<times> 'e \<Rightarrow> (KERNEL_BOOT_INFO \<times> 'e) option" where
  "CollectPciDevice F handleProtocol handle = (\<lambda>(b, e).
     let (status, pciIo, e) = HandleProtocol F handleProtocol handle gPciIoProtocolGuid e in
     if status \<noteq> EFI_SUCCESS then Some (b, e)
     else case pciIo of
       None \<Rightarrow> Some (b, e)
     | Some io \<Rightarrow>
         case PciRead io of
           None \<Rightarrow> Some (b, e)
         | Some read \<Rightarrow>
             let (status, idOut, e) = read EFI_PCI_IO_PROTOCOL_WIDTH_UINT32 0 1 e in
             if status \<noteq> EFI_SUCCESS then Some (b, e)
             else
               let (status, classOut, e) = read EFI_PCI_IO_PROTOCOL_WIDTH_UINT32 8 1 e in
               if status \<noteq> EFI_SUCCESS then Some (b, e)
               else case DecodePciDevice (case idOut of None \<Rightarrow> 0xFFFFFFFF | Some v \<Rightarrow> v)
                           (case classOut of None \<Rightarrow> 0 | Some v \<Rightarrow> v) of
                 None \<Rightarrow> Some (b, e)
               | Some entry \<Rightarrow>
                   let b = CountPciDevice entry b;
                       ((segment, bus, device, function), e) =
                         (case GetLocation io of
                            None \<Rightarrow> ((None, None, None, None), e)
                          | Some locate \<Rightarrow> snd (locate e));
                       entry = entry\<lparr>Segment := ucast (or_zero segment), Bus := ucast (or_zero bus),
                                     Device := ucast (or_zero device), Function := ucast (or_zero function)\<rparr>
                   in do { b \<leftarrow> StorePciDevice entry b; Some (b, e) })"

fun CollectPciDevices_loop ::
  "'e FIRMWARE \<Rightarrow> ptr \<Rightarrow> EFI_HANDLE list \<Rightarrow> KERNEL_BOOT_INFO \<times> 'e \<Rightarrow> (KERNEL_BOOT_INFO \<times> 'e) option" where
  "CollectPciDevices_loop F handleProtocol [] s = Some s"
| "CollectPciDevices_loop F handleProtocol (handle # handles) s = do {
     s \<leftarrow> CollectPciDevice F handleProtocol handle s;
     CollectPciDevices_loop F handleProtocol handles s }"

text \<open>
  The firmware returns a buffer and its contents; it must hold the \<open>HandleCount\<close> handles that
  the loop reads.
\<close>

definition CollectPciDevices ::
  "'e FIRMWARE \<Rightarrow> ptr \<Rightarrow> ptr \<Rightarrow> ptr \<Rightarrow> KERNEL_BOOT_INFO \<times> 'e \<Rightarrow> (KERNEL_BOOT_INFO \<times> 'e) option" where
  "CollectPciDevices F locateHandleBuffer handleProtocol freePool = (\<lambda>(b, e).
     let (status, handleCount, handles, e) =
           LocateHandleBuffer F locateHandleBuffer EFI_BY_PROTOCOL gPciIoProtocolGuid e in
     if status \<noteq> EFI_SUCCESS then Some (b, e)
     else case handles of
       None \<Rightarrow> Some (b, e)
     | Some (buffer, handles) \<Rightarrow>
         if unat handleCount \<le> length handles then do {
           (b, e) \<leftarrow> CollectPciDevices_loop F handleProtocol (take (unat handleCount) handles) (b, e);
           Some (b, FreePool F freePool buffer e) }
         else None)"

subsection \<open>Leaving boot services\<close>

text \<open>The loop ends when the firmware accepts the key, or fails with something else than a stale key.\<close>

partial_function (option) ExitBootServices_loop ::
  "'e FIRMWARE \<Rightarrow> EFI_HANDLE \<Rightarrow> ptr \<Rightarrow> ptr \<Rightarrow> ptr \<Rightarrow> UINTN \<Rightarrow> map_args \<Rightarrow> KERNEL_BOOT_INFO \<Rightarrow> 'e \<Rightarrow>
   (EFI_STATUS \<times> KERNEL_BOOT_INFO \<times> 'e) option" where
  "ExitBootServices_loop F imageHandle getMemoryMap exitBootServices memoryMap memoryMapSize args b e =
     (case GetMemoryMap F getMemoryMap (args\<lparr>MapSize := memoryMapSize\<rparr>) memoryMap e of (status, args, e) \<Rightarrow>
        if status \<noteq> EFI_SUCCESS then Some (status, b, e)
        else
          let b = b\<lparr>MemoryMap := memoryMap, MemoryMapSize := MapSize args, MemoryMapKey := MapKey args,
                    MemoryDescriptorSize := DescriptorSize args, MemoryDescriptorVersion := DescriptorVersion args,
                    MemoryDescriptorCount := (if DescriptorSize args = 0 then 0 else MapSize args div DescriptorSize args)\<rparr>
          in case ExitBootServices F exitBootServices imageHandle (MapKey args) e of (status, e) \<Rightarrow>
            if status = EFI_SUCCESS then Some (EFI_SUCCESS, b, e)
            else if status \<noteq> EFI_INVALID_PARAMETER then Some (status, b, e)
            else ExitBootServices_loop F imageHandle getMemoryMap exitBootServices memoryMap memoryMapSize args b e)"

definition ExitBootServicesForKernel ::
  "'e FIRMWARE \<Rightarrow> EFI_HANDLE \<Rightarrow> ptr \<Rightarrow> ptr \<Rightarrow> ptr \<Rightarrow> KERNEL_BOOT_INFO \<Rightarrow> heap \<times> 'e \<Rightarrow>
   (EFI_STATUS \<times> KERNEL_BOOT_INFO \<times> heap \<times> 'e) option" where
  "ExitBootServicesForKernel F imageHandle getMemoryMap allocatePool exitBootServices b = (\<lambda>(h, e).
     case GetMemoryMap F getMemoryMap \<lparr>MapSize = 0, MapKey = 0, DescriptorSize = 0, DescriptorVersion = 0\<rparr> 0 e
     of (status, args, e) \<Rightarrow>
       if status \<noteq> EFI_BUFFER_TOO_SMALL then Some (status, b, h, e)
       else
         let memoryMapSize = MapSize args + DescriptorSize args * 8 in
         case AllocatePool F allocatePool EFI_BOOT_SERVICES_DATA memoryMapSize (h, e) of (status, memoryMap, h, e) \<Rightarrow>
           if status \<noteq> EFI_SUCCESS then Some (status, b, h, e)
           else do {
             (status, b, e) \<leftarrow> ExitBootServices_loop F imageHandle getMemoryMap exitBootServices
                (case memoryMap of None \<Rightarrow> 0 | Some p \<Rightarrow> p) memoryMapSize args b e;
             Some (status, b, h, e) })"

subsection \<open>The framebuffer that was found\<close>

lemma ret_eqI: "(\<And>x. m = Some x \<Longrightarrow> Q x) \<Longrightarrow> ret Q m"
  by (simp add: ret_def split: option.split)

lemma InitializeFramebuffer_ret:
  "ret (\<lambda>(status, fb, stall, e'). status = EFI_SUCCESS \<longrightarrow>
     (\<exists>mode size. read64 F e' (mode + GOP_MODE_FRAMEBUFFER_BASE_OFFSET) = Some (Framebuffer fb) \<and>
        read64 F e' (mode + GOP_MODE_FRAMEBUFFER_SIZE_OFFSET) = Some size \<and> PixelFormat fb \<noteq> GOP_PIXEL_BLT_ONLY \<and>
        PixelsPerScanLine fb * ScreenHeight fb \<le> ucast (size div 4)))
   (InitializeFramebuffer F st fb0 e)"
  unfolding InitializeFramebuffer_def Let_def ret_simps
  by (auto simp: not_less split: prod.split intro!: ret_eqI)

lemma InitializeFramebuffer_ok:
  assumes "InitializeFramebuffer F st fb0 e = Some (EFI_SUCCESS, fb, stall, e')"
  shows "\<exists>mode size. read64 F e' (mode + GOP_MODE_FRAMEBUFFER_BASE_OFFSET) = Some (Framebuffer fb) \<and>
     read64 F e' (mode + GOP_MODE_FRAMEBUFFER_SIZE_OFFSET) = Some size \<and> PixelFormat fb \<noteq> GOP_PIXEL_BLT_ONLY \<and>
     PixelsPerScanLine fb * ScreenHeight fb \<le> ucast (size div 4)"
  using retD [OF InitializeFramebuffer_ret assms] by simp

text \<open>
  The check compares 32-bit products.  When neither the pixel count nor the size of the
  framebuffer in pixels exceeds 32 bits, it means what it says: every row is inside.
\<close>

lemma InitializeFramebuffer_inside:
  assumes r: "InitializeFramebuffer F st fb0 e = Some (EFI_SUCCESS, fb, stall, e')"
    and w: "unat (PixelsPerScanLine fb) * unat (ScreenHeight fb) < 4294967296"
  shows "\<exists>mode size. read64 F e' (mode + GOP_MODE_FRAMEBUFFER_SIZE_OFFSET) = Some size \<and>
     read64 F e' (mode + GOP_MODE_FRAMEBUFFER_BASE_OFFSET) = Some (Framebuffer fb) \<and>
     4 * unat (PixelsPerScanLine fb * ScreenHeight fb) \<le> unat size \<and>
     unat (PixelsPerScanLine fb * ScreenHeight fb) = unat (PixelsPerScanLine fb) * unat (ScreenHeight fb)"
proof -
  obtain mode size where m: "read64 F e' (mode + GOP_MODE_FRAMEBUFFER_BASE_OFFSET) = Some (Framebuffer fb)"
    "read64 F e' (mode + GOP_MODE_FRAMEBUFFER_SIZE_OFFSET) = Some size"
    "PixelsPerScanLine fb * ScreenHeight fb \<le> ucast (size div 4)"
    using InitializeFramebuffer_ok [OF r] by blast
  have "unat (ucast (size div 4) :: UINT32) \<le> unat (size div 4)"
    by (simp add: unsigned_ucast_eq take_bit_nat_eq_self_iff take_bit_eq_mod)
  also have "\<dots> = unat size div 4" by (simp add: unat_div)
  finally have "4 * unat (PixelsPerScanLine fb * ScreenHeight fb) \<le> unat size"
    using m(3) by (simp add: word_le_nat_alt)
  moreover have "unat (PixelsPerScanLine fb * ScreenHeight fb) = unat (PixelsPerScanLine fb) * unat (ScreenHeight fb)"
    using w by (intro unat_mult32) simp
  ultimately show ?thesis using m by blast
qed

subsection \<open>PCI registers\<close>

definition pci_id :: "UINT16 \<Rightarrow> UINT16 \<Rightarrow> UINT32" where
  "pci_id vendor device = push_bit 16 (ucast device) OR ucast vendor"

definition pci_class :: "UINT8 \<Rightarrow> UINT8 \<Rightarrow> UINT8 \<Rightarrow> UINT8 \<Rightarrow> UINT32" where
  "pci_class cls sub prog revision =
     push_bit 24 (ucast cls) OR push_bit 16 (ucast sub) OR push_bit 8 (ucast prog) OR ucast revision"

lemma pci_id_fields:
  "(ucast (pci_id v d AND 0xFFFF) :: UINT16) = v" "(ucast (drop_bit 16 (pci_id v d) AND 0xFFFF) :: UINT16) = d"
proof -
  have m: "(0xFFFF :: UINT32) = mask 16" by (simp add: mask_eq_exp_minus_1)
  show "(ucast (pci_id v d AND 0xFFFF) :: UINT16) = v" "(ucast (drop_bit 16 (pci_id v d) AND 0xFFFF) :: UINT16) = d"
    unfolding m by (rule bit_word_eqI; auto simp: pci_id_def bit_simps dest: bit_imp_le_length)+
qed

lemma pci_class_fields:
  "(ucast (drop_bit 24 (pci_class c s p r) AND 0xFF) :: UINT8) = c"
  "(ucast (drop_bit 16 (pci_class c s p r) AND 0xFF) :: UINT8) = s"
  "(ucast (drop_bit 8 (pci_class c s p r) AND 0xFF) :: UINT8) = p"
proof -
  have m: "(0xFF :: UINT32) = mask 8" by (simp add: mask_eq_exp_minus_1)
  show "(ucast (drop_bit 24 (pci_class c s p r) AND 0xFF) :: UINT8) = c"
    "(ucast (drop_bit 16 (pci_class c s p r) AND 0xFF) :: UINT8) = s"
    "(ucast (drop_bit 8 (pci_class c s p r) AND 0xFF) :: UINT8) = p"
    unfolding m by (rule bit_word_eqI; auto simp: pci_class_def bit_simps dest: bit_imp_le_length)+
qed

text \<open>Decoding the registers of a display or audio function gives its fields back; others are skipped.\<close>

lemma DecodePciDevice_roundtrip:
  "DecodePciDevice (pci_id v d) (pci_class c s p r) =
     (if v \<noteq> 0xFFFF \<and> (c = 3 \<or> c = 4)
      then Some \<lparr>VendorId = v, DeviceId = d, ClassCode = c, Subclass = s, ProgIf = p, Kind = (if c = 3 then 1 else 2),
                Segment = 0, Bus = 0, Device = 0, Function = 0\<rparr>
      else None)"
  by (auto simp: DecodePciDevice_def Let_def pci_id_fields pci_class_fields PciKind_def pci_defs)

subsection \<open>The device table\<close>

definition entry_ok :: "PCI_DEVICE_INFO \<Rightarrow> bool" where
  "entry_ok d \<longleftrightarrow> VendorId d \<noteq> 0xFFFF \<and>
     (Kind d = KERNEL_PCI_KIND_GPU \<and> ClassCode d = 3 \<or> Kind d = KERNEL_PCI_KIND_AUDIO \<and> ClassCode d = 4)"

definition found :: "KERNEL_BOOT_INFO \<Rightarrow> nat" where
  "found b = unat (GpuCount b) + unat (AudioCount b)"

definition entries :: "KERNEL_BOOT_INFO \<Rightarrow> PCI_DEVICE_INFO list" where
  "entries b = take (unat (PciDeviceCount b)) (PciDevices b)"

text \<open>
  The table holds the first 32 of the devices counted; while it has not overflowed, the number
  of display adapters is the number of their entries.
\<close>

definition pci_table_ok :: "KERNEL_BOOT_INFO \<Rightarrow> bool" where
  "pci_table_ok b \<longleftrightarrow> length (PciDevices b) = 32 \<and> unat (PciDeviceCount b) = min 32 (found b) \<and>
     (\<forall>d \<in> set (entries b). entry_ok d) \<and>
     (found b \<le> 32 \<longrightarrow> unat (GpuCount b) = length (filter (\<lambda>d. Kind d = KERNEL_PCI_KIND_GPU) (entries b)))"

lemma DecodePciDevice_entry_ok: "DecodePciDevice i c = Some d \<Longrightarrow> entry_ok d"
  by (auto simp: DecodePciDevice_def Let_def PciKind_def entry_ok_def pci_defs split: if_splits)

lemma unat_inc64: "unat (x :: UINT64) < 18446744073709551615 \<Longrightarrow> unat (x + 1) = Suc (unat x)"
  by (subst unat_add32) simp_all

lemma CountPciDevice_simps [simp]:
  "PciDevices (CountPciDevice d b) = PciDevices b" "PciDeviceCount (CountPciDevice d b) = PciDeviceCount b"
  "entries (CountPciDevice d b) = entries b"
  by (simp_all add: CountPciDevice_def entries_def)

lemma CountPciDevice_found:
  "found b < 18446744073709551615 \<Longrightarrow> found (CountPciDevice d b) = Suc (found b)"
  by (simp add: found_def CountPciDevice_def unat_inc64)

lemma CountPciDevice_gpus:
  "found b < 18446744073709551615 \<Longrightarrow> unat (GpuCount (CountPciDevice d b)) =
     unat (GpuCount b) + (if Kind d = KERNEL_PCI_KIND_GPU then 1 else 0)"
  by (simp add: found_def CountPciDevice_def unat_inc64)

definition same_rest :: "KERNEL_BOOT_INFO \<Rightarrow> KERNEL_BOOT_INFO \<Rightarrow> bool" where
  "same_rest b c \<longleftrightarrow> (\<exists>g a n ds. c = b\<lparr>GpuCount := g, AudioCount := a, PciDeviceCount := n, PciDevices := ds\<rparr>)"

lemma same_rest_refl [simp]: "same_rest b b"
  unfolding same_rest_def
  by (rule exI [of _ "GpuCount b"], rule exI [of _ "AudioCount b"], rule exI [of _ "PciDeviceCount b"],
      rule exI [of _ "PciDevices b"]) simp

lemma same_rest_trans: "same_rest a b \<Longrightarrow> same_rest b c \<Longrightarrow> same_rest a c"
  unfolding same_rest_def by (cases a) auto

lemma StorePciDevice_table:
  assumes b: "pci_table_ok b" and n: "found b < 18446744073709551615" and d: "entry_ok d" and k: "Kind d' = Kind d"
    "entry_ok d'"
  shows "wp (\<lambda>c. pci_table_ok c \<and> found c = Suc (found b) \<and> same_rest b c) (StorePciDevice d' (CountPciDevice d b))"
proof -
  let ?b = "CountPciDevice d b"
  have len: "length (PciDevices b) = 32" and cnt: "unat (PciDeviceCount b) = min 32 (found b)"
    and es: "\<forall>d \<in> set (entries b). entry_ok d"
    and gp: "found b \<le> 32 \<Longrightarrow> unat (GpuCount b) = length (filter (\<lambda>d. Kind d = KERNEL_PCI_KIND_GPU) (entries b))"
    using b by (simp_all add: pci_table_ok_def)
  have rest: "same_rest b (CountPciDevice d b\<lparr>PciDevices := ds, PciDeviceCount := m\<rparr>)" for ds m
    unfolding same_rest_def CountPciDevice_def by (cases b) auto
  have rest0: "same_rest b (CountPciDevice d b)"
    unfolding same_rest_def CountPciDevice_def by (cases b) auto
  show ?thesis
  proof (cases "PciDeviceCount b < 32")
    case True
    then have lt: "unat (PciDeviceCount b) < 32" by (simp add: word_less_nat_alt)
    then have f: "unat (PciDeviceCount b) = found b" "found b < 32" using cnt by auto
    have ix: "unat (ucast (PciDeviceCount b) :: UINT32) = found b"
      using f by (simp add: unsigned_ucast_eq take_bit_nat_eq_self_iff)
    have c1: "unat (PciDeviceCount b + 1) = Suc (found b)" using f by (simp add: unat_inc64)
    let ?c = "?b\<lparr>PciDevices := (PciDevices b)[found b := d'], PciDeviceCount := PciDeviceCount b + 1\<rparr>"
    have ec: "entries ?c = entries b @ [d']"
      using f len c1 by (simp add: entries_def take_Suc_conv_app_nth)
    have fc: "found ?c = Suc (found b)" using CountPciDevice_found [OF n, of d] by (simp add: found_def)
    have gc: "unat (GpuCount ?c) = unat (GpuCount b) + (if Kind d = KERNEL_PCI_KIND_GPU then 1 else 0)"
      using CountPciDevice_gpus [OF n, of d] by simp
    have "pci_table_ok ?c"
      unfolding pci_table_ok_def ec fc gc using f len c1 es gp k by auto
    then show ?thesis
      using True f len fc rest by (simp add: StorePciDevice_def wr_def ix)
  next
    case False
    then have "32 \<le> unat (PciDeviceCount b)" by (simp add: word_less_nat_alt)
    then have f: "32 \<le> found b" using cnt by auto
    have "found ?b = Suc (found b)" using n by (rule CountPciDevice_found)
    moreover from this have "pci_table_ok ?b"
      using f len cnt es by (simp add: pci_table_ok_def)
    ultimately show ?thesis using False rest0
      by (simp add: StorePciDevice_def)
  qed
qed

lemma CollectPciDevice_table:
  assumes b: "pci_table_ok b" and n: "found b < 18446744073709551615"
  shows "wp (\<lambda>(c, e'). pci_table_ok c \<and> found c \<le> Suc (found b) \<and> same_rest b c) (CollectPciDevice F hp dev (b, e))"
proof -
  have st: "wp (\<lambda>c. pci_table_ok c \<and> found c \<le> Suc (found b) \<and> same_rest b c)
      (StorePciDevice (d\<lparr>Segment := x, Bus := y, Device := z, Function := w\<rparr>) (CountPciDevice d b))"
    if "DecodePciDevice i k = Some d" for i k d x y z w
    by (rule wp_mono [OF StorePciDevice_table [OF b n DecodePciDevice_entry_ok [OF that]]])
       (use DecodePciDevice_entry_ok [OF that] in \<open>simp_all add: entry_ok_def\<close>)
  show ?thesis
    unfolding CollectPciDevice_def prod.case Let_def
    using b by (auto split: prod.split option.split dest!: st elim!: wp_mono)
qed

lemma CollectPciDevices_loop_table:
  "pci_table_ok b \<Longrightarrow> found b + length hs < 18446744073709551616 \<Longrightarrow>
   wp (\<lambda>(c, e'). pci_table_ok c \<and> found c \<le> found b + length hs \<and> same_rest b c) (CollectPciDevices_loop F hp hs (b, e))"
proof (induction hs arbitrary: b e)
  case (Cons dev hs)
  have "wp (\<lambda>x. wp (\<lambda>(c, e'). pci_table_ok c \<and> found c \<le> found b + length (dev # hs) \<and> same_rest b c)
      (CollectPciDevices_loop F hp hs x)) (CollectPciDevice F hp dev (b, e))"
  proof (rule wp_mono [OF CollectPciDevice_table [OF Cons.prems(1)]], goal_cases)
    case (2 x)
    obtain c e1 where x: "x = (c, e1)" by fastforce
    have c: "pci_table_ok c" "found c \<le> Suc (found b)" "same_rest b c" using 2 by (simp_all add: x)
    have "wp (\<lambda>(c, e'). pci_table_ok c \<and> found c \<le> found b + length (dev # hs) \<and> same_rest b c)
        (CollectPciDevices_loop F hp hs (c, e1))"
      by (rule wp_mono [OF Cons.IH]) (use c Cons.prems same_rest_trans [OF c(3)] in auto)
    then show ?case by (simp add: x)
  qed (use Cons.prems in simp)
  then show ?case by simp
qed simp

text \<open>From empty counters, with a buffer that holds what the firmware says it does.\<close>

lemma CollectPciDevices_table:
  assumes b: "length (PciDevices b) = 32" "GpuCount b = 0" "AudioCount b = 0" "PciDeviceCount b = 0"
    and buf: "\<And>s n p hs e'. LocateHandleBuffer F lhb EFI_BY_PROTOCOL gPciIoProtocolGuid e = (s, n, Some (p, hs), e') \<Longrightarrow>
      s = EFI_SUCCESS \<Longrightarrow> unat n \<le> length hs"
  shows "wp (\<lambda>(c, e'). pci_table_ok c \<and> same_rest b c) (CollectPciDevices F lhb hp fp (b, e))"
proof -
  have b0: "pci_table_ok b" "found b = 0" using b by (simp_all add: pci_table_ok_def found_def entries_def)
  obtain s n hs e1 where l: "LocateHandleBuffer F lhb EFI_BY_PROTOCOL gPciIoProtocolGuid e = (s, n, hs, e1)"
    by (metis prod_cases4)
  show ?thesis
  proof (cases "s = EFI_SUCCESS \<and> hs \<noteq> None")
    case False
    then have "s \<noteq> EFI_SUCCESS \<or> hs = None" by blast
    then show ?thesis using b0 by (auto simp: CollectPciDevices_def l)
  next
    case True
    then obtain p hl where h: "s = EFI_SUCCESS" "hs = Some (p, hl)" by auto
    have le: "unat n \<le> length hl" using buf l h by blast
    then have "found b + length (take (unat n) hl) < 18446744073709551616" using b0 by simp
    from CollectPciDevices_loop_table [OF b0(1) this]
    have "wp (\<lambda>(c, e'). pci_table_ok c \<and> same_rest b c) (CollectPciDevices_loop F hp (take (unat n) hl) (b, e1))"
      by (rule wp_mono) auto
    then show ?thesis using l h le by (simp add: CollectPciDevices_def case_prod_unfold)
  qed
qed

subsection \<open>The key that was accepted\<close>

text \<open>
  One attempt: \<open>Inl\<close> a result, or \<open>Inr\<close> the arguments, boot information and state with which
  the loop goes round again.
\<close>

definition ExitAttempt ::
  "'e FIRMWARE \<Rightarrow> EFI_HANDLE \<Rightarrow> ptr \<Rightarrow> ptr \<Rightarrow> ptr \<Rightarrow> UINTN \<Rightarrow> map_args \<times> KERNEL_BOOT_INFO \<times> 'e \<Rightarrow>
   (EFI_STATUS \<times> KERNEL_BOOT_INFO \<times> 'e) + (map_args \<times> KERNEL_BOOT_INFO \<times> 'e)" where
  "ExitAttempt F ih gmm ebs mm sz = (\<lambda>(args, b, e).
     case GetMemoryMap F gmm (args\<lparr>MapSize := sz\<rparr>) mm e of (status, args, e) \<Rightarrow>
        if status \<noteq> EFI_SUCCESS then Inl (status, b, e)
        else
          let b = b\<lparr>MemoryMap := mm, MemoryMapSize := MapSize args, MemoryMapKey := MapKey args,
                    MemoryDescriptorSize := DescriptorSize args, MemoryDescriptorVersion := DescriptorVersion args,
                    MemoryDescriptorCount := (if DescriptorSize args = 0 then 0 else MapSize args div DescriptorSize args)\<rparr>
          in case ExitBootServices F ebs ih (MapKey args) e of (status, e) \<Rightarrow>
            if status = EFI_SUCCESS \<or> status \<noteq> EFI_INVALID_PARAMETER then Inl (status, b, e)
            else Inr (args, b, e))"

lemma ExitBootServices_loop_attempt:
  "ExitBootServices_loop F ih gmm ebs mm sz args b e =
     (case ExitAttempt F ih gmm ebs mm sz (args, b, e) of
        Inl r \<Rightarrow> Some r
      | Inr (args, b, e) \<Rightarrow> ExitBootServices_loop F ih gmm ebs mm sz args b e)"
  by (subst ExitBootServices_loop.simps) (auto simp: ExitAttempt_def Let_def split: prod.split)

text \<open>The loop returns exactly the result of the first attempt that is not told to retry.\<close>

inductive exits ::
  "(map_args \<times> KERNEL_BOOT_INFO \<times> 'e \<Rightarrow> (EFI_STATUS \<times> KERNEL_BOOT_INFO \<times> 'e) + (map_args \<times> KERNEL_BOOT_INFO \<times> 'e)) \<Rightarrow>
   map_args \<times> KERNEL_BOOT_INFO \<times> 'e \<Rightarrow> EFI_STATUS \<times> KERNEL_BOOT_INFO \<times> 'e \<Rightarrow> bool" for attempt where
  now: "attempt s = Inl r \<Longrightarrow> exits attempt s r"
| again: "attempt s = Inr s' \<Longrightarrow> exits attempt s' r \<Longrightarrow> exits attempt s r"

inductive_cases exits_retry: "exits attempt s r"

lemma exits_loop:
  "exits (ExitAttempt F ih gmm ebs mm sz) s r \<Longrightarrow>
   (case s of (args, b, e) \<Rightarrow> ExitBootServices_loop F ih gmm ebs mm sz args b e) = Some r"
proof (induction rule: exits.induct)
  case (now s r)
  then show ?case by (cases s) (subst ExitBootServices_loop_attempt, simp)
next
  case (again s s' r)
  then show ?case by (cases s) (subst ExitBootServices_loop_attempt, simp split: prod.split_asm)
qed

text \<open>
  Success means that the key the firmware accepted is the one recorded, and that it came from a
  \<open>GetMemoryMap\<close> with nothing in between: the recorded map is the final one.
\<close>

definition final_map ::
  "'e FIRMWARE \<Rightarrow> EFI_HANDLE \<Rightarrow> ptr \<Rightarrow> ptr \<Rightarrow> ptr \<Rightarrow> UINTN \<Rightarrow> KERNEL_BOOT_INFO \<Rightarrow> 'e \<Rightarrow> bool" where
  "final_map F ih gmm ebs mm sz b e' \<longleftrightarrow>
     (\<exists>args args' e0 e1. GetMemoryMap F gmm (args\<lparr>MapSize := sz\<rparr>) mm e0 = (EFI_SUCCESS, args', e1) \<and>
        ExitBootServices F ebs ih (MapKey args') e1 = (EFI_SUCCESS, e') \<and>
        MemoryMap b = mm \<and> MemoryMapKey b = MapKey args' \<and> MemoryMapSize b = MapSize args' \<and>
        MemoryDescriptorSize b = DescriptorSize args' \<and>
        MemoryDescriptorCount b = (if DescriptorSize args' = 0 then 0 else MapSize args' div DescriptorSize args'))"

lemma ExitAttempt_final:
  "ExitAttempt F ih gmm ebs mm sz s = Inl (EFI_SUCCESS, b, e') \<Longrightarrow> final_map F ih gmm ebs mm sz b e'"
  by (cases s) (auto simp: ExitAttempt_def final_map_def Let_def split: prod.splits if_splits; blast)

lemma loop_exits:
  assumes "ExitBootServices_loop F ih gmm ebs mm sz args b e = Some r"
  shows "exits (ExitAttempt F ih gmm ebs mm sz) (args, b, e) r"
proof (rule ExitBootServices_loop.raw_induct
    [where P = "\<lambda>F ih gmm ebs mm sz args b e r. exits (ExitAttempt F ih gmm ebs mm sz) (args, b, e) r", OF _ assms],
    goal_cases)
  case (1 loop F ih gmm ebs mm sz args b e r)
  have h: "ExitAttempt F ih gmm ebs mm sz (args, b, e) = Inl r \<or>
      (\<exists>args' b' e'. ExitAttempt F ih gmm ebs mm sz (args, b, e) = Inr (args', b', e') \<and>
         loop F ih gmm ebs mm sz args' b' e' = Some r)"
    using 1(2) efi_status_distinct(3) [symmetric]
    by (auto simp: ExitAttempt_def Let_def split: prod.splits if_splits)
  then show ?case using 1(1) by (blast intro: exits.intros)
qed

lemma exits_final:
  "exits (ExitAttempt F ih gmm ebs mm sz) s r \<Longrightarrow> fst r = EFI_SUCCESS \<Longrightarrow>
   final_map F ih gmm ebs mm sz (fst (snd r)) (snd (snd r))"
proof (induction rule: exits.induct)
  case (now s r)
  then show ?case by (cases r) (auto intro: ExitAttempt_final)
qed

text \<open>
  A memory map is never empty, so the sizing call with a size of 0 does not succeed.  (If it
  did, the function would return success without leaving boot services.)
\<close>

lemma ExitBootServicesForKernel_final:
  assumes "ExitBootServicesForKernel F ih gmm ap ebs b (h, e) = Some (EFI_SUCCESS, c, h', e')"
    and sizing: "fst (GetMemoryMap F gmm \<lparr>MapSize = 0, MapKey = 0, DescriptorSize = 0, DescriptorVersion = 0\<rparr> 0 e) \<noteq> EFI_SUCCESS"
  shows "\<exists>mm sz. final_map F ih gmm ebs mm sz c e'"
proof -
  obtain st args e1 where g: "GetMemoryMap F gmm \<lparr>MapSize = 0, MapKey = 0, DescriptorSize = 0, DescriptorVersion = 0\<rparr> 0 e
      = (st, args, e1)" by (metis prod_cases3)
  have st: "st = EFI_BUFFER_TOO_SMALL"
    using assms sizing by (auto simp: ExitBootServicesForKernel_def g split: if_splits)
  obtain st2 mp h2 e2 where a: "AllocatePool F ap EFI_BOOT_SERVICES_DATA (MapSize args + DescriptorSize args * 8) (h, e1)
      = (st2, mp, h2, e2)" by (metis prod_cases4)
  have st2: "st2 = EFI_SUCCESS"
    using assms by (auto simp: ExitBootServicesForKernel_def g st a Let_def split: if_splits)
  obtain r where l: "ExitBootServices_loop F ih gmm ebs (case mp of None \<Rightarrow> 0 | Some p \<Rightarrow> p)
      (MapSize args + DescriptorSize args * 8) args b e2 = Some r" "fst r = EFI_SUCCESS" "fst (snd r) = c" "snd (snd r) = e'"
    using assms by (auto simp: ExitBootServicesForKernel_def g st a st2 Let_def bind_eq_Some_conv split: prod.splits)
  show ?thesis using exits_final [OF loop_exits [OF l(1)] l(2)] l(3,4) by blast
qed

end
