(* ===== verification/StatusScreen.thy ===== *)
theory StatusScreen
  imports SetupUi Boot
begin

text \<open>
  The kernel's status console: a list of text blocks, laid out once to find the height of the
  whole, scrolled up when the screen is too short, and drawn.  The lemmas say that every
  formatted line fits its buffer of 192 bytes, that the screen is drawn whatever was counted
  and found, and that the last block ends within the bottom margin.
\<close>

subsection \<open>Lines\<close>

definition FramebufferLine :: "FRAMEBUFFER_INFO \<Rightarrow> cstring option" where
  "FramebufferLine fb = do {
     w \<leftarrow> AppendText (new_line 192) ''Framebuffer '';
     w \<leftarrow> AppendInt w (ScreenWidth fb);
     w \<leftarrow> AppendText w ''x'';
     w \<leftarrow> AppendInt w (ScreenHeight fb);
     w \<leftarrow> AppendText w ''  scan '';
     w \<leftarrow> AppendInt w (PixelsPerScanLine fb);
     end_line w }"

text \<open>\<open>line\<close> is copied into \<open>framebufferLine\<close>.\<close>

definition CopyLine :: "cstring \<Rightarrow> cstring option" where
  "CopyLine line = do { w \<leftarrow> AppendText (new_line 192) line; end_line w }"

definition MemoryLine :: "KERNEL_BOOT_INFO \<Rightarrow> cstring option" where
  "MemoryLine b = do {
     w \<leftarrow> AppendText (new_line 192) ''Memory descriptors '';
     w \<leftarrow> AppendInt w (ucast (MemoryDescriptorCount b));
     w \<leftarrow> AppendText w ''  size '';
     w \<leftarrow> AppendInt w (ucast (MemoryDescriptorSize b));
     end_line w }"

definition PciLine :: "KERNEL_BOOT_INFO \<Rightarrow> cstring option" where
  "PciLine b = do {
     w \<leftarrow> AppendText (new_line 192) ''PCI display adapters '';
     w \<leftarrow> AppendInt w (ucast (GpuCount b));
     w \<leftarrow> AppendText w ''  audio controllers '';
     w \<leftarrow> AppendInt w (ucast (AudioCount b));
     end_line w }"

definition DeviceLine :: "PCI_DEVICE_INFO \<Rightarrow> cstring option" where
  "DeviceLine d = do {
     w \<leftarrow> AppendText (new_line 192) (if Kind d = KERNEL_PCI_KIND_GPU then ''GPU   '' else ''AUDIO '');
     w \<leftarrow> AppendInt w (ucast (Segment d));
     w \<leftarrow> AppendText w '':'';
     w \<leftarrow> AppendInt w (ucast (Bus d));
     w \<leftarrow> AppendText w '':'';
     w \<leftarrow> AppendInt w (ucast (Device d));
     w \<leftarrow> AppendText w ''.'';
     w \<leftarrow> AppendInt w (ucast (Function d));
     w \<leftarrow> AppendText w ''  VEN '';
     w \<leftarrow> AppendUIntHexFixed w (ucast (VendorId d)) 4;
     w \<leftarrow> AppendText w '' DEV '';
     w \<leftarrow> AppendUIntHexFixed w (ucast (DeviceId d)) 4;
     w \<leftarrow> AppendText w '' CLS '';
     w \<leftarrow> AppendUIntHexFixed w (ucast (ClassCode d)) 2;
     w \<leftarrow> AppendUIntHexFixed w (ucast (Subclass d)) 2;
     end_line w }"

text \<open>The lines of the first eight devices of the table.\<close>

fun DeviceLines :: "PCI_DEVICE_INFO list \<Rightarrow> nat list \<Rightarrow> cstring list option" where
  "DeviceLines devices [] = Some []"
| "DeviceLines devices (i # ixs) = do {
     d \<leftarrow> rd devices (of_nat i);
     line \<leftarrow> DeviceLine d;
     lines \<leftarrow> DeviceLines devices ixs;
     Some (line # lines) }"

subsection \<open>Blocks\<close>

datatype block = Text cstring | Icons cstring

definition AdvanceBlock :: "ASSETS \<Rightarrow> block \<Rightarrow> INT32 \<Rightarrow> INT32" where
  "AdvanceBlock A blk y = (case blk of
     Text str \<Rightarrow> AdvanceConsoleBlockY A y (Some str)
   | Icons str \<Rightarrow> AdvanceIconConsoleBlockY A y (Some str))"

definition DrawBlock :: "ASSETS \<Rightarrow> FRAMEBUFFER_INFO \<Rightarrow> block \<Rightarrow> INT32 \<times> heap \<Rightarrow> (INT32 \<times> heap) option" where
  "DrawBlock A fb blk = (\<lambda>(y, h). case blk of
     Text str \<Rightarrow> DrawConsoleBlock A fb 16 y (Some str) h
   | Icons str \<Rightarrow> DrawIconConsoleBlock A fb 16 y (Some str) h)"

fun DrawBlocks :: "ASSETS \<Rightarrow> FRAMEBUFFER_INFO \<Rightarrow> block list \<Rightarrow> INT32 \<times> heap \<Rightarrow> (INT32 \<times> heap) option" where
  "DrawBlocks A fb [] s = Some s"
| "DrawBlocks A fb (blk # blks) s = do { s \<leftarrow> DrawBlock A fb blk s; DrawBlocks A fb blks s }"

text \<open>The blocks of the screen, in the order of the calls.\<close>

definition StatusBlocks :: "ASSETS \<Rightarrow> cstring \<Rightarrow> cstring \<Rightarrow> cstring \<Rightarrow> cstring list \<Rightarrow> block list" where
  "StatusBlocks A framebufferLine memoryLine pciLine deviceLines =
     [Text ''root@dragon:~# neofetch'',
      Icons (gConsoleIconText A),
      Text ''Dragon OS Kernel Console'',
      Text ''UEFI services exited. Framebuffer ownership handed to kernel.'',
      Text (gRuntimeSummaryText A),
      Text (gRuntimeVideoText A),
      Text framebufferLine,
      Text memoryLine,
      Text pciLine,
      Text ''Kernel init log'',
      Text ''[ OK ] UEFI GOP framebuffer online'',
      Text ''[INFO] native GPU/monitor driver pending'',
      Text ''[ OK ] memory map captured'',
      Text ''[ OK ] runtime registry preloaded'',
      Text ''[ OK ] pci enumeration complete'',
      Text ''Detected PCI devices''] @
     map Text deviceLines @
     [Text ''Runtime registry'',
      Text (gRuntimeRegistryText A),
      Text ''root@dragon:~# sudo <pending keyboard/input driver>'']"

definition StartY :: "INT32 \<Rightarrow> FRAMEBUFFER_INFO \<Rightarrow> INT32" where
  "StartY finalY fb =
     (let bottomMargin = ScreenHeight fb - 16
      in if bottomMargin <s finalY then 16 - (finalY - bottomMargin) else 16)"

definition DrawKernelStatusScreen :: "ASSETS \<Rightarrow> KERNEL_BOOT_INFO \<Rightarrow> heap \<Rightarrow> heap option" where
  "DrawKernelStatusScreen A b h = (let fb = BootFramebuffer b in do {
     black \<leftarrow> ComposeFor fb 0 0 0;
     h \<leftarrow> ClearScreen fb black 0 h;
     line \<leftarrow> FramebufferLine fb;
     framebufferLine \<leftarrow> CopyLine line;
     memoryLine \<leftarrow> MemoryLine b;
     pciLine \<leftarrow> PciLine b;
     deviceLines \<leftarrow> DeviceLines (PciDevices b) [0..<min (unat (PciDeviceCount b)) 8];
     let blocks = StatusBlocks A framebufferLine memoryLine pciLine deviceLines;
     let finalY = fold (AdvanceBlock A) blocks 16;
     (_, h) \<leftarrow> DrawBlocks A fb blocks (StartY finalY fb, h);
     Some h })"

subsection \<open>The lines fit\<close>

text \<open>The same statement with the length of what was written.\<close>

lemma room_end_length: "room used k m \<Longrightarrow> used < k \<Longrightarrow> \<exists>s. do { b \<leftarrow> m; end_line b } = Some s \<and> length s \<le> used"
  by (auto simp: room_def wp_iff end_line_def intro: order_trans [OF length_takeWhile_le])

lemma FramebufferLine_defined: "\<exists>s. FramebufferLine fb = Some s \<and> length s \<le> 53"
proof -
  have "room (0 + length ''Framebuffer '' + 11 + length ''x'' + 11 + length ''  scan '' + 11) 192
    (do { w \<leftarrow> do { w \<leftarrow> do { w \<leftarrow> do { w \<leftarrow> do { w \<leftarrow> do { w \<leftarrow> Some (new_line 192);
      AppendText w ''Framebuffer '' }; AppendInt w (ScreenWidth fb) }; AppendText w ''x'' };
      AppendInt w (ScreenHeight fb) }; AppendText w ''  scan '' }; AppendInt w (PixelsPerScanLine fb) })"
    by (intro line_rules room_new) simp_all
  from room_end_length [OF this] show ?thesis by (simp add: FramebufferLine_def)
qed

lemma CopyLine_defined: "length line < 192 \<Longrightarrow> \<exists>s. CopyLine line = Some s"
  using room_end [OF room_text [OF room_new, of line 192]] by (simp add: CopyLine_def)

lemma MemoryLine_defined: "\<exists>s. MemoryLine b = Some s"
proof -
  have "room (0 + length ''Memory descriptors '' + 11 + length ''  size '' + 11) 192
    (do { w \<leftarrow> do { w \<leftarrow> do { w \<leftarrow> do { w \<leftarrow> Some (new_line 192);
      AppendText w ''Memory descriptors '' }; AppendInt w (ucast (MemoryDescriptorCount b)) };
      AppendText w ''  size '' }; AppendInt w (ucast (MemoryDescriptorSize b)) })"
    by (intro line_rules room_new) simp_all
  from room_end [OF this] show ?thesis by (simp add: MemoryLine_def)
qed

lemma PciLine_defined: "\<exists>s. PciLine b = Some s"
proof -
  have "room (0 + length ''PCI display adapters '' + 11 + length ''  audio controllers '' + 11) 192
    (do { w \<leftarrow> do { w \<leftarrow> do { w \<leftarrow> do { w \<leftarrow> Some (new_line 192);
      AppendText w ''PCI display adapters '' }; AppendInt w (ucast (GpuCount b)) };
      AppendText w ''  audio controllers '' }; AppendInt w (ucast (AudioCount b)) })"
    by (intro line_rules room_new) simp_all
  from room_end [OF this] show ?thesis by (simp add: PciLine_def)
qed

lemma DeviceLine_defined: "\<exists>s. DeviceLine d = Some s"
proof -
  let ?k = "if Kind d = KERNEL_PCI_KIND_GPU then ''GPU   '' else ''AUDIO ''"
  have k: "length ?k = 6" by simp
  have "room (0 + length ?k + 11 + length '':'' + 11 + length '':'' + 11 + length ''.'' + 11 + length ''  VEN '' +
      unat (4 :: UINT32) + length '' DEV '' + unat (4 :: UINT32) + length '' CLS '' + unat (2 :: UINT32) + unat (2 :: UINT32)) 192
    (do { w \<leftarrow> do { w \<leftarrow> do { w \<leftarrow> do { w \<leftarrow> do { w \<leftarrow> do { w \<leftarrow> do { w \<leftarrow> do { w \<leftarrow> do { w \<leftarrow> do { w \<leftarrow> do {
      w \<leftarrow> do { w \<leftarrow> do { w \<leftarrow> do { w \<leftarrow> do { w \<leftarrow> Some (new_line 192);
      AppendText w ?k }; AppendInt w (ucast (Segment d)) }; AppendText w '':'' }; AppendInt w (ucast (Bus d)) };
      AppendText w '':'' }; AppendInt w (ucast (Device d)) }; AppendText w ''.'' }; AppendInt w (ucast (Function d)) };
      AppendText w ''  VEN '' }; AppendUIntHexFixed w (ucast (VendorId d)) 4 }; AppendText w '' DEV '' };
      AppendUIntHexFixed w (ucast (DeviceId d)) 4 }; AppendText w '' CLS '' };
      AppendUIntHexFixed w (ucast (ClassCode d)) 2 }; AppendUIntHexFixed w (ucast (Subclass d)) 2 })"
    by (intro line_rules room_new) (simp_all add: k)
  from room_end [OF this] show ?thesis by (simp add: DeviceLine_def k)
qed

lemma DeviceLines_defined:
  "\<forall>i \<in> set ixs. i < length ds \<and> i < 4294967296 \<Longrightarrow> \<exists>ls. DeviceLines ds ixs = Some ls \<and> length ls = length ixs"
proof (induction ixs)
  case (Cons i ixs)
  obtain ls where "DeviceLines ds ixs = Some ls" "length ls = length ixs" using Cons by auto
  moreover obtain s where "DeviceLine (ds ! i) = Some s" using DeviceLine_defined by blast
  moreover have "rd ds (of_nat i) = Some (ds ! i)"
    using Cons.prems by (simp add: rd_def unat_of_nat_lt)
  ultimately show ?case by simp
qed simp

subsection \<open>Drawing\<close>

definition filled :: "block \<Rightarrow> bool" where
  "filled blk = (case blk of Text str \<Rightarrow> str \<noteq> [] | Icons str \<Rightarrow> str \<noteq> [])"

lemma DrawBlock_advance:
  assumes "mapped fb h" "format_ok fb" "assets_ok A"
  shows "wp (\<lambda>(y', h'). draws fb h h' \<and> y' = (if filled blk then AdvanceBlock A blk y else y)) (DrawBlock A fb blk (y, h))"
proof -
  have F: "font_ok (Font A)" "font_ok (IconFont A)" using assms(3) by (simp_all add: assets_ok_def)
  show ?thesis
  proof (cases blk)
    case (Text str)
    show ?thesis using DrawConsoleBlock_advance [OF assms(1,2) F(1), of "Some str" y 16]
      by (cases "str = []") (simp_all add: Text DrawBlock_def filled_def AdvanceBlock_def)
  next
    case (Icons str)
    show ?thesis using DrawIconConsoleBlock_advance [OF assms(1,2) F(2), of "Some str" y 16]
      by (cases "str = []") (simp_all add: Icons DrawBlock_def filled_def AdvanceBlock_def)
  qed
qed

lemma DrawBlocks_advance:
  assumes "mapped fb h" "format_ok fb" "assets_ok A"
  shows "wp (\<lambda>(y', h'). draws fb h h' \<and> y' = fold (AdvanceBlock A) (filter filled blks) y) (DrawBlocks A fb blks (y, h))"
  using assms(1)
proof (induction blks arbitrary: y h)
  case (Cons blk blks)
  show ?case
    unfolding DrawBlocks.simps wp_bind
  proof (rule wp_mono [OF DrawBlock_advance [OF Cons.prems assms(2,3), of blk y]], goal_cases)
    case (1 x)
    then obtain h1 where x: "x = (if filled blk then AdvanceBlock A blk y else y, h1)" "draws fb h h1"
      by (auto split: prod.splits)
    then have "mapped fb h1" using Cons.prems by (simp add: draws_mapped)
    from Cons.IH [OF this, of "if filled blk then AdvanceBlock A blk y else y"] show ?case
      unfolding x(1) by (rule wp_mono) (use draws_trans [OF x(2)] in auto)
  qed
qed simp

lemma DrawKernelStatusScreen_paints:
  assumes m: "mapped (BootFramebuffer b) h" and f: "format_ok (BootFramebuffer b)" and A: "assets_ok A"
    and d: "length (PciDevices b) = 32"
  shows "wp (paints (BootFramebuffer b) h) (DrawKernelStatusScreen A b h)"
proof -
  let ?fb = "BootFramebuffer b"
  obtain l where l: "FramebufferLine ?fb = Some l" "length l \<le> 53" using FramebufferLine_defined by blast
  obtain fl where fl: "CopyLine l = Some fl" using CopyLine_defined [of l] l(2) by auto
  obtain ml where ml: "MemoryLine b = Some ml" using MemoryLine_defined by blast
  obtain pl where pl: "PciLine b = Some pl" using PciLine_defined by blast
  obtain dl where dl: "DeviceLines (PciDevices b) [0..<min (unat (PciDeviceCount b)) 8] = Some dl"
    using DeviceLines_defined [of "[0..<min (unat (PciDeviceCount b)) 8]" "PciDevices b"] d by auto
  have blocks: "wp (paints ?fb h1) (do { (_, h) \<leftarrow> DrawBlocks A ?fb blks (y, h1); Some h })" if "mapped ?fb h1" for h1 y blks
    by (rule draws_paints [OF that]) (use DrawBlocks_advance [OF that f A, of blks y] in \<open>auto elim: wp_mono\<close>)
  show ?thesis
    unfolding DrawKernelStatusScreen_def Let_def ComposeFor_black [OF f] Option.bind.simps l(1) fl ml pl dl
    by (rule paints_bind [OF m ClearScreen_paints [OF m]]) (rule blocks)
qed

subsection \<open>Scrolling\<close>

definition block_height :: "ASSETS \<Rightarrow> block \<Rightarrow> UINT32" where
  "block_height A blk = (case blk of
     Text str \<Rightarrow> CountTextLines (Some str) * GLYPH_HEIGHT (Font A) + 5
   | Icons str \<Rightarrow> CountIconTextLines (Some str) * GLYPH_HEIGHT (IconFont A) + 5)"

definition total_height :: "ASSETS \<Rightarrow> block list \<Rightarrow> nat" where
  "total_height A blks = (\<Sum>blk\<leftarrow>blks. unat (block_height A blk))"

lemma AdvanceBlock_height: "AdvanceBlock A blk y = y + block_height A blk"
  by (simp add: AdvanceBlock_def block_height_def AdvanceConsoleBlockY_def AdvanceIconConsoleBlockY_def split: block.split)

lemma fold_advance_sint:
  "sint y + int (total_height A blks) \<le> 2147483647 \<Longrightarrow> total_height A blks < 2147483648 \<Longrightarrow>
   sint (fold (AdvanceBlock A) blks y) = sint y + int (total_height A blks)"
proof (induction blks arbitrary: y)
  case (Cons blk blks)
  let ?n = "unat (block_height A blk)"
  have t: "total_height A (blk # blks) = ?n + total_height A blks" by (simp add: total_height_def)
  have "sint (block_height A blk) = int ?n" using Cons.prems(2) t by (intro sint_of_small) linarith
  then have y: "sint (y + block_height A blk) = sint y + int ?n"
    using Cons.prems t sint_lower32 [of y] by (subst sint_add_exact) linarith+
  have "sint (fold (AdvanceBlock A) blks (y + block_height A blk)) = sint (y + block_height A blk) + int (total_height A blks)"
    by (rule Cons.IH) (use Cons.prems t y in linarith)+
  then show ?case
    unfolding fold_Cons comp_apply AdvanceBlock_height [of A blk] using y t by linarith
qed (simp add: total_height_def)

lemma total_height_filter: "total_height A (filter P blks) \<le> total_height A blks"
  by (induction blks) (simp_all add: total_height_def)

text \<open>The end of the last drawn block is never below the bottom margin of 16 rows.\<close>

lemma status_bottom:
  assumes t: "total_height A blks < 1073741824" and sc: "unat (ScreenHeight fb) < 1073741824"
  defines "y \<equiv> StartY (fold (AdvanceBlock A) blks 16) fb"
  shows "sint (fold (AdvanceBlock A) (filter P blks) y) \<le> int (unat (ScreenHeight fb)) - 16" "sint y \<le> 16"
proof -
  let ?f = "fold (AdvanceBlock A) blks 16" and ?H = "int (unat (ScreenHeight fb))"
  have f: "sint ?f = 16 + int (total_height A blks)"
    using fold_advance_sint [of 16 A blks] t by simp
  have h: "sint (ScreenHeight fb) = ?H" using sc by (intro sint_of_small) linarith
  have s16: "sint (16 :: INT32) = 16" by simp
  have m: "sint (ScreenHeight fb - 16) = ?H - 16"
    using sc by (subst sint_diff_exact; unfold h s16; linarith)
  have y: "sint y = (if ?H - 16 < 16 + int (total_height A blks) then ?H - 16 - int (total_height A blks) else 16)"
  proof (cases "ScreenHeight fb - 16 <s ?f")
    case True
    have d: "sint (?f - (ScreenHeight fb - 16)) = 16 + int (total_height A blks) - (?H - 16)"
      using sc t by (subst sint_diff_exact; unfold f m; linarith)
    have "sint (16 - (?f - (ScreenHeight fb - 16))) = ?H - 16 - int (total_height A blks)"
      using sc t by (subst sint_diff_exact; unfold d s16; linarith)
    then show ?thesis using True m f by (simp add: y_def StartY_def word_sless_alt)
  next
    case False
    then show ?thesis using m f by (simp add: y_def StartY_def word_sless_alt)
  qed
  then show "sint y \<le> 16" by simp
  let ?t = "total_height A (filter P blks)"
  have le: "?t \<le> total_height A blks" by (rule total_height_filter)
  have b: "sint y + int (total_height A blks) \<le> ?H - 16"
  proof (cases "?H - 16 < 16 + int (total_height A blks)")
    case True
    then show ?thesis unfolding y if_P [OF True] by simp
  next
    case False
    then show ?thesis unfolding y if_not_P [OF False] by linarith
  qed
  have "sint (fold (AdvanceBlock A) (filter P blks) y) = sint y + int ?t"
    by (rule fold_advance_sint) (use b le t sc in linarith)+
  then show "sint (fold (AdvanceBlock A) (filter P blks) y) \<le> ?H - 16"
    using b le by linarith
qed

end
