(* ===== verification/TweenDemo.thy ===== *)
theory TweenDemo
  imports SetupUi
begin

text \<open>
  The tween test screen: a box that travels across a panel at the pace of an easing table.
  The lemmas say that the two labels fit their buffers, that the frame is painted whatever
  the family and progress, and that on a large enough screen the box stays on the panel and
  has covered no more than the travel width.
\<close>

text \<open>The panel of the test screen: X, Y, width and height.\<close>

definition TweenDemoPanel :: "FRAMEBUFFER_INFO \<Rightarrow> UINT32 \<times> UINT32 \<times> UINT32 \<times> UINT32" where
  "TweenDemoPanel fb =
     (let panelWidth = ScreenWidth fb - ScreenWidth fb div 8;
          panelHeight = ScreenHeight fb - ScreenHeight fb div 6;
          panelX = (ScreenWidth fb - panelWidth) div 2;
          panelY = (ScreenHeight fb - panelHeight) div 2
      in (panelX, panelY, panelWidth, panelHeight))"

definition GetTweenDemoDynamicRect :: "FRAMEBUFFER_INFO \<Rightarrow> UINT32 \<times> UINT32 \<times> UINT32 \<times> UINT32" where
  "GetTweenDemoDynamicRect fb =
     (case TweenDemoPanel fb of (panelX, panelY, panelWidth, panelHeight) \<Rightarrow>
        (panelX + 48, panelY + 112, panelWidth - 96, panelHeight - 148))"

definition DrawTweenDemoBase :: "ASSETS \<Rightarrow> FRAMEBUFFER_INFO option \<Rightarrow> UINT32 \<Rightarrow> heap \<Rightarrow> heap option" where
  "DrawTweenDemoBase A framebufferInfo tweenFamily h =
     (case framebufferInfo of
        None \<Rightarrow> Some h
      | Some fb \<Rightarrow>
          case TweenDemoPanel fb of (panelX, panelY, panelWidth, panelHeight) \<Rightarrow>
          let titleText = ''Dragon OS Tween Test'' in do {
            backgroundColor \<leftarrow> ComposeFor fb 18 18 22;
            panelColor \<leftarrow> ComposeFor fb 245 245 247;
            h \<leftarrow> ClearScreen fb backgroundColor 0 h;
            h \<leftarrow> DrawRoundedBox fb \<lparr>UI_BOX.X = panelX, Y = panelY, Width = panelWidth, Height = panelHeight,
                   Radius = 28, Color = panelColor, Dragging = 0, DragOffsetX = 0, DragOffsetY = 0\<rparr> h;
            titleWidth \<leftarrow> MeasureFont titleText (SetupTitleFont A);
            let titleX = panelX + sdivw (panelWidth - titleWidth) 2;
            DrawTitle fb titleX (panelY + 42) titleText (SetupTitleFont A) h })"

text \<open>
  The name of the family is a static variable, at first \<open>Linear\<close>: a call for another family than the
  two tested leaves it as the call before it did.
\<close>

definition TweenFamilyName :: "UINT32 \<Rightarrow> cstring \<Rightarrow> cstring" where
  "TweenFamilyName tweenFamily familyName =
     (if tweenFamily = 1 then ''Sine'' else if tweenFamily = 2 then ''Cubic'' else familyName)"

text \<open>The two labels, written into the buffers \<open>tweenLabel[64]\<close> and \<open>progressLabel[48]\<close>.\<close>

definition TweenLabel :: "cstring \<Rightarrow> cstring option" where
  "TweenLabel familyName = do {
     w \<leftarrow> AppendText (new_line 64) ''Current Tween: '';
     w \<leftarrow> AppendText w familyName;
     w \<leftarrow> AppendText w '' '';
     w \<leftarrow> AppendText w ''InOut'';
     end_line w }"

definition ProgressLabel :: "UINT32 \<Rightarrow> cstring option" where
  "ProgressLabel progress1024 = do {
     w \<leftarrow> AppendText (new_line 48) ''Progress '';
     w \<leftarrow> AppendInt w (progress1024 * 100 div 1024);
     w \<leftarrow> AppendText w ''%'';
     end_line w }"

text \<open>The travelling box at an eased progress.\<close>

definition TweenDemoBox :: "FRAMEBUFFER_INFO \<Rightarrow> UINT32 \<Rightarrow> UINT32 \<Rightarrow> UI_BOX" where
  "TweenDemoBox fb eased1024 boxColor =
     (case TweenDemoPanel fb of (panelX, panelY, panelWidth, panelHeight) \<Rightarrow>
      let boxWidth = panelWidth div 5;
          boxWidth = (if boxWidth < 180 then 180 else boxWidth);
          boxHeight = 72;
          minX = panelX + 72;
          travelWidth = panelWidth - boxWidth - 144;
          boxX = minX + travelWidth * eased1024 div 1024;
          boxY = panelY + panelHeight div 2
      in \<lparr>UI_BOX.X = boxX, Y = boxY, Width = boxWidth, Height = boxHeight, Radius = 26, Color = boxColor,
          Dragging = 0, DragOffsetX = 0, DragOffsetY = 0\<rparr>)"

text \<open>What a frame shows of the motion, once the name is chosen.\<close>

definition DrawTweenDemoContent ::
  "ASSETS \<Rightarrow> FRAMEBUFFER_INFO \<Rightarrow> cstring \<Rightarrow> UINT32 \<Rightarrow> UINT32 \<Rightarrow> heap \<Rightarrow> heap option" where
  "DrawTweenDemoContent A fb familyName tweenFamily progress1024 h =
     (case TweenDemoPanel fb of (panelX, panelY, panelWidth, panelHeight) \<Rightarrow>
          let F = SetupUiFont A in do {
            panelColor \<leftarrow> ComposeFor fb 245 245 247;
            eased \<leftarrow> EvaluateTween A tweenFamily 2 progress1024;
            let eased1024 = ucast eased;
            boxColor \<leftarrow> ComposeFor fb (GradientChannel 101 76 eased1024) (GradientChannel 235 255 eased1024)
                          (GradientChannel 255 84 eased1024);
            let (dynamicX, dynamicY, dynamicWidth, dynamicHeight) = GetTweenDemoDynamicRect fb;
            h \<leftarrow> ClearRect fb dynamicX dynamicY dynamicWidth dynamicHeight panelColor h;
            tweenLabel \<leftarrow> TweenLabel familyName;
            progressLabel \<leftarrow> ProgressLabel progress1024;
            labelWidth \<leftarrow> MeasureFont tweenLabel F;
            h \<leftarrow> DrawFont fb (panelX + sdivw (panelWidth - labelWidth) 2) (panelY + 132) tweenLabel 22 22 28 F h;
            labelWidth \<leftarrow> MeasureFont progressLabel F;
            h \<leftarrow> DrawFont fb (panelX + sdivw (panelWidth - labelWidth) 2) (panelY + 168) progressLabel 72 72 80 F h;
            let tweenBox = TweenDemoBox fb eased1024 boxColor;
            h \<leftarrow> DrawRoundedBox fb tweenBox h;
            labelWidth \<leftarrow> MeasureFont familyName F;
            DrawFont fb (UI_BOX.X tweenBox + sdivw (Width tweenBox - labelWidth) 2)
              (UI_BOX.Y tweenBox + sdivw (Height tweenBox - GLYPH_HEIGHT F) 2) familyName 12 12 12 F h })"

definition DrawTweenDemoMotion ::
  "ASSETS \<Rightarrow> FRAMEBUFFER_INFO option \<Rightarrow> UINT32 \<Rightarrow> UINT32 \<Rightarrow> cstring \<times> heap \<Rightarrow> (cstring \<times> heap) option" where
  "DrawTweenDemoMotion A framebufferInfo tweenFamily progress1024 = (\<lambda>(familyName, h).
     case framebufferInfo of
       None \<Rightarrow> Some (familyName, h)
     | Some fb \<Rightarrow>
         let familyName = TweenFamilyName tweenFamily familyName in do {
           h \<leftarrow> DrawTweenDemoContent A fb familyName tweenFamily progress1024 h;
           Some (familyName, h) })"

definition DrawTweenDemoFrame ::
  "ASSETS \<Rightarrow> FRAMEBUFFER_INFO option \<Rightarrow> UINT32 \<Rightarrow> UINT32 \<Rightarrow> cstring \<times> heap \<Rightarrow> (cstring \<times> heap) option" where
  "DrawTweenDemoFrame A framebufferInfo tweenFamily progress1024 = (\<lambda>(familyName, h). do {
     h \<leftarrow> DrawTweenDemoBase A framebufferInfo tweenFamily h;
     DrawTweenDemoMotion A framebufferInfo tweenFamily progress1024 (familyName, h) })"

subsection \<open>The labels fit\<close>

text \<open>The values the static variable can take.\<close>

definition tween_name :: "cstring \<Rightarrow> bool" where
  "tween_name name \<longleftrightarrow> name \<in> {''Linear'', ''Sine'', ''Cubic''}"

lemma TweenFamilyName_name: "tween_name name \<Longrightarrow> tween_name (TweenFamilyName f name)"
  by (simp add: TweenFamilyName_def tween_name_def)

lemma tween_name_length: "tween_name name \<Longrightarrow> length name \<le> 6"
  by (auto simp: tween_name_def)

lemma TweenLabel_defined:
  assumes "tween_name name"
  shows "\<exists>s. TweenLabel name = Some s"
proof -
  have "room (0 + length ''Current Tween: '' + length name + length '' '' + length ''InOut'') 64
    (do { w \<leftarrow> do { w \<leftarrow> do { w \<leftarrow> do { w \<leftarrow> Some (new_line 64);
      AppendText w ''Current Tween: '' }; AppendText w name }; AppendText w '' '' }; AppendText w ''InOut'' })"
    using tween_name_length [OF assms] by (intro line_rules room_new) simp_all
  from room_end [OF this] show ?thesis using tween_name_length [OF assms] by (simp add: TweenLabel_def)
qed

lemma ProgressLabel_defined: "\<exists>s. ProgressLabel p = Some s"
proof -
  have "room (0 + length ''Progress '' + 11 + length ''%'') 48
    (do { w \<leftarrow> do { w \<leftarrow> do { w \<leftarrow> Some (new_line 48);
      AppendText w ''Progress '' }; AppendInt w (p * 100 div 1024) }; AppendText w ''%'' })"
    by (intro line_rules room_new) simp_all
  from room_end [OF this] show ?thesis by (simp add: ProgressLabel_def)
qed

subsection \<open>A frame\<close>

lemma DrawTweenDemoBase_paints:
  assumes m: "mapped fb h" and f: "format_ok fb" and A: "assets_ok A"
  shows "wp (paints fb h) (DrawTweenDemoBase A (Some fb) fam h)"
proof -
  have F: "font_ok (SetupTitleFont A)" using A by (simp add: assets_ok_def)
  obtain px py pw ph where p: "TweenDemoPanel fb = (px, py, pw, ph)" by (metis prod_cases4)
  obtain c d where c: "ComposeFor fb 18 18 22 = Some c" "ComposeFor fb 245 245 247 = Some d"
    using ComposeFor_defined [OF f] by blast
  obtain w where w: "MeasureFont ''Dragon OS Tween Test'' (SetupTitleFont A) = Some w"
    using MeasureTextStringAtlas_defined [OF F] by blast
  show ?thesis
    unfolding DrawTweenDemoBase_def option.case p prod.case Let_def c w Option.bind.simps
    by (rule paints_bind [OF m ClearScreen_paints [OF m]], rule paints_bind [OF _ draws_paints],
        assumption, assumption, rule wp_recolours_draws, rule DrawRoundedBox_recolours, assumption,
        rule draws_paints, assumption, rule DrawGradientOutlinedTextAtlas_draws [OF _ f F], assumption, simp)
qed

lemma DrawTweenDemoContent_draws:
  assumes m: "mapped fb h" and f: "format_ok fb" and A: "assets_ok A" and name: "tween_name name"
  shows "wp (draws fb h) (DrawTweenDemoContent A fb name fam p h)"
proof -
  have F: "font_ok (SetupUiFont A)" and T: "tweens_ok A" using A by (simp_all add: assets_ok_def)
  obtain px py pw ph where pn: "TweenDemoPanel fb = (px, py, pw, ph)" by (metis prod_cases4)
  obtain e where e: "EvaluateTween A fam 2 p = Some e" using EvaluateTween_defined [OF T] by blast
  obtain c d where c: "ComposeFor fb 245 245 247 = Some c"
    "ComposeFor fb (GradientChannel 101 76 (ucast e)) (GradientChannel 235 255 (ucast e)) (GradientChannel 255 84 (ucast e)) = Some d"
    using ComposeFor_defined [OF f] by blast
  obtain tl pl where l: "TweenLabel name = Some tl" "ProgressLabel p = Some pl"
    using TweenLabel_defined [OF name] ProgressLabel_defined by blast
  have width: "\<exists>w. MeasureFont s (SetupUiFont A) = Some w" for s using MeasureTextStringAtlas_defined [OF F] by blast
  obtain w1 w2 w3 where w: "MeasureFont tl (SetupUiFont A) = Some w1" "MeasureFont pl (SetupUiFont A) = Some w2"
    "MeasureFont name (SetupUiFont A) = Some w3" using width by meson
  show ?thesis
    unfolding DrawTweenDemoContent_def option.case pn prod.case Let_def c e Option.bind.simps
      GetTweenDemoDynamicRect_def l w
    by (rule draws_bind [OF m ClearRect_draws [OF m]], rule draws_bind, assumption,
        rule DrawTextStringAtlas_draws [OF _ f F], assumption, rule draws_bind, assumption,
        rule DrawTextStringAtlas_draws [OF _ f F], assumption, rule draws_bind, assumption,
        rule wp_recolours_draws, rule DrawRoundedBox_recolours, assumption,
        rule DrawTextStringAtlas_draws [OF _ f F])
qed

lemma DrawTweenDemoFrame_paints:
  assumes m: "mapped fb h" and f: "format_ok fb" and A: "assets_ok A" and name: "tween_name name"
  shows "wp (\<lambda>(name', h'). name' = TweenFamilyName fam name \<and> tween_name name' \<and> paints fb h h')
    (DrawTweenDemoFrame A (Some fb) fam p (name, h))"
proof -
  let ?name = "TweenFamilyName fam name"
  have name': "tween_name ?name" by (rule TweenFamilyName_name [OF name])
  have "wp (paints fb h) (do { h \<leftarrow> DrawTweenDemoBase A (Some fb) fam h; DrawTweenDemoContent A fb ?name fam p h })"
    by (rule paints_bind [OF m DrawTweenDemoBase_paints [OF m f A]])
       (rule draws_paints [OF _ DrawTweenDemoContent_draws [OF _ f A name']])
  then show ?thesis
    by (simp add: DrawTweenDemoFrame_def DrawTweenDemoMotion_def Let_def name')
qed

subsection \<open>The box on its panel\<close>

lemma eighth: "unat (W - W div 8 :: UINT32) = unat W - unat W div 8" "unat (W - W div 6 :: UINT32) = unat W - unat W div 6"
  by (simp_all add: unat_minus_exact unat_div)

lemma TweenDemoBox_travels:
  fixes c :: UINT32
  assumes W: "372 \<le> unat (ScreenWidth fb)" "unat (ScreenWidth fb) < 4194304"
    and H: "174 \<le> unat (ScreenHeight fb)" "unat (ScreenHeight fb) < 4194304"
    and e: "unat e \<le> 1024"
  defines "b \<equiv> TweenDemoBox fb e c"
  defines "px \<equiv> fst (TweenDemoPanel fb)" and "py \<equiv> fst (snd (TweenDemoPanel fb))"
    and "pw \<equiv> fst (snd (snd (TweenDemoPanel fb)))" and "ph \<equiv> snd (snd (snd (TweenDemoPanel fb)))"
  shows "unat (UI_BOX.X b) = unat px + 72 + (unat pw - unat (Width b) - 144) * unat e div 1024"
    "unat (UI_BOX.X b) + unat (Width b) + 72 \<le> unat px + unat pw"
    "unat px + unat pw \<le> unat (ScreenWidth fb)"
    "unat (UI_BOX.Y b) + unat (Height b) \<le> unat py + unat ph" "unat py + unat ph \<le> unat (ScreenHeight fb)"
proof -
  have pw: "pw = ScreenWidth fb - ScreenWidth fb div 8" "unat pw = unat (ScreenWidth fb) - unat (ScreenWidth fb) div 8"
    using eighth by (simp_all add: pw_def TweenDemoPanel_def Let_def)
  have ph: "ph = ScreenHeight fb - ScreenHeight fb div 6" "unat ph = unat (ScreenHeight fb) - unat (ScreenHeight fb) div 6"
    using eighth by (simp_all add: ph_def TweenDemoPanel_def Let_def)
  have px: "unat px = (unat (ScreenWidth fb) - unat pw) div 2"
  proof -
    have "px = (ScreenWidth fb - pw) div 2" by (simp add: px_def pw(1) TweenDemoPanel_def Let_def)
    then show ?thesis using pw(2) by (simp add: unat_div unat_minus_exact)
  qed
  have py: "unat py = (unat (ScreenHeight fb) - unat ph) div 2"
  proof -
    have "py = (ScreenHeight fb - ph) div 2" by (simp add: py_def ph(1) TweenDemoPanel_def Let_def)
    then show ?thesis using ph(2) by (simp add: unat_div unat_minus_exact)
  qed
  define bw where "bw = (if pw div 5 < 180 then 180 else pw div 5)"
  have bw: "unat bw = max (unat pw div 5) 180" unfolding bw_def unat_at_least unat_div by simp
  have pw_le: "325 \<le> unat pw" "unat pw < 4194304" using pw(2) W by linarith+
  have bw_le: "unat bw + 144 \<le> unat pw" using pw_le(1) unfolding bw by linarith
  have ph_le: "145 \<le> unat ph" "unat ph < 4194304" using ph(2) H by linarith+
  define t where "t = pw - bw - 144"
  have t: "unat t = unat pw - unat bw - 144"
  proof -
    have 1: "unat (pw - bw) = unat pw - unat bw" using bw_le by (intro unat_minus_exact) linarith
    show ?thesis unfolding t_def using bw_le by (subst unat_minus_exact; unfold 1; simp)
  qed
  have te: "unat t * unat e \<le> unat t * 1024" using e by simp
  moreover have "unat t * 1024 < 4294967296" using t pw_le by linarith
  ultimately have "unat t * unat e < 4294967296" by linarith
  then have "unat (t * e) = unat t * unat e" by (intro unat_mult32) simp
  then have d: "unat (t * e div 1024) = unat t * unat e div 1024" by (simp add: unat_div)
  have d_le: "unat t * unat e div 1024 \<le> unat t" using te by linarith
  have b: "b = \<lparr>UI_BOX.X = px + 72 + t * e div 1024, Y = py + ph div 2, Width = bw, Height = 72, Radius = 26, Color = c,
      Dragging = 0, DragOffsetX = 0, DragOffsetY = 0\<rparr>"
    by (simp add: b_def TweenDemoBox_def px_def py_def pw_def ph_def bw_def t_def Let_def split: prod.split)
  have x72: "unat (px + 72) = unat px + 72" using px W by (subst unat_plus_exact) simp_all
  have x: "unat (px + 72 + t * e div 1024) = unat px + 72 + unat t * unat e div 1024"
    using px W d_le t pw_le by (subst unat_plus_exact; unfold x72 d; linarith)
  have "unat (ph div 2) = unat ph div 2" by (simp add: unat_div)
  then have y: "unat (py + ph div 2) = unat py + unat ph div 2"
    using py H ph_le by (subst unat_plus_exact) simp_all
  show "unat (UI_BOX.X b) = unat px + 72 + (unat pw - unat (Width b) - 144) * unat e div 1024"
    using x t by (simp add: b)
  show "unat (UI_BOX.X b) + unat (Width b) + 72 \<le> unat px + unat pw"
    using x t d_le bw_le by (simp add: b)
  show "unat px + unat pw \<le> unat (ScreenWidth fb)" using px pw(2) by linarith
  show "unat (UI_BOX.Y b) + unat (Height b) \<le> unat py + unat ph" using y ph_le by (simp add: b)
  show "unat py + unat ph \<le> unat (ScreenHeight fb)" using py ph(2) by linarith
qed

end
