(* ===== verification/Kernel.thy ===== *)
theory Kernel
  imports StatusScreen TweenDemo
begin

text \<open>
  The whole program: \<open>EfiMain\<close>, which hands over to the kernel's mouse loop, and the loop
  itself.  The loop never ends, so it is given by its initial state, one iteration, and the
  step relation of the iterations.  The invariant of the loop says that every iteration has a
  defined result, and that after it the screen shows the shadow surface with the cursor on top.
\<close>

subsection \<open>The mouse loop\<close>

record 'e kernel =
  screen :: FRAMEBUFFER_INFO
  shadow :: FRAMEBUFFER_INFO
  compose :: FRAMEBUFFER_INFO
  pointer :: SOFTWARE_CURSOR
  mouseState :: PS2_MOUSE_STATE
  setupUi :: SETUP_UI_STATE
  memory :: heap
  device :: 'e

text \<open>The shadow and compose surfaces: their own buffers where these are distinct.\<close>

definition ShadowInfo :: "KERNEL_BOOT_INFO \<Rightarrow> FRAMEBUFFER_INFO" where
  "ShadowInfo b = (let fb = BootFramebuffer b in
     if ShadowFramebuffer b \<noteq> 0 \<and> ShadowFramebuffer b \<noteq> Framebuffer fb
     then fb\<lparr>Framebuffer := ShadowFramebuffer b\<rparr> else fb)"

definition ComposeInfo :: "KERNEL_BOOT_INFO \<Rightarrow> FRAMEBUFFER_INFO" where
  "ComposeInfo b = (let fb = BootFramebuffer b in
     if ComposeFramebuffer b \<noteq> 0 \<and> ComposeFramebuffer b \<noteq> Framebuffer fb \<and>
        ComposeFramebuffer b \<noteq> Framebuffer (ShadowInfo b)
     then fb\<lparr>Framebuffer := ComposeFramebuffer b\<rparr> else fb\<lparr>Framebuffer := 0\<rparr>)"

text \<open>The cursor at the centre; its arrays are left as the stack had them.\<close>

definition CenteredCursor :: "ASSETS \<Rightarrow> FRAMEBUFFER_INFO \<Rightarrow> SOFTWARE_CURSOR \<Rightarrow> SOFTWARE_CURSOR" where
  "CenteredCursor A fb cursor = cursor\<lparr>
     SOFTWARE_CURSOR.X := ClampCursorX A (ScreenWidth fb div 2) fb,
     SOFTWARE_CURSOR.Y := ClampCursorY A (ScreenHeight fb div 2) fb,
     SavedWidth := 0, SavedHeight := 0, Visible := 0, AccumX := 0, AccumY := 0, LeftButtonDown := 0,
     LastRawX := 0, LastRawY := 0, LastPixelX := 0, LastPixelY := 0, LastPollCount := 0\<rparr>"

text \<open>Everything before the loop; the arguments \<open>c0\<close>, \<open>m0\<close>, \<open>ui0\<close> are the uninitialised locals.\<close>

definition StartKernel ::
  "ASSETS \<Rightarrow> 'e PORTS \<Rightarrow> KERNEL_BOOT_INFO \<Rightarrow> SOFTWARE_CURSOR \<Rightarrow> PS2_MOUSE_STATE \<Rightarrow> SETUP_UI_STATE \<Rightarrow>
   heap \<times> 'e \<Rightarrow> 'e kernel option" where
  "StartKernel A P b c0 m0 ui0 = (\<lambda>(h, e).
     let fb = BootFramebuffer b; sh = ShadowInfo b; co = ComposeInfo b in do {
       cursor \<leftarrow> InitializeCursorSurface A fb (CenteredCursor A fb c0);
       (mouseDetected, m, e) \<leftarrow> InitializePs2Mouse P (Some m0) e;
       m \<leftarrow> m;
       ui \<leftarrow> InitializeSetupUiState (Some fb) (Some ui0) mouseDetected;
       ui \<leftarrow> ui;
       h \<leftarrow> DrawSetupScreen A (Some sh) (Some ui) h;
       h \<leftarrow> (if Framebuffer sh \<noteq> Framebuffer fb
            then CopyPixels32 (Framebuffer fb) (Framebuffer sh) (PixelsPerScanLine fb * ScreenHeight fb) h
            else Some h);
       (h, cursor) \<leftarrow> BlitCursorComposite A (Some fb) (Some sh) (Some co) (Some cursor) h;
       cursor \<leftarrow> cursor;
       Some \<lparr>screen = fb, shadow = sh, compose = co, pointer = cursor, mouseState = m, setupUi = ui,
             memory = h, device = e\<rparr> })"

text \<open>The buttons repainted on the shadow and copied to the screen after the hover changed.\<close>

definition ChangeHover ::
  "ASSETS \<Rightarrow> FRAMEBUFFER_INFO \<Rightarrow> FRAMEBUFFER_INFO \<Rightarrow> SETUP_UI_STATE \<Rightarrow> UINT32 \<Rightarrow> heap \<Rightarrow> (SETUP_UI_STATE \<times> heap) option" where
  "ChangeHover A fb sh ui hoveredButton h =
     (if hoveredButton = HoveredButton ui then Some (ui, h)
      else
        let previousHoveredButton = HoveredButton ui;
            ui = ui\<lparr>HoveredButton := hoveredButton\<rparr>
        in do {
          h \<leftarrow> RefreshSetupButtons A (Some sh) (Some ui) previousHoveredButton hoveredButton h;
          h \<leftarrow> (if Framebuffer sh \<noteq> Framebuffer fb then do {
                 h \<leftarrow> (if previousHoveredButton = 1 \<or> hoveredButton = 1
                      then BlitSurfaceRect (Some fb) (Some sh) (UI_BOX.X (InstallButton ui)) (UI_BOX.Y (InstallButton ui))
                             (Width (InstallButton ui)) (Height (InstallButton ui)) h
                      else Some h);
                 if previousHoveredButton = 2 \<or> hoveredButton = 2
                 then BlitSurfaceRect (Some fb) (Some sh) (UI_BOX.X (TryButton ui)) (UI_BOX.Y (TryButton ui))
                        (Width (TryButton ui)) (Height (TryButton ui)) h
                 else Some h }
               else Some h);
          Some (ui, h) })"

text \<open>One iteration.  The background is put back at the old position, where the cursor was drawn.\<close>

definition KernelStep :: "ASSETS \<Rightarrow> 'e PORTS \<Rightarrow> 'e kernel \<Rightarrow> 'e kernel option" where
  "KernelStep A P s =
     (let oldCursorX = SOFTWARE_CURSOR.X (pointer s);
          oldCursorY = SOFTWARE_CURSOR.Y (pointer s);
          oldCursorVisible = Visible (pointer s)
      in do {
        (moved, m, cursor, e) \<leftarrow> UpdateCursorFromPs2Mouse A P (Some (mouseState s)) (Some (pointer s)) (Some (screen s)) (device s);
        m \<leftarrow> m;
        cursor \<leftarrow> cursor;
        if moved \<noteq> 0 then do {
          (h, cursor) \<leftarrow>
            (if oldCursorVisible \<noteq> 0 then do {
               h \<leftarrow> BlitSurfaceRect (Some (screen s)) (Some (shadow s)) oldCursorX oldCursorY
                      (SavedWidth cursor) (SavedHeight cursor) (memory s);
               Some (h, cursor\<lparr>Visible := 0\<rparr>) }
             else Some (memory s, cursor));
          let hoveredButton = HitTestSetupUi A (Some (setupUi s)) (Some cursor);
          (ui, h) \<leftarrow> ChangeHover A (screen s) (shadow s) (setupUi s) hoveredButton h;
          (h, cursor) \<leftarrow> BlitCursorComposite A (Some (screen s)) (Some (shadow s)) (Some (compose s)) (Some cursor) h;
          cursor \<leftarrow> cursor;
          Some (s\<lparr>pointer := cursor, mouseState := m, setupUi := ui, memory := h, device := e\<rparr>) }
        else do {
          e \<leftarrow> BusyPause P 2048 e;
          Some (s\<lparr>pointer := cursor, mouseState := m, device := e\<rparr>) } })"

fun KernelIterations :: "ASSETS \<Rightarrow> 'e PORTS \<Rightarrow> nat \<Rightarrow> 'e kernel \<Rightarrow> 'e kernel option" where
  "KernelIterations A P 0 s = Some s"
| "KernelIterations A P (Suc n) s = do { s \<leftarrow> KernelStep A P s; KernelIterations A P n s }"

text \<open>
  The state of \<open>RunKernelMouseLoop\<close> after \<open>n\<close> iterations; with a null argument it returns at
  once (\<open>Inl\<close>), otherwise never.
\<close>

definition RunKernelMouseLoop ::
  "ASSETS \<Rightarrow> 'e PORTS \<Rightarrow> nat \<Rightarrow> KERNEL_BOOT_INFO option \<Rightarrow> SOFTWARE_CURSOR \<Rightarrow> PS2_MOUSE_STATE \<Rightarrow> SETUP_UI_STATE \<Rightarrow>
   heap \<times> 'e \<Rightarrow> (heap \<times> 'e + 'e kernel) option" where
  "RunKernelMouseLoop A P n bootInfo c0 m0 ui0 s =
     (case bootInfo of
        None \<Rightarrow> Some (Inl s)
      | Some b \<Rightarrow> do { k \<leftarrow> StartKernel A P b c0 m0 ui0 s; k \<leftarrow> KernelIterations A P n k; Some (Inr k) })"

inductive kernel_step :: "ASSETS \<Rightarrow> 'e PORTS \<Rightarrow> 'e kernel \<Rightarrow> 'e kernel \<Rightarrow> bool" for A P where
  step: "KernelStep A P s = Some s' \<Longrightarrow> kernel_step A P s s'"

inductive_cases kernel_stepE: "kernel_step A P s s'"
inductive_simps kernel_step_iff: "kernel_step A P s s'"

subsection \<open>The loader\<close>

text \<open>Taking the address of a routine, so that the linker keeps it, has no effect.\<close>

definition PreserveUiSubsystemReferences :: "'s \<Rightarrow> 's" where
  "PreserveUiSubsystemReferences s = s"

definition pointer_of :: "ptr option \<Rightarrow> ptr" where
  "pointer_of p = (case p of None \<Rightarrow> 0 | Some a \<Rightarrow> a)"

text \<open>One of the two off-screen surfaces: allocated and filled from \<open>source\<close>, or null.\<close>

definition AllocateSurface ::
  "'e FIRMWARE \<Rightarrow> ptr \<Rightarrow> UINT32 \<Rightarrow> ptr \<Rightarrow> heap \<times> 'e \<Rightarrow> (ptr \<times> heap \<times> 'e) option" where
  "AllocateSurface F allocatePool pixelCount source s =
     (case AllocatePool F allocatePool EFI_BOOT_SERVICES_DATA (ucast pixelCount * 4) s of (status, buffer, h, e) \<Rightarrow>
        if status = EFI_SUCCESS \<and> pointer_of buffer \<noteq> 0 then do {
          h \<leftarrow> CopyPixels32 (pointer_of buffer) source pixelCount h;
          Some (pointer_of buffer, h, e) }
        else Some (0, h, e))"

text \<open>
  \<open>EfiMain\<close> returns a status to the firmware (\<open>Inl\<close>), or passes the boot information to
  \<open>RunKernelMouseLoop\<close> (\<open>Inr\<close>), from which it never comes back.  The arguments \<open>fb0\<close> and
  \<open>b0\<close> are the uninitialised locals.
\<close>

definition EfiMain ::
  "ASSETS \<Rightarrow> 'e FIRMWARE \<Rightarrow> EFI_HANDLE \<Rightarrow> ptr \<Rightarrow> FRAMEBUFFER_INFO \<Rightarrow> KERNEL_BOOT_INFO \<Rightarrow> heap \<times> 'e \<Rightarrow>
   ((EFI_STATUS + KERNEL_BOOT_INFO) \<times> heap \<times> 'e) option" where
  "EfiMain A F imageHandle systemTable fb0 b0 = (\<lambda>(h, e). do {
     (status, fb, stall, e) \<leftarrow> InitializeFramebuffer F systemTable fb0 e;
     if status \<noteq> EFI_SUCCESS then Some (Inl status, h, e)
     else do {
       black \<leftarrow> ComposeFor fb 0 0 0;
       h \<leftarrow> ClearScreen fb black 0 h;
       (h, e) \<leftarrow> PlaySplashSequence A (Stall F stall) fb (h, e);
       black \<leftarrow> ComposeFor fb 0 0 0;
       h \<leftarrow> ClearScreen fb black 0 h;
       let b = b0\<lparr>BootFramebuffer := fb, MemoryMap := 0, MemoryMapSize := 0, MemoryMapKey := 0, MemoryDescriptorSize := 0,
                  MemoryDescriptorVersion := 0, MemoryDescriptorCount := 0, ShadowFramebuffer := 0,
                  ComposeFramebuffer := 0, TscTicksPerSecond := 0, GpuCount := 0, AudioCount := 0, PciDeviceCount := 0\<rparr>;
       bootServicesBytes \<leftarrow> read64 F e (systemTable + EFI_SYSTEM_TABLE_BOOT_SERVICES_OFFSET);
       locateProtocol \<leftarrow> read64 F e (bootServicesBytes + EFI_BOOT_SERVICES_LOCATE_PROTOCOL_OFFSET);
       getMemoryMap \<leftarrow> read64 F e (bootServicesBytes + EFI_BOOT_SERVICES_GET_MEMORY_MAP_OFFSET);
       allocatePool \<leftarrow> read64 F e (bootServicesBytes + EFI_BOOT_SERVICES_ALLOCATE_POOL_OFFSET);
       freePool \<leftarrow> read64 F e (bootServicesBytes + EFI_BOOT_SERVICES_FREE_POOL_OFFSET);
       handleProtocol \<leftarrow> read64 F e (bootServicesBytes + EFI_BOOT_SERVICES_HANDLE_PROTOCOL_OFFSET);
       locateHandleBuffer \<leftarrow> read64 F e (bootServicesBytes + EFI_BOOT_SERVICES_LOCATE_HANDLE_BUFFER_OFFSET);
       exitBootServices \<leftarrow> read64 F e (bootServicesBytes + EFI_BOOT_SERVICES_EXIT_BOOT_SERVICES_OFFSET);
       let (ticks, e) = EstimateTscTicksPerSecond F stall e;
       let b = b\<lparr>TscTicksPerSecond := ticks\<rparr>;
       let shadowPixelCount = PixelsPerScanLine fb * ScreenHeight fb;
       (shadowBuffer, h, e) \<leftarrow> AllocateSurface F allocatePool shadowPixelCount (Framebuffer fb) (h, e);
       let b = b\<lparr>ShadowFramebuffer := shadowBuffer\<rparr>;
       (composeBuffer, h, e) \<leftarrow> AllocateSurface F allocatePool shadowPixelCount
          (if ShadowFramebuffer b \<noteq> 0 then ShadowFramebuffer b else Framebuffer fb) (h, e);
       let b = b\<lparr>ComposeFramebuffer := composeBuffer\<rparr>;
       h \<leftarrow> DrawTextString A fb 24 18 (Some ''Dragon OS Loader'') 255 255 255 h;
       h \<leftarrow> DrawTextString A fb 24 52 (Some ''Collecting framebuffer, PCI, and memory-map info...'') 180 220 255 h;
       h \<leftarrow> DrawTextString A fb 24 86 (Some (gRuntimeSummaryText A)) 180 180 255 h;
       h \<leftarrow> DrawTextString A fb 24 114 (Some (gRuntimeVideoText A)) 255 200 160 h;
       let e = PreserveUiSubsystemReferences (Stall F stall 250000 e);
       (b, e) \<leftarrow> CollectPciDevices F locateHandleBuffer handleProtocol freePool (b, e);
       (status, b, h, e) \<leftarrow> ExitBootServicesForKernel F imageHandle getMemoryMap allocatePool exitBootServices b (h, e);
       if status \<noteq> EFI_SUCCESS then Some (Inl status, h, e) else Some (Inr b, h, e) } })"

subsection \<open>Repainting buttons\<close>

abbreviation on_box :: "UI_BOX \<Rightarrow> UINT32 \<Rightarrow> UINT32 \<Rightarrow> bool" where
  "on_box b x y \<equiv> in_rect (UI_BOX.X b) (UI_BOX.Y b) (Width b) (Height b) x y"

lemma on_box_iff:
  assumes "button_ok b"
  shows "on_box b x y \<longleftrightarrow> unat (UI_BOX.X b) \<le> unat x \<and> unat x < unat (UI_BOX.X b) + unat (Width b) \<and>
     unat (UI_BOX.Y b) \<le> unat y \<and> unat y < unat (UI_BOX.Y b) + unat (Height b)"
  by (auto simp: in_rect_def word_le_nat_alt word_less_nat_alt unat_diff)

text \<open>\<open>fresh Z\<close>: only visible pixels in \<open>Z\<close> may have changed.\<close>

definition within :: "FRAMEBUFFER_INFO \<Rightarrow> (UINT32 \<Rightarrow> UINT32 \<Rightarrow> bool) \<Rightarrow> heap \<Rightarrow> heap \<Rightarrow> bool" where
  "within fb Z h h' \<longleftrightarrow> draws fb h h' \<and>
     (\<forall>x y. on_screen fb x y \<longrightarrow> \<not> Z x y \<longrightarrow> h' (pixel_at fb x y) = h (pixel_at fb x y))"

lemma within_refl [simp]: "within fb Z h h"
  by (simp add: within_def)

lemma within_trans: "within fb Z h h1 \<Longrightarrow> within fb Z h1 h2 \<Longrightarrow> within fb Z h h2"
  by (auto simp: within_def intro: draws_trans)

lemma within_mono: "within fb Z h h' \<Longrightarrow> (\<And>x y. Z x y \<Longrightarrow> Z' x y) \<Longrightarrow> within fb Z' h h'"
  by (auto simp: within_def)

lemma within_mapped: "within fb Z h h' \<Longrightarrow> mapped fb' h' = mapped fb' h"
  by (auto simp: within_def draws_mapped)

definition labels_ok :: "ASSETS \<Rightarrow> bool" where
  "labels_ok A \<longleftrightarrow> label_fits (SetupUiFont A) ''Install'' \<and> label_fits (SetupUiFont A) ''Try''"

lemma DrawSetupButton_within:
  assumes m: "mapped fb h" and f: "format_ok fb" and F: "font_ok (SetupUiFont A)"
    and l: "label_fits (SetupUiFont A) label" and b: "button_ok b"
  shows "wp (within fb (on_box b) h) (DrawSetupButton A (Some fb) (Some b) (Some label) hov h)"
proof -
  have lw: "newline \<notin> glyph_of ` set label" "label_width (SetupUiFont A) label < 2147483648"
    using l by (auto simp: label_fits_def)
  show ?thesis
  proof (rule wp_mono [OF DrawSetupButton_recolours [OF m f F lw]])
    fix h' assume r: "recolours fb (button_shader A fb b label hov) h h'"
    have "h' (pixel_at fb x y) = h (pixel_at fb x y)" if "on_screen fb x y" "\<not> on_box b x y" for x y
      using recoloursD_pixel [OF r that(1)] that(2) button_shader_outside [OF b l, of x y]
      unfolding on_box_iff [OF b] by (cases "h (pixel_at fb x y)") auto
    then show "within fb (on_box b) h h'" using recolours_draws [OF r] by (simp add: within_def)
  qed
qed

definition hover_area :: "SETUP_UI_STATE \<Rightarrow> UINT32 \<Rightarrow> UINT32 \<Rightarrow> UINT32 \<Rightarrow> UINT32 \<Rightarrow> bool" where
  "hover_area ui prev cur x y \<longleftrightarrow>
     ((prev = 1 \<or> cur = 1) \<and> on_box (InstallButton ui) x y) \<or> ((prev = 2 \<or> cur = 2) \<and> on_box (TryButton ui) x y)"

lemma RefreshSetupButtons_within:
  assumes m: "mapped fb h" and f: "format_ok fb" and F: "font_ok (SetupUiFont A)" and l: "labels_ok A"
    and b: "layout_ok fb' ui"
  shows "wp (within fb (hover_area ui prev cur) h) (RefreshSetupButtons A (Some fb) (Some ui) prev cur h)"
proof (cases "prev = cur")
  case False
  have bo: "button_ok (InstallButton ui)" "button_ok (TryButton ui)" using b by (simp_all add: layout_ok_def)
  have lf: "label_fits (SetupUiFont A) ''Install''" "label_fits (SetupUiFont A) ''Try''" using l by (simp_all add: labels_ok_def)
  have i: "wp (within fb (hover_area ui prev cur) h1) (if prev = 1 \<or> cur = 1
      then DrawSetupButton A (Some fb) (Some (InstallButton ui)) (Some ''Install'') v h1 else Some h1)"
    if "mapped fb h1" for h1 v
    using DrawSetupButton_within [OF that f F lf(1) bo(1), of v] by (auto simp: hover_area_def elim!: wp_mono within_mono)
  have t: "wp (within fb (hover_area ui prev cur) h1) (if prev = 2 \<or> cur = 2
      then DrawSetupButton A (Some fb) (Some (TryButton ui)) (Some ''Try'') v h1 else Some h1)"
    if "mapped fb h1" for h1 v
    using DrawSetupButton_within [OF that f F lf(2) bo(2), of v] by (auto simp: hover_area_def elim!: wp_mono within_mono)
  show ?thesis
    unfolding RefreshSetupButtons_def option.case prod.case if_not_P [OF False] wp_bind
    by (rule wp_mono [OF i [OF m]], rule wp_mono [OF t])
       (use m in \<open>auto simp: within_mapped intro: within_trans\<close>)
qed (simp add: RefreshSetupButtons_def)

subsection \<open>Keeping screen and shadow in step\<close>

text \<open>The screen shows the shadow except perhaps in \<open>Z\<close>.\<close>

definition stale :: "(UINT32 \<Rightarrow> UINT32 \<Rightarrow> bool) \<Rightarrow> FRAMEBUFFER_INFO \<Rightarrow> FRAMEBUFFER_INFO \<Rightarrow> heap \<Rightarrow> bool" where
  "stale Z d s h \<longleftrightarrow> (\<forall>x y. on_screen d x y \<longrightarrow> \<not> Z x y \<longrightarrow> h (pixel_at d x y) = h (pixel_at s x y))"

lemma stale_mono: "stale Z d s h \<Longrightarrow> (\<And>x y. Z x y \<Longrightarrow> Z' x y) \<Longrightarrow> stale Z' d s h"
  by (auto simp: stale_def)

lemma stale_synced: "stale (\<lambda>_ _. False) d s h = synced d s h"
  by (simp add: stale_def synced_def)

lemma displays_stale: "displays A d s c h \<Longrightarrow> stale (under_cursor c) d s h"
  unfolding stale_def
proof (intro allI impI)
  fix x y assume d: "displays A d s c h" "on_screen d x y" "\<not> under_cursor c x y"
  then have "h (pixel_at d x y) = map_option (cursor_shader A c x y) (h (pixel_at s x y))" by (simp add: displays_def)
  then show "h (pixel_at d x y) = h (pixel_at s x y)"
    using d(3) by (cases "h (pixel_at s x y)") (simp_all add: cursor_shader_def)
qed

definition two_surfaces :: "FRAMEBUFFER_INFO \<Rightarrow> FRAMEBUFFER_INFO \<Rightarrow> heap \<Rightarrow> bool" where
  "two_surfaces d s h \<longleftrightarrow> mapped d h \<and> mapped s h \<and> apart d s \<and> same_size d s \<and>
     Framebuffer d \<noteq> 0 \<and> Framebuffer s \<noteq> 0 \<and> Framebuffer s \<noteq> Framebuffer d"

lemma two_surfaces_dom: "dom h' = dom h \<Longrightarrow> two_surfaces d s h' = two_surfaces d s h"
  by (simp add: two_surfaces_def mapped_def)

text \<open>Copying a rectangle from the shadow brings it up to date.\<close>

lemma BlitSurfaceRect_syncs:
  assumes t: "two_surfaces d s h" and st: "stale Z d s h"
  shows "wp (\<lambda>h'. dom h' = dom h \<and> stale (\<lambda>u v. Z u v \<and> \<not> in_rect x y w n u v) d s h' \<and> (\<forall>q. q \<notin> surface_cells d \<longrightarrow> h' q = h q))
    (BlitSurfaceRect (Some d) (Some s) x y w n h)"
proof -
  have m: "mapped d h" "mapped s h" "apart d s" "same_size d s" "Framebuffer d \<noteq> 0" "Framebuffer s \<noteq> 0"
    using t by (simp_all add: two_surfaces_def)
  have ok: "surface_ok d" "surface_ok s" using m by (simp_all add: mapped_def)
  note sz = same_size_simps [OF m(4)]
  show ?thesis
  proof (rule wp_mono [OF BlitSurfaceRect_recolours [OF m(1,2,3,5,6)]], intro conjI allI impI)
    fix h' assume r: "recolours d (\<lambda>X Y c. if in_rect x y w n X Y \<and> on_screen s X Y then the (h (pixel_at s X Y)) else c) h h'"
    show "dom h' = dom h" using r by (simp add: recolours_dom)
    show keep: "h' q = h q" if "q \<notin> surface_cells d" for q
      using recoloursD_other [OF r, of q] visible_subset [OF ok(1)] that by blast
    show "stale (\<lambda>u v. Z u v \<and> \<not> in_rect x y w n u v) d s h'"
      unfolding stale_def
    proof (intro allI impI)
      fix u v assume scr: "on_screen d u v" and z: "\<not> (Z u v \<and> \<not> in_rect x y w n u v)"
      obtain p where p: "h (pixel_at s u v) = Some p" using mapped_pixel [OF m(2), of u v] scr by (auto simp: sz)
      obtain q where q: "h (pixel_at d u v) = Some q" using mapped_pixel [OF m(1) scr] by blast
      have "h' (pixel_at s u v) = h (pixel_at s u v)"
        by (rule apart_keeps_source [OF m(3) ok r]) (simp add: sz scr)
      then show "h' (pixel_at d u v) = h' (pixel_at s u v)"
        using recoloursD_pixel [OF r scr] z st scr p q by (auto simp: sz stale_def)
    qed
  qed
qed

lemma ChangeHover_syncs:
  assumes t: "two_surfaces d s h" and sy: "synced d s h" and f: "format_ok s" and F: "font_ok (SetupUiFont A)"
    and l: "labels_ok A" and b: "layout_ok d ui"
  shows "wp (\<lambda>(ui', h'). ui' = ui\<lparr>HoveredButton := hov\<rparr> \<and> dom h' = dom h \<and> synced d s h' \<and>
      (\<forall>q. q \<notin> surface_cells d \<union> surface_cells s \<longrightarrow> h' q = h q)) (ChangeHover A d s ui hov h)"
proof (cases "hov = HoveredButton ui")
  case True
  then show ?thesis using sy by (simp add: ChangeHover_def)
next
  case False
  let ?ui = "ui\<lparr>HoveredButton := hov\<rparr>" and ?prev = "HoveredButton ui"
  have ms: "mapped s h" and ne: "Framebuffer s \<noteq> Framebuffer d" and size: "same_size d s" and ap: "apart d s"
    and md: "mapped d h" using t by (simp_all add: two_surfaces_def)
  have ok: "surface_ok d" "surface_ok s" using md ms by (simp_all add: mapped_def)
  have lay: "layout_ok d ?ui" using b by (simp add: layout_ok_def)
  have blit: "wp (\<lambda>h'. dom h' = dom h1 \<and> stale (\<lambda>u v. Z u v \<and> \<not> (P \<and> on_box bx u v)) d s h' \<and>
      (\<forall>q. q \<notin> surface_cells d \<longrightarrow> h' q = h1 q))
    (if P then BlitSurfaceRect (Some d) (Some s) (UI_BOX.X bx) (UI_BOX.Y bx) (Width bx) (Height bx) h1 else Some h1)"
    if "dom h1 = dom h" "stale Z d s h1" for h1 Z P bx
  proof (cases P)
    case True
    have "two_surfaces d s h1" using t two_surfaces_dom [OF that(1)] by simp
    then show ?thesis using BlitSurfaceRect_syncs [OF _ that(2)] True by simp
  qed (use that in simp)
  have start: "stale (hover_area ?ui ?prev hov) d s h1 \<and> dom h1 = dom h \<and> (\<forall>q. q \<notin> surface_cells s \<longrightarrow> h1 q = h q)"
    if w: "within s (hover_area ?ui ?prev hov) h h1" for h1
  proof (intro conjI allI impI)
    show keep: "h1 q = h q" if "q \<notin> surface_cells s" for q
      using w visible_subset [OF ok(2)] that by (auto simp: within_def draws_def)
    show "dom h1 = dom h" using w by (simp add: within_def draws_def)
    show "stale (hover_area ?ui ?prev hov) d s h1"
      unfolding stale_def
    proof (intro allI impI)
      fix u v assume scr: "on_screen d u v" and z: "\<not> hover_area ?ui ?prev hov u v"
      have "pixel_at d u v \<notin> surface_cells s"
        using pixel_at_in_surface [OF ok(1) scr] ap unfolding apart_def by blast
      moreover have "h1 (pixel_at s u v) = h (pixel_at s u v)"
        using w z scr same_size_simps(1) [OF size] by (simp add: within_def)
      ultimately show "h1 (pixel_at d u v) = h1 (pixel_at s u v)"
        using keep sy scr by (simp add: synced_def)
    qed
  qed
  show ?thesis
    unfolding ChangeHover_def if_not_P [OF False] Let_def if_P [OF ne] wp_bind
  proof (rule wp_mono [OF RefreshSetupButtons_within [OF ms f F l lay]], drule start, elim conjE, goal_cases)
    case (1 h1)
    show ?case
    proof (rule wp_mono [OF blit [OF 1(2,1)]], elim conjE, goal_cases)
      case (1 h2)
      then have "dom h2 = dom h" using \<open>dom h1 = dom h\<close> by simp
      from blit [OF this 1(2)] show ?case
      proof (rule wp_mono, elim conjE, goal_cases)
        case (1 h3)
        have "synced d s h3"
          unfolding stale_synced [symmetric] by (rule stale_mono [OF 1(3)]) (auto simp: hover_area_def)
        then show ?case using 1 \<open>dom h2 = dom h\<close> \<open>\<forall>q. q \<notin> surface_cells d \<longrightarrow> h2 q = h1 q\<close>
            \<open>\<forall>q. q \<notin> surface_cells s \<longrightarrow> h1 q = h q\<close> by simp
      qed
    qed
  qed
qed

subsection \<open>The invariant of the loop\<close>

text \<open>What never changes: the assets, the surfaces and the layout.\<close>

definition kernel_fixed :: "ASSETS \<Rightarrow> 'e kernel \<Rightarrow> bool" where
  "kernel_fixed A k \<longleftrightarrow> assets_ok A \<and> labels_ok A \<and> format_ok (screen k) \<and> format_ok (shadow k) \<and>
     layout_ok (screen k) (setupUi k) \<and> two_surfaces (screen k) (shadow k) (memory k) \<and>
     compositor_ok A (screen k) (shadow k) (Some (compose k)) (pointer k) (memory k)"

text \<open>
  The invariant: the cursor is on the screen and drawn there, the screen shows the shadow with
  the cursor on top, and the mouse driver is in step.
\<close>

definition kernel_ok :: "ASSETS \<Rightarrow> 'e kernel \<Rightarrow> bool" where
  "kernel_ok A k \<longleftrightarrow> kernel_fixed A k \<and> ps2_ok (mouseState k) \<and> in_bounds A (screen k) (pointer k) \<and>
     cursor_ok A (screen k) (pointer k) \<and> clipped A (screen k) (pointer k) \<and> Visible (pointer k) = 1 \<and>
     displays A (screen k) (shadow k) (pointer k) (memory k)"

lemma displays_moves:
  "moves c c' \<Longrightarrow> SOFTWARE_CURSOR.X c' = SOFTWARE_CURSOR.X c \<Longrightarrow> SOFTWARE_CURSOR.Y c' = SOFTWARE_CURSOR.Y c \<Longrightarrow>
   displays A d s c' h = displays A d s c h"
  by (simp add: displays_def cursor_shader_def under_cursor_def cursor_index_def moves_def)

text \<open>Compositing keeps the cursor's arrays and makes it visible, clipped and displayed.\<close>

lemma BlitCursorComposite_kernel:
  assumes ok: "compositor_ok A d s co c h" and b: "in_bounds A d c" and cok: "cursor_ok A d c" and sy: "synced d s h"
  shows "wp (\<lambda>(h', c'). \<exists>e. c' = Some e \<and> dom h' = dom h \<and> SavedPixels e = SavedPixels c \<and>
      SOFTWARE_CURSOR.X e = SOFTWARE_CURSOR.X c \<and> SOFTWARE_CURSOR.Y e = SOFTWARE_CURSOR.Y c \<and>
      in_bounds A d e \<and> cursor_ok A d e \<and> clipped A d e \<and> Visible e = 1 \<and> displays A d s e h')
    (BlitCursorComposite A (Some d) (Some s) co (Some c) h)"
proof (rule wp_mono [OF BlitCursorComposite_displays [OF ok cok sy]], clarify, goal_cases)
  case (1 h' c')
  let ?c = "saved_cursor A d c"
  have "surface_ok d" using ok by (simp add: compositor_ok_def mapped_def)
  then have "clipped A d ?c" using cok by (rule saved_cursor_clipped)
  then have "clipped A d (?c\<lparr>Visible := 1\<rparr>)" by (simp add: clipped_def)
  moreover have "displays A d s (?c\<lparr>Visible := 1\<rparr>) h'"
    using 1 by (simp add: displays_def cursor_shader_def under_cursor_def cursor_index_def)
  ultimately show ?case using 1 b cok by (auto simp: in_bounds_def cursor_ok_def saved_cursor_def)
qed

lemma kernel_fixed_cong:
  assumes "kernel_fixed A k" "dom h = dom (memory k)" "SavedPixels c = SavedPixels (pointer k)"
  shows "kernel_fixed A (k\<lparr>pointer := c, mouseState := m, setupUi := (setupUi k)\<lparr>HoveredButton := v\<rparr>, memory := h, device := e\<rparr>)"
  using assms compositor_ok_dom [OF assms(2), of A "screen k" "shadow k" "Some (compose k)" c]
    compositor_ok_cursor [OF assms(3), of A "screen k" "shadow k" "Some (compose k)" "memory k"]
    two_surfaces_dom [OF assms(2)]
  by (simp add: kernel_fixed_def layout_ok_def)

text \<open>
  An iteration with movement: the old cursor is erased, the hovered button updated and repainted,
  and the cursor drawn at its new place.
\<close>

lemma KernelStep_redraw:
  assumes ok: "kernel_ok A k" and mv: "moves (pointer k) c" and b: "in_bounds A (screen k) c" and p: "ps2_ok m"
  shows "wp (\<lambda>k'. kernel_ok A k' \<and> HoveredButton (setupUi k') = HitTestSetupUi A (Some (setupUi k')) (Some (pointer k')))
    (do {
      (h, cursor) \<leftarrow> do {
         h \<leftarrow> BlitSurfaceRect (Some (screen k)) (Some (shadow k)) (SOFTWARE_CURSOR.X (pointer k)) (SOFTWARE_CURSOR.Y (pointer k))
                (SavedWidth c) (SavedHeight c) (memory k);
         Some (h, c\<lparr>Visible := 0\<rparr>) };
      let hoveredButton = HitTestSetupUi A (Some (setupUi k)) (Some cursor);
      (ui, h) \<leftarrow> ChangeHover A (screen k) (shadow k) (setupUi k) hoveredButton h;
      (h, cursor) \<leftarrow> BlitCursorComposite A (Some (screen k)) (Some (shadow k)) (Some (compose k)) (Some cursor) h;
      cursor \<leftarrow> cursor;
      Some (k\<lparr>pointer := cursor, mouseState := m, setupUi := ui, memory := h, device := e\<rparr>) })"
proof -
  let ?d = "screen k" and ?s = "shadow k" and ?h = "memory k" and ?c = "c\<lparr>Visible := 0\<rparr>"
  have fx: "kernel_fixed A k" and disp: "displays A ?d ?s (pointer k) ?h" and cok: "cursor_ok A ?d (pointer k)"
    using ok by (simp_all add: kernel_ok_def)
  have t: "two_surfaces ?d ?s ?h" and f: "format_ok ?s" and F: "font_ok (SetupUiFont A)" and l: "labels_ok A"
    and lay: "layout_ok ?d (setupUi k)" and comp: "compositor_ok A ?d ?s (Some (compose k)) (pointer k) ?h"
    using fx by (simp_all add: kernel_fixed_def assets_ok_def)
  have bc: "in_bounds A ?d ?c" using b by (simp add: in_bounds_def)

  have sp: "SavedPixels ?c = SavedPixels (pointer k)" using mv by (simp add: moves_def)
  have cokc: "cursor_ok A ?d ?c" using moves_cursor_ok [OF mv b cok] by (simp add: cursor_ok_def)
  have size: "SavedWidth c = SavedWidth (pointer k)" "SavedHeight c = SavedHeight (pointer k)" using mv by (simp_all add: moves_def)
  have e1: "wp (\<lambda>h1. dom h1 = dom ?h \<and> synced ?d ?s h1)
    (BlitSurfaceRect (Some ?d) (Some ?s) (SOFTWARE_CURSOR.X (pointer k)) (SOFTWARE_CURSOR.Y (pointer k)) (SavedWidth c) (SavedHeight c) ?h)"
    using BlitSurfaceRect_syncs [OF t displays_stale [OF disp], of "SOFTWARE_CURSOR.X (pointer k)" "SOFTWARE_CURSOR.Y (pointer k)"
        "SavedWidth c" "SavedHeight c"]
    by (rule wp_mono) (simp add: size under_cursor_def stale_synced)
  have e2: "wp (\<lambda>(ui, h2). ui = (setupUi k)\<lparr>HoveredButton := hov\<rparr> \<and> dom h2 = dom ?h \<and> synced ?d ?s h2)
      (ChangeHover A ?d ?s (setupUi k) hov h1)" if "dom h1 = dom ?h" "synced ?d ?s h1" for h1 hov
  proof -
    have "two_surfaces ?d ?s h1" using t two_surfaces_dom [OF that(1)] by simp
    from ChangeHover_syncs [OF this that(2) f F l lay, of hov] show ?thesis by (rule wp_mono) (use that in auto)
  qed
  have e3: "wp (\<lambda>(h3, c3). \<exists>e. c3 = Some e \<and> dom h3 = dom ?h \<and> SavedPixels e = SavedPixels (pointer k) \<and>
      SOFTWARE_CURSOR.X e = SOFTWARE_CURSOR.X c \<and> SOFTWARE_CURSOR.Y e = SOFTWARE_CURSOR.Y c \<and>
      in_bounds A ?d e \<and> cursor_ok A ?d e \<and> clipped A ?d e \<and> Visible e = 1 \<and> displays A ?d ?s e h3)
    (BlitCursorComposite A (Some ?d) (Some ?s) (Some (compose k)) (Some ?c) h2)" if "dom h2 = dom ?h" "synced ?d ?s h2" for h2
  proof -
    have "compositor_ok A ?d ?s (Some (compose k)) ?c h2"
      using comp compositor_ok_dom [OF that(1)] compositor_ok_cursor [OF sp] by simp
    from BlitCursorComposite_kernel [OF this bc cokc that(2)] show ?thesis
      by (rule wp_mono) (use that sp in auto)
  qed
  have hit: "HitTestSetupUi A (Some (ui\<lparr>HoveredButton := v\<rparr>)) (Some c1) = HitTestSetupUi A (Some ui) (Some c2)"
    if "SOFTWARE_CURSOR.X c1 = SOFTWARE_CURSOR.X c2" "SOFTWARE_CURSOR.Y c1 = SOFTWARE_CURSOR.Y c2" for ui v c1 c2
    using that by (simp add: HitTestSetupUi_def Let_def cong: if_cong)
  show ?thesis
    unfolding wp_bind Let_def
  proof (rule wp_mono [OF e1], simp, elim conjE, rule wp_mono [OF e2], assumption, assumption, clarify, goal_cases)
    case (1 h1 ui h2)
    show ?case
      by (simp only: wp_bind, rule wp_mono [OF e3 [OF 1(3,4)]])
         (use kernel_fixed_cong [OF fx] p in \<open>auto simp: wp_bind kernel_ok_def intro!: hit [symmetric]\<close>)
  qed
qed

text \<open>
  Every iteration has a result and keeps the invariant, moved or not; when the cursor has moved, the
  button under it is the hovered one.
\<close>

lemma KernelStep_hover:
  assumes ok: "kernel_ok A k"
  shows "wp (\<lambda>k'. kernel_ok A k' \<and>
      (SOFTWARE_CURSOR.X (pointer k') \<noteq> SOFTWARE_CURSOR.X (pointer k) \<or> SOFTWARE_CURSOR.Y (pointer k') \<noteq> SOFTWARE_CURSOR.Y (pointer k) \<longrightarrow>
       HoveredButton (setupUi k') = HitTestSetupUi A (Some (setupUi k')) (Some (pointer k')))) (KernelStep A P k)"
proof -
  have fx: "kernel_fixed A k" and p: "ps2_ok (mouseState k)" and b: "in_bounds A (screen k) (pointer k)"
    and vis: "Visible (pointer k) = 1" using ok by (simp_all add: kernel_ok_def)
  have so: "surface_ok (screen k)" using fx by (simp add: kernel_fixed_def two_surfaces_def mapped_def)
  have idle: "kernel_ok A (k\<lparr>pointer := e, mouseState := n, device := d\<rparr>)"
    if e: "moves (pointer k) e" "in_bounds A (screen k) e" "ps2_ok n"
      "SOFTWARE_CURSOR.X e = SOFTWARE_CURSOR.X (pointer k)" "SOFTWARE_CURSOR.Y e = SOFTWARE_CURSOR.Y (pointer k)" for e n d
  proof -
    have "SavedPixels e = SavedPixels (pointer k)" "cursor_ok A (screen k) e"
      using e(1) moves_cursor_ok [OF e(1,2)] ok by (simp_all add: moves_def kernel_ok_def)
    then show ?thesis
      using ok e displays_moves [OF e(1,4,5)] compositor_ok_cursor [of e "pointer k"]
      by (simp add: kernel_ok_def kernel_fixed_def clipped_def moves_def)
  qed
  show ?thesis
    unfolding KernelStep_def Let_def wp_bind
  proof (rule wp_mono [OF UpdateCursorFromPs2Mouse_wp [OF p so b, of P "device k"]], goal_cases)
    case (1 x)
    then obtain r n e d where x: "x = (r, Some n, Some e, d)" "ps2_ok n" "moves (pointer k) e" "in_bounds A (screen k) e"
      "r = 0 \<longrightarrow> SOFTWARE_CURSOR.X e = SOFTWARE_CURSOR.X (pointer k) \<and> SOFTWARE_CURSOR.Y e = SOFTWARE_CURSOR.Y (pointer k)"
      by (auto split: prod.splits)
    show ?case
    proof (cases "r = 0")
      case True
      then show ?thesis using x idle [OF x(3,4,2)] by simp
    next
      case False
      then show ?thesis
        using KernelStep_redraw [OF ok x(3,4,2), of d] vis by (auto simp: x(1) Let_def elim!: wp_mono)
    qed
  qed
qed

lemma KernelStep_moved:
  assumes ok: "kernel_ok A k" and r: "r \<noteq> 0"
    and u: "UpdateCursorFromPs2Mouse A P (Some (mouseState k)) (Some (pointer k)) (Some (screen k)) (device k) = Some (r, m, c, e)"
  shows "wp (\<lambda>k'. kernel_ok A k' \<and> HoveredButton (setupUi k') = HitTestSetupUi A (Some (setupUi k')) (Some (pointer k')))
    (KernelStep A P k)"
proof -
  have p: "ps2_ok (mouseState k)" and b: "in_bounds A (screen k) (pointer k)" and vis: "Visible (pointer k) = 1"
    and so: "surface_ok (screen k)"
    using ok by (simp_all add: kernel_ok_def kernel_fixed_def two_surfaces_def mapped_def)
  obtain n d where x: "m = Some n" "c = Some d" "ps2_ok n" "moves (pointer k) d" "in_bounds A (screen k) d"
    using UpdateCursorFromPs2Mouse_wp [OF p so b, of P "device k"] by (auto simp: u)
  show ?thesis
    using KernelStep_redraw [OF ok x(4,5,3), of e] vis r by (simp add: KernelStep_def u x(1,2) Let_def)
qed

lemma KernelStep_ok: "kernel_ok A k \<Longrightarrow> wp (kernel_ok A) (KernelStep A P k)"
  using KernelStep_hover by (rule wp_mono) simp_all

lemma KernelIterations_ok: "kernel_ok A k \<Longrightarrow> wp (kernel_ok A) (KernelIterations A P n k)"
proof (induction n arbitrary: k)
  case (Suc n)
  show ?case
    using wp_mono [OF KernelStep_ok [OF Suc.prems] Suc.IH] by simp
qed simp

text \<open>As an invariant of the step relation, over every reachable state; no reachable state is stuck.\<close>

lemma kernel_step_ok: "kernel_step A P k k' \<Longrightarrow> kernel_ok A k \<Longrightarrow> kernel_ok A k'"
  using KernelStep_ok [of A k P] by (auto elim!: kernel_stepE)

lemma kernel_reachable_ok: "(kernel_step A P)\<^sup>*\<^sup>* k k' \<Longrightarrow> kernel_ok A k \<Longrightarrow> kernel_ok A k'"
  by (induction rule: rtranclp_induct) (auto intro: kernel_step_ok)

lemma kernel_progress: "kernel_ok A k \<Longrightarrow> \<exists>k'. kernel_step A P k k'"
  using KernelStep_ok [of A k P] by (auto simp: kernel_step_iff elim: wpE)

lemma kernel_deterministic: "kernel_step A P k k1 \<Longrightarrow> kernel_step A P k k2 \<Longrightarrow> k1 = k2"
  by (simp add: kernel_step_iff)

lemma kernel_step_iterations: "(kernel_step A P ^^ n) k k' \<longleftrightarrow> KernelIterations A P n k = Some k'"
proof (induction n arbitrary: k)
  case (Suc n)
  show ?case
    by (simp only: relpowp_Suc_left) (auto simp: relcompp_apply kernel_step_iff Suc.IH bind_eq_Some_conv)
qed auto

subsection \<open>Entering the loop\<close>

text \<open>
  What the loader hands over: a screen of a size the set-up screen is made for, its own shadow
  buffer of that size, and the stack arrays of the cursor and the mouse driver.
\<close>

definition boot_ok :: "ASSETS \<Rightarrow> KERNEL_BOOT_INFO \<Rightarrow> SOFTWARE_CURSOR \<Rightarrow> PS2_MOUSE_STATE \<Rightarrow> heap \<Rightarrow> bool" where
  "boot_ok A b c0 m0 h \<longleftrightarrow> assets_ok A \<and> labels_ok A \<and> format_ok (BootFramebuffer b) \<and> screen_ok (BootFramebuffer b) \<and>
     ShadowFramebuffer b \<noteq> 0 \<and> ShadowFramebuffer b \<noteq> Framebuffer (BootFramebuffer b) \<and>
     compositor_ok A (BootFramebuffer b) (ShadowInfo b) (Some (ComposeInfo b)) c0 h \<and>
     length (OpaqueMask c0) = unat (CURSOR_WIDTH A) * unat (CURSOR_HEIGHT A) \<and>
     length (ResolvedPixels c0) = unat (CURSOR_WIDTH A) * unat (CURSOR_HEIGHT A) \<and> 3 \<le> length (Packet m0)"

lemma ShadowInfo_simps [simp]:
  "ScreenWidth (ShadowInfo b) = ScreenWidth (BootFramebuffer b)"
  "ScreenHeight (ShadowInfo b) = ScreenHeight (BootFramebuffer b)"
  "PixelsPerScanLine (ShadowInfo b) = PixelsPerScanLine (BootFramebuffer b)"
  "format_ok (ShadowInfo b) = format_ok (BootFramebuffer b)"
  by (simp_all add: ShadowInfo_def Let_def format_ok_def)

lemma boot_ok_surfaces:
  assumes "boot_ok A b c0 m0 h"
  shows "two_surfaces (BootFramebuffer b) (ShadowInfo b) h"
  using assms by (auto simp: boot_ok_def two_surfaces_def compositor_ok_def ShadowInfo_def Let_def)

text \<open>Copying the whole shadow buffer to the screen.\<close>

lemma CopyPixels32_syncs:
  assumes t: "two_surfaces d s h" and p: "PixelsPerScanLine s = PixelsPerScanLine d"
  shows "wp (\<lambda>h'. dom h' = dom h \<and> synced d s h')
    (CopyPixels32 (Framebuffer d) (Framebuffer s) (PixelsPerScanLine d * ScreenHeight d) h)"
proof -
  let ?n = "unat (PixelsPerScanLine d * ScreenHeight d)"
  have H: "ScreenHeight s = ScreenHeight d" and W: "ScreenWidth s = ScreenWidth d"
    and ok: "surface_ok d" "surface_ok s" and ap: "apart d s"
    using t by (simp_all add: two_surfaces_def same_size_def mapped_def)
  have c: "surface_cells d = cells (Framebuffer d) ?n" "surface_cells s = cells (Framebuffer s) ?n"
    by (simp_all add: surface_cells_def H p)
  have m: "surface_cells d \<subseteq> dom h" "surface_cells s \<subseteq> dom h" using t by (simp_all add: two_surfaces_def mapped_def)
  have r: "CopyPixels32 (Framebuffer d) (Framebuffer s) (PixelsPerScanLine d * ScreenHeight d) h
      = Some (blit (Framebuffer d) (Framebuffer s) ?n h)"
    by (rule CopyPixels32_blit) (use m ap c in \<open>auto simp: apart_def\<close>)
  have "blit (Framebuffer d) (Framebuffer s) ?n h (pixel_at d x y) = blit (Framebuffer d) (Framebuffer s) ?n h (pixel_at s x y)"
    if "on_screen d x y" for x y
  proof -
    have d: "pixel_at d x y \<in> surface_cells d" using pixel_at_in_surface [OF ok(1) that] .
    have "on_screen s x y" using that by (simp add: on_screen_def H W)
    then have "pixel_at s x y \<in> surface_cells s" by (rule pixel_at_in_surface [OF ok(2)])
    then have "pixel_at s x y \<notin> surface_cells d" using ap by (auto simp: apart_def)
    moreover have "pixel_at d x y - Framebuffer d + Framebuffer s = pixel_at s x y"
      by (simp add: pixel_at_def elem32_def p)
    ultimately show ?thesis using d by (simp add: blit_def c)
  qed
  moreover have "dom (blit (Framebuffer d) (Framebuffer s) ?n h) = dom h"
    using dom_blit [of "Framebuffer d" ?n h "Framebuffer s"] m c by simp
  ultimately show ?thesis by (simp add: r synced_def)
qed

lemma paints_dom: "paints fb h h' \<Longrightarrow> dom h' = dom h"
  by (simp add: paints_def)

text \<open>The loop starts in the invariant.\<close>

lemma StartKernel_ok:
  assumes ok: "boot_ok A b c0 m0 h"
  shows "wp (kernel_ok A) (StartKernel A P b c0 m0 ui0 (h, e))"
proof -
  let ?fb = "BootFramebuffer b" and ?sh = "ShadowInfo b" and ?co = "ComposeInfo b"
  let ?cc = "CenteredCursor A ?fb c0"
  have A: "assets_ok A" and l: "labels_ok A" and f: "format_ok ?fb" and sc: "screen_ok ?fb"
    and im: "image_ok (CursorImage A)"
    and len: "length (OpaqueMask c0) = unat (CURSOR_WIDTH A) * unat (CURSOR_HEIGHT A)"
      "length (ResolvedPixels c0) = unat (CURSOR_WIDTH A) * unat (CURSOR_HEIGHT A)" "3 \<le> length (Packet m0)"
    and comp: "compositor_ok A ?fb ?sh (Some ?co) c0 h"
    using ok by (simp_all add: boot_ok_def assets_ok_def)
  have t: "two_surfaces ?fb ?sh h" by (rule boot_ok_surfaces [OF ok])
  have ms: "mapped ?sh h" and so: "surface_ok ?fb" and ne: "Framebuffer ?sh \<noteq> Framebuffer ?fb"
    using t by (simp_all add: two_surfaces_def mapped_def)
  have b: "in_bounds A ?fb ?cc"
    using ClampCursor_bounds [OF so] by (simp add: in_bounds_def CenteredCursor_def)
  have keep: "OpaqueMask ?cc = OpaqueMask c0" "ResolvedPixels ?cc = ResolvedPixels c0" "SavedPixels ?cc = SavedPixels c0"
    by (simp_all add: CenteredCursor_def)
  have e1: "wp (\<lambda>c. in_bounds A ?fb c \<and> cursor_ok A ?fb c \<and> SavedPixels c = SavedPixels c0)
    (InitializeCursorSurface A ?fb ?cc)"
  proof (rule wp_mono [OF InitializeCursorSurface_resolves [OF im f]])
    show "length (OpaqueMask ?cc) = unat (CURSOR_WIDTH A) * unat (CURSOR_HEIGHT A)"
      "length (ResolvedPixels ?cc) = unat (CURSOR_WIDTH A) * unat (CURSOR_HEIGHT A)" using len by (simp_all add: keep)
    fix c assume "resolved A ?fb ?cc (unat (CURSOR_HEIGHT A) * unat (CURSOR_WIDTH A)) c"
    then show "in_bounds A ?fb c \<and> cursor_ok A ?fb c \<and> SavedPixels c = SavedPixels c0"
      using b in_bounds_cursor_ok [OF b] im by (auto simp: resolved_def in_bounds_def cursor_ok_def keep)
  qed
  have e4: "wp (\<lambda>h'. dom h' = dom h \<and> synced ?fb ?sh h') (if Framebuffer ?sh \<noteq> Framebuffer ?fb
      then CopyPixels32 (Framebuffer ?fb) (Framebuffer ?sh) (PixelsPerScanLine ?fb * ScreenHeight ?fb) h1 else Some h1)"
    if "dom h1 = dom h" for h1
  proof -
    have "two_surfaces ?fb ?sh h1" using t two_surfaces_dom [OF that] by simp
    from CopyPixels32_syncs [OF this] show ?thesis using ne that by simp
  qed
  show ?thesis
    unfolding StartKernel_def Let_def prod.case wp_bind
  proof (rule wp_mono [OF e1], rule wp_mono [OF InitializePs2Mouse_wp], goal_cases)
    case (1 c r)
    then have c: "in_bounds A ?fb c" "cursor_ok A ?fb c" "SavedPixels c = SavedPixels c0" by simp_all
    from 1 obtain md n where r: "r = (md, Some n, snd (snd r))" "n = fresh_mouse md m0" by (cases r) auto
    have p: "ps2_ok n" using len(3) by (simp add: r(2) fresh_mouse_def ps2_ok_def)
    show ?case
      apply (subst r(1)) apply (simp only: prod.case wp_bind wp_Some)
    proof (rule wp_mono [OF InitializeSetupUiState_layout [OF f sc]], elim exE conjE, simp only: wp_bind wp_Some, goal_cases)
      case (1 x u)
      note u = 1
      show ?case
      proof (rule wp_mono [OF DrawSetupScreen_paints [OF ms _ A]], simp add: f, drule paints_dom, rule wp_mono [OF e4], assumption, goal_cases)
        case (1 h1 h2)
        have d: "dom h2 = dom h" using 1 by simp
        have sy: "synced ?fb ?sh h2" using 1 by simp
        have co: "compositor_ok A ?fb ?sh (Some ?co) c h2"
          using comp compositor_ok_dom [OF d] compositor_ok_cursor [OF c(3)] by simp
        show ?case
        proof (rule wp_mono [OF BlitCursorComposite_kernel [OF co c(1,2) sy]], clarify, goal_cases)
          case (1 h3 w e3)
          have d: "dom h3 = dom h" using 1 d by simp
          have "compositor_ok A ?fb ?sh (Some ?co) e3 h3"
            using comp compositor_ok_dom [OF d] compositor_ok_cursor [of e3 c0] 1 c(3) by simp
          then show ?case
            using A l f u p t two_surfaces_dom [OF d] 1 by (simp add: kernel_ok_def kernel_fixed_def)
        qed
      qed
    qed
  qed
qed

text \<open>So the loop runs for any number of iterations, in the invariant.\<close>

lemma RunKernelMouseLoop_ok:
  assumes "boot_ok A b c0 m0 h"
  shows "wp (\<lambda>r. \<exists>k. r = Inr k \<and> kernel_ok A k) (RunKernelMouseLoop A P n (Some b) c0 m0 ui0 (h, e))"
  unfolding RunKernelMouseLoop_def option.case wp_bind
  by (rule wp_mono [OF StartKernel_ok [OF assms]], drule KernelIterations_ok [of A _ P n]) (auto elim: wp_mono)

subsection \<open>What the loader returns\<close>

text \<open>Without a usable framebuffer the loader gives up, and has drawn nothing.\<close>

lemma EfiMain_no_framebuffer:
  assumes "InitializeFramebuffer F st fb0 e = Some (status, fb, stall, e')" "status \<noteq> EFI_SUCCESS"
  shows "EfiMain A F ih st fb0 b0 (h, e) = Some (Inl status, h, e')"
  using assms by (simp add: EfiMain_def)


end
