(* ===== verification/Loader.thy ===== *)
theory Loader
  imports Kernel
begin

text \<open>
  The loader from power-on to the kernel.  Under what the UEFI specification promises of the boot
  services, \<open>EfiMain\<close> returns an error, or hands over to the mouse loop a boot information block
  with a mapped framebuffer, its own off-screen surfaces, a well-formed device table and the memory
  map that the firmware accepted.
\<close>

subsection \<open>What the firmware promises\<close>

text \<open>
  The tables can be read; \<open>AllocatePool\<close> leaves memory alone and gives out memory nobody has; a handle
  buffer is as long as it says; the sizing call for the memory map fails; the memory map settles.
  The map settles if the firmware refuses a key that was read just before only finitely often,
  counted down by some measure of its state.
\<close>

definition map_settles :: "'e FIRMWARE \<Rightarrow> ('e \<Rightarrow> nat) \<Rightarrow> bool" where
  "map_settles F \<mu> \<longleftrightarrow>
     (\<forall>gmm args mm e args' e1 ebs ih e2. GetMemoryMap F gmm args mm e = (EFI_SUCCESS, args', e1) \<longrightarrow>
        ExitBootServices F ebs ih (MapKey args') e1 = (EFI_INVALID_PARAMETER, e2) \<longrightarrow> \<mu> e2 < \<mu> e)"

definition firmware_ok :: "'e FIRMWARE \<Rightarrow> bool" where
  "firmware_ok F \<longleftrightarrow>
     (\<forall>e p. read64 F e p \<noteq> None) \<and> (\<forall>e p. read32 F e p \<noteq> None) \<and>
     (\<forall>ap t n h e st buffer h' e'. AllocatePool F ap t n (h, e) = (st, buffer, h', e') \<longrightarrow>
        (\<forall>q \<in> dom h. h' q = h q) \<and>
        (st = EFI_SUCCESS \<longrightarrow> (\<forall>p. buffer = Some p \<longrightarrow> p \<noteq> 0 \<longrightarrow> cells p (unat n div 4) \<subseteq> dom h' - dom h))) \<and>
     (\<forall>lhb e n p hs e'. LocateHandleBuffer F lhb EFI_BY_PROTOCOL gPciIoProtocolGuid e = (EFI_SUCCESS, n, Some (p, hs), e') \<longrightarrow>
        unat n \<le> length hs) \<and>
     (\<forall>gmm e. fst (GetMemoryMap F gmm \<lparr>MapSize = 0, MapKey = 0, DescriptorSize = 0, DescriptorVersion = 0\<rparr> 0 e) \<noteq> EFI_SUCCESS) \<and>
     (\<exists>\<mu>. map_settles F \<mu>)"

text \<open>
  The display.  A mode that is not for block transfers only has a framebuffer of the size it says,
  in memory; its lines are as long as they are wide or longer, the sizes fit their words, and
  the masks of a bit-mask format name bits.
\<close>

definition mode_ok :: "'e FIRMWARE \<Rightarrow> heap \<Rightarrow> 'e \<Rightarrow> ptr \<Rightarrow> ptr \<Rightarrow> bool" where
  "mode_ok F h e mode info \<longleftrightarrow>
     (\<forall>base bytes w n scan rm gm bm.
        read64 F e (mode + GOP_MODE_FRAMEBUFFER_BASE_OFFSET) = Some base \<longrightarrow>
        read64 F e (mode + GOP_MODE_FRAMEBUFFER_SIZE_OFFSET) = Some bytes \<longrightarrow>
        read32 F e (info + GOP_INFO_HORIZONTAL_RESOLUTION_OFFSET) = Some w \<longrightarrow>
        read32 F e (info + GOP_INFO_VERTICAL_RESOLUTION_OFFSET) = Some n \<longrightarrow>
        read32 F e (info + GOP_INFO_PIXELS_PER_SCANLINE_OFFSET) = Some scan \<longrightarrow>
        read32 F e (info + GOP_INFO_RED_MASK_OFFSET) = Some rm \<longrightarrow>
        read32 F e (info + GOP_INFO_GREEN_MASK_OFFSET) = Some gm \<longrightarrow>
        read32 F e (info + GOP_INFO_BLUE_MASK_OFFSET) = Some bm \<longrightarrow>
        read32 F e (info + GOP_INFO_PIXEL_FORMAT_OFFSET) \<noteq> Some GOP_PIXEL_BLT_ONLY \<longrightarrow>
          base \<noteq> 0 \<and> cells base (unat bytes div 4) \<subseteq> dom h \<and> w \<le> scan \<and> unat scan * unat n < 4294967296 \<and>
          unat w < 2147483648 \<and> unat n < 2147483648 \<and>
          (read32 F e (info + GOP_INFO_PIXEL_FORMAT_OFFSET) = Some GOP_PIXEL_BIT_MASK \<longrightarrow> mask_ok rm \<and> mask_ok gm \<and> mask_ok bm))"

definition display_ok :: "'e FIRMWARE \<Rightarrow> heap \<Rightarrow> bool" where
  "display_ok F h \<longleftrightarrow>
     (\<forall>lp e gop e' mode info. LocateProtocol F lp gGraphicsOutputProtocolGuid e = (EFI_SUCCESS, gop, e') \<longrightarrow> gop \<noteq> 0 \<longrightarrow>
        read64 F e' (gop + GOP_MODE_OFFSET) = Some mode \<longrightarrow> read64 F e' (mode + GOP_MODE_INFO_OFFSET) = Some info \<longrightarrow>
        mode_ok F h e' mode info)"

text \<open>The size check of \<open>InitializeFramebuffer\<close> is what makes the whole surface memory of the framebuffer.\<close>

lemma accepted_is_mapped:
  assumes "cells base (unat bytes div 4) \<subseteq> dom h" "scan * n \<le> (ucast (bytes div 4 :: UINT64) :: UINT32)"
  shows "cells base (unat (scan * n)) \<subseteq> dom h"
proof -
  have "unat (scan * n) \<le> unat (ucast (bytes div 4 :: UINT64) :: UINT32)" using assms(2) by (simp add: word_le_nat_alt)
  also have "\<dots> \<le> unat (bytes div 4)" by (simp add: unsigned_ucast_eq take_bit_eq_mod)
  also have "\<dots> = unat bytes div 4" by (simp add: unat_div)
  finally show ?thesis using assms(1) cells_mono by blast
qed

lemma InitializeFramebuffer_mapped:
  assumes F: "firmware_ok F" and D: "display_ok F h"
  shows "wp (\<lambda>(status, fb, stall, e'). status = EFI_SUCCESS \<longrightarrow> mapped fb h \<and> format_ok fb \<and> Framebuffer fb \<noteq> 0)
    (InitializeFramebuffer F st fb0 e)"
proof -
  have rd: "\<exists>v. read64 F e p = Some v" "\<exists>v. read32 F e p = Some v" for e p using F by (auto simp: firmware_ok_def)
  obtain bs where bs: "read64 F e (st + EFI_SYSTEM_TABLE_BOOT_SERVICES_OFFSET) = Some bs" using rd(1) by blast
  obtain lp where lp: "read64 F e (bs + EFI_BOOT_SERVICES_LOCATE_PROTOCOL_OFFSET) = Some lp" using rd(1) by blast
  obtain stl where stl: "read64 F e (bs + EFI_BOOT_SERVICES_STALL_OFFSET) = Some stl" using rd(1) by blast
  obtain status gop e1 where loc: "LocateProtocol F lp gGraphicsOutputProtocolGuid e = (status, gop, e1)" by (metis prod_cases3)
  note start = InitializeFramebuffer_def bs lp stl loc
  show ?thesis
  proof (cases "status = EFI_SUCCESS \<and> gop \<noteq> 0")
    case False
    then show ?thesis by (auto simp: start EFI_SUCCESS_def EFI_UNSUPPORTED_def EFI_ERROR_BIT_def)
  next
    case True
    obtain mode where mode: "read64 F e1 (gop + GOP_MODE_OFFSET) = Some mode" using rd(1) by blast
    obtain info where info: "read64 F e1 (mode + GOP_MODE_INFO_OFFSET) = Some info" using rd(1) by blast
    obtain w where w: "read32 F e1 (info + GOP_INFO_HORIZONTAL_RESOLUTION_OFFSET) = Some w" using rd(2) by blast
    obtain n where n: "read32 F e1 (info + GOP_INFO_VERTICAL_RESOLUTION_OFFSET) = Some n" using rd(2) by blast
    obtain f where f: "read32 F e1 (info + GOP_INFO_PIXEL_FORMAT_OFFSET) = Some f" using rd(2) by blast
    obtain scan where scan: "read32 F e1 (info + GOP_INFO_PIXELS_PER_SCANLINE_OFFSET) = Some scan" using rd(2) by blast
    obtain rm where rm: "read32 F e1 (info + GOP_INFO_RED_MASK_OFFSET) = Some rm" using rd(2) by blast
    obtain gm where gm: "read32 F e1 (info + GOP_INFO_GREEN_MASK_OFFSET) = Some gm" using rd(2) by blast
    obtain bm where bm: "read32 F e1 (info + GOP_INFO_BLUE_MASK_OFFSET) = Some bm" using rd(2) by blast
    obtain base where base: "read64 F e1 (mode + GOP_MODE_FRAMEBUFFER_BASE_OFFSET) = Some base" using rd(1) by blast
    obtain bytes where bytes: "read64 F e1 (mode + GOP_MODE_FRAMEBUFFER_SIZE_OFFSET) = Some bytes" using rd(1) by blast
    note reads = mode info w n f scan rm gm bm base bytes
    have "mode_ok F h e1 mode info" using D loc True mode info unfolding display_ok_def by blast
    then have ok: "base \<noteq> 0" "cells base (unat bytes div 4) \<subseteq> dom h" "w \<le> scan" "unat scan * unat n < 4294967296"
      "unat w < 2147483648" "unat n < 2147483648" "f = GOP_PIXEL_BIT_MASK \<Longrightarrow> mask_ok rm \<and> mask_ok gm \<and> mask_ok bm"
      if "f \<noteq> GOP_PIXEL_BLT_ONLY"
      using base bytes w n scan rm gm bm f that unfolding mode_ok_def by auto
    show ?thesis
    proof (cases "f = GOP_PIXEL_BLT_ONLY \<or> \<not> scan * n \<le> (ucast (bytes div 4) :: UINT32)")
      case True
      then show ?thesis using \<open>status = EFI_SUCCESS \<and> gop \<noteq> 0\<close>
        by (auto simp: start reads Let_def not_le EFI_SUCCESS_def EFI_UNSUPPORTED_def EFI_ERROR_BIT_def)
    next
      case False
      then have "cells base (unat (scan * n)) \<subseteq> dom h" by (intro accepted_is_mapped [OF ok(2)]) simp_all
      then show ?thesis using False ok \<open>status = EFI_SUCCESS \<and> gop \<noteq> 0\<close>
        by (auto simp: start reads Let_def not_less mapped_def surface_ok_def surface_cells_def format_ok_def)
    qed
  qed
qed

subsection \<open>The splash sequence\<close>

lemma DrawSplashFrame_draws:
  assumes "mapped fb h" "format_ok fb" "image_ok (Splash A)"
  shows "wp (draws fb h) (DrawSplashFrame A fb alpha scale h)"
proof -
  obtain sx sy dw dh where "ComputeSplashRect A fb scale = (sx, sy, dw, dh)" by (metis prod.exhaust)
  from DrawSplashFrame_recolours [OF assms this] show ?thesis by (rule wp_recolours_draws)
qed

lemma PlaySplashFrame_draws:
  assumes m: "mapped fb h" and f: "format_ok fb" and A: "assets_ok A"
  shows "wp (\<lambda>(h', e'). draws fb h h') (PlaySplashFrame A stall fb frame (h, e))"
proof -
  have "tweens_ok A" "image_ok (Splash A)" using A by (simp_all add: assets_ok_def)
  moreover obtain v where "EvaluateTween A 2 1 (frame * 1024 div (30 - 1)) = Some v"
    using EvaluateTween_defined [OF calculation(1)] by blast
  ultimately show ?thesis
    using DrawSplashFrame_draws [OF m f] by (simp add: PlaySplashFrame_def Let_def ComposeFor_black [OF f] ClearScreen_black)
qed

lemma PlaySplashSequence_draws:
  fixes stall :: "UINTN \<Rightarrow> 'e \<Rightarrow> 'e"
  assumes m: "mapped fb h" and f: "format_ok fb" and A: "assets_ok A"
  shows "wp (\<lambda>(h', e'). draws fb h h') (PlaySplashSequence A stall fb (h, e))"
proof -
  have "wp (\<lambda>(h', e'). draws fb h h') (for32 0 30 (PlaySplashFrame A stall fb) (h, stall 1000000 e))"
  proof (rule wp_for32 [where I = "\<lambda>_ (h', e'). draws fb h h'"])
    fix j and s :: "heap \<times> 'e" assume "j < (30 :: UINT32)" and i: "case s of (h', e') \<Rightarrow> draws fb h h'"
    obtain h1 e1 where s: "s = (h1, e1)" "draws fb h h1" using i by (cases s) simp
    have "mapped fb h1" using m s(2) by (simp add: draws_mapped)
    from PlaySplashFrame_draws [OF this f A] show "wp (\<lambda>(h', e'). draws fb h h') (PlaySplashFrame A stall fb j s)"
      unfolding s(1) by (rule wp_mono) (use s(2) in \<open>auto intro: draws_trans\<close>)
  qed simp_all
  then show ?thesis by (simp add: PlaySplashSequence_def Let_def) (auto elim: wp_mono)
qed

subsection \<open>The off-screen surfaces\<close>

text \<open>
  An off-screen buffer is null, or fresh memory of the size of the screen; memory that was there
  keeps its place.
\<close>

definition fresh_buffer :: "ptr \<Rightarrow> nat \<Rightarrow> heap \<Rightarrow> heap \<Rightarrow> bool" where
  "fresh_buffer p n h h' \<longleftrightarrow> dom h \<subseteq> dom h' \<and> (p \<noteq> 0 \<longrightarrow> cells p n \<subseteq> dom h' - dom h)"

lemma unat_pixel_bytes: "unat (ucast (n :: UINT32) * 4 :: UINT64) div 4 = unat n"
proof -
  have "unat (ucast n * 4 :: UINT64) = unat n * 4"
    by (subst unat_mult32) (simp_all add: less_trans [OF unat_lt32])
  then show ?thesis by simp
qed

lemma AllocateSurface_fresh:
  assumes F: "firmware_ok F" and s: "cells src (unat n) \<subseteq> dom h"
  shows "wp (\<lambda>(p, h', e'). fresh_buffer p (unat n) h h') (AllocateSurface F ap n src (h, e))"
proof -
  obtain st buffer h1 e1 where a: "AllocatePool F ap EFI_BOOT_SERVICES_DATA (ucast n * 4) (h, e) = (st, buffer, h1, e1)"
    by (metis prod_cases4)
  have keep: "\<forall>q \<in> dom h. h1 q = h q"
    and new: "st = EFI_SUCCESS \<Longrightarrow> buffer = Some p \<Longrightarrow> p \<noteq> 0 \<Longrightarrow> cells p (unat n) \<subseteq> dom h1 - dom h" for p
    using F a unat_pixel_bytes [of n] unfolding firmware_ok_def by metis+
  have d: "dom h \<subseteq> dom h1" using keep by (auto simp: dom_def)
  show ?thesis
  proof (cases "st = EFI_SUCCESS \<and> pointer_of buffer \<noteq> 0")
    case True
    then obtain p where p: "buffer = Some p" "p \<noteq> 0" by (cases buffer) (auto simp: pointer_of_def)
    have c: "cells p (unat n) \<subseteq> dom h1 - dom h" using new p True by blast
    then have "CopyPixels32 p src n h1 = Some (blit p src (unat n) h1)"
      by (intro CopyPixels32_blit) (use s d in auto)
    moreover have "dom (blit p src (unat n) h1) = dom h1" using c s d by (intro dom_blit) auto
    ultimately show ?thesis using True p c d by (simp add: AllocateSurface_def a pointer_of_def fresh_buffer_def)
  next
    case False
    then show ?thesis using d by (auto simp: AllocateSurface_def a fresh_buffer_def)
  qed
qed

subsection \<open>Leaving the firmware\<close>

text \<open>Boot information that differs only in the memory map.\<close>

definition same_boot :: "KERNEL_BOOT_INFO \<Rightarrow> KERNEL_BOOT_INFO \<Rightarrow> bool" where
  "same_boot b c \<longleftrightarrow> BootFramebuffer c = BootFramebuffer b \<and> ShadowFramebuffer c = ShadowFramebuffer b \<and>
     ComposeFramebuffer c = ComposeFramebuffer b \<and> pci_table_ok c = pci_table_ok b"

lemma ExitAttempt_retry:
  "map_settles F \<mu> \<Longrightarrow> ExitAttempt F ih gmm ebs mm sz (args, b, e) = Inr (args', b', e') \<Longrightarrow> \<mu> e' < \<mu> e"
  unfolding map_settles_def by (fastforce simp: ExitAttempt_def Let_def split: prod.splits if_splits)

text \<open>A firmware whose map settles lets the loop end, by induction on the measure.\<close>

lemma ExitBootServices_loop_returns:
  assumes "map_settles F \<mu>"
  shows "\<exists>r. ExitBootServices_loop F ih gmm ebs mm sz args b e = Some r"
proof (induction "\<mu> e" arbitrary: args b e rule: less_induct)
  case less
  show ?case
  proof (cases "ExitAttempt F ih gmm ebs mm sz (args, b, e)")
    case (Inl r)
    then show ?thesis by (cases r) (subst ExitBootServices_loop_attempt, simp)
  next
    case (Inr s)
    obtain args' b' e' where s: "s = (args', b', e')" by (metis prod_cases3)
    show ?thesis using less [OF ExitAttempt_retry [OF assms Inr [unfolded s]]] Inr s
      by (subst ExitBootServices_loop_attempt) simp
  qed
qed

lemma ExitAttempt_same:
  "ExitAttempt F ih gmm ebs mm sz (args, b, e) = Inl (st, c, e') \<Longrightarrow> same_boot b c"
  "ExitAttempt F ih gmm ebs mm sz (args, b, e) = Inr (args', c, e') \<Longrightarrow> same_boot b c"
proof -
  obtain st1 a1 e1 where g: "GetMemoryMap F gmm (args\<lparr>MapSize := sz\<rparr>) mm e = (st1, a1, e1)" by (metis prod_cases3)
  obtain st2 e2 where x: "ExitBootServices F ebs ih (MapKey a1) e1 = (st2, e2)" by (metis prod.exhaust)
  note defs = ExitAttempt_def g x Let_def same_boot_def pci_table_ok_def found_def entries_def
  show "ExitAttempt F ih gmm ebs mm sz (args, b, e) = Inl (st, c, e') \<Longrightarrow> same_boot b c"
    by (cases "st1 = EFI_SUCCESS"; cases "st2 = EFI_SUCCESS"; cases "st2 = EFI_INVALID_PARAMETER") (auto simp: defs)
  show "ExitAttempt F ih gmm ebs mm sz (args, b, e) = Inr (args', c, e') \<Longrightarrow> same_boot b c"
    by (cases "st1 = EFI_SUCCESS"; cases "st2 = EFI_SUCCESS"; cases "st2 = EFI_INVALID_PARAMETER") (auto simp: defs)
qed

lemma exits_same:
  "exits (ExitAttempt F ih gmm ebs mm sz) s r \<Longrightarrow> same_boot (fst (snd s)) (fst (snd r))"
proof (induction rule: exits.induct)
  case (now s r)
  then show ?case by (cases s; cases r) (auto dest: ExitAttempt_same(1))
next
  case (again s s' r)
  from again(1) have "same_boot (fst (snd s)) (fst (snd s'))" by (cases s; cases s') (auto dest: ExitAttempt_same(2))
  then show ?case using again.IH by (simp add: same_boot_def)
qed

lemma ExitBootServicesForKernel_returns:
  assumes F: "firmware_ok F"
  shows "wp (\<lambda>(st, c, h', e'). dom h \<subseteq> dom h' \<and> same_boot b c \<and> (st = EFI_SUCCESS \<longrightarrow> (\<exists>mm sz. final_map F ih gmm ebs mm sz c e')))
    (ExitBootServicesForKernel F ih gmm ap ebs b (h, e))"
proof -
  obtain st args e1 where g: "GetMemoryMap F gmm \<lparr>MapSize = 0, MapKey = 0, DescriptorSize = 0, DescriptorVersion = 0\<rparr> 0 e
      = (st, args, e1)" by (metis prod_cases3)
  obtain st2 mp h2 e2 where a: "AllocatePool F ap EFI_BOOT_SERVICES_DATA (MapSize args + DescriptorSize args * 8) (h, e1)
      = (st2, mp, h2, e2)" by (metis prod_cases4)
  have d: "dom h \<subseteq> dom h2" using F a unfolding firmware_ok_def by (metis domIff subsetI)
  have sizing: "fst (GetMemoryMap F gmm \<lparr>MapSize = 0, MapKey = 0, DescriptorSize = 0, DescriptorVersion = 0\<rparr> 0 e) \<noteq> EFI_SUCCESS"
    using F by (simp add: firmware_ok_def)
  let ?loop = "ExitBootServices_loop F ih gmm ebs (case mp of None \<Rightarrow> 0 | Some p \<Rightarrow> p) (MapSize args + DescriptorSize args * 8) args b e2"
  obtain \<mu> where "map_settles F \<mu>" using F by (auto simp: firmware_ok_def)
  from ExitBootServices_loop_returns [OF this] obtain r where l: "?loop = Some r" by blast
  have r: "same_boot b (fst (snd r))" using exits_same [OF loop_exits [OF l]] by simp
  have "\<exists>st c h' e'. ExitBootServicesForKernel F ih gmm ap ebs b (h, e) = Some (st, c, h', e') \<and> dom h \<subseteq> dom h' \<and> same_boot b c"
    using r d by (cases r) (simp add: ExitBootServicesForKernel_def g a Let_def l same_boot_def)
  then show ?thesis using ExitBootServicesForKernel_final [OF _ sizing] by (fastforce simp: wp_iff)
qed

subsection \<open>The hand-over\<close>

text \<open>
  What \<open>EfiMain\<close> hands over, relative to the memory at its start: the off-screen surfaces are memory
  that was not there before, and do not overlap.
\<close>

definition handover_ok :: "heap \<Rightarrow> KERNEL_BOOT_INFO \<Rightarrow> heap \<Rightarrow> bool" where
  "handover_ok h0 b h \<longleftrightarrow> (let fb = BootFramebuffer b; n = unat (PixelsPerScanLine fb * ScreenHeight fb) in
     dom h0 \<subseteq> dom h \<and> mapped fb h0 \<and> format_ok fb \<and> Framebuffer fb \<noteq> 0 \<and> pci_table_ok b \<and>
     (ShadowFramebuffer b \<noteq> 0 \<longrightarrow> cells (ShadowFramebuffer b) n \<subseteq> dom h - dom h0) \<and>
     (ComposeFramebuffer b \<noteq> 0 \<longrightarrow> cells (ComposeFramebuffer b) n \<subseteq> dom h - dom h0 \<and>
        (ShadowFramebuffer b \<noteq> 0 \<longrightarrow> cells (ComposeFramebuffer b) n \<inter> cells (ShadowFramebuffer b) n = {})))"

lemma mapped_mono: "mapped fb h \<Longrightarrow> dom h \<subseteq> dom h' \<Longrightarrow> mapped fb h'"
  unfolding mapped_def by blast

lemma draws_dom: "draws fb h h' \<Longrightarrow> dom h' = dom h"
  by (simp add: draws_def)

lemma ClearScreen_returns: "mapped fb h \<Longrightarrow> \<exists>h'. ClearScreen fb c i h = Some h' \<and> dom h' = dom h"
  using ClearScreen_paints [of fb h c i] by (auto simp: wp_iff paints_def)

lemma PlaySplashSequence_returns:
  "mapped fb h \<Longrightarrow> format_ok fb \<Longrightarrow> assets_ok A \<Longrightarrow> \<exists>h' e'. PlaySplashSequence A stall fb (h, e) = Some (h', e') \<and> dom h' = dom h"
  using PlaySplashSequence_draws [of fb h A stall e] by (auto simp: wp_iff draws_def)

lemma DrawTextString_returns:
  "mapped fb h \<Longrightarrow> format_ok fb \<Longrightarrow> assets_ok A \<Longrightarrow> \<exists>h'. DrawTextString A fb x y s r g b h = Some h' \<and> dom h' = dom h"
  using DrawTextString_draws [of fb h A x y s r g b] by (auto simp: wp_iff draws_def assets_ok_def)

lemma AllocateSurface_returns:
  assumes "firmware_ok F" "cells src (unat n) \<subseteq> dom h"
  shows "\<exists>p h' e'. AllocateSurface F ap n src (h, e) = Some (p, h', e') \<and> fresh_buffer p (unat n) h h'"
  using AllocateSurface_fresh [OF assms, of ap e] by (auto simp: wp_iff)

lemma firmware_ok_handles:
  "firmware_ok F \<Longrightarrow> LocateHandleBuffer F lhb EFI_BY_PROTOCOL gPciIoProtocolGuid e = (EFI_SUCCESS, n, Some (p, hs), e') \<Longrightarrow>
   unat n \<le> length hs"
  unfolding firmware_ok_def by blast

lemma CollectPciDevices_returns:
  assumes "firmware_ok F" "length (PciDevices b) = 32" "GpuCount b = 0" "AudioCount b = 0" "PciDeviceCount b = 0"
  shows "\<exists>c e'. CollectPciDevices F lhb hp fp (b, e) = Some (c, e') \<and> pci_table_ok c \<and> same_rest b c"
proof -
  have "wp (\<lambda>(c, e'). pci_table_ok c \<and> same_rest b c) (CollectPciDevices F lhb hp fp (b, e))"
    by (rule CollectPciDevices_table) (use assms firmware_ok_handles in auto)
  then show ?thesis by (auto simp: wp_iff)
qed

text \<open>The two surfaces, the second filled from the first where there is one.\<close>

lemma surfaces_return:
  assumes F: "firmware_ok F" and m: "mapped fb h" and n: "n = PixelsPerScanLine fb * ScreenHeight fb"
  shows "\<exists>p h1 e1 q h2 e2. AllocateSurface F ap n (Framebuffer fb) (h, e) = Some (p, h1, e1) \<and>
    AllocateSurface F ap n (if p \<noteq> 0 then p else Framebuffer fb) (h1, e1) = Some (q, h2, e2) \<and> dom h \<subseteq> dom h2 \<and>
    (p \<noteq> 0 \<longrightarrow> cells p (unat n) \<subseteq> dom h2 - dom h) \<and>
    (q \<noteq> 0 \<longrightarrow> cells q (unat n) \<subseteq> dom h2 - dom h \<and> (p \<noteq> 0 \<longrightarrow> cells q (unat n) \<inter> cells p (unat n) = {}))"
proof -
  have c: "cells (Framebuffer fb) (unat n) \<subseteq> dom h" using m by (simp add: mapped_def surface_cells_def n)
  from AllocateSurface_returns [OF F c] obtain p h1 e1 where p: "AllocateSurface F ap n (Framebuffer fb) (h, e) = Some (p, h1, e1)"
    "fresh_buffer p (unat n) h h1" by blast
  have "cells (if p \<noteq> 0 then p else Framebuffer fb) (unat n) \<subseteq> dom h1"
    using c p(2) by (auto simp: fresh_buffer_def)
  from AllocateSurface_returns [OF F this] obtain q h2 e2 where
    q: "AllocateSurface F ap n (if p \<noteq> 0 then p else Framebuffer fb) (h1, e1) = Some (q, h2, e2)" "fresh_buffer q (unat n) h1 h2" by blast
  have "dom h \<subseteq> dom h2" "p \<noteq> 0 \<Longrightarrow> cells p (unat n) \<subseteq> dom h2 - dom h"
    "q \<noteq> 0 \<Longrightarrow> cells q (unat n) \<subseteq> dom h2 - dom h" "q \<noteq> 0 \<Longrightarrow> p \<noteq> 0 \<Longrightarrow> cells q (unat n) \<inter> cells p (unat n) = {}"
    using p(2) q(2) unfolding fresh_buffer_def by blast+
  then show ?thesis using p(1) q(1) by blast
qed

text \<open>
  \<open>EfiMain\<close> always returns to the firmware with an error, or hands over.
\<close>

lemma EfiMain_hands_over:
  fixes F :: "'e FIRMWARE"
  assumes F: "firmware_ok F" and D: "display_ok F h" and A: "assets_ok A" and d: "length (PciDevices b0) = 32"
  shows "wp (\<lambda>(r, h', e'). case r of
        Inl status \<Rightarrow> status \<noteq> EFI_SUCCESS
      | Inr b \<Rightarrow> handover_ok h b h' \<and> (\<exists>gmm ebs mm sz. final_map F ih gmm ebs mm sz b e'))
    (EfiMain A F ih st fb0 b0 (h, e))"
proof -
  obtain status fb stall e0 where i: "InitializeFramebuffer F st fb0 e = Some (status, fb, stall, e0)"
    "status = EFI_SUCCESS \<Longrightarrow> mapped fb h \<and> format_ok fb \<and> Framebuffer fb \<noteq> 0"
    using InitializeFramebuffer_mapped [OF F D, of st fb0 e] by (auto simp: wp_iff)
  show ?thesis
  proof (cases "status = EFI_SUCCESS")
    case False
    then show ?thesis using EfiMain_no_framebuffer [OF i(1)] by simp
  next
    case True
    have m: "mapped fb h" and f: "format_ok fb" and nz: "Framebuffer fb \<noteq> 0" using i(2) True by simp_all
    note same = m [THEN mapped_mono] and black = ComposeFor_black [OF f]
    obtain h1 where h1: "ClearScreen fb 0 0 h = Some h1" "dom h1 = dom h" using ClearScreen_returns [OF m] by blast
    obtain h2 e2 where h2: "PlaySplashSequence A (Stall F stall) fb (h1, e0) = Some (h2, e2)" "dom h2 = dom h"
      using PlaySplashSequence_returns [OF same f A] h1(2) by (metis order_refl)
    obtain h3 where h3: "ClearScreen fb 0 0 h2 = Some h3" "dom h3 = dom h"
      using ClearScreen_returns [OF same] h2(2) by (metis order_refl)
    have rd: "\<exists>v. read64 F e p = Some v" for e p using F by (auto simp: firmware_ok_def)
    obtain bs where bs: "read64 F e2 (st + EFI_SYSTEM_TABLE_BOOT_SERVICES_OFFSET) = Some bs" using rd by blast
    obtain lp gmm ap fp hp lhb ebs where svc: "read64 F e2 (bs + EFI_BOOT_SERVICES_LOCATE_PROTOCOL_OFFSET) = Some lp"
      "read64 F e2 (bs + EFI_BOOT_SERVICES_GET_MEMORY_MAP_OFFSET) = Some gmm"
      "read64 F e2 (bs + EFI_BOOT_SERVICES_ALLOCATE_POOL_OFFSET) = Some ap"
      "read64 F e2 (bs + EFI_BOOT_SERVICES_FREE_POOL_OFFSET) = Some fp"
      "read64 F e2 (bs + EFI_BOOT_SERVICES_HANDLE_PROTOCOL_OFFSET) = Some hp"
      "read64 F e2 (bs + EFI_BOOT_SERVICES_LOCATE_HANDLE_BUFFER_OFFSET) = Some lhb"
      "read64 F e2 (bs + EFI_BOOT_SERVICES_EXIT_BOOT_SERVICES_OFFSET) = Some ebs" using rd by metis
    obtain ticks e3 where tsc: "EstimateTscTicksPerSecond F stall e2 = (ticks, e3)" by (metis prod.exhaust)
    define n where "n = PixelsPerScanLine fb * ScreenHeight fb"
    have m3: "mapped fb h3" using same h3(2) by simp
    from surfaces_return [OF F m3 n_def, of ap e3] obtain p h4 e4 q h5 e5 where
      p: "AllocateSurface F ap n (Framebuffer fb) (h3, e3) = Some (p, h4, e4)" and
      q: "AllocateSurface F ap n (if p \<noteq> 0 then p else Framebuffer fb) (h4, e4) = Some (q, h5, e5)" and
      sf: "dom h3 \<subseteq> dom h5" "p \<noteq> 0 \<longrightarrow> cells p (unat n) \<subseteq> dom h5 - dom h3"
        "q \<noteq> 0 \<longrightarrow> cells q (unat n) \<subseteq> dom h5 - dom h3 \<and> (p \<noteq> 0 \<longrightarrow> cells q (unat n) \<inter> cells p (unat n) = {})"
      by blast
    have drw: "\<exists>k'. DrawTextString A fb x y s r g c k = Some k' \<and> dom k' = dom h5" if "dom k = dom h5" for x y s r g c k
      using DrawTextString_returns [OF same f A, of k] that sf(1) h3(2) by auto
    obtain h6 where h6: "DrawTextString A fb 24 18 (Some ''Dragon OS Loader'') 255 255 255 h5 = Some h6" "dom h6 = dom h5"
      using drw [OF refl] by blast
    obtain h7 where h7: "DrawTextString A fb 24 52 (Some ''Collecting framebuffer, PCI, and memory-map info...'') 180 220 255 h6 = Some h7"
      "dom h7 = dom h5" using drw [OF h6(2)] by blast
    obtain h8 where h8: "DrawTextString A fb 24 86 (Some (gRuntimeSummaryText A)) 180 180 255 h7 = Some h8" "dom h8 = dom h5"
      using drw [OF h7(2)] by blast
    obtain h9 where h9: "DrawTextString A fb 24 114 (Some (gRuntimeVideoText A)) 255 200 160 h8 = Some h9" "dom h9 = dom h5"
      using drw [OF h8(2)] by blast
    let ?b = "b0\<lparr>BootFramebuffer := fb, MemoryMap := 0, MemoryMapSize := 0, MemoryMapKey := 0, MemoryDescriptorSize := 0,
        MemoryDescriptorVersion := 0, MemoryDescriptorCount := 0, GpuCount := 0, AudioCount := 0, PciDeviceCount := 0,
        TscTicksPerSecond := ticks, ShadowFramebuffer := p, ComposeFramebuffer := q\<rparr>"
    have fields: "length (PciDevices ?b) = 32" "GpuCount ?b = 0" "AudioCount ?b = 0" "PciDeviceCount ?b = 0" using d by simp_all
    obtain b e6 where b: "CollectPciDevices F lhb hp fp (?b, Stall F stall 250000 e5) = Some (b, e6)" "pci_table_ok b" "same_rest ?b b"
      using CollectPciDevices_returns [OF F fields] by blast
    from ExitBootServicesForKernel_returns [OF F, where b = b and h = h9 and ih = ih and gmm = gmm and ebs = ebs and ap = ap and e = e6]
    obtain r where r: "ExitBootServicesForKernel F ih gmm ap ebs b (h9, e6) = Some r" "case r of (st, c, h', e') \<Rightarrow>
        dom h9 \<subseteq> dom h' \<and> same_boot b c \<and> (st = EFI_SUCCESS \<longrightarrow> (\<exists>mm sz. final_map F ih gmm ebs mm sz c e'))" by (rule wpE)
    obtain st2 c h10 e7 where "r = (st2, c, h10, e7)" by (metis prod_cases4)
    with r have x: "ExitBootServicesForKernel F ih gmm ap ebs b (h9, e6) = Some (st2, c, h10, e7)" "dom h9 \<subseteq> dom h10"
      "same_boot b c" "st2 = EFI_SUCCESS \<longrightarrow> (\<exists>mm sz. final_map F ih gmm ebs mm sz c e7)" by simp_all
    have run: "EfiMain A F ih st fb0 b0 (h, e) = Some (if st2 \<noteq> EFI_SUCCESS then Inl st2 else Inr c, h10, e7)"
      using h1(1) h2(1) h3(1) p q h6(1) h7(1) h8(1) h9(1) b(1) x(1)
      by (simp add: EfiMain_def i(1) True black bs svc tsc Let_def n_def PreserveUiSubsystemReferences_def split del: if_split cong: if_cong) simp
    have keep: "BootFramebuffer c = fb" "ShadowFramebuffer c = p" "ComposeFramebuffer c = q" "pci_table_ok c"
      using x(3) b(2,3) by (auto simp: same_boot_def same_rest_def)
    have "handover_ok h c h10"
      unfolding handover_ok_def keep Let_def n_def [symmetric]
      using m f nz keep(4) sf x(2) unfolding h3(2) h9(2) by blast
    then show ?thesis using x(4) by (auto simp: run)
  qed
qed

text \<open>
  If the shadow buffer was allocated, the kernel starts from what it needs: the stack arrays of the
  cursor are memory that was there before, so the new buffers cannot overlap them.
\<close>

lemma handover_boot_ok:
  assumes ho: "handover_ok h0 b h" and sh: "ShadowFramebuffer b \<noteq> 0" and sc: "screen_ok (BootFramebuffer b)"
    and A: "assets_ok A" "labels_ok A"
    and st: "mapped (saved_surface A c0) h0" "apart (saved_surface A c0) (BootFramebuffer b)"
    and len: "length (OpaqueMask c0) = unat (CURSOR_WIDTH A) * unat (CURSOR_HEIGHT A)"
      "length (ResolvedPixels c0) = unat (CURSOR_WIDTH A) * unat (CURSOR_HEIGHT A)" "3 \<le> length (Packet m0)"
  shows "boot_ok A b c0 m0 h"
proof -
  let ?fb = "BootFramebuffer b" and ?sf = "ShadowFramebuffer b" and ?cf = "ComposeFramebuffer b"
  define n where "n = unat (PixelsPerScanLine ?fb * ScreenHeight ?fb)"
  have d: "dom h0 \<subseteq> dom h" and m0: "mapped ?fb h0" and f: "format_ok ?fb" and nz: "Framebuffer ?fb \<noteq> 0"
    and s: "cells ?sf n \<subseteq> dom h - dom h0" and c: "?cf \<noteq> 0 \<Longrightarrow> cells ?cf n \<subseteq> dom h - dom h0 \<and> cells ?cf n \<inter> cells ?sf n = {}"
    using ho sh by (simp_all add: handover_ok_def Let_def n_def)
  have so: "surface_ok ?fb" and fb: "surface_cells ?fb = cells (Framebuffer ?fb) n" "surface_cells ?fb \<subseteq> dom h0"
    using m0 by (simp_all add: mapped_def surface_cells_def n_def)
  have n: "0 < n"
    using so sc by (simp add: n_def surface_pixels screen_ok_def surface_ok_def word_le_nat_alt)
  then have first: "p \<in> cells p n" for p using cells_memI [of 0 n p] by simp
  have old: "Framebuffer ?fb \<in> dom h0" using first [of "Framebuffer ?fb"] fb by blast
  have "?sf \<notin> dom h0" using first [of ?sf] s by blast
  then have ne: "?sf \<noteq> Framebuffer ?fb" using old by metis
  have sv: "surface_cells (saved_surface A c0) \<subseteq> dom h0" using st(1) by (simp add: mapped_def)
  have shadow: "ShadowInfo b = ?fb\<lparr>Framebuffer := ?sf\<rparr>" using sh ne by (simp add: ShadowInfo_def Let_def)
  have buffer: "mapped (?fb\<lparr>Framebuffer := p\<rparr>) h \<and> same_size ?fb (?fb\<lparr>Framebuffer := p\<rparr>) \<and> apart ?fb (?fb\<lparr>Framebuffer := p\<rparr>) \<and>
      apart (?fb\<lparr>Framebuffer := p\<rparr>) ?fb \<and>
      apart (saved_surface A c0) (?fb\<lparr>Framebuffer := p\<rparr>) \<and> apart (?fb\<lparr>Framebuffer := p\<rparr>) (saved_surface A c0)"
    if "cells p n \<subseteq> dom h - dom h0" for p
  proof -
    have "surface_cells (?fb\<lparr>Framebuffer := p\<rparr>) = cells p n" by (simp add: surface_cells_def n_def)
    moreover have "surface_ok (?fb\<lparr>Framebuffer := p\<rparr>)" using so by (simp add: surface_ok_def)
    ultimately show ?thesis using that sv fb(2) unfolding mapped_def apart_def same_size_def by auto
  qed
  have own: "mapped (ComposeInfo b) h \<and> same_size ?fb (ComposeInfo b) \<and> apart (ComposeInfo b) ?fb \<and>
      apart (ComposeInfo b) (ShadowInfo b) \<and> apart (ComposeInfo b) (saved_surface A c0)" if o: "own_buffer ?fb (ShadowInfo b) (ComposeInfo b)"
  proof -
    have z: "?cf \<noteq> 0" and e: "ComposeInfo b = ?fb\<lparr>Framebuffer := ?cf\<rparr>"
      using o by (auto simp: own_buffer_def ComposeInfo_def Let_def split: if_splits)
    have "apart (ComposeInfo b) (ShadowInfo b)"
      using c [OF z] by (simp add: e shadow apart_def surface_cells_def n_def)
    then show ?thesis using buffer c [OF z] by (simp add: e)
  qed
  have "compositor_ok A ?fb (ShadowInfo b) (Some (ComposeInfo b)) c0 h"
    using buffer [OF s] own mapped_mono [OF m0 d] mapped_mono [OF st(1) d] st(2) nz
    by (auto simp: compositor_ok_def shadow)
  then show ?thesis using A f sc sh ne len by (simp add: boot_ok_def)
qed

end
