(* ===== verification/Examples.thy ===== *)
theory Examples
  imports Loader
begin

text \<open>
  Concrete instances on which the properties are exercised: a generated font of one glyph, images
  of one pixel, screens at given addresses, a memory that is mapped everywhere, a mouse that
  never answers, and a firmware with a display.
\<close>

definition demo_font :: FONT where
  "demo_font = \<lparr>FIRST_CHAR = 65, GLYPH_COUNT = 1, GLYPH_WIDTH = 2, GLYPH_HEIGHT = 1,
     GlyphAlpha = [255, 0], GlyphAdvance = [3]\<rparr>"

definition demo_image :: IMAGE where
  "demo_image = \<lparr>IMAGE_WIDTH = 1, IMAGE_HEIGHT = 1, ImagePixels = [10, 20, 30], ImageAlpha = [255]\<rparr>"

definition demo_assets :: ASSETS where
  "demo_assets = \<lparr>Splash = demo_image, CursorImage = demo_image, SetupIcon = demo_image,
     Font = demo_font, IconFont = demo_font, SetupTitleFont = demo_font, SetupUiFont = demo_font,
     gTween = (\<lambda>_. replicate 1025 512), gRuntimeSummaryText = ''A'', gRuntimeVideoText = ''A'',
     gRuntimeRegistryText = ''A'', gConsoleIconText = ''A''\<rparr>"

definition demo_screen :: "UINT32 \<Rightarrow> UINT32 \<Rightarrow> ptr \<Rightarrow> FRAMEBUFFER_INFO" where
  "demo_screen w n p = \<lparr>ScreenWidth = w, ScreenHeight = n, PixelsPerScanLine = w,
     PixelFormat = GOP_PIXEL_BLUE_GREEN_RED_RESERVED_8BIT, RedMask = 0, GreenMask = 0, BlueMask = 0, Framebuffer = p\<rparr>"

definition ram :: heap where
  "ram = (\<lambda>_. Some 0)"

lemma demo_font_ok: "font_ok demo_font"
  by (simp add: font_ok_def demo_font_def)

lemma demo_image_ok: "image_ok demo_image"
  by (simp add: image_ok_def demo_image_def)

lemma demo_simps [simp]:
  "Splash demo_assets = demo_image" "CursorImage demo_assets = demo_image" "SetupIcon demo_assets = demo_image"
  "Font demo_assets = demo_font" "IconFont demo_assets = demo_font" "SetupTitleFont demo_assets = demo_font"
  "SetupUiFont demo_assets = demo_font" "gTween demo_assets c = replicate 1025 512"
  by (simp_all add: demo_assets_def)

lemma demo_assets_ok: "assets_ok demo_assets"
  by (simp add: assets_ok_def demo_font_ok demo_image_ok tweens_ok_def)

lemma demo_labels_ok: "labels_ok demo_assets"
  by (simp add: labels_ok_def label_fits_def label_width_def font_step_def glyph_step_def has_glyph_def demo_font_def of_char_def)

lemma dom_ram [simp]: "dom ram = UNIV"
  by (auto simp: ram_def)

lemma demo_screen_simps [simp]:
  "ScreenWidth (demo_screen w n p) = w" "ScreenHeight (demo_screen w n p) = n" "PixelsPerScanLine (demo_screen w n p) = w"
  "Framebuffer (demo_screen w n p) = p" "PixelFormat (demo_screen w n p) = GOP_PIXEL_BLUE_GREEN_RED_RESERVED_8BIT"
  by (simp_all add: demo_screen_def)

lemma demo_format_ok: "format_ok (demo_screen w n p)"
  by (simp add: format_ok_def gop_format_defs)

lemma demo_mapped:
  assumes "unat w * unat n < 4294967296" "unat w < 2147483648" "unat n < 2147483648"
  shows "mapped (demo_screen w n p) ram"
  using assms by (simp add: mapped_def surface_ok_def)

text \<open>Buffers at separate addresses are apart.\<close>

lemma cells_range:
  assumes "q \<in> cells p n" "unat p + 4 * n \<le> 18446744073709551616"
  shows "unat p \<le> unat q" "unat q < unat p + 4 * n"
proof -
  obtain i where i: "i < n" "q = p + 4 * of_nat i" using assms(1) by (auto simp: cells_def)
  have "4 * of_nat i = (of_nat (4 * i) :: ptr)" by simp
  moreover have "unat (of_nat (4 * i) :: ptr) = 4 * i" using i assms(2) by (intro unat_of_nat_lt) simp
  ultimately have "unat q = unat p + 4 * i" using i assms(2) by (simp only: i(2)) (subst unat_add32; simp)
  then show "unat p \<le> unat q" "unat q < unat p + 4 * n" using i by simp_all
qed

lemma cells_separate:
  assumes "unat p + 4 * n \<le> unat q" "unat q + 4 * m \<le> 18446744073709551616"
  shows "cells p n \<inter> cells q m = {}"
proof -
  have False if "x \<in> cells p n" "x \<in> cells q m" for x
    using cells_range [OF that(1)] cells_range [OF that(2)] assms by simp
  then show ?thesis by blast
qed

text \<open>A cursor in the corner, its save area far away from the screens.\<close>

definition demo_cursor :: SOFTWARE_CURSOR where
  "demo_cursor = \<lparr>SOFTWARE_CURSOR.X = 1, SOFTWARE_CURSOR.Y = 2, SavedWidth = 0, SavedHeight = 0, Visible = 0, SavedPixels = 0x100000000,
     ResolvedPixels = [7], OpaqueMask = [1], AccumX = 0, AccumY = 0, LeftButtonDown = 0, LastRawX = 0, LastRawY = 0,
     LastPixelX = 0, LastPixelY = 0, LastPollCount = 0\<rparr>"

lemma demo_cursor_simps [simp]: "SavedPixels demo_cursor = 0x100000000" "IMAGE_WIDTH demo_image = 1" "IMAGE_HEIGHT demo_image = 1"
  by (simp_all add: demo_cursor_def demo_image_def)

lemma demo_cursor_ok: "1 \<le> w \<Longrightarrow> 2 \<le> n \<Longrightarrow> cursor_ok demo_assets (demo_screen w n p) demo_cursor"
  by (simp add: cursor_ok_def demo_image_ok) (simp add: demo_cursor_def)

lemma demo_saved_cells: "surface_cells (saved_surface demo_assets demo_cursor) = cells 0x100000000 1"
  by (simp add: surface_cells_def)

lemma demo_saved_mapped: "mapped (saved_surface demo_assets demo_cursor) ram"
  by (simp add: mapped_def surface_ok_def)

lemma demo_screen_cells: "surface_cells (demo_screen w n p) = cells p (unat (w * n))"
  by (simp add: surface_cells_def)

lemma demo_cursor_apart:
  assumes "unat p + 4 * unat (w * n) \<le> 4294967296"
  shows "apart (saved_surface demo_assets demo_cursor) (demo_screen w n p)"
  unfolding apart_def demo_saved_cells demo_screen_cells
  by (subst Int_commute, rule cells_separate) (use assms in simp_all)

lemma demo_screens_apart:
  assumes "unat p + 4 * unat (w * n) \<le> unat q" "unat q + 4 * unat (w' * n') \<le> 4294967296"
  shows "apart (demo_screen w n p) (demo_screen w' n' q)" "apart (demo_screen w' n' q) (demo_screen w n p)"
  unfolding apart_def demo_screen_cells using cells_separate [OF assms(1), of "unat (w' * n')"] assms(2) by auto

lemma demo_compositor_ok:
  "compositor_ok demo_assets (demo_screen 4 2 0x1000) (demo_screen 4 2 0x2000) (Some (demo_screen 4 2 0x3000)) demo_cursor ram"
  by (simp add: compositor_ok_def demo_mapped demo_saved_mapped same_size_def demo_cursor_apart apart_sym [OF demo_cursor_apart]
      demo_screens_apart)

lemma demo_cursor_in_bounds: "surface_ok (demo_screen 640 480 p)" "in_bounds demo_assets (demo_screen 640 480 p) demo_cursor"
  by (simp_all add: surface_ok_def in_bounds_def cursor_limit_def demo_cursor_def)

text \<open>A controller whose status is always idle, and one that delivers the given mouse bytes.\<close>

definition silent_ports :: "'d PORTS" where
  "silent_ports = \<lparr>inbyte = (\<lambda>_ d. (0, d)), outbyte = (\<lambda>_ _ d. d), spin = (\<lambda>d. d)\<rparr>"

definition fed_ports :: "UINT8 list PORTS" where
  "fed_ports = \<lparr>inbyte = (\<lambda>port bs. if port = 0x64 then (if bs = [] then 0 else 0x21, bs) else (hd (bs @ [0]), tl bs)),
     outbyte = (\<lambda>_ _ bs. bs), spin = (\<lambda>bs. bs)\<rparr>"

definition demo_mouse :: PS2_MOUSE_STATE where
  "demo_mouse = \<lparr>Enabled = 1, PacketIndex = 0, MouseLeftButtonDown = 0, Reserved = 0, Packet = [0, 0, 0, 0],
     LastDeltaX = 0, LastDeltaY = 0, PacketCount = 0\<rparr>"

lemma demo_mouse_ok: "ps2_ok demo_mouse"
  by (simp add: ps2_ok_def demo_mouse_def)

text \<open>A boot information block for a screen of 640 by 480 with its two off-screen buffers.\<close>

definition demo_device :: PCI_DEVICE_INFO where
  "demo_device = \<lparr>VendorId = 0, DeviceId = 0, ClassCode = 0, Subclass = 0, ProgIf = 0, Kind = 0, Segment = 0, Bus = 0, Device = 0, Function = 0\<rparr>"

definition demo_boot :: KERNEL_BOOT_INFO where
  "demo_boot = \<lparr>BootFramebuffer = demo_screen 640 480 0x1000000, ShadowFramebuffer = 0x2000000, ComposeFramebuffer = 0x3000000,
     TscTicksPerSecond = 0, MemoryMap = 0, MemoryMapSize = 0, MemoryMapKey = 0, MemoryDescriptorSize = 0, MemoryDescriptorVersion = 0,
     MemoryDescriptorCount = 0, GpuCount = 0, AudioCount = 0, PciDeviceCount = 0, PciDevices = replicate 32 demo_device\<rparr>"

lemma demo_boot_simps [simp]:
  "BootFramebuffer demo_boot = demo_screen 640 480 0x1000000" "length (PciDevices demo_boot) = 32"
  "ShadowInfo demo_boot = demo_screen 640 480 0x2000000" "ComposeInfo demo_boot = demo_screen 640 480 0x3000000"
  "ShadowFramebuffer demo_boot = 0x2000000"
  by (simp_all add: demo_boot_def ShadowInfo_def ComposeInfo_def Let_def) (simp_all add: demo_screen_def)

lemma demo_boot_ok: "boot_ok demo_assets demo_boot demo_cursor demo_mouse ram"
  by (simp add: boot_ok_def demo_assets_ok demo_labels_ok demo_format_ok screen_ok_def compositor_ok_def demo_mapped
      demo_saved_mapped same_size_def demo_cursor_apart apart_sym [OF demo_cursor_apart] demo_screens_apart)
     (simp add: demo_cursor_def demo_mouse_def)

end
