(* ===== verification/PixelProperties.thy ===== *)
theory PixelProperties
  imports Examples
begin

text \<open>
  The properties of the pixel routines: bulk memory operations, pixel formats and blending.
\<close>

subsection \<open>Bulk memory operations\<close>

lemma elementwise_loop:
  assumes "\<And>i. unat i < unat n \<Longrightarrow> f i (F (unat i)) = Some (F (Suc (unat i)))"
  shows "for32 0 n f (F 0) = Some (F (unat n))"
proof -
  have "wp (\<lambda>s. s = F (unat n)) (for32 0 n f (F 0))"
    by (rule wp_for32 [where I = "\<lambda>i s. s = F i"]) (use assms in \<open>auto simp: word_less_nat_alt\<close>)
  then show ?thesis by (simp add: wp_eq_Some)
qed

text \<open>
  C28: \<open>FillPixels32\<close> writes eight aligned pairs of pixels at a time where it can; on mapped memory
  this is the plain loop that stores the colour in one element after the other, for every
  destination address and count.
\<close>

theorem fill_is_elementwise:
  assumes "cells p (unat n) \<subseteq> dom h"
  shows "FillPixels32 p n c h = for32 0 n (\<lambda>i h. store32 (elem32 p i) c h) h"
proof -
  have "for32 0 n (\<lambda>i h. store32 (elem32 p i) c h) (fill (cells p 0) c h) = Some (fill (cells p (unat n)) c h)"
    by (rule elementwise_loop, simp only: elem32_nat, rule store32_fill) (use assms cells_memI in blast)
  then show ?thesis using FillPixels32_fill [OF assms] by simp
qed

lemma fill_is_elementwise_witness:
  "FillPixels32 0x1000 35 7 ram = for32 0 35 (\<lambda>i h. store32 (elem32 0x1000 i) 7 h) ram"
  by (rule fill_is_elementwise) simp

text \<open>
  \<open>CopyPixels32\<close> between disjoint buffers leaves the source's pixels in the destination, in
  order, and changes nothing else, whichever of its two paths it takes.
\<close>

theorem copy_copies:
  assumes "cells d (unat n) \<subseteq> dom h" "cells s (unat n) \<subseteq> dom h" "cells d (unat n) \<inter> cells s (unat n) = {}"
  shows "\<exists>h'. CopyPixels32 d s n h = Some h' \<and> (\<forall>i<n. h' (elem32 d i) = h (elem32 s i)) \<and>
    (\<forall>q. q \<notin> cells d (unat n) \<longrightarrow> h' q = h q)"
proof -
  have "blit d s (unat n) h (elem32 d i) = h (elem32 s i)" if "i < n" for i
    using that elem32_in_cells [of i "unat n" d] by (simp add: blit_def elem32_def word_less_nat_alt add.commute)
  moreover have "CopyPixels32 d s n h = Some (blit d s (unat n) h)" using assms by (intro CopyPixels32_blit) auto
  ultimately show ?thesis by (auto simp: blit_def)
qed

lemma copy_copies_witness:
  "\<exists>h'. CopyPixels32 0x1000 0x2000 35 ram = Some h' \<and> (\<forall>i<35. h' (elem32 0x1000 i) = ram (elem32 0x2000 i)) \<and>
    (\<forall>q. q \<notin> cells 0x1000 (unat (35 :: UINT32)) \<longrightarrow> h' q = ram q)"
  by (rule copy_copies) (simp_all add: cells_separate)

subsection \<open>Pixel formats\<close>

text \<open>
  C35: \<open>DecomposePixel\<close> recovers the channels that \<open>ComposePixel\<close> packed: in both 8-bit formats whatever
  the masks say, and in the bit-mask format when the masks are disjoint runs of 8 to 24 bits, where
  widening a channel to its mask and narrowing it again loses nothing.
\<close>

theorem pixel_roundtrip:
  assumes "rgb8 fmt \<or> fmt = GOP_PIXEL_BIT_MASK \<and> wide_masks rm gm bm"
  shows "do { p \<leftarrow> ComposePixel r g b fmt rm gm bm; DecomposePixel p fmt rm gm bm } = Some (r, g, b)"
proof (cases "rgb8 fmt")
  case True
  then show ?thesis by (rule compose_decompose_8bit)
next
  case False
  then show ?thesis using assms compose_decompose_bit_mask unfolding wide_masks_def by metis
qed

lemma pixel_roundtrip_witness:
  "do { p \<leftarrow> ComposePixel 1 2 3 GOP_PIXEL_BIT_MASK 0x3FF 0xFFC00 0x3FF00000;
      DecomposePixel p GOP_PIXEL_BIT_MASK 0x3FF 0xFFC00 0x3FF00000 } = Some (1, 2, 3)"
proof (rule pixel_roundtrip)
  have "wide_masks (channel_mask 0 10) (channel_mask 10 10) (channel_mask 20 10)"
    unfolding wide_masks_def
    by (rule exI [of _ 0], rule exI [of _ 10], rule exI [of _ 10], rule exI [of _ 10], rule exI [of _ 20], rule exI [of _ 10])
       (simp add: wide_channel_def and_zero_iff bit_channel_mask)
  moreover have "channel_mask 0 10 = 0x3FF" "channel_mask 10 10 = 0xFFC00" "channel_mask 20 10 = 0x3FF00000"
    by (simp_all add: channel_mask_def mask_eq_exp_minus_1)
  ultimately show "rgb8 GOP_PIXEL_BIT_MASK \<or> GOP_PIXEL_BIT_MASK = GOP_PIXEL_BIT_MASK \<and> wide_masks 0x3FF 0xFFC00 0x3FF00000" by simp
qed

text \<open>
  C38: \<open>MaskShift\<close> returns exactly for the masks that are not zero, and then the position of the
  lowest set bit.  For a zero mask its loop has no defined end.
\<close>

theorem mask_shift_terminates:
  "MaskShift m = (if m = 0 then None else Some (of_nat (LEAST k. bit m k)))"
proof (cases "m = 0")
  case True
  then show ?thesis by (simp add: MaskShift_zero)
next
  case False
  from MaskShift_spec [OF this] obtain s where s: "MaskShift m = Some s" "bit m (unat s)" "\<forall>k<unat s. \<not> bit m k" .
  have "(LEAST k. bit m k) = unat s"
    by (rule Least_equality) (use s(2,3) in \<open>auto simp: not_less [symmetric]\<close>)
  then show ?thesis using False s(1) by simp
qed

text \<open>
  Blending in an 8-bit format blends channel by channel: what \<open>AlphaBlendPixel\<close> produces
  decomposes to three channels, each between the source channel and the destination channel,
  equal to the source for an opaque and to the destination for a clear pixel.
\<close>

theorem blend_between:
  assumes "rgb8 (PixelFormat fb)"
  shows "\<exists>p r' g' b' dr dg db. AlphaBlendPixel fb d r g b a = Some p \<and>
    DecomposePixel p (PixelFormat fb) (RedMask fb) (GreenMask fb) (BlueMask fb) = Some (r', g', b') \<and>
    DecomposePixel d (PixelFormat fb) (RedMask fb) (GreenMask fb) (BlueMask fb) = Some (dr, dg, db) \<and>
    (\<forall>(s, t, v) \<in> {(r, dr, r'), (g, dg, g'), (b, db, b')}. min s t \<le> v \<and> v \<le> max s t \<and>
       (a = 255 \<longrightarrow> v = s) \<and> (a = 0 \<longrightarrow> v = t))"
proof -
  let ?dec = "\<lambda>p. DecomposePixel p (PixelFormat fb) (RedMask fb) (GreenMask fb) (BlueMask fb)"
  have f: "format_ok fb" using assms by (auto simp: format_ok_def rgb8_def gop_format_defs)
  obtain dr dg db where d: "?dec d = Some (dr, dg, db)" using DecomposePixel_defined [OF f] by blast
  define ch where "ch s t = (if a = 255 then s else if a = 0 then t else BlendChannel s t a)" for s t
  have between: "min s t \<le> ch s t \<and> ch s t \<le> max s t \<and> (a = 255 \<longrightarrow> ch s t = s) \<and> (a = 0 \<longrightarrow> ch s t = t)" for s t
    using BlendChannel_between [of s t a] by (auto simp: ch_def min_def max_def word_le_nat_alt split: if_splits)
  have rt: "\<exists>p. ComposeFor fb x y z = Some p \<and> ?dec p = Some (x, y, z)" for x y z
    using compose_decompose_8bit [OF assms, of x y z "RedMask fb" "GreenMask fb" "BlueMask fb"]
    by (auto simp: ComposeFor_def bind_eq_Some_conv)
  have "\<exists>p. AlphaBlendPixel fb d r g b a = Some p \<and> ?dec p = Some (ch r dr, ch g dg, ch b db)"
    using rt [of "ch r dr" "ch g dg" "ch b db"] d by (auto simp: AlphaBlendPixel_def ch_def)
  then show ?thesis using d between by blast
qed

lemma blend_between_witness:
  "\<exists>p r' g' b' dr dg db. AlphaBlendPixel (demo_screen 4 2 0) 0x102030 9 8 7 100 = Some p \<and>
    DecomposePixel p (PixelFormat (demo_screen 4 2 0)) 0 0 0 = Some (r', g', b') \<and>
    DecomposePixel 0x102030 (PixelFormat (demo_screen 4 2 0)) 0 0 0 = Some (dr, dg, db) \<and>
    (\<forall>(s, t, v) \<in> {(9, dr, r'), (8, dg, g'), (7, db, b')}. min s t \<le> v \<and> v \<le> max s t \<and>
       ((100 :: UINT8) = 255 \<longrightarrow> v = s) \<and> ((100 :: UINT8) = 0 \<longrightarrow> v = t))"
  using blend_between [of "demo_screen 4 2 0" "0x102030" 9 8 7 100]
  by (simp add: rgb8_def demo_screen_def)

end
