(* ===== verification/DrawingProperties.thy ===== *)
theory DrawingProperties
  imports Examples
begin

text \<open>
  The properties of the drawing routines: rectangles, boxes, glyphs, text, images and the cursor.
\<close>

subsection \<open>Rectangles and boxes\<close>



text \<open>
  C26: \<open>BlitSurfaceRect\<close> makes the destination show the source in the rectangle, clipped to both
  surfaces, and changes nothing else.
\<close>

theorem blit_rect_exact:
  assumes "mapped d h" "mapped s h" "apart d s" "Framebuffer d \<noteq> 0" "Framebuffer s \<noteq> 0"
  shows "\<exists>h'. BlitSurfaceRect (Some d) (Some s) x y w n h = Some h' \<and> (\<forall>q. q \<notin> visible d \<longrightarrow> h' q = h q) \<and>
    (\<forall>u v. on_screen d u v \<longrightarrow> h' (pixel_at d u v) =
       (if in_rect x y w n u v \<and> on_screen s u v then h (pixel_at s u v) else h (pixel_at d u v)))"
proof -
  from BlitSurfaceRect_recolours [OF assms, of x y w n] obtain h' where h':
    "BlitSurfaceRect (Some d) (Some s) x y w n h = Some h'"
    "recolours d (\<lambda>X Y c. if in_rect x y w n X Y \<and> on_screen s X Y then the (h (pixel_at s X Y)) else c) h h'"
    by (rule wpE)
  have "h' (pixel_at d u v) = (if in_rect x y w n u v \<and> on_screen s u v then h (pixel_at s u v) else h (pixel_at d u v))"
    if "on_screen d u v" for u v
    using recoloursD_pixel [OF h'(2) that] mapped_pixel [OF assms(1) that] mapped_pixel [OF assms(2), of u v]
    by (auto simp: option.map_ident)
  then show ?thesis using h'(1) recoloursD_other [OF h'(2)] by blast
qed

lemma blit_rect_exact_witness:
  "\<exists>h'. BlitSurfaceRect (Some (demo_screen 4 2 0x1000)) (Some (demo_screen 3 2 0x2000)) 1 0 2 9 ram = Some h' \<and>
    (\<forall>q. q \<notin> visible (demo_screen 4 2 0x1000) \<longrightarrow> h' q = ram q) \<and>
    (\<forall>u v. on_screen (demo_screen 4 2 0x1000) u v \<longrightarrow> h' (pixel_at (demo_screen 4 2 0x1000) u v) =
       (if in_rect 1 0 2 9 u v \<and> on_screen (demo_screen 3 2 0x2000) u v
        then ram (pixel_at (demo_screen 3 2 0x2000) u v) else ram (pixel_at (demo_screen 4 2 0x1000) u v)))"
  by (rule blit_rect_exact) (simp_all add: demo_mapped apart_def surface_cells_def cells_separate)

text \<open>
  A rounded box is filled exactly where its geometry says: the rectangle less its corners,
  where a corner keeps the points whose distance from the corner's centre, in whole pixels, is
  below the radius.
\<close>

theorem rounded_box_exact:
  assumes "mapped fb h" "box_ok box"
  shows "\<exists>h'. DrawRoundedBox fb box h = Some h' \<and> (\<forall>q. q \<notin> visible fb \<longrightarrow> h' q = h q) \<and>
    (\<forall>u v. on_screen fb u v \<longrightarrow> h' (pixel_at fb u v) =
       (if UI_BOX.X box \<le> u \<and> UI_BOX.Y box \<le> v \<and>
           rounded (unat (Width box)) (unat (Height box)) (unat (Radius box)) (unat (u - UI_BOX.X box)) (unat (v - UI_BOX.Y box))
        then Some (Color box) else h (pixel_at fb u v)))"
proof -
  from DrawRoundedBox_recolours [OF assms(1), of box] obtain h' where h': "DrawRoundedBox fb box h = Some h'"
    "recolours fb (\<lambda>x y c. if PointInRoundedBox x y box \<noteq> 0 then Color box else c) h h'" by (rule wpE)
  have "h' (pixel_at fb u v) = (if PointInRoundedBox u v box \<noteq> 0 then Some (Color box) else h (pixel_at fb u v))"
    if "on_screen fb u v" for u v
    using recoloursD_pixel [OF h'(2) that] mapped_pixel [OF assms(1) that] by (auto simp: option.map_ident)
  then show ?thesis using h'(1) recoloursD_other [OF h'(2)] PointInRoundedBox_rounded [OF assms(2)] by auto
qed

lemma rounded_box_exact_witness:
  "\<exists>box h'. Width box = 40 \<and> Radius box = 8 \<and> DrawRoundedBox (demo_screen 64 48 0) box ram = Some h' \<and>
    (\<forall>q. q \<notin> visible (demo_screen 64 48 0) \<longrightarrow> h' q = ram q) \<and>
    (\<forall>u v. on_screen (demo_screen 64 48 0) u v \<longrightarrow> h' (pixel_at (demo_screen 64 48 0) u v) =
       (if UI_BOX.X box \<le> u \<and> UI_BOX.Y box \<le> v \<and>
           rounded (unat (Width box)) (unat (Height box)) (unat (Radius box)) (unat (u - UI_BOX.X box)) (unat (v - UI_BOX.Y box))
        then Some (Color box) else ram (pixel_at (demo_screen 64 48 0) u v)))"
proof -
  let ?box = "\<lparr>UI_BOX.X = 10, UI_BOX.Y = 5, Width = 40, Height = 30, Radius = 8, Color = 7, Dragging = 0, DragOffsetX = 0, DragOffsetY = 0\<rparr>"
  have "mapped (demo_screen 64 48 0) ram" "box_ok ?box" by (simp_all add: demo_mapped box_ok_def)
  from rounded_box_exact [OF this] show ?thesis by (intro exI [of _ ?box]) simp
qed

subsection \<open>Glyphs and text\<close>

text \<open>
  The console's and the icon font's glyph routines draw what the routine for a general atlas
  draws for their tables, and the magnifying routine at scale 1 is the console's.
\<close>

theorem glyph_routines_agree:
  assumes "mapped fb h" "format_ok fb" "font_ok (Font A)"
  shows "DrawGlyph A fb x y glyph r g b h = DrawGlyphAtlas fb x y glyph r g b (FIRST_CHAR (Font A)) (GLYPH_COUNT (Font A))
      (GLYPH_WIDTH (Font A)) (GLYPH_HEIGHT (Font A)) (Some (GlyphAlpha (Font A))) h \<and>
   DrawIconGlyph A fb x y glyph r g b h = DrawGlyphAtlas fb x y glyph r g b (FIRST_CHAR (IconFont A)) (GLYPH_COUNT (IconFont A))
      (GLYPH_WIDTH (IconFont A)) (GLYPH_HEIGHT (IconFont A)) (Some (GlyphAlpha (IconFont A))) h \<and>
   DrawGlyphScaled A fb x y glyph r g b 1 h = DrawGlyph A fb x y glyph r g b h"
  using DrawGlyphScaled_1 [OF assms] by (simp add: DrawGlyph_atlas DrawIconGlyph_atlas)

lemma glyph_routines_agree_witness:
  "DrawGlyphScaled demo_assets (demo_screen 4 2 0) (- 1) 0 65 255 0 0 1 ram =
   DrawGlyph demo_assets (demo_screen 4 2 0) (- 1) 0 65 255 0 0 ram"
  using glyph_routines_agree [of "demo_screen 4 2 0" ram demo_assets "- 1" 0 65 255 0 0]
  by (simp add: demo_mapped demo_format_ok demo_font_ok)

text \<open>
  C29: a text is drawn glyph after glyph, each moved on by the advance of the one before, a newline
  going back to the left edge one line down.  Only the pixels on the screen under a glyph change,
  each blended with the glyph's alpha at that place; there is no position at which the routine
  writes outside the screen or reads outside its tables.
\<close>

theorem text_drawn:
  assumes "mapped fb h" "format_ok fb" "font_ok (Font A)"
  shows "\<exists>h'. DrawTextString A fb x y (Some str) r g b h = Some h' \<and> (\<forall>q. q \<notin> visible fb \<longrightarrow> h' q = h q) \<and>
    (\<forall>u v. on_screen fb u v \<longrightarrow> h' (pixel_at fb u v) =
       map_option (text_shader (font_shader fb (Font A) r g b) (font_step (Font A) 1 8) (GLYPH_HEIGHT (Font A)) x x y str u v)
         (h (pixel_at fb u v)))"
  using DrawTextString_recolours [OF assms, of r g b x y str] by (auto simp: wp_iff recolours_def)

lemma text_drawn_witness:
  "\<exists>h'. DrawTextString demo_assets (demo_screen 4 2 0) (- 1) 0 (Some ''AA'') 255 0 0 ram = Some h' \<and>
    (\<forall>q. q \<notin> visible (demo_screen 4 2 0) \<longrightarrow> h' q = ram q) \<and>
    (\<forall>u v. on_screen (demo_screen 4 2 0) u v \<longrightarrow> h' (pixel_at (demo_screen 4 2 0) u v) =
       map_option (text_shader (font_shader (demo_screen 4 2 0) (Font demo_assets) 255 0 0) (font_step (Font demo_assets) 1 8)
         (GLYPH_HEIGHT (Font demo_assets)) (- 1) (- 1) 0 ''AA'' u v) (ram (pixel_at (demo_screen 4 2 0) u v)))"
  by (rule text_drawn) (simp_all add: demo_mapped demo_format_ok demo_font_ok)

text \<open>
  A text with gradient and outline changes only pixels of the screen, for every position,
  text and colour, and for every outline thickness but the largest one.
\<close>

theorem outlined_text_on_screen:
  assumes "mapped fb h" "format_ok fb" "font_ok F" "t \<noteq> 0x7FFFFFFF"
  shows "\<exists>h'. DrawGradientOutlinedTextAtlas fb x y str r g b r' g' b' t (FIRST_CHAR F) (GLYPH_COUNT F) (GLYPH_WIDTH F)
      (GLYPH_HEIGHT F) (Some (GlyphAlpha F)) (Some (GlyphAdvance F)) fallback h = Some h' \<and>
    dom h' = dom h \<and> (\<forall>q. q \<notin> visible fb \<longrightarrow> h' q = h q)"
  using DrawGradientOutlinedTextAtlas_draws [OF assms, of x y str r g b r' g' b' fallback] by (simp add: wp_iff draws_def)

lemma outlined_text_on_screen_witness:
  "\<exists>h'. DrawGradientOutlinedTextAtlas (demo_screen 4 2 0) (- 1) 0 (Some ''AA'') 255 0 0 0 0 255 2 (FIRST_CHAR demo_font)
      (GLYPH_COUNT demo_font) (GLYPH_WIDTH demo_font) (GLYPH_HEIGHT demo_font) (Some (GlyphAlpha demo_font))
      (Some (GlyphAdvance demo_font)) 1 ram = Some h' \<and>
    dom h' = dom ram \<and> (\<forall>q. q \<notin> visible (demo_screen 4 2 0) \<longrightarrow> h' q = ram q)"
  by (rule outlined_text_on_screen) (simp_all add: demo_mapped demo_format_ok demo_font_ok)

subsection \<open>Images and tweens\<close>



text \<open>
  A splash frame fills a rectangle that lies on the screen with the scaled image, faded over
  black, and leaves all other pixels alone, for every scale and alpha.
\<close>

theorem splash_frame_on_screen:
  assumes "mapped fb h" "format_ok fb" "image_ok (Splash A)"
  shows "\<exists>sx sy dw dh h'. ComputeSplashRect A fb scale = (sx, sy, dw, dh) \<and>
    unat sx + unat dw \<le> unat (ScreenWidth fb) \<and> unat sy + unat dh \<le> unat (ScreenHeight fb) \<and>
    DrawSplashFrame A fb alpha scale h = Some h' \<and>
    recolours fb (\<lambda>u v c. if u - sx < dw \<and> v - sy < dh then splash_pixel A fb alpha dw dh (v - sy) (u - sx) else c) h h'"
proof -
  obtain sx sy dw dh where r: "ComputeSplashRect A fb scale = (sx, sy, dw, dh)" by (metis prod.exhaust)
  from DrawSplashFrame_recolours [OF assms r, of alpha] ComputeSplashRect_on_screen [OF r] show ?thesis
    by (auto simp: wp_iff r)
qed

lemma splash_frame_on_screen_witness:
  "\<exists>sx sy dw dh h'. ComputeSplashRect demo_assets (demo_screen 4 2 0) 1024 = (sx, sy, dw, dh) \<and>
    unat sx + unat dw \<le> unat (ScreenWidth (demo_screen 4 2 0)) \<and> unat sy + unat dh \<le> unat (ScreenHeight (demo_screen 4 2 0)) \<and>
    DrawSplashFrame demo_assets (demo_screen 4 2 0) 128 1024 ram = Some h' \<and>
    recolours (demo_screen 4 2 0) (\<lambda>u v c. if u - sx < dw \<and> v - sy < dh
       then splash_pixel demo_assets (demo_screen 4 2 0) 128 dw dh (v - sy) (u - sx) else c) ram h'"
  by (rule splash_frame_on_screen) (simp_all add: demo_mapped demo_format_ok demo_image_ok)

subsection \<open>The software cursor\<close>

text \<open>
  C8: saving the background, drawing the cursor and restoring the background leaves every pixel of
  the screen, and every cell outside the cursor's save area, as it was: at every position, also
  where the cursor hangs over the right or the lower edge.
\<close>

theorem cursor_leaves_no_trace:
  assumes "mapped fb h" "mapped (saved_surface A cursor) h" "apart (saved_surface A cursor) fb" "cursor_ok A fb cursor"
  shows "wp (\<lambda>h'. \<forall>q. q \<notin> surface_cells (saved_surface A cursor) \<longrightarrow> h' q = h q)
    (do { (h, c) \<leftarrow> SaveCursorBackground A fb cursor h;
          h \<leftarrow> DrawCursor A fb c h;
          (h, c) \<leftarrow> RestoreCursorBackground A fb (c\<lparr>Visible := 1\<rparr>) h;
          Some h })"
  by (rule save_draw_restore [OF assms])

lemma cursor_leaves_no_trace_witness:
  "wp (\<lambda>h'. \<forall>q. q \<notin> surface_cells (saved_surface demo_assets demo_cursor) \<longrightarrow> h' q = ram q)
    (do { (h, c) \<leftarrow> SaveCursorBackground demo_assets (demo_screen 4 2 0x1000) demo_cursor ram;
          h \<leftarrow> DrawCursor demo_assets (demo_screen 4 2 0x1000) c h;
          (h, c) \<leftarrow> RestoreCursorBackground demo_assets (demo_screen 4 2 0x1000) (c\<lparr>Visible := 1\<rparr>) h;
          Some h })"
  by (rule cursor_leaves_no_trace) (simp_all add: demo_mapped demo_saved_mapped demo_cursor_ok demo_cursor_apart)



end
