(* ===== verification/InputProperties.thy ===== *)
theory InputProperties
  imports Examples
begin

text \<open>
  The properties of the input side: the cursor's coordinates, the pointer protocols of the firmware
  and the PS/2 mouse.
\<close>

subsection \<open>Coordinates and motion\<close>

text \<open>
  A clamped cursor coordinate keeps the whole bitmap on the screen, and a coordinate that
  already does is not changed.
\<close>

theorem cursor_clamped:
  assumes "surface_ok fb"
  shows "ClampCursorX A v fb \<le> cursor_limit (ScreenWidth fb) (CURSOR_WIDTH A) \<and>
    ClampCursorY A v fb \<le> cursor_limit (ScreenHeight fb) (CURSOR_HEIGHT A) \<and>
    (0 \<le> sint v \<longrightarrow> v \<le> cursor_limit (ScreenWidth fb) (CURSOR_WIDTH A) \<longrightarrow> ClampCursorX A v fb = v) \<and>
    (0 \<le> sint v \<longrightarrow> v \<le> cursor_limit (ScreenHeight fb) (CURSOR_HEIGHT A) \<longrightarrow> ClampCursorY A v fb = v)"
  using ClampCursor_bounds [OF assms] ClampCursor_identity [OF assms] by blast

lemma cursor_clamped_witness:
  "ClampCursorX demo_assets 639 (demo_screen 640 480 0) \<le> cursor_limit (ScreenWidth (demo_screen 640 480 0)) (CURSOR_WIDTH demo_assets) \<and>
   ClampCursorY demo_assets 639 (demo_screen 640 480 0) \<le> cursor_limit (ScreenHeight (demo_screen 640 480 0)) (CURSOR_HEIGHT demo_assets) \<and>
   ClampCursorX demo_assets 639 (demo_screen 640 480 0) = 639"
  using cursor_clamped [of "demo_screen 640 480 0" demo_assets 639] by (simp add: surface_ok_def cursor_limit_def)

text \<open>
  The mouse curve keeps the sign of a delta and lets at most 64 counts through; the acceleration
  keeps the sign, never slows down and at most triples.
\<close>

theorem motion_bounded:
  assumes "\<bar>sint d\<bar> \<le> 256" "\<bar>sint v\<bar> \<le> 11184810"
  shows "\<bar>sint (ApplyMouseCurve d)\<bar> \<le> 64 \<and> 0 \<le> sint d * sint (ApplyMouseCurve d) \<and>
    \<bar>sint v\<bar> \<le> \<bar>sint (ApplyMouseAcceleration v)\<bar> \<and> \<bar>sint (ApplyMouseAcceleration v)\<bar> \<le> 3 * \<bar>sint v\<bar> \<and>
    0 \<le> sint v * sint (ApplyMouseAcceleration v)"
proof -
  have zdiv_nonneg: "0 \<le> (sint d)\<^sup>2 div 8" by (simp add: div_int_pos_iff)
  have "0 \<le> sint d * sint (ApplyMouseCurve d)"
    unfolding ApplyMouseCurve_sint [OF assms(1)] using zdiv_nonneg by (auto simp: sgn_if zero_le_mult_iff min_def)
  then show ?thesis using ApplyMouseCurve_bound [OF assms(1)] ApplyMouseAcceleration_between [OF assms(2)] by blast
qed

lemma motion_bounded_witness:
  "\<bar>sint (ApplyMouseCurve 20)\<bar> \<le> 64 \<and> 0 \<le> sint (20 :: INT32) * sint (ApplyMouseCurve 20) \<and>
    \<bar>sint (- 512 :: INT32)\<bar> \<le> \<bar>sint (ApplyMouseAcceleration (- 512))\<bar> \<and>
    \<bar>sint (ApplyMouseAcceleration (- 512))\<bar> \<le> 3 * \<bar>sint (- 512 :: INT32)\<bar> \<and>
    0 \<le> sint (- 512 :: INT32) * sint (ApplyMouseAcceleration (- 512))"
  by (rule motion_bounded) simp_all

text \<open>
  C33: the fixed-point accumulator loses no motion: whole pixels and what is kept for the next time add
  up to what was there before, cut off at 64 pixels; what is kept is less than a pixel and does not
  change sign.
\<close>

theorem accumulator_conserves:
  assumes "- 2147483648 \<le> sint a + sint d" "sint a + sint d \<le> 2147483647"
  shows "\<exists>pixels rest. Accumulate a d = (pixels, rest) \<and>
    sint pixels * 256 + sint rest = max (- 16384) (min 16384 (sint a + sint d)) \<and>
    \<bar>sint rest\<bar> < 256 \<and> \<bar>sint pixels\<bar> \<le> 64 \<and> 0 \<le> sint pixels * sint rest"
  using Accumulate_conserves [OF assms] by (auto split: prod.splits)

lemma accumulator_conserves_witness:
  "\<exists>pixels rest. Accumulate 200 (- 1000) = (pixels, rest) \<and>
    sint pixels * 256 + sint rest = max (- 16384) (min 16384 (sint (200 :: INT32) + sint (- 1000 :: INT32))) \<and>
    \<bar>sint rest\<bar> < 256 \<and> \<bar>sint pixels\<bar> \<le> 64 \<and> 0 \<le> sint pixels * sint rest"
  by (rule accumulator_conserves) simp_all

text \<open>The three sources of motion, in any order.\<close>

inductive cursor_step ::
  "ASSETS \<Rightarrow> FRAMEBUFFER_INFO \<Rightarrow> 'e EFI_ABSOLUTE_POINTER_PROTOCOL option \<Rightarrow> 'e EFI_SIMPLE_POINTER_PROTOCOL option \<Rightarrow>
   'e PORTS \<Rightarrow> SOFTWARE_CURSOR \<Rightarrow> SOFTWARE_CURSOR \<Rightarrow> bool" for A fb P Q R where
  absolute_pointer: "TryUpdateCursorFromAbsolutePointer A P (Some c) (Some fb) e = Some (r, Some c', e') \<Longrightarrow> cursor_step A fb P Q R c c'"
| simple_pointer: "TryUpdateCursorFromSimplePointer A Q (Some c) (Some fb) e = Some (r, Some c', e') \<Longrightarrow> cursor_step A fb P Q R c c'"
| ps2_mouse: "UpdateCursorFromPs2Mouse A R (Some m) (Some c) (Some fb) e = Some (r, Some m', Some c', e') \<Longrightarrow> cursor_step A fb P Q R c c'"

inductive_cases cursor_stepE: "cursor_step A fb P Q R c c'"

lemma cursor_step_keeps:
  assumes "cursor_step A fb P Q R c c'" "surface_ok fb" "in_bounds A fb c"
  shows "moves c c' \<and> in_bounds A fb c'"
  using assms(1)
proof cases
  case absolute_pointer
  from retD [OF absolute.update_result [OF assms(2,3)] this] show ?thesis by simp
next
  case simple_pointer
  from retD [OF simple.update_result [OF assms(2,3)] this] show ?thesis by simp
next
  case (ps2_mouse m e r m' e')
  then have "Ps2Update A R fb c (m, e) = Some (r, Some c', (m', e'))" by (simp add: Ps2Update_def)
  from retD [OF ps2.update_result [OF assms(2,3)] this] show ?thesis by simp
qed

text \<open>
  C25: however the firmware's pointers and the mouse answer, and in whatever order they are asked, the
  cursor stays inside the screen, and no update hides it or touches its saved background and bitmap.
\<close>

theorem cursor_stays_on_screen:
  assumes "(cursor_step A fb P Q R)\<^sup>*\<^sup>* c c'" "surface_ok fb" "in_bounds A fb c"
  shows "moves c c' \<and> in_bounds A fb c'"
  using assms
  by (induction rule: rtranclp_induct) (auto dest: cursor_step_keeps intro: moves_trans)

text \<open>A simple pointer that reports one movement of ten counts, and then none.\<close>

definition demo_pointer :: "nat EFI_SIMPLE_POINTER_PROTOCOL" where
  "demo_pointer = \<lparr>GetState = (\<lambda>n. if n = 0 then (EFI_NOT_READY, None, 0)
       else (EFI_SUCCESS, Some \<lparr>RelativeMovementX = 10, RelativeMovementY = 0, RelativeMovementZ = 0, LeftButton = 1, RightButton = 0\<rparr>, n - 1)),
     Mode = None\<rparr>"

lemma demo_poll:
  "PollCount p + 1 < 64 \<Longrightarrow> SimplePointer_poll demo_pointer None p (Suc 0) =
   Some (Some \<lparr>TotalCountsX = TotalCountsX p + 10, TotalCountsY = TotalCountsY p, PollCount = PollCount p + 1, PollLeftButtonDown = 1\<rparr>, 0)"
  by (subst SimplePointer_poll.simps, simp add: demo_pointer_def written_def Let_def not_le)
     (subst SimplePointer_poll.simps, simp)

lemma MoveCursorSimple_raw:
  "LastRawX (snd (MoveCursorSimple A m fb tx ty c)) = LastRawX c"
  "LastPollCount (snd (MoveCursorSimple A m fb tx ty c)) = LastPollCount c"
  by (simp_all add: MoveCursorSimple_def Let_def split: prod.split)

lemma demo_move:
  "\<exists>r c. TryUpdateCursorFromSimplePointer demo_assets (Some demo_pointer) (Some demo_cursor) (Some (demo_screen 640 480 0)) 1
     = Some (r, Some c, 0) \<and> LastRawX c = 10"
  by (simp add: TryUpdateCursorFromSimplePointer_def demo_poll Let_def case_prod_unfold MoveCursorSimple_raw ClampI32_def)

lemma cursor_stays_on_screen_witness:
  "\<exists>c. moves demo_cursor c \<and> in_bounds demo_assets (demo_screen 640 480 0) c \<and> LastRawX c = 10"
proof -
  obtain r c where c: "TryUpdateCursorFromSimplePointer demo_assets (Some demo_pointer) (Some demo_cursor)
      (Some (demo_screen 640 480 0)) 1 = Some (r, Some c, 0)" "LastRawX c = 10" using demo_move by blast
  from r_into_rtranclp [of "cursor_step demo_assets (demo_screen 640 480 0) None (Some demo_pointer) silent_ports", OF simple_pointer [OF c(1)]]
  show ?thesis using cursor_stays_on_screen [OF _ demo_cursor_in_bounds] c(2) by blast
qed

lemma SimplePointer_poll_ends:
  "(\<And>e e'. GetState P e \<noteq> (EFI_SUCCESS, None, e')) \<Longrightarrow> unat (PollCount p) < 64 \<Longrightarrow>
    wp (\<lambda>(r, e'). \<forall>q. r = Some q \<longrightarrow> unat (PollCount q) \<le> 64) (SimplePointer_poll P s p e)"
proof (induction P s p e rule: SimplePointer_poll.induct)
  case (1 P s p e)
  obtain st out e' where g: "GetState P e = (st, out, e')" by (metis prod.exhaust)
  show ?case
  proof (cases "st = EFI_SUCCESS")
    case False
    then show ?thesis using 1 g by (subst SimplePointer_poll.simps) simp
  next
    case True
    then obtain t where o: "out = Some t" using g "1.prems"(1) [of e e'] by (cases out) auto
    define q where "q = \<lparr>TotalCountsX = TotalCountsX p + scast (RelativeMovementX t), TotalCountsY = TotalCountsY p + scast (RelativeMovementY t),
      PollCount = PollCount p + 1, PollLeftButtonDown = (if LeftButton t \<noteq> 0 then 1 else 0)\<rparr>"
    have n: "unat (PollCount q) = Suc (unat (PollCount p))" using "1.prems"(2) by (simp add: q_def unat_Suc_word [of _ 64] word_less_nat_alt)
    have step: "SimplePointer_poll P s p e = (if PollCount q \<ge> 64 then Some (Some q, e') else SimplePointer_poll P (Some t) q e')"
      by (subst SimplePointer_poll.simps) (simp add: g True o written_def Let_def q_def)
    have "wp (\<lambda>(r, e'). \<forall>q. r = Some q \<longrightarrow> unat (PollCount q) \<le> 64) (SimplePointer_poll P (Some t) q e')" if "\<not> PollCount q \<ge> 64"
    proof -
      have "unat (PollCount q) < 64" using that by (simp add: word_le_nat_alt)
      with "1.IH" [of st "(out, e')" out e' t q] that "1.prems"(1) show ?thesis using g True o by (simp add: written_def q_def)
    qed
    then show ?thesis using n "1.prems"(2) by (simp add: step)
  qed
qed

text \<open>
  An update from the simple pointer always returns, however long the firmware has reports to
  give, if the firmware stores a state whenever it reports success: after 64 reports it stops.
\<close>

theorem simple_pointer_returns:
  assumes "\<And>e e'. GetState Q e \<noteq> (EFI_SUCCESS, None, e')" "surface_ok fb" "in_bounds A fb c"
  shows "\<exists>r c' e'. TryUpdateCursorFromSimplePointer A (Some Q) (Some c) (Some fb) e = Some (r, Some c', e') \<and>
    moves c c' \<and> in_bounds A fb c' \<and> (unat (LastPollCount c') \<le> 64 \<or> LastPollCount c' = LastPollCount c)"
proof -
  let ?p = "\<lparr>TotalCountsX = 0, TotalCountsY = 0, PollCount = 0, PollLeftButtonDown = LeftButtonDown c\<rparr>"
  have "wp (\<lambda>(r, e'). \<forall>q. r = Some q \<longrightarrow> unat (PollCount q) \<le> 64) (SimplePointer_poll Q None ?p e)"
    by (rule SimplePointer_poll_ends) (use assms(1) in simp_all)
  then obtain x e' where x: "SimplePointer_poll Q None ?p e = Some (x, e')" "\<forall>q. x = Some q \<longrightarrow> unat (PollCount q) \<le> 64"
    by (auto elim!: wpE)
  have "\<exists>r c'. TryUpdateCursorFromSimplePointer A (Some Q) (Some c) (Some fb) e = Some (r, Some c', e') \<and>
      (unat (LastPollCount c') \<le> 64 \<or> LastPollCount c' = LastPollCount c)"
    using x by (cases x) (simp_all add: TryUpdateCursorFromSimplePointer_def Let_def case_prod_unfold MoveCursorSimple_raw)
  then show ?thesis using retD [OF simple.update_result [OF assms(2,3), of "Some Q" e]] by fastforce
qed

lemma simple_pointer_returns_witness:
  "\<exists>r c' e'. TryUpdateCursorFromSimplePointer demo_assets (Some demo_pointer) (Some demo_cursor)
      (Some (demo_screen 640 480 0)) 1000 = Some (r, Some c', e') \<and> unat (LastPollCount c') \<le> 64"
proof -
  have "GetState demo_pointer e \<noteq> (EFI_SUCCESS, None, e')" for e e' by (simp add: demo_pointer_def)
  from simple_pointer_returns [OF this demo_cursor_in_bounds, of 0 1000] show ?thesis by (fastforce simp: demo_cursor_def)
qed

subsection \<open>The PS/2 mouse\<close>

text \<open>
  C7: feeding bytes to the driver is decoding: after any bytes, the movement, the packets counted, the
  button and the bytes kept for the next packet are those of the reference decoder \<open>packets\<close>, which
  groups the bytes in threes beginning with a byte that has its sync bit set, and drops the bytes
  between.  Packets with an overflow bit count for the button only.
\<close>

theorem ps2_decodes:
  assumes "ps2_ok (mouse p)"
  shows "\<exists>p'. receive bs p = Some p' \<and> ps2_ok (mouse p') \<and>
    pending (mouse p') = leftover (pending (mouse p) @ bs) \<and>
    totalDeltaX p' = totalDeltaX p + (\<Sum>(_, x, _) \<leftarrow> good (packets (pending (mouse p) @ bs)). scast x) \<and>
    totalDeltaY p' = totalDeltaY p + (\<Sum>(_, _, y) \<leftarrow> good (packets (pending (mouse p) @ bs)). scast y) \<and>
    packetCount p' = packetCount p + of_nat (length (good (packets (pending (mouse p) @ bs)))) \<and>
    leftButtonDown p' = left_button (leftButtonDown p) (packets (pending (mouse p) @ bs))"
  using receive_wp [OF assms, of bs] by (auto simp: wp_iff decoded_def)

definition demo_poll_start :: ps2_poll where
  "demo_poll_start = \<lparr>mouse = demo_mouse, totalDeltaX = 0, totalDeltaY = 0, packetCount = 0, leftButtonDown = 0\<rparr>"

lemma ps2_decodes_witness:
  "\<exists>p'. receive [0, 0x09, 5, 0xFE, 0x08, 1] demo_poll_start = Some p' \<and> totalDeltaX p' = 5 \<and> totalDeltaY p' = - 2 \<and>
     packetCount p' = 1 \<and> leftButtonDown p' = 1 \<and> pending (mouse p') = [0x08, 1]"
  using ps2_decodes [of demo_poll_start "[0, 0x09, 5, 0xFE, 0x08, 1]"] demo_mouse_ok
  by (auto simp: demo_poll_start_def demo_mouse_def pending_def good_def left_button_def)

text \<open>
  Bytes without the sync bit in front of a packet are dropped, and the packet behind them is
  decoded: its button is taken over, and its movement unless an overflow bit is set.
\<close>

theorem ps2_resynchronises:
  assumes "ps2_ok (mouse p)" "PacketIndex (mouse p) = 0" "\<forall>n \<in> set noise. n AND 0x08 = 0" "a AND 0x08 \<noteq> 0"
  shows "\<exists>p'. receive (noise @ [a, b, c]) p = Some p' \<and> PacketIndex (mouse p') = 0 \<and>
    leftButtonDown p' = bool8 (a AND 0x01 \<noteq> 0) \<and>
    totalDeltaX p' = totalDeltaX p + (if a AND 0xC0 = 0 then scast b else 0) \<and>
    totalDeltaY p' = totalDeltaY p + (if a AND 0xC0 = 0 then scast c else 0)"
proof -
  have "packets (noise @ [a, b, c]) = [(a, b, c)] \<and> leftover (noise @ [a, b, c]) = []"
    using assms(3) by (induction noise) (simp_all add: assms(4) out_of_step)
  moreover have "pending (mouse p) = []" using assms(2) by (simp add: pending_def)
  ultimately show ?thesis using receive_wp [OF assms(1), of "noise @ [a, b, c]"]
    by (auto simp: wp_iff decoded_def good_def left_button_def pending_def ps2_ok_def unat_eq_0)
qed

lemma ps2_resynchronises_witness:
  "\<exists>p'. receive ([0, 0xF7] @ [0x09, 5, 0xFE]) demo_poll_start = Some p' \<and> PacketIndex (mouse p') = 0 \<and>
    leftButtonDown p' = 1 \<and> totalDeltaX p' = 5 \<and> totalDeltaY p' = - 2"
  using ps2_resynchronises [of demo_poll_start "[0, 0xF7]" "0x09" 5 "0xFE"] demo_mouse_ok
  by (simp add: demo_poll_start_def demo_mouse_def)

text \<open>
  C23: an update from the mouse always returns, whatever the controller answers: at most 96 bytes are
  taken, and at most 32 packets counted; the driver stays in step, the cursor on the screen, and
  it has moved only if packets were counted.
\<close>

theorem ps2_update_returns:
  assumes "ps2_ok m" "surface_ok fb" "in_bounds A fb c" "Enabled m \<noteq> 0"
  shows "\<exists>r m' c' d'. UpdateCursorFromPs2Mouse A P (Some m) (Some c) (Some fb) d = Some (r, Some m', Some c', d') \<and>
    ps2_ok m' \<and> moves c c' \<and> in_bounds A fb c' \<and> unat (LastPollCount c') \<le> 32 \<and>
    r = bool8 (LastPollCount c' \<noteq> 0) \<and>
    (r = 0 \<longrightarrow> SOFTWARE_CURSOR.X c' = SOFTWARE_CURSOR.X c \<and> SOFTWARE_CURSOR.Y c' = SOFTWARE_CURSOR.Y c) \<and>
    (\<exists>bs. length bs \<le> 96 \<and> LastPollCount c' = of_nat (length (good (packets (pending m @ bs)))) \<and>
       LeftButtonDown c' = left_button (LeftButtonDown c) (packets (pending m @ bs)))"
  using UpdateCursorFromPs2Mouse_wp [OF assms(1-3), of P d] assms(4)
  by (auto simp: wp_iff polls_def decoded_def split: prod.splits)

lemma ps2_update_returns_witness:
  "\<exists>r m' c' d'. UpdateCursorFromPs2Mouse demo_assets fed_ports (Some demo_mouse) (Some demo_cursor)
      (Some (demo_screen 640 480 0)) [0x09, 5, 0xFE] = Some (r, Some m', Some c', d') \<and>
    ps2_ok m' \<and> in_bounds demo_assets (demo_screen 640 480 0) c' \<and> unat (LastPollCount c') \<le> 32"
  using ps2_update_returns [of demo_mouse "demo_screen 640 480 0" demo_assets demo_cursor fed_ports "[0x09, 5, 0xFE]"] demo_mouse_ok
  by (auto simp: surface_ok_def in_bounds_def cursor_limit_def demo_cursor_def demo_mouse_def)


end
