(* ===== verification/StatusProperties.thy ===== *)
theory StatusProperties
  imports Examples
begin

text \<open>
  The properties of the console, the set-up screen, the tween demo and the status screen.
\<close>

subsection \<open>Numbers and lines\<close>

text \<open>
  C34: what \<open>AppendInt\<close> writes reads back as the number, for every 32-bit number, the most negative
  one included, in at most eleven characters; \<open>AppendUIntHexFixed\<close> writes exactly the digits asked
  for, and they read back as the number's low digits.
\<close>

theorem numbers_read_back:
  assumes "length (Written b) + 11 \<le> Capacity b" "unat n \<le> 8"
  shows "(\<exists>s. AppendInt b v = Some (b\<lparr>Written := Written b @ s\<rparr>) \<and> length s \<le> 11 \<and> parse_int s = sint v) \<and>
    (\<exists>t. AppendUIntHexFixed b w n = Some (b\<lparr>Written := Written b @ t\<rparr>) \<and> length t = unat n \<and>
      parse_nat 16 0 t = unat w mod 16 ^ unat n)"
  using AppendInt_writes [OF assms(1), of v] AppendUIntHexFixed_writes [OF assms(2), of b w] assms
  by (auto simp: writes_def wp_iff)

lemma numbers_read_back_witness:
  "(\<exists>s. AppendInt (new_line 96) 0x80000000 = Some (new_line 96\<lparr>Written := s\<rparr>) \<and> parse_int s = - 2147483648) \<and>
   (\<exists>t. AppendUIntHexFixed (new_line 96) 0x8086 4 = Some (new_line 96\<lparr>Written := t\<rparr>) \<and> length t = 4 \<and> parse_nat 16 0 t = 0x8086)"
  using numbers_read_back [of "new_line 96" 4 "0x80000000" "0x8086"] by (auto simp: new_line_def)

text \<open>
  C32: every screen of the program is drawn to the end, and only into its own surface: no line
  buffer overflows, no table is left, and no number is too long for its digits, whatever values are
  shown.
\<close>

theorem screens_painted:
  assumes "mapped fb h" "format_ok fb" "assets_ok A" "BootFramebuffer b = fb" "length (PciDevices b) = 32" "tween_name name"
  shows "wp (paints fb h) (DrawSetupScreen A (Some fb) (Some ui) h) \<and>
    wp (\<lambda>(name', h'). tween_name name' \<and> paints fb h h') (DrawTweenDemoFrame A (Some fb) family progress (name, h)) \<and>
    wp (paints fb h) (DrawMouseDebug A fb cursor h) \<and>
    wp (paints fb h) (DrawKernelStatusScreen A b h)"
proof -
  have "wp (\<lambda>(name', h'). tween_name name' \<and> paints fb h h') (DrawTweenDemoFrame A (Some fb) family progress (name, h))"
    by (rule wp_mono [OF DrawTweenDemoFrame_paints [OF assms(1-3,6)]]) auto
  then show ?thesis
    using DrawSetupScreen_paints [OF assms(1-3), of ui] DrawKernelStatusScreen_paints [of b h A]
      draws_paints [OF assms(1) DrawMouseDebug_draws [OF assms(1,2)], of A cursor] assms
    by (simp add: assets_ok_def)
qed

lemma screens_painted_witness:
  "wp (paints (demo_screen 640 480 0x1000000) ram) (DrawKernelStatusScreen demo_assets demo_boot ram)"
  using screens_painted [of "demo_screen 640 480 0x1000000" ram demo_assets demo_boot "''Linear''"]
  by (simp add: demo_mapped demo_format_ok demo_assets_ok demo_boot_simps tween_name_def)

text \<open>
  The name of the curve that the tween demo shows is kept in a static variable that is never set
  back: after one frame of the sine family, every further frame of the linear family is labelled
  sine too.
\<close>

theorem tween_name_sticks:
  assumes "mapped fb h" "format_ok fb" "assets_ok A" "tween_name name"
  shows "\<exists>h1 h2. DrawTweenDemoFrame A (Some fb) 1 p (name, h) = Some (''Sine'', h1) \<and>
    DrawTweenDemoFrame A (Some fb) 0 q (''Sine'', h1) = Some (''Sine'', h2)"
proof -
  obtain h1 where h1: "DrawTweenDemoFrame A (Some fb) 1 p (name, h) = Some (''Sine'', h1)" "paints fb h h1"
    using DrawTweenDemoFrame_paints [OF assms, of 1 p] by (auto simp: wp_iff TweenFamilyName_def)
  have m: "mapped fb h1" using assms(1) h1(2) by (simp add: paints_mapped)
  have "\<exists>h2. DrawTweenDemoFrame A (Some fb) 0 q (''Sine'', h1) = Some (''Sine'', h2)"
    using DrawTweenDemoFrame_paints [OF m assms(2,3), of "''Sine''" 0 q] by (auto simp: wp_iff TweenFamilyName_def tween_name_def)
  then show ?thesis using h1(1) by blast
qed

lemma tween_name_sticks_witness:
  "\<exists>h1 h2. DrawTweenDemoFrame demo_assets (Some (demo_screen 640 480 0)) 1 512 (''Linear'', ram) = Some (''Sine'', h1) \<and>
    DrawTweenDemoFrame demo_assets (Some (demo_screen 640 480 0)) 0 512 (''Sine'', h1) = Some (''Sine'', h2)"
  by (rule tween_name_sticks) (simp_all add: demo_mapped demo_format_ok demo_assets_ok tween_name_def)

subsection \<open>The set-up screen\<close>

text \<open>
  C31: on every screen of at least 408 by 370 pixels the set-up panel lies on the screen and the two
  buttons inside the panel, the one above the other without touching it; no button is hovered.
\<close>

theorem setup_layout:
  assumes "format_ok fb" "screen_ok fb"
  shows "\<exists>u. InitializeSetupUiState (Some fb) (Some ui) detected = Some (Some u) \<and>
    fits_screen fb (Panel u) \<and> inside (InstallButton u) (Panel u) \<and> inside (TryButton u) (Panel u) \<and>
    unat (UI_BOX.Y (InstallButton u)) + unat (Height (InstallButton u)) < unat (UI_BOX.Y (TryButton u)) \<and>
    HoveredButton u = 0 \<and> MouseDetected u = detected"
  using InitializeSetupUiState_layout [OF assms, of detected ui] by (auto simp: wp_iff layout_ok_def)

definition demo_box :: UI_BOX where
  "demo_box = \<lparr>UI_BOX.X = 0, UI_BOX.Y = 0, Width = 0, Height = 0, Radius = 0, Color = 0, Dragging = 0, DragOffsetX = 0, DragOffsetY = 0\<rparr>"

definition demo_ui :: SETUP_UI_STATE where
  "demo_ui = \<lparr>Panel = demo_box, InstallButton = demo_box, TryButton = demo_box, HoveredButton = 9, MouseDetected = 0\<rparr>"

lemma demo_screen_ok: "screen_ok (demo_screen 640 480 p)"
  by (simp add: screen_ok_def)

lemma setup_layout_witness:
  "\<exists>u. InitializeSetupUiState (Some (demo_screen 640 480 0)) (Some demo_ui) 1 = Some (Some u) \<and>
    fits_screen (demo_screen 640 480 0) (Panel u) \<and> inside (InstallButton u) (Panel u) \<and> inside (TryButton u) (Panel u) \<and>
    unat (UI_BOX.Y (InstallButton u)) + unat (Height (InstallButton u)) < unat (UI_BOX.Y (TryButton u)) \<and>
    HoveredButton u = 0 \<and> MouseDetected u = 1"
  by (rule setup_layout [OF demo_format_ok demo_screen_ok])

text \<open>
  The hit test names a button exactly if the middle of the cursor lies in its rounded box, and
  never both.
\<close>

theorem hit_test_exact:
  assumes "layout_ok fb ui"
  shows "(HitTestSetupUi A (Some ui) (Some c) = 1 \<longleftrightarrow> in_button (InstallButton ui) (CenterX A c) (CenterY A c)) \<and>
    (HitTestSetupUi A (Some ui) (Some c) = 2 \<longleftrightarrow> in_button (TryButton ui) (CenterX A c) (CenterY A c)) \<and>
    HitTestSetupUi A (Some ui) (Some c) \<in> {0, 1, 2}"
  using HitTestSetupUi_iff [OF assms] by blast

lemma hit_test_exact_witness:
  "\<exists>u. InitializeSetupUiState (Some (demo_screen 640 480 0)) (Some demo_ui) 1 = Some (Some u) \<and>
    (HitTestSetupUi demo_assets (Some u) (Some demo_cursor) = 1 \<longleftrightarrow>
       in_button (InstallButton u) (CenterX demo_assets demo_cursor) (CenterY demo_assets demo_cursor))"
proof -
  obtain u where u: "InitializeSetupUiState (Some (demo_screen 640 480 0)) (Some demo_ui) 1 = Some (Some u)"
    "layout_ok (demo_screen 640 480 0) u"
    using InitializeSetupUiState_layout [OF demo_format_ok [of 640 480 0] demo_screen_ok, where md = 1 and ui = demo_ui]
    by (auto simp: wp_iff)
  from hit_test_exact [OF u(2), of demo_assets demo_cursor] u(1) show ?thesis by blast
qed

subsection \<open>The tween demo and the status screen\<close>

text \<open>
  The box of the tween demo moves from the left to the right margin of its track in proportion to
  the eased progress, and stays inside the panel, which stays on the screen.
\<close>

theorem tween_box_travels:
  assumes "372 \<le> unat (ScreenWidth fb)" "unat (ScreenWidth fb) < 4194304" "174 \<le> unat (ScreenHeight fb)"
    "unat (ScreenHeight fb) < 4194304" "unat e \<le> 1024" "TweenDemoPanel fb = (px, py, pw, ph)" "TweenDemoBox fb e c = b"
  shows "unat (UI_BOX.X b) = unat px + 72 + (unat pw - unat (Width b) - 144) * unat e div 1024 \<and>
    unat (UI_BOX.X b) + unat (Width b) + 72 \<le> unat px + unat pw \<and> unat px + unat pw \<le> unat (ScreenWidth fb) \<and>
    unat (UI_BOX.Y b) + unat (Height b) \<le> unat py + unat ph \<and> unat py + unat ph \<le> unat (ScreenHeight fb)"
  using TweenDemoBox_travels(1,2,4) [OF assms(1-5), of c] TweenDemoBox_travels(3,5) [OF assms(1-5)] assms(6,7) by simp

lemma tween_box_travels_witness:
  "\<exists>px py pw ph. TweenDemoPanel (demo_screen 640 480 0) = (px, py, pw, ph) \<and>
    unat (UI_BOX.X (TweenDemoBox (demo_screen 640 480 0) 512 7)) + unat (Width (TweenDemoBox (demo_screen 640 480 0) 512 7)) + 72
      \<le> unat px + unat pw"
proof -
  obtain px py pw ph where p: "TweenDemoPanel (demo_screen 640 480 0) = (px, py, pw, ph)" by (metis prod.exhaust)
  from tween_box_travels [OF _ _ _ _ _ p refl, of 512 7] p show ?thesis by simp
qed

text \<open>
  C37: the blocks of the status screen are laid out one below the other, and the layout starts so far up
  that its last line ends above the lower margin, however many blocks there are, and never lower
  than the upper margin.
\<close>

theorem status_ends_on_screen:
  assumes "mapped fb h" "format_ok fb" "assets_ok A" "total_height A blks < 1073741824" "unat (ScreenHeight fb) < 1073741824"
  shows "\<exists>y' h'. DrawBlocks A fb blks (StartY (fold (AdvanceBlock A) blks 16) fb, h) = Some (y', h') \<and> draws fb h h' \<and>
    sint y' \<le> int (unat (ScreenHeight fb)) - 16 \<and> sint (StartY (fold (AdvanceBlock A) blks 16) fb) \<le> 16"
  using DrawBlocks_advance [OF assms(1-3), of blks "StartY (fold (AdvanceBlock A) blks 16) fb"]
    status_bottom(1) [OF assms(4,5), of filled] status_bottom(2) [OF assms(4,5)] by (auto simp: wp_iff)

lemma status_ends_on_screen_witness:
  "\<exists>y' h'. DrawBlocks demo_assets (demo_screen 4 40 0) [Text ''A'', Icons ''A''] (StartY (fold (AdvanceBlock demo_assets)
      [Text ''A'', Icons ''A''] 16) (demo_screen 4 40 0), ram) = Some (y', h') \<and> draws (demo_screen 4 40 0) ram h' \<and> sint y' \<le> 24"
  using status_ends_on_screen [of "demo_screen 4 40 0" ram demo_assets "[Text ''A'', Icons ''A'']"]
  by (auto simp: demo_mapped demo_format_ok demo_assets_ok total_height_def block_height_def CountTextLines_def CountIconTextLines_def
      demo_font_def of_char_def)

end
