(* ===== verification/BootProperties.thy ===== *)
theory BootProperties
  imports Examples
begin

text \<open>
  The properties of the boot services' side: the framebuffer, the PCI devices and leaving the
  firmware.  The firmware of the examples has one display; its clock counts the calls.
\<close>

definition demo_pool :: "UINTN \<Rightarrow> heap \<Rightarrow> EFI_STATUS \<times> ptr option \<times> heap" where
  "demo_pool n h = (let c = cells 0x2000000 (unat n div 4) in
     if c \<inter> dom h = {} then (EFI_SUCCESS, Some 0x2000000, \<lambda>q. if q \<in> c then Some 0 else h q)
     else (EFI_ERROR_BIT OR 9, None, h))"

definition demo_firmware :: "UINT32 \<Rightarrow> UINT32 \<Rightarrow> UINT32 \<Rightarrow> UINT64 \<Rightarrow> nat FIRMWARE" where
  "demo_firmware w n scan bytes = \<lparr>
     read64 = (\<lambda>_ p. Some (if p = 0x5018 then 0x6000 else if p = 0x6008 then 0x7000 else if p = 0x6018 then 0x1000000
       else if p = 0x6020 then bytes else 0x1000)),
     read32 = (\<lambda>_ p. Some (if p = 0x7004 then w else if p = 0x7008 then n else if p = 0x700C then 1 else if p = 0x7020 then scan else 0)),
     LocateProtocol = (\<lambda>_ _ e. (EFI_SUCCESS, 0x5000, e)),
     Stall = (\<lambda>_ _ e. e),
     GetMemoryMap = (\<lambda>_ args mm e. if mm = 0 then (EFI_BUFFER_TOO_SMALL, args\<lparr>MapSize := 96, DescriptorSize := 48\<rparr>, e)
       else (EFI_SUCCESS, args\<lparr>MapSize := 144, MapKey := of_nat e, DescriptorSize := 48, DescriptorVersion := 1\<rparr>, e)),
     AllocatePool = (\<lambda>_ _ n (h, e). case demo_pool n h of (st, buffer, h) \<Rightarrow> (st, buffer, h, e)),
     FreePool = (\<lambda>_ _ e. e),
     HandleProtocol = (\<lambda>_ _ _ e. (EFI_SUCCESS, Some \<lparr>
        PciRead = Some (\<lambda>_ off _ e. (EFI_SUCCESS, Some (if off = 0 then pci_id 0x8086 0x1234 else pci_class 3 0 0 1), e)),
        GetLocation = None\<rparr>, e)),
     LocateHandleBuffer = (\<lambda>_ _ _ e. (EFI_SUCCESS, 1, Some (0x9000, [0xA000]), e)),
     ExitBootServices = (\<lambda>_ _ key e. if e = 0 then (EFI_INVALID_PARAMETER, 1) else (EFI_SUCCESS, e)),
     rdtsc = (\<lambda>e. (of_nat e, Suc e))\<rparr>"

subsection \<open>The framebuffer\<close>

text \<open>
  C36: when \<open>InitializeFramebuffer\<close> accepts a mode whose line length times height fits in 32 bits, the
  whole surface lies inside the framebuffer memory the firmware reports.
\<close>

theorem accepted_framebuffer_fits:
  assumes "InitializeFramebuffer F st fb0 e = Some (EFI_SUCCESS, fb, stall, e')"
    and "unat (PixelsPerScanLine fb) * unat (ScreenHeight fb) < 4294967296"
  shows "\<exists>mode bytes. read64 F e' (mode + GOP_MODE_FRAMEBUFFER_BASE_OFFSET) = Some (Framebuffer fb) \<and>
    read64 F e' (mode + GOP_MODE_FRAMEBUFFER_SIZE_OFFSET) = Some bytes \<and>
    4 * (unat (PixelsPerScanLine fb) * unat (ScreenHeight fb)) \<le> unat bytes"
  using InitializeFramebuffer_inside [OF assms] by metis

lemma demo_framebuffer:
  "InitializeFramebuffer (demo_firmware w n scan bytes) 0 fb0 0 =
   (let fb = fb0\<lparr>ScreenWidth := w, ScreenHeight := n, PixelFormat := 1, PixelsPerScanLine := scan, RedMask := 0, GreenMask := 0,
          BlueMask := 0, Framebuffer := 0x1000000\<rparr>
    in Some (if scan * n > ucast (bytes div 4) then EFI_UNSUPPORTED else EFI_SUCCESS, fb, 0x1000, 0))"
  by (cases fb0) (simp add: InitializeFramebuffer_def demo_firmware_def Let_def gop_format_defs
    EFI_SYSTEM_TABLE_BOOT_SERVICES_OFFSET_def EFI_BOOT_SERVICES_LOCATE_PROTOCOL_OFFSET_def EFI_BOOT_SERVICES_STALL_OFFSET_def
    GOP_MODE_OFFSET_def GOP_MODE_INFO_OFFSET_def GOP_INFO_HORIZONTAL_RESOLUTION_OFFSET_def GOP_INFO_VERTICAL_RESOLUTION_OFFSET_def
    GOP_INFO_PIXEL_FORMAT_OFFSET_def GOP_INFO_PIXELS_PER_SCANLINE_OFFSET_def GOP_INFO_RED_MASK_OFFSET_def GOP_INFO_GREEN_MASK_OFFSET_def
    GOP_INFO_BLUE_MASK_OFFSET_def GOP_MODE_FRAMEBUFFER_BASE_OFFSET_def GOP_MODE_FRAMEBUFFER_SIZE_OFFSET_def)

lemma accepted_framebuffer_fits_witness:
  "\<exists>fb stall e'. InitializeFramebuffer (demo_firmware 640 480 1024 0x1000000) 0 (demo_screen 0 0 0) 0 = Some (EFI_SUCCESS, fb, stall, e') \<and>
    ScreenWidth fb = 640 \<and> (\<exists>mode bytes. read64 (demo_firmware 640 480 1024 0x1000000) e' (mode + GOP_MODE_FRAMEBUFFER_SIZE_OFFSET) = Some bytes \<and>
    4 * (unat (PixelsPerScanLine fb) * unat (ScreenHeight fb)) \<le> unat bytes)"
proof -
  let ?F = "demo_firmware 640 480 1024 0x1000000"
  let ?fb = "(demo_screen 0 0 0)\<lparr>ScreenWidth := 640, ScreenHeight := 480, PixelFormat := 1, PixelsPerScanLine := 1024, RedMask := 0,
    GreenMask := 0, BlueMask := 0, Framebuffer := 0x1000000\<rparr>"
  have r: "InitializeFramebuffer ?F 0 (demo_screen 0 0 0) 0 = Some (EFI_SUCCESS, ?fb, 0x1000, 0)"
    by (simp add: demo_framebuffer)
  from accepted_framebuffer_fits [OF r] r show ?thesis by (intro exI [of _ ?fb] exI [of _ "0x1000"] exI [of _ 0]) auto
qed


subsection \<open>PCI devices\<close>

text \<open>
  A device is recognised from its two configuration registers exactly if it is present and a display
  or a sound controller, and the fields recorded are the ones the registers were made of.
\<close>

theorem pci_registers_decoded:
  "DecodePciDevice (pci_id v d) (pci_class c s p r) =
     (if v \<noteq> 0xFFFF \<and> (c = 3 \<or> c = 4)
      then Some \<lparr>VendorId = v, DeviceId = d, ClassCode = c, Subclass = s, ProgIf = p, Kind = (if c = 3 then 1 else 2),
                Segment = 0, Bus = 0, Device = 0, Function = 0\<rparr>
      else None)"
  by (rule DecodePciDevice_roundtrip)



subsection \<open>Leaving the firmware\<close>

text \<open>
  C14: when \<open>ExitBootServicesForKernel\<close> reports success after a sizing call that did not itself succeed,
  the boot information holds the very memory map whose key the firmware accepted: the one read
  last, with its size, its descriptors and its key.
\<close>

theorem exit_keeps_final_map:
  assumes "ExitBootServicesForKernel F ih gmm ap ebs b (h, e) = Some (EFI_SUCCESS, c, h', e')"
    and "fst (GetMemoryMap F gmm \<lparr>MapSize = 0, MapKey = 0, DescriptorSize = 0, DescriptorVersion = 0\<rparr> 0 e) \<noteq> EFI_SUCCESS"
  shows "\<exists>mm sz args args' e0 e1. GetMemoryMap F gmm (args\<lparr>MapSize := sz\<rparr>) mm e0 = (EFI_SUCCESS, args', e1) \<and>
    ExitBootServices F ebs ih (MapKey args') e1 = (EFI_SUCCESS, e') \<and>
    MemoryMap c = mm \<and> MemoryMapKey c = MapKey args' \<and> MemoryMapSize c = MapSize args' \<and>
    MemoryDescriptorSize c = DescriptorSize args' \<and>
    MemoryDescriptorCount c = (if DescriptorSize args' = 0 then 0 else MapSize args' div DescriptorSize args')"
  using ExitBootServicesForKernel_final [OF assms] by (simp add: final_map_def)

text \<open>The firmware of the example refuses the first key, so that the map is read twice.\<close>

lemma demo_exit:
  "\<exists>c h. ExitBootServicesForKernel (demo_firmware 640 480 640 0) 9 1 2 3 demo_boot (Map.empty, 0) = Some (EFI_SUCCESS, c, h, 1) \<and>
    MemoryMapKey c = 1 \<and> MemoryDescriptorCount c = 3"
  by (simp add: ExitBootServicesForKernel_def demo_firmware_def demo_pool_def ExitBootServices_loop.simps Let_def)

lemma exit_keeps_final_map_witness:
  "\<exists>(c :: KERNEL_BOOT_INFO) mm sz args args' e0 e1. MemoryMapKey c = 1 \<and>
    GetMemoryMap (demo_firmware 640 480 640 0) 1 (args\<lparr>MapSize := sz\<rparr>) mm e0 = (EFI_SUCCESS, args', e1) \<and>
    ExitBootServices (demo_firmware 640 480 640 0) 3 9 (MapKey args') e1 = (EFI_SUCCESS, 1) \<and> MemoryMap c = mm \<and> MemoryMapKey c = MapKey args'"
proof -
  obtain c h where c: "ExitBootServicesForKernel (demo_firmware 640 480 640 0) 9 1 2 3 demo_boot (Map.empty, 0) = Some (EFI_SUCCESS, c, h, 1)"
    "MemoryMapKey c = 1" using demo_exit by blast
  have "fst (GetMemoryMap (demo_firmware 640 480 640 0) 1 \<lparr>MapSize = 0, MapKey = 0, DescriptorSize = 0, DescriptorVersion = 0\<rparr> 0 0) \<noteq> EFI_SUCCESS"
    by (simp add: demo_firmware_def)
  from exit_keeps_final_map [OF c(1) this] obtain mm sz args args' e0 e1 where
    "GetMemoryMap (demo_firmware 640 480 640 0) 1 (args\<lparr>MapSize := sz\<rparr>) mm e0 = (EFI_SUCCESS, args', e1)"
    "ExitBootServices (demo_firmware 640 480 640 0) 3 9 (MapKey args') e1 = (EFI_SUCCESS, 1)" "MemoryMap c = mm" "MemoryMapKey c = MapKey args'"
    by blast
  with c(2) show ?thesis by blast
qed

text \<open>The firmware of the examples keeps the promises.\<close>

lemma demo_map_settles: "map_settles (demo_firmware w n scan bytes) (\<lambda>e. if e = 0 then 1 else 0)"
  by (auto simp: map_settles_def demo_firmware_def EFI_SUCCESS_def EFI_INVALID_PARAMETER_def EFI_ERROR_BIT_def split: if_splits)

lemma demo_firmware_ok: "firmware_ok (demo_firmware w n scan bytes)"
  unfolding firmware_ok_def
proof (intro conjI)
  show "\<forall>ap t k h e st buffer h' e'. AllocatePool (demo_firmware w n scan bytes) ap t k (h, e) = (st, buffer, h', e') \<longrightarrow>
        (\<forall>q \<in> dom h. h' q = h q) \<and>
        (st = EFI_SUCCESS \<longrightarrow> (\<forall>p. buffer = Some p \<longrightarrow> p \<noteq> 0 \<longrightarrow> cells p (unat k div 4) \<subseteq> dom h' - dom h))"
    by (auto simp: demo_firmware_def demo_pool_def Let_def split: if_splits)
  show "\<exists>\<mu>. map_settles (demo_firmware w n scan bytes) \<mu>"
    by (rule exI, rule demo_map_settles)
qed (simp_all add: demo_firmware_def)

text \<open>Memory with the framebuffer and the stack in it, and room for the off-screen buffers.\<close>

definition boot_ram :: heap where
  "boot_ram = (\<lambda>q. if q < 0x2000000 \<or> 0x100000000 \<le> q then Some 0 else None)"

lemma boot_ram_low: "unat p + 4 * n \<le> 33554432 \<Longrightarrow> cells p n \<subseteq> dom boot_ram"
  using cells_range [of _ p n] by (force simp: boot_ram_def word_less_nat_alt)

lemma demo_display_ok: "display_ok (demo_firmware 640 480 640 0x12C000) boot_ram"
  by (simp add: display_ok_def mode_ok_def demo_firmware_def gop_format_defs boot_ram_low
    GOP_MODE_OFFSET_def GOP_MODE_INFO_OFFSET_def GOP_INFO_HORIZONTAL_RESOLUTION_OFFSET_def GOP_INFO_VERTICAL_RESOLUTION_OFFSET_def
    GOP_INFO_PIXEL_FORMAT_OFFSET_def GOP_INFO_PIXELS_PER_SCANLINE_OFFSET_def GOP_INFO_RED_MASK_OFFSET_def GOP_INFO_GREEN_MASK_OFFSET_def
    GOP_INFO_BLUE_MASK_OFFSET_def GOP_MODE_FRAMEBUFFER_BASE_OFFSET_def GOP_MODE_FRAMEBUFFER_SIZE_OFFSET_def)

lemma demo_saved_boot_ram: "mapped (saved_surface demo_assets demo_cursor) boot_ram"
  by (auto simp: mapped_def surface_ok_def surface_cells_def cells_def boot_ram_def)

end
