(* ===== verification/DxeMap.thy ===== *)
theory DxeMap
  imports Pointer "HOL-Library.Sublist"
begin

text \<open>
  The memory map of the firmware's DXE core (\<^verbatim>\<open>src/edk2/MdeModulePkg/Core/Dxe/Mem/Page.c\<close>): its
  entries, \<open>CoreAddRange\<close> and the meaning of a map as the type and the attributes of each
  address.  A double linked list is the list of its nodes in order.  A node lives in the array
  \<open>mMapStack\<close> (\<open>Slot\<close> is its index there) until \<open>CoreFreeMemoryMapStack\<close> copies it to a
  descriptor from the pool; of the unused descriptors only their number is kept, for their
  contents are never read.  An \<open>ASSERT\<close> that fails is \<open>None\<close>, except where the code checks
  the same condition again and returns an error.  The heap guard is off, as
  \<^verbatim>\<open>PcdHeapGuardPropertyMask\<close> is 0 in \<^verbatim>\<open>MdeModulePkg.dec\<close>, and the processor is X64.
\<close>

subsection \<open>Data\<close>

type_synonym EFI_MEMORY_TYPE = UINT32

definition EfiReservedMemoryType :: EFI_MEMORY_TYPE where "EfiReservedMemoryType = 0"
definition EfiBootServicesData :: EFI_MEMORY_TYPE where "EfiBootServicesData = 4"
definition EfiRuntimeServicesCode :: EFI_MEMORY_TYPE where "EfiRuntimeServicesCode = 5"
definition EfiRuntimeServicesData :: EFI_MEMORY_TYPE where "EfiRuntimeServicesData = 6"
definition EfiConventionalMemory :: EFI_MEMORY_TYPE where "EfiConventionalMemory = 7"
definition EfiACPIReclaimMemory :: EFI_MEMORY_TYPE where "EfiACPIReclaimMemory = 9"
definition EfiACPIMemoryNVS :: EFI_MEMORY_TYPE where "EfiACPIMemoryNVS = 10"
definition EfiMemoryMappedIO :: EFI_MEMORY_TYPE where "EfiMemoryMappedIO = 11"
definition EfiMemoryMappedIOPortSpace :: EFI_MEMORY_TYPE where "EfiMemoryMappedIOPortSpace = 12"
definition EfiPersistentMemory :: EFI_MEMORY_TYPE where "EfiPersistentMemory = 14"
definition EfiUnacceptedMemoryType :: EFI_MEMORY_TYPE where "EfiUnacceptedMemoryType = 15"
definition EfiMaxMemoryType :: EFI_MEMORY_TYPE where "EfiMaxMemoryType = 16"
definition MEMORY_TYPE_OEM_RESERVED_MIN :: EFI_MEMORY_TYPE where "MEMORY_TYPE_OEM_RESERVED_MIN = 0x70000000"

lemmas memory_type_defs = EfiReservedMemoryType_def EfiBootServicesData_def EfiRuntimeServicesCode_def EfiRuntimeServicesData_def
  EfiConventionalMemory_def EfiACPIReclaimMemory_def EfiACPIMemoryNVS_def EfiMemoryMappedIO_def EfiMemoryMappedIOPortSpace_def
  EfiPersistentMemory_def EfiUnacceptedMemoryType_def EfiMaxMemoryType_def MEMORY_TYPE_OEM_RESERVED_MIN_def

definition EFI_PAGE_MASK :: UINT64 where "EFI_PAGE_MASK = 0xFFF"
definition MAX_ALLOC_ADDRESS :: UINT64 where "MAX_ALLOC_ADDRESS = 0xFFFFFFFFFFFFFFFF"
definition MAX_MAP_DEPTH :: nat where "MAX_MAP_DEPTH = 6"

definition EFI_NOT_FOUND :: EFI_STATUS where "EFI_NOT_FOUND = EFI_ERROR_BIT OR 14"
definition EFI_OUT_OF_RESOURCES :: EFI_STATUS where "EFI_OUT_OF_RESOURCES = EFI_ERROR_BIT OR 9"

record MEMORY_MAP =
  Slot :: "nat option"
  FromPages :: bool
  Type :: EFI_MEMORY_TYPE
  Start :: UINT64
  End :: UINT64
  Attribute :: UINT64

record EFI_MEMORY_TYPE_STATISTICS =
  BaseAddress :: UINT64
  MaximumAddress :: UINT64
  CurrentNumberOfPages :: UINT64
  BinPages :: UINT64
  InformationIndex :: nat
  Special :: bool
  Runtime :: bool

record EFI_MEMORY_TYPE_INFORMATION =
  InfoType :: UINT32
  InfoPages :: UINT32

record EFI_GCD_MAP_ENTRY =
  GcdBaseAddress :: UINT64
  EndAddress :: UINT64
  Capabilities :: UINT64
  GcdAttributes :: UINT64
  GcdMemoryType :: UINT32
  GcdIoType :: UINT32

text \<open>The variables of the memory services; \<open>mFreeMemoryMapEntries\<close> is the length of \<open>mFreeMemoryMapEntryList\<close>.\<close>

record dxe_memory =
  gMemoryMap :: "MEMORY_MAP list"
  mMemoryMapKey :: UINTN
  mMapDepth :: nat
  mFreeMapStack :: nat
  mFreeMemoryMapEntries :: nat
  mMemoryTypeStatistics :: "EFI_MEMORY_TYPE_STATISTICS list"
  gMemoryTypeInformation :: "EFI_MEMORY_TYPE_INFORMATION list"
  mMemoryTypeInformationInitialized :: bool
  mDefaultMaximumAddress :: UINT64
  mDefaultBaseAddress :: UINT64
  mGcdMemorySpaceMap :: "EFI_GCD_MAP_ENTRY list"
  gMemoryLock :: bool
  mGcdMemorySpaceLock :: bool

text \<open>A lock that is already held cannot be acquired: the assertion of \<open>CoreAcquireLock\<close> fails.\<close>

definition CoreAcquireMemoryLock :: "dxe_memory \<Rightarrow> dxe_memory option" where
  "CoreAcquireMemoryLock s = (if gMemoryLock s then None else Some (s\<lparr>gMemoryLock := True\<rparr>))"

definition CoreReleaseMemoryLock :: "dxe_memory \<Rightarrow> dxe_memory option" where
  "CoreReleaseMemoryLock s = (if gMemoryLock s then Some (s\<lparr>gMemoryLock := False\<rparr>) else None)"

definition CoreAcquireGcdMemoryLock :: "dxe_memory \<Rightarrow> dxe_memory option" where
  "CoreAcquireGcdMemoryLock s = (if mGcdMemorySpaceLock s then None else Some (s\<lparr>mGcdMemorySpaceLock := True\<rparr>))"

definition CoreReleaseGcdMemoryLock :: "dxe_memory \<Rightarrow> dxe_memory option" where
  "CoreReleaseGcdMemoryLock s = (if mGcdMemorySpaceLock s then Some (s\<lparr>mGcdMemorySpaceLock := False\<rparr>) else None)"

definition MemoryRegionsIntersect :: "UINT64 \<Rightarrow> UINT64 \<Rightarrow> UINT64 \<Rightarrow> UINT64 \<Rightarrow> bool option" where
  "MemoryRegionsIntersect Start1 End1 Start2 End2 =
     (if Start1 \<le> End1 \<and> Start2 \<le> End2 then Some (Start1 \<le> End2 \<and> Start2 \<le> End1) else None)"

subsection \<open>Adding a range\<close>

text \<open>
  Taking an entry off the map: a descriptor from the pool joins the unused ones, an entry of
  \<open>mMapStack\<close> is only unlinked.  The result is the number of descriptors given back.
\<close>

definition RemoveMemoryMapEntry :: "MEMORY_MAP \<Rightarrow> nat" where
  "RemoveMemoryMapEntry entry = (if FromPages entry then 1 else 0)"

text \<open>
  The pass over the map that merges the new range with the entries next to it: the entries
  that stay, the grown range and the number of descriptors given back.
\<close>

fun CoreAddRange_merge ::
  "EFI_MEMORY_TYPE \<Rightarrow> UINT64 \<Rightarrow> MEMORY_MAP list \<Rightarrow> UINT64 \<Rightarrow> UINT64 \<Rightarrow> MEMORY_MAP list \<times> UINT64 \<times> UINT64 \<times> nat" where
  "CoreAddRange_merge ty attr [] start end = ([], start, end, 0)"
| "CoreAddRange_merge ty attr (entry # link) start end =
     (if Type entry \<noteq> ty \<or> Attribute entry \<noteq> attr then
        (case CoreAddRange_merge ty attr link start end of (xs, r) \<Rightarrow> (entry # xs, r))
      else if End entry + 1 = start then
        (case CoreAddRange_merge ty attr link (Start entry) end of (xs, s, e, n) \<Rightarrow> (xs, s, e, n + RemoveMemoryMapEntry entry))
      else if Start entry = end + 1 then
        (case CoreAddRange_merge ty attr link start (End entry) of (xs, s, e, n) \<Rightarrow> (xs, s, e, n + RemoveMemoryMapEntry entry))
      else (case CoreAddRange_merge ty attr link start end of (xs, r) \<Rightarrow> (entry # xs, r)))"

text \<open>
  The contents of the pages (page 0 is cleared) and the signal to the event group of memory map
  changes are not part of the state.
\<close>

definition CoreAddRange :: "EFI_MEMORY_TYPE \<Rightarrow> UINT64 \<Rightarrow> UINT64 \<Rightarrow> UINT64 \<Rightarrow> dxe_memory \<Rightarrow> dxe_memory option" where
  "CoreAddRange ty start end attr s =
     (if start AND EFI_PAGE_MASK \<noteq> 0 \<or> end \<le> start \<or> \<not> gMemoryLock s then None
      else
        let (entries, start, end, removed) = CoreAddRange_merge ty attr (gMemoryMap s) start end;
            new = \<lparr>Slot = Some (mMapDepth s), FromPages = False, Type = ty, Start = start, End = end, Attribute = attr\<rparr>
        in if mMapDepth s + 1 < MAX_MAP_DEPTH
           then Some (s\<lparr>gMemoryMap := entries @ [new], mMemoryMapKey := mMemoryMapKey s + 1, mMapDepth := mMapDepth s + 1,
                        mFreeMemoryMapEntries := mFreeMemoryMapEntries s + removed\<rparr>)
           else None)"

subsection \<open>What a map says of an address\<close>

definition covers :: "MEMORY_MAP \<Rightarrow> UINT64 \<Rightarrow> bool" where
  "covers e a \<longleftrightarrow> Start e \<le> a \<and> a \<le> End e"

fun mem_at :: "MEMORY_MAP list \<Rightarrow> UINT64 \<Rightarrow> (EFI_MEMORY_TYPE \<times> UINT64) option" where
  "mem_at [] a = None"
| "mem_at (e # es) a = (if covers e a then Some (Type e, Attribute e) else mem_at es a)"

text \<open>A range of pages, not up to the last byte of the address space.\<close>

definition page_range :: "UINT64 \<Rightarrow> UINT64 \<Rightarrow> bool" where
  "page_range s e \<longleftrightarrow> 4096 dvd unat s \<and> 4096 dvd Suc (unat e) \<and> s < e \<and> e < 0xFFFFFFFFFFFFFFFF"

definition apart_ranges :: "UINT64 \<Rightarrow> UINT64 \<Rightarrow> MEMORY_MAP \<Rightarrow> bool" where
  "apart_ranges s e f \<longleftrightarrow> e < Start f \<or> End f < s"

definition apart_entries :: "MEMORY_MAP \<Rightarrow> MEMORY_MAP \<Rightarrow> bool" where
  "apart_entries d f = apart_ranges (Start d) (End d) f"

definition entries_ok :: "MEMORY_MAP list \<Rightarrow> bool" where
  "entries_ok es \<longleftrightarrow> (\<forall>e \<in> set es. page_range (Start e) (End e)) \<and> sorted_wrt apart_entries es"

lemma subseq_set: "subseq xs ys \<Longrightarrow> set xs \<subseteq> set ys"
  by (induction rule: list_emb.induct) auto

lemma subseq_sorted_wrt: "subseq xs ys \<Longrightarrow> sorted_wrt P ys \<Longrightarrow> sorted_wrt P xs"
  by (induction rule: list_emb.induct) (auto dest: subseq_set)

lemma apart_entries_sym: "apart_entries d f = apart_entries f d"
  by (auto simp: apart_entries_def apart_ranges_def)

lemma entries_ok_Nil [simp]: "entries_ok []"
  by (simp add: entries_ok_def)

lemma entries_ok_append:
  "entries_ok (xs @ ys) \<longleftrightarrow> entries_ok xs \<and> entries_ok ys \<and> (\<forall>x \<in> set xs. \<forall>y \<in> set ys. apart_entries x y)"
  by (auto simp: entries_ok_def sorted_wrt_append)

lemma entries_ok_Cons:
  "entries_ok (x # xs) \<longleftrightarrow> page_range (Start x) (End x) \<and> entries_ok xs \<and> (\<forall>y \<in> set xs. apart_entries x y)"
  by (auto simp: entries_ok_def)

lemma entries_ok_mid:
  "entries_ok (xs @ e # ys) \<longleftrightarrow>
   entries_ok (xs @ ys) \<and> page_range (Start e) (End e) \<and> (\<forall>f \<in> set (xs @ ys). apart_entries e f)"
  by (auto simp: entries_ok_append entries_ok_Cons apart_entries_sym)

lemma entries_ok_subseq: "subseq xs ys \<Longrightarrow> entries_ok ys \<Longrightarrow> entries_ok xs"
  unfolding entries_ok_def using subseq_set subseq_sorted_wrt by blast

lemma mem_at_append: "mem_at (xs @ ys) a = (case mem_at xs a of None \<Rightarrow> mem_at ys a | Some v \<Rightarrow> Some v)"
  by (induction xs) simp_all

lemma mem_at_None: "mem_at xs a = None \<longleftrightarrow> (\<forall>e \<in> set xs. \<not> covers e a)"
  by (induction xs) simp_all

lemma mem_at_SomeD: "mem_at xs a = Some v \<Longrightarrow> \<exists>e \<in> set xs. covers e a \<and> v = (Type e, Attribute e)"
  by (induction xs) (auto split: if_splits)

declare mem_at.simps(2) [simp del]

lemma apart_covers: "apart_entries e f \<Longrightarrow> covers e a \<Longrightarrow> \<not> covers f a"
  by (auto simp: apart_entries_def apart_ranges_def covers_def)

lemma mem_at_mid:
  assumes "entries_ok (xs @ e # ys)"
  shows "mem_at (xs @ e # ys) a = (if covers e a then Some (Type e, Attribute e) else mem_at (xs @ ys) a)"
proof -
  have "mem_at xs a = None" if "covers e a"
    using assms that by (auto simp: mem_at_None entries_ok_mid dest: apart_covers)
  then show ?thesis by (auto simp: mem_at_append mem_at.simps(2) split: option.split)
qed

lemma mem_at_covers:
  assumes "entries_ok xs" "e \<in> set xs" "covers e a"
  shows "mem_at xs a = Some (Type e, Attribute e)"
proof -
  obtain ys zs where "xs = ys @ e # zs" using assms(2) by (auto simp: in_set_conv_decomp)
  with assms(1,3) show ?thesis using mem_at_mid by simp
qed

text \<open>Two orders of the same disjoint entries say the same.\<close>

lemma mem_at_set_eq:
  assumes "entries_ok xs" "entries_ok ys" "set xs = set ys"
  shows "mem_at xs = mem_at ys"
proof
  fix a
  show "mem_at xs a = mem_at ys a"
  proof (cases "\<exists>e \<in> set xs. covers e a")
    case True
    then show ?thesis using mem_at_covers assms by metis
  next
    case False
    then have "mem_at xs a = None" "mem_at ys a = None" using assms(3) by (simp_all add: mem_at_None)
    then show ?thesis by simp
  qed
qed

text \<open>The map \<open>xs\<close> with the range \<open>s\<close> to \<open>e\<close> laid over it.\<close>

definition over :: "UINT64 \<Rightarrow> UINT64 \<Rightarrow> EFI_MEMORY_TYPE \<times> UINT64 \<Rightarrow> (UINT64 \<Rightarrow> (EFI_MEMORY_TYPE \<times> UINT64) option) \<Rightarrow>
    UINT64 \<Rightarrow> (EFI_MEMORY_TYPE \<times> UINT64) option" where
  "over s e v m a = (if s \<le> a \<and> a \<le> e then Some v else m a)"

abbreviation pooled :: "MEMORY_MAP list \<Rightarrow> nat" where
  "pooled xs \<equiv> length (filter FromPages xs)"

subsection \<open>Merging\<close>

lemma page_range_less: "page_range s e \<Longrightarrow> s < e"
  by (simp add: page_range_def)

lemma Suc_word_less: "(e :: UINT64) < 0xFFFFFFFFFFFFFFFF \<Longrightarrow> unat (e + 1) = Suc (unat e)"
  by (subst unat_add_lem [THEN iffD1]) (simp_all add: word_less_nat_alt)

lemma page_range_joins:
  assumes "page_range s m" "page_range n e" "m + 1 = n"
  shows "page_range s e" "m < n" "s \<le> a \<and> a \<le> e \<longleftrightarrow> s \<le> a \<and> a \<le> m \<or> n \<le> a \<and> a \<le> e"
proof -
  have n: "unat n = Suc (unat m)" using assms by (auto simp: page_range_def Suc_word_less)
  have less: "unat s < unat m" "unat n < unat e" using assms(1,2) by (simp_all add: page_range_def word_less_nat_alt)
  then show "page_range s e" using assms n by (auto simp: page_range_def word_less_nat_alt)
  show "m < n" using n by (simp add: word_less_nat_alt)
  show "s \<le> a \<and> a \<le> e \<longleftrightarrow> s \<le> a \<and> a \<le> m \<or> n \<le> a \<and> a \<le> e"
    using n less by (auto simp: word_le_nat_alt)
qed

text \<open>An entry apart from two ranges that touch is apart from their union.\<close>

lemma apart_joined:
  assumes "page_range s m" "page_range n e" "m + 1 = n" "page_range (Start f) (End f)"
    and "apart_ranges s m f" "apart_ranges n e f"
  shows "apart_ranges s e f"
proof -
  have "unat n = Suc (unat m)" using assms(1,3) by (auto simp: page_range_def Suc_word_less)
  then show ?thesis using assms(1,2,4-) by (auto simp: apart_ranges_def page_range_def word_less_nat_alt)
qed

lemma apart_pointwise:
  assumes "s \<le> e" "Start f \<le> End f" "\<And>a. covers f a \<Longrightarrow> \<not> (s \<le> a \<and> a \<le> e)"
  shows "apart_ranges s e f"
  using assms(3) [of s] assms(3) [of "Start f"] assms(1,2) by (force simp: covers_def apart_ranges_def)

lemma over_Cons:
  assumes "apart_ranges s e x"
  shows "over s e v (mem_at (x # xs)) a = (if covers x a then Some (Type x, Attribute x) else over s e v (mem_at xs) a)"
  using assms by (auto simp: over_def apart_ranges_def covers_def mem_at.simps(2))

lemma CoreAddRange_merge_ok:
  assumes "CoreAddRange_merge ty attr xs s e = (ys, s', e', n)"
    and "entries_ok xs" "page_range s e" "\<forall>f \<in> set xs. apart_ranges s e f"
  shows "subseq ys xs \<and> page_range s' e' \<and> (\<forall>f \<in> set ys. apart_ranges s' e' f) \<and>
    over s' e' (ty, attr) (mem_at ys) = over s e (ty, attr) (mem_at xs) \<and> n + pooled ys = pooled xs"
  using assms
proof (induction ty attr xs s e arbitrary: ys s' e' n rule: CoreAddRange_merge.induct)
  case (2 ty attr x xs s e)
  let ?v = "(ty, attr)"
  have ok: "entries_ok xs" "page_range (Start x) (End x)" "\<forall>f \<in> set xs. apart_ranges (Start x) (End x) f"
    "\<forall>f \<in> set xs. page_range (Start f) (End f)" and x: "apart_ranges s e x" and xs: "\<forall>f \<in> set xs. apart_ranges s e f"
    using "2.prems" by (auto simp: entries_ok_def apart_entries_def)
  have keep: ?case if r: "CoreAddRange_merge ty attr xs s e = (zs, s', e', n)" "ys = x # zs"
    and IH: "subseq zs xs \<and> page_range s' e' \<and> (\<forall>f \<in> set zs. apart_ranges s' e' f) \<and>
      over s' e' ?v (mem_at zs) = over s e ?v (mem_at xs) \<and> n + pooled zs = pooled xs" for zs
  proof -
    have "apart_ranges s' e' x"
    proof (rule apart_pointwise)
      fix a assume a: "covers x a"
      then have "mem_at xs a = None" using ok(3) by (auto simp: mem_at_None apart_ranges_def covers_def)
      then have "over s e ?v (mem_at xs) a = None" using a x by (auto simp: over_def apart_ranges_def covers_def)
      then have "over s' e' ?v (mem_at zs) a = None" using IH by simp
      then show "\<not> (s' \<le> a \<and> a \<le> e')" by (auto simp: over_def)
    qed (use IH ok(2) in \<open>auto simp: page_range_def\<close>)
    then have "over s' e' ?v (mem_at (x # zs)) = over s e ?v (mem_at (x # xs))"
      using IH x by (simp add: over_Cons fun_eq_iff)
    then show ?thesis using IH r(2) \<open>apart_ranges s' e' x\<close> by auto
  qed
  have merge: ?case if r: "CoreAddRange_merge ty attr xs u w = (ys, s', e', m)" "n = m + RemoveMemoryMapEntry x"
    and j: "page_range u w" "\<And>a. u \<le> a \<and> a \<le> w \<longleftrightarrow> s \<le> a \<and> a \<le> e \<or> covers x a"
    and t: "Type x = ty" "Attribute x = attr" and ap: "\<forall>f \<in> set xs. apart_ranges u w f"
    and IH: "\<And>ys s' e' n. CoreAddRange_merge ty attr xs u w = (ys, s', e', n) \<Longrightarrow> entries_ok xs \<Longrightarrow> page_range u w \<Longrightarrow>
      \<forall>f \<in> set xs. apart_ranges u w f \<Longrightarrow> subseq ys xs \<and> page_range s' e' \<and> (\<forall>f \<in> set ys. apart_ranges s' e' f) \<and>
      over s' e' ?v (mem_at ys) = over u w ?v (mem_at xs) \<and> n + pooled ys = pooled xs" for u w m
  proof -
    have "over u w ?v (mem_at xs) = over s e ?v (mem_at (x # xs))"
      using j(2) t by (auto simp: over_def fun_eq_iff mem_at.simps(2))
    then show ?thesis using IH [OF r(1) ok(1) j(1) ap] r(2) by (auto simp: RemoveMemoryMapEntry_def)
  qed
  show ?case
  proof (cases "Type x \<noteq> ty \<or> Attribute x \<noteq> attr")
    case True
    then show ?thesis using "2.prems"(1) "2.IH"(1) [OF True _ ok(1) "2.prems"(3) xs] keep
      by (auto split: prod.splits)
  next
    case False
    note t = False
    show ?thesis
    proof (cases "End x + 1 = s")
      case True
      note j = page_range_joins [OF ok(2) "2.prems"(3) True]
      have ap: "\<forall>f \<in> set xs. apart_ranges (Start x) e f"
        using apart_joined [OF ok(2) "2.prems"(3) True] ok(3,4) xs by blast
      obtain m where r: "CoreAddRange_merge ty attr xs (Start x) e = (ys, s', e', m)" "n = m + RemoveMemoryMapEntry x"
        using "2.prems"(1) t True by (auto split: prod.splits)
      show ?thesis by (rule merge [OF r j(1) _ _ _ ap "2.IH"(2) [OF t True]]) (use t j(3) in \<open>auto simp: covers_def\<close>)
    next
      case False
      note l = False
      show ?thesis
      proof (cases "Start x = e + 1")
        case True
        note j = page_range_joins [OF "2.prems"(3) ok(2) True [symmetric]]
        have ap: "\<forall>f \<in> set xs. apart_ranges s (End x) f"
          using apart_joined [OF "2.prems"(3) ok(2) True [symmetric]] ok(3,4) xs by blast
        obtain m where r: "CoreAddRange_merge ty attr xs s (End x) = (ys, s', e', m)" "n = m + RemoveMemoryMapEntry x"
          using "2.prems"(1) t l True by (auto split: prod.splits)
        show ?thesis by (rule merge [OF r j(1) _ _ _ ap "2.IH"(3) [OF t l True]]) (use t j(3) in \<open>auto simp: covers_def\<close>)
      next
        case False
        then show ?thesis using "2.prems"(1) "2.IH"(4) [OF t l False _ ok(1) "2.prems"(3) xs] keep l t
          by (auto split: prod.splits)
      qed
    qed
  qed
qed auto

subsection \<open>The state of the map between calls\<close>

text \<open>
  A node is in \<open>mMapStack\<close>, at its own index below \<open>mMapDepth\<close>, or in a descriptor from the pool; the
  nodes from the pool are in the order of their addresses.
\<close>

definition other_slot :: "MEMORY_MAP \<Rightarrow> MEMORY_MAP \<Rightarrow> bool" where
  "other_slot d e \<longleftrightarrow> Slot d = None \<or> Slot d \<noteq> Slot e"

definition slots_ok :: "nat \<Rightarrow> MEMORY_MAP list \<Rightarrow> bool" where
  "slots_ok depth es \<longleftrightarrow> (\<forall>e \<in> set es. FromPages e \<longleftrightarrow> Slot e = None) \<and>
     (\<forall>e \<in> set es. \<forall>i. Slot e = Some i \<longrightarrow> i < depth) \<and>
     sorted_wrt other_slot es"

definition below :: "MEMORY_MAP \<Rightarrow> MEMORY_MAP \<Rightarrow> bool" where
  "below d e \<longleftrightarrow> (FromPages d \<longrightarrow> FromPages e \<longrightarrow> End d < Start e)"

definition map_ok :: "dxe_memory \<Rightarrow> bool" where
  "map_ok s \<longleftrightarrow> entries_ok (gMemoryMap s) \<and> slots_ok (mMapDepth s) (gMemoryMap s) \<and> sorted_wrt below (gMemoryMap s)"

text \<open>Only the map, its key and the places of its nodes have changed; no descriptor is lost.\<close>

definition only_map :: "dxe_memory \<Rightarrow> dxe_memory \<Rightarrow> bool" where
  "only_map s s' \<longleftrightarrow> s' = s\<lparr>gMemoryMap := gMemoryMap s', mMemoryMapKey := mMemoryMapKey s', mMapDepth := mMapDepth s',
     mFreeMemoryMapEntries := mFreeMemoryMapEntries s'\<rparr>"

definition descriptors :: "dxe_memory \<Rightarrow> nat" where
  "descriptors s = mFreeMemoryMapEntries s + pooled (gMemoryMap s)"

lemma only_map_refl [simp]: "only_map s s"
  by (simp add: only_map_def)

lemma only_map_trans: "only_map r s \<Longrightarrow> only_map s t \<Longrightarrow> only_map r t"
  by (cases r; cases s; cases t) (simp add: only_map_def)

lemma only_map_fields:
  assumes "only_map s s'"
  shows "mFreeMapStack s' = mFreeMapStack s" "mMemoryTypeStatistics s' = mMemoryTypeStatistics s"
    "gMemoryTypeInformation s' = gMemoryTypeInformation s"
    "mMemoryTypeInformationInitialized s' = mMemoryTypeInformationInitialized s"
    "mDefaultMaximumAddress s' = mDefaultMaximumAddress s" "mDefaultBaseAddress s' = mDefaultBaseAddress s"
    "mGcdMemorySpaceMap s' = mGcdMemorySpaceMap s" "gMemoryLock s' = gMemoryLock s" "mGcdMemorySpaceLock s' = mGcdMemorySpaceLock s"
  using assms by (cases s; cases s'; simp add: only_map_def)+

lemma page_aligned: "(x :: UINT64) AND EFI_PAGE_MASK = 0 \<longleftrightarrow> 4096 dvd unat x"
proof -
  have "unat (x AND EFI_PAGE_MASK) = unat (take_bit 12 x)" by (simp add: EFI_PAGE_MASK_def take_bit_eq_mask mask_eq_exp_minus_1)
  also have "\<dots> = unat x mod 4096" by (simp only: unsigned_take_bit_eq) (simp add: take_bit_eq_mod)
  finally show ?thesis by (simp add: unat_eq_0 [symmetric] mod_eq_0_iff_dvd del: unat_eq_0)
qed

lemma map_ok_subseq:
  assumes "map_ok s" "subseq es (gMemoryMap s)"
  shows "entries_ok es" "slots_ok (mMapDepth s) es" "sorted_wrt below es"
  using assms subseq_set [OF assms(2)] subseq_sorted_wrt [OF assms(2)] entries_ok_subseq [OF assms(2)]
  unfolding map_ok_def slots_ok_def by blast+

lemma slots_ok_snoc:
  assumes "slots_ok n es" "Slot e = Some n" "\<not> FromPages e"
  shows "slots_ok (Suc n) (es @ [e])"
  using assms by (force simp: slots_ok_def sorted_wrt_append less_Suc_eq other_slot_def)

lemma below_snoc: "sorted_wrt below es \<Longrightarrow> \<not> FromPages e \<Longrightarrow> sorted_wrt below (es @ [e])"
  by (simp add: sorted_wrt_append below_def)

lemma CoreAddRange_ok:
  assumes "CoreAddRange ty start end attr s = Some s'" and m: "map_ok s"
    and r: "page_range start end" "\<forall>f \<in> set (gMemoryMap s). apart_ranges start end f"
  shows "map_ok s' \<and> mem_at (gMemoryMap s') = over start end (ty, attr) (mem_at (gMemoryMap s)) \<and> only_map s s' \<and>
    mMapDepth s' = Suc (mMapDepth s) \<and> mMemoryMapKey s' = mMemoryMapKey s + 1 \<and> descriptors s' = descriptors s"
proof -
  obtain es u w n where g: "CoreAddRange_merge ty attr (gMemoryMap s) start end = (es, u, w, n)" by (metis prod_cases4)
  let ?new = "\<lparr>Slot = Some (mMapDepth s), FromPages = False, Type = ty, Start = u, End = w, Attribute = attr\<rparr>"
  have s': "s' = s\<lparr>gMemoryMap := es @ [?new], mMemoryMapKey := mMemoryMapKey s + 1, mMapDepth := mMapDepth s + 1,
      mFreeMemoryMapEntries := mFreeMemoryMapEntries s + n\<rparr>"
    using assms(1) by (auto simp: CoreAddRange_def g Let_def split: if_splits)
  have ok: "subseq es (gMemoryMap s)" "page_range u w" "\<forall>f \<in> set es. apart_ranges u w f"
    "over u w (ty, attr) (mem_at es) = over start end (ty, attr) (mem_at (gMemoryMap s))" "n + pooled es = pooled (gMemoryMap s)"
    using CoreAddRange_merge_ok [OF g _ r] m by (simp_all add: map_ok_def)
  have e: "entries_ok (es @ [?new])" using map_ok_subseq(1) [OF m ok(1)] ok(2,3)
    by (auto simp: entries_ok_mid apart_entries_def)
  have "mem_at (es @ [?new]) = over u w (ty, attr) (mem_at es)"
    using mem_at_mid [OF e] by (auto simp: over_def covers_def fun_eq_iff)
  then show ?thesis
    using e slots_ok_snoc [OF map_ok_subseq(2) [OF m ok(1)]] below_snoc [OF map_ok_subseq(3) [OF m ok(1)]] ok(4,5)
    by (simp add: s' map_ok_def only_map_def descriptors_def)
qed

lemma CoreAddRange_returns:
  assumes "page_range start end" "gMemoryLock s" "Suc (mMapDepth s) < MAX_MAP_DEPTH"
  shows "\<exists>s'. CoreAddRange ty start end attr s = Some s'"
  using assms by (auto simp: CoreAddRange_def page_aligned page_range_def Let_def split: prod.split)

lemma CoreAddRange_merge_size:
  "CoreAddRange_merge ty attr xs s e = (ys, s', e', n) \<Longrightarrow> length ys \<le> length xs \<and> pooled ys \<le> pooled xs"
  by (induction ty attr xs s e arbitrary: ys s' e' n rule: CoreAddRange_merge.induct) (fastforce split: if_splits prod.splits)+

lemma CoreAddRange_size:
  "CoreAddRange ty start end attr s = Some s' \<Longrightarrow>
   length (gMemoryMap s') \<le> Suc (length (gMemoryMap s)) \<and> pooled (gMemoryMap s') \<le> pooled (gMemoryMap s)"
  using CoreAddRange_merge_size [of ty attr "gMemoryMap s" start "end"]
  by (auto simp: CoreAddRange_def Let_def split: if_splits prod.splits)

text \<open>The tables of the bins are long enough for the types and for the indices they hold.\<close>

definition bins_ok :: "dxe_memory \<Rightarrow> bool" where
  "bins_ok s \<longleftrightarrow> 17 \<le> length (mMemoryTypeStatistics s) \<and>
     (\<forall>st \<in> set (mMemoryTypeStatistics s). InformationIndex st < length (gMemoryTypeInformation s))"

lemma only_map_bins: "only_map s s' \<Longrightarrow> bins_ok s' = bins_ok s"
  by (simp add: bins_ok_def only_map_fields)

end
