(* ===== verification/DxePages.thy ===== *)
theory DxePages
  imports DxeMap
begin

text \<open>
  The page allocator of the DXE core (\<^verbatim>\<open>src/edk2/MdeModulePkg/Core/Dxe/Mem/Page.c\<close>): conversion of
  ranges, search for free pages, promotion of untested memory, and the allocation of the
  descriptors that the map itself needs.

  \<open>CoreFreeMemoryMapStack\<close> allocates a page of descriptors when it has none left, and so calls the
  functions that call it; the nested call returns at once, because \<open>mFreeMapStack\<close> is set.
  The functions between the two calls take what they call as the argument \<open>freeStack\<close>.
  It is \<open>Some\<close>, the function that does nothing, below \<open>CoreFreeMemoryMapStack\<close>, and
  \<open>CoreFreeMemoryMapStack\<close> itself everywhere else.
\<close>

subsection \<open>Converting a range\<close>

text \<open>The search for the entry that covers an address: what is before it, the entry, and what is after it.\<close>

fun FindEntry :: "UINT64 \<Rightarrow> MEMORY_MAP list \<Rightarrow> (MEMORY_MAP list \<times> MEMORY_MAP \<times> MEMORY_MAP list) option" where
  "FindEntry start [] = None"
| "FindEntry start (entry # link) =
     (if Start entry \<le> start \<and> End entry > start then Some ([], entry, link)
      else case FindEntry start link of None \<Rightarrow> None | Some (xs, e, ys) \<Rightarrow> Some (entry # xs, e, ys))"

text \<open>
  The counters of allocated pages.  \<open>InBin\<close>: the range is in the bin of the memory type or
  in the default bin.
\<close>

definition InBin :: "dxe_memory \<Rightarrow> EFI_MEMORY_TYPE_STATISTICS \<Rightarrow> UINT64 \<Rightarrow> bool" where
  "InBin s st start \<longleftrightarrow> start \<ge> BaseAddress st \<and> start \<le> MaximumAddress st \<or>
     start \<ge> mDefaultBaseAddress s \<and> start \<le> mDefaultMaximumAddress s"

definition CountOldType :: "EFI_MEMORY_TYPE \<Rightarrow> UINT64 \<Rightarrow> UINT64 \<Rightarrow> dxe_memory \<Rightarrow> dxe_memory option" where
  "CountOldType ty start pages s =
     (if ty < EfiMaxMemoryType then do {
        st \<leftarrow> rd (mMemoryTypeStatistics s) ty;
        if InBin s st start then do {
          stats \<leftarrow> wr (mMemoryTypeStatistics s) ty
            (st\<lparr>CurrentNumberOfPages := if pages > CurrentNumberOfPages st then 0 else CurrentNumberOfPages st - pages\<rparr>);
          Some (s\<lparr>mMemoryTypeStatistics := stats\<rparr>) }
        else Some s }
      else Some s)"

definition CountNewType :: "EFI_MEMORY_TYPE \<Rightarrow> UINT64 \<Rightarrow> UINT64 \<Rightarrow> dxe_memory \<Rightarrow> dxe_memory option" where
  "CountNewType ty start pages s =
     (if ty < EfiMaxMemoryType then do {
        st \<leftarrow> rd (mMemoryTypeStatistics s) ty;
        if InBin s st start then do {
          let current = CurrentNumberOfPages st + pages;
          stats \<leftarrow> wr (mMemoryTypeStatistics s) ty (st\<lparr>CurrentNumberOfPages := current\<rparr>);
          let info = gMemoryTypeInformation s;
          let i = InformationIndex st;
          if i < length info then
            Some (s\<lparr>mMemoryTypeStatistics := stats,
                    gMemoryTypeInformation := (if current > ucast (InfoPages (info ! i))
                      then info[i := (info ! i)\<lparr>InfoPages := ucast current\<rparr>] else info)\<rparr>)
          else None }
        else Some s }
      else Some s)"

text \<open>
  Pulling the range \<open>start\<close> to \<open>rangeEnd\<close> out of an entry: the map with the entry clipped, where
  the entry that the code holds afterwards is between \<open>prior\<close> and \<open>after\<close>.  A range from the
  middle leaves a new entry for what is above it at the end of the map.
\<close>

definition PullOut :: "UINT64 \<Rightarrow> UINT64 \<Rightarrow> MEMORY_MAP list \<Rightarrow> MEMORY_MAP \<Rightarrow> MEMORY_MAP list \<Rightarrow> nat \<Rightarrow>
    (MEMORY_MAP list \<times> MEMORY_MAP \<times> MEMORY_MAP list \<times> nat) option" where
  "PullOut start rangeEnd prior entry after depth =
     (if Start entry = start then Some (prior, entry\<lparr>Start := rangeEnd + 1\<rparr>, after, depth)
      else if End entry = rangeEnd then Some (prior, entry\<lparr>End := start - 1\<rparr>, after, depth)
      else
        let new = entry\<lparr>Slot := Some depth, FromPages := False, Start := rangeEnd + 1\<rparr>;
            entry = entry\<lparr>End := start - 1\<rparr>
        in if Start entry < End entry \<and> depth + 1 < MAX_MAP_DEPTH
           then Some (prior @ entry # after, new, [], depth + 1) else None)"

definition ConvertRange :: "(dxe_memory \<Rightarrow> dxe_memory option) \<Rightarrow> MEMORY_MAP list \<Rightarrow> MEMORY_MAP \<Rightarrow> MEMORY_MAP list \<Rightarrow>
    UINT64 \<Rightarrow> UINT64 \<Rightarrow> UINT64 \<Rightarrow> bool \<Rightarrow> EFI_MEMORY_TYPE \<Rightarrow> UINT64 \<Rightarrow> dxe_memory \<Rightarrow> dxe_memory option" where
  "ConvertRange freeStack prior entry after start rangeEnd pages changingType newType newAttributes s = do {
     s \<leftarrow> (if changingType then do { s \<leftarrow> CountOldType (Type entry) start pages s; CountNewType newType start pages s } else Some s);
     (prior, entry, after, depth) \<leftarrow> PullOut start rangeEnd prior entry after (mMapDepth s);
     let attribute = (if changingType then Attribute entry else newAttributes);
     let memType = (if changingType then newType else Type entry);
     let s = (if Start entry = End entry + 1
        then s\<lparr>gMemoryMap := prior @ after, mMapDepth := depth,
               mFreeMemoryMapEntries := mFreeMemoryMapEntries s + RemoveMemoryMapEntry entry\<rparr>
        else s\<lparr>gMemoryMap := prior @ entry # after, mMapDepth := depth\<rparr>);
     s \<leftarrow> CoreAddRange memType start rangeEnd attribute s;
     freeStack s }"

partial_function (option) CoreConvertPagesEx_loop :: "(dxe_memory \<Rightarrow> dxe_memory option) \<Rightarrow> UINT64 \<Rightarrow> UINT64 \<Rightarrow> bool \<Rightarrow>
    EFI_MEMORY_TYPE \<Rightarrow> UINT64 \<Rightarrow> UINT64 \<Rightarrow> dxe_memory \<Rightarrow> (EFI_STATUS \<times> dxe_memory) option" where
  "CoreConvertPagesEx_loop freeStack end pages changingType newType newAttributes start s =
     (if start < end then
        case FindEntry start (gMemoryMap s) of
          None \<Rightarrow> Some (EFI_NOT_FOUND, s)
        | Some (prior, entry, after) \<Rightarrow>
            if changingType \<and> newType \<noteq> EfiConventionalMemory \<and> End entry < end then Some (EFI_NOT_FOUND, s)
            else if changingType \<and> (newType = EfiConventionalMemory) = (Type entry = EfiConventionalMemory)
            then Some (EFI_NOT_FOUND, s)
            else do {
              let rangeEnd = (if End entry < end then End entry else end);
              s \<leftarrow> ConvertRange freeStack prior entry after start rangeEnd pages changingType newType newAttributes s;
              CoreConvertPagesEx_loop freeStack end pages changingType newType newAttributes (rangeEnd + 1) s }
      else Some (EFI_SUCCESS, s))"

declare CoreConvertPagesEx_loop.simps [code]

definition CoreConvertPagesEx :: "(dxe_memory \<Rightarrow> dxe_memory option) \<Rightarrow> UINT64 \<Rightarrow> UINT64 \<Rightarrow> bool \<Rightarrow> EFI_MEMORY_TYPE \<Rightarrow>
    bool \<Rightarrow> UINT64 \<Rightarrow> dxe_memory \<Rightarrow> (EFI_STATUS \<times> dxe_memory) option" where
  "CoreConvertPagesEx freeStack start pages changingType newType changingAttributes newAttributes s =
     (let end = start + push_bit 12 pages - 1 in
      if \<not> gMemoryLock s \<or> changingType \<and> changingAttributes then None
      else if pages = 0 \<or> start AND EFI_PAGE_MASK \<noteq> 0 \<or> start \<ge> end then Some (EFI_INVALID_PARAMETER, s)
      else CoreConvertPagesEx_loop freeStack end pages changingType newType newAttributes start s)"

definition CoreConvertPages :: "(dxe_memory \<Rightarrow> dxe_memory option) \<Rightarrow> UINT64 \<Rightarrow> UINT64 \<Rightarrow> EFI_MEMORY_TYPE \<Rightarrow>
    dxe_memory \<Rightarrow> (EFI_STATUS \<times> dxe_memory) option" where
  "CoreConvertPages freeStack start pages newType s = CoreConvertPagesEx freeStack start pages True newType False 0 s"

subsection \<open>Searching free pages\<close>

definition EFI_MEMORY_SP :: UINT64 where "EFI_MEMORY_SP = 0x40000"

text \<open>One entry of the search: the best end of a range so far.\<close>

definition FindFreePages_entry :: "UINT64 \<Rightarrow> UINT64 \<Rightarrow> UINT64 \<Rightarrow> UINT64 \<Rightarrow> MEMORY_MAP \<Rightarrow> UINT64 \<Rightarrow> UINT64" where
  "FindFreePages_entry maxAddress minAddress bytes alignment entry target =
     (if Type entry \<noteq> EfiConventionalMemory then target
      else if Attribute entry AND EFI_MEMORY_SP \<noteq> 0 then target
      else
        let descStart = Start entry; descEnd = End entry in
        if descStart \<ge> maxAddress \<or> descEnd < minAddress then target
        else
          let descEnd = (if descEnd \<ge> maxAddress then maxAddress else descEnd);
              descEnd = ((descEnd + 1) AND NOT (alignment - 1)) - 1
          in if descEnd < descStart then target
             else if descEnd - descStart + 1 \<ge> bytes then
               (if descEnd - bytes + 1 < minAddress then target
                else if descEnd > target then descEnd else target)
             else target)"

definition CoreFindFreePagesI :: "UINT64 \<Rightarrow> UINT64 \<Rightarrow> UINT64 \<Rightarrow> UINT64 \<Rightarrow> MEMORY_MAP list \<Rightarrow> UINT64" where
  "CoreFindFreePagesI maxAddress minAddress pages alignment entries =
     (if maxAddress < EFI_PAGE_MASK \<or> pages = 0 then 0
      else
        let maxAddress = (if maxAddress AND EFI_PAGE_MASK \<noteq> EFI_PAGE_MASK
              then ((maxAddress - (EFI_PAGE_MASK + 1)) AND NOT EFI_PAGE_MASK) OR EFI_PAGE_MASK else maxAddress);
            bytes = push_bit 12 pages;
            target = fold (FindFreePages_entry maxAddress minAddress bytes alignment) entries 0;
            target = target - (bytes - 1)
        in if target AND EFI_PAGE_MASK \<noteq> 0 then 0 else target)"

subsection \<open>Promoting untested memory\<close>

definition EfiGcdMemoryTypeReserved :: UINT32 where "EfiGcdMemoryTypeReserved = 1"
definition EfiGcdMemoryTypeSystemMemory :: UINT32 where "EfiGcdMemoryTypeSystemMemory = 2"
definition EfiGcdMemoryTypeMemoryMappedIo :: UINT32 where "EfiGcdMemoryTypeMemoryMappedIo = 3"
definition EfiGcdMemoryTypePersistent :: UINT32 where "EfiGcdMemoryTypePersistent = 4"
definition EfiGcdMemoryTypeMoreReliable :: UINT32 where "EfiGcdMemoryTypeMoreReliable = 5"
definition EfiGcdMemoryTypeUnaccepted :: UINT32 where "EfiGcdMemoryTypeUnaccepted = 6"

definition EFI_MEMORY_PRESENT :: UINT64 where "EFI_MEMORY_PRESENT = 0x0100000000000000"
definition EFI_MEMORY_INITIALIZED :: UINT64 where "EFI_MEMORY_INITIALIZED = 0x0200000000000000"
definition EFI_MEMORY_TESTED :: UINT64 where "EFI_MEMORY_TESTED = 0x0400000000000000"
definition EFI_MEMORY_RUNTIME :: UINT64 where "EFI_MEMORY_RUNTIME = 0x8000000000000000"
definition EFI_MEMORY_MORE_RELIABLE :: UINT64 where "EFI_MEMORY_MORE_RELIABLE = 0x10000"

text \<open>Memory that is there and initialised but not tested.\<close>

definition promotable :: "EFI_GCD_MAP_ENTRY \<Rightarrow> bool" where
  "promotable g \<longleftrightarrow> GcdMemoryType g = EfiGcdMemoryTypeReserved \<and> EndAddress g < MAX_ALLOC_ADDRESS \<and>
     Capabilities g AND (EFI_MEMORY_PRESENT OR EFI_MEMORY_INITIALIZED OR EFI_MEMORY_TESTED) =
       EFI_MEMORY_PRESENT OR EFI_MEMORY_INITIALIZED"

definition PromoteEntry :: "EFI_GCD_MAP_ENTRY \<Rightarrow> EFI_GCD_MAP_ENTRY" where
  "PromoteEntry g = g\<lparr>
     GcdMemoryType := (if Capabilities g AND EFI_MEMORY_MORE_RELIABLE = EFI_MEMORY_MORE_RELIABLE
                       then EfiGcdMemoryTypeMoreReliable else EfiGcdMemoryTypeSystemMemory),
     Capabilities := Capabilities g OR EFI_MEMORY_TESTED\<rparr>"

fun PromoteMemoryResource_loop :: "(dxe_memory \<Rightarrow> dxe_memory option) \<Rightarrow> nat list \<Rightarrow> bool \<Rightarrow> dxe_memory \<Rightarrow>
    (bool \<times> dxe_memory) option" where
  "PromoteMemoryResource_loop freeStack [] promoted s = Some (promoted, s)"
| "PromoteMemoryResource_loop freeStack (i # link) promoted s =
     (let g = mGcdMemorySpaceMap s ! i in
      if promotable g then do {
        let s = s\<lparr>mGcdMemorySpaceMap := (mGcdMemorySpaceMap s)[i := PromoteEntry g]\<rparr>;
        s \<leftarrow> CoreAddRange EfiConventionalMemory (GcdBaseAddress g) (EndAddress g)
          (Capabilities (PromoteEntry g) AND
             NOT (EFI_MEMORY_PRESENT OR EFI_MEMORY_INITIALIZED OR EFI_MEMORY_TESTED OR EFI_MEMORY_RUNTIME)) s;
        s \<leftarrow> freeStack s;
        PromoteMemoryResource_loop freeStack link True s }
      else PromoteMemoryResource_loop freeStack link promoted s)"

definition PromoteMemoryResource :: "(dxe_memory \<Rightarrow> dxe_memory option) \<Rightarrow> dxe_memory \<Rightarrow> (bool \<times> dxe_memory) option" where
  "PromoteMemoryResource freeStack s = do {
     s \<leftarrow> CoreAcquireGcdMemoryLock s;
     (promoted, s) \<leftarrow> PromoteMemoryResource_loop freeStack [0..<length (mGcdMemorySpaceMap s)] False s;
     s \<leftarrow> CoreReleaseGcdMemoryLock s;
     Some (promoted, s) }"

text \<open>The bin of the type, the default bin, the whole range: the address found, or 0.\<close>

definition FindFreePages_bins :: "UINT64 \<Rightarrow> UINT64 \<Rightarrow> EFI_MEMORY_TYPE \<Rightarrow> UINT64 \<Rightarrow> dxe_memory \<Rightarrow> (UINT64 \<times> dxe_memory) option" where
  "FindFreePages_bins maxAddress pages newType alignment s = do {
     start \<leftarrow> (if newType < EfiMaxMemoryType then do {
         st \<leftarrow> rd (mMemoryTypeStatistics s) newType;
         Some (if maxAddress \<ge> MaximumAddress st
               then CoreFindFreePagesI (MaximumAddress st) (BaseAddress st) pages alignment (gMemoryMap s) else 0) }
       else Some 0);
     if start \<noteq> 0 then Some (start, s)
     else
       let start = (if maxAddress \<ge> mDefaultMaximumAddress s
             then CoreFindFreePagesI (mDefaultMaximumAddress s) 0 pages alignment (gMemoryMap s) else 0)
       in if start \<noteq> 0 then Some (start, if start < mDefaultBaseAddress s then s\<lparr>mDefaultBaseAddress := start\<rparr> else s)
          else Some (CoreFindFreePagesI maxAddress 0 pages alignment (gMemoryMap s), s) }"

text \<open>If all fail, untested memory is promoted and the search is repeated.\<close>

partial_function (option) FindFreePages :: "(dxe_memory \<Rightarrow> dxe_memory option) \<Rightarrow> UINT64 \<Rightarrow> UINT64 \<Rightarrow> EFI_MEMORY_TYPE \<Rightarrow> UINT64 \<Rightarrow>
    dxe_memory \<Rightarrow> (UINT64 \<times> dxe_memory) option" where
  "FindFreePages freeStack maxAddress pages newType alignment s = do {
     (start, s) \<leftarrow> FindFreePages_bins maxAddress pages newType alignment s;
     if start \<noteq> 0 then Some (start, s)
     else do {
       (promoted, s) \<leftarrow> PromoteMemoryResource freeStack s;
       if promoted then FindFreePages freeStack maxAddress pages newType alignment s else Some (0, s) } }"

declare FindFreePages.simps [code]

definition DEFAULT_PAGE_ALLOCATION_GRANULARITY :: UINT64 where "DEFAULT_PAGE_ALLOCATION_GRANULARITY = 0x1000"
definition RUNTIME_PAGE_ALLOCATION_GRANULARITY :: UINT64 where "RUNTIME_PAGE_ALLOCATION_GRANULARITY = 0x1000"

text \<open>The status of the conversion is not looked at.\<close>

definition CoreAllocatePoolPages :: "(dxe_memory \<Rightarrow> dxe_memory option) \<Rightarrow> EFI_MEMORY_TYPE \<Rightarrow> UINTN \<Rightarrow> UINTN \<Rightarrow> dxe_memory \<Rightarrow>
    (UINT64 \<times> dxe_memory) option" where
  "CoreAllocatePoolPages freeStack poolType pages alignment s = do {
     (start, s) \<leftarrow> FindFreePages freeStack MAX_ALLOC_ADDRESS pages poolType alignment s;
     if start = 0 then Some (start, s)
     else do { (status, s) \<leftarrow> CoreConvertPages freeStack start pages poolType s; Some (start, s) } }"

definition CoreFreePoolPages :: "(dxe_memory \<Rightarrow> dxe_memory option) \<Rightarrow> UINT64 \<Rightarrow> UINTN \<Rightarrow> dxe_memory \<Rightarrow> dxe_memory option" where
  "CoreFreePoolPages freeStack memory pages s = do {
     (status, s) \<leftarrow> CoreConvertPages freeStack memory pages EfiConventionalMemory s; Some s }"

subsection \<open>Descriptors\<close>

text \<open>A page holds 64 descriptors of 64 bytes.\<close>

definition AllocateMemoryMapEntry :: "dxe_memory \<Rightarrow> (bool \<times> dxe_memory) option" where
  "AllocateMemoryMapEntry s =
     (if mFreeMemoryMapEntries s = 0 then do {
        (entries, s) \<leftarrow> CoreAllocatePoolPages Some EfiBootServicesData 1 DEFAULT_PAGE_ALLOCATION_GRANULARITY s;
        if entries \<noteq> 0 then Some (True, s\<lparr>mFreeMemoryMapEntries := mFreeMemoryMapEntries s + 64 - 1\<rparr>)
        else Some (False, s) }
      else Some (True, s\<lparr>mFreeMemoryMapEntries := mFreeMemoryMapEntries s - 1\<rparr>))"

text \<open>Insertion in front of the first node from the pool that starts above the entry.\<close>

fun InsertByStart :: "MEMORY_MAP \<Rightarrow> MEMORY_MAP list \<Rightarrow> MEMORY_MAP list" where
  "InsertByStart entry [] = [entry]"
| "InsertByStart entry (entry2 # link) =
     (if FromPages entry2 \<and> Start entry2 > Start entry then entry # entry2 # link
      else entry2 # InsertByStart entry link)"

text \<open>The top of the stack moves to a descriptor, if it is still on the map.\<close>

definition MoveStackEntry :: "dxe_memory \<Rightarrow> dxe_memory" where
  "MoveStackEntry s =
     (let depth = mMapDepth s - 1 in
      case List.extract (\<lambda>e. Slot e = Some depth) (gMemoryMap s) of
        Some (prior, entry, after) \<Rightarrow>
          s\<lparr>mMapDepth := depth, gMemoryMap := InsertByStart (entry\<lparr>Slot := None, FromPages := True\<rparr>) (prior @ after)\<rparr>
      | None \<Rightarrow> s\<lparr>mMapDepth := depth, mFreeMemoryMapEntries := mFreeMemoryMapEntries s + 1\<rparr>)"

partial_function (option) CoreFreeMemoryMapStack_loop :: "dxe_memory \<Rightarrow> dxe_memory option" where
  "CoreFreeMemoryMapStack_loop s =
     (if mMapDepth s = 0 then Some s
      else do {
        (allocated, s) \<leftarrow> AllocateMemoryMapEntry s;
        CoreFreeMemoryMapStack_loop (if allocated then MoveStackEntry s else s) })"

declare CoreFreeMemoryMapStack_loop.simps [code]

definition CoreFreeMemoryMapStack :: "dxe_memory \<Rightarrow> dxe_memory option" where
  "CoreFreeMemoryMapStack s =
     (if \<not> gMemoryLock s then None
      else if mFreeMapStack s \<noteq> 0 then Some s
      else do {
        s \<leftarrow> CoreFreeMemoryMapStack_loop (s\<lparr>mFreeMapStack := mFreeMapStack s + 1\<rparr>);
        Some (s\<lparr>mFreeMapStack := mFreeMapStack s - 1\<rparr>) })"

subsection \<open>Allocating and freeing pages\<close>

definition AllocateAnyPages :: UINT32 where "AllocateAnyPages = 0"
definition AllocateMaxAddress :: UINT32 where "AllocateMaxAddress = 1"
definition AllocateAddress :: UINT32 where "AllocateAddress = 2"
definition MaxAllocateType :: UINT32 where "MaxAllocateType = 3"

definition EFI_SIZE_TO_PAGES :: "UINT64 \<Rightarrow> UINT64" where
  "EFI_SIZE_TO_PAGES bytes = drop_bit 12 bytes + (if bytes AND EFI_PAGE_MASK \<noteq> 0 then 1 else 0)"

definition AllocationAlignment :: "EFI_MEMORY_TYPE \<Rightarrow> UINT64" where
  "AllocationAlignment ty =
     (if ty = EfiReservedMemoryType \<or> ty = EfiACPIMemoryNVS \<or> ty = EfiRuntimeServicesCode \<or> ty = EfiRuntimeServicesData
      then RUNTIME_PAGE_ALLOCATION_GRANULARITY else DEFAULT_PAGE_ALLOCATION_GRANULARITY)"

definition RoundPages :: "UINT64 \<Rightarrow> UINT64 \<Rightarrow> UINT64" where
  "RoundPages pages alignment = (pages + (EFI_SIZE_TO_PAGES alignment - 1)) AND NOT (EFI_SIZE_TO_PAGES alignment - 1)"

text \<open>The bins of the special memory types are closed to allocations at a fixed address of another type.\<close>

definition HitsSpecialBin :: "EFI_MEMORY_TYPE \<Rightarrow> UINT64 \<Rightarrow> UINT64 \<Rightarrow> nat \<times> EFI_MEMORY_TYPE_STATISTICS \<Rightarrow> bool" where
  "HitsSpecialBin memoryType start end = (\<lambda>(checkType, st).
     memoryType \<noteq> of_nat checkType \<and> Special st \<and> BinPages st > 0 \<and>
     (start \<ge> BaseAddress st \<and> start \<le> MaximumAddress st \<or>
      end \<ge> BaseAddress st \<and> end \<le> MaximumAddress st \<or>
      start < BaseAddress st \<and> end > MaximumAddress st))"

definition FixedAddressRefused :: "EFI_MEMORY_TYPE \<Rightarrow> UINT64 \<Rightarrow> UINT64 \<Rightarrow> dxe_memory \<Rightarrow> bool" where
  "FixedAddressRefused memoryType start pages s =
     (let end = start + push_bit 12 pages - 1 in
      start = 0 \<or> pages = 0 \<or> pages > drop_bit 12 MAX_ALLOC_ADDRESS \<or>
      start \<ge> end \<or> start > MAX_ALLOC_ADDRESS \<or> end > MAX_ALLOC_ADDRESS \<or>
      list_ex (HitsSpecialBin memoryType start end)
        (zip [0..<unat EfiMaxMemoryType] (take (unat EfiMaxMemoryType) (mMemoryTypeStatistics s))))"

text \<open>Memory that cannot be converted may be untested: it is promoted and converted again.\<close>

definition ConvertOrPromote :: "UINT64 \<Rightarrow> UINTN \<Rightarrow> EFI_MEMORY_TYPE \<Rightarrow> dxe_memory \<Rightarrow> (EFI_STATUS \<times> dxe_memory) option" where
  "ConvertOrPromote start pages memoryType s = do {
     (status, s) \<leftarrow> CoreConvertPages CoreFreeMemoryMapStack start pages memoryType s;
     if status AND EFI_ERROR_BIT \<noteq> 0 then do {
       (promoted, s) \<leftarrow> PromoteMemoryResource CoreFreeMemoryMapStack s;
       if promoted then CoreConvertPages CoreFreeMemoryMapStack start pages memoryType s else Some (status, s) }
     else Some (status, s) }"

text \<open>The part under the lock, with the address that was used.\<close>

definition AllocateLocked :: "UINT32 \<Rightarrow> EFI_MEMORY_TYPE \<Rightarrow> UINTN \<Rightarrow> UINT64 \<Rightarrow> UINT64 \<Rightarrow> dxe_memory \<Rightarrow>
    (EFI_STATUS \<times> UINT64 \<times> dxe_memory) option" where
  "AllocateLocked type memoryType pages alignment start s = do {
     let maxAddress = (if type = AllocateMaxAddress then start else MAX_ALLOC_ADDRESS);
     (start, s) \<leftarrow> (if type \<noteq> AllocateAddress
       then FindFreePages CoreFreeMemoryMapStack maxAddress pages memoryType alignment s else Some (start, s));
     if type \<noteq> AllocateAddress \<and> start = 0 then Some (EFI_OUT_OF_RESOURCES, start, s)
     else do { (status, s) \<leftarrow> ConvertOrPromote start pages memoryType s; Some (status, start, s) } }"

text \<open>The status, the value of \<open>*Memory\<close> and the state.\<close>

definition CoreInternalAllocatePages :: "UINT32 \<Rightarrow> EFI_MEMORY_TYPE \<Rightarrow> UINTN \<Rightarrow> UINT64 option \<Rightarrow> dxe_memory \<Rightarrow>
    (EFI_STATUS \<times> UINT64 option \<times> dxe_memory) option" where
  "CoreInternalAllocatePages type memoryType pages memory s =
     (if type \<ge> MaxAllocateType then Some (EFI_INVALID_PARAMETER, memory, s)
      else if memoryType \<ge> EfiMaxMemoryType \<and> memoryType < MEMORY_TYPE_OEM_RESERVED_MIN \<or>
        memoryType = EfiConventionalMemory \<or> memoryType = EfiPersistentMemory \<or> memoryType = EfiUnacceptedMemoryType
      then Some (EFI_INVALID_PARAMETER, memory, s)
      else case memory of
        None \<Rightarrow> Some (EFI_INVALID_PARAMETER, memory, s)
      | Some start \<Rightarrow>
          let alignment = AllocationAlignment memoryType in
          if type = AllocateAddress \<and> start AND (alignment - 1) \<noteq> 0 then Some (EFI_NOT_FOUND, memory, s)
          else
            let pages = RoundPages pages alignment in
            if type = AllocateAddress \<and> FixedAddressRefused memoryType start pages s then Some (EFI_NOT_FOUND, memory, s)
            else do {
              s \<leftarrow> CoreAcquireMemoryLock s;
              (status, start, s) \<leftarrow> AllocateLocked type memoryType pages alignment start s;
              s \<leftarrow> CoreReleaseMemoryLock s;
              Some (status, if status AND EFI_ERROR_BIT = 0 then Some start else memory, s) })"

definition CoreUpdateMemoryAttributes :: "UINT64 \<Rightarrow> UINT64 \<Rightarrow> UINT64 \<Rightarrow> dxe_memory \<Rightarrow> dxe_memory option" where
  "CoreUpdateMemoryAttributes start pages newAttributes s = do {
     s \<leftarrow> CoreAcquireMemoryLock s;
     (status, s) \<leftarrow> CoreConvertPagesEx CoreFreeMemoryMapStack start pages False 0 True newAttributes s;
     CoreReleaseMemoryLock s }"

text \<open>The status, the type that is stored through \<open>MemoryType\<close>, and the state.\<close>

definition CoreInternalFreePages :: "UINT64 \<Rightarrow> UINTN \<Rightarrow> dxe_memory \<Rightarrow> (EFI_STATUS \<times> EFI_MEMORY_TYPE option \<times> dxe_memory) option" where
  "CoreInternalFreePages memory pages s = do {
     s \<leftarrow> CoreAcquireMemoryLock s;
     (status, ty, s) \<leftarrow> (case FindEntry memory (gMemoryMap s) of
         None \<Rightarrow> Some (EFI_NOT_FOUND, None, s)
       | Some (_, entry, _) \<Rightarrow>
           let alignment = AllocationAlignment (Type entry) in
           if memory AND (alignment - 1) \<noteq> 0 then Some (EFI_INVALID_PARAMETER, None, s)
           else do {
             (status, s) \<leftarrow> CoreConvertPages CoreFreeMemoryMapStack memory (RoundPages pages alignment) EfiConventionalMemory s;
             Some (status, Some (Type entry), s) });
     s \<leftarrow> CoreReleaseMemoryLock s;
     Some (status, ty, s) }"

subsection \<open>Clipping an entry\<close>

lemma FindEntry_Some:
  "FindEntry start es = Some (xs, e, ys) \<Longrightarrow> es = xs @ e # ys \<and> Start e \<le> start \<and> start < End e"
  by (induction start es arbitrary: xs rule: FindEntry.induct) (auto split: if_splits option.splits)

lemma FindEntry_None: "FindEntry start es = None \<longleftrightarrow> (\<forall>e \<in> set es. \<not> (Start e \<le> start \<and> start < End e))"
  by (induction start es rule: FindEntry.induct) (auto split: option.split)

lemma mem_at_without:
  assumes "entries_ok (xs @ e # ys)"
  shows "mem_at (xs @ ys) a = (if covers e a then None else mem_at (xs @ e # ys) a)"
proof -
  have "mem_at (xs @ ys) a = None" if "covers e a"
    using assms that by (auto simp: mem_at_None entries_ok_mid dest: apart_covers)
  then show ?thesis using mem_at_mid [OF assms] by simp
qed

text \<open>A node may shrink in place.\<close>

lemma shrink_node:
  assumes "entries_ok (xs @ e # ys)" "slots_ok n (xs @ e # ys)" "sorted_wrt below (xs @ e # ys)"
    and "Start e \<le> Start f" "End f \<le> End e" "page_range (Start f) (End f)" "FromPages f = FromPages e" "Slot f = Slot e"
  shows "entries_ok (xs @ f # ys)" "slots_ok n (xs @ f # ys)" "sorted_wrt below (xs @ f # ys)"
proof -
  show "entries_ok (xs @ f # ys)"
    using assms(1,4-6) by (force simp: entries_ok_mid apart_entries_def apart_ranges_def)
  show "slots_ok n (xs @ f # ys)"
    using assms(2,7,8) by (simp add: slots_ok_def sorted_wrt_append other_slot_def)
  have "below x e \<Longrightarrow> below x f" "below e x \<Longrightarrow> below f x" for x
    using assms(4,5,7) by (auto simp: below_def)
  then show "sorted_wrt below (xs @ f # ys)"
    using assms(3) by (simp add: sorted_wrt_append)
qed

lemma drop_node:
  assumes "entries_ok (xs @ e # ys)" "slots_ok n (xs @ e # ys)" "sorted_wrt below (xs @ e # ys)"
  shows "entries_ok (xs @ ys)" "slots_ok n (xs @ ys)" "sorted_wrt below (xs @ ys)"
  using assms by (auto simp: entries_ok_mid slots_ok_def sorted_wrt_append)

lemma page_gap:
  assumes "4096 dvd a" "4096 dvd b" "a < b" shows "a + 4096 \<le> (b :: nat)"
proof -
  obtain k l where kl: "a = 4096 * k" "b = 4096 * l" using assms(1,2) by (elim dvdE)
  then have "k < l" using assms(3) by simp
  then show ?thesis using kl by linarith
qed

lemma page_range_above:
  assumes "4096 dvd Suc (unat r)" "page_range s e" "r < e"
  shows "page_range (r + 1) e" "r < r + 1" "r + 1 \<le> a \<longleftrightarrow> \<not> a \<le> r"
proof -
  have u: "unat (r + 1) = Suc (unat r)" using assms(2,3) by (intro Suc_word_less) (auto simp: page_range_def)
  have "Suc (unat r) + 4096 \<le> Suc (unat e)" using assms by (intro page_gap) (auto simp: page_range_def word_less_nat_alt)
  then show "page_range (r + 1) e" using assms u by (simp add: page_range_def word_less_nat_alt)
  show "r < r + 1" "r + 1 \<le> a \<longleftrightarrow> \<not> a \<le> r" using u by (auto simp: word_less_nat_alt word_le_nat_alt)
qed

lemma page_range_below:
  assumes "4096 dvd unat r" "page_range s e" "s < r" "r < e"
  shows "page_range s (r - 1)" "r - 1 < r" "a \<le> r - 1 \<longleftrightarrow> \<not> r \<le> a"
proof -
  have u: "unat (r - 1) = unat r - 1" using assms(3) by (subst unat_sub) (auto simp: word_le_nat_alt word_less_nat_alt)
  have "unat s + 4096 \<le> unat r" using assms by (intro page_gap) (auto simp: page_range_def word_less_nat_alt)
  then show "page_range s (r - 1)" "r - 1 < r" "a \<le> r - 1 \<longleftrightarrow> \<not> r \<le> a"
    using assms u by (auto simp: page_range_def word_less_nat_alt word_le_nat_alt)
qed

text \<open>
  The map after \<open>PullOut\<close> and the removal of an entry that has become empty says nothing of the range
  and otherwise what it said before.
\<close>

definition kept :: "MEMORY_MAP list \<Rightarrow> MEMORY_MAP \<Rightarrow> MEMORY_MAP list \<Rightarrow> MEMORY_MAP list" where
  "kept xs e ys = (if Start e = End e + 1 then xs @ ys else xs @ e # ys)"

definition pulled :: "UINT64 \<Rightarrow> UINT64 \<Rightarrow> nat \<Rightarrow> MEMORY_MAP list \<Rightarrow> nat \<Rightarrow> MEMORY_MAP list \<Rightarrow> bool" where
  "pulled s r d0 old d new \<longleftrightarrow> entries_ok new \<and> slots_ok d new \<and> sorted_wrt below new \<and>
     (\<forall>f \<in> set new. apart_ranges s r f) \<and>
     mem_at new = (\<lambda>a. if s \<le> a \<and> a \<le> r then None else mem_at old a) \<and> d0 \<le> d \<and> d \<le> Suc d0"

lemma PullOut_ok:
  assumes m: "entries_ok (xs @ e # ys)" "slots_ok d (xs @ e # ys)" "sorted_wrt below (xs @ e # ys)"
    and r: "Start e \<le> s" "r \<le> End e" "page_range s r"
    and p: "PullOut s r xs e ys d = Some (xs', e', ys', d')"
  shows "pulled s r d (xs @ e # ys) d' (kept xs' e' ys') \<and> Type e' = Type e \<and> Attribute e' = Attribute e \<and>
    (if Start e' = End e' + 1 then RemoveMemoryMapEntry e' else 0) + pooled (kept xs' e' ys') = pooled (xs @ e # ys)"
proof -
  let ?old = "xs @ e # ys"
  have e: "page_range (Start e) (End e)" "\<forall>f \<in> set (xs @ ys). apart_entries e f" using m(1) by (simp_all add: entries_ok_mid)
  have sr: "s < r" "r < 0xFFFFFFFFFFFFFFFF" "4096 dvd unat s" "4096 dvd Suc (unat r)" using r(3) by (auto simp: page_range_def)
  have se: "s < End e" using sr(1) r(2) by (rule less_le_trans)
  have without: "mem_at (xs @ ys) a = (if covers e a then None else mem_at ?old a)" for a using mem_at_without [OF m(1)] .
  have on: "covers e a \<Longrightarrow> mem_at ?old a = Some (Type e, Attribute e)" for a using mem_at_mid [OF m(1)] by simp
  have far: "\<forall>f \<in> set (xs @ ys). apart_ranges s r f"
    using e(2) r(1,2) by (force simp: apart_entries_def apart_ranges_def)
  consider (whole) "Start e = s" "End e = r" | (start) "Start e = s" "r < End e" | (stop) "Start e < s" "End e = r"
    | (middle) "Start e < s" "r < End e" using r(1,2) by fastforce
  then show ?thesis
  proof cases
    case whole
    have p': "xs' = xs" "e' = e\<lparr>Start := r + 1\<rparr>" "ys' = ys" "d' = d" using p whole by (simp_all add: PullOut_def)
    have "kept xs' e' ys' = xs @ ys" using whole by (simp add: kept_def p')
    moreover have "mem_at (xs @ ys) = (\<lambda>a. if s \<le> a \<and> a \<le> r then None else mem_at ?old a)"
      using without whole by (auto simp: covers_def fun_eq_iff)
    ultimately show ?thesis using drop_node [OF m] far whole by (auto simp: pulled_def p' RemoveMemoryMapEntry_def)
  next
    case start
    have p': "xs' = xs" "e' = e\<lparr>Start := r + 1\<rparr>" "ys' = ys" "d' = d" using p start by (simp_all add: PullOut_def)
    note ab = page_range_above [OF sr(4) e(1) start(2)]
    have ne: "r + 1 \<noteq> End e + 1" using start by auto
    then have k: "kept xs' e' ys' = xs @ e' # ys" by (simp add: kept_def p')
    have "page_range (Start e') (End e')" "Start e \<le> Start e'" using ab sr(1) start by (auto simp: p')
    note sh = shrink_node [OF m this(2) _ this(1)]
    have ok: "entries_ok (xs @ e' # ys)" by (rule sh(1)) (simp_all add: p')
    have "mem_at (xs @ e' # ys) = (\<lambda>a. if s \<le> a \<and> a \<le> r then None else mem_at ?old a)"
    proof
      fix a
      have "covers e a \<longleftrightarrow> s \<le> a \<and> a \<le> r \<or> covers e' a" "covers e' a \<Longrightarrow> \<not> a \<le> r"
        using ab(2) sr(1,2) start by (auto simp: covers_def p' ab(3))
      then show "mem_at (xs @ e' # ys) a = (if s \<le> a \<and> a \<le> r then None else mem_at ?old a)"
        using mem_at_mid [OF ok, of a] without [of a] on [of a] by (auto simp: p')
    qed
    moreover have "apart_ranges s r e'" using ab(2) by (simp add: apart_ranges_def p')
    ultimately show ?thesis using far ok sh(2,3) ne unfolding k by (simp add: pulled_def p')
  next
    case stop
    have p': "xs' = xs" "e' = e\<lparr>End := s - 1\<rparr>" "ys' = ys" "d' = d" using p stop less_imp_neq [OF stop(1)] by (simp_all add: PullOut_def)
    note be = page_range_below [OF sr(3) e(1) stop(1) se]
    have ne: "Start e \<noteq> s - 1 + 1" using stop by auto
    then have k: "kept xs' e' ys' = xs @ e' # ys" by (simp add: kept_def p')
    have "page_range (Start e') (End e')" "End e' \<le> End e" using be(1,2) sr(1) stop by (auto simp: p')
    note sh = shrink_node [OF m _ this(2,1)]
    have ok: "entries_ok (xs @ e' # ys)" by (rule sh(1)) (simp_all add: p')
    have "mem_at (xs @ e' # ys) = (\<lambda>a. if s \<le> a \<and> a \<le> r then None else mem_at ?old a)"
    proof
      fix a
      have "covers e a \<longleftrightarrow> s \<le> a \<and> a \<le> r \<or> covers e' a" "covers e' a \<Longrightarrow> \<not> s \<le> a"
        using sr(1) stop by (auto simp: covers_def p' be(3))
      then show "mem_at (xs @ e' # ys) a = (if s \<le> a \<and> a \<le> r then None else mem_at ?old a)"
        using mem_at_mid [OF ok, of a] without [of a] on [of a] by (auto simp: p')
    qed
    moreover have "apart_ranges s r e'" using be(2) by (simp add: apart_ranges_def p')
    ultimately show ?thesis using far ok sh(2,3) ne unfolding k by (simp add: pulled_def p')
  next
    case middle
    let ?low = "e\<lparr>End := s - 1\<rparr>"
    have p': "xs' = xs @ ?low # ys" "e' = e\<lparr>Slot := Some d, FromPages := False, Start := r + 1\<rparr>" "ys' = []" "d' = Suc d"
      using p less_imp_neq [OF middle(1)] less_imp_neq [OF middle(2)] by (auto simp: PullOut_def Let_def split: if_splits)
    note be = page_range_below [OF sr(3) e(1) middle(1) se] and ab = page_range_above [OF sr(4) e(1) middle(2)]
    have k: "kept xs' e' ys' = (xs @ ?low # ys) @ [e']" using middle by (auto simp: kept_def p')
    have "page_range (Start ?low) (End ?low)" "End ?low \<le> End e" using be(1,2) sr(1) middle by auto
    note sh = shrink_node [OF m _ this(2,1)]
    have low: "entries_ok (xs @ ?low # ys)" "slots_ok d (xs @ ?low # ys)" "sorted_wrt below (xs @ ?low # ys)"
      using sh by simp_all
    have far': "\<forall>f \<in> set (xs @ ?low # ys). apart_entries e' f"
      using e(2) ab(2) be(2) sr(1) middle by (force simp: apart_entries_def apart_ranges_def p')
    have ok: "entries_ok ((xs @ ?low # ys) @ [e'])"
      unfolding entries_ok_append [of "xs @ ?low # ys" "[e']"]
      using low(1) far' ab(1) by (auto simp: entries_ok_Cons apart_entries_sym p')
    have "mem_at ((xs @ ?low # ys) @ [e']) = (\<lambda>a. if s \<le> a \<and> a \<le> r then None else mem_at ?old a)"
    proof
      fix a
      have "covers e a \<longleftrightarrow> s \<le> a \<and> a \<le> r \<or> covers ?low a \<or> covers e' a" "covers ?low a \<Longrightarrow> \<not> s \<le> a" "covers e' a \<Longrightarrow> \<not> a \<le> r"
        using sr(1) middle by (auto simp: covers_def p' be(3) ab(3))
      then show "mem_at ((xs @ ?low # ys) @ [e']) a = (if s \<le> a \<and> a \<le> r then None else mem_at ?old a)"
        using mem_at_mid [OF ok, of a] mem_at_mid [OF low(1), of a] without [of a] on [of a] by (auto simp: p')
    qed
    moreover have "apart_ranges s r e'" "apart_ranges s r ?low" using ab(2) be(2) by (simp_all add: apart_ranges_def p')
    ultimately show ?thesis
      using far ok slots_ok_snoc [OF low(2), of e'] below_snoc [OF low(3), of e'] middle unfolding k by (auto simp: pulled_def p')
  qed
qed

text \<open>The sizes: what a range adds to the map, and to the stack.\<close>

lemma PullOut_size:
  assumes "PullOut s r xs e ys d = Some (xs', e', ys', d')"
  shows "d' = d + (if Start e \<noteq> s \<and> End e \<noteq> r then 1 else 0)"
    "length (kept xs' e' ys') \<le> length (xs @ ys) + (if Start e = s then 0 else 1) + (if End e = r then 0 else 1)"
    "pooled (kept xs' e' ys') + (if Start e = s \<and> End e = r \<and> FromPages e then 1 else 0) \<le> pooled (xs @ e # ys)"
  using assms by (auto simp: PullOut_def kept_def Let_def split: if_splits)

end
