(* ===== verification/DxeAllocate.thy ===== *)
theory DxeAllocate
  imports DxePages
begin

text \<open>
  What conversion, promotion and allocation do to the meaning of the map.  The functions between the two
  levels of \<open>CoreFreeMemoryMapStack\<close> are treated once, in the locale \<open>stack_freeing\<close>, which states what they
  rely on; it holds of the nested call, which does nothing, and then of \<open>CoreFreeMemoryMapStack\<close> itself.
\<close>

subsection \<open>What the memory services may take for themselves\<close>

text \<open>
  Beside what it is asked for, a service may take free pages for descriptors, and may add memory that
  was not in the map before; it never changes what is allocated.
\<close>

type_synonym memory_types = "UINT64 \<Rightarrow> (EFI_MEMORY_TYPE \<times> UINT64) option"

definition claims :: "memory_types \<Rightarrow> memory_types \<Rightarrow> bool" where
  "claims m m' \<longleftrightarrow> (\<forall>a. m' a = m a \<or>
     (\<exists>attr. m a = Some (EfiConventionalMemory, attr) \<and> m' a = Some (EfiBootServicesData, attr)) \<or>
     (\<exists>attr. m a = None \<and> (m' a = Some (EfiConventionalMemory, attr) \<or> m' a = Some (EfiBootServicesData, attr))))"

lemma claims_refl [simp, intro]: "claims m m"
  by (simp add: claims_def)

lemma claims_trans: "claims m n \<Longrightarrow> claims n p \<Longrightarrow> claims m p"
  unfolding claims_def by (metis (no_types, opaque_lifting) Pair_inject memory_type_defs(2,5) numeral_eq_iff option.distinct(1)
    option.inject semiring_norm(83))

definition spans :: "UINT64 \<Rightarrow> UINT64 \<Rightarrow> UINT64 \<Rightarrow> bool" where
  "spans s e a \<longleftrightarrow> s \<le> a \<and> a \<le> e"

text \<open>Ranges that can still be promoted are pages that are not in the map, and do not overlap.\<close>

definition gcd_ok :: "EFI_GCD_MAP_ENTRY list \<Rightarrow> memory_types \<Rightarrow> bool" where
  "gcd_ok gs m \<longleftrightarrow> (\<forall>i < length gs. promotable (gs ! i) \<longrightarrow> page_range (GcdBaseAddress (gs ! i)) (EndAddress (gs ! i)) \<and>
     (\<forall>a. spans (GcdBaseAddress (gs ! i)) (EndAddress (gs ! i)) a \<longrightarrow> m a = None \<and>
        (\<forall>j < length gs. j \<noteq> i \<longrightarrow> promotable (gs ! j) \<longrightarrow> \<not> spans (GcdBaseAddress (gs ! j)) (EndAddress (gs ! j)) a)))"

lemma gcd_okD:
  assumes "gcd_ok gs m" "i < length gs" "promotable (gs ! i)"
  shows "page_range (GcdBaseAddress (gs ! i)) (EndAddress (gs ! i))"
    "spans (GcdBaseAddress (gs ! i)) (EndAddress (gs ! i)) a \<Longrightarrow> m a = None"
    "spans (GcdBaseAddress (gs ! i)) (EndAddress (gs ! i)) a \<Longrightarrow> j < length gs \<Longrightarrow> j \<noteq> i \<Longrightarrow> promotable (gs ! j) \<Longrightarrow>
     \<not> spans (GcdBaseAddress (gs ! j)) (EndAddress (gs ! j)) a"
  using assms unfolding gcd_ok_def by blast+

abbreviation types_of :: "dxe_memory \<Rightarrow> memory_types" where
  "types_of s \<equiv> mem_at (gMemoryMap s)"

definition locked_ok :: "dxe_memory \<Rightarrow> bool" where
  "locked_ok s \<longleftrightarrow> map_ok s \<and> gcd_ok (mGcdMemorySpaceMap s) (types_of s) \<and> gMemoryLock s"

definition same_locks :: "dxe_memory \<Rightarrow> dxe_memory \<Rightarrow> bool" where
  "same_locks s s' \<longleftrightarrow> gMemoryLock s' = gMemoryLock s \<and> mGcdMemorySpaceLock s' = mGcdMemorySpaceLock s \<and>
     mFreeMapStack s' = mFreeMapStack s \<and> length (mGcdMemorySpaceMap s') = length (mGcdMemorySpaceMap s)"

text \<open>While \<open>CoreFreeMemoryMapStack\<close> runs, the others only push on the stack.\<close>

definition same_level :: "dxe_memory \<Rightarrow> dxe_memory \<Rightarrow> bool" where
  "same_level s s' \<longleftrightarrow> same_locks s s' \<and> (mFreeMapStack s \<noteq> 0 \<longrightarrow> mMapDepth s \<le> mMapDepth s')"

definition evolves :: "dxe_memory \<Rightarrow> dxe_memory \<Rightarrow> bool" where
  "evolves s s' \<longleftrightarrow> claims (types_of s) (types_of s') \<and> same_level s s'"

lemma evolves_refl [simp]: "evolves s s"
  by (simp add: evolves_def same_level_def same_locks_def)

lemma evolves_trans: "evolves r s \<Longrightarrow> evolves s t \<Longrightarrow> evolves r t"
  by (auto simp: evolves_def same_level_def same_locks_def intro: claims_trans)

subsection \<open>Conversion\<close>

lemma covers_piece: "Start e \<le> st \<Longrightarrow> r \<le> End e \<Longrightarrow> spans st r a \<Longrightarrow> covers e a"
  by (auto simp: covers_def spans_def)

lemma gcd_ok_mono: "gcd_ok gs m \<Longrightarrow> (\<And>a. m a = None \<Longrightarrow> m' a = None) \<Longrightarrow> gcd_ok gs m'"
  unfolding gcd_ok_def by blast

text \<open>Counting pages changes the statistics only.\<close>

definition only_statistics :: "dxe_memory \<Rightarrow> dxe_memory \<Rightarrow> bool" where
  "only_statistics s s' \<longleftrightarrow> s' = s\<lparr>mMemoryTypeStatistics := mMemoryTypeStatistics s', gMemoryTypeInformation := gMemoryTypeInformation s'\<rparr>"

lemma only_statistics_refl [simp]: "only_statistics s s"
  by (simp add: only_statistics_def)

lemma only_statistics_trans: "only_statistics r s \<Longrightarrow> only_statistics s t \<Longrightarrow> only_statistics r t"
  by (cases r; cases s; cases t) (simp add: only_statistics_def)

lemma only_statistics_fields:
  assumes "only_statistics s s'"
  shows "gMemoryMap s' = gMemoryMap s" "mMapDepth s' = mMapDepth s" "mFreeMapStack s' = mFreeMapStack s"
    "mMemoryMapKey s' = mMemoryMapKey s" "mFreeMemoryMapEntries s' = mFreeMemoryMapEntries s"
    "mGcdMemorySpaceMap s' = mGcdMemorySpaceMap s" "gMemoryLock s' = gMemoryLock s" "mGcdMemorySpaceLock s' = mGcdMemorySpaceLock s"
  using assms by (cases s; cases s'; simp add: only_statistics_def)+

lemma CountOldType_only: "CountOldType ty start pages s = Some s' \<Longrightarrow> only_statistics s s'"
  by (auto simp: CountOldType_def only_statistics_def bind_eq_Some_conv split: if_splits)

lemma CountNewType_only: "CountNewType ty start pages s = Some s' \<Longrightarrow> only_statistics s s'"
  by (auto simp: CountNewType_def only_statistics_def bind_eq_Some_conv Let_def split: if_splits)

lemma set_update_le: "x \<in> set (xs[i := y]) \<Longrightarrow> x = y \<or> x \<in> set xs"
  using set_update_subset_insert [of xs i y] by auto

lemma CountOldType_returns:
  assumes "bins_ok s"
  shows "\<exists>s'. CountOldType ty start pages s = Some s' \<and> bins_ok s'"
proof (cases "ty < EfiMaxMemoryType")
  case True
  then have i: "unat ty < length (mMemoryTypeStatistics s)"
    using assms by (simp add: bins_ok_def EfiMaxMemoryType_def word_less_nat_alt)
  then have "InformationIndex (mMemoryTypeStatistics s ! unat ty) < length (gMemoryTypeInformation s)"
    using assms by (simp add: bins_ok_def)
  then show ?thesis using i True assms by (auto simp: CountOldType_def rd_def wr_def bins_ok_def dest!: set_update_le)
qed (use assms in \<open>simp add: CountOldType_def\<close>)

lemma CountNewType_returns:
  assumes "bins_ok s"
  shows "\<exists>s'. CountNewType ty start pages s = Some s' \<and> bins_ok s'"
proof (cases "ty < EfiMaxMemoryType")
  case True
  then have i: "unat ty < length (mMemoryTypeStatistics s)"
    using assms by (simp add: bins_ok_def EfiMaxMemoryType_def word_less_nat_alt)
  then have "InformationIndex (mMemoryTypeStatistics s ! unat ty) < length (gMemoryTypeInformation s)"
    using assms by (simp add: bins_ok_def)
  then show ?thesis using i True assms by (auto simp: CountNewType_def rd_def wr_def bins_ok_def Let_def dest!: set_update_le)
qed (use assms in \<open>simp add: CountNewType_def\<close>)

text \<open>The entry's part of the range, with its new type or its new attributes.\<close>

definition NewEntry :: "bool \<Rightarrow> EFI_MEMORY_TYPE \<Rightarrow> UINT64 \<Rightarrow> EFI_MEMORY_TYPE \<times> UINT64 \<Rightarrow> EFI_MEMORY_TYPE \<times> UINT64" where
  "NewEntry changingType newType newAttributes = (\<lambda>(ty, attr). if changingType then (newType, attr) else (ty, newAttributes))"

text \<open>The conversion of a range before \<open>freeStack\<close> moves the new nodes.\<close>

lemma ConvertRange_pushed:
  assumes c: "ConvertRange freeStack xs e ys st r pages ct nt na s = Some s'"
    and s: "map_ok s" "gMemoryMap s = xs @ e # ys" and r: "Start e \<le> st" "r \<le> End e" "page_range st r"
  shows "\<exists>t. freeStack t = Some s' \<and> map_ok t \<and> types_of t = over st r (NewEntry ct nt na (Type e, Attribute e)) (types_of s) \<and>
    mMapDepth s < mMapDepth t \<and> mMapDepth t \<le> mMapDepth s + (if Start e \<noteq> st \<and> End e \<noteq> r then 2 else 1) \<and>
    length (gMemoryMap t) \<le> length (gMemoryMap s) + (if Start e = st then 0 else 1) + (if End e = r then 0 else 1) \<and>
    pooled (gMemoryMap t) + (if Start e = st \<and> End e = r \<and> FromPages e then 1 else 0) \<le> pooled (gMemoryMap s) \<and>
    descriptors t = descriptors s \<and> mMemoryMapKey t = mMemoryMapKey s + 1 \<and> same_level s t \<and> mGcdMemorySpaceMap t = mGcdMemorySpaceMap s"
proof -
  have m: "entries_ok (xs @ e # ys)" "slots_ok (mMapDepth s) (xs @ e # ys)" "sorted_wrt below (xs @ e # ys)"
    using s by (simp_all add: map_ok_def)
  let ?old = "xs @ e # ys"
  obtain s1 where s1: "(if ct then do { u \<leftarrow> CountOldType (Type e) st pages s; CountNewType nt st pages u } else Some s) = Some s1"
    using c by (auto simp: ConvertRange_def bind_eq_Some_conv)
  then have o: "only_statistics s s1"
    by (auto simp: bind_eq_Some_conv split: if_splits intro: only_statistics_trans CountOldType_only CountNewType_only)
  note f = only_statistics_fields [OF o]
  obtain xs' e' ys' d where p: "PullOut st r xs e ys (mMapDepth s) = Some (xs', e', ys', d)"
    using c by (auto simp: ConvertRange_def s1 f(2) bind_eq_Some_conv)
  let ?s2 = "s1\<lparr>gMemoryMap := kept xs' e' ys', mMapDepth := d,
      mFreeMemoryMapEntries := mFreeMemoryMapEntries s1 + (if Start e' = End e' + 1 then RemoveMemoryMapEntry e' else 0)\<rparr>"
  have two: "(if Start e' = End e' + 1
        then s1\<lparr>gMemoryMap := xs' @ ys', mMapDepth := d, mFreeMemoryMapEntries := mFreeMemoryMapEntries s1 + RemoveMemoryMapEntry e'\<rparr>
        else s1\<lparr>gMemoryMap := xs' @ e' # ys', mMapDepth := d\<rparr>) = ?s2"
    by (simp add: kept_def)
  note po = PullOut_ok [OF m r p]
  have pl: "pulled st r (mMapDepth s) ?old d (kept xs' e' ys')" and te: "Type e' = Type e" "Attribute e' = Attribute e"
    and pd: "(if Start e' = End e' + 1 then RemoveMemoryMapEntry e' else 0) + pooled (kept xs' e' ys') = pooled ?old"
    using po by blast+
  have p1: "PullOut st r xs e ys (mMapDepth s1) = Some (xs', e', ys', d)" using p f(2) by simp
  have "do { t \<leftarrow> CoreAddRange (if ct then nt else Type e) st r (if ct then Attribute e else na) ?s2; freeStack t } = Some s'"
    using c unfolding ConvertRange_def s1 bind.bind_lunit p1 prod.case two [symmetric]
    by (simp add: te p1 Let_def split del: if_split cong: if_cong)
  then obtain t where t: "CoreAddRange (if ct then nt else Type e) st r (if ct then Attribute e else na) ?s2 = Some t" "freeStack t = Some s'"
    by (auto simp: bind_eq_Some_conv)
  have ok: "map_ok ?s2" "\<forall>g \<in> set (gMemoryMap ?s2). apart_ranges st r g" using pl by (simp_all add: pulled_def map_ok_def)
  note ar = CoreAddRange_ok [OF t(1) ok(1) r(3) ok(2)]
  have v: "(if ct then nt else Type e, if ct then Attribute e else na) = NewEntry ct nt na (Type e, Attribute e)"
    by (simp add: NewEntry_def)
  have "types_of ?s2 = (\<lambda>a. if st \<le> a \<and> a \<le> r then None else types_of s a)" using pl s(2) by (auto simp: pulled_def fun_eq_iff)
  then have "types_of t = over st r (NewEntry ct nt na (Type e, Attribute e)) (types_of s)"
    using ar v by (auto simp: over_def fun_eq_iff)
  moreover have "descriptors ?s2 = descriptors s" using pd s(2) f(5) by (simp add: descriptors_def)
  moreover have "mMapDepth s \<le> d" "d = mMapDepth s + (if Start e \<noteq> st \<and> End e \<noteq> r then 1 else 0)"
    using pl PullOut_size(1) [OF p] by (simp_all add: pulled_def)
  moreover have "length (gMemoryMap t) \<le> Suc (length (kept xs' e' ys'))" "pooled (gMemoryMap t) \<le> pooled (kept xs' e' ys')"
    using CoreAddRange_size [OF t(1)] by simp_all
  then have "length (gMemoryMap t) \<le> length (gMemoryMap s) + (if Start e = st then 0 else 1) + (if End e = r then 0 else 1)"
    "pooled (gMemoryMap t) + (if Start e = st \<and> End e = r \<and> FromPages e then 1 else 0) \<le> pooled (gMemoryMap s)"
    using PullOut_size(2,3) [OF p] unfolding s(2) by (simp_all split del: if_split)
  moreover have "only_map ?s2 t" using ar by blast
  ultimately show ?thesis
    using ar t(2) only_map_fields [of ?s2 t] f by (intro exI [of _ t]) (simp add: same_level_def same_locks_def)
qed

locale stack_freeing =
  fixes freeStack :: "dxe_memory \<Rightarrow> dxe_memory option" and settled :: "dxe_memory \<Rightarrow> bool"
  assumes freed: "locked_ok s \<Longrightarrow> freeStack s = Some s' \<Longrightarrow> locked_ok s' \<and> evolves s s' \<and> settled s'"
    and settled_lock: "settled (s\<lparr>mGcdMemorySpaceLock := b\<rparr>) = settled s"
    and settled_base: "settled (s\<lparr>mDefaultBaseAddress := a\<rparr>) = settled s"
begin

lemma ConvertRange_ok:
  assumes c: "ConvertRange freeStack xs e ys st r pages ct nt na s = Some s'"
    and s: "locked_ok s" "gMemoryMap s = xs @ e # ys" and r: "Start e \<le> st" "r \<le> End e" "page_range st r"
  shows "locked_ok s' \<and> settled s' \<and> same_level s s' \<and> claims (over st r (NewEntry ct nt na (Type e, Attribute e)) (types_of s)) (types_of s')"
proof -
  have m: "map_ok s" using s(1) by (simp add: locked_ok_def)
  obtain t where t: "freeStack t = Some s'" "map_ok t" "types_of t = over st r (NewEntry ct nt na (Type e, Attribute e)) (types_of s)"
    "same_level s t" "mGcdMemorySpaceMap t = mGcdMemorySpaceMap s" using ConvertRange_pushed [OF c m s(2) r] by blast
  have e: "entries_ok (gMemoryMap s)" "e \<in> set (gMemoryMap s)" using m s(2) by (simp_all add: map_ok_def)
  have on: "types_of s a = Some (Type e, Attribute e)" if "st \<le> a" "a \<le> r" for a
    using mem_at_covers [OF e covers_piece [OF r(1,2)]] that by (simp add: spans_def)
  have "gcd_ok (mGcdMemorySpaceMap t) (types_of t)"
    by (rule gcd_ok_mono [of _ "types_of s"]) (use s(1) t(3,5) on in \<open>auto simp: locked_ok_def over_def\<close>)
  then have "locked_ok t" using s(1) t(2,4) by (simp add: locked_ok_def same_level_def same_locks_def)
  from freed [OF this t(1)] show ?thesis using t(3,4) by (auto simp: evolves_def same_level_def same_locks_def)
qed

end

text \<open>The piece of a range that lies in the entry that covers its start.\<close>

lemma range_piece:
  assumes "page_range (Start e) (End e)" "Start e \<le> st" "st < End e" "st < end"
    and "4096 dvd unat st" "4096 dvd unat (end + 1 :: UINT64)" "r = (if End e < end then End e else end)"
  shows "page_range st r" "r \<le> End e" "r \<le> end" "st < r" "unat (r + 1) = Suc (unat r)" "4096 dvd unat (r + 1)"
proof -
  have u: "unat (r + 1) = Suc (unat r)"
    using assms(1,7) by (intro Suc_word_less) (auto simp: page_range_def split: if_splits)
  show "r \<le> End e" "r \<le> end" "st < r" using assms by (auto split: if_splits)
  show "unat (r + 1) = Suc (unat r)" by (rule u)
  have "Suc (unat (End e)) = unat (End e + 1)" using assms(1) by (simp add: Suc_word_less page_range_def)
  then show "4096 dvd unat (r + 1)" using assms(1,6,7) by (auto simp: page_range_def split: if_splits)
  moreover have "r < 0xFFFFFFFFFFFFFFFF" using assms(1,7) by (auto simp: page_range_def split: if_splits)
  ultimately show "page_range st r" using assms(5) \<open>st < r\<close> u by (simp add: page_range_def)
qed

lemma CoreConvertPagesEx_loop_done:
  "\<not> st < end \<Longrightarrow> CoreConvertPagesEx_loop freeStack end pages ct nt na st s = Some (EFI_SUCCESS, s)"
  by (simp add: CoreConvertPagesEx_loop.simps)

lemma CoreConvertPagesEx_loop_missing:
  "st < end \<Longrightarrow> FindEntry st (gMemoryMap s) = None \<Longrightarrow>
   CoreConvertPagesEx_loop freeStack end pages ct nt na st s = Some (EFI_NOT_FOUND, s)"
  by (simp add: CoreConvertPagesEx_loop.simps)

lemma CoreConvertPagesEx_loop_step:
  assumes "st < end" "FindEntry st (gMemoryMap s) = Some (xs, e, ys)"
  shows "CoreConvertPagesEx_loop freeStack end pages ct nt na st s =
    (if ct \<and> (nt \<noteq> EfiConventionalMemory \<and> End e < end \<or> (nt = EfiConventionalMemory) = (Type e = EfiConventionalMemory))
     then Some (EFI_NOT_FOUND, s)
     else do {
       s \<leftarrow> ConvertRange freeStack xs e ys st (if End e < end then End e else end) pages ct nt na s;
       CoreConvertPagesEx_loop freeStack end pages ct nt na ((if End e < end then End e else end) + 1) s })"
  using assms by (subst CoreConvertPagesEx_loop.simps) (auto simp: Let_def)

text \<open>Memory is allocated from a single free entry, or the map stays as it is.\<close>

context stack_freeing begin

lemma allocate_loop:
  assumes c: "CoreConvertPagesEx_loop freeStack end pages True nt na st s = Some (status, s')" and nt: "nt \<noteq> EfiConventionalMemory"
    and s: "locked_ok s" and st: "4096 dvd unat st" "4096 dvd unat (end + 1)" "st < end"
  shows "status = EFI_NOT_FOUND \<and> s' = s \<or>
    status = EFI_SUCCESS \<and> locked_ok s' \<and> settled s' \<and> same_level s s' \<and> page_range st end \<and>
    (\<exists>attr. (\<forall>a. spans st end a \<longrightarrow> types_of s a = Some (EfiConventionalMemory, attr)) \<and>
       claims (over st end (nt, attr) (types_of s)) (types_of s'))"
proof (cases "FindEntry st (gMemoryMap s)")
  case None
  then show ?thesis using c st(3) by (simp add: CoreConvertPagesEx_loop_missing)
next
  case (Some f)
  obtain xs e ys where f: "f = (xs, e, ys)" by (metis prod_cases3)
  note step = CoreConvertPagesEx_loop_step [OF st(3) Some [unfolded f], where freeStack = freeStack]
  note fe = FindEntry_Some [OF Some [unfolded f]]
  have ent: "entries_ok (gMemoryMap s)" "e \<in> set (gMemoryMap s)" using s fe by (simp_all add: locked_ok_def map_ok_def)
  have pe: "page_range (Start e) (End e)" using ent by (simp add: entries_ok_def)
  show ?thesis
  proof (cases "End e < end \<or> Type e \<noteq> EfiConventionalMemory")
    case True
    then show ?thesis using c nt by (auto simp: step split: if_splits)
  next
    case False
    then have r: "end = (if End e < end then End e else end)" by simp
    have pc: "page_range st end" "end \<le> End e" "unat (end + 1) = Suc (unat end)"
      using range_piece [OF pe _ _ st(3,1,2) r] fe by blast+
    have "\<not> end + 1 < end" using pc(3) by (simp add: word_less_nat_alt)
    then obtain s2 where s2: "ConvertRange freeStack xs e ys st end pages True nt na s = Some s2" "status = EFI_SUCCESS" "s' = s2"
      using c nt False by (auto simp: step CoreConvertPagesEx_loop_done bind_eq_Some_conv)
    have "types_of s a = Some (EfiConventionalMemory, Attribute e)" if "spans st end a" for a
      using mem_at_covers [OF ent covers_piece [OF _ pc(2) that]] fe False by simp
    then show ?thesis
      using ConvertRange_ok [OF s2(1) s conjunct1 [OF fe] _ pc(2,1)] fe s2(2,3) pc(1) by (auto simp: NewEntry_def)
  qed
qed

end

text \<open>Freeing, and changing attributes, go through all the entries that the range meets.\<close>

definition converted :: "bool \<Rightarrow> EFI_MEMORY_TYPE \<Rightarrow> UINT64 \<Rightarrow> UINT64 \<Rightarrow> UINT64 \<Rightarrow> memory_types \<Rightarrow> memory_types" where
  "converted ct nt na lo to m a = (if lo \<le> a \<and> a < to then map_option (NewEntry ct nt na) (m a) else m a)"

lemma converted_nothing [simp]: "converted ct nt na lo lo m = m"
  by (auto simp: converted_def fun_eq_iff)

lemma claims_extend:
  assumes c: "claims (converted ct nt na lo st m) cur" and nt: "ct \<longrightarrow> nt = EfiConventionalMemory"
    and r: "lo \<le> st" "st < r" "unat (r + 1) = Suc (unat r)" and on: "\<And>a. spans st r a \<Longrightarrow> cur a = Some v"
  shows "claims (converted ct nt na lo (r + 1) m) (over st r (NewEntry ct nt na v) cur)"
  unfolding claims_def
proof
  fix a
  have r1: "a < r + 1 \<longleftrightarrow> a \<le> r" using r(3) by (auto simp: word_less_nat_alt word_le_nat_alt)
  obtain ty attr where v: "v = (ty, attr)" by (metis prod.exhaust)
  note ca = c [unfolded claims_def, rule_format, of a]
  show "over st r (NewEntry ct nt na v) cur a = converted ct nt na lo (r + 1) m a \<or>
    (\<exists>attr. converted ct nt na lo (r + 1) m a = Some (EfiConventionalMemory, attr) \<and>
      over st r (NewEntry ct nt na v) cur a = Some (EfiBootServicesData, attr)) \<or>
    (\<exists>attr. converted ct nt na lo (r + 1) m a = None \<and> (over st r (NewEntry ct nt na v) cur a = Some (EfiConventionalMemory, attr) \<or>
      over st r (NewEntry ct nt na v) cur a = Some (EfiBootServicesData, attr)))"
  proof (cases "spans st r a")
    case True
    then have "converted ct nt na lo st m a = m a" "converted ct nt na lo (r + 1) m a = map_option (NewEntry ct nt na) (m a)"
      "over st r (NewEntry ct nt na v) cur a = Some (NewEntry ct nt na v)" "cur a = Some v"
      using r(1) r1 on [OF True] by (auto simp: spans_def converted_def over_def)
    then show ?thesis using ca nt by (cases ct; cases "m a") (auto simp: NewEntry_def v)
  next
    case False
    then have "over st r (NewEntry ct nt na v) cur a = cur a" "converted ct nt na lo (r + 1) m a = converted ct nt na lo st m a"
      using r(1,2) r1 by (auto simp: spans_def converted_def over_def)
    then show ?thesis using ca by simp
  qed
qed

lemma page_Suc: "4096 dvd unat ((x :: UINT64) + 1) \<longleftrightarrow> 4096 dvd Suc (unat x)"
  by (simp add: unat_word_ariths dvd_mod_iff)

lemma not_page_Suc: "4096 dvd (n :: nat) \<Longrightarrow> \<not> 4096 dvd Suc n"
  using dvd_diff_nat [of 4096 "Suc n" n] by auto

context stack_freeing begin

lemma convert_loop:
  assumes nt: "ct \<longrightarrow> nt = EfiConventionalMemory" and al: "4096 dvd unat (end + 1)"
  shows "CoreConvertPagesEx_loop freeStack end pages ct nt na st s = Some (status, s') \<Longrightarrow> locked_ok s \<Longrightarrow> 4096 dvd unat st \<Longrightarrow>
    claims (converted ct nt na lo st m) (types_of s) \<Longrightarrow> lo \<le> st \<Longrightarrow> st \<le> end \<or> st = end + 1 \<Longrightarrow>
    locked_ok s' \<and> (settled s \<longrightarrow> settled s') \<and> same_level s s' \<and> (\<exists>p. lo \<le> p \<and> claims (converted ct nt na lo p m) (types_of s') \<and>
      (status = EFI_SUCCESS \<and> p = end + 1 \<or> status = EFI_NOT_FOUND \<and> st \<le> p \<and> p \<le> end))"
proof (induction "unat end - unat st" arbitrary: st s rule: less_induct)
  case less
  show ?case
  proof (cases "st < end")
    case False
    have "st \<noteq> end" using less.prems(3) al not_page_Suc [of "unat end"] by (auto simp: page_Suc)
    then show ?thesis using less.prems False by (auto simp: CoreConvertPagesEx_loop_done same_level_def same_locks_def)
  next
    case True
    show ?thesis
    proof (cases "FindEntry st (gMemoryMap s)")
      case None
      then show ?thesis using less.prems True by (auto simp: CoreConvertPagesEx_loop_missing same_level_def same_locks_def)
    next
      case (Some f)
      obtain xs e ys where f: "f = (xs, e, ys)" by (metis prod_cases3)
      note step = CoreConvertPagesEx_loop_step [OF True Some [unfolded f], where freeStack = freeStack]
      note fe = FindEntry_Some [OF Some [unfolded f]]
      have ent: "entries_ok (gMemoryMap s)" "e \<in> set (gMemoryMap s)" using less.prems(2) fe by (simp_all add: locked_ok_def map_ok_def)
      define r where "r = (if End e < end then End e else end)"
      have "page_range (Start e) (End e)" using ent by (simp add: entries_ok_def)
      note pc = range_piece [OF this _ _ True less.prems(3) al r_def]
      have p: "page_range st r" "r \<le> End e" "r \<le> end" "st < r" "unat (r + 1) = Suc (unat r)" "4096 dvd unat (r + 1)"
        using pc fe by auto
      show ?thesis
      proof (cases "ct \<and> (nt \<noteq> EfiConventionalMemory \<and> End e < end \<or> (nt = EfiConventionalMemory) = (Type e = EfiConventionalMemory))")
        case True
        then show ?thesis using less.prems \<open>st < end\<close> by (auto simp: step same_level_def same_locks_def)
      next
        case False
        obtain t where t: "ConvertRange freeStack xs e ys st r pages ct nt na s = Some t"
          "CoreConvertPagesEx_loop freeStack end pages ct nt na (r + 1) t = Some (status, s')"
          using less.prems(1) False unfolding step r_def [symmetric] by (auto simp: bind_eq_Some_conv)
        note cv = ConvertRange_ok [OF t(1) less.prems(2) conjunct1 [OF fe] _ p(2,1)]
        have on: "types_of s a = Some (Type e, Attribute e)" if "spans st r a" for a
          using mem_at_covers [OF ent covers_piece [OF _ p(2) that]] fe by simp
        have "claims (converted ct nt na lo (r + 1) m) (types_of t)"
          using claims_trans [OF claims_extend [OF less.prems(4) nt less.prems(5) p(4,5) on]] cv fe by blast
        moreover have "unat end - unat (r + 1) < unat end - unat st" "lo \<le> r + 1" "st \<le> r + 1"
          using p(3-5) less.prems(5) by (auto simp: word_less_nat_alt word_le_nat_alt)
        moreover have "r + 1 \<le> end \<or> r + 1 = end + 1"
          using p(5) le_imp_less_or_eq [OF p(3)] by (auto simp: word_less_nat_alt word_le_nat_alt)
        ultimately have "locked_ok s' \<and> (settled t \<longrightarrow> settled s') \<and> same_level t s' \<and> (\<exists>q. lo \<le> q \<and> claims (converted ct nt na lo q m) (types_of s') \<and>
            (status = EFI_SUCCESS \<and> q = end + 1 \<or> status = EFI_NOT_FOUND \<and> r + 1 \<le> q \<and> q \<le> end))"
          using less.hyps [of "r + 1" t] t(2) cv p(6) fe by blast
        moreover have "same_level s t" "settled t" using cv fe by blast+
        ultimately show ?thesis using \<open>st \<le> r + 1\<close> by (auto simp: same_level_def same_locks_def intro: order_trans)
      qed
    qed
  qed
qed

end

text \<open>The two uses of \<open>CoreConvertPages\<close>.\<close>

definition EndOf :: "UINT64 \<Rightarrow> UINT64 \<Rightarrow> UINT64" where
  "EndOf start pages = start + push_bit 12 pages - 1"

lemma EndOf_aligned:
  assumes "4096 dvd unat start" shows "4096 dvd unat (EndOf start pages + 1)"
proof -
  have "4096 dvd unat (push_bit 12 pages :: UINT64)"
    by (simp add: push_bit_eq_mult unat_word_ariths dvd_mod_iff)
  then show ?thesis using assms by (simp add: EndOf_def unat_word_ariths dvd_mod_iff)
qed

context stack_freeing begin

lemma CoreConvertPages_allocates:
  assumes c: "CoreConvertPages freeStack start pages ty s = Some (status, s')" and ty: "ty \<noteq> EfiConventionalMemory" and s: "locked_ok s"
  shows "status \<in> {EFI_INVALID_PARAMETER, EFI_NOT_FOUND} \<and> s' = s \<or>
    status = EFI_SUCCESS \<and> locked_ok s' \<and> settled s' \<and> same_level s s' \<and> page_range start (EndOf start pages) \<and>
    (\<exists>attr. (\<forall>a. spans start (EndOf start pages) a \<longrightarrow> types_of s a = Some (EfiConventionalMemory, attr)) \<and>
       claims (over start (EndOf start pages) (ty, attr) (types_of s)) (types_of s'))"
proof (cases "pages = 0 \<or> start AND EFI_PAGE_MASK \<noteq> 0 \<or> start \<ge> EndOf start pages")
  case True
  then show ?thesis using c s by (auto simp: CoreConvertPages_def CoreConvertPagesEx_def EndOf_def locked_ok_def)
next
  case False
  then have l: "CoreConvertPagesEx_loop freeStack (EndOf start pages) pages True ty 0 start s = Some (status, s')"
    and st: "4096 dvd unat start" "start < EndOf start pages"
    using c s by (auto simp: CoreConvertPages_def CoreConvertPagesEx_def EndOf_def locked_ok_def page_aligned Let_def not_le split: if_splits)
  show ?thesis using allocate_loop [OF l ty s st(1) EndOf_aligned [OF st(1)] st(2)] by auto
qed

lemma CoreConvertPages_frees:
  assumes c: "CoreConvertPages freeStack start pages EfiConventionalMemory s = Some (status, s')" and s: "locked_ok s"
  shows "status = EFI_INVALID_PARAMETER \<and> s' = s \<or>
    locked_ok s' \<and> (settled s \<longrightarrow> settled s') \<and> same_level s s' \<and> start < EndOf start pages \<and>
    (\<exists>p. start \<le> p \<and> claims (converted True EfiConventionalMemory 0 start p (types_of s)) (types_of s') \<and>
      (status = EFI_SUCCESS \<and> p = EndOf start pages + 1 \<or> status = EFI_NOT_FOUND \<and> p \<le> EndOf start pages))"
proof (cases "pages = 0 \<or> start AND EFI_PAGE_MASK \<noteq> 0 \<or> start \<ge> EndOf start pages")
  case True
  then show ?thesis using c s by (auto simp: CoreConvertPages_def CoreConvertPagesEx_def EndOf_def locked_ok_def)
next
  case False
  then have l: "CoreConvertPagesEx_loop freeStack (EndOf start pages) pages True EfiConventionalMemory 0 start s = Some (status, s')"
    and st: "4096 dvd unat start" "start < EndOf start pages"
    using c s by (auto simp: CoreConvertPages_def CoreConvertPagesEx_def EndOf_def locked_ok_def page_aligned Let_def not_le split: if_splits)
  have "claims (converted True EfiConventionalMemory 0 start start (types_of s)) (types_of s)" by simp
  from convert_loop [OF _ EndOf_aligned [OF st(1)] l s st(1) this order_refl disjI1 [OF less_imp_le [OF st(2)]]] st(2)
  show ?thesis by auto
qed

end

subsection \<open>Promotion\<close>

lemma PromoteEntry_settled [simp]: "\<not> promotable (PromoteEntry g)"
  by (simp add: promotable_def PromoteEntry_def EfiGcdMemoryTypeReserved_def EfiGcdMemoryTypeMoreReliable_def
    EfiGcdMemoryTypeSystemMemory_def)

lemma promote_range:
  assumes s: "map_ok s" "gcd_ok (mGcdMemorySpaceMap s) (types_of s)" and i: "i < length (mGcdMemorySpaceMap s)"
    and g: "g = mGcdMemorySpaceMap s ! i" "promotable g"
    and t: "CoreAddRange EfiConventionalMemory (GcdBaseAddress g) (EndAddress g) attr
      (s\<lparr>mGcdMemorySpaceMap := (mGcdMemorySpaceMap s)[i := PromoteEntry g]\<rparr>) = Some t"
  shows "map_ok t \<and> gcd_ok (mGcdMemorySpaceMap t) (types_of t) \<and> evolves s t \<and>
    mGcdMemorySpaceMap t = (mGcdMemorySpaceMap s)[i := PromoteEntry g]"
proof -
  let ?gs = "mGcdMemorySpaceMap s" and ?b = "GcdBaseAddress g" and ?e = "EndAddress g"
  have r: "page_range ?b ?e" and none: "\<And>a. spans ?b ?e a \<Longrightarrow> types_of s a = None"
    and sep: "\<And>a j. spans ?b ?e a \<Longrightarrow> j < length ?gs \<Longrightarrow> j \<noteq> i \<Longrightarrow> promotable (?gs ! j) \<Longrightarrow>
      \<not> spans (GcdBaseAddress (?gs ! j)) (EndAddress (?gs ! j)) a"
    using gcd_okD [OF s(2) i g(2) [unfolded g(1)]] unfolding g(1) by blast+
  have "apart_ranges ?b ?e f" if f: "f \<in> set (gMemoryMap s)" for f
  proof (rule apart_pointwise)
    fix a assume "covers f a"
    then have "types_of s a \<noteq> None" using f by (auto simp: mem_at_None)
    then show "\<not> (?b \<le> a \<and> a \<le> ?e)" using none by (auto simp: spans_def)
  qed (use r s(1) f in \<open>auto simp: page_range_def map_ok_def entries_ok_def\<close>)
  then have ap: "\<forall>f \<in> set (gMemoryMap (s\<lparr>mGcdMemorySpaceMap := ?gs[i := PromoteEntry g]\<rparr>)). apart_ranges ?b ?e f" by simp
  have m: "map_ok (s\<lparr>mGcdMemorySpaceMap := ?gs[i := PromoteEntry g]\<rparr>)" using s(1) by (simp add: map_ok_def)
  note ar = CoreAddRange_ok [OF t m r ap]
  have types: "types_of t = over ?b ?e (EfiConventionalMemory, attr) (types_of s)" using ar by simp
  have f: "mGcdMemorySpaceMap t = ?gs[i := PromoteEntry g]" "same_level s t"
    using only_map_fields [of "s\<lparr>mGcdMemorySpaceMap := ?gs[i := PromoteEntry g]\<rparr>" t] ar by (simp_all add: same_level_def same_locks_def)
  have "claims (types_of s) (types_of t)" using none by (auto simp: types claims_def over_def spans_def)
  moreover have "gcd_ok (?gs[i := PromoteEntry g]) (types_of t)"
    unfolding gcd_ok_def
  proof (intro allI impI conjI)
    fix j assume j: "j < length (?gs[i := PromoteEntry g])" "promotable (?gs[i := PromoteEntry g] ! j)"
    then have ne: "j \<noteq> i" using i by (cases "j = i") simp_all
    then have gj: "?gs[i := PromoteEntry g] ! j = ?gs ! j" "j < length ?gs" "promotable (?gs ! j)" using j by simp_all
    note D = gcd_okD [OF s(2) gj(2,3)]
    show "page_range (GcdBaseAddress (?gs[i := PromoteEntry g] ! j)) (EndAddress (?gs[i := PromoteEntry g] ! j))"
      unfolding gj(1) by (rule D(1))
    fix a assume "spans (GcdBaseAddress (?gs[i := PromoteEntry g] ! j)) (EndAddress (?gs[i := PromoteEntry g] ! j)) a"
    then have a: "spans (GcdBaseAddress (?gs ! j)) (EndAddress (?gs ! j)) a" unfolding gj(1) .
    then have "types_of s a = None" "\<not> spans ?b ?e a" using D(2) sep [OF _ gj(2) ne gj(3)] by blast+
    then show "types_of t a = None" by (auto simp: types over_def spans_def)
    fix k assume k: "k < length (?gs[i := PromoteEntry g])" "k \<noteq> j" "promotable (?gs[i := PromoteEntry g] ! k)"
    then have "k \<noteq> i" using i by (cases "k = i") simp_all
    then show "\<not> spans (GcdBaseAddress (?gs[i := PromoteEntry g] ! k)) (EndAddress (?gs[i := PromoteEntry g] ! k)) a"
      using D(3) [OF a] k by simp
  qed
  ultimately show ?thesis using ar f by (simp add: evolves_def)
qed

context stack_freeing begin

lemma PromoteMemoryResource_loop_ok:
  assumes "PromoteMemoryResource_loop freeStack is promoted s = Some (p, s')" "locked_ok s" "\<forall>i \<in> set is. i < length (mGcdMemorySpaceMap s)"
  shows "locked_ok s' \<and> evolves s s' \<and> (settled s \<longrightarrow> settled s')"
  using assms
proof (induction "is" arbitrary: promoted s)
  case (Cons i link)
  let ?g = "mGcdMemorySpaceMap s ! i"
  have i: "i < length (mGcdMemorySpaceMap s)" "\<forall>i \<in> set link. i < length (mGcdMemorySpaceMap s)" using Cons.prems(3) by simp_all
  show ?case
  proof (cases "promotable ?g")
    case False
    then show ?thesis using Cons.prems(1) Cons.IH [OF _ Cons.prems(2) i(2)] by (simp add: Let_def)
  next
    case True
    let ?s = "s\<lparr>mGcdMemorySpaceMap := (mGcdMemorySpaceMap s)[i := PromoteEntry ?g]\<rparr>"
    obtain attr t u where t: "CoreAddRange EfiConventionalMemory (GcdBaseAddress ?g) (EndAddress ?g) attr ?s = Some t"
      "freeStack t = Some u" "PromoteMemoryResource_loop freeStack link True u = Some (p, s')"
      using Cons.prems(1) True by (auto simp: Let_def bind_eq_Some_conv)
    have g: "map_ok s" "gcd_ok (mGcdMemorySpaceMap s) (types_of s)" using Cons.prems(2) by (simp_all add: locked_ok_def)
    note pr = promote_range [OF g i(1) refl True t(1)]
    have "gMemoryLock t" using pr Cons.prems(2) by (simp add: locked_ok_def evolves_def same_level_def same_locks_def)
    then have "locked_ok t" using pr unfolding locked_ok_def by blast
    from freed [OF this t(2)] have u: "locked_ok u" "evolves s u" "settled u" using pr by (auto intro: evolves_trans)
    then have "\<forall>i \<in> set link. i < length (mGcdMemorySpaceMap u)" using i(2) by (simp add: evolves_def same_level_def same_locks_def)
    from Cons.IH [OF t(3) u(1) this] show ?thesis using u(2,3) by (auto intro: evolves_trans)
  qed
qed simp

lemma PromoteMemoryResource_ok:
  assumes "PromoteMemoryResource freeStack s = Some (p, s')" "locked_ok s"
  shows "locked_ok s' \<and> evolves s s' \<and> (settled s \<longrightarrow> settled s')"
proof -
  let ?s = "s\<lparr>mGcdMemorySpaceLock := True\<rparr>"
  obtain t where l: "\<not> mGcdMemorySpaceLock s"
    and t: "PromoteMemoryResource_loop freeStack [0..<length (mGcdMemorySpaceMap ?s)] False ?s = Some (p, t)"
    and s': "s' = t\<lparr>mGcdMemorySpaceLock := False\<rparr>"
    using assms(1) by (auto simp: PromoteMemoryResource_def CoreAcquireGcdMemoryLock_def CoreReleaseGcdMemoryLock_def
      bind_eq_Some_conv split: if_splits)
  have "locked_ok ?s" using assms(2) by (simp add: locked_ok_def map_ok_def)
  from PromoteMemoryResource_loop_ok [OF t this] have "locked_ok t" "evolves ?s t" "settled s \<longrightarrow> settled t" by (auto simp: settled_lock)
  then show ?thesis using l by (auto simp: s' settled_lock locked_ok_def map_ok_def evolves_def same_level_def same_locks_def)
qed

end

subsection \<open>Searching and allocating, at both levels\<close>

lemma locked_default_base [simp]: "locked_ok (s\<lparr>mDefaultBaseAddress := b\<rparr>) = locked_ok s"
  by (simp add: locked_ok_def map_ok_def)

lemma evolves_default_base: "evolves s (s\<lparr>mDefaultBaseAddress := b\<rparr>)"
  by (simp add: evolves_def same_level_def same_locks_def)

lemma FindFreePages_bins_ok:
  assumes "FindFreePages_bins mx pages ty al s = Some (start, t)"
  shows "evolves s t" "locked_ok s \<Longrightarrow> locked_ok t" "gMemoryMap t = gMemoryMap s" "t = s \<or> (\<exists>b. t = s\<lparr>mDefaultBaseAddress := b\<rparr>)"
proof -
  show t: "t = s \<or> (\<exists>b. t = s\<lparr>mDefaultBaseAddress := b\<rparr>)"
    using assms by (auto simp: FindFreePages_bins_def Let_def bind_eq_Some_conv split: if_splits)
  then show "evolves s t" "locked_ok s \<Longrightarrow> locked_ok t" "gMemoryMap t = gMemoryMap s" by (auto simp: evolves_default_base)
qed

context stack_freeing begin

lemma FindFreePages_ok:
  assumes "FindFreePages freeStack maxAddress pages ty alignment s = Some r" "locked_ok s"
  shows "locked_ok (snd r) \<and> evolves s (snd r) \<and> (settled s \<longrightarrow> settled (snd r))"
proof -
  let ?P = "\<lambda>fs (mx :: UINT64) (pg :: UINT64) (ty :: UINT32) (al :: UINT64) s r. fs = freeStack \<longrightarrow> locked_ok s \<longrightarrow> locked_ok (snd r) \<and> evolves s (snd r) \<and> (settled s \<longrightarrow> settled (snd r))"
  have "?P freeStack maxAddress pages ty alignment s r"
  proof (rule FindFreePages.raw_induct [where P = ?P, OF _ assms(1)], intro impI)
    fix ff fs and mx pg :: UINT64 and ty :: UINT32 and al :: UINT64 and s and r :: "UINT64 \<times> dxe_memory"
    assume IH: "\<And>fs mx pg ty al s r. ff fs mx pg ty al s = Some r \<Longrightarrow> ?P fs mx pg ty al s r"
      and r: "FindFreePages_bins mx pg ty al s \<bind> (\<lambda>(start, s). if start \<noteq> 0 then Some (start, s)
        else PromoteMemoryResource fs s \<bind> (\<lambda>(promoted, s). if promoted then ff fs mx pg ty al s else Some (0, s))) = Some r"
      and fs: "fs = freeStack" and s: "locked_ok s"
    obtain start t where t: "FindFreePages_bins mx pg ty al s = Some (start, t)"
      and r: "(if start \<noteq> 0 then Some (start, t)
        else PromoteMemoryResource fs t \<bind> (\<lambda>(promoted, s). if promoted then ff fs mx pg ty al s else Some (0, s))) = Some r"
      using r by (auto simp: bind_eq_Some_conv)
    note b = FindFreePages_bins_ok [OF t]
    have sb: "settled t = settled s" using b(4) by (auto simp: settled_base)
    show "locked_ok (snd r) \<and> evolves s (snd r) \<and> (settled s \<longrightarrow> settled (snd r))"
    proof (cases "start = 0")
      case True
      then obtain p u where u: "PromoteMemoryResource freeStack t = Some (p, u)"
        "(if p then ff freeStack mx pg ty al u else Some (0, u)) = Some r"
        using r fs by (auto simp: bind_eq_Some_conv)
      note ok = PromoteMemoryResource_ok [OF u(1) b(2) [OF s]]
      have "evolves s u" using b(1) ok by (auto intro: evolves_trans)
      then show ?thesis using IH [of freeStack mx pg ty al u r] u(2) ok sb by (cases p) (auto intro: evolves_trans)
    qed (use r b s sb in auto)
  qed
  then show ?thesis using assms(2) by simp
qed

lemma CoreAllocatePoolPages_ok:
  assumes "CoreAllocatePoolPages freeStack EfiBootServicesData pages alignment s = Some (start, s')" "locked_ok s"
  shows "locked_ok s' \<and> evolves s s'"
proof -
  obtain t where t: "FindFreePages freeStack MAX_ALLOC_ADDRESS pages EfiBootServicesData alignment s = Some (start, t)"
    and r: "start = 0 \<and> s' = t \<or> (\<exists>st. CoreConvertPages freeStack start pages EfiBootServicesData t = Some (st, s'))"
    using assms(1) by (auto simp: CoreAllocatePoolPages_def bind_eq_Some_conv split: if_splits)
  have ok: "locked_ok t" "evolves s t" using FindFreePages_ok [OF t assms(2)] by simp_all
  show ?thesis
  proof (cases "s' = t")
    case False
    then obtain st where c: "CoreConvertPages freeStack start pages EfiBootServicesData t = Some (st, s')" using r by blast
    have ne: "EfiBootServicesData \<noteq> EfiConventionalMemory" by (simp add: memory_type_defs)
    obtain attr where cv: "locked_ok s'" "same_level t s'"
      "\<forall>a. spans start (EndOf start pages) a \<longrightarrow> types_of t a = Some (EfiConventionalMemory, attr)"
      "claims (over start (EndOf start pages) (EfiBootServicesData, attr) (types_of t)) (types_of s')"
      using CoreConvertPages_allocates [OF c ne ok(1)] False by blast
    have "claims (types_of t) (over start (EndOf start pages) (EfiBootServicesData, attr) (types_of t))"
      using cv(3) by (auto simp: claims_def over_def spans_def)
    then have "evolves t s'" using cv(2,4) by (auto simp: evolves_def intro: claims_trans)
    then show ?thesis using ok(2) cv(1) by (auto intro: evolves_trans)
  qed (use ok in simp)
qed

end

text \<open>Below \<open>CoreFreeMemoryMapStack\<close> the nested call does nothing.\<close>

interpretation nested: stack_freeing Some "\<lambda>s. True"
  by unfold_locales simp_all

lemma AllocateMemoryMapEntry_ok:
  assumes "AllocateMemoryMapEntry s = Some (b, s')" "locked_ok s"
  shows "locked_ok s' \<and> evolves s s'"
  using assms nested.CoreAllocatePoolPages_ok [of 1 DEFAULT_PAGE_ALLOCATION_GRANULARITY s]
  by (auto simp: AllocateMemoryMapEntry_def bind_eq_Some_conv locked_ok_def map_ok_def evolves_def same_level_def same_locks_def split: if_splits)

subsection \<open>Moving the stack\<close>

lemma InsertByStart_mid: "\<exists>xs ys. es = xs @ ys \<and> InsertByStart e es = xs @ e # ys"
proof (induction e es rule: InsertByStart.induct)
  case (2 e f es)
  show ?case
  proof (cases "FromPages f \<and> Start f > Start e")
    case True
    then show ?thesis by (intro exI [of _ "[]"] exI [of _ "f # es"]) simp
  next
    case False
    then obtain xs ys where "es = xs @ ys" "InsertByStart e es = xs @ e # ys" using 2 by blast
    then show ?thesis using False by (intro exI [of _ "f # xs"] exI [of _ ys]) auto
  qed
qed simp

lemma InsertByStart_sorted:
  assumes "sorted_wrt below es" "FromPages e" "\<forall>f \<in> set es. apart_entries e f \<and> page_range (Start f) (End f)" "page_range (Start e) (End e)"
  shows "sorted_wrt below (InsertByStart e es)"
  using assms
proof (induction e es rule: InsertByStart.induct)
  case (2 e f es)
  have e: "Start e < End e" and f: "Start f < End f" using "2.prems" by (auto simp: page_range_def)
  show ?case
  proof (cases "FromPages f \<and> Start f > Start e")
    case True
    have "below e g" if "g \<in> set (f # es)" for g
    proof -
      have "Start e < Start g" if "FromPages g"
        using True "2.prems"(1) \<open>g \<in> set (f # es)\<close> that f by (fastforce simp: below_def)
      moreover have "apart_entries e g" "Start g < End g" using "2.prems"(3) that by (auto simp: page_range_def)
      ultimately show ?thesis by (auto simp: below_def apart_entries_def apart_ranges_def)
    qed
    then show ?thesis using True "2.prems"(1) by auto
  next
    case False
    have "below f e" using False "2.prems"(3) e f by (auto simp: below_def apart_entries_def apart_ranges_def not_less)
    moreover have "set (InsertByStart e es) = insert e (set es)" using InsertByStart_mid [of es e] by auto
    ultimately show ?thesis using False 2 by auto
  qed
qed simp

lemma MoveStackEntry_ok:
  assumes g: "locked_ok s" and d: "mMapDepth s \<noteq> 0"
  shows "locked_ok (MoveStackEntry s)" "types_of (MoveStackEntry s) = types_of s" "same_locks s (MoveStackEntry s)"
    "mMapDepth (MoveStackEntry s) = mMapDepth s - 1" "descriptors (MoveStackEntry s) = Suc (descriptors s)"
    "mGcdMemorySpaceMap (MoveStackEntry s) = mGcdMemorySpaceMap s" "mMemoryMapKey (MoveStackEntry s) = mMemoryMapKey s"
proof -
  define n where "n = mMapDepth s - 1"
  have n: "mMapDepth s = Suc n" using d by (simp add: n_def)
  have m: "entries_ok (gMemoryMap s)" "slots_ok (Suc n) (gMemoryMap s)" "sorted_wrt below (gMemoryMap s)"
    using g by (simp_all add: locked_ok_def map_ok_def n)
  have "locked_ok (MoveStackEntry s) \<and> types_of (MoveStackEntry s) = types_of s \<and> same_locks s (MoveStackEntry s) \<and>
    mMapDepth (MoveStackEntry s) = n \<and> descriptors (MoveStackEntry s) = Suc (descriptors s) \<and>
    mGcdMemorySpaceMap (MoveStackEntry s) = mGcdMemorySpaceMap s \<and> mMemoryMapKey (MoveStackEntry s) = mMemoryMapKey s"
  proof (cases "List.extract (\<lambda>e. Slot e = Some n) (gMemoryMap s)")
    case None
    then have "\<forall>e \<in> set (gMemoryMap s). Slot e \<noteq> Some n" by (simp add: extract_None_iff)
    then have "slots_ok n (gMemoryMap s)" using m(2) by (auto simp: slots_ok_def less_Suc_eq)
    moreover have "MoveStackEntry s = s\<lparr>mMapDepth := n, mFreeMemoryMapEntries := mFreeMemoryMapEntries s + 1\<rparr>"
      using None by (simp add: MoveStackEntry_def n)
    ultimately show ?thesis using g m by (simp add: locked_ok_def map_ok_def same_locks_def descriptors_def)
  next
    case (Some f)
    obtain xs e ys where f: "f = (xs, e, ys)" by (metis prod_cases3)
    have es: "gMemoryMap s = xs @ e # ys" "Slot e = Some n" using extract_SomeE [OF Some [unfolded f]] by simp_all
    let ?e = "e\<lparr>Slot := None, FromPages := True\<rparr>"
    note dr = drop_node [OF m [unfolded es(1)]]
    have e: "page_range (Start e) (End e)" "\<forall>f \<in> set (xs @ ys). apart_entries e f" "\<not> FromPages e"
      using m(1,2) es by (auto simp: entries_ok_mid slots_ok_def)
    have sl: "\<forall>f \<in> set (xs @ ys). Slot f \<noteq> Some n" using m(2) es by (auto simp: slots_ok_def other_slot_def sorted_wrt_append)
    obtain us vs where uv: "xs @ ys = us @ vs" "InsertByStart ?e (xs @ ys) = us @ ?e # vs" using InsertByStart_mid by blast
    have ent: "entries_ok (us @ ?e # vs)" using dr(1) e(1,2) by (simp add: entries_ok_mid uv(1) [symmetric] apart_entries_def)
    have so: "sorted_wrt below (us @ ?e # vs)"
      unfolding uv(2) [symmetric] using dr(1,3) e(1,2) by (intro InsertByStart_sorted) (auto simp: entries_ok_def apart_entries_def)
    have "slots_ok n (xs @ ys)" using dr(2) sl by (auto simp: slots_ok_def less_Suc_eq)
    then have sk: "slots_ok n (us @ ?e # vs)" unfolding uv(1) by (auto simp: slots_ok_def sorted_wrt_append other_slot_def)
    have ty: "mem_at (us @ ?e # vs) = types_of s"
    proof
      fix a
      have "covers ?e a = covers e a" by (simp add: covers_def)
      then show "mem_at (us @ ?e # vs) a = types_of s a"
        using mem_at_mid [OF ent, of a] mem_at_mid [OF m(1) [unfolded es(1)], of a] by (simp add: es(1) uv(1))
    qed
    have "pooled (us @ ?e # vs) = Suc (pooled (xs @ e # ys))"
      using e(3) arg_cong [OF uv(1), of pooled] by simp
    moreover have "MoveStackEntry s = s\<lparr>mMapDepth := n, gMemoryMap := us @ ?e # vs\<rparr>"
      using Some f by (simp add: MoveStackEntry_def n uv(2))
    ultimately show ?thesis using g ent so sk ty by (simp add: locked_ok_def map_ok_def same_locks_def descriptors_def es(1))
  qed
  then show "locked_ok (MoveStackEntry s)" "types_of (MoveStackEntry s) = types_of s" "same_locks s (MoveStackEntry s)"
    "mMapDepth (MoveStackEntry s) = mMapDepth s - 1" "descriptors (MoveStackEntry s) = Suc (descriptors s)"
    "mGcdMemorySpaceMap (MoveStackEntry s) = mGcdMemorySpaceMap s" "mMemoryMapKey (MoveStackEntry s) = mMemoryMapKey s"
    by (simp_all add: n_def)
qed

lemma locked_FreeMapStack [simp]: "locked_ok (s\<lparr>mFreeMapStack := n\<rparr>) = locked_ok s"
  by (simp add: locked_ok_def map_ok_def)

lemma locked_FreeEntries [simp]: "locked_ok (s\<lparr>mFreeMemoryMapEntries := n\<rparr>) = locked_ok s"
  by (simp add: locked_ok_def map_ok_def)

lemma same_locks_trans: "same_locks r s \<Longrightarrow> same_locks s t \<Longrightarrow> same_locks r t"
  by (simp add: same_locks_def)

lemma CoreFreeMemoryMapStack_loop_ok:
  assumes "CoreFreeMemoryMapStack_loop s = Some s'" "locked_ok s" "mFreeMapStack s \<noteq> 0"
  shows "locked_ok s' \<and> claims (types_of s) (types_of s') \<and> same_locks s s' \<and> mMapDepth s' = 0"
proof -
  have "locked_ok s \<longrightarrow> mFreeMapStack s \<noteq> 0 \<longrightarrow> locked_ok s' \<and> claims (types_of s) (types_of s') \<and> same_locks s s' \<and> mMapDepth s' = 0"
  proof (rule CoreFreeMemoryMapStack_loop.raw_induct [OF _ assms(1)], intro impI)
    fix loop and s s' :: dxe_memory
    assume IH: "\<And>x y. loop x = Some y \<Longrightarrow> locked_ok x \<longrightarrow> mFreeMapStack x \<noteq> 0 \<longrightarrow>
        locked_ok y \<and> claims (types_of x) (types_of y) \<and> same_locks x y \<and> mMapDepth y = 0"
      and g: "locked_ok s" and busy: "mFreeMapStack s \<noteq> 0"
      and r: "(if mMapDepth s = 0 then Some s
        else AllocateMemoryMapEntry s \<bind> (\<lambda>(allocated, s). loop (if allocated then MoveStackEntry s else s))) = Some s'"
    show "locked_ok s' \<and> claims (types_of s) (types_of s') \<and> same_locks s s' \<and> mMapDepth s' = 0"
    proof (cases "mMapDepth s = 0")
      case False
      obtain b t where t: "AllocateMemoryMapEntry s = Some (b, t)" "loop (if b then MoveStackEntry t else t) = Some s'"
        using r False by (auto simp: bind_eq_Some_conv)
      have a: "locked_ok t" "claims (types_of s) (types_of t)" "same_locks s t" "mMapDepth t \<noteq> 0"
        using AllocateMemoryMapEntry_ok [OF t(1) g] busy False by (auto simp: evolves_def same_level_def)
      have "locked_ok (if b then MoveStackEntry t else t)" "types_of (if b then MoveStackEntry t else t) = types_of t"
        "same_locks t (if b then MoveStackEntry t else t)"
        using MoveStackEntry_ok [OF a(1,4)] a(1) by (simp_all add: same_locks_def)
      moreover from this(3) a(3) busy have "mFreeMapStack (if b then MoveStackEntry t else t) \<noteq> 0"
        by (auto simp: same_locks_def split: if_splits)
      ultimately show ?thesis using IH [OF t(2)] a(2,3) by (auto intro: claims_trans same_locks_trans)
    qed (use r g in \<open>simp add: same_locks_def\<close>)
  qed
  then show ?thesis using assms(2,3) by simp
qed

lemma CoreFreeMemoryMapStack_ok:
  assumes "CoreFreeMemoryMapStack s = Some s'" "locked_ok s"
  shows "locked_ok s' \<and> evolves s s'" "mFreeMapStack s = 0 \<Longrightarrow> mMapDepth s' = 0"
proof -
  have "locked_ok s' \<and> evolves s s' \<and> (mFreeMapStack s = 0 \<longrightarrow> mMapDepth s' = 0)"
  proof (cases "mFreeMapStack s = 0")
    case True
    obtain t where t: "CoreFreeMemoryMapStack_loop (s\<lparr>mFreeMapStack := 1\<rparr>) = Some t" "s' = t\<lparr>mFreeMapStack := mFreeMapStack t - 1\<rparr>"
      using assms True by (auto simp: CoreFreeMemoryMapStack_def locked_ok_def bind_eq_Some_conv)
    have "locked_ok t" "claims (types_of s) (types_of t)" "same_locks (s\<lparr>mFreeMapStack := 1\<rparr>) t" "mMapDepth t = 0"
      using CoreFreeMemoryMapStack_loop_ok [OF t(1)] assms(2) by auto
    then show ?thesis using True t(2) by (auto simp: evolves_def same_level_def same_locks_def)
  next
    case False
    then show ?thesis using assms by (simp add: CoreFreeMemoryMapStack_def locked_ok_def)
  qed
  then show "locked_ok s' \<and> evolves s s'" "mFreeMapStack s = 0 \<Longrightarrow> mMapDepth s' = 0" by blast+
qed

interpretation full: stack_freeing CoreFreeMemoryMapStack "\<lambda>s. mFreeMapStack s = 0 \<longrightarrow> mMapDepth s = 0"
  by unfold_locales
    (use CoreFreeMemoryMapStack_ok in \<open>auto simp: evolves_def same_level_def same_locks_def\<close>)

text \<open>
  The argument \<open>Some\<close> below \<open>CoreFreeMemoryMapStack\<close> is what the function does there.
\<close>

lemma CoreFreeMemoryMapStack_busy: "gMemoryLock s \<Longrightarrow> mFreeMapStack s \<noteq> 0 \<Longrightarrow> CoreFreeMemoryMapStack s = Some s"
  by (simp add: CoreFreeMemoryMapStack_def)

text \<open>With a descriptor for each node on the stack, nothing is taken from the map.\<close>

lemma MoveStackEntry_length: "length (gMemoryMap (MoveStackEntry s)) = length (gMemoryMap s)"
proof (cases "List.extract (\<lambda>e. Slot e = Some (mMapDepth s - 1)) (gMemoryMap s)")
  case (Some f)
  obtain xs e ys where f: "f = (xs, e, ys)" by (metis prod_cases3)
  obtain us vs where "xs @ ys = us @ vs" "InsertByStart (e\<lparr>Slot := None, FromPages := True\<rparr>) (xs @ ys) = us @ e\<lparr>Slot := None, FromPages := True\<rparr> # vs"
    using InsertByStart_mid by blast
  moreover have "length xs + length ys = length us + length vs" using arg_cong [OF calculation(1), of length] by simp
  ultimately show ?thesis using Some f extract_SomeE [OF Some [unfolded f]] by (simp add: MoveStackEntry_def)
qed (simp add: MoveStackEntry_def)

lemma MoveStackEntry_bins [simp]: "bins_ok (MoveStackEntry s) = bins_ok s"
  by (simp add: MoveStackEntry_def bins_ok_def Let_def split: option.split)

lemma CoreFreeMemoryMapStack_loop_returns:
  assumes "locked_ok s" "mMapDepth s \<le> mFreeMemoryMapEntries s"
  shows "\<exists>s'. CoreFreeMemoryMapStack_loop s = Some s' \<and> locked_ok s' \<and> types_of s' = types_of s \<and> same_locks s s' \<and>
    mMapDepth s' = 0 \<and> descriptors s' = descriptors s \<and> mGcdMemorySpaceMap s' = mGcdMemorySpaceMap s \<and>
    mMemoryMapKey s' = mMemoryMapKey s \<and> bins_ok s' = bins_ok s \<and> length (gMemoryMap s') = length (gMemoryMap s)"
  using assms
proof (induction "mMapDepth s" arbitrary: s)
  case 0
  then show ?case by (intro exI [of _ s]) (simp add: CoreFreeMemoryMapStack_loop.simps same_locks_def)
next
  case (Suc n)
  let ?t = "s\<lparr>mFreeMemoryMapEntries := mFreeMemoryMapEntries s - 1\<rparr>"
  have d: "mFreeMemoryMapEntries s \<noteq> 0" "mMapDepth ?t \<noteq> 0" "locked_ok ?t" using Suc by auto
  have a: "AllocateMemoryMapEntry s = Some (True, ?t)" using d(1) by (simp add: AllocateMemoryMapEntry_def)
  note mv = MoveStackEntry_ok [OF d(3,2)]
  have e: "CoreFreeMemoryMapStack_loop s = CoreFreeMemoryMapStack_loop (MoveStackEntry ?t)"
    using Suc.hyps(2) a by (simp add: CoreFreeMemoryMapStack_loop.simps [of s])
  have f: "mFreeMemoryMapEntries (MoveStackEntry ?t) \<ge> mFreeMemoryMapEntries s - 1"
    by (simp add: MoveStackEntry_def Let_def split: option.split)
  have "n = mMapDepth (MoveStackEntry ?t)" "mMapDepth (MoveStackEntry ?t) \<le> mFreeMemoryMapEntries (MoveStackEntry ?t)"
    using Suc.hyps(2) Suc.prems(2) mv(4) f by auto
  from Suc.hyps(1) [OF this(1) mv(1) this(2)] obtain u where
    u: "CoreFreeMemoryMapStack_loop (MoveStackEntry ?t) = Some u" "locked_ok u" "types_of u = types_of (MoveStackEntry ?t)"
      "same_locks (MoveStackEntry ?t) u" "mMapDepth u = 0" "descriptors u = descriptors (MoveStackEntry ?t)"
      "mGcdMemorySpaceMap u = mGcdMemorySpaceMap (MoveStackEntry ?t)" "mMemoryMapKey u = mMemoryMapKey (MoveStackEntry ?t)"
      "bins_ok u = bins_ok (MoveStackEntry ?t)" "length (gMemoryMap u) = length (gMemoryMap (MoveStackEntry ?t))"
    by blast
  have "bins_ok ?t = bins_ok s" by (simp add: bins_ok_def)
  then show ?case unfolding e
    using u mv d(1) MoveStackEntry_length [of ?t] by (intro exI [of _ u]) (simp add: same_locks_def descriptors_def)
qed

lemma CoreFreeMemoryMapStack_returns:
  assumes "locked_ok s" "mFreeMapStack s = 0" "mMapDepth s \<le> mFreeMemoryMapEntries s"
  shows "\<exists>s'. CoreFreeMemoryMapStack s = Some s' \<and> locked_ok s' \<and> types_of s' = types_of s \<and> same_locks s s' \<and>
    mMapDepth s' = 0 \<and> descriptors s' = descriptors s \<and> mGcdMemorySpaceMap s' = mGcdMemorySpaceMap s \<and>
    mMemoryMapKey s' = mMemoryMapKey s \<and> bins_ok s' = bins_ok s \<and> length (gMemoryMap s') = length (gMemoryMap s)"
proof -
  have g: "locked_ok (s\<lparr>mFreeMapStack := 1\<rparr>)" using assms(1) by simp
  obtain u where u: "CoreFreeMemoryMapStack_loop (s\<lparr>mFreeMapStack := 1\<rparr>) = Some u" "locked_ok u"
    "types_of u = types_of (s\<lparr>mFreeMapStack := 1\<rparr>)" "same_locks (s\<lparr>mFreeMapStack := 1\<rparr>) u" "mMapDepth u = 0"
    "descriptors u = descriptors (s\<lparr>mFreeMapStack := 1\<rparr>)" "mGcdMemorySpaceMap u = mGcdMemorySpaceMap (s\<lparr>mFreeMapStack := 1\<rparr>)"
    "mMemoryMapKey u = mMemoryMapKey (s\<lparr>mFreeMapStack := 1\<rparr>)" "bins_ok u = bins_ok (s\<lparr>mFreeMapStack := 1\<rparr>)"
    "length (gMemoryMap u) = length (gMemoryMap (s\<lparr>mFreeMapStack := 1\<rparr>))"
    using CoreFreeMemoryMapStack_loop_returns [OF g] assms(3) by auto
  have "CoreFreeMemoryMapStack s = Some (u\<lparr>mFreeMapStack := mFreeMapStack u - 1\<rparr>)"
    using assms(1,2) u(1) by (simp add: CoreFreeMemoryMapStack_def locked_ok_def)
  then show ?thesis using u(2-) assms(2) by (simp add: same_locks_def descriptors_def bins_ok_def)
qed

end
