(* ===== verification/DxeService.thy ===== *)
theory DxeService
  imports DxeAllocate
begin

text \<open>
  The memory services between calls: \<open>CoreInternalAllocatePages\<close>, \<open>CoreInternalFreePages\<close> and
  \<open>CoreUpdateMemoryAttributes\<close> as steps of a transition relation, with its invariant.
\<close>

subsection \<open>The state between calls\<close>

definition idle :: "dxe_memory \<Rightarrow> bool" where
  "idle s \<longleftrightarrow> map_ok s \<and> gcd_ok (mGcdMemorySpaceMap s) (types_of s) \<and> mMapDepth s = 0 \<and> mFreeMapStack s = 0 \<and>
     \<not> gMemoryLock s \<and> \<not> mGcdMemorySpaceLock s"

text \<open>Then the map is a list of descriptors in the order of their addresses.\<close>

lemma idle_sorted:
  assumes "idle s"
  shows "sorted_wrt (\<lambda>d e. End d < Start e) (gMemoryMap s)" "\<forall>e \<in> set (gMemoryMap s). FromPages e"
proof -
  show pages: "\<forall>e \<in> set (gMemoryMap s). FromPages e" using assms by (auto simp: idle_def map_ok_def slots_ok_def)
  have "sorted_wrt below (gMemoryMap s)" using assms by (simp add: idle_def map_ok_def)
  then show "sorted_wrt (\<lambda>d e. End d < Start e) (gMemoryMap s)"
    by (rule sorted_wrt_mono_rel [rotated]) (use pages in \<open>auto simp: below_def\<close>)
qed

lemma idle_acquire:
  "idle s \<Longrightarrow> CoreAcquireMemoryLock s = Some (s\<lparr>gMemoryLock := True\<rparr>)" "idle s \<Longrightarrow> locked_ok (s\<lparr>gMemoryLock := True\<rparr>)"
  by (auto simp: idle_def CoreAcquireMemoryLock_def locked_ok_def map_ok_def)

lemma error_bits [simp]:
  "EFI_INVALID_PARAMETER AND EFI_ERROR_BIT \<noteq> 0" "EFI_NOT_FOUND AND EFI_ERROR_BIT \<noteq> 0"
  "EFI_OUT_OF_RESOURCES AND EFI_ERROR_BIT \<noteq> 0" "EFI_SUCCESS AND EFI_ERROR_BIT = 0"
  by (simp_all add: EFI_INVALID_PARAMETER_def EFI_NOT_FOUND_def EFI_ERROR_BIT_def EFI_SUCCESS_def EFI_OUT_OF_RESOURCES_def)

text \<open>What holds inside a call: the lock is held and the stack is empty.\<close>

definition in_call :: "dxe_memory \<Rightarrow> dxe_memory \<Rightarrow> bool" where
  "in_call s t \<longleftrightarrow> locked_ok t \<and> mMapDepth t = 0 \<and> mFreeMapStack t = 0 \<and> \<not> mGcdMemorySpaceLock t \<and> claims (types_of s) (types_of t)"

lemma in_call_start: "idle s \<Longrightarrow> in_call s (s\<lparr>gMemoryLock := True\<rparr>)"
  by (simp add: in_call_def idle_acquire) (simp add: idle_def)

lemma in_call_evolves:
  "in_call s t \<Longrightarrow> locked_ok u \<and> evolves t u \<and> ((mFreeMapStack t = 0 \<longrightarrow> mMapDepth t = 0) \<longrightarrow> mFreeMapStack u = 0 \<longrightarrow> mMapDepth u = 0) \<Longrightarrow>
   in_call s u"
  by (auto simp: in_call_def evolves_def same_level_def same_locks_def intro: claims_trans)

lemma in_call_good: "in_call s t \<Longrightarrow> locked_ok t"
  by (simp add: in_call_def)

lemma in_call_release:
  assumes "locked_ok t" "mMapDepth t = 0" "mFreeMapStack t = 0" "\<not> mGcdMemorySpaceLock t" "CoreReleaseMemoryLock t = Some u"
  shows "idle u" "types_of u = types_of t"
  using assms by (auto simp: CoreReleaseMemoryLock_def idle_def locked_ok_def map_ok_def split: if_splits)

lemma RoundPages_X64: "RoundPages pages 0x1000 = pages" "AllocationAlignment ty = 0x1000"
  by (simp_all add: RoundPages_def AllocationAlignment_def EFI_SIZE_TO_PAGES_def RUNTIME_PAGE_ALLOCATION_GRANULARITY_def
    DEFAULT_PAGE_ALLOCATION_GRANULARITY_def EFI_PAGE_MASK_def)

text \<open>
  What a successful allocation leaves: the pages are of the new type; before, they were free, or not yet
  in the map.
\<close>

definition allocated :: "UINT64 \<Rightarrow> UINT64 \<Rightarrow> EFI_MEMORY_TYPE \<Rightarrow> memory_types \<Rightarrow> memory_types \<Rightarrow> bool" where
  "allocated start end ty m m' \<longleftrightarrow> (\<exists>attr.
     (\<forall>a. spans start end a \<longrightarrow> m a = Some (EfiConventionalMemory, attr) \<or> m a = None) \<and> claims (over start end (ty, attr) m) m')"

lemma claims_over: "claims m n \<Longrightarrow> claims (over s e v m) (over s e v n)"
  by (auto simp: claims_def over_def)

lemma claims_free: "claims m n \<Longrightarrow> n a = Some (EfiConventionalMemory, attr) \<Longrightarrow> m a = Some (EfiConventionalMemory, attr) \<or> m a = None"
  by (auto simp: claims_def memory_type_defs dest!: spec [of _ a])

lemma convert_inside:
  assumes t: "in_call s t" and c: "CoreConvertPages CoreFreeMemoryMapStack start pages ty t = Some (status, u)"
    and ty: "ty \<noteq> EfiConventionalMemory"
  shows "status \<in> {EFI_INVALID_PARAMETER, EFI_NOT_FOUND} \<and> u = t \<or>
    status = EFI_SUCCESS \<and> locked_ok u \<and> mMapDepth u = 0 \<and> mFreeMapStack u = 0 \<and> \<not> mGcdMemorySpaceLock u \<and>
    page_range start (EndOf start pages) \<and> allocated start (EndOf start pages) ty (types_of s) (types_of u)"
proof -
  have g: "locked_ok t" "mFreeMapStack t = 0" "\<not> mGcdMemorySpaceLock t" "claims (types_of s) (types_of t)"
    using t by (simp_all add: in_call_def)
  from full.CoreConvertPages_allocates [OF c ty g(1)] show ?thesis
  proof
    assume "status \<in> {EFI_INVALID_PARAMETER, EFI_NOT_FOUND} \<and> u = t"
    then show ?thesis by (rule disjI1)
  next
    assume s: "status = EFI_SUCCESS \<and> locked_ok u \<and> (mFreeMapStack u = 0 \<longrightarrow> mMapDepth u = 0) \<and> same_level t u \<and>
      page_range start (EndOf start pages) \<and>
      (\<exists>attr. (\<forall>a. spans start (EndOf start pages) a \<longrightarrow> types_of t a = Some (EfiConventionalMemory, attr)) \<and>
        claims (over start (EndOf start pages) (ty, attr) (types_of t)) (types_of u))"
    then obtain attr where a: "\<forall>a. spans start (EndOf start pages) a \<longrightarrow> types_of t a = Some (EfiConventionalMemory, attr)"
      "claims (over start (EndOf start pages) (ty, attr) (types_of t)) (types_of u)" by (elim conjE exE)
    have "claims (over start (EndOf start pages) (ty, attr) (types_of s)) (types_of u)"
      by (rule claims_trans [OF claims_over [OF g(4)] a(2)])
    then have "allocated start (EndOf start pages) ty (types_of s) (types_of u)"
      unfolding allocated_def using claims_free [OF g(4) a(1) [rule_format]] by (intro exI [of _ attr]) simp
    then show ?thesis using s g(2,3) by (simp add: same_level_def same_locks_def)
  qed
qed

subsection \<open>Allocating\<close>

text \<open>
  The end of an allocation: the conversion, again after a promotion if it failed.
\<close>

lemma convert_or_promote:
  assumes t: "in_call s t" and ty: "ty \<noteq> EfiConventionalMemory"
    and c: "ConvertOrPromote start pages ty t = Some (status, u)"
  shows "status AND EFI_ERROR_BIT \<noteq> 0 \<and> in_call s u \<or>
    status = EFI_SUCCESS \<and> locked_ok u \<and> mMapDepth u = 0 \<and> mFreeMapStack u = 0 \<and> \<not> mGcdMemorySpaceLock u \<and>
    page_range start (EndOf start pages) \<and> allocated start (EndOf start pages) ty (types_of s) (types_of u)"
proof -
  obtain st1 u1 where c1: "CoreConvertPages CoreFreeMemoryMapStack start pages ty t = Some (st1, u1)"
    using c by (auto simp: ConvertOrPromote_def bind_eq_Some_conv)
  from convert_inside [OF t c1 ty] show ?thesis
  proof
    assume e: "st1 \<in> {EFI_INVALID_PARAMETER, EFI_NOT_FOUND} \<and> u1 = t"
    then have bad: "st1 AND EFI_ERROR_BIT \<noteq> 0" by auto
    then obtain p v where p: "PromoteMemoryResource CoreFreeMemoryMapStack t = Some (p, v)"
      "(if p then CoreConvertPages CoreFreeMemoryMapStack start pages ty v else Some (st1, v)) = Some (status, u)"
      using c e by (auto simp: ConvertOrPromote_def c1 bind_eq_Some_conv)
    note v = in_call_evolves [OF t full.PromoteMemoryResource_ok [OF p(1) in_call_good [OF t]]]
    show ?thesis
    proof (cases p)
      case True
      then have "CoreConvertPages CoreFreeMemoryMapStack start pages ty v = Some (status, u)" using p(2) by simp
      from convert_inside [OF v this ty] show ?thesis
      proof
        assume "status \<in> {EFI_INVALID_PARAMETER, EFI_NOT_FOUND} \<and> u = v"
        then show ?thesis using v by auto
      qed (rule disjI2)
    qed (use p(2) v bad in auto)
  next
    assume o: "st1 = EFI_SUCCESS \<and> locked_ok u1 \<and> mMapDepth u1 = 0 \<and> mFreeMapStack u1 = 0 \<and> \<not> mGcdMemorySpaceLock u1 \<and>
      page_range start (EndOf start pages) \<and> allocated start (EndOf start pages) ty (types_of s) (types_of u1)"
    then have "status = EFI_SUCCESS" "u = u1" using c by (simp_all add: ConvertOrPromote_def c1)
    then show ?thesis using o by simp
  qed
qed

lemma AllocateLocked_ok:
  assumes a: "AllocateLocked type ty pages 0x1000 wish t = Some (status, start, u)" and t: "in_call s t" and ty: "ty \<noteq> EfiConventionalMemory"
  shows "status AND EFI_ERROR_BIT \<noteq> 0 \<and> in_call s u \<or>
    status = EFI_SUCCESS \<and> locked_ok u \<and> mMapDepth u = 0 \<and> mFreeMapStack u = 0 \<and> \<not> mGcdMemorySpaceLock u \<and>
    (type = AllocateAddress \<longrightarrow> start = wish) \<and>
    page_range start (EndOf start pages) \<and> allocated start (EndOf start pages) ty (types_of s) (types_of u)"
proof -
  let ?mx = "if type = AllocateMaxAddress then wish else MAX_ALLOC_ADDRESS"
  obtain start' v where v1: "(if type \<noteq> AllocateAddress then FindFreePages CoreFreeMemoryMapStack ?mx pages ty 0x1000 t else Some (wish, t)) =
      Some (start', v)"
    and v2: "(if type \<noteq> AllocateAddress \<and> start' = 0 then Some (EFI_OUT_OF_RESOURCES, start', v)
      else do { (status, s) \<leftarrow> ConvertOrPromote start' pages ty v; Some (status, start', s) }) = Some (status, start, u)"
    using a unfolding AllocateLocked_def Let_def bind_eq_Some_conv by fastforce
  have "start' = start" using v2 by (cases "type \<noteq> AllocateAddress \<and> start' = 0") (auto simp: bind_eq_Some_conv)
  note v = v1 [unfolded this] v2 [unfolded this]
  have in_v: "in_call s v"
  proof (cases "type = AllocateAddress")
    case False
    then have "FindFreePages CoreFreeMemoryMapStack ?mx pages ty 0x1000 t = Some (start, v)" using v(1) by simp
    from in_call_evolves [OF t full.FindFreePages_ok [OF this in_call_good [OF t], unfolded snd_conv]] show ?thesis .
  qed (use v(1) t in simp)
  show ?thesis
  proof (cases "type \<noteq> AllocateAddress \<and> start = 0")
    case True
    then show ?thesis using v(2) in_v by auto
  next
    case False
    then have "ConvertOrPromote start pages ty v = Some (status, u)" using v(2) by (auto simp: bind_eq_Some_conv)
    note c = convert_or_promote [OF in_v ty this]
    have "type = AllocateAddress \<longrightarrow> start = wish" using v(1) by auto
    then show ?thesis using c by blast
  qed
qed

lemma CoreInternalAllocatePages_ok:
  assumes a: "CoreInternalAllocatePages type ty pages memory s = Some (status, memory', s')" and s: "idle s"
  shows "idle s' \<and> (status AND EFI_ERROR_BIT \<noteq> 0 \<and> memory' = memory \<and> claims (types_of s) (types_of s') \<or>
    status = EFI_SUCCESS \<and> (\<exists>start. memory' = Some start \<and> page_range start (EndOf start pages) \<and>
      (type = AllocateAddress \<longrightarrow> memory = Some start) \<and> allocated start (EndOf start pages) ty (types_of s) (types_of s')))"
proof (cases "s' = s \<and> memory' = memory \<and> status \<in> {EFI_INVALID_PARAMETER, EFI_NOT_FOUND}")
  case True
  then show ?thesis using s by auto
next
  case False
  have ty: "ty \<noteq> EfiConventionalMemory" using a False by (auto simp: CoreInternalAllocatePages_def split: if_splits)
  obtain wish where w: "memory = Some wish" using a False by (cases memory) (auto simp: CoreInternalAllocatePages_def split: if_splits)
  have "do { (status, start, t) \<leftarrow> AllocateLocked type ty pages 0x1000 wish (s\<lparr>gMemoryLock := True\<rparr>); s \<leftarrow> CoreReleaseMemoryLock t;
      Some (status, if status AND EFI_ERROR_BIT = 0 then Some start else Some wish, s) } = Some (status, memory', s')"
    using a False by (simp add: CoreInternalAllocatePages_def w RoundPages_X64 Let_def idle_acquire(1) [OF s] split: if_split_asm)
  then obtain t start where t: "AllocateLocked type ty pages 0x1000 wish (s\<lparr>gMemoryLock := True\<rparr>) = Some (status, start, t)" and
    u: "CoreReleaseMemoryLock t = Some s'" and m: "memory' = (if status AND EFI_ERROR_BIT = 0 then Some start else memory)"
    unfolding bind_eq_Some_conv w by (auto simp: bind_eq_Some_conv)
  from AllocateLocked_ok [OF t in_call_start [OF s] ty] show ?thesis
  proof
    assume e: "status AND EFI_ERROR_BIT \<noteq> 0 \<and> in_call s t"
    then show ?thesis using in_call_release [OF _ _ _ _ u] m by (auto simp: in_call_def)
  next
    assume o: "status = EFI_SUCCESS \<and> locked_ok t \<and> mMapDepth t = 0 \<and> mFreeMapStack t = 0 \<and> \<not> mGcdMemorySpaceLock t \<and>
      (type = AllocateAddress \<longrightarrow> start = wish) \<and> page_range start (EndOf start pages) \<and>
      allocated start (EndOf start pages) ty (types_of s) (types_of t)"
    then show ?thesis using in_call_release [OF _ _ _ _ u] m w by simp
  qed
qed

subsection \<open>Freeing and changing attributes\<close>

lemma CoreInternalFreePages_ok:
  assumes f: "CoreInternalFreePages memory pages s = Some (status, ty, s')" and s: "idle s"
  shows "idle s' \<and> (types_of s' = types_of s \<and> status \<in> {EFI_NOT_FOUND, EFI_INVALID_PARAMETER} \<or>
    memory < EndOf memory pages \<and>
    (\<exists>p. memory \<le> p \<and> claims (converted True EfiConventionalMemory 0 memory p (types_of s)) (types_of s') \<and>
      (status = EFI_SUCCESS \<and> p = EndOf memory pages + 1 \<or> status = EFI_NOT_FOUND \<and> p \<le> EndOf memory pages)))"
proof -
  let ?s = "s\<lparr>gMemoryLock := True\<rparr>"
  have g: "locked_ok ?s" by (rule idle_acquire(2) [OF s])
  have l: "mMapDepth s = 0" "mFreeMapStack s = 0" "\<not> mGcdMemorySpaceLock s" using s by (simp_all add: idle_def)
  obtain t where t: "(case FindEntry memory (gMemoryMap s) of
         None \<Rightarrow> Some (EFI_NOT_FOUND, None, ?s)
       | Some (_, entry, _) \<Rightarrow>
           if memory AND (0x1000 - 1) \<noteq> 0 then Some (EFI_INVALID_PARAMETER, None, ?s)
           else do {
             (status, s) \<leftarrow> CoreConvertPages CoreFreeMemoryMapStack memory pages EfiConventionalMemory ?s;
             Some (status, Some (Type entry), s) }) = Some (status, ty, t)" and u: "CoreReleaseMemoryLock t = Some s'"
    using f unfolding CoreInternalFreePages_def RoundPages_X64 Let_def idle_acquire(1) [OF s] bind.bind_lunit bind_eq_Some_conv
    by (auto simp: bind_eq_Some_conv)
  show ?thesis
  proof (cases "t = ?s \<and> status \<in> {EFI_NOT_FOUND, EFI_INVALID_PARAMETER}")
    case True
    then show ?thesis using in_call_release [OF g _ _ _ u [unfolded conjunct1 [OF True]]] l by auto
  next
    case False
    then have c: "CoreConvertPages CoreFreeMemoryMapStack memory pages EfiConventionalMemory ?s = Some (status, t)"
      using t by (auto simp: bind_eq_Some_conv split: option.splits if_splits)
    have o: "locked_ok t \<and> ((mFreeMapStack ?s = 0 \<longrightarrow> mMapDepth ?s = 0) \<longrightarrow> mFreeMapStack t = 0 \<longrightarrow> mMapDepth t = 0) \<and> same_level ?s t \<and>
        memory < EndOf memory pages \<and>
        (\<exists>p. memory \<le> p \<and> claims (converted True EfiConventionalMemory 0 memory p (types_of ?s)) (types_of t) \<and>
        (status = EFI_SUCCESS \<and> p = EndOf memory pages + 1 \<or> status = EFI_NOT_FOUND \<and> p \<le> EndOf memory pages))"
      using full.CoreConvertPages_frees [OF c g] by (rule disjE) (use False in simp, assumption)
    then have i: "mFreeMapStack t = 0" "\<not> mGcdMemorySpaceLock t" "mMapDepth t = 0" using l by (simp_all add: same_level_def same_locks_def)
    show ?thesis using in_call_release [OF conjunct1 [OF o] i(3,1,2) u] o by simp
  qed
qed

text \<open>The attributes of a prefix of the range change, up to the first address that is not in the map.\<close>

lemma CoreUpdateMemoryAttributes_ok:
  assumes f: "CoreUpdateMemoryAttributes start pages attr s = Some s'" and s: "idle s"
  shows "idle s' \<and> (types_of s' = types_of s \<or>
    (\<exists>p. start \<le> p \<and> claims (converted False 0 attr start p (types_of s)) (types_of s')))"
proof -
  let ?s = "s\<lparr>gMemoryLock := True\<rparr>"
  have g: "locked_ok ?s" by (rule idle_acquire(2) [OF s])
  have l: "mMapDepth s = 0" "mFreeMapStack s = 0" "\<not> mGcdMemorySpaceLock s" using s by (simp_all add: idle_def)
  obtain status t where c: "CoreConvertPagesEx CoreFreeMemoryMapStack start pages False 0 True attr ?s = Some (status, t)"
    and u: "CoreReleaseMemoryLock t = Some s'"
    using f by (auto simp: CoreUpdateMemoryAttributes_def idle_acquire(1) [OF s] bind_eq_Some_conv)
  show ?thesis
  proof (cases "pages = 0 \<or> start AND EFI_PAGE_MASK \<noteq> 0 \<or> start \<ge> EndOf start pages")
    case True
    then have "t = ?s" using c by (auto simp: CoreConvertPagesEx_def EndOf_def)
    then show ?thesis using in_call_release [OF g _ _ _ u [unfolded \<open>t = ?s\<close>]] l by auto
  next
    case False
    then have lp: "CoreConvertPagesEx_loop CoreFreeMemoryMapStack (EndOf start pages) pages False 0 attr start ?s = Some (status, t)"
      and st: "4096 dvd unat start" "start \<le> EndOf start pages"
      using c by (auto simp: CoreConvertPagesEx_def EndOf_def page_aligned Let_def not_le split: if_splits)
    have "claims (converted False 0 attr start start (types_of s)) (types_of ?s)" by simp
    from full.convert_loop [OF _ EndOf_aligned [OF st(1)] lp g st(1) this order_refl disjI1 [OF st(2)]]
    have o: "locked_ok t" "mFreeMapStack ?s = 0 \<longrightarrow> mMapDepth ?s = 0 \<Longrightarrow> mFreeMapStack t = 0 \<longrightarrow> mMapDepth t = 0" "same_level ?s t"
      "\<exists>p. start \<le> p \<and> claims (converted False 0 attr start p (types_of s)) (types_of t)" by auto
    have i: "mFreeMapStack t = 0" "\<not> mGcdMemorySpaceLock t" "mMapDepth t = 0"
      using l o(2,3) by (simp_all add: same_level_def same_locks_def)
    show ?thesis using in_call_release [OF o(1) i(3,1,2) u] o(4) by simp
  qed
qed

subsection \<open>The services as steps\<close>

text \<open>
  The three services are the transitions of a relation; \<open>taking_service\<close> leaves out the one that gives
  memory back.
\<close>

inductive taking_service :: "dxe_memory \<Rightarrow> dxe_memory \<Rightarrow> bool" where
  allocate: "CoreInternalAllocatePages type ty pages memory s = Some (status, memory', s') \<Longrightarrow> taking_service s s'"
| attributes: "CoreUpdateMemoryAttributes start pages attr s = Some s' \<Longrightarrow> taking_service s s'"

inductive memory_service :: "dxe_memory \<Rightarrow> dxe_memory \<Rightarrow> bool" where
  take: "taking_service s s' \<Longrightarrow> memory_service s s'"
| give: "CoreInternalFreePages memory pages s = Some (status, ty, s') \<Longrightarrow> memory_service s s'"

inductive_cases taking_serviceE: "taking_service s s'"
inductive_cases memory_serviceE: "memory_service s s'"

lemma memory_service_idle: "memory_service s s' \<Longrightarrow> idle s \<Longrightarrow> idle s'"
  by (elim memory_serviceE taking_serviceE)
    (use CoreInternalAllocatePages_ok CoreUpdateMemoryAttributes_ok CoreInternalFreePages_ok in blast)+

lemma memory_services_idle: "memory_service\<^sup>*\<^sup>* s s' \<Longrightarrow> idle s \<Longrightarrow> idle s'"
  by (induction rule: rtranclp_induct) (auto intro: memory_service_idle)

text \<open>Memory in use: in the map, and not free.\<close>

definition used_as :: "memory_types \<Rightarrow> UINT64 \<Rightarrow> EFI_MEMORY_TYPE \<Rightarrow> bool" where
  "used_as m a ty \<longleftrightarrow> ty \<noteq> EfiConventionalMemory \<and> (\<exists>attr. m a = Some (ty, attr))"

lemma used_claims: "claims m m' \<Longrightarrow> used_as m a ty \<Longrightarrow> used_as m' a ty"
  unfolding claims_def used_as_def by (metis Pair_inject option.distinct(1) option.inject)

lemma used_converted: "used_as m a ty \<Longrightarrow> used_as (converted False nt attr lo p m) a ty"
  by (auto simp: used_as_def converted_def NewEntry_def)

lemma used_allocated: "allocated start end ty' m m' \<Longrightarrow> used_as m a ty \<Longrightarrow> used_as m' a ty \<and> \<not> spans start end a"
proof -
  assume al: "allocated start end ty' m m'" and u: "used_as m a ty"
  then obtain attr where free: "spans start end a \<longrightarrow> m a = Some (EfiConventionalMemory, attr) \<or> m a = None"
    and c: "claims (over start end (ty', attr) m) m'" by (auto simp: allocated_def)
  have out: "\<not> spans start end a" using free u by (auto simp: used_as_def)
  then have "used_as (over start end (ty', attr) m) a ty" using u by (auto simp: used_as_def over_def spans_def)
  then show ?thesis using used_claims [OF c] out by simp
qed

lemma taking_service_keeps: "taking_service s s' \<Longrightarrow> idle s \<Longrightarrow> used_as (types_of s) a ty \<Longrightarrow> used_as (types_of s') a ty"
proof (elim taking_serviceE)
  fix type ty' pages memory status memory'
  assume "CoreInternalAllocatePages type ty' pages memory s = Some (status, memory', s')" and s: "idle s" "used_as (types_of s) a ty"
  from CoreInternalAllocatePages_ok [OF this(1,2)] show "used_as (types_of s') a ty"
    using used_claims used_allocated s(2) by blast
next
  fix start pages attr
  assume "CoreUpdateMemoryAttributes start pages attr s = Some s'" and s: "idle s" "used_as (types_of s) a ty"
  from CoreUpdateMemoryAttributes_ok [OF this(1,2)] show "used_as (types_of s') a ty"
    using used_claims [OF _ used_converted [OF s(2)]] s(2) by auto
qed

lemma taking_services_keep:
  "taking_service\<^sup>*\<^sup>* s s' \<Longrightarrow> idle s \<Longrightarrow> used_as (types_of s) a ty \<Longrightarrow> idle s' \<and> used_as (types_of s') a ty"
  by (induction rule: rtranclp_induct) (auto intro: taking_service_keeps memory_service_idle memory_service.take)

text \<open>A successful allocation leaves its pages in use, and they were not in use before.\<close>

lemma CoreInternalAllocatePages_used:
  assumes a: "CoreInternalAllocatePages type ty pages memory s = Some (EFI_SUCCESS, Some start, s')" and s: "idle s"
  shows "idle s' \<and> (\<forall>a. spans start (EndOf start pages) a \<longrightarrow> used_as (types_of s') a ty) \<and>
    (\<forall>a ty. used_as (types_of s) a ty \<longrightarrow> used_as (types_of s') a ty \<and> \<not> spans start (EndOf start pages) a)"
proof -
  have ty: "ty \<noteq> EfiConventionalMemory"
    using a by (auto simp: CoreInternalAllocatePages_def EFI_SUCCESS_def EFI_INVALID_PARAMETER_def EFI_ERROR_BIT_def split: if_splits)
  have ok: "idle s'" "allocated start (EndOf start pages) ty (types_of s) (types_of s')"
    using CoreInternalAllocatePages_ok [OF a s] by auto
  then obtain attr where "claims (over start (EndOf start pages) (ty, attr) (types_of s)) (types_of s')" by (auto simp: allocated_def)
  then have "used_as (types_of s') a ty" if "spans start (EndOf start pages) a" for a
    by (rule used_claims) (use that ty in \<open>simp add: used_as_def over_def spans_def\<close>)
  then show ?thesis using ok used_allocated [OF ok(2)] by blast
qed

end
