(* ===== verification/DxeSearch.thy ===== *)
theory DxeSearch
  imports DxeService
begin

text \<open>
  The search for free pages: \<open>CoreFindFreePagesI\<close> takes the topmost range that fits, and finds one if
  there is one.
\<close>

subsection \<open>One entry\<close>

abbreviation top_of :: "UINT64 \<Rightarrow> MEMORY_MAP \<Rightarrow> UINT64" where
  "top_of mx e \<equiv> min (End e) mx"

text \<open>The entry is free memory with room for the bytes between the two bounds.\<close>

definition roomy :: "UINT64 \<Rightarrow> UINT64 \<Rightarrow> nat \<Rightarrow> MEMORY_MAP \<Rightarrow> bool" where
  "roomy mx mn n e \<longleftrightarrow> Type e = EfiConventionalMemory \<and> Attribute e AND EFI_MEMORY_SP = 0 \<and> Start e < mx \<and>
     unat (Start e) + n \<le> Suc (unat (top_of mx e)) \<and> unat mn + n \<le> Suc (unat (top_of mx e))"

lemma page_mask_id:
  assumes "4096 dvd unat (x :: UINT64)" shows "x AND NOT (0x1000 - 1) = x"
proof -
  have "x AND EFI_PAGE_MASK = 0" using assms by (simp add: page_aligned)
  then have m: "x AND 0xFFF = 0" by (simp add: EFI_PAGE_MASK_def)
  have "x = (x AND NOT 0xFFF) OR (x AND 0xFFF)" by (rule bit_eqI) (auto simp: bit_simps)
  then show ?thesis using m by simp
qed

lemma FindFreePages_entry_roomy:
  assumes e: "page_range (Start e) (End e)" and mx: "4096 dvd unat (mx + 1)" and n: "bytes \<noteq> 0"
  shows "FindFreePages_entry mx mn bytes 0x1000 e target = (if roomy mx mn (unat bytes) e then max (top_of mx e) target else target)"
proof -
  have e': "Start e < End e" "End e < 0xFFFFFFFFFFFFFFFF" "unat (End e + 1) = Suc (unat (End e))" "4096 dvd unat (End e + 1)"
    using e by (auto simp: page_range_def Suc_word_less)
  define t where "t = top_of mx e"
  have t: "(if End e \<ge> mx then mx else End e) = t" by (auto simp: t_def min_def)
  have te: "t \<le> End e" "t < 0xFFFFFFFFFFFFFFFF" using e'(2) by (auto simp: t_def min_def)
  have "4096 dvd unat (t + 1)" using e'(4) mx by (simp add: t_def min_def)
  then have m: "((t + 1) AND NOT (0x1000 - 1)) - 1 = t" by (simp only: page_mask_id) simp
  have big: "t - Start e + 1 \<ge> bytes \<longleftrightarrow> unat (Start e) + unat bytes \<le> Suc (unat t)" if "Start e \<le> t"
  proof -
    have "unat (t - Start e) = unat t - unat (Start e)" using that by (rule unat_diff)
    moreover have "unat (t - Start e + 1) = Suc (unat (t - Start e))"
      using te(2) calculation by (intro Suc_word_less) (simp add: word_less_nat_alt)
    ultimately show ?thesis using that by (auto simp: word_le_nat_alt)
  qed
  have low: "t - bytes + 1 < mn \<longleftrightarrow> \<not> unat mn + unat bytes \<le> Suc (unat t)" if "unat bytes \<le> Suc (unat t)"
  proof -
    have "t - bytes + 1 = (t + 1) - bytes" by simp
    moreover have "unat (t + 1) = Suc (unat t)" using te(2) by (rule Suc_word_less)
    ultimately have "unat (t - bytes + 1) = Suc (unat t) - unat bytes"
      using that by (metis unat_diff word_le_nat_alt)
    then show ?thesis using that by (auto simp: word_less_nat_alt)
  qed
  have bytes: "0 < unat bytes" using n by (simp add: unat_gt_0)
  show ?thesis
  proof (cases "Type e = EfiConventionalMemory \<and> Attribute e AND EFI_MEMORY_SP = 0 \<and> Start e < mx")
    case True
    then have st: "Start e \<le> t" using e'(1) by (auto simp: t_def min_def)
    have r: "FindFreePages_entry mx mn bytes 0x1000 e target =
        (if End e < mn then target
         else if t - Start e + 1 \<ge> bytes then (if t - bytes + 1 < mn then target else if t > target then t else target) else target)"
      unfolding FindFreePages_entry_def Let_def t m using True st by (auto simp: not_le)
    have "\<not> End e < mn" if "unat mn + unat bytes \<le> Suc (unat t)"
      using that bytes te(1) by (auto simp: word_less_nat_alt word_le_nat_alt)
    then show ?thesis using True big [OF st] low unfolding r by (auto simp: roomy_def t_def [symmetric] max_def)
  next
    case False
    then show ?thesis by (auto simp: FindFreePages_entry_def roomy_def Let_def not_less)
  qed
qed

subsection \<open>The whole map\<close>

lemma fold_search:
  assumes "\<forall>e \<in> set es. page_range (Start e) (End e)" "4096 dvd unat (mx + 1)" "bytes \<noteq> 0"
  shows "(let r = fold (FindFreePages_entry mx mn bytes 0x1000) es target in target \<le> r \<and>
    (r = target \<or> (\<exists>e \<in> set es. roomy mx mn (unat bytes) e \<and> r = top_of mx e)) \<and>
    (\<forall>e \<in> set es. roomy mx mn (unat bytes) e \<longrightarrow> top_of mx e \<le> r))"
  using assms(1)
proof (induction es arbitrary: target)
  case (Cons e es)
  let ?t = "if roomy mx mn (unat bytes) e then max (top_of mx e) target else target"
  have s: "FindFreePages_entry mx mn bytes 0x1000 e target = ?t"
    using Cons.prems assms(2,3) by (intro FindFreePages_entry_roomy) auto
  let ?r = "fold (FindFreePages_entry mx mn bytes 0x1000) es ?t"
  have IH: "?t \<le> ?r \<and> (?r = ?t \<or> (\<exists>e \<in> set es. roomy mx mn (unat bytes) e \<and> ?r = top_of mx e)) \<and>
      (\<forall>e \<in> set es. roomy mx mn (unat bytes) e \<longrightarrow> top_of mx e \<le> ?r)"
    using Cons.IH [of ?t] Cons.prems by (simp add: Let_def)
  have t: "target \<le> ?t" by (simp add: max.cobounded2)
  have t2: "roomy mx mn (unat bytes) e \<Longrightarrow> top_of mx e \<le> ?t" by (simp only: if_True max.cobounded1)
  have t3: "?t = target \<or> roomy mx mn (unat bytes) e \<and> ?t = top_of mx e" by (simp only: max_def [of "top_of mx e" target] split: if_split) simp
  have "target \<le> ?r" "\<forall>d \<in> set (e # es). roomy mx mn (unat bytes) d \<longrightarrow> top_of mx d \<le> ?r"
    using conjunct1 [OF IH] conjunct2 [OF conjunct2 [OF IH]] order_trans [OF t] order_trans [OF t2] by (blast, simp only: list.set ball_simps, blast)
  moreover have "?r = target \<or> (\<exists>d \<in> set (e # es). roomy mx mn (unat bytes) d \<and> ?r = top_of mx d)"
    using conjunct1 [OF conjunct2 [OF IH]] t3 by (metis list.set_intros)
  ultimately show ?case by (simp add: Let_def s)
qed simp

text \<open>The upper bound as the code rounds it: the last byte of a page, at most the bound given.\<close>

definition RoundMax :: "UINT64 \<Rightarrow> UINT64" where
  "RoundMax maxAddress = (if maxAddress AND EFI_PAGE_MASK \<noteq> EFI_PAGE_MASK
     then ((maxAddress - (EFI_PAGE_MASK + 1)) AND NOT EFI_PAGE_MASK) OR EFI_PAGE_MASK else maxAddress)"

lemma mask_parts: "unat (x AND EFI_PAGE_MASK) = unat x mod 4096" "unat ((x AND NOT EFI_PAGE_MASK) OR EFI_PAGE_MASK) = unat x div 4096 * 4096 + 4095"
proof -
  show m: "unat (x AND EFI_PAGE_MASK) = unat x mod 4096" for x :: UINT64
  proof -
    have "unat (x AND EFI_PAGE_MASK) = unat (take_bit 12 x)" by (simp add: EFI_PAGE_MASK_def take_bit_eq_mask mask_eq_exp_minus_1)
    then show ?thesis by (simp only: unsigned_take_bit_eq) (simp add: take_bit_eq_mod)
  qed
  have "(x AND NOT EFI_PAGE_MASK) OR (x AND EFI_PAGE_MASK) = (x AND NOT EFI_PAGE_MASK) + (x AND EFI_PAGE_MASK)"
    by (rule disjunctive_add [symmetric]) (auto simp: bit_simps)
  moreover have "(x AND NOT EFI_PAGE_MASK) OR (x AND EFI_PAGE_MASK) = x" by (rule bit_eqI) (auto simp: bit_simps)
  ultimately have h: "x AND NOT EFI_PAGE_MASK = x - (x AND EFI_PAGE_MASK)" by (metis add_diff_cancel_right')
  have u: "unat (x AND NOT EFI_PAGE_MASK) = unat x div 4096 * 4096"
    unfolding h using m [of x] by (subst unat_diff) (auto simp: word_le_nat_alt minus_mod_eq_div_mult)
  have "(x AND NOT EFI_PAGE_MASK) OR EFI_PAGE_MASK = (x AND NOT EFI_PAGE_MASK) + EFI_PAGE_MASK"
    by (rule disjunctive_add [symmetric]) (auto simp: bit_simps)
  moreover have "unat x div 4096 < 4503599627370496" by (rule less_mult_imp_div_less) simp
  then have "unat x div 4096 * 4096 + 4095 < 2 ^ 64" by simp
  ultimately show "unat ((x AND NOT EFI_PAGE_MASK) OR EFI_PAGE_MASK) = unat x div 4096 * 4096 + 4095"
    using u by (simp add: unat_add32 EFI_PAGE_MASK_def)
qed

lemma RoundMax_ok:
  assumes "EFI_PAGE_MASK \<le> mx"
  shows "RoundMax mx \<le> mx" "4096 dvd unat (RoundMax mx + 1)"
proof -
  have m: "4095 \<le> unat mx" using assms by (simp add: EFI_PAGE_MASK_def word_le_nat_alt)
  have aligned: "mx AND EFI_PAGE_MASK = EFI_PAGE_MASK \<longleftrightarrow> unat mx mod 4096 = 4095"
    using mask_parts(1) [of mx] by (auto simp: EFI_PAGE_MASK_def word_unat_eq_iff)
  have "RoundMax mx \<le> mx \<and> 4096 dvd unat (RoundMax mx + 1)"
  proof (cases "unat mx mod 4096 = 4095")
    case True
    then have "4096 dvd Suc (unat mx)" by (simp add: mod_eq_0_iff_dvd [symmetric] mod_Suc)
    then show ?thesis using True by (simp add: RoundMax_def aligned page_Suc)
  next
    case False
    then have big: "4096 \<le> unat mx" using m by (cases "unat mx = 4095") auto
    then have "unat (mx - (EFI_PAGE_MASK + 1)) = unat mx - 4096" by (subst unat_sub) (simp_all add: EFI_PAGE_MASK_def word_le_nat_alt)
    then have r: "unat (RoundMax mx) = (unat mx - 4096) div 4096 * 4096 + 4095"
      using False by (simp add: RoundMax_def aligned mask_parts(2))
    have "Suc (unat (RoundMax mx)) = 4096 * Suc ((unat mx - 4096) div 4096)" unfolding r by simp
    then have "4096 dvd Suc (unat (RoundMax mx))" by (metis dvd_triv_left)
    moreover have "(unat mx - 4096) div 4096 * 4096 \<le> unat mx - 4096" by (rule div_times_less_eq_dividend)
    then have "unat (RoundMax mx) \<le> unat mx" unfolding r using big by linarith
    ultimately show ?thesis by (simp add: page_Suc word_le_nat_alt)
  qed
  then show "RoundMax mx \<le> mx" "4096 dvd unat (RoundMax mx + 1)" by simp_all
qed

lemma bytes_of_pages: "unat pages < 2 ^ 52 \<Longrightarrow> unat (push_bit 12 pages :: UINT64) = unat pages * 4096"
  by (simp add: push_bit_eq_mult unat_word_ariths)

text \<open>The entry has room for the pages: free memory, not reserved for special purposes.\<close>

definition room_for :: "UINT64 \<Rightarrow> UINT64 \<Rightarrow> UINT64 \<Rightarrow> MEMORY_MAP \<Rightarrow> bool" where
  "room_for mx mn pages e = roomy (RoundMax mx) mn (unat pages * 4096) e"

lemma search_result:
  assumes e: "page_range (Start e) (End e)" and r: "roomy mx mn (n * 4096) e" and n: "n \<noteq> 0" "unat b = n * 4096"
    and mx: "4096 dvd unat (mx + 1)"
  shows "unat (top_of mx e - (b - 1)) = Suc (unat (top_of mx e)) - n * 4096" "4096 dvd unat (top_of mx e - (b - 1))"
proof -
  have b: "unat (b - 1) = n * 4096 - 1" using n by (subst unat_sub) (auto simp: word_le_nat_alt)
  have room: "n * 4096 \<le> Suc (unat (top_of mx e))" using r by (simp add: roomy_def)
  have "b - 1 \<le> top_of mx e" using room b n(1) by (simp add: word_le_nat_alt)
  then show u: "unat (top_of mx e - (b - 1)) = Suc (unat (top_of mx e)) - n * 4096"
    using b room n(1) by (simp add: unat_diff)
  have "4096 dvd Suc (unat (End e))" using e by (simp add: page_range_def)
  moreover have "4096 dvd Suc (unat mx)" using mx by (simp add: page_Suc)
  ultimately have "4096 dvd Suc (unat (top_of mx e))" by (simp add: min_def)
  then show "4096 dvd unat (top_of mx e - (b - 1))" unfolding u by (intro dvd_diff_nat) simp_all
qed

lemma CoreFindFreePagesI_search:
  assumes es: "entries_ok es" and p: "pages \<noteq> 0" "unat pages < 2 ^ 52" and mx: "EFI_PAGE_MASK \<le> mx"
  shows "(\<forall>e \<in> set es. \<not> room_for mx mn pages e) \<and> CoreFindFreePagesI mx mn pages 0x1000 es = 0 \<or>
    (\<exists>e \<in> set es. room_for mx mn pages e \<and>
       unat (CoreFindFreePagesI mx mn pages 0x1000 es) = Suc (unat (top_of (RoundMax mx) e)) - unat pages * 4096 \<and>
       4096 dvd unat (CoreFindFreePagesI mx mn pages 0x1000 es) \<and>
       (\<forall>d \<in> set es. room_for mx mn pages d \<longrightarrow> top_of (RoundMax mx) d \<le> top_of (RoundMax mx) e))"
proof -
  let ?b = "push_bit 12 pages :: UINT64"
  have u: "unat ?b = unat pages * 4096" using p(2) by (rule bytes_of_pages)
  have b: "?b \<noteq> 0" using u p(1) by (auto simp: unat_eq_0)
  let ?t = "fold (FindFreePages_entry (RoundMax mx) mn ?b 0x1000) es 0"
  have c: "CoreFindFreePagesI mx mn pages 0x1000 es = (if (?t - (?b - 1)) AND EFI_PAGE_MASK \<noteq> 0 then 0 else ?t - (?b - 1))"
    using p(1) mx by (simp add: CoreFindFreePagesI_def RoundMax_def Let_def not_less [symmetric])
  have ent: "\<forall>e \<in> set es. page_range (Start e) (End e)" using es by (simp add: entries_ok_def)
  from fold_search [OF ent RoundMax_ok(2) [OF mx] b, where mn = mn and target = 0]
  have f: "?t = 0 \<or> (\<exists>e \<in> set es. room_for mx mn pages e \<and> ?t = top_of (RoundMax mx) e)"
    "\<forall>e \<in> set es. room_for mx mn pages e \<longrightarrow> top_of (RoundMax mx) e \<le> ?t"
    by (simp_all add: Let_def room_for_def u)
  show ?thesis
  proof (cases "\<exists>e \<in> set es. room_for mx mn pages e \<and> ?t = top_of (RoundMax mx) e")
    case True
    then obtain e where e: "e \<in> set es" "room_for mx mn pages e" "?t = top_of (RoundMax mx) e" by blast
    note sr = search_result [OF ent [rule_format, OF e(1)] e(2) [unfolded room_for_def] _ u RoundMax_ok(2) [OF mx]]
    have "unat pages \<noteq> 0" using p(1) by (simp add: unat_eq_0)
    from sr [OF this] have "CoreFindFreePagesI mx mn pages 0x1000 es = ?t - (?b - 1)" using e(3) unfolding c by (simp add: page_aligned)
    then show ?thesis using sr [OF \<open>unat pages \<noteq> 0\<close>] f(2) e by auto
  next
    case False
    have no: "\<not> room_for mx mn pages d" if "d \<in> set es" for d
    proof
      assume d: "room_for mx mn pages d"
      then have "top_of (RoundMax mx) d \<le> 0" using f False that by auto
      then have "unat (top_of (RoundMax mx) d) = 0" by (simp add: word_le_nat_alt unat_eq_0)
      moreover have "unat pages * 4096 \<le> Suc (unat (top_of (RoundMax mx) d))" using d by (simp add: room_for_def roomy_def)
      moreover have "unat pages \<noteq> 0" using p(1) by (simp add: unat_eq_0)
      ultimately show False by linarith
    qed
    have "?t = 0" using f(1) False by blast
    have "unat (0 - (?b - 1)) mod 4096 \<noteq> 0"
    proof -
      have pos: "0 < unat pages" using p(1) by (simp add: unat_gt_0)
      have "?b - 1 \<noteq> 0" using u by auto
      then have "unat (0 - (?b - 1)) = 2 ^ 64 - unat (?b - 1)"
        by (subst unat_sub_if_size) (simp add: word_size word_le_nat_alt unat_eq_0)
      moreover have "unat (?b - 1) = unat ?b - 1" using b by (simp add: unat_sub word_le_nat_alt Suc_leI unat_gt_0)
      ultimately have "unat (0 - (?b - 1)) = Suc (2 ^ 64 - unat pages * 4096)" using u p(2) pos by simp
      moreover have "4096 dvd 2 ^ 64 - unat pages * 4096" by (intro dvd_diff_nat) simp_all
      ultimately show ?thesis using not_page_Suc by (simp add: mod_eq_0_iff_dvd)
    qed
    then have "CoreFindFreePagesI mx mn pages 0x1000 es = 0" unfolding c \<open>?t = 0\<close> by (simp add: page_aligned mod_eq_0_iff_dvd)
    then show ?thesis using no by blast
  qed
qed

subsection \<open>The topmost range that fits\<close>

text \<open>
  What the search promises: \<open>fits\<close> says that the pages at \<open>s\<close> lie in the free entry \<open>e\<close>, from \<open>mn\<close> on
  and not beyond \<open>mx\<close>.
\<close>

definition fits :: "UINT64 \<Rightarrow> UINT64 \<Rightarrow> UINT64 \<Rightarrow> MEMORY_MAP \<Rightarrow> UINT64 \<Rightarrow> bool" where
  "fits mx mn pages e s \<longleftrightarrow> Type e = EfiConventionalMemory \<and> Attribute e AND EFI_MEMORY_SP = 0 \<and> 4096 dvd unat s \<and>
     Start e \<le> s \<and> mn \<le> s \<and> unat s + unat pages * 4096 \<le> Suc (unat (End e)) \<and> unat s + unat pages * 4096 \<le> Suc (unat mx)"

lemma aligned_below_RoundMax:
  assumes "EFI_PAGE_MASK \<le> mx" "4096 dvd n" "n \<le> Suc (unat mx)"
  shows "n \<le> Suc (unat (RoundMax mx))"
proof (rule ccontr)
  assume big: "\<not> n \<le> Suc (unat (RoundMax mx))"
  have d: "4096 dvd Suc (unat (RoundMax mx))" using RoundMax_ok(2) [OF assms(1)] by (simp add: page_Suc)
  have "Suc (unat (RoundMax mx)) + 4096 \<le> n" using big by (intro page_gap [OF d assms(2)]) simp
  moreover have "unat mx < unat (RoundMax mx) + 4096"
  proof (cases "unat mx mod 4096 = 4095")
    case True
    then have "mx AND EFI_PAGE_MASK = EFI_PAGE_MASK"
      using mask_parts(1) [of mx] by (auto simp: EFI_PAGE_MASK_def word_unat_eq_iff)
    then show ?thesis by (simp add: RoundMax_def)
  next
    case False
    have "\<not> mx AND EFI_PAGE_MASK = EFI_PAGE_MASK"
      using False mask_parts(1) [of mx] by (auto simp: EFI_PAGE_MASK_def)
    then have r: "unat (RoundMax mx) = unat (mx - (EFI_PAGE_MASK + 1)) div 4096 * 4096 + 4095"
      by (simp add: RoundMax_def mask_parts(2))
    have "4096 \<le> unat mx" using assms(1) False by (cases "unat mx = 4095") (auto simp: EFI_PAGE_MASK_def word_le_nat_alt)
    then have u: "unat (mx - (EFI_PAGE_MASK + 1)) = unat mx - 4096" by (subst unat_sub) (simp_all add: EFI_PAGE_MASK_def word_le_nat_alt)
    have "(unat mx - 4096) mod 4096 \<noteq> 4095" using False le_mod_geq [OF \<open>4096 \<le> unat mx\<close>] by simp
    moreover have "(unat mx - 4096) mod 4096 < 4096" by simp
    moreover have "unat mx - 4096 = (unat mx - 4096) div 4096 * 4096 + (unat mx - 4096) mod 4096" by simp
    ultimately have "unat mx - 4096 < (unat mx - 4096) div 4096 * 4096 + 4095" by linarith
    then show ?thesis unfolding r u by linarith
  qed
  ultimately show False using assms(3) by linarith
qed

lemma fits_room:
  assumes "fits mx mn pages e s" "page_range (Start e) (End e)" "EFI_PAGE_MASK \<le> mx" "pages \<noteq> 0"
  shows "room_for mx mn pages e" "unat s + unat pages * 4096 \<le> Suc (unat (top_of (RoundMax mx) e))"
proof -
  have f: "Type e = EfiConventionalMemory" "Attribute e AND EFI_MEMORY_SP = 0" "4096 dvd unat s" "unat (Start e) \<le> unat s" "unat mn \<le> unat s"
    "unat s + unat pages * 4096 \<le> Suc (unat (End e))" "unat s + unat pages * 4096 \<le> Suc (unat mx)"
    using assms(1) by (simp_all add: fits_def word_le_nat_alt)
  have p: "0 < unat pages" using assms(4) by (simp add: unat_gt_0)
  have "unat s + unat pages * 4096 \<le> Suc (unat (RoundMax mx))"
    by (rule aligned_below_RoundMax [OF assms(3) _ f(7)]) (use f(3) in simp)
  then show t: "unat s + unat pages * 4096 \<le> Suc (unat (top_of (RoundMax mx) e))" using f(6) by (simp add: min_def)
  have "unat (Start e) < unat (RoundMax mx)" using \<open>unat s + unat pages * 4096 \<le> Suc (unat (RoundMax mx))\<close> p f(4) by linarith
  then show "room_for mx mn pages e" using f t by (simp add: room_for_def roomy_def word_less_nat_alt)
qed

lemma CoreFindFreePagesI_topmost:
  assumes es: "entries_ok es" and p: "pages \<noteq> 0" "unat pages < 2 ^ 52"
  shows "(CoreFindFreePagesI mx mn pages 0x1000 es \<noteq> 0 \<longrightarrow> (\<exists>e \<in> set es. fits mx mn pages e (CoreFindFreePagesI mx mn pages 0x1000 es))) \<and>
    (\<forall>e \<in> set es. \<forall>s. fits mx mn pages e s \<longrightarrow> s \<le> CoreFindFreePagesI mx mn pages 0x1000 es)"
proof (cases "EFI_PAGE_MASK \<le> mx")
  case False
  have pos: "0 < unat pages" using p(1) by (simp add: unat_gt_0)
  have "\<not> fits mx mn pages e s" for e s
  proof
    assume "fits mx mn pages e s"
    then have "unat pages * 4096 \<le> Suc (unat mx)" by (simp add: fits_def)
    then show False using False pos by (simp add: EFI_PAGE_MASK_def word_le_nat_alt)
  qed
  moreover have "CoreFindFreePagesI mx mn pages 0x1000 es = 0" using False by (simp add: CoreFindFreePagesI_def not_le)
  ultimately show ?thesis by simp
next
  case True
  let ?r = "CoreFindFreePagesI mx mn pages 0x1000 es"
  have ent: "\<forall>e \<in> set es. page_range (Start e) (End e)" using es by (simp add: entries_ok_def)
  from CoreFindFreePagesI_search [OF es p True, of mn] show ?thesis
  proof
    assume "(\<forall>e \<in> set es. \<not> room_for mx mn pages e) \<and> ?r = 0"
    then show ?thesis using fits_room(1) [OF _ _ True p(1)] ent by blast
  next
    assume "\<exists>e \<in> set es. room_for mx mn pages e \<and> unat ?r = Suc (unat (top_of (RoundMax mx) e)) - unat pages * 4096 \<and>
      4096 dvd unat ?r \<and> (\<forall>d \<in> set es. room_for mx mn pages d \<longrightarrow> top_of (RoundMax mx) d \<le> top_of (RoundMax mx) e)"
    then obtain e where e: "e \<in> set es" "room_for mx mn pages e" and u: "unat ?r = Suc (unat (top_of (RoundMax mx) e)) - unat pages * 4096"
      and a: "4096 dvd unat ?r" and top: "\<forall>d \<in> set es. room_for mx mn pages d \<longrightarrow> top_of (RoundMax mx) d \<le> top_of (RoundMax mx) e" by blast
    have ro: "Type e = EfiConventionalMemory" "Attribute e AND EFI_MEMORY_SP = 0"
      "unat (Start e) + unat pages * 4096 \<le> Suc (unat (top_of (RoundMax mx) e))"
      "unat mn + unat pages * 4096 \<le> Suc (unat (top_of (RoundMax mx) e))" using e(2) by (simp_all add: room_for_def roomy_def)
    have le: "unat (top_of (RoundMax mx) e) \<le> unat (End e)" "unat (top_of (RoundMax mx) e) \<le> unat mx"
      using RoundMax_ok(1) [OF True] by (auto simp: min_def word_le_nat_alt)
    have "unat (Start e) \<le> unat ?r" "unat mn \<le> unat ?r" "unat ?r + unat pages * 4096 = Suc (unat (top_of (RoundMax mx) e))"
      using ro(3,4) u by linarith+
    then have "fits mx mn pages e ?r" using ro(1,2) a le by (simp add: fits_def word_le_nat_alt)
    moreover have "s \<le> ?r" if d: "d \<in> set es" "fits mx mn pages d s" for d s
    proof -
      note fr = fits_room [OF d(2) ent [rule_format, OF d(1)] True p(1)]
      have "unat (top_of (RoundMax mx) d) \<le> unat (top_of (RoundMax mx) e)" using top d(1) fr(1) by (simp add: word_le_nat_alt)
      then have "unat s \<le> unat ?r" using fr(2) u by linarith
      then show ?thesis by (simp add: word_le_nat_alt)
    qed
    ultimately show ?thesis using e(1) by blast
  qed
qed

end
