(* ===== verification/DxeReturns.thy ===== *)
theory DxeReturns
  imports DxeSearch
begin

text \<open>
  With two spare descriptors the services return, and do exactly what they are asked for: no memory is
  taken for descriptors.
\<close>

subsection \<open>One range\<close>

definition ready :: "dxe_memory \<Rightarrow> bool" where
  "ready s \<longleftrightarrow> locked_ok s \<and> bins_ok s \<and> mMapDepth s = 0 \<and> mFreeMapStack s = 0"

lemma ready_pooled: "ready s \<Longrightarrow> pooled (gMemoryMap s) = length (gMemoryMap s)"
  by (force simp: ready_def locked_ok_def map_ok_def slots_ok_def)

lemma ready_descriptors: "ready s \<Longrightarrow> descriptors s = mFreeMemoryMapEntries s + length (gMemoryMap s)"
  by (simp add: descriptors_def ready_pooled)

lemma ConvertRange_bind:
  "ConvertRange fs xs e ys st r pages ct nt na s = ConvertRange Some xs e ys st r pages ct nt na s \<bind> fs"
  by (simp add: ConvertRange_def split_def)

lemma count_returns:
  assumes "bins_ok s"
  shows "\<exists>s'. (if ct then do { u \<leftarrow> CountOldType ty st pages s; CountNewType nt st pages u } else Some s) = Some s' \<and>
    bins_ok s' \<and> only_statistics s s'"
proof -
  obtain u where u: "CountOldType ty st pages s = Some u" "bins_ok u" using CountOldType_returns [OF assms] by blast
  obtain v where v: "CountNewType nt st pages u = Some v" "bins_ok v" using CountNewType_returns [OF u(2)] by blast
  show ?thesis using assms u v only_statistics_trans [OF CountOldType_only [OF u(1)] CountNewType_only [OF v(1)]] by simp
qed

lemma PullOut_returns:
  assumes "entries_ok (xs @ e # ys)" "Start e \<le> st" "r \<le> End e" "page_range st r" "Suc d < MAX_MAP_DEPTH"
  shows "\<exists>p. PullOut st r xs e ys d = Some p"
proof (cases "Start e = st \<or> End e = r")
  case False
  have e: "page_range (Start e) (End e)" using assms(1) by (simp add: entries_ok_mid)
  have s: "Start e < st" "st < End e" using False assms(2-4) by (auto simp: page_range_def)
  have "page_range (Start e) (st - 1)" using page_range_below(1) [OF _ e s] assms(4) by (simp add: page_range_def)
  then show ?thesis using assms(5) False by (auto simp: PullOut_def Let_def page_range_def)
qed (auto simp: PullOut_def)

text \<open>How far the map, and the stack, grow.\<close>

definition cut_ends :: "MEMORY_MAP \<Rightarrow> UINT64 \<Rightarrow> UINT64 \<Rightarrow> nat" where
  "cut_ends e st r = (if Start e = st then 0 else 1) + (if End e = r then 0 else 1)"

lemma ConvertRange_settles:
  assumes s: "ready s" "gMemoryMap s = xs @ e # ys" and r: "Start e \<le> st" "r \<le> End e" "page_range st r"
    and free: "cut_ends e st r \<le> mFreeMemoryMapEntries s"
  shows "\<exists>s'. ConvertRange CoreFreeMemoryMapStack xs e ys st r pages ct nt na s = Some s' \<and> ready s' \<and> same_level s s' \<and>
    types_of s' = over st r (NewEntry ct nt na (Type e, Attribute e)) (types_of s) \<and>
    mGcdMemorySpaceMap s' = mGcdMemorySpaceMap s \<and> mMemoryMapKey s' = mMemoryMapKey s + 1 \<and>
    mFreeMemoryMapEntries s \<le> mFreeMemoryMapEntries s' + cut_ends e st r"
proof -
  have m: "map_ok s" "mMapDepth s = 0" "locked_ok s" "bins_ok s" "mFreeMapStack s = 0" "gMemoryLock s"
    using s(1) by (simp_all add: ready_def locked_ok_def)
  have ent: "entries_ok (xs @ e # ys)" using m(1) s(2) by (simp add: map_ok_def)
  obtain u where u: "(if ct then do { u \<leftarrow> CountOldType (Type e) st pages s; CountNewType nt st pages u } else Some s) = Some u"
    "bins_ok u" "only_statistics s u" using count_returns [OF m(4)] by blast
  note uf = only_statistics_fields [OF u(3)]
  obtain xs' e' ys' d where p: "PullOut st r xs e ys 0 = Some (xs', e', ys', d)"
    using PullOut_returns [OF ent r, of 0] by (auto simp: MAX_MAP_DEPTH_def)
  let ?w = "if Start e' = End e' + 1
      then u\<lparr>gMemoryMap := xs' @ ys', mMapDepth := d, mFreeMemoryMapEntries := mFreeMemoryMapEntries u + RemoveMemoryMapEntry e'\<rparr>
      else u\<lparr>gMemoryMap := xs' @ e' # ys', mMapDepth := d\<rparr>"
  have "gMemoryLock ?w" "Suc (mMapDepth ?w) < MAX_MAP_DEPTH"
    using PullOut_size(1) [OF p] m(6) uf(7) by (simp_all add: MAX_MAP_DEPTH_def)
  then obtain t0 where t0: "CoreAddRange (if ct then nt else Type e') st r (if ct then Attribute e' else na) ?w = Some t0"
    using CoreAddRange_returns [OF r(3), of ?w] by blast
  have c: "ConvertRange Some xs e ys st r pages ct nt na s = Some t0"
    unfolding ConvertRange_def u(1) bind.bind_lunit uf(2) m(2) p prod.case Let_def t0 by (rule refl)
  have bt: "bins_ok t0"
  proof -
    have "map_ok ?w" "\<forall>f \<in> set (gMemoryMap ?w). apart_ranges st r f"
      using PullOut_ok [OF ent _ _ r p] m(1) s(2) by (auto simp: pulled_def map_ok_def m(2) kept_def split: if_splits)
    then have "only_map ?w t0" using CoreAddRange_ok [OF t0 _ r(3)] by blast
    then show ?thesis using u(2) only_map_bins by (auto simp: bins_ok_def split: if_splits)
  qed
  obtain t where t: "Some t = Some t0" "map_ok t" "types_of t = over st r (NewEntry ct nt na (Type e, Attribute e)) (types_of s)"
      "mMapDepth t \<le> mMapDepth s + (if Start e \<noteq> st \<and> End e \<noteq> r then 2 else 1)"
      "length (gMemoryMap t) \<le> length (gMemoryMap s) + (if Start e = st then 0 else 1) + (if End e = r then 0 else 1)"
      "pooled (gMemoryMap t) + (if Start e = st \<and> End e = r \<and> FromPages e then 1 else 0) \<le> pooled (gMemoryMap s)"
      "descriptors t = descriptors s" "mMemoryMapKey t = mMemoryMapKey s + 1" "same_level s t" "mGcdMemorySpaceMap t = mGcdMemorySpaceMap s"
    using ConvertRange_pushed [OF c m(1) s(2) r] by (elim exE conjE) (rule that, assumption+)
  have tt: "t = t0" using t(1) by simp
  have on: "types_of s a = Some (Type e, Attribute e)" if "st \<le> a" "a \<le> r" for a
    using mem_at_covers [of "gMemoryMap s" e, OF _ _ covers_piece [OF r(1,2)]] ent that s(2) by (simp add: spans_def)
  have "gcd_ok (mGcdMemorySpaceMap t) (types_of t)"
    by (rule gcd_ok_mono [of _ "types_of s"]) (use m(3) t(3,10) on in \<open>auto simp: locked_ok_def over_def\<close>)
  then have g: "locked_ok t" using m(6) t(2,9) by (simp add: locked_ok_def same_level_def same_locks_def)
  have pe: "FromPages e" using s ready_pooled [OF s(1)] m(1,2) by (auto simp: map_ok_def slots_ok_def)
  have ps: "pooled (gMemoryMap s) = length (gMemoryMap s)" by (rule ready_pooled [OF s(1)])
  have "mMapDepth t \<le> mFreeMemoryMapEntries t"
    using t(4,6,7) free pe ps m(2) by (auto simp: descriptors_def cut_ends_def split: if_splits)
  moreover have "mFreeMapStack t = 0" using t(9) m(5) by (simp add: same_level_def same_locks_def)
  ultimately obtain s' where f: "CoreFreeMemoryMapStack t = Some s'" "locked_ok s'" "types_of s' = types_of t" "same_locks t s'"
    "mMapDepth s' = 0" "descriptors s' = descriptors t" "mGcdMemorySpaceMap s' = mGcdMemorySpaceMap t" "mMemoryMapKey s' = mMemoryMapKey t"
    "bins_ok s' = bins_ok t" "length (gMemoryMap s') = length (gMemoryMap t)"
    using CoreFreeMemoryMapStack_returns [OF g] by blast
  have rs: "ready s'" using f bt tt \<open>mFreeMapStack t = 0\<close> by (simp add: ready_def same_locks_def)
  have "mFreeMemoryMapEntries s \<le> mFreeMemoryMapEntries s' + cut_ends e st r"
    using ready_descriptors [OF rs] ready_descriptors [OF s(1)] f(6,10) t(5,7) by (simp add: cut_ends_def split: if_splits)
  moreover have "same_level s s'" using t(9) f(4) m(5) by (simp add: same_level_def same_locks_def)
  ultimately show ?thesis using rs f t(3,8,10) c tt by (subst ConvertRange_bind) simp
qed

lemma same_level_trans: "same_level r s \<Longrightarrow> same_level s t \<Longrightarrow> same_level r t"
  by (auto simp: same_level_def same_locks_def)

lemma same_level_refl [simp]: "same_level s s"
  by (simp add: same_level_def same_locks_def)

subsection \<open>Allocating\<close>

text \<open>The pages from \<open>start\<close> on lie in the free entry \<open>e\<close>.\<close>

definition free_in :: "MEMORY_MAP \<Rightarrow> UINT64 \<Rightarrow> UINT64 \<Rightarrow> bool" where
  "free_in e start end \<longleftrightarrow> Type e = EfiConventionalMemory \<and> Start e \<le> start \<and> end \<le> End e \<and> page_range start end"

lemma FindEntry_covers:
  assumes "entries_ok es" "e \<in> set es" "Start e \<le> st" "st < End e"
  shows "\<exists>xs ys. FindEntry st es = Some (xs, e, ys) \<and> es = xs @ e # ys"
proof (cases "FindEntry st es")
  case None
  then show ?thesis using assms by (auto simp: FindEntry_None)
next
  case (Some f)
  obtain xs d ys where f: "f = (xs, d, ys)" by (metis prod_cases3)
  note fe = FindEntry_Some [OF Some [unfolded f]]
  have "d = e"
  proof (rule ccontr)
    assume "d \<noteq> e"
    then have "e \<in> set (xs @ ys)" using assms(2) fe by auto
    then have "apart_entries d e" using assms(1) fe by (auto simp: entries_ok_mid)
    then show False using fe assms(3,4) by (auto simp: apart_entries_def apart_ranges_def)
  qed
  then show ?thesis using Some f fe by auto
qed

lemma CoreConvertPages_exact:
  assumes s: "ready s" "2 \<le> mFreeMemoryMapEntries s" and e: "e \<in> set (gMemoryMap s)" "free_in e start (EndOf start pages)"
    and ty: "ty \<noteq> EfiConventionalMemory" and p: "pages \<noteq> 0"
  shows "\<exists>s'. CoreConvertPages CoreFreeMemoryMapStack start pages ty s = Some (EFI_SUCCESS, s') \<and> ready s' \<and> same_level s s' \<and>
    types_of s' = over start (EndOf start pages) (ty, Attribute e) (types_of s) \<and>
    mGcdMemorySpaceMap s' = mGcdMemorySpaceMap s \<and> mFreeMemoryMapEntries s \<le> mFreeMemoryMapEntries s' + 2"
proof -
  let ?last = "EndOf start pages"
  have l: "gMemoryLock s" "entries_ok (gMemoryMap s)" using s(1) by (simp_all add: ready_def locked_ok_def map_ok_def)
  have r: "page_range start ?last" "Start e \<le> start" "?last \<le> End e" "Type e = EfiConventionalMemory" using e(2) by (simp_all add: free_in_def)
  then have st: "start < ?last" "start AND EFI_PAGE_MASK = 0" "?last < 0xFFFFFFFFFFFFFFFF"
    by (simp_all add: page_range_def page_aligned)
  obtain xs ys where f: "FindEntry start (gMemoryMap s) = Some (xs, e, ys)" "gMemoryMap s = xs @ e # ys"
    using FindEntry_covers [OF l(2) e(1) r(2)] st(1) r(3) by fastforce
  have "cut_ends e start ?last \<le> 2" by (simp add: cut_ends_def)
  then obtain s' where c: "ConvertRange CoreFreeMemoryMapStack xs e ys start ?last pages True ty 0 s = Some s'" "ready s'" "same_level s s'"
    "types_of s' = over start ?last (NewEntry True ty 0 (Type e, Attribute e)) (types_of s)"
    "mGcdMemorySpaceMap s' = mGcdMemorySpaceMap s" "mFreeMemoryMapEntries s \<le> mFreeMemoryMapEntries s' + cut_ends e start ?last"
    using ConvertRange_settles [OF s(1) f(2) r(2,3,1), of pages True ty 0] s(2) by fastforce
  have re: "(if End e < ?last then End e else ?last) = ?last" using r(3) by auto
  have "\<not> ?last + 1 < ?last" using Suc_word_less [OF st(3)] by (simp add: word_less_nat_alt)
  then have "CoreConvertPagesEx_loop CoreFreeMemoryMapStack ?last pages True ty 0 start s = Some (EFI_SUCCESS, s')"
    using ty r(4) by (simp add: CoreConvertPagesEx_loop_step [OF st(1) f(1)] re c(1) CoreConvertPagesEx_loop_done leD [OF r(3)])
  then have "CoreConvertPages CoreFreeMemoryMapStack start pages ty s = Some (EFI_SUCCESS, s')"
    using l(1) p st(2) linorder_not_le [THEN iffD2, OF st(1)]
    by (simp add: CoreConvertPages_def CoreConvertPagesEx_def EndOf_def [symmetric] Let_def)
  then show ?thesis using c(2-6) by (intro exI [of _ s']) (simp add: NewEntry_def cut_ends_def split: if_splits)
qed

subsection \<open>Searching\<close>

lemma fits_free_in:
  assumes "fits mx mn pages e p" "page_range (Start e) (End e)" "pages \<noteq> 0" "unat pages < 2 ^ 52"
  shows "free_in e p (EndOf p pages)" "unat (EndOf p pages) = unat p + unat pages * 4096 - 1"
proof -
  have f: "Type e = EfiConventionalMemory" "4096 dvd unat p" "unat (Start e) \<le> unat p" "unat p + unat pages * 4096 \<le> Suc (unat (End e))"
    using assms(1) by (simp_all add: fits_def word_le_nat_alt)
  have e: "unat (End e) < 0xFFFFFFFFFFFFFFFF" using assms(2) by (simp add: page_range_def word_less_nat_alt)
  have n: "1 \<le> unat pages" using assms(3) by (simp add: unat_gt_0 Suc_leI)
  have "unat (p + push_bit 12 pages) = unat p + unat pages * 4096"
    using f(4) e bytes_of_pages [OF assms(4)] by (subst unat_add_lem [THEN iffD1]) simp_all
  then show u: "unat (EndOf p pages) = unat p + unat pages * 4096 - 1"
    unfolding EndOf_def using n by (subst unat_sub) (simp_all add: word_le_nat_alt)
  have "Suc (unat (EndOf p pages)) = unat p + unat pages * 4096" unfolding u using n by linarith
  moreover have "unat p < unat (EndOf p pages)" unfolding u using n by linarith
  moreover have "unat (EndOf p pages) \<le> unat (End e)" unfolding u using f(4) by linarith
  ultimately show "free_in e p (EndOf p pages)"
    using f e by (simp add: free_in_def page_range_def word_le_nat_alt word_less_nat_alt)
qed

lemma fits_mono: "fits mx mn pages e p \<Longrightarrow> mx \<le> mx' \<Longrightarrow> fits mx' 0 pages e p"
  by (auto simp: fits_def word_le_nat_alt)

text \<open>If there is room in the whole range, the search succeeds and needs no promotion.\<close>

lemma FindFreePages_finds:
  assumes s: "ready s" and p: "pages \<noteq> 0" "unat pages < 2 ^ 52"
    and e: "e \<in> set (gMemoryMap s)" "fits mx 0 pages e q" "q \<noteq> 0"
  shows "\<exists>start d t. FindFreePages fs mx pages ty 0x1000 s = Some (start, t) \<and> t = s\<lparr>mDefaultBaseAddress := mDefaultBaseAddress t\<rparr> \<and>
    d \<in> set (gMemoryMap s) \<and> fits mx 0 pages d start \<and> start \<noteq> 0"
proof -
  have es: "entries_ok (gMemoryMap s)" and b: "bins_ok s" using s by (simp_all add: ready_def locked_ok_def map_ok_def)
  let ?I = "\<lambda>mx mn. CoreFindFreePagesI mx mn pages 0x1000 (gMemoryMap s)"
  note top = CoreFindFreePagesI_topmost [OF es p]
  have hit: "\<exists>d \<in> set (gMemoryMap s). fits mx 0 pages d (?I m n)" if "?I m n \<noteq> 0" "m \<le> mx" for m n
    using top [of m n] that fits_mono by blast
  have "?I mx 0 \<noteq> 0"
  proof
    assume "?I mx 0 = 0"
    then have "q \<le> 0" using top [of mx 0] e(1,2) by force
    then show False using e(3) by simp
  qed
  note last = this hit [OF this order_refl]
  obtain start t where t: "FindFreePages_bins mx pages ty 0x1000 s = Some (start, t)" "start \<noteq> 0"
    "t = s\<lparr>mDefaultBaseAddress := mDefaultBaseAddress t\<rparr>" "\<exists>d \<in> set (gMemoryMap s). fits mx 0 pages d start"
  proof -
    obtain one where one: "(if ty < EfiMaxMemoryType then do {
         st \<leftarrow> rd (mMemoryTypeStatistics s) ty;
         Some (if mx \<ge> MaximumAddress st then ?I (MaximumAddress st) (BaseAddress st) else 0) } else Some 0) = Some one"
      "one \<noteq> 0 \<longrightarrow> (\<exists>d \<in> set (gMemoryMap s). fits mx 0 pages d one)"
    proof (cases "ty < EfiMaxMemoryType")
      case True
      then have "unat ty < length (mMemoryTypeStatistics s)"
        using b by (simp add: bins_ok_def EfiMaxMemoryType_def word_less_nat_alt)
      then show ?thesis using True hit by (auto simp: rd_def intro!: that)
    qed (use that in simp)
    show ?thesis
    proof (cases "one = 0")
      case False
      then show ?thesis using one that [of one s] by (simp add: FindFreePages_bins_def)
    next
      case True
      let ?two = "if mx \<ge> mDefaultMaximumAddress s then ?I (mDefaultMaximumAddress s) 0 else 0"
      have bins: "FindFreePages_bins mx pages ty 0x1000 s =
          (if ?two \<noteq> 0 then Some (?two, if ?two < mDefaultBaseAddress s then s\<lparr>mDefaultBaseAddress := ?two\<rparr> else s) else Some (?I mx 0, s))"
        unfolding FindFreePages_bins_def one(1) bind.bind_lunit True by (simp add: Let_def)
      show ?thesis
      proof (cases "?two = 0")
        case False
        then have "\<exists>d \<in> set (gMemoryMap s). fits mx 0 pages d ?two" using hit by (auto split: if_splits)
        then show ?thesis using False bins that [of ?two "if ?two < mDefaultBaseAddress s then s\<lparr>mDefaultBaseAddress := ?two\<rparr> else s"]
          by (simp split: if_splits)
      qed (use bins last that [of "?I mx 0" s] in simp)
    qed
  qed
  have "FindFreePages fs mx pages ty 0x1000 s = Some (start, t)" using t(1,2) by (simp add: FindFreePages.simps)
  then show ?thesis using t(2-4) by blast
qed

text \<open>The memory types that can be allocated.\<close>

definition allocatable :: "EFI_MEMORY_TYPE \<Rightarrow> bool" where
  "allocatable ty \<longleftrightarrow> \<not> (ty \<ge> EfiMaxMemoryType \<and> ty < MEMORY_TYPE_OEM_RESERVED_MIN) \<and> ty \<noteq> EfiConventionalMemory \<and>
     ty \<noteq> EfiPersistentMemory \<and> ty \<noteq> EfiUnacceptedMemoryType"

lemma idle_ready: "idle s \<Longrightarrow> bins_ok s \<Longrightarrow> ready (s\<lparr>gMemoryLock := True\<rparr>)"
  by (simp add: ready_def idle_acquire(2)) (simp add: idle_def bins_ok_def)

lemma ready_idle:
  assumes "ready t" "\<not> mGcdMemorySpaceLock t"
  shows "CoreReleaseMemoryLock t = Some (t\<lparr>gMemoryLock := False\<rparr>)" "idle (t\<lparr>gMemoryLock := False\<rparr>)" "bins_ok (t\<lparr>gMemoryLock := False\<rparr>)"
  using assms by (auto simp: ready_def idle_def locked_ok_def map_ok_def bins_ok_def CoreReleaseMemoryLock_def)

lemma ready_update:
  assumes "ready s" "t = s\<lparr>mDefaultBaseAddress := b\<rparr>"
  shows "ready t" "gMemoryMap t = gMemoryMap s" "mFreeMemoryMapEntries t = mFreeMemoryMapEntries s"
    "mGcdMemorySpaceMap t = mGcdMemorySpaceMap s" "mGcdMemorySpaceLock t = mGcdMemorySpaceLock s"
  using assms by (simp_all add: ready_def bins_ok_def)

definition search_bound :: "UINT32 \<Rightarrow> UINT64 \<Rightarrow> UINT64" where
  "search_bound type wish = (if type = AllocateMaxAddress then wish else MAX_ALLOC_ADDRESS)"

lemma CoreInternalAllocatePages_finds:
  assumes s: "idle s" "bins_ok s" "2 \<le> mFreeMemoryMapEntries s" and ty: "allocatable ty"
    and type: "type = AllocateAnyPages \<or> type = AllocateMaxAddress"
    and p: "pages \<noteq> 0" "unat pages < 2 ^ 52" and e: "e \<in> set (gMemoryMap s)" "fits (search_bound type wish) 0 pages e q" "q \<noteq> 0"
  shows "\<exists>start d s'. CoreInternalAllocatePages type ty pages (Some wish) s = Some (EFI_SUCCESS, Some start, s') \<and>
    idle s' \<and> bins_ok s' \<and> d \<in> set (gMemoryMap s) \<and> fits (search_bound type wish) 0 pages d start \<and>
    types_of s' = over start (EndOf start pages) (ty, Attribute d) (types_of s) \<and> mFreeMemoryMapEntries s \<le> mFreeMemoryMapEntries s' + 2"
proof -
  let ?s = "s\<lparr>gMemoryLock := True\<rparr>"
  have r: "ready ?s" by (rule idle_ready [OF s(1,2)])
  obtain start d t where t: "FindFreePages CoreFreeMemoryMapStack (search_bound type wish) pages ty 0x1000 ?s = Some (start, t)"
    "t = ?s\<lparr>mDefaultBaseAddress := mDefaultBaseAddress t\<rparr>" "d \<in> set (gMemoryMap s)" "fits (search_bound type wish) 0 pages d start" "start \<noteq> 0"
    using FindFreePages_finds [OF r p, of e "search_bound type wish" q CoreFreeMemoryMapStack ty] e by auto
  note rt = ready_update [OF r t(2)]
  have "page_range (Start d) (End d)" using s(1) t(3) by (simp add: idle_def map_ok_def entries_ok_def)
  note fr = fits_free_in(1) [OF t(4) this p]
  have nt: "ty \<noteq> EfiConventionalMemory" using ty by (simp add: allocatable_def)
  obtain u where u: "CoreConvertPages CoreFreeMemoryMapStack start pages ty t = Some (EFI_SUCCESS, u)" "ready u" "same_level t u"
    "types_of u = over start (EndOf start pages) (ty, Attribute d) (types_of t)" "mFreeMemoryMapEntries t \<le> mFreeMemoryMapEntries u + 2"
    using CoreConvertPages_exact [OF rt(1) _ _ fr nt p(1)] rt(2,3) t(3) s(3) by auto
  have "\<not> mGcdMemorySpaceLock u" using u(3) rt(5) s(1) by (simp add: same_level_def same_locks_def idle_def)
  note ri = ready_idle [OF u(2) this]
  have ne: "type \<noteq> AllocateAddress" "\<not> type \<ge> MaxAllocateType"
    using type by (auto simp: AllocateAnyPages_def AllocateMaxAddress_def AllocateAddress_def MaxAllocateType_def word_le_nat_alt)
  have "AllocateLocked type ty pages 0x1000 wish ?s = Some (EFI_SUCCESS, start, u)"
    using ne(1) t(1,5) u(1) by (simp add: AllocateLocked_def ConvertOrPromote_def search_bound_def)
  moreover have "CoreInternalAllocatePages type ty pages (Some wish) s =
      do { (status, start, s) \<leftarrow> AllocateLocked type ty pages 0x1000 wish ?s; s \<leftarrow> CoreReleaseMemoryLock s;
           Some (status, if status AND EFI_ERROR_BIT = 0 then Some start else Some wish, s) }"
    using ne ty by (auto simp: CoreInternalAllocatePages_def allocatable_def RoundPages_X64 idle_acquire(1) [OF s(1)])
  ultimately have "CoreInternalAllocatePages type ty pages (Some wish) s = Some (EFI_SUCCESS, Some start, u\<lparr>gMemoryLock := False\<rparr>)"
    by (simp add: ri(1))
  then show ?thesis using ri(2,3) t(3,4) u(4,5) rt(2,3) by (intro exI [of _ start] exI [of _ d] exI [of _ "u\<lparr>gMemoryLock := False\<rparr>"]) simp
qed

subsection \<open>Freeing\<close>

text \<open>
  A range in use, over any number of entries.  Only the first piece and the last one can leave a part of
  an entry behind, so two descriptors are enough.
\<close>

definition starts_entry :: "dxe_memory \<Rightarrow> UINT64 \<Rightarrow> bool" where
  "starts_entry s a \<longleftrightarrow> (\<forall>e \<in> set (gMemoryMap s). covers e a \<longrightarrow> Start e = a)"

lemma free_loop_exact:
  assumes en: "4096 dvd unat (end + 1)" "end < 0xFFFFFFFFFFFFFFFF"
  shows "ready s \<Longrightarrow> 4096 dvd unat st \<Longrightarrow> st < end \<Longrightarrow> (\<And>a. spans st end a \<Longrightarrow> \<exists>ty. used_as (types_of s) a ty) \<Longrightarrow>
    (if starts_entry s st then 1 else 2) \<le> mFreeMemoryMapEntries s \<Longrightarrow>
    \<exists>s'. CoreConvertPagesEx_loop CoreFreeMemoryMapStack end pages True EfiConventionalMemory na st s = Some (EFI_SUCCESS, s') \<and> ready s' \<and>
      same_level s s' \<and> types_of s' = converted True EfiConventionalMemory 0 st (end + 1) (types_of s)"
proof (induction "unat end - unat st" arbitrary: st s rule: less_induct)
  case less
  let ?cv = "\<lambda>lo to m. converted True EfiConventionalMemory 0 lo to m"
  have es: "entries_ok (gMemoryMap s)" using less.prems(1) by (simp add: ready_def locked_ok_def map_ok_def)
  have e1: "unat (end + 1) = Suc (unat end)" by (rule Suc_word_less [OF en(2)])
  obtain ty attr where m: "types_of s st = Some (ty, attr)" "ty \<noteq> EfiConventionalMemory"
    using less.prems(4) [of st] less.prems(3) unfolding used_as_def spans_def by (blast intro: less_imp_le)
  then obtain e where e: "e \<in> set (gMemoryMap s)" "covers e st" "Type e = ty" using mem_at_SomeD [OF m(1)] by auto
  have pe: "page_range (Start e) (End e)" using es e(1) by (simp add: entries_ok_def)
  have "st \<noteq> End e"
    using less.prems(2) pe not_page_Suc [of "unat st"] by (auto simp: page_range_def)
  then have se: "Start e \<le> st" "st < End e" using e(2) by (auto simp: covers_def)
  obtain xs ys where f: "FindEntry st (gMemoryMap s) = Some (xs, e, ys)" "gMemoryMap s = xs @ e # ys"
    using FindEntry_covers [OF es e(1) se] by blast
  define r where "r = (if End e < end then End e else end)"
  note pc = range_piece [OF pe se less.prems(3,2) en(1) r_def]
  have cut: "cut_ends e st r \<le> mFreeMemoryMapEntries s"
  proof (cases "starts_entry s st")
    case True
    then have "Start e = st" using e(1,2) by (simp add: starts_entry_def)
    then show ?thesis using less.prems(5) True by (simp add: cut_ends_def)
  next
    case False
    then show ?thesis using less.prems(5) by (simp add: cut_ends_def)
  qed
  obtain t where t: "ConvertRange CoreFreeMemoryMapStack xs e ys st r pages True EfiConventionalMemory na s = Some t" "ready t" "same_level s t"
    "types_of t = over st r (NewEntry True EfiConventionalMemory na (Type e, Attribute e)) (types_of s)"
    "mFreeMemoryMapEntries s \<le> mFreeMemoryMapEntries t + cut_ends e st r"
    using ConvertRange_settles [OF less.prems(1) f(2) se(1) pc(2,1) cut, of pages True EfiConventionalMemory na] by blast
  have on: "types_of s a = Some (Type e, Attribute e)" if "spans st r a" for a
    using mem_at_covers [OF es e(1) covers_piece [OF se(1) pc(2) that]] .
  have r1: "r + 1 \<le> a \<longleftrightarrow> \<not> a \<le> r" "a < r + 1 \<longleftrightarrow> a \<le> r" for a using pc(5) by (auto simp: word_less_nat_alt word_le_nat_alt)
  have tt: "types_of t = ?cv st (r + 1) (types_of s)"
    using on r1 by (auto simp: t(4) over_def converted_def spans_def NewEntry_def fun_eq_iff)
  have lp: "CoreConvertPagesEx_loop CoreFreeMemoryMapStack end pages True EfiConventionalMemory na st s =
      CoreConvertPagesEx_loop CoreFreeMemoryMapStack end pages True EfiConventionalMemory na (r + 1) t"
    using m(2) e(3) by (simp add: CoreConvertPagesEx_loop_step [OF less.prems(3) f(1)] r_def [symmetric] t(1))
  show ?case
  proof (cases "r = end")
    case True
    have "\<not> r + 1 < end" using True pc(5) by (simp add: word_less_nat_alt)
    then show ?thesis using lp t(2,3) tt True by (simp add: CoreConvertPagesEx_loop_done)
  next
    case False
    then have re: "r = End e" "r < end" using pc(3) by (auto simp: r_def split: if_splits)
    have "r + 1 \<noteq> end" using pc(6) en(1) e1 not_page_Suc [of "unat end"] by auto
    moreover have "r + 1 \<le> end" using re(2) r1(1) [of "end"] by (simp add: not_le)
    ultimately have lt: "r + 1 < end" by (simp add: less_le)
    have used: "\<exists>ty. used_as (types_of t) a ty" if "spans (r + 1) end a" for a
    proof -
      have a: "\<not> a \<le> r" "a \<le> end" using that by (simp_all add: spans_def r1(1))
      then have "spans st end a" "\<not> (st \<le> a \<and> a \<le> r)" using order_trans [OF less_imp_le [OF pc(4)], of a] by (auto simp: spans_def not_le)
      moreover from this(2) have "types_of t a = types_of s a" unfolding t(4) over_def by (rule if_not_P)
      ultimately show ?thesis using less.prems(4) [of a] unfolding used_as_def by simp
    qed
    have "starts_entry t (r + 1)"
      unfolding starts_entry_def
    proof (intro ballI impI)
      fix d assume d: "d \<in> set (gMemoryMap t)" "covers d (r + 1)"
      have et: "entries_ok (gMemoryMap t)" using t(2) by (simp add: ready_def locked_ok_def map_ok_def)
      have "types_of t (r + 1) = Some (Type d, Attribute d)" by (rule mem_at_covers [OF et d])
      then have nd: "Type d \<noteq> EfiConventionalMemory" using used [of "r + 1"] lt by (auto simp: used_as_def spans_def)
      show "Start d = r + 1"
      proof (rule ccontr)
        assume "Start d \<noteq> r + 1"
        then have "Start d \<le> r" using d(2) r1(2) [of "Start d"] by (simp add: covers_def less_le)
        moreover have "r \<le> End d" using d(2) r1(1) [of "End d"] by (auto simp: covers_def)
        ultimately have "types_of t r = Some (Type d, Attribute d)" by (intro mem_at_covers [OF et d(1)]) (simp add: covers_def)
        then show False using nd less_imp_le [OF pc(4)] by (simp add: t(4) over_def NewEntry_def)
      qed
    qed
    moreover have "1 \<le> mFreeMemoryMapEntries t"
    proof (cases "starts_entry s st")
      case True
      then have "Start e = st" using e(1,2) by (simp add: starts_entry_def)
      then show ?thesis using t(5) re(1) less.prems(5) True by (simp add: cut_ends_def)
    next
      case False
      then show ?thesis using t(5) re(1) less.prems(5) by (simp add: cut_ends_def split: if_splits)
    qed
    ultimately have fr: "(if starts_entry t (r + 1) then 1 else 2) \<le> mFreeMemoryMapEntries t" by simp
    have "unat end - unat (r + 1) < unat end - unat st"
      using lt pc(4,5) by (simp add: word_less_nat_alt)
    from less.hyps [OF this t(2) pc(6) lt used fr] obtain s' where
      s': "CoreConvertPagesEx_loop CoreFreeMemoryMapStack end pages True EfiConventionalMemory na (r + 1) t = Some (EFI_SUCCESS, s')"
      "ready s'" "same_level t s'" "types_of s' = ?cv (r + 1) (end + 1) (types_of t)" by blast
    have "?cv (r + 1) (end + 1) (?cv st (r + 1) (types_of s)) = ?cv st (end + 1) (types_of s)"
    proof
      fix a
      have "a < end + 1 \<longleftrightarrow> a \<le> end" using e1 by (auto simp: word_less_nat_alt word_le_nat_alt)
      moreover have "a \<le> r \<Longrightarrow> a \<le> end" using re(2) by simp
      moreover have "\<not> a \<le> r \<Longrightarrow> st \<le> a" using pc(4) by simp
      ultimately show "?cv (r + 1) (end + 1) (?cv st (r + 1) (types_of s)) a = ?cv st (end + 1) (types_of s) a"
        unfolding converted_def r1 by simp
    qed
    then show ?thesis using s' tt lp same_level_trans [OF t(3) s'(3)] by simp
  qed
qed

lemma CoreInternalFreePages_exact:
  assumes s: "idle s" "bins_ok s" "2 \<le> mFreeMemoryMapEntries s" and p: "pages \<noteq> 0" "page_range memory (EndOf memory pages)"
    and used: "\<And>a. spans memory (EndOf memory pages) a \<Longrightarrow> \<exists>ty. used_as (types_of s) a ty"
  shows "\<exists>ty s'. CoreInternalFreePages memory pages s = Some (EFI_SUCCESS, Some ty, s') \<and> used_as (types_of s) memory ty \<and>
    idle s' \<and> bins_ok s' \<and> types_of s' = converted True EfiConventionalMemory 0 memory (EndOf memory pages + 1) (types_of s)"
proof -
  let ?s = "s\<lparr>gMemoryLock := True\<rparr>" and ?last = "EndOf memory pages"
  have r: "ready ?s" by (rule idle_ready [OF s(1,2)])
  have st: "memory < ?last" "4096 dvd unat memory" "?last < 0xFFFFFFFFFFFFFFFF" using p(2) by (simp_all add: page_range_def)
  have "(if starts_entry ?s memory then 1 else 2) \<le> mFreeMemoryMapEntries ?s" using s(3) by simp
  from free_loop_exact [OF EndOf_aligned [OF st(2)] st(3) r st(2,1) _ this, of pages 0] used
  obtain t where t: "CoreConvertPagesEx_loop CoreFreeMemoryMapStack ?last pages True EfiConventionalMemory 0 memory ?s = Some (EFI_SUCCESS, t)"
    "ready t" "same_level ?s t" "types_of t = converted True EfiConventionalMemory 0 memory (?last + 1) (types_of s)" by auto
  have "\<not> mGcdMemorySpaceLock t" using t(3) s(1) by (simp add: same_level_def same_locks_def idle_def)
  note ri = ready_idle [OF t(2) this]
  have es: "entries_ok (gMemoryMap s)" using s(1) by (simp add: idle_def map_ok_def)
  obtain ty attr where m: "types_of s memory = Some (ty, attr)" "ty \<noteq> EfiConventionalMemory"
    using used [of memory] st(1) unfolding used_as_def spans_def by (blast intro: less_imp_le)
  then obtain e where e: "e \<in> set (gMemoryMap s)" "covers e memory" "Type e = ty" using mem_at_SomeD [OF m(1)] by auto
  have "page_range (Start e) (End e)" using es e(1) by (simp add: entries_ok_def)
  then have "memory \<noteq> End e" using st(2) not_page_Suc [of "unat memory"] by (auto simp: page_range_def)
  then have se: "Start e \<le> memory" "memory < End e" using e(2) by (auto simp: covers_def)
  obtain xs ys where f: "FindEntry memory (gMemoryMap s) = Some (xs, e, ys)" using FindEntry_covers [OF es e(1) se] by blast
  have "memory AND EFI_PAGE_MASK = 0" using st(2) by (simp add: page_aligned)
  then have al: "memory AND (0x1000 - 1) = 0" by (simp add: EFI_PAGE_MASK_def)
  have "CoreConvertPages CoreFreeMemoryMapStack memory pages EfiConventionalMemory ?s = Some (EFI_SUCCESS, t)"
    using t(1) p(1) linorder_not_le [THEN iffD2, OF st(1)] \<open>memory AND EFI_PAGE_MASK = 0\<close>
    by (simp add: CoreConvertPages_def CoreConvertPagesEx_def EndOf_def [symmetric] Let_def)
  then have "CoreInternalFreePages memory pages s = Some (EFI_SUCCESS, Some ty, t\<lparr>gMemoryLock := False\<rparr>)"
    using f e(3) al by (simp add: CoreInternalFreePages_def idle_acquire(1) [OF s(1)] RoundPages_X64 Let_def ri(1))
  then show ?thesis using ri(2,3) t(4) m by (simp add: used_as_def)
qed

text \<open>What was allocated and is given back leaves the map as it was.\<close>

lemma free_allocated:
  assumes "\<And>a. spans start end a \<Longrightarrow> m a = Some (EfiConventionalMemory, attr)" "unat (end + 1) = Suc (unat end)"
  shows "converted True EfiConventionalMemory 0 start (end + 1) (over start end (ty, attr) m) = m"
proof
  fix a
  have "a < end + 1 \<longleftrightarrow> a \<le> end" using assms(2) by (auto simp: word_less_nat_alt word_le_nat_alt)
  then show "converted True EfiConventionalMemory 0 start (end + 1) (over start end (ty, attr) m) a = m a"
    using assms(1) [of a] by (auto simp: converted_def over_def NewEntry_def spans_def)
qed

lemma allocate_and_free:
  assumes s: "idle s" "bins_ok s" "4 \<le> mFreeMemoryMapEntries s" and ty: "allocatable ty"
    and type: "type = AllocateAnyPages \<or> type = AllocateMaxAddress"
    and p: "pages \<noteq> 0" "unat pages < 2 ^ 52" and e: "e \<in> set (gMemoryMap s)" "fits (search_bound type wish) 0 pages e q" "q \<noteq> 0"
  shows "\<exists>start s1 s2. CoreInternalAllocatePages type ty pages (Some wish) s = Some (EFI_SUCCESS, Some start, s1) \<and>
    CoreInternalFreePages start pages s1 = Some (EFI_SUCCESS, Some ty, s2) \<and> idle s2 \<and> types_of s2 = types_of s"
proof -
  have "2 \<le> mFreeMemoryMapEntries s" using s(3) by simp
  from CoreInternalAllocatePages_finds [OF s(1,2) this ty type p e] obtain start d s1 where
    a: "CoreInternalAllocatePages type ty pages (Some wish) s = Some (EFI_SUCCESS, Some start, s1)" "idle s1" "bins_ok s1"
    "d \<in> set (gMemoryMap s)" "fits (search_bound type wish) 0 pages d start"
    "types_of s1 = over start (EndOf start pages) (ty, Attribute d) (types_of s)" "mFreeMemoryMapEntries s \<le> mFreeMemoryMapEntries s1 + 2"
    by blast
  have es: "entries_ok (gMemoryMap s)" using s(1) by (simp add: idle_def map_ok_def)
  then have "page_range (Start d) (End d)" using a(4) by (simp add: entries_ok_def)
  note fr = fits_free_in(1) [OF a(5) this p]
  then have r: "page_range start (EndOf start pages)" "Start d \<le> start" "EndOf start pages \<le> End d" "Type d = EfiConventionalMemory"
    by (simp_all add: free_in_def)
  have free: "types_of s a = Some (EfiConventionalMemory, Attribute d)" if "spans start (EndOf start pages) a" for a
    using mem_at_covers [OF es a(4) covers_piece [OF r(2,3) that]] r(4) by simp
  have nt: "ty \<noteq> EfiConventionalMemory" using ty by (simp add: allocatable_def)
  have used: "used_as (types_of s1) a ty" if "spans start (EndOf start pages) a" for a
    using that nt by (simp add: a(6) used_as_def over_def spans_def)
  obtain ty' s2 where f: "CoreInternalFreePages start pages s1 = Some (EFI_SUCCESS, Some ty', s2)" "used_as (types_of s1) start ty'"
    "idle s2" "types_of s2 = converted True EfiConventionalMemory 0 start (EndOf start pages + 1) (types_of s1)"
    using CoreInternalFreePages_exact [OF a(2,3) _ p(1) r(1)] used a(7) s(3) by fastforce
  have "ty' = ty" using f(2) used [of start] r(1) by (auto simp: used_as_def spans_def page_range_def less_imp_le)
  moreover have "unat (EndOf start pages + 1) = Suc (unat (EndOf start pages))" using r(1) by (simp add: Suc_word_less page_range_def)
  then have "types_of s2 = types_of s" unfolding f(4) a(6) by (intro free_allocated) (simp_all add: free)
  ultimately show ?thesis using a(1) f(1,3) by blast
qed

end
