(* ===== verification/DxeMapService.thy ===== *)
theory DxeMapService
  imports DxeReturns
begin

text \<open>
  The memory map service of the DXE core: \<open>CoreGetMemoryMap\<close> and \<open>CoreTerminateMemoryMap\<close>
  (\<^verbatim>\<open>src/edk2/MdeModulePkg/Core/Dxe/Mem/Page.c\<close>) and \<open>MergeMemoryMap\<close>
  (\<^verbatim>\<open>src/edk2/MdeModulePkg/Core/Dxe/Misc/MemoryAttributesTable.c\<close>).

  The part of the caller's buffer between \<open>MemoryMapStart\<close> and \<open>MemoryMapEnd\<close> is the list of its
  descriptors.  A descriptor that is written beyond the size the caller gave is \<open>None\<close>.  Where the code
  compares the size after such a write, the comparison can only fail when the write
  has already been out of bounds, so that its error exit is not an outcome of its own here.
  The debug code after the map has been built is left out, and the heap guard is off.
\<close>

subsection \<open>Descriptors\<close>

record EFI_MEMORY_DESCRIPTOR =
  DescType :: UINT32
  PhysicalStart :: UINT64
  VirtualStart :: UINT64
  NumberOfPages :: UINT64
  DescAttribute :: UINT64

definition EFI_MEMORY_UC :: UINT64 where "EFI_MEMORY_UC = 0x1"
definition EFI_MEMORY_WC :: UINT64 where "EFI_MEMORY_WC = 0x2"
definition EFI_MEMORY_WT :: UINT64 where "EFI_MEMORY_WT = 0x4"
definition EFI_MEMORY_WB :: UINT64 where "EFI_MEMORY_WB = 0x8"
definition EFI_MEMORY_UCE :: UINT64 where "EFI_MEMORY_UCE = 0x10"
definition EFI_MEMORY_WP :: UINT64 where "EFI_MEMORY_WP = 0x1000"
definition EFI_MEMORY_RP :: UINT64 where "EFI_MEMORY_RP = 0x2000"
definition EFI_MEMORY_XP :: UINT64 where "EFI_MEMORY_XP = 0x4000"
definition EFI_MEMORY_NV :: UINT64 where "EFI_MEMORY_NV = 0x8000"
definition EFI_MEMORY_RO :: UINT64 where "EFI_MEMORY_RO = 0x20000"
definition EFI_MEMORY_CPU_CRYPTO :: UINT64 where "EFI_MEMORY_CPU_CRYPTO = 0x80000"
definition EFI_MEMORY_PORT_IO :: UINT64 where "EFI_MEMORY_PORT_IO = 0x4000000000000000"

definition EFI_CACHE_ATTRIBUTE_MASK :: UINT64 where
  "EFI_CACHE_ATTRIBUTE_MASK = EFI_MEMORY_UC OR EFI_MEMORY_WC OR EFI_MEMORY_WT OR EFI_MEMORY_WB OR EFI_MEMORY_UCE OR EFI_MEMORY_WP"

definition EFI_MEMORY_ACCESS_MASK :: UINT64 where
  "EFI_MEMORY_ACCESS_MASK = EFI_MEMORY_RP OR EFI_MEMORY_XP OR EFI_MEMORY_RO"

definition EFI_MEMORY_ATTRIBUTE_MASK :: UINT64 where
  "EFI_MEMORY_ATTRIBUTE_MASK = EFI_MEMORY_ACCESS_MASK OR EFI_MEMORY_SP OR EFI_MEMORY_CPU_CRYPTO"

text \<open>A descriptor has 40 bytes; the size that is reported is the next multiple of eight above it.\<close>

definition MapDescriptorSize :: nat where
  "MapDescriptorSize = 40 + (8 - 40 mod 8)"

text \<open>The slot behind the first \<open>n\<close> descriptors is in the buffer.\<close>

definition slot :: "UINTN \<Rightarrow> nat \<Rightarrow> bool" where
  "slot limit n \<longleftrightarrow> MapDescriptorSize * Suc n \<le> unat limit"

text \<open>The last descriptor is merged with an earlier one, or stays behind them.\<close>

fun MergeMemoryMapDescriptor :: "EFI_MEMORY_DESCRIPTOR list \<Rightarrow> EFI_MEMORY_DESCRIPTOR \<Rightarrow> EFI_MEMORY_DESCRIPTOR list" where
  "MergeMemoryMapDescriptor [] d = [d]"
| "MergeMemoryMapDescriptor (m # ms) d =
     (if DescType m \<noteq> DescType d then m # MergeMemoryMapDescriptor ms d
      else if DescAttribute m \<noteq> DescAttribute d then m # MergeMemoryMapDescriptor ms d
      else if PhysicalStart m + push_bit 12 (NumberOfPages m) = PhysicalStart d
      then m\<lparr>NumberOfPages := NumberOfPages m + NumberOfPages d\<rparr> # ms
      else if PhysicalStart m - push_bit 12 (NumberOfPages d) = PhysicalStart d
      then m\<lparr>PhysicalStart := PhysicalStart d, VirtualStart := VirtualStart d, NumberOfPages := NumberOfPages m + NumberOfPages d\<rparr> # ms
      else m # MergeMemoryMapDescriptor ms d)"

definition SetEfiMemoryDescriptorType :: "dxe_memory \<Rightarrow> EFI_MEMORY_DESCRIPTOR \<Rightarrow> EFI_MEMORY_TYPE \<Rightarrow> EFI_MEMORY_DESCRIPTOR option" where
  "SetEfiMemoryDescriptorType s d ty =
     (if ty \<ge> EfiMaxMemoryType then Some (d\<lparr>DescType := ty\<rparr>)
      else do {
        st \<leftarrow> rd (mMemoryTypeStatistics s) ty;
        Some (d\<lparr>DescType := ty, DescAttribute := (if Runtime st then DescAttribute d OR EFI_MEMORY_RUNTIME
                                                  else DescAttribute d AND NOT EFI_MEMORY_RUNTIME)\<rparr>) })"

text \<open>Neighbours of the same type and attributes become one; the code does it in place.\<close>

fun MergeMemoryMap_block :: "EFI_MEMORY_DESCRIPTOR \<Rightarrow> EFI_MEMORY_DESCRIPTOR list \<Rightarrow> EFI_MEMORY_DESCRIPTOR \<times> EFI_MEMORY_DESCRIPTOR list" where
  "MergeMemoryMap_block new [] = (new, [])"
| "MergeMemoryMap_block new (m # ms) =
     (if DescType new = DescType m \<and> DescAttribute new = DescAttribute m \<and>
         PhysicalStart new + push_bit 12 (NumberOfPages new) = PhysicalStart m
      then MergeMemoryMap_block (new\<lparr>NumberOfPages := NumberOfPages new + NumberOfPages m\<rparr>) ms
      else (new, m # ms))"

lemma MergeMemoryMap_block_length [termination_simp]:
  "(e, es) = MergeMemoryMap_block d ds \<Longrightarrow> length es < Suc (length ds)"
  by (induction d ds rule: MergeMemoryMap_block.induct) (auto split: if_splits)

fun MergeMemoryMap :: "EFI_MEMORY_DESCRIPTOR list \<Rightarrow> EFI_MEMORY_DESCRIPTOR list" where
  "MergeMemoryMap [] = []"
| "MergeMemoryMap (m # ms) = (case MergeMemoryMap_block m ms of (new, rest) \<Rightarrow> new # MergeMemoryMap rest)"

subsection \<open>Building the map\<close>

definition EntryDescriptor :: "MEMORY_MAP \<Rightarrow> EFI_MEMORY_DESCRIPTOR" where
  "EntryDescriptor entry = \<lparr>DescType = 0, PhysicalStart = Start entry, VirtualStart = 0,
     NumberOfPages = EFI_SIZE_TO_PAGES (End entry - Start entry + 1), DescAttribute = Attribute entry\<rparr>"

fun CoreGetMemoryMap_build :: "dxe_memory \<Rightarrow> UINTN \<Rightarrow> MEMORY_MAP list \<Rightarrow> EFI_MEMORY_DESCRIPTOR list \<Rightarrow>
    EFI_MEMORY_DESCRIPTOR list option" where
  "CoreGetMemoryMap_build s limit [] ds = Some ds"
| "CoreGetMemoryMap_build s limit (entry # link) ds =
     (if slot limit (length ds) then do {
        d \<leftarrow> SetEfiMemoryDescriptorType s (EntryDescriptor entry) (Type entry);
        CoreGetMemoryMap_build s limit link (MergeMemoryMapDescriptor ds d) }
      else None)"

subsection \<open>Splitting at the bins\<close>

definition EntryEnd :: "EFI_MEMORY_DESCRIPTOR \<Rightarrow> UINT64" where
  "EntryEnd d = PhysicalStart d + push_bit 12 (NumberOfPages d) - 1"

text \<open>The first free entry that overlaps the bin, between those before it and those after it.\<close>

fun FindOverlap :: "UINT64 \<Rightarrow> UINT64 \<Rightarrow> EFI_MEMORY_DESCRIPTOR list \<Rightarrow>
    (EFI_MEMORY_DESCRIPTOR list \<times> EFI_MEMORY_DESCRIPTOR \<times> EFI_MEMORY_DESCRIPTOR list) option" where
  "FindOverlap binStart binEnd [] = None"
| "FindOverlap binStart binEnd (d # ds) =
     (if DescType d \<noteq> EfiConventionalMemory \<or> EntryEnd d < binStart \<or> PhysicalStart d > binEnd
      then (case FindOverlap binStart binEnd ds of None \<Rightarrow> None | Some (xs, e, ys) \<Rightarrow> Some (d # xs, e, ys))
      else Some ([], d, ds))"

text \<open>
  The entry is converted to the type of the bin, or split in two or three parts.  Each
  \<open>CopyMem\<close> moves the rest of the map up by one slot.
\<close>

definition SplitEntry :: "dxe_memory \<Rightarrow> UINTN \<Rightarrow> EFI_MEMORY_TYPE \<Rightarrow> UINT64 \<Rightarrow> UINT64 \<Rightarrow> EFI_MEMORY_DESCRIPTOR list \<Rightarrow>
    EFI_MEMORY_DESCRIPTOR \<Rightarrow> EFI_MEMORY_DESCRIPTOR list \<Rightarrow> EFI_MEMORY_DESCRIPTOR list option" where
  "SplitEntry s limit ty binStart binEnd xs d ys =
     (let entryStart = PhysicalStart d; entryEnd = EntryEnd d; n = length (xs @ d # ys) in
      if entryStart \<ge> binStart \<and> entryEnd \<le> binEnd then do {
        d \<leftarrow> SetEfiMemoryDescriptorType s d ty;
        Some (xs @ d # ys) }
      else if entryStart < binStart then do {
        let low = d\<lparr>NumberOfPages := EFI_SIZE_TO_PAGES (binStart - entryStart)\<rparr>;
        if slot limit n then do {
          mid \<leftarrow> SetEfiMemoryDescriptorType s
            (low\<lparr>PhysicalStart := binStart, NumberOfPages := EFI_SIZE_TO_PAGES (entryEnd - binStart + 1)\<rparr>) ty;
          if entryEnd > binEnd then
            if slot limit (Suc n) then do {
              let mid = mid\<lparr>NumberOfPages := EFI_SIZE_TO_PAGES (binEnd - binStart + 1)\<rparr>;
              high \<leftarrow> SetEfiMemoryDescriptorType s
                (mid\<lparr>PhysicalStart := binEnd + 1, NumberOfPages := EFI_SIZE_TO_PAGES (entryEnd - binEnd)\<rparr>) EfiConventionalMemory;
              Some (xs @ low # mid # high # ys) }
            else None
          else Some (xs @ low # mid # ys) }
        else None }
      else do {
        low \<leftarrow> SetEfiMemoryDescriptorType s
          (d\<lparr>PhysicalStart := entryStart, NumberOfPages := EFI_SIZE_TO_PAGES (binEnd - entryStart + 1)\<rparr>) ty;
        if slot limit n then do {
          high \<leftarrow> SetEfiMemoryDescriptorType s
            (low\<lparr>PhysicalStart := binEnd + 1, NumberOfPages := EFI_SIZE_TO_PAGES (entryEnd - binEnd)\<rparr>) EfiConventionalMemory;
          Some (xs @ low # high # ys) }
        else None })"

partial_function (option) CoreGetMemoryMap_bin :: "dxe_memory \<Rightarrow> UINTN \<Rightarrow> EFI_MEMORY_TYPE \<Rightarrow> UINT64 \<Rightarrow> UINT64 \<Rightarrow>
    EFI_MEMORY_DESCRIPTOR list \<Rightarrow> EFI_MEMORY_DESCRIPTOR list option" where
  "CoreGetMemoryMap_bin s limit ty binStart binEnd ds =
     (case FindOverlap binStart binEnd (MergeMemoryMap ds) of
        None \<Rightarrow> Some (MergeMemoryMap ds)
      | Some (xs, d, ys) \<Rightarrow> do {
          ds \<leftarrow> SplitEntry s limit ty binStart binEnd xs d ys;
          CoreGetMemoryMap_bin s limit ty binStart binEnd ds })"

declare CoreGetMemoryMap_bin.simps [code]

fun CoreGetMemoryMap_bins :: "dxe_memory \<Rightarrow> UINTN \<Rightarrow> EFI_MEMORY_TYPE list \<Rightarrow> EFI_MEMORY_DESCRIPTOR list \<Rightarrow>
    EFI_MEMORY_DESCRIPTOR list option" where
  "CoreGetMemoryMap_bins s limit [] ds = Some ds"
| "CoreGetMemoryMap_bins s limit (ty # types) ds = do {
     st \<leftarrow> rd (mMemoryTypeStatistics s) ty;
     if BinPages st = 0 then CoreGetMemoryMap_bins s limit types ds
     else if \<not> Special st then CoreGetMemoryMap_bins s limit types ds
     else do {
       ds \<leftarrow> CoreGetMemoryMap_bin s limit ty (BaseAddress st) (MaximumAddress st) ds;
       CoreGetMemoryMap_bins s limit types ds } }"

subsection \<open>Ranges that are only in the GCD map\<close>

definition RuntimeMmio :: "EFI_GCD_MAP_ENTRY \<Rightarrow> bool" where
  "RuntimeMmio g \<longleftrightarrow> GcdMemoryType g = EfiGcdMemoryTypeMemoryMappedIo \<and> GcdAttributes g AND EFI_MEMORY_RUNTIME = EFI_MEMORY_RUNTIME"

definition listed :: "EFI_GCD_MAP_ENTRY \<Rightarrow> bool" where
  "listed g \<longleftrightarrow> GcdMemoryType g = EfiGcdMemoryTypePersistent \<or> GcdMemoryType g = EfiGcdMemoryTypeReserved \<or>
     GcdMemoryType g = EfiGcdMemoryTypeUnaccepted \<or> RuntimeMmio g"

definition GcdDescriptorType :: "EFI_GCD_MAP_ENTRY \<Rightarrow> EFI_MEMORY_TYPE" where
  "GcdDescriptorType g =
     (if GcdMemoryType g = EfiGcdMemoryTypeReserved then EfiReservedMemoryType
      else if GcdMemoryType g = EfiGcdMemoryTypeMemoryMappedIo then
        (if GcdAttributes g AND EFI_MEMORY_PORT_IO = EFI_MEMORY_PORT_IO then EfiMemoryMappedIOPortSpace else EfiMemoryMappedIO)
      else if GcdMemoryType g = EfiGcdMemoryTypePersistent then EfiPersistentMemory
      else EfiUnacceptedMemoryType)"

definition GcdDescriptorAttribute :: "EFI_GCD_MAP_ENTRY \<Rightarrow> UINT64" where
  "GcdDescriptorAttribute g =
     (if GcdMemoryType g = EfiGcdMemoryTypePersistent then
        GcdAttributes g OR EFI_MEMORY_NV OR (Capabilities g AND (EFI_CACHE_ATTRIBUTE_MASK OR EFI_MEMORY_ATTRIBUTE_MASK))
      else if GcdMemoryType g = EfiGcdMemoryTypeUnaccepted then
        GcdAttributes g OR (Capabilities g AND (EFI_MEMORY_RP OR EFI_MEMORY_WP OR EFI_MEMORY_XP OR EFI_MEMORY_RO OR
          EFI_MEMORY_UC OR EFI_MEMORY_UCE OR EFI_MEMORY_WC OR EFI_MEMORY_WT OR EFI_MEMORY_WB))
      else
        (GcdAttributes g AND NOT EFI_MEMORY_PORT_IO) OR (Capabilities g AND (EFI_CACHE_ATTRIBUTE_MASK OR EFI_MEMORY_ATTRIBUTE_MASK)))"

definition GcdDescriptor :: "EFI_GCD_MAP_ENTRY \<Rightarrow> EFI_MEMORY_DESCRIPTOR" where
  "GcdDescriptor g = \<lparr>DescType = GcdDescriptorType g, PhysicalStart = GcdBaseAddress g, VirtualStart = 0,
     NumberOfPages = drop_bit 12 (EndAddress g - GcdBaseAddress g + 1), DescAttribute = GcdDescriptorAttribute g\<rparr>"

definition AddGcdRange :: "UINTN \<Rightarrow> EFI_GCD_MAP_ENTRY \<Rightarrow> EFI_MEMORY_DESCRIPTOR list \<Rightarrow> EFI_MEMORY_DESCRIPTOR list option" where
  "AddGcdRange limit g ds =
     (if listed g then
        (if GcdBaseAddress g AND EFI_PAGE_MASK = 0 \<and> (EndAddress g - GcdBaseAddress g + 1) AND EFI_PAGE_MASK = 0 \<and> slot limit (length ds)
         then Some (MergeMemoryMapDescriptor ds (GcdDescriptor g)) else None)
      else Some ds)"

text \<open>Neighbouring ranges of the same kind are collected in \<open>merge\<close>, which is all zero at first.\<close>

definition same_kind :: "EFI_GCD_MAP_ENTRY \<Rightarrow> EFI_GCD_MAP_ENTRY \<Rightarrow> bool" where
  "same_kind g h \<longleftrightarrow> Capabilities g = Capabilities h \<and> GcdAttributes g = GcdAttributes h \<and>
     GcdMemoryType g = GcdMemoryType h \<and> GcdIoType g = GcdIoType h"

definition NoGcdEntry :: EFI_GCD_MAP_ENTRY where
  "NoGcdEntry = \<lparr>GcdBaseAddress = 0, EndAddress = 0, Capabilities = 0, GcdAttributes = 0, GcdMemoryType = 0, GcdIoType = 0\<rparr>"

fun CoreGetMemoryMap_gcd :: "UINTN \<Rightarrow> EFI_GCD_MAP_ENTRY list \<Rightarrow> EFI_GCD_MAP_ENTRY \<Rightarrow> EFI_MEMORY_DESCRIPTOR list \<Rightarrow>
    EFI_MEMORY_DESCRIPTOR list option" where
  "CoreGetMemoryMap_gcd limit [] merge ds = AddGcdRange limit merge ds"
| "CoreGetMemoryMap_gcd limit (g # link) merge ds =
     (if same_kind merge g then CoreGetMemoryMap_gcd limit link (merge\<lparr>EndAddress := EndAddress g\<rparr>) ds
      else do {
        ds \<leftarrow> AddGcdRange limit merge ds;
        CoreGetMemoryMap_gcd limit link g ds })"

subsection \<open>The services\<close>

text \<open>The number of descriptors that the caller is asked to make room for.\<close>

definition split_bins :: "dxe_memory \<Rightarrow> nat" where
  "split_bins s = length (filter (\<lambda>st. Special st \<and> BinPages st > 0) (take (unat EfiMaxMemoryType) (mMemoryTypeStatistics s)))"

definition NeededSize :: "dxe_memory \<Rightarrow> UINTN" where
  "NeededSize s = of_nat (MapDescriptorSize * (length (filter listed (mGcdMemorySpaceMap s)) + length (gMemoryMap s) + 2 * split_bins s))"

definition ClearAccess :: "EFI_MEMORY_DESCRIPTOR \<Rightarrow> EFI_MEMORY_DESCRIPTOR" where
  "ClearAccess d = d\<lparr>DescAttribute := DescAttribute d AND NOT EFI_MEMORY_ACCESS_MASK\<rparr>"

definition WriteMemoryMap :: "dxe_memory \<Rightarrow> UINTN \<Rightarrow> EFI_MEMORY_DESCRIPTOR list option" where
  "WriteMemoryMap s limit = do {
     ds \<leftarrow> CoreGetMemoryMap_build s limit (gMemoryMap s) [];
     ds \<leftarrow> CoreGetMemoryMap_bins s limit (map of_nat [0..<unat EfiMaxMemoryType]) ds;
     ds \<leftarrow> CoreGetMemoryMap_gcd limit (mGcdMemorySpaceMap s) NoGcdEntry ds;
     Some (MergeMemoryMap (map ClearAccess ds)) }"

text \<open>
  The status, the size and the key that are stored, and the descriptors in the buffer; \<open>buffer\<close> says
  whether the caller gives one.
\<close>

definition CoreGetMemoryMap :: "UINTN option \<Rightarrow> bool \<Rightarrow> dxe_memory \<Rightarrow>
    (EFI_STATUS \<times> UINTN option \<times> UINTN option \<times> EFI_MEMORY_DESCRIPTOR list \<times> dxe_memory) option" where
  "CoreGetMemoryMap memoryMapSize buffer s =
     (case memoryMapSize of
        None \<Rightarrow> Some (EFI_INVALID_PARAMETER, None, None, [], s)
      | Some limit \<Rightarrow> do {
          s \<leftarrow> CoreAcquireGcdMemoryLock s;
          s \<leftarrow> CoreAcquireMemoryLock s;
          let needed = NeededSize s;
          (status, used, ds) \<leftarrow>
            (if limit < needed then Some (EFI_BUFFER_TOO_SMALL, needed, [])
             else if \<not> buffer then Some (EFI_INVALID_PARAMETER, needed, [])
             else do { ds \<leftarrow> WriteMemoryMap s limit; Some (EFI_SUCCESS, of_nat (MapDescriptorSize * length ds), ds) });
          let key = mMemoryMapKey s;
          s \<leftarrow> CoreReleaseMemoryLock s;
          s \<leftarrow> CoreReleaseGcdMemoryLock s;
          Some (status, Some used, Some key, ds, s) })"

text \<open>The last check of the map: a runtime entry is never of an ACPI type, and is aligned.\<close>

definition RuntimeEntryOk :: "dxe_memory \<Rightarrow> MEMORY_MAP \<Rightarrow> bool option" where
  "RuntimeEntryOk s entry =
     (if Type entry < EfiMaxMemoryType then do {
        st \<leftarrow> rd (mMemoryTypeStatistics s) (Type entry);
        if Runtime st then
          if Type entry = EfiACPIReclaimMemory \<or> Type entry = EfiACPIMemoryNVS then None
          else Some (Start entry AND (RUNTIME_PAGE_ALLOCATION_GRANULARITY - 1) = 0 \<and>
                     (End entry + 1) AND (RUNTIME_PAGE_ALLOCATION_GRANULARITY - 1) = 0)
        else Some True }
      else Some True)"

fun RuntimeEntriesOk :: "dxe_memory \<Rightarrow> MEMORY_MAP list \<Rightarrow> bool option" where
  "RuntimeEntriesOk s [] = Some True"
| "RuntimeEntriesOk s (entry # link) = do { ok \<leftarrow> RuntimeEntryOk s entry; if ok then RuntimeEntriesOk s link else Some False }"

definition CoreTerminateMemoryMap :: "UINTN \<Rightarrow> dxe_memory \<Rightarrow> (EFI_STATUS \<times> dxe_memory) option" where
  "CoreTerminateMemoryMap mapKey s = do {
     s \<leftarrow> CoreAcquireMemoryLock s;
     status \<leftarrow> (if mapKey = mMemoryMapKey s then do {
         ok \<leftarrow> RuntimeEntriesOk s (gMemoryMap s);
         Some (if ok then EFI_SUCCESS else EFI_INVALID_PARAMETER) }
       else Some EFI_INVALID_PARAMETER);
     s \<leftarrow> CoreReleaseMemoryLock s;
     Some (status, s) }"

end
