(* ===== verification/DxeMapList.thy ===== *)
theory DxeMapList
  imports DxeMapService
begin

text \<open>
  What the memory map service writes: lists of descriptors that do not overlap, the addresses that a list
  assigns to a type, and what merging and splitting do to them.  Addresses are natural
  numbers here, and a descriptor is the half open interval from \<open>dlo\<close> to \<open>dhi\<close>.
\<close>

subsection \<open>Descriptors as intervals\<close>

definition dlo :: "EFI_MEMORY_DESCRIPTOR \<Rightarrow> nat" where "dlo d = unat (PhysicalStart d)"
definition dhi :: "EFI_MEMORY_DESCRIPTOR \<Rightarrow> nat" where "dhi d = dlo d + unat (NumberOfPages d) * 4096"

definition desc_ok :: "EFI_MEMORY_DESCRIPTOR \<Rightarrow> bool" where
  "desc_ok d \<longleftrightarrow> 4096 dvd dlo d \<and> dlo d < dhi d \<and> dhi d < 2 ^ 64"

definition dapart :: "EFI_MEMORY_DESCRIPTOR \<Rightarrow> EFI_MEMORY_DESCRIPTOR \<Rightarrow> bool" where
  "dapart d e \<longleftrightarrow> dhi d \<le> dlo e \<or> dhi e \<le> dlo d"

definition descs_ok :: "EFI_MEMORY_DESCRIPTOR list \<Rightarrow> bool" where
  "descs_ok ds \<longleftrightarrow> (\<forall>d \<in> set ds. desc_ok d) \<and> sorted_wrt dapart ds"

definition dcovers :: "EFI_MEMORY_DESCRIPTOR \<Rightarrow> nat \<Rightarrow> bool" where
  "dcovers d n \<longleftrightarrow> dlo d \<le> n \<and> n < dhi d"

text \<open>The list gives the address this type.\<close>

definition typed :: "EFI_MEMORY_DESCRIPTOR list \<Rightarrow> nat \<Rightarrow> UINT32 \<Rightarrow> bool" where
  "typed ds n t \<longleftrightarrow> (\<exists>d \<in> set ds. dcovers d n \<and> DescType d = t)"

lemma dapart_sym: "dapart d e = dapart e d"
  by (auto simp: dapart_def)

lemma descs_ok_Nil [simp]: "descs_ok []"
  by (simp add: descs_ok_def)

lemma descs_ok_append:
  "descs_ok (xs @ ys) \<longleftrightarrow> descs_ok xs \<and> descs_ok ys \<and> (\<forall>x \<in> set xs. \<forall>y \<in> set ys. dapart x y)"
  by (auto simp: descs_ok_def sorted_wrt_append)

lemma descs_ok_Cons: "descs_ok (x # xs) \<longleftrightarrow> desc_ok x \<and> descs_ok xs \<and> (\<forall>y \<in> set xs. dapart x y)"
  by (auto simp: descs_ok_def)

lemma descs_ok_mid:
  "descs_ok (xs @ d # ys) \<longleftrightarrow> descs_ok (xs @ ys) \<and> desc_ok d \<and> (\<forall>e \<in> set (xs @ ys). dapart d e)"
  by (auto simp: descs_ok_append descs_ok_Cons dapart_sym)

lemma typed_simps [simp]:
  "typed [] n t \<longleftrightarrow> False" "typed (xs @ ys) n t \<longleftrightarrow> typed xs n t \<or> typed ys n t"
  "typed (d # ds) n t \<longleftrightarrow> dcovers d n \<and> DescType d = t \<or> typed ds n t"
  by (auto simp: typed_def)

lemma typed_unique:
  assumes "descs_ok ds" "typed ds n t" "typed ds n u" shows "t = u"
proof -
  have "d = e" if "d \<in> set ds" "e \<in> set ds" "dcovers d n" "dcovers e n" for d e
    using assms(1) that
  proof (induction ds)
    case (Cons x xs)
    then show ?case by (auto simp: descs_ok_Cons dapart_def dcovers_def)
  qed simp
  then show ?thesis using assms(2,3) by (auto simp: typed_def)
qed

lemma desc_pages:
  assumes "desc_ok d"
  shows "unat (push_bit 12 (NumberOfPages d)) = dhi d - dlo d" "unat (PhysicalStart d + push_bit 12 (NumberOfPages d)) = dhi d"
    "unat (EntryEnd d) = dhi d - 1" "unat (NumberOfPages d) * 4096 = dhi d - dlo d"
proof -
  have "unat (NumberOfPages d) < 2 ^ 52" using assms by (simp add: desc_ok_def dhi_def)
  then show p: "unat (push_bit 12 (NumberOfPages d)) = dhi d - dlo d" by (simp add: bytes_of_pages dhi_def)
  show s: "unat (PhysicalStart d + push_bit 12 (NumberOfPages d)) = dhi d"
    using assms p by (subst unat_add_lem [THEN iffD1]) (simp_all add: desc_ok_def dlo_def)
  show "unat (EntryEnd d) = dhi d - 1"
    unfolding EntryEnd_def using assms s by (subst unat_sub) (auto simp: desc_ok_def word_le_nat_alt)
  show "unat (NumberOfPages d) * 4096 = dhi d - dlo d" by (simp add: dhi_def)
qed

lemma desc_aligned: "desc_ok d \<Longrightarrow> 4096 dvd dlo d" "desc_ok d \<Longrightarrow> 4096 dvd dhi d"
  by (simp_all add: desc_ok_def dhi_def)

subsection \<open>Joining neighbours\<close>

definition joined :: "EFI_MEMORY_DESCRIPTOR \<Rightarrow> EFI_MEMORY_DESCRIPTOR \<Rightarrow> EFI_MEMORY_DESCRIPTOR \<Rightarrow> bool" where
  "joined m d j \<longleftrightarrow> desc_ok m \<and> desc_ok d \<and> desc_ok j \<and> DescType m = DescType d \<and> DescType j = DescType m \<and>
     (dlo j = dlo m \<and> dhi j = dhi d \<and> dhi m = dlo d \<or> dlo j = dlo d \<and> dhi j = dhi m \<and> dhi d = dlo m)"

lemma joined_covers: "joined m d j \<Longrightarrow> dcovers j n \<longleftrightarrow> dcovers m n \<or> dcovers d n"
  by (auto simp: joined_def dcovers_def desc_ok_def)

lemma joined_apart: "joined m d j \<Longrightarrow> desc_ok e \<Longrightarrow> dapart m e \<Longrightarrow> dapart d e \<Longrightarrow> dapart j e"
  by (auto simp: joined_def dapart_def desc_ok_def)

lemma sum_pages:
  assumes "desc_ok m" "desc_ok d" "dhi m = dlo d"
  shows "unat (NumberOfPages m + NumberOfPages d) = unat (NumberOfPages m) + unat (NumberOfPages d)"
proof -
  have "unat (NumberOfPages m) + unat (NumberOfPages d) < 2 ^ 64" using assms by (simp add: desc_ok_def dhi_def)
  then show ?thesis by (subst unat_add_lem [THEN iffD1]) simp_all
qed

lemma joined_above:
  assumes "desc_ok m" "desc_ok d" "DescType m = DescType d"
    and "PhysicalStart m + push_bit 12 (NumberOfPages m) = PhysicalStart d"
  shows "joined m d (m\<lparr>NumberOfPages := NumberOfPages m + NumberOfPages d\<rparr>)"
proof -
  have a: "dhi m = dlo d" using desc_pages(2) [OF assms(1)] assms(4) by (simp add: dlo_def)
  let ?j = "m\<lparr>NumberOfPages := NumberOfPages m + NumberOfPages d\<rparr>"
  have "dlo ?j = dlo m" "dhi ?j = dhi d" using sum_pages [OF assms(1,2) a] a by (simp_all add: dhi_def dlo_def)
  then show ?thesis using assms(1-3) a by (auto simp: joined_def desc_ok_def)
qed

lemma joined_below:
  assumes "desc_ok m" "desc_ok d" "DescType m = DescType d" "dapart m d"
    and "PhysicalStart m - push_bit 12 (NumberOfPages d) = PhysicalStart d"
  shows "joined m d (m\<lparr>PhysicalStart := PhysicalStart d, VirtualStart := VirtualStart d, NumberOfPages := NumberOfPages m + NumberOfPages d\<rparr>)"
proof -
  have "PhysicalStart m = PhysicalStart d + push_bit 12 (NumberOfPages d)" using assms(5) by (simp add: algebra_simps)
  then have a: "dhi d = dlo m" using desc_pages(2) [OF assms(2)] by (simp add: dlo_def)
  let ?j = "m\<lparr>PhysicalStart := PhysicalStart d, VirtualStart := VirtualStart d, NumberOfPages := NumberOfPages m + NumberOfPages d\<rparr>"
  have "dlo ?j = dlo d" "dhi ?j = dhi m" using sum_pages [OF assms(2,1) a] a by (simp_all add: dhi_def dlo_def add.commute)
  then show ?thesis using assms(1-3) a by (auto simp: joined_def desc_ok_def)
qed

text \<open>A weight that does not grow when neighbours are joined.\<close>

definition subadditive :: "(EFI_MEMORY_DESCRIPTOR \<Rightarrow> nat) \<Rightarrow> bool" where
  "subadditive w \<longleftrightarrow> (\<forall>m d j. joined m d j \<longrightarrow> w j \<le> w m + w d)"

abbreviation weight :: "(EFI_MEMORY_DESCRIPTOR \<Rightarrow> nat) \<Rightarrow> EFI_MEMORY_DESCRIPTOR list \<Rightarrow> nat" where
  "weight w ds \<equiv> sum_list (map w ds)"

text \<open>What merging keeps.\<close>

definition regrouped :: "EFI_MEMORY_DESCRIPTOR list \<Rightarrow> EFI_MEMORY_DESCRIPTOR list \<Rightarrow> bool" where
  "regrouped ds es \<longleftrightarrow> descs_ok es \<and> (\<forall>n t. typed es n t \<longleftrightarrow> typed ds n t) \<and> (\<forall>e. desc_ok e \<longrightarrow> (\<forall>d \<in> set ds. dapart d e) \<longrightarrow> (\<forall>d \<in> set es. dapart d e)) \<and>
     (\<forall>w. subadditive w \<longrightarrow> weight w es \<le> weight w ds)"

lemma regrouped_refl: "descs_ok ds \<Longrightarrow> regrouped ds ds"
  by (simp add: regrouped_def)

lemma regrouped_trans: "regrouped ds es \<Longrightarrow> regrouped es fs \<Longrightarrow> regrouped ds fs"
  unfolding regrouped_def by (meson order_trans)

lemma regrouped_joined:
  assumes "descs_ok (m # d # ds)" "joined m d j"
  shows "regrouped (m # d # ds) (j # ds)"
proof -
  have "dapart j e" if "e \<in> set ds" for e
    using assms that by (intro joined_apart [OF assms(2)]) (auto simp: descs_ok_def)
  moreover have "weight w (j # ds) \<le> weight w (m # d # ds)" if "subadditive w" for w
    using that assms(2) by (auto simp: subadditive_def)
  moreover have "DescType j = DescType m" "DescType d = DescType m" using assms(2) by (simp_all add: joined_def)
  ultimately show ?thesis using assms joined_covers [OF assms(2)] joined_apart [OF assms(2)]
    by (auto simp: regrouped_def descs_ok_Cons joined_def)
qed

lemma regrouped_Cons:
  assumes "descs_ok (d # ds)" "regrouped ds es"
  shows "regrouped (d # ds) (d # es)"
proof -
  have "\<forall>e \<in> set es. dapart d e" using assms by (auto simp: regrouped_def descs_ok_Cons dapart_sym)
  then show ?thesis using assms by (auto simp: regrouped_def descs_ok_Cons)
qed

lemma regrouped_swap:
  assumes "descs_ok (xs @ ys)" shows "regrouped (xs @ ys) (ys @ xs)"
  using assms dapart_sym by (simp add: regrouped_def descs_ok_append) blast

lemma MergeMemoryMapDescriptor_regroups:
  assumes "descs_ok (ds @ [d])" shows "regrouped (ds @ [d]) (MergeMemoryMapDescriptor ds d)"
  using assms
proof (induction ds d rule: MergeMemoryMapDescriptor.induct)
  case (1 d)
  then show ?case by (simp add: regrouped_refl)
next
  case (2 m ms d)
  have ok: "desc_ok m" "desc_ok d" "dapart m d" "descs_ok (ms @ [d])" using "2.prems" by (auto simp: descs_ok_append descs_ok_Cons)
  have keep: "regrouped ((m # ms) @ [d]) (m # MergeMemoryMapDescriptor ms d)"
    if "descs_ok (ms @ [d]) \<Longrightarrow> regrouped (ms @ [d]) (MergeMemoryMapDescriptor ms d)"
    using regrouped_Cons [of m "ms @ [d]"] "2.prems" that ok(4) by simp
  have join: "regrouped ((m # ms) @ [d]) (j # ms)" if j: "joined m d j" for j
  proof -
    have "regrouped ((m # ms) @ [d]) ([d] @ m # ms)" by (rule regrouped_swap [OF "2.prems"])
    moreover have "regrouped ([d] @ m # ms) (m # d # ms)"
      using "2.prems" by (auto simp: regrouped_def descs_ok_append descs_ok_Cons dapart_sym)
    moreover have "regrouped (m # d # ms) (j # ms)"
      using "2.prems" j by (intro regrouped_joined) (auto simp: descs_ok_append descs_ok_Cons dapart_sym)
    ultimately show ?thesis by (blast intro: regrouped_trans)
  qed
  consider "DescType m \<noteq> DescType d \<or> DescAttribute m \<noteq> DescAttribute d"
    | "DescType m = DescType d" "DescAttribute m = DescAttribute d" "PhysicalStart m + push_bit 12 (NumberOfPages m) = PhysicalStart d"
    | "DescType m = DescType d" "DescAttribute m = DescAttribute d" "PhysicalStart m + push_bit 12 (NumberOfPages m) \<noteq> PhysicalStart d"
      "PhysicalStart m - push_bit 12 (NumberOfPages d) = PhysicalStart d"
    | "DescType m = DescType d" "DescAttribute m = DescAttribute d" "PhysicalStart m + push_bit 12 (NumberOfPages m) \<noteq> PhysicalStart d"
      "PhysicalStart m - push_bit 12 (NumberOfPages d) \<noteq> PhysicalStart d"
    by blast
  then show ?case
  proof cases
    case 1
    then show ?thesis using keep "2.IH"(1,2) by auto
  next
    case 2
    then show ?thesis using join [OF joined_above [OF ok(1,2)]] by simp
  next
    case 3
    then show ?thesis using join [OF joined_below [OF ok(1-2) _ ok(3)]] by simp
  next
    case 4
    then show ?thesis using keep "2.IH"(3) by simp
  qed
qed

lemma MergeMemoryMap_block_regroups:
  "MergeMemoryMap_block d ds = (e, es) \<Longrightarrow> descs_ok (d # ds) \<Longrightarrow> regrouped (d # ds) (e # es)"
proof (induction d ds rule: MergeMemoryMap_block.induct)
  case (2 d m ms)
  have ok: "desc_ok d" "desc_ok m" using "2.prems"(2) by (simp_all add: descs_ok_Cons)
  show ?case
  proof (cases "DescType d = DescType m \<and> DescAttribute d = DescAttribute m \<and> PhysicalStart d + push_bit 12 (NumberOfPages d) = PhysicalStart m")
    case True
    let ?j = "d\<lparr>NumberOfPages := NumberOfPages d + NumberOfPages m\<rparr>"
    have j: "regrouped (d # m # ms) (?j # ms)" using joined_above [OF ok] True by (intro regrouped_joined [OF "2.prems"(2)]) simp
    then have "descs_ok (?j # ms)" by (simp add: regrouped_def)
    with "2.IH" [OF True] "2.prems"(1) True have "regrouped (?j # ms) (e # es)" by simp
    then show ?thesis using j by (rule regrouped_trans [rotated])
  next
    case False
    then show ?thesis using "2.prems" by (auto intro: regrouped_refl)
  qed
qed (simp add: regrouped_refl)

lemma MergeMemoryMap_regroups: "descs_ok ds \<Longrightarrow> regrouped ds (MergeMemoryMap ds)"
proof (induction ds rule: MergeMemoryMap.induct)
  case (2 m ms)
  obtain e es where b: "MergeMemoryMap_block m ms = (e, es)" by (metis prod.exhaust)
  have r: "regrouped (m # ms) (e # es)" by (rule MergeMemoryMap_block_regroups [OF b "2.prems"])
  then have ok: "descs_ok (e # es)" by (simp add: regrouped_def)
  then have "regrouped es (MergeMemoryMap es)" using "2.IH" [OF b [symmetric]] by (simp add: descs_ok_Cons)
  then have "regrouped (e # es) (e # MergeMemoryMap es)" by (rule regrouped_Cons [OF ok])
  then show ?case using r b by (auto intro: regrouped_trans)
qed (simp add: regrouped_refl)

lemma subadditive_one: "subadditive (\<lambda>d. 1)"
  by (simp add: subadditive_def)

lemma regrouped_length: "regrouped ds es \<Longrightarrow> length es \<le> length ds"
  using subadditive_one by (fastforce simp: regrouped_def sum_list_triv)

end
