(* ===== verification/DxeMapSpec.thy ===== *)
theory DxeMapSpec
  imports DxeMapList
begin

text \<open>
  \<open>CoreGetMemoryMap\<close>: the size that it asks for is enough, the loop that splits entries at the bins ends,
  and the descriptors say of each address what the memory map and the GCD map say of it.
\<close>

subsection \<open>The entries of the map\<close>

lemma unat_drop_12: "unat (drop_bit 12 (x :: UINT64)) = unat x div 4096"
  by (simp add: drop_bit_eq_div unat_div)

lemma size_to_pages: "4096 dvd unat x \<Longrightarrow> unat (EFI_SIZE_TO_PAGES x) * 4096 = unat x"
  by (simp add: EFI_SIZE_TO_PAGES_def page_aligned [symmetric] unat_drop_12)

lemma dapart_typed:
  assumes "desc_ok d" "\<forall>e \<in> set ds. desc_ok e"
  shows "(\<forall>e \<in> set ds. dapart d e) \<longleftrightarrow> (\<forall>n t. dcovers d n \<longrightarrow> \<not> typed ds n t)"
proof
  assume "\<forall>e \<in> set ds. dapart d e"
  then show "\<forall>n t. dcovers d n \<longrightarrow> \<not> typed ds n t" by (fastforce simp: typed_def dcovers_def dapart_def)
next
  assume a: "\<forall>n t. dcovers d n \<longrightarrow> \<not> typed ds n t"
  show "\<forall>e \<in> set ds. dapart d e"
  proof (rule ballI, rule ccontr)
    fix e assume e: "e \<in> set ds" "\<not> dapart d e"
    then have "dcovers d (max (dlo d) (dlo e))" "dcovers e (max (dlo d) (dlo e))"
      using assms by (auto simp: dapart_def dcovers_def desc_ok_def)
    then show False using a e(1) by (auto simp: typed_def)
  qed
qed

text \<open>Setting the type changes the type and an attribute bit only.\<close>

lemma SetEfiMemoryDescriptorType_returns:
  assumes "17 \<le> length (mMemoryTypeStatistics s)"
  shows "\<exists>d'. SetEfiMemoryDescriptorType s d ty = Some d' \<and> DescType d' = ty \<and> PhysicalStart d' = PhysicalStart d \<and>
    NumberOfPages d' = NumberOfPages d"
proof (cases "ty \<ge> EfiMaxMemoryType")
  case False
  then have "unat ty < length (mMemoryTypeStatistics s)" using assms by (simp add: EfiMaxMemoryType_def word_le_nat_alt)
  then show ?thesis using False by (simp add: SetEfiMemoryDescriptorType_def rd_def)
qed (simp add: SetEfiMemoryDescriptorType_def)

text \<open>The code builds a descriptor from a start and a length in bytes.\<close>

lemma desc_from_bytes:
  assumes "PhysicalStart d = a" "NumberOfPages d = EFI_SIZE_TO_PAGES b" "4096 dvd unat a" "4096 dvd unat b"
    "0 < unat b" "unat a + unat b < 2 ^ 64"
  shows "desc_ok d" "dlo d = unat a" "dhi d = unat a + unat b"
proof -
  show lo: "dlo d = unat a" using assms(1) by (simp add: dlo_def)
  show hi: "dhi d = unat a + unat b" using assms(2) size_to_pages [OF assms(4)] lo by (simp add: dhi_def)
  show "desc_ok d" using assms lo hi by (simp add: desc_ok_def)
qed

lemma range_bytes:
  assumes "page_range s e"
  shows "unat (e - s + 1) = Suc (unat e) - unat s" "4096 dvd Suc (unat e) - unat s"
proof -
  have r: "4096 dvd unat s" "4096 dvd Suc (unat e)" "unat s < unat e" "unat e < 0xFFFFFFFFFFFFFFFF"
    using assms by (simp_all add: page_range_def word_less_nat_alt)
  have "unat (e - s) = unat e - unat s" using r(3) by (simp add: unat_diff word_le_nat_alt)
  moreover have "unat (e - s + 1) = Suc (unat (e - s))" using r(4) calculation by (intro Suc_word_less) (simp add: word_less_nat_alt)
  ultimately show "unat (e - s + 1) = Suc (unat e) - unat s" using r(3) by simp
  show "4096 dvd Suc (unat e) - unat s" using r by (intro dvd_diff_nat) simp_all
qed

lemma EntryDescriptor_ok:
  assumes "page_range (Start e) (End e)" "PhysicalStart d = Start e" "NumberOfPages d = NumberOfPages (EntryDescriptor e)"
  shows "desc_ok d" "dlo d = unat (Start e)" "dhi d = Suc (unat (End e))"
proof -
  have r: "4096 dvd unat (Start e)" "unat (Start e) < unat (End e)" "unat (End e) < 0xFFFFFFFFFFFFFFFF"
    using assms(1) by (simp_all add: page_range_def word_less_nat_alt)
  have n: "NumberOfPages d = EFI_SIZE_TO_PAGES (End e - Start e + 1)" using assms(3) by (simp add: EntryDescriptor_def)
  note b = range_bytes [OF assms(1)]
  note f = desc_from_bytes [OF assms(2) n r(1)]
  show "desc_ok d" "dlo d = unat (Start e)" "dhi d = Suc (unat (End e))"
    using f b r by simp_all
qed

lemma covers_nat: "covers e a \<longleftrightarrow> unat (Start e) \<le> unat a \<and> unat a \<le> unat (End e)"
  by (simp add: covers_def word_le_nat_alt)

definition entry_typed :: "MEMORY_MAP list \<Rightarrow> nat \<Rightarrow> UINT32 \<Rightarrow> bool" where
  "entry_typed es n t \<longleftrightarrow> (\<exists>e \<in> set es. unat (Start e) \<le> n \<and> n \<le> unat (End e) \<and> Type e = t)"

lemma entry_typed_simps [simp]:
  "entry_typed [] n t \<longleftrightarrow> False"
  "entry_typed (e # es) n t \<longleftrightarrow> unat (Start e) \<le> n \<and> n \<le> unat (End e) \<and> Type e = t \<or> entry_typed es n t"
  by (auto simp: entry_typed_def)

lemma entry_typed_apart:
  assumes "entries_ok (e # es)" "unat (Start e) \<le> n" "n \<le> unat (End e)"
  shows "\<not> entry_typed es n t"
  using assms by (fastforce simp: entry_typed_def entries_ok_Cons apart_entries_def apart_ranges_def word_less_nat_alt)

lemma CoreGetMemoryMap_build_ok:
  assumes "17 \<le> length (mMemoryTypeStatistics s)"
  shows "entries_ok es \<Longrightarrow> descs_ok ds \<Longrightarrow> (\<And>n t u. entry_typed es n t \<Longrightarrow> \<not> typed ds n u) \<Longrightarrow>
    MapDescriptorSize * (length ds + length es) \<le> unat limit \<Longrightarrow>
    \<exists>ds'. CoreGetMemoryMap_build s limit es ds = Some ds' \<and> descs_ok ds' \<and> length ds' \<le> length ds + length es \<and>
      (\<forall>n t. typed ds' n t \<longleftrightarrow> typed ds n t \<or> entry_typed es n t)"
proof (induction es arbitrary: ds)
  case (Cons e es)
  have pe: "page_range (Start e) (End e)" "entries_ok es" using Cons.prems(1) by (simp_all add: entries_ok_Cons)
  obtain d where d: "SetEfiMemoryDescriptorType s (EntryDescriptor e) (Type e) = Some d" "DescType d = Type e"
    "PhysicalStart d = Start e" "NumberOfPages d = NumberOfPages (EntryDescriptor e)"
    using SetEfiMemoryDescriptorType_returns [OF assms, of "EntryDescriptor e" "Type e"] by (auto simp: EntryDescriptor_def)
  note dk = EntryDescriptor_ok [OF pe(1) d(3,4)]
  have cov: "dcovers d n \<longleftrightarrow> unat (Start e) \<le> n \<and> n \<le> unat (End e)" for n using dk by (auto simp: dcovers_def)
  have "\<forall>x \<in> set ds. desc_ok x" using Cons.prems(2) by (simp add: descs_ok_def)
  moreover have "\<not> typed ds n u" if "dcovers d n" for n u using Cons.prems(3) [of n "Type e" u] that cov by simp
  ultimately have "\<forall>x \<in> set ds. dapart d x" using dapart_typed [OF dk(1)] by blast
  then have ok: "descs_ok (ds @ [d])" using Cons.prems(2) dk(1) by (auto simp: descs_ok_append descs_ok_Cons dapart_sym)
  let ?r = "MergeMemoryMapDescriptor ds d"
  have r: "regrouped (ds @ [d]) ?r" by (rule MergeMemoryMapDescriptor_regroups [OF ok])
  then have rt: "descs_ok ?r" "\<And>n t. typed ?r n t \<longleftrightarrow> typed ds n t \<or> dcovers d n \<and> Type e = t" "length ?r \<le> Suc (length ds)"
    using regrouped_length [OF r] d(2) by (auto simp: regrouped_def)
  have "\<not> typed ?r n u" if "entry_typed es n t" for n t u
    using rt(2) cov entry_typed_apart [OF Cons.prems(1)] Cons.prems(3) [of n t u] that by auto
  moreover have "MapDescriptorSize * (length ?r + length es) \<le> unat limit"
    by (rule order_trans [OF _ Cons.prems(4)]) (use rt(3) in \<open>intro mult_le_mono2, simp\<close>)
  ultimately obtain ds' where "CoreGetMemoryMap_build s limit es ?r = Some ds'" "descs_ok ds'" "length ds' \<le> length ?r + length es"
    "\<forall>n t. typed ds' n t \<longleftrightarrow> typed ?r n t \<or> entry_typed es n t" using Cons.IH [OF pe(2) rt(1)] by blast
  moreover have "slot limit (length ds)"
    unfolding slot_def by (rule order_trans [OF _ Cons.prems(4)]) (intro mult_le_mono2, simp)
  ultimately show ?case using d(1) rt(2,3) cov by (intro exI [of _ ds']) auto
qed simp

subsection \<open>Splitting at a bin\<close>

text \<open>A bin is a range of pages; \<open>lo\<close> is its first address and \<open>hi\<close> the first one behind it.\<close>

definition in_bin :: "UINT64 \<Rightarrow> UINT64 \<Rightarrow> nat \<Rightarrow> bool" where
  "in_bin binStart binEnd n \<longleftrightarrow> unat binStart \<le> n \<and> n \<le> unat binEnd"

text \<open>Free entries over a boundary, and free entries that overlap the bin.\<close>

definition cuts :: "nat \<Rightarrow> EFI_MEMORY_DESCRIPTOR \<Rightarrow> nat" where
  "cuts b d = (if DescType d = EfiConventionalMemory \<and> dlo d < b \<and> b < dhi d then 1 else 0)"

definition meets :: "nat \<Rightarrow> nat \<Rightarrow> EFI_MEMORY_DESCRIPTOR \<Rightarrow> nat" where
  "meets lo hi d = (if DescType d = EfiConventionalMemory \<and> dlo d < hi \<and> lo < dhi d then 1 else 0)"

text \<open>The room that a descriptor needs when it is split.\<close>

definition room :: "nat \<Rightarrow> nat \<Rightarrow> EFI_MEMORY_DESCRIPTOR \<Rightarrow> nat" where
  "room lo hi d = 1 + cuts lo d + cuts hi d"

lemma cuts_joined:
  assumes "joined m d j"
  shows "\<exists>c. \<forall>b. cuts b j \<le> cuts b m + cuts b d + (if b = c then 1 else 0)"
proof (cases "dhi m = dlo d")
  case True
  then have "dlo j = dlo m" "dhi j = dhi d" "DescType j = DescType m" "DescType d = DescType m" "dlo m < dhi m" "dlo d < dhi d"
    using assms by (auto simp: joined_def desc_ok_def)
  then show ?thesis using True by (intro exI [of _ "dlo d"]) (auto simp: cuts_def)
next
  case False
  then have "dlo j = dlo d" "dhi j = dhi m" "DescType j = DescType m" "DescType d = DescType m" "dlo m < dhi m" "dlo d < dhi d" "dhi d = dlo m"
    using assms by (auto simp: joined_def desc_ok_def)
  then show ?thesis by (intro exI [of _ "dlo m"]) (auto simp: cuts_def)
qed

lemma subadditive_room:
  assumes "lo < hi" shows "subadditive (room lo hi)"
  unfolding subadditive_def
proof (intro allI impI)
  fix m d j assume "joined m d j"
  then obtain c where c: "\<And>b. cuts b j \<le> cuts b m + cuts b d + (if b = c then 1 else 0)" using cuts_joined by blast
  show "room lo hi j \<le> room lo hi m + room lo hi d"
    using c [of lo] c [of hi] assms by (simp add: room_def split: if_splits)
qed

lemma subadditive_meets: "lo < hi \<Longrightarrow> subadditive (meets lo hi)"
  by (auto simp: subadditive_def meets_def joined_def)

lemma weight_room: "weight (room lo hi) ds = length ds + weight (cuts lo) ds + weight (cuts hi) ds"
  by (induction ds) (simp_all add: room_def)

text \<open>At most one free entry lies over a boundary.\<close>

lemma weight_cuts: "descs_ok ds \<Longrightarrow> weight (cuts b) ds \<le> 1"
proof (induction ds)
  case (Cons d ds)
  show ?case
  proof (cases "cuts b d = 0")
    case False
    have "cuts b e = 0" if "e \<in> set ds" for e
      using False Cons.prems that by (auto simp: cuts_def descs_ok_Cons dapart_def split: if_splits)
    then have "weight (cuts b) ds = 0" by auto
    moreover have "cuts b d \<le> 1" by (simp add: cuts_def)
    ultimately show ?thesis unfolding list.map sum_list.Cons by linarith
  qed (use Cons in \<open>simp add: descs_ok_Cons\<close>)
qed simp

lemma weight_room_le: "descs_ok ds \<Longrightarrow> weight (room lo hi) ds \<le> length ds + 2"
  using weight_cuts [of ds lo] weight_cuts [of ds hi] by (simp add: weight_room)

lemma FindOverlap_None:
  "FindOverlap lo hi ds = None \<longleftrightarrow> (\<forall>d \<in> set ds. DescType d \<noteq> EfiConventionalMemory \<or> EntryEnd d < lo \<or> PhysicalStart d > hi)"
  by (induction ds) (auto split: option.splits)

lemma FindOverlap_Some:
  "FindOverlap lo hi ds = Some (xs, d, ys) \<Longrightarrow>
   ds = xs @ d # ys \<and> DescType d = EfiConventionalMemory \<and> lo \<le> EntryEnd d \<and> PhysicalStart d \<le> hi"
  by (induction ds arbitrary: xs) (auto split: option.splits if_splits)

text \<open>What becomes of a free entry \<open>d\<close>: the pieces \<open>ps\<close>, the one in the bin with the type of the bin.\<close>

definition pieces :: "nat \<Rightarrow> nat \<Rightarrow> UINT32 \<Rightarrow> EFI_MEMORY_DESCRIPTOR \<Rightarrow> EFI_MEMORY_DESCRIPTOR list \<Rightarrow> bool" where
  "pieces lo hi ty d ps \<longleftrightarrow> descs_ok ps \<and> ps \<noteq> [] \<and> weight (room lo hi) ps \<le> room lo hi d \<and> weight (meets lo hi) ps = 0 \<and>
     (\<forall>p \<in> set ps. dlo d \<le> dlo p \<and> dhi p \<le> dhi d) \<and>
     (\<forall>n t. typed ps n t \<longleftrightarrow> dcovers d n \<and> t = (if lo \<le> n \<and> n < hi then ty else EfiConventionalMemory))"

lemma pieces_replace:
  assumes "descs_ok (xs @ d # ys)" "pieces lo hi ty d ps"
  shows "descs_ok (xs @ ps @ ys)"
proof -
  have "dapart x p" if "x \<in> set (xs @ ys)" "p \<in> set ps" for x p
  proof -
    have "dapart d x" "dlo d \<le> dlo p" "dhi p \<le> dhi d" using assms that by (auto simp: descs_ok_mid pieces_def)
    then show ?thesis by (auto simp: dapart_def)
  qed
  then have "\<forall>x \<in> set xs. \<forall>p \<in> set ps. dapart x p" "\<forall>p \<in> set ps. \<forall>y \<in> set ys. dapart p y" using dapart_sym by auto
  then show ?thesis using assms by (simp add: descs_ok_append pieces_def descs_ok_Cons) blast
qed

end
