(* ===== verification/DxeMapSplit.thy ===== *)
theory DxeMapSplit
  imports DxeMapSpec
begin

text \<open>
  The loop of \<open>CoreGetMemoryMap\<close> that splits free entries at the bins: each round leaves one free entry
  less in the bin, and the descriptors never need more than two slots per bin beyond the
  entries of the map.
\<close>

subsection \<open>One entry\<close>

lemma sub_bytes:
  assumes "unat (a :: UINT64) \<le> unat b" shows "unat (b - a) = unat b - unat a"
  using assms by (simp add: unat_diff word_le_nat_alt)

lemma piece_one:
  assumes "desc_ok p" "DescType p = ty" "ty \<noteq> EfiConventionalMemory" "dlo p = dlo d" "dhi p = dhi d" "lo \<le> dlo d" "dhi d \<le> hi"
  shows "pieces lo hi ty d [p]"
  using assms by (auto simp: pieces_def descs_ok_Cons room_def cuts_def meets_def dcovers_def)

lemma piece_low:
  assumes "desc_ok d" "DescType d = EfiConventionalMemory" "dlo d < lo" "lo < dhi d" "dhi d \<le> hi" "lo < hi"
    and "desc_ok a" "DescType a = EfiConventionalMemory" "dlo a = dlo d" "dhi a = lo"
    and "desc_ok b" "DescType b = ty" "ty \<noteq> EfiConventionalMemory" "dlo b = lo" "dhi b = dhi d"
  shows "pieces lo hi ty d [a, b]"
  using assms by (auto simp: pieces_def descs_ok_Cons room_def cuts_def meets_def dcovers_def dapart_def)

lemma piece_high:
  assumes "desc_ok d" "DescType d = EfiConventionalMemory" "lo \<le> dlo d" "dlo d < hi" "hi < dhi d" "lo < hi"
    and "desc_ok a" "DescType a = ty" "ty \<noteq> EfiConventionalMemory" "dlo a = dlo d" "dhi a = hi"
    and "desc_ok b" "DescType b = EfiConventionalMemory" "dlo b = hi" "dhi b = dhi d"
  shows "pieces lo hi ty d [a, b]"
  using assms by (auto simp: pieces_def descs_ok_Cons room_def cuts_def meets_def dcovers_def dapart_def)

lemma piece_both:
  assumes "desc_ok d" "DescType d = EfiConventionalMemory" "dlo d < lo" "hi < dhi d" "lo < hi"
    and "desc_ok a" "DescType a = EfiConventionalMemory" "dlo a = dlo d" "dhi a = lo"
    and "desc_ok b" "DescType b = ty" "ty \<noteq> EfiConventionalMemory" "dlo b = lo" "dhi b = hi"
    and "desc_ok c" "DescType c = EfiConventionalMemory" "dlo c = hi" "dhi c = dhi d"
  shows "pieces lo hi ty d [a, b, c]"
  using assms by (auto simp: pieces_def descs_ok_Cons room_def cuts_def meets_def dcovers_def dapart_def)

lemma slot_room:
  assumes "MapDescriptorSize * (n + k) \<le> unat limit" "i < k" shows "slot limit (n + i)"
  unfolding slot_def by (rule order_trans [OF _ assms(1)]) (use assms(2) in \<open>intro mult_le_mono2, simp\<close>)

lemma SplitEntry_pieces:
  fixes binStart binEnd :: UINT64
  defines "lo \<equiv> unat binStart" and "hi \<equiv> Suc (unat binEnd)"
  assumes s: "17 \<le> length (mMemoryTypeStatistics s)" and bin: "page_range binStart binEnd" and ty: "ty \<noteq> EfiConventionalMemory"
    and d: "desc_ok d" "DescType d = EfiConventionalMemory" "binStart \<le> EntryEnd d" "PhysicalStart d \<le> binEnd"
    and fit: "MapDescriptorSize * (length (xs @ ys) + room lo hi d) \<le> unat limit"
  shows "\<exists>ps. SplitEntry s limit ty binStart binEnd xs d ys = Some (xs @ ps @ ys) \<and> pieces lo hi ty d ps"
proof -
  have b: "4096 dvd lo" "4096 dvd hi" "lo < hi" "hi < 2 ^ 64" "unat (binEnd + 1) = hi" "unat binEnd < 0xFFFFFFFFFFFFFFFF"
    using bin by (simp_all add: lo_def hi_def page_range_def word_less_nat_alt Suc_word_less)
  have e: "unat (EntryEnd d) = dhi d - 1" by (rule desc_pages(3) [OF d(1)])
  have dd: "dlo d < dhi d" "dhi d < 2 ^ 64" "4096 dvd dlo d" "4096 dvd dhi d" using d(1) desc_aligned [OF d(1)] by (simp_all add: desc_ok_def)
  have ov: "dlo d < hi" "lo < dhi d" using d(3,4) e dd(1) by (simp_all add: word_le_nat_alt dlo_def lo_def hi_def)
  have cmp: "PhysicalStart d \<ge> binStart \<longleftrightarrow> lo \<le> dlo d" "PhysicalStart d < binStart \<longleftrightarrow> dlo d < lo"
    "EntryEnd d \<le> binEnd \<longleftrightarrow> dhi d \<le> hi" "EntryEnd d > binEnd \<longleftrightarrow> hi < dhi d"
    using e dd(1) by (auto simp: word_le_nat_alt word_less_nat_alt dlo_def lo_def hi_def)
  note set_type = SetEfiMemoryDescriptorType_returns [OF s]
  have n: "length (xs @ d # ys) = length (xs @ ys) + 1" by simp
  have end1: "unat (EntryEnd d) < 0xFFFFFFFFFFFFFFFF" using e dd by simp
  consider (contained) "lo \<le> dlo d" "dhi d \<le> hi" | (low) "dlo d < lo" "dhi d \<le> hi" | (high) "lo \<le> dlo d" "hi < dhi d"
    | (both) "dlo d < lo" "hi < dhi d" by linarith
  then show ?thesis
  proof cases
    case contained
    obtain p where p: "SetEfiMemoryDescriptorType s d ty = Some p" "DescType p = ty" "PhysicalStart p = PhysicalStart d"
      "NumberOfPages p = NumberOfPages d" using set_type [of d ty] by blast
    have "dlo p = dlo d" "dhi p = dhi d" using p by (simp_all add: dlo_def dhi_def)
    then have "pieces lo hi ty d [p]" using contained p(2) ty d(1) by (intro piece_one) (simp_all add: desc_ok_def)
    then show ?thesis using p(1) contained cmp by (intro exI [of _ "[p]"]) (simp add: SplitEntry_def Let_def)
  next
    case low
    have rm: "room lo hi d = 2" using low ov d(2) by (simp add: room_def cuts_def)
    let ?a = "d\<lparr>NumberOfPages := EFI_SIZE_TO_PAGES (binStart - PhysicalStart d)\<rparr>"
    let ?b = "?a\<lparr>PhysicalStart := binStart, NumberOfPages := EFI_SIZE_TO_PAGES (EntryEnd d - binStart + 1)\<rparr>"
    obtain q where q: "SetEfiMemoryDescriptorType s ?b ty = Some q" "DescType q = ty" "PhysicalStart q = binStart"
      "NumberOfPages q = EFI_SIZE_TO_PAGES (EntryEnd d - binStart + 1)" using set_type [of ?b ty] by auto
    have u: "unat (binStart - PhysicalStart d) = lo - dlo d" using low by (simp add: sub_bytes dlo_def lo_def)
    have v: "unat (EntryEnd d - binStart + 1) = dhi d - lo"
    proof -
      have "unat (EntryEnd d - binStart) = dhi d - 1 - lo" using ov e by (simp add: sub_bytes lo_def)
      moreover have "unat (EntryEnd d - binStart + 1) = Suc (unat (EntryEnd d - binStart))"
        using calculation end1 e by (intro Suc_word_less) (simp add: word_less_nat_alt)
      ultimately show ?thesis using ov by simp
    qed
    have a: "desc_ok ?a" "dlo ?a = dlo d" "dhi ?a = lo"
      using desc_from_bytes [of ?a "PhysicalStart d" "binStart - PhysicalStart d"] u low dd b by (auto simp: dlo_def dvd_diff_nat)
    have qq: "desc_ok q" "dlo q = lo" "dhi q = dhi d"
      using desc_from_bytes [OF q(3,4)] v ov dd b by (auto simp: lo_def dvd_diff_nat)
    have "pieces lo hi ty d [?a, q]" using low d ov qq a q(2) ty b(3) by (intro piece_low) simp_all
    moreover have "slot limit (length (xs @ d # ys))" unfolding n by (rule slot_room [OF fit]) (simp add: rm)
    then have "SplitEntry s limit ty binStart binEnd xs d ys = Some (xs @ [?a, q] @ ys)"
      using low cmp q(1) by (simp add: SplitEntry_def Let_def)
    ultimately show ?thesis by blast
  next
    case high
    have rm: "room lo hi d = 2" using high ov d(2) by (simp add: room_def cuts_def)
    let ?a = "d\<lparr>PhysicalStart := PhysicalStart d, NumberOfPages := EFI_SIZE_TO_PAGES (binEnd - PhysicalStart d + 1)\<rparr>"
    obtain p where p: "SetEfiMemoryDescriptorType s ?a ty = Some p" "DescType p = ty" "PhysicalStart p = PhysicalStart d"
      "NumberOfPages p = EFI_SIZE_TO_PAGES (binEnd - PhysicalStart d + 1)" using set_type [of ?a ty] by auto
    let ?b = "p\<lparr>PhysicalStart := binEnd + 1, NumberOfPages := EFI_SIZE_TO_PAGES (EntryEnd d - binEnd)\<rparr>"
    obtain q where q: "SetEfiMemoryDescriptorType s ?b EfiConventionalMemory = Some q" "DescType q = EfiConventionalMemory"
      "PhysicalStart q = binEnd + 1" "NumberOfPages q = EFI_SIZE_TO_PAGES (EntryEnd d - binEnd)"
      using set_type [of ?b EfiConventionalMemory] by auto
    have u: "unat (binEnd - PhysicalStart d + 1) = hi - dlo d"
    proof -
      have "unat (binEnd - PhysicalStart d) = unat binEnd - dlo d" using ov by (simp add: sub_bytes dlo_def hi_def)
      moreover have "unat (binEnd - PhysicalStart d + 1) = Suc (unat (binEnd - PhysicalStart d))"
        using calculation b(6) by (intro Suc_word_less) (simp add: word_less_nat_alt)
      ultimately show ?thesis using ov by (simp add: hi_def)
    qed
    have v: "unat (EntryEnd d - binEnd) = dhi d - hi" using high e by (simp add: sub_bytes hi_def)
    have pp: "desc_ok p" "dlo p = dlo d" "dhi p = hi"
      using desc_from_bytes [OF p(3,4)] u ov dd b by (auto simp: dlo_def dvd_diff_nat)
    have qq: "desc_ok q" "dlo q = hi" "dhi q = dhi d"
      using desc_from_bytes [OF q(3,4)] v high dd b by (auto simp: dvd_diff_nat)
    have "pieces lo hi ty d [p, q]" using high d ov qq pp q(2) p(2) ty b(3) by (intro piece_high) simp_all
    moreover have "slot limit (length (xs @ d # ys))" unfolding n by (rule slot_room [OF fit]) (simp add: rm)
    then have "SplitEntry s limit ty binStart binEnd xs d ys = Some (xs @ [p, q] @ ys)"
      using high cmp q(1) p(1) by (simp add: SplitEntry_def Let_def)
    ultimately show ?thesis by blast
  next
    case both
    have rm: "room lo hi d = 3" using both ov d(2) by (simp add: room_def cuts_def)
    let ?a = "d\<lparr>NumberOfPages := EFI_SIZE_TO_PAGES (binStart - PhysicalStart d)\<rparr>"
    let ?b = "?a\<lparr>PhysicalStart := binStart, NumberOfPages := EFI_SIZE_TO_PAGES (EntryEnd d - binStart + 1)\<rparr>"
    obtain p where p: "SetEfiMemoryDescriptorType s ?b ty = Some p" "DescType p = ty" "PhysicalStart p = binStart"
      using set_type [of ?b ty] by auto
    let ?p = "p\<lparr>NumberOfPages := EFI_SIZE_TO_PAGES (binEnd - binStart + 1)\<rparr>"
    let ?c = "?p\<lparr>PhysicalStart := binEnd + 1, NumberOfPages := EFI_SIZE_TO_PAGES (EntryEnd d - binEnd)\<rparr>"
    obtain q where q: "SetEfiMemoryDescriptorType s ?c EfiConventionalMemory = Some q" "DescType q = EfiConventionalMemory"
      "PhysicalStart q = binEnd + 1" "NumberOfPages q = EFI_SIZE_TO_PAGES (EntryEnd d - binEnd)"
      using set_type [of ?c EfiConventionalMemory] by auto
    have u: "unat (binStart - PhysicalStart d) = lo - dlo d" using both by (simp add: sub_bytes dlo_def lo_def)
    have v: "unat (binEnd - binStart + 1) = hi - lo" using range_bytes(1) [OF bin] by (simp add: hi_def lo_def)
    have w: "unat (EntryEnd d - binEnd) = dhi d - hi" using both e by (simp add: sub_bytes hi_def)
    have a: "desc_ok ?a" "dlo ?a = dlo d" "dhi ?a = lo"
      using desc_from_bytes [of ?a "PhysicalStart d" "binStart - PhysicalStart d"] u both dd b by (auto simp: dlo_def dvd_diff_nat)
    have pp: "desc_ok ?p" "dlo ?p = lo" "dhi ?p = hi"
      using desc_from_bytes [of ?p binStart "binEnd - binStart + 1"] p(3) v b by (auto simp: lo_def dvd_diff_nat)
    have qq: "desc_ok q" "dlo q = hi" "dhi q = dhi d"
      using desc_from_bytes [OF q(3,4)] w both dd b by (auto simp: dvd_diff_nat)
    have "pieces lo hi ty d [?a, ?p, q]" using both d qq pp a q(2) p(2) ty b(3) by (intro piece_both) simp_all
    moreover have "slot limit (length (xs @ d # ys))" "slot limit (Suc (length (xs @ d # ys)))"
      using slot_room [OF fit, of 1] slot_room [OF fit, of 2] unfolding n by (simp_all add: rm)
    then have "SplitEntry s limit ty binStart binEnd xs d ys = Some (xs @ [?a, ?p, q] @ ys)"
      using both cmp q(1) p(1) by (simp add: SplitEntry_def Let_def)
    ultimately show ?thesis by blast
  qed
qed

subsection \<open>The loop\<close>

lemma length_room: "length ds \<le> weight (room lo hi) ds"
  by (induction ds) (simp_all add: room_def)

text \<open>The types after a bin: free addresses in it have its type.\<close>

definition retype :: "nat \<Rightarrow> nat \<Rightarrow> UINT32 \<Rightarrow> nat \<Rightarrow> UINT32 \<Rightarrow> UINT32" where
  "retype lo hi ty n t = (if t = EfiConventionalMemory \<and> lo \<le> n \<and> n < hi then ty else t)"

lemma pieces_typed:
  assumes p: "pieces lo hi ty d ps" and c: "DescType d = EfiConventionalMemory" and ok: "descs_ok (xs @ d # ys)" and ty: "ty \<noteq> EfiConventionalMemory"
  shows "(\<exists>t0. typed (xs @ ps @ ys) n t0 \<and> t = retype lo hi ty n t0) \<longleftrightarrow> (\<exists>t0. typed (xs @ d # ys) n t0 \<and> t = retype lo hi ty n t0)"
proof -
  have "typed ps n t0 \<longleftrightarrow> dcovers d n \<and> t0 = retype lo hi ty n EfiConventionalMemory" for t0
    using p by (simp add: pieces_def retype_def)
  moreover have "retype lo hi ty n (retype lo hi ty n EfiConventionalMemory) = retype lo hi ty n EfiConventionalMemory"
    using ty by (simp add: retype_def)
  ultimately show ?thesis unfolding typed_simps c by metis
qed

lemma CoreGetMemoryMap_bin_ok:
  fixes binStart binEnd :: UINT64
  defines "lo \<equiv> unat binStart" and "hi \<equiv> Suc (unat binEnd)"
  assumes s: "17 \<le> length (mMemoryTypeStatistics s)" and bin: "page_range binStart binEnd" and ty: "ty \<noteq> EfiConventionalMemory"
  shows "descs_ok ds \<Longrightarrow> MapDescriptorSize * weight (room lo hi) ds \<le> unat limit \<Longrightarrow>
    \<exists>ds'. CoreGetMemoryMap_bin s limit ty binStart binEnd ds = Some ds' \<and> descs_ok ds' \<and>
      weight (room lo hi) ds' \<le> weight (room lo hi) ds \<and>
      (\<forall>n t. typed ds' n t \<longleftrightarrow> (\<exists>t0. typed ds n t0 \<and> t = retype lo hi ty n t0))"
proof (induction "weight (meets lo hi) ds" arbitrary: ds rule: less_induct)
  case less
  have lh: "lo < hi" using bin by (simp add: lo_def hi_def page_range_def word_less_nat_alt)
  let ?m = "MergeMemoryMap ds"
  have r: "regrouped ds ?m" by (rule MergeMemoryMap_regroups [OF less.prems(1)])
  have m: "descs_ok ?m" "\<And>n t. typed ?m n t = typed ds n t" "weight (room lo hi) ?m \<le> weight (room lo hi) ds"
    "weight (meets lo hi) ?m \<le> weight (meets lo hi) ds"
    using r subadditive_room [OF lh] subadditive_meets [OF lh] by (simp_all add: regrouped_def)
  show ?case
  proof (cases "FindOverlap binStart binEnd ?m")
    case None
    have "\<not> (typed ?m n EfiConventionalMemory \<and> lo \<le> n \<and> n < hi)" for n
    proof
      assume a: "typed ?m n EfiConventionalMemory \<and> lo \<le> n \<and> n < hi"
      then obtain d where d: "d \<in> set ?m" "dcovers d n" "DescType d = EfiConventionalMemory" by (auto simp: typed_def)
      have ok: "desc_ok d" using m(1) d(1) by (simp add: descs_ok_def)
      have "EntryEnd d < binStart \<or> PhysicalStart d > binEnd" using None d by (auto simp: FindOverlap_None)
      then show False using a d(2) desc_pages(3) [OF ok] ok
        by (auto simp: word_less_nat_alt dcovers_def lo_def hi_def dlo_def desc_ok_def)
    qed
    then have "retype lo hi ty n t = t" if "typed ?m n t" for n t using that by (auto simp: retype_def)
    then have "\<forall>n t. typed ?m n t \<longleftrightarrow> (\<exists>t0. typed ds n t0 \<and> t = retype lo hi ty n t0)" unfolding m(2) by metis
    moreover have "CoreGetMemoryMap_bin s limit ty binStart binEnd ds = Some ?m" by (subst CoreGetMemoryMap_bin.simps) (simp add: None)
    ultimately show ?thesis using m(1,3) by blast
  next
    case (Some f)
    obtain xs d ys where f: "f = (xs, d, ys)" by (metis prod_cases3)
    note fo = FindOverlap_Some [OF Some [unfolded f]]
    have md: "?m = xs @ d # ys" and c: "DescType d = EfiConventionalMemory" "binStart \<le> EntryEnd d" "PhysicalStart d \<le> binEnd"
      using fo by simp_all
    have dok: "desc_ok d" using m(1) by (simp add: md descs_ok_mid)
    have "length (xs @ ys) + room lo hi d \<le> weight (room lo hi) ds"
      using m(3) length_room [of "xs @ ys" lo hi] by (simp add: md)
    then have "MapDescriptorSize * (length (xs @ ys) + room lo hi d) \<le> unat limit"
      using less.prems(2) by (meson mult_le_mono2 order_trans)
    from SplitEntry_pieces [OF s bin ty dok c this [unfolded lo_def hi_def]] obtain ps where
      ps: "SplitEntry s limit ty binStart binEnd xs d ys = Some (xs @ ps @ ys)" "pieces lo hi ty d ps"
      unfolding lo_def hi_def by blast
    let ?n = "xs @ ps @ ys"
    have ok: "descs_ok ?n" using m(1) ps(2) by (simp add: md pieces_replace)
    have pw: "weight (room lo hi) ps \<le> room lo hi d" "weight (meets lo hi) ps = 0" using ps(2) by (simp_all add: pieces_def)
    then have wr: "weight (room lo hi) ?n \<le> weight (room lo hi) ds" using m(3) by (simp add: md)
    have "meets lo hi d = 1"
      using c desc_pages(3) [OF dok] dok by (auto simp: meets_def word_le_nat_alt dlo_def lo_def hi_def desc_ok_def)
    then have wm: "weight (meets lo hi) ?n < weight (meets lo hi) ds" using m(4) pw(2) unfolding md map_append sum_list.append list.map sum_list.Cons by linarith
    have "MapDescriptorSize * weight (room lo hi) ?n \<le> unat limit" using less.prems(2) wr by (meson mult_le_mono2 order_trans)
    from less.hyps [OF wm ok this] obtain ds' where ds': "CoreGetMemoryMap_bin s limit ty binStart binEnd ?n = Some ds'" "descs_ok ds'"
      "weight (room lo hi) ds' \<le> weight (room lo hi) ?n" "\<forall>n t. typed ds' n t \<longleftrightarrow> (\<exists>t0. typed ?n n t0 \<and> t = retype lo hi ty n t0)" by blast
    have "CoreGetMemoryMap_bin s limit ty binStart binEnd ds = Some ds'"
      by (subst CoreGetMemoryMap_bin.simps) (simp add: Some f ps(1) ds'(1))
    moreover have "typed ds' n t \<longleftrightarrow> (\<exists>t0. typed ds n t0 \<and> t = retype lo hi ty n t0)" for n t
      unfolding ds'(4) [rule_format] pieces_typed [OF ps(2) c(1) m(1) [unfolded md] ty] m(2) [unfolded md] ..
    ultimately show ?thesis using ds'(2) order_trans [OF ds'(3) wr] by blast
  qed
qed

end
