(* ===== verification/DxeMapResult.thy ===== *)
theory DxeMapResult
  imports DxeMapSplit
begin

text \<open>
  The whole of \<open>CoreGetMemoryMap\<close>: all bins, the ranges of the GCD map, and the services around them.
\<close>

subsection \<open>All bins\<close>

definition split_bin :: "EFI_MEMORY_TYPE_STATISTICS \<Rightarrow> bool" where
  "split_bin st \<longleftrightarrow> Special st \<and> BinPages st > 0"

text \<open>The bins that split entries are ranges of pages, and none of them is for free memory.\<close>

definition bins_placed :: "dxe_memory \<Rightarrow> bool" where
  "bins_placed s \<longleftrightarrow> bins_ok s \<and> (\<forall>i < 16. split_bin (mMemoryTypeStatistics s ! i) \<longrightarrow>
     of_nat i \<noteq> EfiConventionalMemory \<and>
     page_range (BaseAddress (mMemoryTypeStatistics s ! i)) (MaximumAddress (mMemoryTypeStatistics s ! i)))"

text \<open>The type of an address after the bins of the types \<open>is\<close>: the first bin that it is in takes a free address.\<close>

fun bin_type :: "EFI_MEMORY_TYPE_STATISTICS list \<Rightarrow> nat list \<Rightarrow> nat \<Rightarrow> UINT32 \<Rightarrow> UINT32" where
  "bin_type sts [] n t = t"
| "bin_type sts (i # is) n t = bin_type sts is n
     (if split_bin (sts ! i) then retype (unat (BaseAddress (sts ! i))) (Suc (unat (MaximumAddress (sts ! i)))) (of_nat i) n t else t)"

lemma CoreGetMemoryMap_bins_ok:
  assumes s: "bins_placed s"
  shows "\<forall>i \<in> set is. i < 16 \<Longrightarrow> descs_ok ds \<Longrightarrow>
    MapDescriptorSize * (length ds + 2 * length (filter (\<lambda>i. split_bin (mMemoryTypeStatistics s ! i)) is)) \<le> unat limit \<Longrightarrow>
    \<exists>ds'. CoreGetMemoryMap_bins s limit (map of_nat is) ds = Some ds' \<and> descs_ok ds' \<and>
      length ds' \<le> length ds + 2 * length (filter (\<lambda>i. split_bin (mMemoryTypeStatistics s ! i)) is) \<and>
      (\<forall>n t. typed ds' n t \<longleftrightarrow> (\<exists>t0. typed ds n t0 \<and> t = bin_type (mMemoryTypeStatistics s) is n t0))"
proof (induction "is" arbitrary: ds)
  case (Cons i "is")
  let ?st = "mMemoryTypeStatistics s ! i" and ?k = "2 * length (filter (\<lambda>i. split_bin (mMemoryTypeStatistics s ! i)) is)"
  have len: "17 \<le> length (mMemoryTypeStatistics s)" using s by (simp add: bins_placed_def bins_ok_def)
  have i: "i < 16" "\<forall>i \<in> set is. i < 16" using Cons.prems(1) by simp_all
  have rd: "rd (mMemoryTypeStatistics s) (of_nat i :: UINT32) = Some ?st"
    using i(1) len by (simp add: rd_def unat_of_nat_lt)
  show ?case
  proof (cases "split_bin ?st")
    case False
    then have "CoreGetMemoryMap_bins s limit (map of_nat (i # is)) ds = CoreGetMemoryMap_bins s limit (map of_nat is) ds"
      using rd by (cases "BinPages ?st = 0") (auto simp: split_bin_def word_neq_0_conv)
    then show ?thesis using Cons.IH [OF i(2) Cons.prems(2)] Cons.prems(3) False by simp
  next
    case True
    let ?lo = "unat (BaseAddress ?st)" and ?hi = "Suc (unat (MaximumAddress ?st))"
    have b: "of_nat i \<noteq> EfiConventionalMemory" "page_range (BaseAddress ?st) (MaximumAddress ?st)"
      using s i(1) True by (simp_all add: bins_placed_def)
    have "weight (room ?lo ?hi) ds \<le> length ds + (2 + ?k)" using weight_room_le [OF Cons.prems(2), of ?lo ?hi] by simp
    moreover have "MapDescriptorSize * (length ds + (2 + ?k)) \<le> unat limit" using Cons.prems(3) True by simp
    ultimately have "MapDescriptorSize * weight (room ?lo ?hi) ds \<le> unat limit" by (meson mult_le_mono2 order_trans)
    from CoreGetMemoryMap_bin_ok [OF len b(2,1) Cons.prems(2) this] obtain es where
      es: "CoreGetMemoryMap_bin s limit (of_nat i) (BaseAddress ?st) (MaximumAddress ?st) ds = Some es" "descs_ok es"
      "weight (room ?lo ?hi) es \<le> weight (room ?lo ?hi) ds"
      "\<forall>n t. typed es n t \<longleftrightarrow> (\<exists>t0. typed ds n t0 \<and> t = retype ?lo ?hi (of_nat i) n t0)" by blast
    have le: "length es \<le> length ds + 2"
      using es(3) length_room [of es ?lo ?hi] weight_room_le [OF Cons.prems(2), of ?lo ?hi] by linarith
    then have "MapDescriptorSize * (length es + ?k) \<le> MapDescriptorSize * (length ds + (2 + ?k))" by (intro mult_le_mono2) simp
    then have "MapDescriptorSize * (length es + ?k) \<le> unat limit" using Cons.prems(3) True by simp
    from Cons.IH [OF i(2) es(2) this] obtain ds' where
      ds': "CoreGetMemoryMap_bins s limit (map of_nat is) es = Some ds'" "descs_ok ds'" "length ds' \<le> length es + ?k"
      "\<forall>n t. typed ds' n t \<longleftrightarrow> (\<exists>t0. typed es n t0 \<and> t = bin_type (mMemoryTypeStatistics s) is n t0)" by blast
    have "CoreGetMemoryMap_bins s limit (map of_nat (i # is)) ds = Some ds'"
      using rd True es(1) ds'(1) by (auto simp: split_bin_def)
    moreover have "typed ds' n t \<longleftrightarrow> (\<exists>t0. typed ds n t0 \<and> t = bin_type (mMemoryTypeStatistics s) (i # is) n t0)" for n t
      using ds'(4) es(4) True by auto
    ultimately show ?thesis using ds'(2,3) le True by (intro exI [of _ ds']) simp
  qed
qed simp

subsection \<open>The ranges of the GCD map\<close>

text \<open>The GCD map is a list of neighbouring ranges; those that are reported are ranges of pages.\<close>

fun gcd_map_ok :: "EFI_GCD_MAP_ENTRY list \<Rightarrow> bool" where
  "gcd_map_ok [] = True"
| "gcd_map_ok [g] = (GcdBaseAddress g \<le> EndAddress g)"
| "gcd_map_ok (g # h # gs) = (GcdBaseAddress g \<le> EndAddress g \<and> unat (GcdBaseAddress h) = Suc (unat (EndAddress g)) \<and> gcd_map_ok (h # gs))"

definition gcd_typed :: "EFI_GCD_MAP_ENTRY list \<Rightarrow> nat \<Rightarrow> UINT32 \<Rightarrow> bool" where
  "gcd_typed gs n t \<longleftrightarrow> (\<exists>g \<in> set gs. listed g \<and> unat (GcdBaseAddress g) \<le> n \<and> n \<le> unat (EndAddress g) \<and> GcdDescriptorType g = t)"

lemma gcd_typed_simps [simp]:
  "gcd_typed [] n t \<longleftrightarrow> False"
  "gcd_typed (g # gs) n t \<longleftrightarrow> listed g \<and> unat (GcdBaseAddress g) \<le> n \<and> n \<le> unat (EndAddress g) \<and> GcdDescriptorType g = t \<or> gcd_typed gs n t"
  by (auto simp: gcd_typed_def)

lemma gcd_map_above: "gcd_map_ok (g # gs) \<Longrightarrow> h \<in> set gs \<Longrightarrow> unat (EndAddress g) < unat (GcdBaseAddress h)"
proof (induction gs arbitrary: g)
  case (Cons h' gs)
  have next_: "unat (GcdBaseAddress h') = Suc (unat (EndAddress g))" "gcd_map_ok (h' # gs)" using Cons.prems(1) by simp_all
  then have "unat (GcdBaseAddress h') \<le> unat (EndAddress h')" by (cases gs) (simp_all add: word_le_nat_alt)
  then show ?case using Cons.IH [OF next_(2)] Cons.prems(2) next_(1) by fastforce
qed simp

lemma gcd_map_tail: "gcd_map_ok (g # gs) \<Longrightarrow> gcd_map_ok gs"
  by (cases gs) auto

lemma same_kind_listed:
  assumes "same_kind m g" shows "listed m = listed g" "GcdDescriptorType m = GcdDescriptorType g"
  using assms by (simp_all add: same_kind_def listed_def RuntimeMmio_def GcdDescriptorType_def)

lemma listed_update [simp]: "listed (m\<lparr>EndAddress := e\<rparr>) = listed m" "GcdDescriptorType (m\<lparr>EndAddress := e\<rparr>) = GcdDescriptorType m"
  by (simp_all add: listed_def RuntimeMmio_def GcdDescriptorType_def)

lemma gcd_map_joined: "gcd_map_ok (m # g # gs) \<Longrightarrow> gcd_map_ok (m\<lparr>EndAddress := EndAddress g\<rparr> # gs)"
  by (cases gs) (auto simp: word_le_nat_alt)

lemma AddGcdRange_ok:
  assumes g: "listed g \<longrightarrow> page_range (GcdBaseAddress g) (EndAddress g)" and ds: "descs_ok ds"
    and apart: "\<And>n t u. gcd_typed [g] n t \<Longrightarrow> \<not> typed ds n u"
    and fit: "MapDescriptorSize * (length ds + length (filter listed [g])) \<le> unat limit"
  shows "\<exists>ds'. AddGcdRange limit g ds = Some ds' \<and> descs_ok ds' \<and> length ds' \<le> length ds + length (filter listed [g]) \<and>
    (\<forall>n t. typed ds' n t \<longleftrightarrow> typed ds n t \<or> gcd_typed [g] n t)"
proof (cases "listed g")
  case False
  then show ?thesis using ds by (simp add: AddGcdRange_def)
next
  case True
  let ?d = "GcdDescriptor g"
  have pr: "page_range (GcdBaseAddress g) (EndAddress g)" using g True by simp
  note by_ = range_bytes [OF pr]
  have b: "4096 dvd unat (GcdBaseAddress g)" "unat (GcdBaseAddress g) < unat (EndAddress g)" "unat (EndAddress g) < 0xFFFFFFFFFFFFFFFF"
    using pr by (simp_all add: page_range_def word_less_nat_alt)
  have "unat (NumberOfPages ?d) * 4096 = Suc (unat (EndAddress g)) - unat (GcdBaseAddress g)"
    using by_ by (simp add: GcdDescriptor_def unat_drop_12)
  then have d: "dlo ?d = unat (GcdBaseAddress g)" "dhi ?d = Suc (unat (EndAddress g))"
    using b(2) by (simp_all add: dlo_def dhi_def GcdDescriptor_def)
  then have dok: "desc_ok ?d" using b by (simp add: desc_ok_def)
  have t: "DescType ?d = GcdDescriptorType g" by (simp add: GcdDescriptor_def)
  have cov: "dcovers ?d n \<longleftrightarrow> unat (GcdBaseAddress g) \<le> n \<and> n \<le> unat (EndAddress g)" for n using d by (auto simp: dcovers_def)
  have "\<not> typed ds n u" if "dcovers ?d n" for n u using apart [of n "GcdDescriptorType g" u] that cov True by simp
  moreover have "\<forall>x \<in> set ds. desc_ok x" using ds by (simp add: descs_ok_def)
  ultimately have "\<forall>x \<in> set ds. dapart ?d x" using dapart_typed [OF dok] by blast
  then have ok: "descs_ok (ds @ [?d])" using ds dok by (auto simp: descs_ok_append descs_ok_Cons dapart_sym)
  have r: "regrouped (ds @ [?d]) (MergeMemoryMapDescriptor ds ?d)" by (rule MergeMemoryMapDescriptor_regroups [OF ok])
  have "GcdBaseAddress g AND EFI_PAGE_MASK = 0" "(EndAddress g - GcdBaseAddress g + 1) AND EFI_PAGE_MASK = 0"
    using b(1) by_ by (simp_all add: page_aligned)
  moreover have "slot limit (length ds)" using slot_room [of "length ds" 1 limit 0] fit True by simp
  ultimately have "AddGcdRange limit g ds = Some (MergeMemoryMapDescriptor ds ?d)" using True by (simp add: AddGcdRange_def)
  then show ?thesis using r regrouped_length [OF r] True cov t by (auto simp: regrouped_def)
qed

lemma CoreGetMemoryMap_gcd_ok:
  "gcd_map_ok (m # gs) \<Longrightarrow> \<forall>g \<in> set (m # gs). listed g \<longrightarrow> page_range (GcdBaseAddress g) (EndAddress g) \<Longrightarrow> descs_ok ds \<Longrightarrow>
   (\<And>n t u. gcd_typed (m # gs) n t \<Longrightarrow> \<not> typed ds n u) \<Longrightarrow>
   MapDescriptorSize * (length ds + length (filter listed (m # gs))) \<le> unat limit \<Longrightarrow>
   \<exists>ds'. CoreGetMemoryMap_gcd limit gs m ds = Some ds' \<and> descs_ok ds' \<and> length ds' \<le> length ds + length (filter listed (m # gs)) \<and>
     (\<forall>n t. typed ds' n t \<longleftrightarrow> typed ds n t \<or> gcd_typed (m # gs) n t)"
proof (induction gs arbitrary: m ds)
  case Nil
  then show ?case using AddGcdRange_ok [of m ds limit] by simp
next
  case (Cons g gs)
  show ?case
  proof (cases "same_kind m g")
    case True
    let ?m = "m\<lparr>EndAddress := EndAddress g\<rparr>"
    note k = same_kind_listed [OF True]
    have adj: "GcdBaseAddress m \<le> EndAddress m" "unat (GcdBaseAddress g) = Suc (unat (EndAddress m))" "GcdBaseAddress g \<le> EndAddress g"
      using Cons.prems(1) gcd_map_tail [of m "g # gs"] by (cases gs; simp)+
    have ty: "gcd_typed (?m # gs) n t \<longleftrightarrow> gcd_typed (m # g # gs) n t" for n t
      using k adj by (auto simp: word_le_nat_alt)
    have "\<forall>g \<in> set (?m # gs). listed g \<longrightarrow> page_range (GcdBaseAddress g) (EndAddress g)"
      using Cons.prems(2) k(1) adj by (auto simp: page_range_def word_less_nat_alt word_le_nat_alt)
    moreover have "MapDescriptorSize * (length ds + length (filter listed (?m # gs))) \<le> unat limit"
      by (rule order_trans [OF _ Cons.prems(5)]) (intro mult_le_mono2, simp add: k)
    ultimately obtain ds' where "CoreGetMemoryMap_gcd limit gs ?m ds = Some ds'" "descs_ok ds'"
      "length ds' \<le> length ds + length (filter listed (?m # gs))" "\<forall>n t. typed ds' n t \<longleftrightarrow> typed ds n t \<or> gcd_typed (?m # gs) n t"
      using Cons.IH [OF gcd_map_joined [OF Cons.prems(1)] _ Cons.prems(3)] Cons.prems(4) unfolding ty by blast
    then show ?thesis using True ty by (intro exI [of _ ds']) (simp add: k split: if_splits)
  next
    case False
    have fit: "MapDescriptorSize * (length ds + length (filter listed [m])) \<le> unat limit"
      by (rule order_trans [OF _ Cons.prems(5)]) (intro mult_le_mono2, simp)
    have "\<not> typed ds n u" if "gcd_typed [m] n t" for n t u using Cons.prems(4) [of n t u] that by simp
    then obtain es where es: "AddGcdRange limit m ds = Some es" "descs_ok es" "length es \<le> length ds + length (filter listed [m])"
      "\<forall>n t. typed es n t \<longleftrightarrow> typed ds n t \<or> gcd_typed [m] n t"
      using AddGcdRange_ok [OF _ Cons.prems(3) _ fit] Cons.prems(2) by auto
    have ap: "\<not> typed es n u" if gt: "gcd_typed (g # gs) n t" for n t u
    proof -
      obtain h where "h \<in> set (g # gs)" "unat (GcdBaseAddress h) \<le> n" using gt unfolding gcd_typed_def by auto
      then have "\<not> gcd_typed [m] n u" using gcd_map_above [OF Cons.prems(1)] by fastforce
      then show ?thesis using es(4) Cons.prems(4) [of n t u] gt by simp
    qed
    have fit2: "MapDescriptorSize * (length es + length (filter listed (g # gs))) \<le> unat limit"
      by (rule order_trans [OF _ Cons.prems(5)]) (use es(3) in \<open>intro mult_le_mono2, simp split: if_splits\<close>)
    have pr: "\<forall>h \<in> set (g # gs). listed h \<longrightarrow> page_range (GcdBaseAddress h) (EndAddress h)" using Cons.prems(2) by auto
    have "\<exists>ds'. CoreGetMemoryMap_gcd limit gs g es = Some ds' \<and> descs_ok ds' \<and>
      length ds' \<le> length es + length (filter listed (g # gs)) \<and> (\<forall>n t. typed ds' n t \<longleftrightarrow> typed es n t \<or> gcd_typed (g # gs) n t)"
      by (rule Cons.IH [OF gcd_map_tail [OF Cons.prems(1)] pr es(2) _ fit2]) (erule ap)
    then obtain ds' where "CoreGetMemoryMap_gcd limit gs g es = Some ds'" "descs_ok ds'"
      "length ds' \<le> length es + length (filter listed (g # gs))" "\<forall>n t. typed ds' n t \<longleftrightarrow> typed es n t \<or> gcd_typed (g # gs) n t"
      by blast
    then show ?thesis using False es by (intro exI [of _ ds']) (simp split: if_splits, blast?)
  qed
qed

text \<open>The merged range is all zero at first: a kind that is not reported.\<close>

lemma CoreGetMemoryMap_gcd_first:
  "\<not> listed m \<Longrightarrow> gcd_map_ok gs \<Longrightarrow> \<forall>g \<in> set gs. listed g \<longrightarrow> page_range (GcdBaseAddress g) (EndAddress g) \<Longrightarrow> descs_ok ds \<Longrightarrow>
   (\<And>n t u. gcd_typed gs n t \<Longrightarrow> \<not> typed ds n u) \<Longrightarrow>
   MapDescriptorSize * (length ds + length (filter listed gs)) \<le> unat limit \<Longrightarrow>
   \<exists>ds'. CoreGetMemoryMap_gcd limit gs m ds = Some ds' \<and> descs_ok ds' \<and> length ds' \<le> length ds + length (filter listed gs) \<and>
     (\<forall>n t. typed ds' n t \<longleftrightarrow> typed ds n t \<or> gcd_typed gs n t)"
proof (induction gs arbitrary: m)
  case Nil
  then show ?case by (simp add: AddGcdRange_def)
next
  case (Cons g gs)
  show ?case
  proof (cases "same_kind m g")
    case True
    then have "\<not> listed g" using same_kind_listed(1) Cons.prems(1) by simp
    moreover have "\<not> listed (m\<lparr>EndAddress := EndAddress g\<rparr>)" using Cons.prems(1) by simp
    ultimately show ?thesis
      using Cons.IH [OF _ gcd_map_tail [OF Cons.prems(2)] _ Cons.prems(4)] Cons.prems(3,5,6) True by simp
  next
    case False
    then have "CoreGetMemoryMap_gcd limit (g # gs) m ds = CoreGetMemoryMap_gcd limit gs g ds"
      using Cons.prems(1) by (simp add: AddGcdRange_def)
    then show ?thesis using CoreGetMemoryMap_gcd_ok [OF Cons.prems(2-6)] by simp
  qed
qed

lemma NoGcdEntry_not_listed [simp]: "\<not> listed NoGcdEntry"
  by (simp add: NoGcdEntry_def listed_def RuntimeMmio_def EfiGcdMemoryTypePersistent_def EfiGcdMemoryTypeReserved_def
      EfiGcdMemoryTypeUnaccepted_def EfiGcdMemoryTypeMemoryMappedIo_def)

subsection \<open>The whole map\<close>

lemma ClearAccess_same [simp]:
  "DescType (ClearAccess d) = DescType d" "desc_ok (ClearAccess d) = desc_ok d" "dlo (ClearAccess d) = dlo d" "dhi (ClearAccess d) = dhi d"
  by (simp_all add: ClearAccess_def desc_ok_def dlo_def dhi_def)

lemma ClearAccess_ok [simp]: "descs_ok (map ClearAccess ds) = descs_ok ds" "typed (map ClearAccess ds) n t = typed ds n t"
  by (induction ds) (auto simp: descs_ok_Cons dapart_def dcovers_def)

text \<open>
  What the code relies on: the GCD map is a list of neighbouring ranges, those that it reports are
  ranges of pages, and none of their addresses is in the memory map.
\<close>

definition reported_ok :: "dxe_memory \<Rightarrow> bool" where
  "reported_ok s \<longleftrightarrow> gcd_map_ok (mGcdMemorySpaceMap s) \<and>
     (\<forall>g \<in> set (mGcdMemorySpaceMap s). listed g \<longrightarrow> page_range (GcdBaseAddress g) (EndAddress g) \<and>
        (\<forall>e \<in> set (gMemoryMap s). apart_ranges (GcdBaseAddress g) (EndAddress g) e))"

definition descriptors_needed :: "dxe_memory \<Rightarrow> nat" where
  "descriptors_needed s = length (filter listed (mGcdMemorySpaceMap s)) + length (gMemoryMap s) + 2 * split_bins s"

text \<open>What the map is to say of an address: its entry's type, or its bin's where that is free, or its GCD range's.\<close>

definition address_type :: "dxe_memory \<Rightarrow> nat \<Rightarrow> UINT32 \<Rightarrow> bool" where
  "address_type s n t \<longleftrightarrow>
     (\<exists>t0. entry_typed (gMemoryMap s) n t0 \<and> t = bin_type (mMemoryTypeStatistics s) [0..<16] n t0) \<or>
     gcd_typed (mGcdMemorySpaceMap s) n t"

lemma split_bins_eq:
  assumes "16 \<le> length (mMemoryTypeStatistics s)"
  shows "length (filter (\<lambda>i. split_bin (mMemoryTypeStatistics s ! i)) [0..<16]) = split_bins s"
proof -
  have "take 16 (mMemoryTypeStatistics s) = map (\<lambda>i. mMemoryTypeStatistics s ! i) [0..<16]"
    using assms by (intro nth_equalityI) auto
  then show ?thesis by (simp add: split_bins_def EfiMaxMemoryType_def split_bin_def [abs_def] filter_map comp_def)
qed

lemma reported_apart:
  assumes "reported_ok s" "gcd_typed (mGcdMemorySpaceMap s) n t" shows "\<not> entry_typed (gMemoryMap s) n u"
proof
  assume "entry_typed (gMemoryMap s) n u"
  then obtain e where e: "e \<in> set (gMemoryMap s)" "unat (Start e) \<le> n" "n \<le> unat (End e)" by (auto simp: entry_typed_def)
  obtain g where g: "g \<in> set (mGcdMemorySpaceMap s)" "listed g" "unat (GcdBaseAddress g) \<le> n" "n \<le> unat (EndAddress g)"
    using assms(2) by (auto simp: gcd_typed_def)
  have "apart_ranges (GcdBaseAddress g) (EndAddress g) e" using assms(1) e(1) g(1,2) by (simp add: reported_ok_def)
  then show False using e g by (auto simp: apart_ranges_def word_less_nat_alt)
qed

lemma WriteMemoryMap_ok:
  assumes es: "entries_ok (gMemoryMap s)" and b: "bins_placed s" and g: "reported_ok s"
    and fit: "MapDescriptorSize * descriptors_needed s \<le> unat limit"
  shows "\<exists>ds. WriteMemoryMap s limit = Some ds \<and> descs_ok ds \<and> length ds \<le> descriptors_needed s \<and>
    (\<forall>n t. typed ds n t \<longleftrightarrow> address_type s n t)"
proof -
  let ?sts = "mMemoryTypeStatistics s" and ?gs = "mGcdMemorySpaceMap s"
  have len: "17 \<le> length ?sts" using b by (simp add: bins_placed_def bins_ok_def)
  have room: "MapDescriptorSize * k \<le> unat limit" if "k \<le> descriptors_needed s" for k
    using that fit by (meson mult_le_mono2 order_trans)
  note sb = split_bins_eq [of s]
  obtain ds1 where ds1: "CoreGetMemoryMap_build s limit (gMemoryMap s) [] = Some ds1" "descs_ok ds1"
    "length ds1 \<le> length (gMemoryMap s)" "\<forall>n t. typed ds1 n t \<longleftrightarrow> entry_typed (gMemoryMap s) n t"
    using CoreGetMemoryMap_build_ok [OF len es, of "[]" limit] room [of "length (gMemoryMap s)"] by (auto simp: descriptors_needed_def)
  have "length ds1 + 2 * split_bins s \<le> descriptors_needed s" using ds1(3) by (simp add: descriptors_needed_def)
  then have fit2: "MapDescriptorSize * (length ds1 + 2 * length (filter (\<lambda>i. split_bin (?sts ! i)) [0..<16])) \<le> unat limit"
    using sb len room by simp
  have "\<forall>i \<in> set [0..<16 :: nat]. i < 16" by simp
  note bins = CoreGetMemoryMap_bins_ok [OF b this ds1(2) fit2, unfolded sb [OF order_trans [OF _ len, of 16, simplified]]]
  obtain ds2 where ds2: "CoreGetMemoryMap_bins s limit (map of_nat [0..<16]) ds1 = Some ds2" "descs_ok ds2"
    "length ds2 \<le> length ds1 + 2 * split_bins s"
    "\<forall>n t. typed ds2 n t \<longleftrightarrow> (\<exists>t0. typed ds1 n t0 \<and> t = bin_type ?sts [0..<16] n t0)"
    using bins by blast
  have ap: "\<not> typed ds2 n u" if gt: "gcd_typed ?gs n t" for n t u
    using reported_apart [OF g gt] ds2(4) ds1(4) by blast
  have pr: "\<forall>g \<in> set ?gs. listed g \<longrightarrow> page_range (GcdBaseAddress g) (EndAddress g)" "gcd_map_ok ?gs" using g by (auto simp: reported_ok_def)
  have "length ds2 + length (filter listed ?gs) \<le> descriptors_needed s"
    using ds2(3) ds1(3) by (simp add: descriptors_needed_def)
  then have fit3: "MapDescriptorSize * (length ds2 + length (filter listed ?gs)) \<le> unat limit"
    and le3: "length ds2 + length (filter listed ?gs) \<le> descriptors_needed s" using room by blast+
  have "\<exists>ds'. CoreGetMemoryMap_gcd limit ?gs NoGcdEntry ds2 = Some ds' \<and> descs_ok ds' \<and>
    length ds' \<le> length ds2 + length (filter listed ?gs) \<and> (\<forall>n t. typed ds' n t \<longleftrightarrow> typed ds2 n t \<or> gcd_typed ?gs n t)"
    by (rule CoreGetMemoryMap_gcd_first [OF NoGcdEntry_not_listed pr(2,1) ds2(2) _ fit3]) (erule ap)
  then obtain ds3 where ds3: "CoreGetMemoryMap_gcd limit ?gs NoGcdEntry ds2 = Some ds3" "descs_ok ds3"
    "length ds3 \<le> descriptors_needed s" "\<forall>n t. typed ds3 n t \<longleftrightarrow> typed ds2 n t \<or> gcd_typed ?gs n t"
    using le3 by (blast intro: order_trans)
  let ?r = "MergeMemoryMap (map ClearAccess ds3)"
  have r: "regrouped (map ClearAccess ds3) ?r" using ds3(2) by (intro MergeMemoryMap_regroups) simp
  have "WriteMemoryMap s limit = Some ?r"
    using ds1(1) ds2(1) ds3(1) by (simp add: WriteMemoryMap_def EfiMaxMemoryType_def)
  moreover have "typed ?r n t \<longleftrightarrow> address_type s n t" for n t
    using r ds3(4) ds2(4) ds1(4) by (simp add: regrouped_def address_type_def)
  moreover have "descs_ok ?r" "length ?r \<le> descriptors_needed s"
    using r regrouped_length [OF r] ds3(2,3) by (simp_all add: regrouped_def)
  ultimately show ?thesis by blast
qed

subsection \<open>The services\<close>

lemma locks_taken:
  assumes "idle s"
  shows "CoreAcquireGcdMemoryLock s = Some (s\<lparr>mGcdMemorySpaceLock := True\<rparr>)"
    "CoreAcquireMemoryLock (s\<lparr>mGcdMemorySpaceLock := True\<rparr>) = Some (s\<lparr>gMemoryLock := True, mGcdMemorySpaceLock := True\<rparr>)"
    "CoreReleaseMemoryLock (s\<lparr>gMemoryLock := True, mGcdMemorySpaceLock := True\<rparr>) = Some (s\<lparr>mGcdMemorySpaceLock := True\<rparr>)"
    "CoreReleaseGcdMemoryLock (s\<lparr>mGcdMemorySpaceLock := True\<rparr>) = Some s"
    "CoreReleaseMemoryLock (s\<lparr>gMemoryLock := True\<rparr>) = Some s"
  using assms by (cases s, simp add: idle_def CoreAcquireGcdMemoryLock_def CoreAcquireMemoryLock_def CoreReleaseMemoryLock_def
      CoreReleaseGcdMemoryLock_def)+

lemma locked_reads [simp]:
  "NeededSize (s\<lparr>gMemoryLock := a, mGcdMemorySpaceLock := b\<rparr>) = NeededSize s"
  "descriptors_needed (s\<lparr>gMemoryLock := a, mGcdMemorySpaceLock := b\<rparr>) = descriptors_needed s"
  "bins_placed (s\<lparr>gMemoryLock := a, mGcdMemorySpaceLock := b\<rparr>) = bins_placed s"
  "reported_ok (s\<lparr>gMemoryLock := a, mGcdMemorySpaceLock := b\<rparr>) = reported_ok s"
  "address_type (s\<lparr>gMemoryLock := a, mGcdMemorySpaceLock := b\<rparr>) n t = address_type s n t"
  by (simp_all add: NeededSize_def split_bins_def descriptors_needed_def bins_placed_def bins_ok_def reported_ok_def address_type_def)

lemma CoreGetMemoryMap_too_small:
  assumes "idle s" "limit < NeededSize s"
  shows "CoreGetMemoryMap (Some limit) buffer s = Some (EFI_BUFFER_TOO_SMALL, Some (NeededSize s), Some (mMemoryMapKey s), [], s)"
  using assms(2) by (simp add: CoreGetMemoryMap_def locks_taken [OF assms(1)] Let_def)

text \<open>What the map service relies on beside the invariant of the memory services.\<close>

definition map_ready :: "dxe_memory \<Rightarrow> bool" where
  "map_ready s \<longleftrightarrow> idle s \<and> bins_placed s \<and> reported_ok s \<and> MapDescriptorSize * descriptors_needed s < 2 ^ 64"

lemma NeededSize_nat: "map_ready s \<Longrightarrow> unat (NeededSize s) = MapDescriptorSize * descriptors_needed s"
  unfolding map_ready_def NeededSize_def descriptors_needed_def by (subst unat_of_nat_lt) simp_all

lemma CoreGetMemoryMap_written:
  assumes "map_ready s" "NeededSize s \<le> limit"
  shows "\<exists>ds. CoreGetMemoryMap (Some limit) True s =
      Some (EFI_SUCCESS, Some (of_nat (MapDescriptorSize * length ds)), Some (mMemoryMapKey s), ds, s) \<and>
    descs_ok ds \<and> MapDescriptorSize * length ds \<le> unat (NeededSize s) \<and> (\<forall>n t. typed ds n t \<longleftrightarrow> address_type s n t)"
proof -
  let ?s = "s\<lparr>gMemoryLock := True, mGcdMemorySpaceLock := True\<rparr>"
  have i: "idle s" "bins_placed s" "reported_ok s" using assms(1) by (simp_all add: map_ready_def)
  have "MapDescriptorSize * descriptors_needed ?s \<le> unat limit"
    using assms(2) NeededSize_nat [OF assms(1)] by (simp add: word_le_nat_alt)
  moreover have "entries_ok (gMemoryMap ?s)" using i(1) by (simp add: idle_def map_ok_def)
  ultimately obtain ds where ds: "WriteMemoryMap ?s limit = Some ds" "descs_ok ds" "length ds \<le> descriptors_needed s"
    "\<forall>n t. typed ds n t \<longleftrightarrow> address_type s n t"
    using WriteMemoryMap_ok [of ?s limit] i by auto
  have "CoreGetMemoryMap (Some limit) True s =
      Some (EFI_SUCCESS, Some (of_nat (MapDescriptorSize * length ds)), Some (mMemoryMapKey s), ds, s)"
    using assms(2) ds(1) by (simp add: CoreGetMemoryMap_def locks_taken [OF i(1)] Let_def not_less [symmetric])
  moreover have "MapDescriptorSize * length ds \<le> unat (NeededSize s)"
    using ds(3) NeededSize_nat [OF assms(1)] by (simp add: mult_le_mono2)
  ultimately show ?thesis using ds by blast
qed

text \<open>The last check finds nothing wrong: every range starts and ends at a page.\<close>

definition acpi_not_runtime :: "dxe_memory \<Rightarrow> bool" where
  "acpi_not_runtime s \<longleftrightarrow> 17 \<le> length (mMemoryTypeStatistics s) \<and>
     (\<forall>ty \<in> {EfiACPIReclaimMemory, EfiACPIMemoryNVS}. \<not> Runtime (mMemoryTypeStatistics s ! unat ty))"

lemma RuntimeEntriesOk_true:
  "acpi_not_runtime s \<Longrightarrow> \<forall>e \<in> set es. page_range (Start e) (End e) \<Longrightarrow> RuntimeEntriesOk s es = Some True"
proof (induction es)
  case (Cons e es)
  have p: "4096 dvd unat (Start e)" "4096 dvd Suc (unat (End e))" "unat (End e) < 0xFFFFFFFFFFFFFFFF"
    using Cons.prems(2) by (simp_all add: page_range_def word_less_nat_alt)
  have "unat (End e + 1) = Suc (unat (End e))" using p(3) by (intro Suc_word_less) (simp add: word_less_nat_alt)
  then have a: "Start e AND 0xFFF = 0" "(End e + 1) AND 0xFFF = 0"
    using p(1,2) page_aligned [of "Start e"] page_aligned [of "End e + 1"] by (simp_all add: EFI_PAGE_MASK_def)
  have "unat (Type e) < length (mMemoryTypeStatistics s)" if "Type e < EfiMaxMemoryType"
    using that Cons.prems(1) by (simp add: acpi_not_runtime_def EfiMaxMemoryType_def word_less_nat_alt)
  then have "RuntimeEntryOk s e = Some True"
    using a Cons.prems(1) by (auto simp: RuntimeEntryOk_def rd_def RUNTIME_PAGE_ALLOCATION_GRANULARITY_def acpi_not_runtime_def)
  then show ?case using Cons by simp
qed simp

lemma CoreTerminateMemoryMap_key:
  assumes "idle s" "acpi_not_runtime s"
  shows "CoreTerminateMemoryMap key s = Some (if key = mMemoryMapKey s then EFI_SUCCESS else EFI_INVALID_PARAMETER, s)"
proof -
  have "\<forall>e \<in> set (gMemoryMap s). page_range (Start e) (End e)" using assms(1) by (simp add: idle_def map_ok_def entries_ok_def)
  moreover have "acpi_not_runtime (s\<lparr>gMemoryLock := True\<rparr>)" using assms(2) by (simp add: acpi_not_runtime_def)
  ultimately have "RuntimeEntriesOk (s\<lparr>gMemoryLock := True\<rparr>) (gMemoryMap s) = Some True" by (intro RuntimeEntriesOk_true)
  then show ?thesis
    by (simp add: CoreTerminateMemoryMap_def idle_acquire [OF assms(1)] locks_taken(5) [OF assms(1)])
qed

end
