(* ===== verification/FirmwareProperties.thy ===== *)
theory FirmwareProperties
  imports DxeMapResult
begin

text \<open>
  What the memory services of the DXE core promise to the boot application and to the drivers, each property
  applied to the services of a small machine.
\<close>

subsection \<open>A small machine\<close>

text \<open>One free region of 256 pages and eight spare descriptors; no memory type has a bin.\<close>

definition demo_statistics :: EFI_MEMORY_TYPE_STATISTICS where
  "demo_statistics = \<lparr>BaseAddress = 0, MaximumAddress = MAX_ALLOC_ADDRESS, CurrentNumberOfPages = 0, BinPages = 0,
     InformationIndex = 16, Special = False, Runtime = False\<rparr>"

definition demo_machine :: dxe_memory where
  "demo_machine = \<lparr>gMemoryMap = [\<lparr>Slot = None, FromPages = True, Type = EfiConventionalMemory, Start = 0x100000, End = 0x1FFFFF, Attribute = 0xF\<rparr>],
     mMemoryMapKey = 7, mMapDepth = 0, mFreeMapStack = 0, mFreeMemoryMapEntries = 8,
     mMemoryTypeStatistics = replicate 17 demo_statistics,
     gMemoryTypeInformation = replicate 17 \<lparr>InfoType = 0, InfoPages = 0\<rparr>,
     mMemoryTypeInformationInitialized = False, mDefaultMaximumAddress = MAX_ALLOC_ADDRESS, mDefaultBaseAddress = MAX_ALLOC_ADDRESS,
     mGcdMemorySpaceMap = [], gMemoryLock = False, mGcdMemorySpaceLock = False\<rparr>"

lemma demo_machine_idle: "idle demo_machine"
  by (simp add: idle_def demo_machine_def map_ok_def entries_ok_def slots_ok_def gcd_ok_def page_range_def)

lemma demo_allocations:
  "\<exists>s1 s2. CoreInternalAllocatePages AllocateAnyPages 2 4 (Some 0) demo_machine = Some (EFI_SUCCESS, Some 0x1FC000, s1) \<and>
     CoreInternalAllocatePages AllocateAnyPages 4 2 (Some 0) s1 = Some (EFI_SUCCESS, Some 0x1FA000, s2) \<and>
     (\<exists>s3. CoreInternalFreePages 0x1FC000 4 s2 = Some (EFI_SUCCESS, Some 2, s3))"
proof -
  have "wp (\<lambda>(st1, m1, s1). st1 = EFI_SUCCESS \<and> m1 = Some 0x1FC000 \<and>
      wp (\<lambda>(st2, m2, s2). st2 = EFI_SUCCESS \<and> m2 = Some 0x1FA000 \<and>
        wp (\<lambda>(st3, ty, s3). st3 = EFI_SUCCESS \<and> ty = Some 2) (CoreInternalFreePages 0x1FC000 4 s2))
       (CoreInternalAllocatePages AllocateAnyPages 4 2 (Some 0) s1))
     (CoreInternalAllocatePages AllocateAnyPages 2 4 (Some 0) demo_machine)"
    by code_simp
  then show ?thesis by (auto simp: wp_iff)
qed

subsection \<open>The services together\<close>

text \<open>
  C3: whatever sequence of allocations, releases and changes of attributes the drivers and the boot application
  ask for, and whether they succeed or fail, the memory map that is left is a list of page ranges in the
  order of their addresses that do not overlap, with the stack of temporary entries empty and the locks
  released.
\<close>

theorem services_keep_map:
  assumes "idle s" "memory_service\<^sup>*\<^sup>* s s'"
  shows "idle s' \<and> sorted_wrt (\<lambda>d e. End d < Start e) (gMemoryMap s') \<and> (\<forall>e \<in> set (gMemoryMap s'). page_range (Start e) (End e))"
proof -
  have i: "idle s'" by (rule memory_services_idle [OF assms(2,1)])
  then have "\<forall>e \<in> set (gMemoryMap s'). page_range (Start e) (End e)" by (simp add: idle_def map_ok_def entries_ok_def)
  then show ?thesis using i idle_sorted(1) [OF i] by simp
qed

lemma services_keep_map_witness:
  "\<exists>s1 s2 s3. CoreInternalAllocatePages AllocateAnyPages 2 4 (Some 0) demo_machine = Some (EFI_SUCCESS, Some 0x1FC000, s1) \<and>
     CoreInternalAllocatePages AllocateAnyPages 4 2 (Some 0) s1 = Some (EFI_SUCCESS, Some 0x1FA000, s2) \<and>
     CoreInternalFreePages 0x1FC000 4 s2 = Some (EFI_SUCCESS, Some 2, s3) \<and> idle s3 \<and>
     sorted_wrt (\<lambda>d e. End d < Start e) (gMemoryMap s3)"
proof -
  obtain s1 s2 s3 where s: "CoreInternalAllocatePages AllocateAnyPages 2 4 (Some 0) demo_machine = Some (EFI_SUCCESS, Some 0x1FC000, s1)"
    "CoreInternalAllocatePages AllocateAnyPages 4 2 (Some 0) s1 = Some (EFI_SUCCESS, Some 0x1FA000, s2)"
    "CoreInternalFreePages 0x1FC000 4 s2 = Some (EFI_SUCCESS, Some 2, s3)" using demo_allocations by blast
  have "memory_service\<^sup>*\<^sup>* demo_machine s3"
    using s by (meson memory_service.intros taking_service.allocate rtranclp.intros)
  from services_keep_map [OF demo_machine_idle this] show ?thesis using s by blast
qed

text \<open>
  C10: memory that has been allocated is not given out again.  After a successful allocation the pages keep
  their type through any further allocations and changes of attributes, and the pages of a later
  allocation are all different from them.
\<close>

theorem allocations_stay_apart:
  assumes "idle s"
    and "CoreInternalAllocatePages type ty pages memory s = Some (EFI_SUCCESS, Some start, s1)"
    and "taking_service\<^sup>*\<^sup>* s1 s2"
    and "CoreInternalAllocatePages type' ty' pages' memory' s2 = Some (EFI_SUCCESS, Some start', s3)"
  shows "\<forall>a. spans start (EndOf start pages) a \<longrightarrow> used_as (types_of s2) a ty \<and> used_as (types_of s3) a ty \<and>
    \<not> spans start' (EndOf start' pages') a"
proof (intro allI impI)
  fix a assume a: "spans start (EndOf start pages) a"
  have one: "idle s1" "used_as (types_of s1) a ty" using CoreInternalAllocatePages_used [OF assms(2,1)] a by blast+
  have two: "idle s2" "used_as (types_of s2) a ty" using taking_services_keep [OF assms(3) one] by blast+
  show "used_as (types_of s2) a ty \<and> used_as (types_of s3) a ty \<and> \<not> spans start' (EndOf start' pages') a"
    using two CoreInternalAllocatePages_used [OF assms(4) two(1)] by blast
qed

lemma allocations_stay_apart_witness:
  "\<exists>s1 s2. CoreInternalAllocatePages AllocateAnyPages 2 4 (Some 0) demo_machine = Some (EFI_SUCCESS, Some 0x1FC000, s1) \<and>
     CoreInternalAllocatePages AllocateAnyPages 4 2 (Some 0) s1 = Some (EFI_SUCCESS, Some 0x1FA000, s2) \<and>
     used_as (types_of s2) 0x1FCABC 2 \<and> \<not> spans 0x1FA000 (EndOf 0x1FA000 2) 0x1FCABC"
proof -
  obtain s1 s2 where s: "CoreInternalAllocatePages AllocateAnyPages 2 4 (Some 0) demo_machine = Some (EFI_SUCCESS, Some 0x1FC000, s1)"
    "CoreInternalAllocatePages AllocateAnyPages 4 2 (Some 0) s1 = Some (EFI_SUCCESS, Some 0x1FA000, s2)" using demo_allocations by blast
  have "spans 0x1FC000 (EndOf 0x1FC000 4) 0x1FCABC" by code_simp
  with allocations_stay_apart [OF demo_machine_idle s(1) rtranclp.rtrancl_refl s(2)] show ?thesis using s by blast
qed

subsection \<open>Single services\<close>

text \<open>
  C15: the search for free pages takes the topmost place.  The address found lies in a free entry
  within the bounds with room for all the pages, no other place that fits is above it, and the search
  fails only if the only place is at address 0, or there is none.
\<close>

theorem search_is_topmost:
  assumes "entries_ok es" "pages \<noteq> 0" "unat pages < 2 ^ 52"
  shows "(CoreFindFreePagesI mx mn pages 0x1000 es \<noteq> 0 \<longrightarrow> (\<exists>e \<in> set es. fits mx mn pages e (CoreFindFreePagesI mx mn pages 0x1000 es))) \<and>
    (\<forall>e \<in> set es. \<forall>s. fits mx mn pages e s \<longrightarrow> s \<le> CoreFindFreePagesI mx mn pages 0x1000 es)"
  by (rule CoreFindFreePagesI_topmost [OF assms])

lemma search_is_topmost_witness:
  "CoreFindFreePagesI 0x17FFFF 0 4 0x1000 (gMemoryMap demo_machine) = 0x17C000 \<and>
   (\<exists>e \<in> set (gMemoryMap demo_machine). fits 0x17FFFF 0 4 e 0x17C000)"
proof -
  have r: "CoreFindFreePagesI 0x17FFFF 0 4 0x1000 (gMemoryMap demo_machine) = 0x17C000" by code_simp
  have "entries_ok (gMemoryMap demo_machine)" using demo_machine_idle by (simp add: idle_def map_ok_def)
  from search_is_topmost [OF this, where mx = "0x17FFFF" and mn = 0 and pages = 4] show ?thesis using r by simp
qed



text \<open>
  C17: a request that can be met is met.  If the map has a free place for the pages under the bound of
  the request, and two map descriptors are spare, then allocating anywhere or below an address
  returns, succeeds, and gives a free place of the map under the bound, whose pages have the type asked for.
\<close>

theorem free_pages_found:
  assumes "idle s" "bins_ok s" "2 \<le> mFreeMemoryMapEntries s" "allocatable ty"
    and "type = AllocateAnyPages \<or> type = AllocateMaxAddress" "pages \<noteq> 0" "unat pages < 2 ^ 52"
    and "e \<in> set (gMemoryMap s)" "fits (search_bound type wish) 0 pages e q" "q \<noteq> 0"
  shows "\<exists>start d s'. CoreInternalAllocatePages type ty pages (Some wish) s = Some (EFI_SUCCESS, Some start, s') \<and> idle s' \<and>
    d \<in> set (gMemoryMap s) \<and> fits (search_bound type wish) 0 pages d start \<and>
    types_of s' = over start (EndOf start pages) (ty, Attribute d) (types_of s)"
  using CoreInternalAllocatePages_finds [OF assms] by blast

text \<open>The hypotheses of the search on the small machine.\<close>

lemma demo_machine_room:
  "bins_ok demo_machine" "4 \<le> mFreeMemoryMapEntries demo_machine" "allocatable 2"
  by (simp add: bins_ok_def demo_machine_def demo_statistics_def, simp add: demo_machine_def,
      simp add: allocatable_def EfiMaxMemoryType_def MEMORY_TYPE_OEM_RESERVED_MIN_def EfiConventionalMemory_def EfiPersistentMemory_def
        EfiUnacceptedMemoryType_def)

lemma demo_machine_fits:
  "hd (gMemoryMap demo_machine) \<in> set (gMemoryMap demo_machine)"
  "fits (search_bound AllocateMaxAddress 0x17FFFF) 0 4 (hd (gMemoryMap demo_machine)) 0x100000"
  by (simp add: demo_machine_def, simp add: fits_def demo_machine_def search_bound_def EFI_MEMORY_SP_def)

lemma free_pages_found_witness:
  "\<exists>start d s'. CoreInternalAllocatePages AllocateMaxAddress 2 4 (Some 0x17FFFF) demo_machine = Some (EFI_SUCCESS, Some start, s') \<and>
     idle s' \<and> d \<in> set (gMemoryMap demo_machine) \<and> fits (search_bound AllocateMaxAddress 0x17FFFF) 0 4 d start"
  using free_pages_found [OF demo_machine_idle demo_machine_room(1) _ demo_machine_room(3) _ _ _ demo_machine_fits] demo_machine_room(2)
  by auto

text \<open>
  C18: releasing what was allocated restores the map.  If there is a free place and four map descriptors are
  spare, pages that are allocated can be released with the address that came back; the release reports
  the type they were allocated with, and every address has the type and the attributes that it had before.
\<close>

theorem allocate_free_restores:
  assumes "idle s" "bins_ok s" "4 \<le> mFreeMemoryMapEntries s" "allocatable ty"
    and "type = AllocateAnyPages \<or> type = AllocateMaxAddress" "pages \<noteq> 0" "unat pages < 2 ^ 52"
    and "e \<in> set (gMemoryMap s)" "fits (search_bound type wish) 0 pages e q" "q \<noteq> 0"
  shows "\<exists>start s1 s2. CoreInternalAllocatePages type ty pages (Some wish) s = Some (EFI_SUCCESS, Some start, s1) \<and>
    CoreInternalFreePages start pages s1 = Some (EFI_SUCCESS, Some ty, s2) \<and> idle s2 \<and> types_of s2 = types_of s"
  by (rule allocate_and_free [OF assms])

lemma allocate_free_restores_witness:
  "\<exists>start s1 s2. CoreInternalAllocatePages AllocateMaxAddress 2 4 (Some 0x17FFFF) demo_machine = Some (EFI_SUCCESS, Some start, s1) \<and>
     CoreInternalFreePages start 4 s1 = Some (EFI_SUCCESS, Some 2, s2) \<and> idle s2 \<and> types_of s2 = types_of demo_machine"
  using allocate_free_restores [OF demo_machine_idle demo_machine_room _ _ _ demo_machine_fits] by simp

subsection \<open>The memory map\<close>

text \<open>The machine with a bin of 16 pages for runtime data, and a reserved range below its memory.\<close>

definition demo_bins :: dxe_memory where
  "demo_bins = demo_machine\<lparr>mMemoryTypeStatistics := (replicate 17 demo_statistics)[6 := demo_statistics\<lparr>BaseAddress := 0x140000,
       MaximumAddress := 0x14FFFF, BinPages := 16, Special := True, Runtime := True\<rparr>],
     mGcdMemorySpaceMap := [
       \<lparr>GcdBaseAddress = 0, EndAddress = 0xFFFFF, Capabilities = 0xF, GcdAttributes = 0, GcdMemoryType = EfiGcdMemoryTypeReserved, GcdIoType = 0\<rparr>,
       \<lparr>GcdBaseAddress = 0x100000, EndAddress = 0x1FFFFF, Capabilities = 0xF, GcdAttributes = 0xF, GcdMemoryType = EfiGcdMemoryTypeSystemMemory,
        GcdIoType = 0\<rparr>]\<rparr>"

lemma demo_bins_idle: "idle demo_bins"
  using demo_machine_idle
  by (simp add: idle_def demo_bins_def demo_machine_def gcd_ok_def map_ok_def promotable_def nth_Cons' EfiGcdMemoryTypeReserved_def
      EfiGcdMemoryTypeSystemMemory_def EFI_MEMORY_PRESENT_def EFI_MEMORY_INITIALIZED_def EFI_MEMORY_TESTED_def)

lemma demo_bins_placed: "bins_placed demo_bins"
proof -
  have "bins_ok demo_bins"
    by (auto simp: bins_ok_def demo_bins_def demo_machine_def demo_statistics_def dest!: set_update_subset_insert [THEN subsetD])
  then show ?thesis
    by (simp add: bins_placed_def demo_bins_def demo_statistics_def split_bin_def nth_list_update page_range_def EfiConventionalMemory_def)
qed

lemma demo_bins_ready: "map_ready demo_bins"
proof -
  have "reported_ok demo_bins"
    by (simp add: reported_ok_def demo_bins_def demo_machine_def page_range_def apart_ranges_def listed_def RuntimeMmio_def
        EfiGcdMemoryTypeReserved_def EfiGcdMemoryTypeSystemMemory_def EfiGcdMemoryTypePersistent_def EfiGcdMemoryTypeUnaccepted_def
        EfiGcdMemoryTypeMemoryMappedIo_def)
  moreover have "MapDescriptorSize * descriptors_needed demo_bins = 192" by code_simp
  ultimately show ?thesis using demo_bins_idle demo_bins_placed by (simp add: map_ready_def)
qed

text \<open>
  C11: the memory map that is reported.  A caller whose buffer has the size asked for gets the map,
  at once and without a change of the memory services: its descriptors are ranges of pages that do not
  overlap, they fit in the buffer, and they give an address a type exactly when the type is that of the entry
  that the address lies in (for a free address in the bin of a special type, that of the bin), or that of its
  reserved, persistent, unaccepted or runtime device range.
\<close>

theorem memory_map_describes:
  assumes "map_ready s" "NeededSize s \<le> limit"
  shows "\<exists>ds. CoreGetMemoryMap (Some limit) True s =
      Some (EFI_SUCCESS, Some (of_nat (MapDescriptorSize * length ds)), Some (mMemoryMapKey s), ds, s) \<and>
    descs_ok ds \<and> MapDescriptorSize * length ds \<le> unat (NeededSize s) \<and> (\<forall>n t. typed ds n t \<longleftrightarrow> address_type s n t)"
  by (rule CoreGetMemoryMap_written [OF assms])

lemma memory_map_describes_witness:
  "\<exists>ds. CoreGetMemoryMap (Some 4096) True demo_bins = Some (EFI_SUCCESS, Some (of_nat (MapDescriptorSize * length ds)), Some 7, ds, demo_bins) \<and>
     descs_ok ds \<and> typed ds 0x1234 EfiReservedMemoryType \<and> typed ds 0x13FFFF EfiConventionalMemory \<and>
     typed ds 0x140000 EfiRuntimeServicesData \<and> typed ds 0x150000 EfiConventionalMemory"
proof -
  have n: "NeededSize demo_bins \<le> 4096" by code_simp
  have k: "mMemoryMapKey demo_bins = 7" by (simp add: demo_bins_def demo_machine_def)
  have t: "address_type demo_bins 0x1234 EfiReservedMemoryType" "address_type demo_bins 0x13FFFF EfiConventionalMemory"
    "address_type demo_bins 0x140000 EfiRuntimeServicesData" "address_type demo_bins 0x150000 EfiConventionalMemory"
    by (simp_all add: address_type_def entry_typed_def gcd_typed_def demo_bins_def demo_machine_def upt_rec nth_list_update
        demo_statistics_def split_bin_def retype_def listed_def GcdDescriptorType_def RuntimeMmio_def EfiReservedMemoryType_def
        EfiConventionalMemory_def EfiRuntimeServicesData_def EfiGcdMemoryTypeReserved_def EfiGcdMemoryTypeSystemMemory_def)
  from memory_map_describes [OF demo_bins_ready n] t show ?thesis unfolding k by blast
qed

text \<open>
  C19: the size of the memory map.  A caller whose buffer is too small changes nothing, and gets the size
  that is needed; asking again with this size, before any other service runs, is answered with the map.
\<close>

theorem reported_size_suffices:
  assumes "map_ready s" "limit < NeededSize s"
  shows "CoreGetMemoryMap (Some limit) buffer s = Some (EFI_BUFFER_TOO_SMALL, Some (NeededSize s), Some (mMemoryMapKey s), [], s) \<and>
    (\<exists>used ds. CoreGetMemoryMap (Some (NeededSize s)) True s = Some (EFI_SUCCESS, Some used, Some (mMemoryMapKey s), ds, s) \<and> used \<le> NeededSize s)"
proof -
  have i: "idle s" using assms(1) by (simp add: map_ready_def)
  from CoreGetMemoryMap_written [OF assms(1) order_refl] obtain ds where
    ds: "CoreGetMemoryMap (Some (NeededSize s)) True s =
      Some (EFI_SUCCESS, Some (of_nat (MapDescriptorSize * length ds)), Some (mMemoryMapKey s), ds, s)"
    "MapDescriptorSize * length ds \<le> unat (NeededSize s)" by blast
  have lt: "unat (NeededSize s) < 2 ^ 64" by (rule order_less_le_trans [OF unsigned_less]) simp
  have "(of_nat (MapDescriptorSize * length ds) :: UINTN) \<le> NeededSize s"
    using ds(2) order_le_less_trans [OF ds(2) lt] by (subst word_le_nat_alt, subst unat_of_nat_lt) simp_all
  then show ?thesis using ds(1) CoreGetMemoryMap_too_small [OF i assms(2)] by blast
qed

lemma reported_size_suffices_witness:
  "CoreGetMemoryMap (Some 64) False demo_bins = Some (EFI_BUFFER_TOO_SMALL, Some 192, Some 7, [], demo_bins) \<and>
   (\<exists>used ds. CoreGetMemoryMap (Some 192) True demo_bins = Some (EFI_SUCCESS, Some used, Some 7, ds, demo_bins) \<and> used \<le> 192)"
proof -
  have n: "NeededSize demo_bins = 192" by code_simp
  have k: "mMemoryMapKey demo_bins = 7" by (simp add: demo_bins_def demo_machine_def)
  show ?thesis using reported_size_suffices [OF demo_bins_ready, of 64 False] unfolding n k by simp
qed

end
