(* ===== verification/DxeEvent.thy ===== *)
theory DxeEvent
  imports Boot DxeMap
begin

text \<open>
  Task priorities, events and timers of the DXE core (\<^verbatim>\<open>src/edk2/MdeModulePkg/Core/Dxe/Event/\<close>: \<open>Tpl.c\<close>,
  \<open>Event.c\<close>, \<open>Timer.c\<close>) with the locks of \<^verbatim>\<open>Library/Library.c\<close>.

  An event is a value under its address; an address with none is memory that has been freed, or
  never was an event.  A linked list is the list of the addresses of its members, so that a link
  is not \<open>NULL\<close> exactly when the event is in the list.  Releasing a lock lowers the task
  priority, which runs the notification functions that are pending, which use the same services:
  the functions that take part in this recursion are the modes of one function, \<open>RunTpl\<close>.  What the
  drivers' notification functions do, the pool and the timer's hardware are parameters.  \<open>None\<close> is an
  assertion that fails, an access to freed memory, or a run that does not end.
\<close>

subsection \<open>Data\<close>

type_synonym EFI_TPL = UINTN
type_synonym EFI_EVENT = ptr

definition TPL_APPLICATION :: EFI_TPL where "TPL_APPLICATION = 4"
definition TPL_CALLBACK :: EFI_TPL where "TPL_CALLBACK = 8"
definition TPL_NOTIFY :: EFI_TPL where "TPL_NOTIFY = 16"
definition TPL_HIGH_LEVEL :: EFI_TPL where "TPL_HIGH_LEVEL = 31"

definition EVT_TIMER :: UINT32 where "EVT_TIMER = 0x80000000"
definition EVT_RUNTIME :: UINT32 where "EVT_RUNTIME = 0x40000000"
definition EVT_NOTIFY_WAIT :: UINT32 where "EVT_NOTIFY_WAIT = 0x100"
definition EVT_NOTIFY_SIGNAL :: UINT32 where "EVT_NOTIFY_SIGNAL = 0x200"
definition EVT_SIGNAL_EXIT_BOOT_SERVICES :: UINT32 where "EVT_SIGNAL_EXIT_BOOT_SERVICES = 0x201"
definition EVT_SIGNAL_VIRTUAL_ADDRESS_CHANGE :: UINT32 where "EVT_SIGNAL_VIRTUAL_ADDRESS_CHANGE = 0x60000202"
definition EVT_EXFLAG_EVENT_GROUP :: UINT8 where "EVT_EXFLAG_EVENT_GROUP = 1"
definition EVT_EXFLAG_EVENT_PROTOCOL_NOTIFICATION :: UINT8 where "EVT_EXFLAG_EVENT_PROTOCOL_NOTIFICATION = 2"
definition EVENT_SIGNATURE :: UINTN where "EVENT_SIGNATURE = 0x746E7665"

lemmas tpl_defs = TPL_APPLICATION_def TPL_CALLBACK_def TPL_NOTIFY_def TPL_HIGH_LEVEL_def
lemmas evt_defs = EVT_TIMER_def EVT_RUNTIME_def EVT_NOTIFY_WAIT_def EVT_NOTIFY_SIGNAL_def EVT_SIGNAL_EXIT_BOOT_SERVICES_def
  EVT_SIGNAL_VIRTUAL_ADDRESS_CHANGE_def

definition mEventTable :: "UINT32 list" where
  "mEventTable = [EVT_TIMER OR EVT_NOTIFY_SIGNAL, EVT_TIMER, EVT_NOTIFY_WAIT, EVT_NOTIFY_SIGNAL, EVT_SIGNAL_EXIT_BOOT_SERVICES,
     EVT_SIGNAL_VIRTUAL_ADDRESS_CHANGE, 0, EVT_TIMER OR EVT_NOTIFY_WAIT]"

definition gEfiEventExitBootServicesGuid :: EFI_GUID where
  "gEfiEventExitBootServicesGuid = \<lparr>Data1 = 0x27ABF055, Data2 = 0xB1B8, Data3 = 0x4C26, Data4 = [0x80, 0x48, 0x74, 0x8F, 0x37, 0xBA, 0xA2, 0xDF]\<rparr>"
definition gEfiEventBeforeExitBootServicesGuid :: EFI_GUID where
  "gEfiEventBeforeExitBootServicesGuid = \<lparr>Data1 = 0x8BE0E274, Data2 = 0x3970, Data3 = 0x4B44, Data4 = [0x80, 0xC5, 0x1A, 0xB9, 0x50, 0x2F, 0x3B, 0xFC]\<rparr>"
definition gEfiEventVirtualAddressChangeGuid :: EFI_GUID where
  "gEfiEventVirtualAddressChangeGuid = \<lparr>Data1 = 0x13FA7698, Data2 = 0xC831, Data3 = 0x49C7, Data4 = [0x87, 0xEA, 0x8F, 0x43, 0xFC, 0xC2, 0x51, 0x96]\<rparr>"
definition gIdleLoopEventGuid :: EFI_GUID where
  "gIdleLoopEventGuid = \<lparr>Data1 = 0x3c8d294c, Data2 = 0x5fc3, Data3 = 0x4451, Data4 = [0xbb, 0x31, 0xc4, 0xc0, 0x32, 0x29, 0x5e, 0x6c]\<rparr>"
definition gEventExitBootServicesFailedGuid :: EFI_GUID where
  "gEventExitBootServicesFailedGuid = \<lparr>Data1 = 0x4f6c5507, Data2 = 0x232f, Data3 = 0x4787, Data4 = [0xb9, 0x5e, 0x72, 0xf8, 0x62, 0x49, 0xc, 0xb1]\<rparr>"
definition ZeroGuid :: EFI_GUID where
  "ZeroGuid = \<lparr>Data1 = 0, Data2 = 0, Data3 = 0, Data4 = replicate 8 0\<rparr>"

text \<open>The core's own notification functions, or one of a driver.\<close>

datatype EFI_EVENT_NOTIFY = CheckTimersFunction | EmptyFunction | DriverFunction ptr

record IEVENT =
  Signature :: UINTN
  EventType :: UINT32
  SignalCount :: UINT32
  NotifyTpl :: EFI_TPL
  NotifyFunction :: "EFI_EVENT_NOTIFY option"
  NotifyContext :: ptr
  EventGroup :: EFI_GUID
  ExFlag :: UINT8
  TriggerTime :: UINT64
  Period :: UINT64

record EFI_LOCK =
  LockTpl :: EFI_TPL
  OwnerTpl :: EFI_TPL
  Acquired :: bool

record 'e dxe_events =
  gEfiCurrentTpl :: EFI_TPL
  gEventQueueLock :: EFI_LOCK
  gEventQueue :: "EFI_EVENT list list"
  gEventPending :: UINTN
  gEventSignalQueue :: "EFI_EVENT list"
  gIdleLoopEvent :: EFI_EVENT
  mEfiTimerList :: "EFI_EVENT list"
  mEfiTimerLock :: EFI_LOCK
  mEfiCheckTimerEvent :: EFI_EVENT
  mEfiSystemTimeLock :: EFI_LOCK
  mEfiSystemTime :: UINT64
  RuntimeEvents :: "EFI_EVENT list"
  Events :: "EFI_EVENT \<rightharpoonup> IEVENT"
  Interrupts :: bool
  Drivers :: 'e

record 'e DXE_PLATFORM =
  Notify :: "ptr \<Rightarrow> EFI_EVENT \<Rightarrow> ptr \<Rightarrow> 'e dxe_events \<Rightarrow> 'e dxe_events option"
  HasCpu :: bool
  InSmm :: "'e \<Rightarrow> (EFI_STATUS \<times> bool) option"
  AllocateZeroPool :: "bool \<Rightarrow> 'e \<Rightarrow> ptr \<times> 'e"
  FreeEvent :: "EFI_EVENT \<Rightarrow> 'e \<Rightarrow> EFI_STATUS \<times> 'e"
  GetTimerPeriod :: "'e \<Rightarrow> UINT64"
  UnregisterProtocolNotify :: "EFI_EVENT \<Rightarrow> 'e \<Rightarrow> 'e"

subsection \<open>Priorities\<close>

definition CoreSetInterruptState :: "'e DXE_PLATFORM \<Rightarrow> bool \<Rightarrow> 'e dxe_events \<Rightarrow> 'e dxe_events" where
  "CoreSetInterruptState P enable s =
     (if \<not> HasCpu P then s
      else if \<not> enable then s\<lparr>Interrupts := False\<rparr>
      else case InSmm P (Drivers s) of
        None \<Rightarrow> s\<lparr>Interrupts := True\<rparr>
      | Some (status, inSmm) \<Rightarrow> if status AND EFI_ERROR_BIT = 0 \<and> \<not> inSmm then s\<lparr>Interrupts := True\<rparr> else s)"

definition CoreRaiseTpl :: "'e DXE_PLATFORM \<Rightarrow> EFI_TPL \<Rightarrow> 'e dxe_events \<Rightarrow> (EFI_TPL \<times> 'e dxe_events) option" where
  "CoreRaiseTpl P newTpl s =
     (let oldTpl = gEfiCurrentTpl s in
      if oldTpl > newTpl \<or> newTpl > TPL_HIGH_LEVEL then None
      else
        let s = (if newTpl \<ge> TPL_HIGH_LEVEL \<and> oldTpl < TPL_HIGH_LEVEL then CoreSetInterruptState P False s else s) in
        Some (oldTpl, s\<lparr>gEfiCurrentTpl := newTpl\<rparr>))"

definition CoreAcquireLock :: "'e DXE_PLATFORM \<Rightarrow> EFI_LOCK \<Rightarrow> 'e dxe_events \<Rightarrow> (EFI_LOCK \<times> 'e dxe_events) option" where
  "CoreAcquireLock P l s =
     (if Acquired l then None
      else do { (tpl, s) \<leftarrow> CoreRaiseTpl P (LockTpl l) s; Some (l\<lparr>OwnerTpl := tpl, Acquired := True\<rparr>, s) })"

definition CoreAcquireEventLock :: "'e DXE_PLATFORM \<Rightarrow> 'e dxe_events \<Rightarrow> 'e dxe_events option" where
  "CoreAcquireEventLock P s = do { (l, s) \<leftarrow> CoreAcquireLock P (gEventQueueLock s) s; Some (s\<lparr>gEventQueueLock := l\<rparr>) }"

definition AcquireTimerLock :: "'e DXE_PLATFORM \<Rightarrow> 'e dxe_events \<Rightarrow> 'e dxe_events option" where
  "AcquireTimerLock P s = do { (l, s) \<leftarrow> CoreAcquireLock P (mEfiTimerLock s) s; Some (s\<lparr>mEfiTimerLock := l\<rparr>) }"

definition AcquireSystemTimeLock :: "'e DXE_PLATFORM \<Rightarrow> 'e dxe_events \<Rightarrow> 'e dxe_events option" where
  "AcquireSystemTimeLock P s = do { (l, s) \<leftarrow> CoreAcquireLock P (mEfiSystemTimeLock s) s; Some (s\<lparr>mEfiSystemTimeLock := l\<rparr>) }"

function HighBitSet32_loop :: "UINT32 \<Rightarrow> nat \<Rightarrow> nat" where
  "HighBitSet32_loop x i = (if 0 <s x then HighBitSet32_loop (push_bit 1 x) (i - 1) else i)"
  by pat_completeness auto
termination
proof (relation "measure (\<lambda>(x, i). 4294967296 - unat x)", simp)
  fix x :: UINT32 and i assume p: "0 <s x"
  then have "0 < sint x" "\<not> x <s 0" by (simp_all add: word_sless_alt)
  then have "0 < int (unat x)" "int (unat x) \<le> 2147483647" using sint_eq_unat [of x] sint_upper32 [of x] by simp_all
  then have n: "0 < unat x" "unat x \<le> 2147483647" by linarith+
  then have "unat (push_bit 1 x) = 2 * unat x" by (simp add: push_bit_eq_mult mult.commute unat_mult32)
  with n show "((push_bit 1 x, i - 1), x, i) \<in> measure (\<lambda>(x, i). 4294967296 - unat x)" by simp
qed

declare HighBitSet32_loop.simps [simp del]

text \<open>The position of the highest bit that is set; \<open>None\<close> is the result -1.\<close>

definition HighBitSet32 :: "UINT32 \<Rightarrow> nat option" where
  "HighBitSet32 x = (if x = 0 then None else Some (HighBitSet32_loop x 31))"

definition HighBitSet64 :: "UINT64 \<Rightarrow> nat option" where
  "HighBitSet64 x =
     (if x = ucast (ucast x :: UINT32) then HighBitSet32 (ucast x)
      else map_option (\<lambda>i. i + 32) (HighBitSet32 (ucast (drop_bit 32 x))))"

text \<open>\<open>1 << Priority\<close> shifts a signed integer of 32 bits: up to its sign bit only.\<close>

definition PendingBit :: "EFI_TPL \<Rightarrow> UINTN option" where
  "PendingBit tpl = (if tpl < 31 then Some (push_bit (unat tpl) 1) else None)"

subsection \<open>Running notification functions\<close>

text \<open>
  The calls that go round the recursion: \<open>CoreRestoreTpl\<close> and the loops in it, in
  \<open>CoreDispatchEventNotifies\<close> and in \<open>CoreCheckTimers\<close>.  The functions take them as the argument \<open>run\<close>,
  and \<open>RunTpl\<close> ties the knot.
\<close>

datatype TplCall = RestoreTpl EFI_TPL | RestoreTplLoop EFI_TPL | DispatchLoop EFI_TPL | CheckTimersLoop UINT64

type_synonym 'e run = "TplCall \<Rightarrow> 'e dxe_events \<Rightarrow> 'e dxe_events option"

definition CoreReleaseEventLock :: "'e run \<Rightarrow> 'e dxe_events \<Rightarrow> 'e dxe_events option" where
  "CoreReleaseEventLock run s = (let l = gEventQueueLock s in
     if Acquired l then run (RestoreTpl (OwnerTpl l)) (s\<lparr>gEventQueueLock := l\<lparr>Acquired := False\<rparr>\<rparr>) else None)"

definition ReleaseTimerLock :: "'e run \<Rightarrow> 'e dxe_events \<Rightarrow> 'e dxe_events option" where
  "ReleaseTimerLock run s = (let l = mEfiTimerLock s in
     if Acquired l then run (RestoreTpl (OwnerTpl l)) (s\<lparr>mEfiTimerLock := l\<lparr>Acquired := False\<rparr>\<rparr>) else None)"

definition ReleaseSystemTimeLock :: "'e run \<Rightarrow> 'e dxe_events \<Rightarrow> 'e dxe_events option" where
  "ReleaseSystemTimeLock run s = (let l = mEfiSystemTimeLock s in
     if Acquired l then run (RestoreTpl (OwnerTpl l)) (s\<lparr>mEfiSystemTimeLock := l\<lparr>Acquired := False\<rparr>\<rparr>) else None)"

definition CoreRestoreTpl :: "'e run \<Rightarrow> 'e DXE_PLATFORM \<Rightarrow> EFI_TPL \<Rightarrow> 'e dxe_events \<Rightarrow> 'e dxe_events option" where
  "CoreRestoreTpl run P newTpl s =
     (let oldTpl = gEfiCurrentTpl s in
      if newTpl > oldTpl \<or> newTpl > TPL_HIGH_LEVEL then None
      else do {
        let s = (if oldTpl \<ge> TPL_HIGH_LEVEL \<and> newTpl < TPL_HIGH_LEVEL then s\<lparr>gEfiCurrentTpl := TPL_HIGH_LEVEL\<rparr> else s);
        s \<leftarrow> run (RestoreTplLoop newTpl) s;
        let s = s\<lparr>gEfiCurrentTpl := newTpl\<rparr>;
        Some (if newTpl < TPL_HIGH_LEVEL then CoreSetInterruptState P True s else s) })"

definition UpdateEvent :: "EFI_EVENT \<Rightarrow> (IEVENT \<Rightarrow> IEVENT) \<Rightarrow> 'e dxe_events \<Rightarrow> 'e dxe_events option" where
  "UpdateEvent ev f s = do { e \<leftarrow> Events s ev; Some (s\<lparr>Events := (Events s)(ev \<mapsto> f e)\<rparr>) }"

definition CoreDispatchEventNotifies :: "'e run \<Rightarrow> 'e DXE_PLATFORM \<Rightarrow> EFI_TPL \<Rightarrow> 'e dxe_events \<Rightarrow> 'e dxe_events option" where
  "CoreDispatchEventNotifies run P priority s = do {
     s \<leftarrow> CoreAcquireEventLock P s;
     if OwnerTpl (gEventQueueLock s) \<noteq> priority \<or> unat priority \<ge> length (gEventQueue s) then None
     else do {
       s \<leftarrow> run (DispatchLoop priority) s;
       bit \<leftarrow> PendingBit priority;
       CoreReleaseEventLock run (s\<lparr>gEventPending := gEventPending s AND NOT bit\<rparr>) } }"

definition RestoreTpl_step :: "'e run \<Rightarrow> 'e DXE_PLATFORM \<Rightarrow> EFI_TPL \<Rightarrow> 'e dxe_events \<Rightarrow> 'e dxe_events option" where
  "RestoreTpl_step run P newTpl s =
     (case HighBitSet64 (gEventPending s) of
        None \<Rightarrow> Some s
      | Some i \<Rightarrow>
          let pendingTpl = of_nat i in
          if pendingTpl \<le> newTpl then Some s
          else do {
            let s = s\<lparr>gEfiCurrentTpl := pendingTpl\<rparr>;
            let s = (if pendingTpl < TPL_HIGH_LEVEL then CoreSetInterruptState P True s else s);
            s \<leftarrow> CoreDispatchEventNotifies run P pendingTpl s;
            run (RestoreTplLoop newTpl) s })"

definition CoreNotifyEvent :: "EFI_EVENT \<Rightarrow> 'e dxe_events \<Rightarrow> 'e dxe_events option" where
  "CoreNotifyEvent ev s =
     (if \<not> Acquired (gEventQueueLock s) then None
      else do {
        e \<leftarrow> Events s ev;
        let i = unat (NotifyTpl e);
        let queues = map (removeAll ev) (gEventQueue s);
        bit \<leftarrow> PendingBit (NotifyTpl e);
        if i < length queues
        then Some (s\<lparr>gEventQueue := queues[i := queues ! i @ [ev]], gEventPending := gEventPending s OR bit\<rparr>) else None })"

fun CoreNotifySignalList_loop :: "EFI_GUID \<Rightarrow> EFI_EVENT list \<Rightarrow> 'e dxe_events \<Rightarrow> 'e dxe_events option" where
  "CoreNotifySignalList_loop guid [] s = Some s"
| "CoreNotifySignalList_loop guid (ev # link) s = do {
     e \<leftarrow> Events s ev;
     s \<leftarrow> (if EventGroup e = guid then CoreNotifyEvent ev s else Some s);
     CoreNotifySignalList_loop guid link s }"

definition CoreNotifySignalList :: "'e run \<Rightarrow> 'e DXE_PLATFORM \<Rightarrow> EFI_GUID \<Rightarrow> 'e dxe_events \<Rightarrow> 'e dxe_events option" where
  "CoreNotifySignalList run P guid s = do {
     s \<leftarrow> CoreAcquireEventLock P s;
     s \<leftarrow> CoreNotifySignalList_loop guid (gEventSignalQueue s) s;
     CoreReleaseEventLock run s }"

text \<open>The part of \<open>CoreSignalEvent\<close> that holds the lock, for an event \<open>e\<close> with no signal yet.\<close>

definition SignalEvent_first :: "'e run \<Rightarrow> 'e DXE_PLATFORM \<Rightarrow> EFI_EVENT \<Rightarrow> IEVENT \<Rightarrow> 'e dxe_events \<Rightarrow> 'e dxe_events option" where
  "SignalEvent_first run P ev e s = do {
     s \<leftarrow> UpdateEvent ev (\<lambda>e. e\<lparr>SignalCount := SignalCount e + 1\<rparr>) s;
     if EventType e AND EVT_NOTIFY_SIGNAL \<noteq> 0 then
       if ExFlag e AND EVT_EXFLAG_EVENT_GROUP \<noteq> 0 then do {
         s \<leftarrow> CoreReleaseEventLock run s;
         e \<leftarrow> Events s ev;
         s \<leftarrow> CoreNotifySignalList run P (EventGroup e) s;
         CoreAcquireEventLock P s }
       else CoreNotifyEvent ev s
     else Some s }"

definition CoreSignalEvent :: "'e run \<Rightarrow> 'e DXE_PLATFORM \<Rightarrow> EFI_EVENT \<Rightarrow> 'e dxe_events \<Rightarrow> (EFI_STATUS \<times> 'e dxe_events) option" where
  "CoreSignalEvent run P ev s =
     (if ev = 0 then Some (EFI_INVALID_PARAMETER, s)
      else do {
        e \<leftarrow> Events s ev;
        if Signature e \<noteq> EVENT_SIGNATURE then Some (EFI_INVALID_PARAMETER, s)
        else do {
          s \<leftarrow> CoreAcquireEventLock P s;
          s \<leftarrow> (if SignalCount e = 0 then SignalEvent_first run P ev e s else Some s);
          s \<leftarrow> CoreReleaseEventLock run s;
          Some (EFI_SUCCESS, s) } })"

subsection \<open>Timers\<close>

text \<open>A timer goes behind all that are not later.\<close>

fun CoreInsertEventTimer_loop :: "(EFI_EVENT \<rightharpoonup> IEVENT) \<Rightarrow> UINT64 \<Rightarrow> EFI_EVENT \<Rightarrow> EFI_EVENT list \<Rightarrow> EFI_EVENT list option" where
  "CoreInsertEventTimer_loop events triggerTime ev [] = Some [ev]"
| "CoreInsertEventTimer_loop events triggerTime ev (link # timers) = do {
     event2 \<leftarrow> events link;
     if TriggerTime event2 > triggerTime then Some (ev # link # timers)
     else do {
       timers \<leftarrow> CoreInsertEventTimer_loop events triggerTime ev timers;
       Some (link # timers) } }"

definition CoreInsertEventTimer :: "EFI_EVENT \<Rightarrow> 'e dxe_events \<Rightarrow> 'e dxe_events option" where
  "CoreInsertEventTimer ev s =
     (if \<not> Acquired (mEfiTimerLock s) then None
      else do {
        e \<leftarrow> Events s ev;
        timers \<leftarrow> CoreInsertEventTimer_loop (Events s) (TriggerTime e) ev (mEfiTimerList s);
        Some (s\<lparr>mEfiTimerList := timers\<rparr>) })"

definition CoreCurrentSystemTime :: "'e run \<Rightarrow> 'e DXE_PLATFORM \<Rightarrow> 'e dxe_events \<Rightarrow> (UINT64 \<times> 'e dxe_events) option" where
  "CoreCurrentSystemTime run P s = do {
     s \<leftarrow> AcquireSystemTimeLock P s;
     let systemTime = mEfiSystemTime s;
     s \<leftarrow> ReleaseSystemTimeLock run s;
     Some (systemTime, s) }"

text \<open>A periodic timer \<open>e\<close> that has expired is set again, from now on if it is late.\<close>

definition LateTimer :: "'e run \<Rightarrow> 'e DXE_PLATFORM \<Rightarrow> UINT64 \<Rightarrow> EFI_EVENT \<Rightarrow> 'e dxe_events \<Rightarrow> 'e dxe_events option" where
  "LateTimer run P systemTime ev s = do {
     s \<leftarrow> UpdateEvent ev (\<lambda>e. e\<lparr>TriggerTime := systemTime\<rparr>) s;
     (_, s) \<leftarrow> CoreSignalEvent run P (mEfiCheckTimerEvent s) s;
     Some s }"

definition SetPeriodicTimer :: "'e run \<Rightarrow> 'e DXE_PLATFORM \<Rightarrow> UINT64 \<Rightarrow> EFI_EVENT \<Rightarrow> IEVENT \<Rightarrow> 'e dxe_events \<Rightarrow> 'e dxe_events option" where
  "SetPeriodicTimer run P systemTime ev e s = do {
     s \<leftarrow> UpdateEvent ev (\<lambda>e. e\<lparr>TriggerTime := TriggerTime e + Period e\<rparr>) s;
     s \<leftarrow> (if TriggerTime e + Period e \<le> systemTime then LateTimer run P systemTime ev s else Some s);
     CoreInsertEventTimer ev s }"

text \<open>One turn of the loop in \<open>CoreCheckTimers\<close>.\<close>

definition CheckTimers_step :: "'e run \<Rightarrow> 'e DXE_PLATFORM \<Rightarrow> UINT64 \<Rightarrow> 'e dxe_events \<Rightarrow> 'e dxe_events option" where
  "CheckTimers_step run P systemTime s =
     (case mEfiTimerList s of
        [] \<Rightarrow> Some s
      | ev # link \<Rightarrow> do {
          e \<leftarrow> Events s ev;
          if TriggerTime e > systemTime then Some s
          else do {
            (_, s) \<leftarrow> CoreSignalEvent run P ev (s\<lparr>mEfiTimerList := link\<rparr>);
            e \<leftarrow> Events s ev;
            s \<leftarrow> (if Period e \<noteq> 0 then SetPeriodicTimer run P systemTime ev e s else Some s);
            run (CheckTimersLoop systemTime) s } })"

definition CoreCheckTimers :: "'e run \<Rightarrow> 'e DXE_PLATFORM \<Rightarrow> 'e dxe_events \<Rightarrow> 'e dxe_events option" where
  "CoreCheckTimers run P s = do {
     s \<leftarrow> AcquireTimerLock P s;
     (systemTime, s) \<leftarrow> CoreCurrentSystemTime run P s;
     s \<leftarrow> run (CheckTimersLoop systemTime) s;
     ReleaseTimerLock run s }"

subsection \<open>The recursion\<close>

text \<open>\<open>Event->NotifyFunction (Event, Event->NotifyContext)\<close>, and the loop over the events of a priority.\<close>

definition RunNotifyFunction :: "'e run \<Rightarrow> 'e DXE_PLATFORM \<Rightarrow> EFI_EVENT \<Rightarrow> IEVENT \<Rightarrow> 'e dxe_events \<Rightarrow> 'e dxe_events option" where
  "RunNotifyFunction run P ev e s =
     (case NotifyFunction e of
        None \<Rightarrow> None
      | Some CheckTimersFunction \<Rightarrow> CoreCheckTimers run P s
      | Some EmptyFunction \<Rightarrow> Some s
      | Some (DriverFunction f) \<Rightarrow> Notify P f ev (NotifyContext e) s)"

definition DispatchEventNotifies_step :: "'e run \<Rightarrow> 'e DXE_PLATFORM \<Rightarrow> EFI_TPL \<Rightarrow> 'e dxe_events \<Rightarrow> 'e dxe_events option" where
  "DispatchEventNotifies_step run P priority s =
     (case gEventQueue s ! unat priority of
        [] \<Rightarrow> Some s
      | ev # link \<Rightarrow> do {
          let s = s\<lparr>gEventQueue := (gEventQueue s)[unat priority := link]\<rparr>;
          s \<leftarrow> UpdateEvent ev (\<lambda>e. if EventType e AND EVT_NOTIFY_SIGNAL \<noteq> 0 then e\<lparr>SignalCount := 0\<rparr> else e) s;
          s \<leftarrow> CoreReleaseEventLock run s;
          e \<leftarrow> Events s ev;
          s \<leftarrow> RunNotifyFunction run P ev e s;
          s \<leftarrow> CoreAcquireEventLock P s;
          run (DispatchLoop priority) s })"

lemmas run_defs = CoreReleaseEventLock_def ReleaseTimerLock_def ReleaseSystemTimeLock_def CoreRestoreTpl_def CoreDispatchEventNotifies_def
  RestoreTpl_step_def CoreNotifySignalList_def SignalEvent_first_def CoreSignalEvent_def CoreCurrentSystemTime_def LateTimer_def SetPeriodicTimer_def CheckTimers_step_def CoreCheckTimers_def
  RunNotifyFunction_def DispatchEventNotifies_step_def

lemma mono_case_option:
  "mono_option A \<Longrightarrow> (\<And>x. mono_option (\<lambda>f. B f x)) \<Longrightarrow> mono_option (\<lambda>f. case v of None \<Rightarrow> A f | Some x \<Rightarrow> B f x)"
  by (cases v) simp_all

lemma mono_case_list:
  "mono_option A \<Longrightarrow> (\<And>x xs. mono_option (\<lambda>f. C f x xs)) \<Longrightarrow> mono_option (\<lambda>f. case l of [] \<Rightarrow> A f | x # xs \<Rightarrow> C f x xs)"
  by (cases l) simp_all

lemma mono_case_notify:
  "mono_option A \<Longrightarrow> mono_option D \<Longrightarrow> (\<And>x. mono_option (\<lambda>f. B f x)) \<Longrightarrow>
   mono_option (\<lambda>f. case n of CheckTimersFunction \<Rightarrow> A f | EmptyFunction \<Rightarrow> D f | DriverFunction x \<Rightarrow> B f x)"
  by (cases n) simp_all

lemma run_mono [partial_function_mono]:
  assumes run: "\<And>c s. mono_option (\<lambda>f. run f c s)"
  shows "mono_option (\<lambda>f. CoreRestoreTpl (run f) P t s)" "mono_option (\<lambda>f. RestoreTpl_step (run f) P t s)"
    "mono_option (\<lambda>f. DispatchEventNotifies_step (run f) P t s)" "mono_option (\<lambda>f. CheckTimers_step (run f) P now s)"
  unfolding run_defs Let_def case_prod_beta
  by (intro partial_function_mono run mono_case_option mono_case_list mono_case_notify)+

partial_function (option) RunTpl :: "'e DXE_PLATFORM \<Rightarrow> 'e run" where
  "RunTpl P call s = (case call of
       RestoreTpl newTpl \<Rightarrow> CoreRestoreTpl (\<lambda>call s. RunTpl P call s) P newTpl s
     | RestoreTplLoop newTpl \<Rightarrow> RestoreTpl_step (\<lambda>call s. RunTpl P call s) P newTpl s
     | DispatchLoop priority \<Rightarrow> DispatchEventNotifies_step (\<lambda>call s. RunTpl P call s) P priority s
     | CheckTimersLoop systemTime \<Rightarrow> CheckTimers_step (\<lambda>call s. RunTpl P call s) P systemTime s)"

declare RunTpl.simps [code]

lemma RunTpl_eqs:
  "RunTpl P (RestoreTpl newTpl) s = CoreRestoreTpl (RunTpl P) P newTpl s"
  "RunTpl P (RestoreTplLoop newTpl) s = RestoreTpl_step (RunTpl P) P newTpl s"
  "RunTpl P (DispatchLoop priority) s = DispatchEventNotifies_step (RunTpl P) P priority s"
  "RunTpl P (CheckTimersLoop systemTime) s = CheckTimers_step (RunTpl P) P systemTime s"
  by (subst RunTpl.simps, simp)+

subsection \<open>The services\<close>

text \<open>The groups of the events that leave boot services and that change to virtual addresses.\<close>

definition EventTypeAndGroup :: "UINT32 \<Rightarrow> EFI_GUID option \<Rightarrow> UINT32 \<times> EFI_GUID option" where
  "EventTypeAndGroup ty guid =
     (case guid of
        Some g \<Rightarrow>
          (if g = gEfiEventExitBootServicesGuid then EVT_SIGNAL_EXIT_BOOT_SERVICES
           else if g = gEfiEventVirtualAddressChangeGuid then EVT_SIGNAL_VIRTUAL_ADDRESS_CHANGE else ty, Some g)
      | None \<Rightarrow>
          (ty, if ty = EVT_SIGNAL_EXIT_BOOT_SERVICES then Some gEfiEventExitBootServicesGuid
               else if ty = EVT_SIGNAL_VIRTUAL_ADDRESS_CHANGE then Some gEfiEventVirtualAddressChangeGuid else None))"

definition NewEvent :: "UINT32 \<Rightarrow> EFI_TPL \<Rightarrow> EFI_EVENT_NOTIFY option \<Rightarrow> ptr \<Rightarrow> EFI_GUID option \<Rightarrow> IEVENT" where
  "NewEvent ty tpl notify ctx guid = \<lparr>Signature = EVENT_SIGNATURE, EventType = ty, SignalCount = 0, NotifyTpl = tpl,
     NotifyFunction = notify, NotifyContext = ctx,
     EventGroup = (case guid of None \<Rightarrow> ZeroGuid | Some g \<Rightarrow> g),
     ExFlag = (case guid of None \<Rightarrow> 0 | Some g \<Rightarrow> EVT_EXFLAG_EVENT_GROUP), TriggerTime = 0, Period = 0\<rparr>"

text \<open>The status and the event; \<open>stored\<close> says whether there is a place to store it.\<close>

definition CoreCreateEventInternal :: "'e DXE_PLATFORM \<Rightarrow> UINT32 \<Rightarrow> EFI_TPL \<Rightarrow> EFI_EVENT_NOTIFY option \<Rightarrow> ptr \<Rightarrow> EFI_GUID option \<Rightarrow>
    bool \<Rightarrow> 'e dxe_events \<Rightarrow> (EFI_STATUS \<times> EFI_EVENT option \<times> 'e dxe_events) option" where
  "CoreCreateEventInternal P ty tpl notify ctx guid stored s =
     (if \<not> stored \<or> ty \<notin> set mEventTable then Some (EFI_INVALID_PARAMETER, None, s)
      else if guid \<noteq> None \<and> (ty = EVT_SIGNAL_EXIT_BOOT_SERVICES \<or> ty = EVT_SIGNAL_VIRTUAL_ADDRESS_CHANGE)
      then Some (EFI_INVALID_PARAMETER, None, s)
      else case EventTypeAndGroup ty guid of (ty, guid) \<Rightarrow>
        let notifies = ty AND (EVT_NOTIFY_WAIT OR EVT_NOTIFY_SIGNAL) \<noteq> 0 in
        if notifies \<and> (notify = None \<or> tpl \<le> TPL_APPLICATION \<or> tpl \<ge> TPL_HIGH_LEVEL)
        then Some (EFI_INVALID_PARAMETER, None, s)
        else
          let (tpl, notify, ctx) = (if notifies then (tpl, notify, ctx) else (0, None, 0)) in
          case AllocateZeroPool P (ty AND EVT_RUNTIME \<noteq> 0) (Drivers s) of (ev, drivers) \<Rightarrow>
          if ev = 0 then Some (EFI_OUT_OF_RESOURCES, None, s\<lparr>Drivers := drivers\<rparr>)
          else do {
            let s = s\<lparr>Drivers := drivers, Events := (Events s)(ev \<mapsto> NewEvent ty tpl notify ctx guid)\<rparr>;
            let s = (if ty AND EVT_RUNTIME \<noteq> 0 then s\<lparr>RuntimeEvents := RuntimeEvents s @ [ev]\<rparr> else s);
            s \<leftarrow> (if ty AND EVT_NOTIFY_SIGNAL \<noteq> 0 then do {
                s \<leftarrow> CoreAcquireEventLock P s;
                CoreReleaseEventLock (RunTpl P) (s\<lparr>gEventSignalQueue := ev # gEventSignalQueue s\<rparr>) }
              else Some s);
            Some (EFI_SUCCESS, Some ev, s) })"

definition CoreCreateEventEx :: "'e DXE_PLATFORM \<Rightarrow> UINT32 \<Rightarrow> EFI_TPL \<Rightarrow> EFI_EVENT_NOTIFY option \<Rightarrow> ptr \<Rightarrow> EFI_GUID option \<Rightarrow>
    bool \<Rightarrow> 'e dxe_events \<Rightarrow> (EFI_STATUS \<times> EFI_EVENT option \<times> 'e dxe_events) option" where
  "CoreCreateEventEx P ty tpl notify ctx guid stored s =
     (if ty AND (EVT_NOTIFY_WAIT OR EVT_NOTIFY_SIGNAL) \<noteq> 0 \<and>
         tpl \<noteq> TPL_APPLICATION \<and> tpl \<noteq> TPL_CALLBACK \<and> tpl \<noteq> TPL_NOTIFY
      then Some (EFI_INVALID_PARAMETER, None, s)
      else CoreCreateEventInternal P ty tpl notify ctx guid stored s)"

definition CoreCreateEvent :: "'e DXE_PLATFORM \<Rightarrow> UINT32 \<Rightarrow> EFI_TPL \<Rightarrow> EFI_EVENT_NOTIFY option \<Rightarrow> ptr \<Rightarrow>
    bool \<Rightarrow> 'e dxe_events \<Rightarrow> (EFI_STATUS \<times> EFI_EVENT option \<times> 'e dxe_events) option" where
  "CoreCreateEvent P ty tpl notify ctx stored s =
     CoreCreateEventEx P ty tpl notify ctx None stored s"

definition CoreCheckEvent :: "'e DXE_PLATFORM \<Rightarrow> EFI_EVENT \<Rightarrow> 'e dxe_events \<Rightarrow> (EFI_STATUS \<times> 'e dxe_events) option" where
  "CoreCheckEvent P ev s =
     (if ev = 0 then Some (EFI_INVALID_PARAMETER, s)
      else do {
        e \<leftarrow> Events s ev;
        if Signature e \<noteq> EVENT_SIGNATURE \<or> EventType e AND EVT_NOTIFY_SIGNAL \<noteq> 0 then Some (EFI_INVALID_PARAMETER, s)
        else do {
          s \<leftarrow> (if SignalCount e = 0 \<and> EventType e AND EVT_NOTIFY_WAIT \<noteq> 0 then do {
              s \<leftarrow> CoreAcquireEventLock P s;
              s \<leftarrow> CoreNotifyEvent ev s;
              CoreReleaseEventLock (RunTpl P) s }
            else Some s);
          e \<leftarrow> Events s ev;
          if SignalCount e \<noteq> 0 then do {
            s \<leftarrow> CoreAcquireEventLock P s;
            s \<leftarrow> UpdateEvent ev (\<lambda>e. e\<lparr>SignalCount := 0\<rparr>) s;
            s \<leftarrow> CoreReleaseEventLock (RunTpl P) s;
            Some (EFI_SUCCESS, s) }
          else Some (EFI_NOT_READY, s) } })"

text \<open>The first event that is ready, or not valid, with its index.\<close>

fun WaitForEvent_check :: "'e DXE_PLATFORM \<Rightarrow> UINTN \<Rightarrow> EFI_EVENT list \<Rightarrow> 'e dxe_events \<Rightarrow>
    ((EFI_STATUS \<times> UINTN) option \<times> 'e dxe_events) option" where
  "WaitForEvent_check P index [] s = Some (None, s)"
| "WaitForEvent_check P index (ev # events) s = do {
     (status, s) \<leftarrow> CoreCheckEvent P ev s;
     if status \<noteq> EFI_NOT_READY then Some (Some (status, index), s) else WaitForEvent_check P (index + 1) events s }"

partial_function (option) WaitForEvent_loop :: "'e DXE_PLATFORM \<Rightarrow> EFI_EVENT list \<Rightarrow> 'e dxe_events \<Rightarrow>
    (EFI_STATUS \<times> UINTN \<times> 'e dxe_events) option" where
  "WaitForEvent_loop P events s = do {
     (r, s) \<leftarrow> WaitForEvent_check P 0 events s;
     case r of
       Some (status, index) \<Rightarrow> Some (status, index, s)
     | None \<Rightarrow> do {
         (_, s) \<leftarrow> CoreSignalEvent (RunTpl P) P (gIdleLoopEvent s) s;
         WaitForEvent_loop P events s } }"

declare WaitForEvent_loop.simps [code]

definition CoreWaitForEvent :: "'e DXE_PLATFORM \<Rightarrow> UINTN \<Rightarrow> EFI_EVENT list option \<Rightarrow> 'e dxe_events \<Rightarrow>
    (EFI_STATUS \<times> UINTN option \<times> 'e dxe_events) option" where
  "CoreWaitForEvent P n events s =
     (if gEfiCurrentTpl s \<noteq> TPL_APPLICATION then Some (EFI_UNSUPPORTED, None, s)
      else if n = 0 then Some (EFI_INVALID_PARAMETER, None, s)
      else case events of
        None \<Rightarrow> Some (EFI_INVALID_PARAMETER, None, s)
      | Some events \<Rightarrow>
          if unat n \<le> length events then do {
            (status, index, s) \<leftarrow> WaitForEvent_loop P (take (unat n) events) s;
            Some (status, Some index, s) }
          else None)"

subsection \<open>Setting timers\<close>

definition TimerCancel :: UINT32 where "TimerCancel = 0"
definition TimerPeriodic :: UINT32 where "TimerPeriodic = 1"
definition TimerRelative :: UINT32 where "TimerRelative = 2"

lemmas timer_delays = TimerCancel_def TimerPeriodic_def TimerRelative_def

text \<open>The body of \<open>if (Type != TimerCancel)\<close>.\<close>

definition ArmTimer :: "'e DXE_PLATFORM \<Rightarrow> EFI_EVENT \<Rightarrow> UINT32 \<Rightarrow> UINT64 \<Rightarrow> 'e dxe_events \<Rightarrow> 'e dxe_events option" where
  "ArmTimer P ev delay triggerTime s = do {
     let triggerTime = (if delay = TimerPeriodic \<and> triggerTime = 0 then GetTimerPeriod P (Drivers s) else triggerTime);
     s \<leftarrow> (if delay = TimerPeriodic then UpdateEvent ev (\<lambda>e. e\<lparr>Period := triggerTime\<rparr>) s else Some s);
     (systemTime, s) \<leftarrow> CoreCurrentSystemTime (RunTpl P) P s;
     s \<leftarrow> UpdateEvent ev (\<lambda>e. e\<lparr>TriggerTime := systemTime + triggerTime\<rparr>) s;
     s \<leftarrow> CoreInsertEventTimer ev s;
     if triggerTime = 0 then do {
       (_, s) \<leftarrow> CoreSignalEvent (RunTpl P) P (mEfiCheckTimerEvent s) s;
       Some s }
     else Some s }"

definition CoreSetTimer :: "'e DXE_PLATFORM \<Rightarrow> EFI_EVENT \<Rightarrow> UINT32 \<Rightarrow> UINT64 \<Rightarrow> 'e dxe_events \<Rightarrow>
    (EFI_STATUS \<times> 'e dxe_events) option" where
  "CoreSetTimer P ev delay triggerTime s =
     (if ev = 0 then Some (EFI_INVALID_PARAMETER, s)
      else do {
        e \<leftarrow> Events s ev;
        if Signature e \<noteq> EVENT_SIGNATURE \<or> delay > TimerRelative \<or> EventType e AND EVT_TIMER = 0
        then Some (EFI_INVALID_PARAMETER, s)
        else do {
          s \<leftarrow> AcquireTimerLock P s;
          s \<leftarrow> UpdateEvent ev (\<lambda>e. e\<lparr>TriggerTime := 0, Period := 0\<rparr>) (s\<lparr>mEfiTimerList := removeAll ev (mEfiTimerList s)\<rparr>);
          s \<leftarrow> (if delay \<noteq> TimerCancel then ArmTimer P ev delay triggerTime s else Some s);
          s \<leftarrow> ReleaseTimerLock (RunTpl P) s;
          Some (EFI_SUCCESS, s) } })"

definition CoreTimerTick :: "'e DXE_PLATFORM \<Rightarrow> UINT64 \<Rightarrow> 'e dxe_events \<Rightarrow> 'e dxe_events option" where
  "CoreTimerTick P duration s = do {
     s \<leftarrow> AcquireSystemTimeLock P s;
     let s = s\<lparr>mEfiSystemTime := mEfiSystemTime s + duration\<rparr>;
     s \<leftarrow> (case mEfiTimerList s of
         [] \<Rightarrow> Some s
       | ev # _ \<Rightarrow> do {
           e \<leftarrow> Events s ev;
           if TriggerTime e \<le> mEfiSystemTime s then do {
             (_, s) \<leftarrow> CoreSignalEvent (RunTpl P) P (mEfiCheckTimerEvent s) s;
             Some s }
           else Some s });
     ReleaseSystemTimeLock (RunTpl P) s }"

definition CoreCloseEvent :: "'e DXE_PLATFORM \<Rightarrow> EFI_EVENT \<Rightarrow> 'e dxe_events \<Rightarrow> (EFI_STATUS \<times> 'e dxe_events) option" where
  "CoreCloseEvent P ev s =
     (if ev = 0 then Some (EFI_INVALID_PARAMETER, s)
      else do {
        e \<leftarrow> Events s ev;
        if Signature e \<noteq> EVENT_SIGNATURE then Some (EFI_INVALID_PARAMETER, s)
        else do {
          s \<leftarrow> (if EventType e AND EVT_TIMER \<noteq> 0 then do { (_, s) \<leftarrow> CoreSetTimer P ev TimerCancel 0 s; Some s } else Some s);
          s \<leftarrow> CoreAcquireEventLock P s;
          _ \<leftarrow> Events s ev;
          s \<leftarrow> CoreReleaseEventLock (RunTpl P) (s\<lparr>RuntimeEvents := removeAll ev (RuntimeEvents s),
             gEventQueue := map (removeAll ev) (gEventQueue s), gEventSignalQueue := removeAll ev (gEventSignalQueue s)\<rparr>);
          e \<leftarrow> Events s ev;
          let s = (if ExFlag e AND EVT_EXFLAG_EVENT_PROTOCOL_NOTIFICATION \<noteq> 0
                   then s\<lparr>Drivers := UnregisterProtocolNotify P ev (Drivers s)\<rparr> else s);
          case FreeEvent P ev (Drivers s) of (status, drivers) \<Rightarrow>
            if status AND EFI_ERROR_BIT \<noteq> 0 then None
            else Some (status, s\<lparr>Drivers := drivers, Events := (Events s)(ev := None)\<rparr>) } })"

text \<open>The first calls: an empty queue for each priority, and the events of the core itself.\<close>

definition CoreInitializeTimer :: "'e DXE_PLATFORM \<Rightarrow> 'e dxe_events \<Rightarrow> 'e dxe_events option" where
  "CoreInitializeTimer P s = do {
     (status, ev, s) \<leftarrow> CoreCreateEventInternal P EVT_NOTIFY_SIGNAL (TPL_HIGH_LEVEL - 1) (Some CheckTimersFunction) 0 None True s;
     if status AND EFI_ERROR_BIT \<noteq> 0 then None
     else Some (s\<lparr>mEfiCheckTimerEvent := (case ev of None \<Rightarrow> mEfiCheckTimerEvent s | Some ev \<Rightarrow> ev)\<rparr>) }"

definition CoreInitializeEventServices :: "'e DXE_PLATFORM \<Rightarrow> 'e dxe_events \<Rightarrow> (EFI_STATUS \<times> 'e dxe_events) option" where
  "CoreInitializeEventServices P s = do {
     s \<leftarrow> CoreInitializeTimer P (s\<lparr>gEventQueue := replicate (unat TPL_HIGH_LEVEL + 1) []\<rparr>);
     (_, ev, s) \<leftarrow> CoreCreateEventEx P EVT_NOTIFY_SIGNAL TPL_NOTIFY (Some EmptyFunction) 0 (Some gIdleLoopEventGuid) True s;
     Some (EFI_SUCCESS, s\<lparr>gIdleLoopEvent := (case ev of None \<Rightarrow> gIdleLoopEvent s | Some ev \<Rightarrow> ev)\<rparr>) }"

text \<open>The variables before that.\<close>

definition EFI_INITIALIZE_LOCK_VARIABLE :: "EFI_TPL \<Rightarrow> EFI_LOCK" where
  "EFI_INITIALIZE_LOCK_VARIABLE tpl = \<lparr>LockTpl = tpl, OwnerTpl = TPL_APPLICATION, Acquired = False\<rparr>"

definition events_at_start :: "'e \<Rightarrow> 'e dxe_events" where
  "events_at_start drivers = \<lparr>gEfiCurrentTpl = TPL_APPLICATION, gEventQueueLock = EFI_INITIALIZE_LOCK_VARIABLE TPL_HIGH_LEVEL,
     gEventQueue = replicate 32 [], gEventPending = 0, gEventSignalQueue = [], gIdleLoopEvent = 0, mEfiTimerList = [],
     mEfiTimerLock = EFI_INITIALIZE_LOCK_VARIABLE (TPL_HIGH_LEVEL - 1), mEfiCheckTimerEvent = 0,
     mEfiSystemTimeLock = EFI_INITIALIZE_LOCK_VARIABLE TPL_HIGH_LEVEL, mEfiSystemTime = 0, RuntimeEvents = [],
     Events = Map.empty, Interrupts = False, Drivers = drivers\<rparr>"

end
