(* ===== verification/DxeEventOk.thy ===== *)
theory DxeEventOk
  imports DxeEvent
begin

text \<open>
  The invariant of the events: what is in the queues, the pending bits, the timers and the locks; and that
  everything that runs under \<open>CoreRestoreTpl\<close> keeps it, whatever the drivers' functions do with the services.
\<close>

subsection \<open>The highest bit\<close>

definition top_bit :: "'a::len word \<Rightarrow> nat \<Rightarrow> bool" where
  "top_bit x h \<longleftrightarrow> bit x h \<and> (\<forall>j > h. \<not> bit x j)"

lemma top_bit_unique: "top_bit x h \<Longrightarrow> top_bit x k \<Longrightarrow> h = k"
  unfolding top_bit_def by (meson nat_neq_iff)

lemma top_bit_exists: "x \<noteq> 0 \<Longrightarrow> \<exists>h. top_bit x h"
proof -
  assume "x \<noteq> 0"
  then obtain j where j: "bit x j" by (auto simp: bit_eq_iff)
  have "finite {j. bit x j}" by (rule finite_subset [of _ "{..<LENGTH('a)}"]) (auto dest: bit_imp_le_length)
  then have "top_bit x (Max {j. bit x j})" using j Max_in [of "{j. bit x j}"] Max_ge [of "{j. bit x j}"]
    unfolding top_bit_def by (metis empty_iff mem_Collect_eq not_less)
  then show ?thesis by blast
qed

lemma HighBitSet32_loop_top:
  "top_bit x h \<Longrightarrow> 31 - h \<le> i \<Longrightarrow> HighBitSet32_loop x i = i - (31 - h)"
proof (induction x i arbitrary: h rule: HighBitSet32_loop.induct)
  case (1 x i)
  have h: "bit x h" "\<forall>j > h. \<not> bit x j" "h \<le> 31" using 1(2) bit_imp_le_length [of x h] by (auto simp: top_bit_def)
  have "0 <s x \<longleftrightarrow> x \<noteq> 0 \<and> \<not> bit x 31"
  proof -
    have "x <s 0 \<longleftrightarrow> bit x 31" by (simp add: word_sless_alt sint_uint signed_take_bit_negative_iff bit_simps)
    moreover have "sint x = 0 \<longleftrightarrow> x = 0" by (rule signed_eq_0_iff)
    then have "0 <s x \<longleftrightarrow> x \<noteq> 0 \<and> \<not> x <s 0" unfolding word_sless_alt sint_0 by linarith
    ultimately show ?thesis by simp
  qed
  moreover have "x \<noteq> 0" using h(1) by auto
  moreover have "bit x 31 \<longleftrightarrow> h = 31" using h by (cases "h = 31") auto
  ultimately have pos: "0 <s x \<longleftrightarrow> h < 31" using h(3) by auto
  show ?case
  proof (cases "h < 31")
    case True
    have "top_bit (push_bit 1 x) (Suc h)"
      unfolding top_bit_def
    proof (intro conjI allI impI)
      show "bit (push_bit 1 x) (Suc h)" unfolding bit_push_bit_iff using h(1) True by (simp add: bit_simps)
      show "\<not> bit (push_bit 1 x) j" if "Suc h < j" for j
        unfolding bit_push_bit_iff using h(2) [rule_format, of "j - 1"] that by simp
    qed
    then have "HighBitSet32_loop (push_bit 1 x) (i - 1) = i - 1 - (31 - Suc h)" using 1(1) [of "Suc h"] pos True 1(3) by simp
    then show ?thesis using pos True by (subst HighBitSet32_loop.simps) simp
  next
    case False
    then show ?thesis using pos h(3) by (subst HighBitSet32_loop.simps) simp
  qed
qed

lemma HighBitSet32_top: "HighBitSet32 x = Some h \<longleftrightarrow> top_bit x h"
proof (cases "x = 0")
  case False
  then obtain k where k: "top_bit x k" using top_bit_exists by blast
  then have "k \<le> 31" using bit_imp_le_length [of x k] by (simp add: top_bit_def)
  then have "HighBitSet32 x = Some k" using HighBitSet32_loop_top [OF k, of 31] False by (simp add: HighBitSet32_def)
  then show ?thesis using k top_bit_unique by auto
qed (simp add: HighBitSet32_def top_bit_def)

lemma HighBitSet64_top: "HighBitSet64 x = Some h \<longleftrightarrow> top_bit x h"
proof (cases "x = ucast (ucast x :: UINT32)")
  case True
  then have "bit x j \<longleftrightarrow> bit (ucast x :: UINT32) j" for j
    by (metis (no_types) bit_imp_le_length bit_ucast_iff)
  then show ?thesis using True by (simp add: HighBitSet64_def HighBitSet32_top top_bit_def)
next
  case False
  let ?y = "ucast (drop_bit 32 x) :: UINT32"
  have y: "bit ?y j \<longleftrightarrow> bit x (j + 32)" for j
    using bit_imp_le_length [of x "j + 32"] by (auto simp: bit_simps add.commute)
  have "?y \<noteq> 0"
  proof
    assume "?y = 0"
    then have high: "\<not> bit x j" if "32 \<le> j" for j using y [of "j - 32"] that by simp
    have "x = ucast (ucast x :: UINT32)"
      by (rule bit_word_eqI) (use high leI in \<open>auto simp: bit_simps\<close>)
    then show False using False by simp
  qed
  then obtain k where k: "top_bit ?y k" using top_bit_exists by blast
  have "top_bit x (k + 32)" unfolding top_bit_def
  proof (intro conjI allI impI)
    show "bit x (k + 32)" using k y by (simp add: top_bit_def)
    fix j assume "k + 32 < j"
    then show "\<not> bit x j" using k y [of "j - 32"] by (simp add: top_bit_def)
  qed
  moreover have "HighBitSet64 x = Some (k + 32)" using False k by (simp add: HighBitSet64_def HighBitSet32_top [THEN iffD2])
  ultimately show ?thesis using top_bit_unique by auto
qed

lemma HighBitSet64_None: "HighBitSet64 x = None \<longleftrightarrow> x = 0"
proof
  show "HighBitSet64 x = None \<Longrightarrow> x = 0" using top_bit_exists [of x] HighBitSet64_top [of x] by auto
  show "x = 0 \<Longrightarrow> HighBitSet64 x = None" by (simp add: HighBitSet64_def HighBitSet32_def)
qed

subsection \<open>The invariant\<close>

definition notifiable :: "IEVENT \<Rightarrow> bool" where
  "notifiable e \<longleftrightarrow> NotifyFunction e \<noteq> None \<and> TPL_APPLICATION < NotifyTpl e \<and> NotifyTpl e < TPL_HIGH_LEVEL"

definition event_ok :: "EFI_EVENT \<Rightarrow> IEVENT \<Rightarrow> bool" where
  "event_ok ev e \<longleftrightarrow> ev \<noteq> 0 \<and> Signature e = EVENT_SIGNATURE \<and> SignalCount e \<le> 1 \<and>
     (EventType e AND EVT_NOTIFY_WAIT \<noteq> 0 \<or> EventType e AND EVT_NOTIFY_SIGNAL \<noteq> 0 \<longrightarrow> notifiable e)"

text \<open>An event waits in the queue of its priority, whose bit is set then; priorities are between 4 and 31.\<close>

definition queues_ok :: "(EFI_EVENT \<rightharpoonup> IEVENT) \<Rightarrow> EFI_EVENT list list \<Rightarrow> UINTN \<Rightarrow> bool" where
  "queues_ok events queues bits \<longleftrightarrow> length queues = 32 \<and> (\<forall>p. bit bits p \<longrightarrow> 4 < p \<and> p < 31) \<and>
     (\<forall>p < 32. distinct (queues ! p) \<and> (queues ! p \<noteq> [] \<longrightarrow> bit bits p) \<and>
        (\<forall>ev \<in> set (queues ! p). \<exists>e. events ev = Some e \<and> notifiable e \<and> unat (NotifyTpl e) = p))"

definition signals_ok :: "(EFI_EVENT \<rightharpoonup> IEVENT) \<Rightarrow> EFI_EVENT list \<Rightarrow> bool" where
  "signals_ok events signals \<longleftrightarrow> distinct signals \<and> (\<forall>ev \<in> set signals. \<exists>e. events ev = Some e \<and> EventType e AND EVT_NOTIFY_SIGNAL \<noteq> 0)"

text \<open>The timers are in the order of their times.\<close>

definition trigger :: "(EFI_EVENT \<rightharpoonup> IEVENT) \<Rightarrow> EFI_EVENT \<Rightarrow> UINT64" where
  "trigger events ev = (case events ev of None \<Rightarrow> 0 | Some e \<Rightarrow> TriggerTime e)"

definition timers_ok :: "(EFI_EVENT \<rightharpoonup> IEVENT) \<Rightarrow> EFI_EVENT list \<Rightarrow> bool" where
  "timers_ok events timers \<longleftrightarrow> distinct timers \<and> sorted (map (trigger events) timers) \<and>
     (\<forall>ev \<in> set timers. \<exists>e. events ev = Some e \<and> EventType e AND EVT_TIMER \<noteq> 0)"

definition check_event_ok :: "IEVENT \<Rightarrow> bool" where
  "check_event_ok e \<longleftrightarrow> EventType e = EVT_NOTIFY_SIGNAL \<and> NotifyTpl e = 30 \<and> NotifyFunction e = Some CheckTimersFunction \<and> ExFlag e = 0"

definition events_ok :: "'e dxe_events \<Rightarrow> bool" where
  "events_ok s \<longleftrightarrow> (\<forall>ev e. Events s ev = Some e \<longrightarrow> event_ok ev e) \<and>
     queues_ok (Events s) (gEventQueue s) (gEventPending s) \<and> signals_ok (Events s) (gEventSignalQueue s) \<and>
     timers_ok (Events s) (mEfiTimerList s) \<and> set (RuntimeEvents s) \<subseteq> dom (Events s) \<and>
     (\<exists>e. Events s (mEfiCheckTimerEvent s) = Some e \<and> check_event_ok e) \<and> Events s (gIdleLoopEvent s) \<noteq> None \<and>
     LockTpl (gEventQueueLock s) = 31 \<and> LockTpl (mEfiTimerLock s) = 30 \<and> LockTpl (mEfiSystemTimeLock s) = 31 \<and>
     gEfiCurrentTpl s \<le> 31"

lemma events_ok_frame [simp]:
  "events_ok (s\<lparr>Interrupts := b\<rparr>) = events_ok s" "events_ok (s\<lparr>Drivers := d\<rparr>) = events_ok s"
  "events_ok (s\<lparr>mEfiSystemTime := now\<rparr>) = events_ok s"
  by (simp_all add: events_ok_def)

lemma events_ok_tpl: "events_ok s \<Longrightarrow> t \<le> 31 \<Longrightarrow> events_ok (s\<lparr>gEfiCurrentTpl := t\<rparr>)"
  by (simp add: events_ok_def)

lemma events_ok_locks [simp]:
  "events_ok (s\<lparr>gEventQueueLock := (gEventQueueLock s)\<lparr>Acquired := a\<rparr>\<rparr>) = events_ok s"
  "events_ok (s\<lparr>mEfiTimerLock := (mEfiTimerLock s)\<lparr>Acquired := a\<rparr>\<rparr>) = events_ok s"
  "events_ok (s\<lparr>mEfiSystemTimeLock := (mEfiSystemTimeLock s)\<lparr>Acquired := a\<rparr>\<rparr>) = events_ok s"
  by (simp_all add: events_ok_def)

subsection \<open>Changing one event\<close>

text \<open>Changes that leave the type, the notification and the trigger time of an event leave the lists as they are.\<close>

definition same_event :: "IEVENT \<Rightarrow> IEVENT \<Rightarrow> bool" where
  "same_event e f \<longleftrightarrow> EventType f = EventType e \<and> NotifyTpl f = NotifyTpl e \<and> NotifyFunction f = NotifyFunction e \<and>
     Signature f = Signature e \<and> ExFlag f = ExFlag e"

lemma queues_ok_update:
  "queues_ok events q p \<Longrightarrow> events ev = Some e \<Longrightarrow> same_event e f \<Longrightarrow> queues_ok (events(ev \<mapsto> f)) q p"
  unfolding queues_ok_def by (fastforce simp: notifiable_def same_event_def)

lemma signals_ok_update:
  "signals_ok events q \<Longrightarrow> events ev = Some e \<Longrightarrow> same_event e f \<Longrightarrow> signals_ok (events(ev \<mapsto> f)) q"
  unfolding signals_ok_def by (fastforce simp: same_event_def)

lemma timers_ok_update:
  assumes "timers_ok events q" "events ev = Some e" "same_event e f" "ev \<in> set q \<longrightarrow> TriggerTime f = TriggerTime e"
  shows "timers_ok (events(ev \<mapsto> f)) q"
proof -
  have m: "map (trigger (events(ev \<mapsto> f))) q = map (trigger events) q" using assms(2,4) by (auto simp: trigger_def)
  have "sorted (map (trigger (events(ev \<mapsto> f))) q)" "distinct q" unfolding m using assms(1) by (simp_all add: timers_ok_def)
  then show ?thesis using assms(1-3) unfolding timers_ok_def by (auto simp: same_event_def)
qed

lemma UpdateEvent_ok:
  assumes "events_ok s" "UpdateEvent ev f s = Some s'" "\<And>e. Events s ev = Some e \<Longrightarrow> same_event e (f e) \<and> SignalCount (f e) \<le> 1"
    "\<And>e. Events s ev = Some e \<Longrightarrow> ev \<in> set (mEfiTimerList s) \<Longrightarrow> TriggerTime (f e) = TriggerTime e"
  shows "events_ok s'" "\<exists>e. Events s ev = Some e \<and> s' = s\<lparr>Events := (Events s)(ev \<mapsto> f e)\<rparr>"
proof -
  obtain e where e: "Events s ev = Some e" "s' = s\<lparr>Events := (Events s)(ev \<mapsto> f e)\<rparr>"
    using assms(2) by (auto simp: UpdateEvent_def bind_eq_Some_conv)
  have se: "same_event e (f e)" "SignalCount (f e) \<le> 1" using assms(3) e(1) by auto
  have "event_ok ev e" using assms(1) e(1) by (simp add: events_ok_def)
  then have "event_ok ev (f e)" using se by (auto simp: event_ok_def same_event_def notifiable_def)
  moreover have "check_event_ok (f e)" if "check_event_ok e" using that se by (simp add: check_event_ok_def same_event_def)
  ultimately show "events_ok s'"
    using assms(1) queues_ok_update [where e = e] signals_ok_update [where e = e] timers_ok_update [where e = e] assms(4) e se
    unfolding events_ok_def by auto
  show "\<exists>e. Events s ev = Some e \<and> s' = s\<lparr>Events := (Events s)(ev \<mapsto> f e)\<rparr>" using e by blast
qed

subsection \<open>Queueing\<close>

lemma bit_PendingBit: "PendingBit tpl = Some b \<Longrightarrow> bit b p \<longleftrightarrow> p = unat tpl \<and> unat tpl < 31"
  by (auto simp: PendingBit_def bit_simps word_less_nat_alt split: if_splits)

lemma notifiable_tpl: "notifiable e \<Longrightarrow> 4 < unat (NotifyTpl e) \<and> unat (NotifyTpl e) < 31"
  by (simp add: notifiable_def tpl_defs word_less_nat_alt)

lemma queues_ok_push:
  assumes q: "queues_ok events q bits" and e: "events ev = Some e" "notifiable e" and b: "PendingBit (NotifyTpl e) = Some b"
  shows "queues_ok events ((map (removeAll ev) q)[unat (NotifyTpl e) := removeAll ev (q ! unat (NotifyTpl e)) @ [ev]]) (bits OR b)"
proof -
  let ?i = "unat (NotifyTpl e)"
  note i = notifiable_tpl [OF e(2)]
  have "length q = 32" "\<forall>p. bit bits p \<longrightarrow> 4 < p \<and> p < 31" using q by (simp_all add: queues_ok_def)
  moreover have "distinct (q ! p) \<and> (q ! p \<noteq> [] \<longrightarrow> bit bits p) \<and>
      (\<forall>ev \<in> set (q ! p). \<exists>e. events ev = Some e \<and> notifiable e \<and> unat (NotifyTpl e) = p)" if "p < 32" for p
    using q that by (simp add: queues_ok_def)
  moreover have "bit bits p" if "p < 32" "removeAll ev (q ! p) \<noteq> []" for p
    using q that by (auto simp: queues_ok_def)
  ultimately show ?thesis
    using i e by (auto simp: queues_ok_def bit_PendingBit [OF b] bit_or_iff nth_list_update distinct_removeAll)
qed

lemma CoreNotifyEvent_ok:
  assumes s: "events_ok s" and n: "CoreNotifyEvent ev s = Some s'" and e: "Events s ev = Some e" "notifiable e"
  shows "events_ok s'" "s' = s\<lparr>gEventQueue := gEventQueue s', gEventPending := gEventPending s'\<rparr>"
proof -
  obtain b where b: "PendingBit (NotifyTpl e) = Some b" and
    s': "s' = s\<lparr>gEventQueue := (map (removeAll ev) (gEventQueue s))
           [unat (NotifyTpl e) := map (removeAll ev) (gEventQueue s) ! unat (NotifyTpl e) @ [ev]], gEventPending := gEventPending s OR b\<rparr>"
    using n e(1) by (auto simp: CoreNotifyEvent_def bind_eq_Some_conv Let_def split: if_splits)
  have q: "queues_ok (Events s) (gEventQueue s) (gEventPending s)" "length (gEventQueue s) = 32" using s by (simp_all add: events_ok_def queues_ok_def)
  have "unat (NotifyTpl e) < 32" using notifiable_tpl [OF e(2)] by simp
  then have "queues_ok (Events s') (gEventQueue s') (gEventPending s')"
    using queues_ok_push [where e = e, OF q(1) e b] q(2) by (simp add: s')
  then show "events_ok s'" using s by (simp add: events_ok_def s')
  show "s' = s\<lparr>gEventQueue := gEventQueue s', gEventPending := gEventPending s'\<rparr>" using s' by simp
qed

lemma CoreNotifySignalList_loop_ok:
  "CoreNotifySignalList_loop guid evs s = Some s' \<Longrightarrow> events_ok s \<Longrightarrow> set evs \<subseteq> set (gEventSignalQueue s) \<Longrightarrow>
   events_ok s' \<and> s' = s\<lparr>gEventQueue := gEventQueue s', gEventPending := gEventPending s'\<rparr>"
proof (induction guid evs s rule: CoreNotifySignalList_loop.induct)
  case (1 guid s)
  then show ?case by (cases s') auto
next
  case (2 guid ev link s)
  obtain e t where e: "Events s ev = Some e" and t: "(if EventGroup e = guid then CoreNotifyEvent ev s else Some s) = Some t"
    "CoreNotifySignalList_loop guid link t = Some s'"
    using 2(2) by (auto simp: bind_eq_Some_conv)
  have "EventType e AND EVT_NOTIFY_SIGNAL \<noteq> 0" using "2.prems"(2,3) e by (auto simp: events_ok_def signals_ok_def)
  then have "notifiable e" using "2.prems"(2) e by (auto simp: events_ok_def event_ok_def)
  then have ok: "events_ok t \<and> t = s\<lparr>gEventQueue := gEventQueue t, gEventPending := gEventPending t\<rparr>"
    using t(1) CoreNotifyEvent_ok [OF "2.prems"(2) _ e] "2.prems"(2) by (cases s) (auto split: if_splits)
  have "gEventSignalQueue t = gEventSignalQueue s" by (subst conjunct2 [OF ok]) simp
  then have "set link \<subseteq> set (gEventSignalQueue t)" using "2.prems"(3) by auto
  with 2(1) [OF e t(1) t(2)] ok have r: "events_ok s'" "s' = t\<lparr>gEventQueue := gEventQueue s', gEventPending := gEventPending s'\<rparr>" by blast+
  have "s' = s\<lparr>gEventQueue := gEventQueue s', gEventPending := gEventPending s'\<rparr>"
    by (subst r(2), subst conjunct2 [OF ok]) simp
  then show ?case using r(1) by blast
qed

subsection \<open>Locks\<close>

lemma CoreSetInterruptState_eq: "\<exists>b. CoreSetInterruptState P enable s = s\<lparr>Interrupts := b\<rparr>"
  by (cases s) (auto simp: CoreSetInterruptState_def split: option.split)

lemma CoreRaiseTpl_Some:
  "CoreRaiseTpl P t s = Some r \<Longrightarrow> \<exists>b. r = (gEfiCurrentTpl s, s\<lparr>gEfiCurrentTpl := t, Interrupts := b\<rparr>) \<and> gEfiCurrentTpl s \<le> t \<and> t \<le> 31"
  using CoreSetInterruptState_eq [of P False s]
  by (cases s) (auto simp: CoreRaiseTpl_def Let_def TPL_HIGH_LEVEL_def split: if_splits)

lemma CoreAcquireLock_Some:
  "CoreAcquireLock P l s = Some (l', s') \<Longrightarrow> \<not> Acquired l \<and> l' = l\<lparr>OwnerTpl := gEfiCurrentTpl s, Acquired := True\<rparr> \<and>
     gEfiCurrentTpl s \<le> LockTpl l \<and> LockTpl l \<le> 31 \<and> (\<exists>b. s' = s\<lparr>gEfiCurrentTpl := LockTpl l, Interrupts := b\<rparr>)"
  by (auto simp: CoreAcquireLock_def bind_eq_Some_conv split: if_splits dest!: CoreRaiseTpl_Some)

text \<open>A lock that is held.\<close>

abbreviation taken :: "EFI_TPL \<Rightarrow> EFI_TPL \<Rightarrow> EFI_LOCK" where
  "taken tpl owner \<equiv> \<lparr>LockTpl = tpl, OwnerTpl = owner, Acquired = True\<rparr>"

lemma CoreAcquireEventLock_Some:
  assumes "CoreAcquireEventLock P s = Some s'" "events_ok s"
  shows "s' = s\<lparr>gEfiCurrentTpl := 31, Interrupts := Interrupts s', gEventQueueLock := taken 31 (gEfiCurrentTpl s)\<rparr>"
    "\<not> Acquired (gEventQueueLock s)" "events_ok s'"
proof -
  obtain l t where l: "CoreAcquireLock P (gEventQueueLock s) s = Some (l, t)" "s' = t\<lparr>gEventQueueLock := l\<rparr>"
    using assms(1) by (auto simp: CoreAcquireEventLock_def bind_eq_Some_conv)
  have tpl: "LockTpl (gEventQueueLock s) = 31" using assms(2) by (simp add: events_ok_def)
  note a = CoreAcquireLock_Some [OF l(1), unfolded tpl]
  have "l = taken 31 (gEfiCurrentTpl s)" using a tpl by (cases "gEventQueueLock s") simp
  then show s': "s' = s\<lparr>gEfiCurrentTpl := 31, Interrupts := Interrupts s', gEventQueueLock := taken 31 (gEfiCurrentTpl s)\<rparr>" using a l(2) by auto
  show "\<not> Acquired (gEventQueueLock s)" using a by simp_all
  show "events_ok s'" by (subst s') (use assms(2) in \<open>simp add: events_ok_def\<close>)
qed

lemma AcquireTimerLock_Some:
  assumes "AcquireTimerLock P s = Some s'" "events_ok s"
  shows "s' = s\<lparr>gEfiCurrentTpl := 30, Interrupts := Interrupts s', mEfiTimerLock := taken 30 (gEfiCurrentTpl s)\<rparr>"
    "\<not> Acquired (mEfiTimerLock s)" "gEfiCurrentTpl s \<le> 30" "events_ok s'"
proof -
  obtain l t where l: "CoreAcquireLock P (mEfiTimerLock s) s = Some (l, t)" "s' = t\<lparr>mEfiTimerLock := l\<rparr>"
    using assms(1) by (auto simp: AcquireTimerLock_def bind_eq_Some_conv)
  have tpl: "LockTpl (mEfiTimerLock s) = 30" using assms(2) by (simp add: events_ok_def)
  note a = CoreAcquireLock_Some [OF l(1), unfolded tpl]
  have "l = taken 30 (gEfiCurrentTpl s)" using a tpl by (cases "mEfiTimerLock s") simp
  then show s': "s' = s\<lparr>gEfiCurrentTpl := 30, Interrupts := Interrupts s', mEfiTimerLock := taken 30 (gEfiCurrentTpl s)\<rparr>" using a l(2) by auto
  show "\<not> Acquired (mEfiTimerLock s)" "gEfiCurrentTpl s \<le> 30" using a by simp_all
  show "events_ok s'" by (subst s') (use assms(2) in \<open>simp add: events_ok_def\<close>)
qed

lemma AcquireSystemTimeLock_Some:
  assumes "AcquireSystemTimeLock P s = Some s'" "events_ok s"
  shows "s' = s\<lparr>gEfiCurrentTpl := 31, Interrupts := Interrupts s', mEfiSystemTimeLock := taken 31 (gEfiCurrentTpl s)\<rparr>"
    "\<not> Acquired (mEfiSystemTimeLock s)" "events_ok s'"
proof -
  obtain l t where l: "CoreAcquireLock P (mEfiSystemTimeLock s) s = Some (l, t)" "s' = t\<lparr>mEfiSystemTimeLock := l\<rparr>"
    using assms(1) by (auto simp: AcquireSystemTimeLock_def bind_eq_Some_conv)
  have tpl: "LockTpl (mEfiSystemTimeLock s) = 31" using assms(2) by (simp add: events_ok_def)
  note a = CoreAcquireLock_Some [OF l(1), unfolded tpl]
  have "l = taken 31 (gEfiCurrentTpl s)" using a tpl by (cases "mEfiSystemTimeLock s") simp
  then show s': "s' = s\<lparr>gEfiCurrentTpl := 31, Interrupts := Interrupts s', mEfiSystemTimeLock := taken 31 (gEfiCurrentTpl s)\<rparr>" using a l(2) by auto
  show "\<not> Acquired (mEfiSystemTimeLock s)" using a by simp_all
  show "events_ok s'" by (subst s') (use assms(2) in \<open>simp add: events_ok_def\<close>)
qed

subsection \<open>The list of timers\<close>

lemma CoreInsertEventTimer_loop_eq:
  "\<forall>x \<in> set timers. events x \<noteq> None \<Longrightarrow> CoreInsertEventTimer_loop events t ev timers =
     Some (takeWhile (\<lambda>x. trigger events x \<le> t) timers @ ev # dropWhile (\<lambda>x. trigger events x \<le> t) timers)"
  by (induction timers) (auto simp: trigger_def not_le)

lemma sorted_insert_timer:
  assumes "sorted (map f xs)"
  shows "sorted (map f (takeWhile (\<lambda>x. f x \<le> f v) xs @ v # dropWhile (\<lambda>x. f x \<le> f v) xs))"
  using assms
proof (induction xs)
  case (Cons x xs)
  have "\<forall>y \<in> set (takeWhile (\<lambda>x. f x \<le> f v) xs) \<union> set (dropWhile (\<lambda>x. f x \<le> f v) xs). f x \<le> f y"
    using Cons.prems by (auto dest: set_takeWhileD set_dropWhileD)
  then show ?case using Cons by (auto simp: not_le)
qed simp

lemma timers_ok_insert:
  assumes t: "timers_ok events timers" "ev \<notin> set timers" and e: "events ev = Some e" "EventType e AND EVT_TIMER \<noteq> 0"
  shows "timers_ok events (takeWhile (\<lambda>x. trigger events x \<le> TriggerTime e) timers @ ev # dropWhile (\<lambda>x. trigger events x \<le> TriggerTime e) timers)"
proof -
  let ?P = "\<lambda>x. trigger events x \<le> TriggerTime e"
  have te: "trigger events ev = TriggerTime e" using e(1) by (simp add: trigger_def)
  have "sorted (map (trigger events) (takeWhile ?P timers @ ev # dropWhile ?P timers))"
    using sorted_insert_timer [of "trigger events" timers ev] t(1) by (simp add: timers_ok_def te)
  moreover have "distinct (takeWhile ?P timers @ ev # dropWhile ?P timers)"
    using t distinct_append [of "takeWhile ?P timers" "dropWhile ?P timers"]
    by (auto simp: timers_ok_def dest: set_takeWhileD set_dropWhileD)
  moreover have "set (takeWhile ?P timers @ ev # dropWhile ?P timers) \<subseteq> insert ev (set timers)"
    by (auto dest: set_takeWhileD set_dropWhileD)
  ultimately show ?thesis using t(1) e unfolding timers_ok_def by blast
qed

lemma CoreInsertEventTimer_ok:
  assumes s: "events_ok s" "ev \<notin> set (mEfiTimerList s)" and e: "Events s ev = Some e" "EventType e AND EVT_TIMER \<noteq> 0"
    and i: "CoreInsertEventTimer ev s = Some s'"
  shows "events_ok s'" "s' = s\<lparr>mEfiTimerList := mEfiTimerList s'\<rparr>"
    "mEfiTimerList s' = takeWhile (\<lambda>x. trigger (Events s) x \<le> TriggerTime e) (mEfiTimerList s) @ ev #
       dropWhile (\<lambda>x. trigger (Events s) x \<le> TriggerTime e) (mEfiTimerList s)"
proof -
  have t: "timers_ok (Events s) (mEfiTimerList s)" using s(1) by (simp add: events_ok_def)
  then have "\<forall>x \<in> set (mEfiTimerList s). Events s x \<noteq> None" by (auto simp: timers_ok_def)
  note l = CoreInsertEventTimer_loop_eq [OF this]
  have s': "s' = s\<lparr>mEfiTimerList := takeWhile (\<lambda>x. trigger (Events s) x \<le> TriggerTime e) (mEfiTimerList s) @ ev #
       dropWhile (\<lambda>x. trigger (Events s) x \<le> TriggerTime e) (mEfiTimerList s)\<rparr>"
    using i e(1) by (simp add: CoreInsertEventTimer_def l split: if_splits)
  then show "s' = s\<lparr>mEfiTimerList := mEfiTimerList s'\<rparr>"
    "mEfiTimerList s' = takeWhile (\<lambda>x. trigger (Events s) x \<le> TriggerTime e) (mEfiTimerList s) @ ev #
       dropWhile (\<lambda>x. trigger (Events s) x \<le> TriggerTime e) (mEfiTimerList s)" by simp_all
  show "events_ok s'" using s(1) timers_ok_insert [OF t s(2) e] s' by (simp add: events_ok_def)
qed

lemma events_ok_timers:
  "events_ok s \<Longrightarrow> timers_ok (Events s) timers \<Longrightarrow> events_ok (s\<lparr>mEfiTimerList := timers\<rparr>)"
  by (simp add: events_ok_def)

end
