(* ===== verification/DxeEventRun.thy ===== *)
theory DxeEventRun
  imports DxeEventOk
begin

text \<open>
  What may run when a priority is lowered keeps the invariant: the contract of the calls in \<open>TplCall\<close>, the
  functions that use it, and the proof that \<open>RunTpl\<close> meets it.
\<close>

subsection \<open>The contract\<close>

definition unlocked :: "'e dxe_events \<Rightarrow> bool" where
  "unlocked s \<longleftrightarrow> \<not> Acquired (gEventQueueLock s) \<and> \<not> Acquired (mEfiTimerLock s) \<and> \<not> Acquired (mEfiSystemTimeLock s)"

text \<open>What is asked of the drivers: their functions use the services only, and leave the priority as they found it.\<close>

definition driver_ok :: "'e DXE_PLATFORM \<Rightarrow> bool" where
  "driver_ok P \<longleftrightarrow> (\<forall>f ev ctx s s'. events_ok s \<longrightarrow> unlocked s \<longrightarrow> Notify P f ev ctx s = Some s' \<longrightarrow>
     events_ok s' \<and> unlocked s' \<and> gEfiCurrentTpl s' = gEfiCurrentTpl s)"

definition lock_kept :: "EFI_LOCK \<Rightarrow> EFI_LOCK \<Rightarrow> bool" where
  "lock_kept l l' \<longleftrightarrow> LockTpl l' = LockTpl l \<and> Acquired l' = Acquired l \<and> (Acquired l \<longrightarrow> l' = l)"

definition locks_kept :: "'e dxe_events \<Rightarrow> 'e dxe_events \<Rightarrow> bool" where
  "locks_kept s s' \<longleftrightarrow> lock_kept (gEventQueueLock s) (gEventQueueLock s') \<and> lock_kept (mEfiTimerLock s) (mEfiTimerLock s') \<and>
     lock_kept (mEfiSystemTimeLock s) (mEfiSystemTimeLock s')"

text \<open>A priority below that of a lock that is held is not restored.\<close>

definition may_lower :: "EFI_TPL \<Rightarrow> 'e dxe_events \<Rightarrow> bool" where
  "may_lower t s \<longleftrightarrow> (Acquired (gEventQueueLock s) \<longrightarrow> 31 \<le> t) \<and> (Acquired (mEfiTimerLock s) \<longrightarrow> 30 \<le> t) \<and>
     (Acquired (mEfiSystemTimeLock s) \<longrightarrow> 31 \<le> t)"

text \<open>Nothing is pending above a priority.\<close>

definition drained :: "EFI_TPL \<Rightarrow> 'e dxe_events \<Rightarrow> bool" where
  "drained t s \<longleftrightarrow> (\<forall>p > unat t. \<not> bit (gEventPending s) p)"

fun run_before :: "TplCall \<Rightarrow> 'e dxe_events \<Rightarrow> bool" where
  "run_before (RestoreTpl t) s \<longleftrightarrow> events_ok s \<and> may_lower t s"
| "run_before (RestoreTplLoop t) s \<longleftrightarrow> events_ok s \<and> may_lower t s \<and> t \<le> 31"
| "run_before (DispatchLoop p) s \<longleftrightarrow> events_ok s \<and> p < 31 \<and> gEfiCurrentTpl s = 31 \<and> gEventQueueLock s = taken 31 p \<and>
     \<not> Acquired (mEfiTimerLock s) \<and> \<not> Acquired (mEfiSystemTimeLock s)"
| "run_before (CheckTimersLoop now) s \<longleftrightarrow> events_ok s \<and> gEfiCurrentTpl s = 30 \<and> Acquired (mEfiTimerLock s) \<and>
     \<not> Acquired (gEventQueueLock s) \<and> \<not> Acquired (mEfiSystemTimeLock s)"

fun run_after :: "TplCall \<Rightarrow> 'e dxe_events \<Rightarrow> 'e dxe_events \<Rightarrow> bool" where
  "run_after (RestoreTpl t) s s' \<longleftrightarrow> events_ok s' \<and> locks_kept s s' \<and> gEfiCurrentTpl s' = t \<and> drained t s' \<and>
     (drained t s \<longrightarrow> s' = s\<lparr>gEfiCurrentTpl := t, Interrupts := Interrupts s'\<rparr>)"
| "run_after (RestoreTplLoop t) s s' \<longleftrightarrow> events_ok s' \<and> locks_kept s s' \<and> drained t s' \<and> (drained t s \<longrightarrow> s' = s)"
| "run_after (DispatchLoop p) s s' \<longleftrightarrow> run_before (DispatchLoop p) s' \<and> gEventQueue s' ! unat p = []"
| "run_after (CheckTimersLoop now) s s' \<longleftrightarrow> run_before (CheckTimersLoop now) s' \<and> mEfiTimerLock s' = mEfiTimerLock s"

lemma lock_kept_refl [simp]: "lock_kept l l" by (simp add: lock_kept_def)

lemma locks_kept_refl [simp]: "locks_kept s s" by (simp add: locks_kept_def)

lemma locks_kept_trans: "locks_kept s t \<Longrightarrow> locks_kept t u \<Longrightarrow> locks_kept s u"
  by (simp add: locks_kept_def lock_kept_def)

lemma locks_kept_unlocked: "locks_kept s s' \<Longrightarrow> unlocked s' = unlocked s"
  by (simp add: locks_kept_def lock_kept_def unlocked_def)

lemma unlocked_kept: "unlocked s \<Longrightarrow> unlocked s' \<Longrightarrow> events_ok s \<Longrightarrow> events_ok s' \<Longrightarrow> locks_kept s s'"
  by (simp add: locks_kept_def lock_kept_def unlocked_def events_ok_def)

lemma unlocked_lower: "unlocked s \<Longrightarrow> may_lower t s"
  by (simp add: may_lower_def unlocked_def)

lemma drained_high: "events_ok s \<Longrightarrow> 30 \<le> t \<Longrightarrow> drained t s"
  by (fastforce simp: drained_def events_ok_def queues_ok_def word_le_nat_alt)

lemma pending_top:
  assumes "events_ok s" "HighBitSet64 (gEventPending s) = Some i"
  shows "4 < i" "i < 31" "unat (of_nat i :: UINTN) = i" "drained (of_nat i) s" "drained t s \<longleftrightarrow> i \<le> unat t"
proof -
  have t: "top_bit (gEventPending s) i" using assms(2) by (simp add: HighBitSet64_top)
  then show i: "4 < i" "i < 31" using assms(1) by (auto simp: top_bit_def events_ok_def queues_ok_def)
  then show u: "unat (of_nat i :: UINTN) = i" by (simp add: unat_of_nat_lt)
  show "drained (of_nat i) s" using t u by (simp add: drained_def top_bit_def)
  show "drained t s \<longleftrightarrow> i \<le> unat t" using t unfolding drained_def top_bit_def by (meson leI le_less_trans)
qed

text \<open>The variables that queueing does not touch.\<close>

definition rest :: "'e dxe_events \<Rightarrow> _" where
  "rest s = (gEventSignalQueue s, gIdleLoopEvent s, mEfiTimerList s, mEfiTimerLock s, mEfiCheckTimerEvent s, mEfiSystemTimeLock s,
     mEfiSystemTime s, RuntimeEvents s, Drivers s)"

lemma rest_update [simp]:
  "rest (s\<lparr>gEfiCurrentTpl := t\<rparr>) = rest s" "rest (s\<lparr>Interrupts := b\<rparr>) = rest s" "rest (s\<lparr>gEventQueueLock := l\<rparr>) = rest s"
  "rest (s\<lparr>gEventQueue := q\<rparr>) = rest s" "rest (s\<lparr>gEventPending := bits\<rparr>) = rest s" "rest (s\<lparr>Events := events\<rparr>) = rest s"
  by (simp_all add: rest_def)

lemma acquire_event:
  assumes "CoreAcquireEventLock P s = Some t" "events_ok s"
  shows "events_ok t" "\<not> Acquired (gEventQueueLock s)" "gEventQueueLock t = taken 31 (gEfiCurrentTpl s)" "gEfiCurrentTpl t = 31"
    "rest t = rest s" "Events t = Events s" "gEventQueue t = gEventQueue s" "gEventPending t = gEventPending s"
proof -
  note a = CoreAcquireEventLock_Some [OF assms]
  show "events_ok t" "\<not> Acquired (gEventQueueLock s)" using a by simp_all
  show "gEventQueueLock t = taken 31 (gEfiCurrentTpl s)" "gEfiCurrentTpl t = 31" "rest t = rest s" "Events t = Events s"
    "gEventQueue t = gEventQueue s" "gEventPending t = gEventPending s"
    by (subst a(1), simp)+
qed

text \<open>What acquiring the lock, changing the queues and releasing it again is to leave.\<close>

definition resumed :: "'e dxe_events \<Rightarrow> 'e dxe_events \<Rightarrow> bool" where
  "resumed s s' \<longleftrightarrow> events_ok s' \<and> locks_kept s s' \<and> gEfiCurrentTpl s' = gEfiCurrentTpl s \<and> drained (gEfiCurrentTpl s) s' \<and>
     (30 \<le> gEfiCurrentTpl s \<longrightarrow> rest s' = rest s)"

lemma resumed_again: "resumed s t \<Longrightarrow> resumed t u \<Longrightarrow> resumed s u"
  unfolding resumed_def by (auto intro: locks_kept_trans)

lemma resumed_lower: "resumed s t \<Longrightarrow> may_lower l s \<Longrightarrow> may_lower l t"
  by (simp add: resumed_def locks_kept_def lock_kept_def may_lower_def)

locale tpl_run =
  fixes run :: "'e run" and P :: "'e DXE_PLATFORM"
  assumes run_keeps: "driver_ok P \<Longrightarrow> run call s = Some s' \<Longrightarrow> run_before call s \<Longrightarrow> run_after call s s'"
begin

text \<open>Releasing the lock of the event queue.\<close>

lemma release_event:
  assumes P: "driver_ok P" and r: "CoreReleaseEventLock run s = Some s'" and s: "events_ok s" "gEventQueueLock s = taken 31 owner"
    and low: "Acquired (mEfiTimerLock s) \<longrightarrow> 30 \<le> owner" "Acquired (mEfiSystemTimeLock s) \<longrightarrow> 31 \<le> owner"
  shows "events_ok s'" "\<not> Acquired (gEventQueueLock s')" "lock_kept (mEfiTimerLock s) (mEfiTimerLock s')"
    "lock_kept (mEfiSystemTimeLock s) (mEfiSystemTimeLock s')" "gEfiCurrentTpl s' = owner" "drained owner s'"
    "drained owner s \<Longrightarrow> rest s' = rest s \<and> Events s' = Events s \<and> gEventQueue s' = gEventQueue s \<and> gEventPending s' = gEventPending s"
proof -
  let ?s = "s\<lparr>gEventQueueLock := (taken 31 owner)\<lparr>Acquired := False\<rparr>\<rparr>"
  have r: "run (RestoreTpl owner) ?s = Some s'" using r by (simp add: CoreReleaseEventLock_def s(2))
  have "events_ok ?s" using s by (simp add: events_ok_def)
  moreover have "may_lower owner ?s" using low by (simp add: may_lower_def)
  ultimately have a: "run_after (RestoreTpl owner) ?s s'" using run_keeps [OF P r] by simp
  then show "events_ok s'" "\<not> Acquired (gEventQueueLock s')" "lock_kept (mEfiTimerLock s) (mEfiTimerLock s')"
    "lock_kept (mEfiSystemTimeLock s) (mEfiSystemTimeLock s')" "gEfiCurrentTpl s' = owner" "drained owner s'"
    by (simp_all add: locks_kept_def lock_kept_def)
  assume "drained owner s"
  then have e: "s' = ?s\<lparr>gEfiCurrentTpl := owner, Interrupts := Interrupts s'\<rparr>" using a by (simp add: drained_def)
  show "rest s' = rest s \<and> Events s' = Events s \<and> gEventQueue s' = gEventQueue s \<and> gEventPending s' = gEventPending s"
    by (subst e, subst (2) e, subst (3) e, subst (4) e) simp
qed

lemma resumedI:
  assumes P: "driver_ok P" and s: "events_ok s" "may_lower (gEfiCurrentTpl s) s" "\<not> Acquired (gEventQueueLock s)"
    and t: "events_ok t" "gEventQueueLock t = taken 31 (gEfiCurrentTpl s)" "rest t = rest s" and r: "CoreReleaseEventLock run t = Some s'"
  shows "resumed s s'" "30 \<le> gEfiCurrentTpl s \<Longrightarrow> Events s' = Events t" "drained (gEfiCurrentTpl s) t \<Longrightarrow>
    rest s' = rest s \<and> Events s' = Events t \<and> gEventQueue s' = gEventQueue t \<and> gEventPending s' = gEventPending t"
proof -
  have l: "mEfiTimerLock t = mEfiTimerLock s" "mEfiSystemTimeLock t = mEfiSystemTimeLock s" using t(3) by (simp_all add: rest_def)
  have low: "Acquired (mEfiTimerLock t) \<longrightarrow> 30 \<le> gEfiCurrentTpl s" "Acquired (mEfiSystemTimeLock t) \<longrightarrow> 31 \<le> gEfiCurrentTpl s"
    using s(2) l by (simp_all add: may_lower_def)
  note e = release_event [OF P r t(1,2) low]
  have "locks_kept s s'" using e(1-4) s(1,3) l by (simp add: locks_kept_def lock_kept_def events_ok_def)
  then show "resumed s s'" using e(1,5,6,7) drained_high [OF t(1)] t(3) by (simp add: resumed_def)
  show "30 \<le> gEfiCurrentTpl s \<Longrightarrow> Events s' = Events t" using e(7) drained_high [OF t(1)] by simp
  show "drained (gEfiCurrentTpl s) t \<Longrightarrow>
    rest s' = rest s \<and> Events s' = Events t \<and> gEventQueue s' = gEventQueue t \<and> gEventPending s' = gEventPending t"
    using e(7) t(3) by simp
qed

lemma CoreNotifySignalList_ok:
  assumes P: "driver_ok P" and r: "CoreNotifySignalList run P guid s = Some s'" and s: "events_ok s" "may_lower (gEfiCurrentTpl s) s"
  shows "resumed s s' \<and> (30 \<le> gEfiCurrentTpl s \<longrightarrow> Events s' = Events s)"
proof -
  obtain t u where t: "CoreAcquireEventLock P s = Some t" and u: "CoreNotifySignalList_loop guid (gEventSignalQueue t) t = Some u"
    "CoreReleaseEventLock run u = Some s'"
    using r by (auto simp: CoreNotifySignalList_def bind_eq_Some_conv)
  note a = acquire_event [OF t s(1)]
  note n = CoreNotifySignalList_loop_ok [OF u(1) a(1) subset_refl, THEN conjunct1] CoreNotifySignalList_loop_ok [OF u(1) a(1) subset_refl, THEN conjunct2]
  have "gEventQueueLock u = gEventQueueLock t" "rest u = rest t" "Events u = Events t" by (subst n(2), simp)+
  then show ?thesis using resumedI [OF P s a(2) n(1) _ _ u(2)] a by simp
qed

lemma CoreSignalEvent_ok:
  assumes P: "driver_ok P" and r: "CoreSignalEvent run P ev s = Some (status, s')" and s: "events_ok s" "may_lower (gEfiCurrentTpl s) s"
  shows "status = EFI_INVALID_PARAMETER \<and> s' = s \<or>
    status = EFI_SUCCESS \<and> resumed s s' \<and> (30 \<le> gEfiCurrentTpl s \<longrightarrow>
      (\<exists>e. Events s ev = Some e \<and> Events s' = (Events s)(ev \<mapsto> e\<lparr>SignalCount := 1\<rparr>)))"
proof (cases "ev = 0 \<or> (\<exists>e. Events s ev = Some e \<and> Signature e \<noteq> EVENT_SIGNATURE)")
  case True
  then have "CoreSignalEvent run P ev s = Some (EFI_INVALID_PARAMETER, s)" by (auto simp: CoreSignalEvent_def)
  then show ?thesis using r by simp
next
  case False
  then obtain e where e: "Events s ev = Some e" "Signature e = EVENT_SIGNATURE"
    using r by (auto simp: CoreSignalEvent_def bind_eq_Some_conv)
  have eq: "CoreSignalEvent run P ev s = do { s \<leftarrow> CoreAcquireEventLock P s;
      s \<leftarrow> (if SignalCount e = 0 then SignalEvent_first run P ev e s else Some s); s \<leftarrow> CoreReleaseEventLock run s; Some (EFI_SUCCESS, s) }"
    using False e by (simp add: CoreSignalEvent_def)
  obtain t u where t: "CoreAcquireEventLock P s = Some t" and
    u: "(if SignalCount e = 0 then SignalEvent_first run P ev e t else Some t) = Some u" and
    r2: "CoreReleaseEventLock run u = Some s'" and st: "status = EFI_SUCCESS"
    using r [unfolded eq bind_eq_Some_conv] by auto
  note a = acquire_event [OF t s(1)]
  show ?thesis
  proof (cases "SignalCount e = 0")
    case False
    then have "u = t" using u by simp
    moreover have "SignalCount e \<le> 1" using s(1) e(1) by (auto simp: events_ok_def event_ok_def)
    then have "SignalCount e = 1" using False by (simp add: word_unat_eq_iff word_le_nat_alt)
    then have "(Events s)(ev \<mapsto> e\<lparr>SignalCount := 1\<rparr>) = Events s" using e(1) by (cases e) auto
    ultimately show ?thesis using resumedI [OF P s a(2) a(1,3,5)] r2 a(6) st e(1) by simp
  next
    case True
    obtain v where v: "UpdateEvent ev (\<lambda>e. e\<lparr>SignalCount := SignalCount e + 1\<rparr>) t = Some v"
      using u True by (auto simp: SignalEvent_first_def bind_eq_Some_conv)
    have "events_ok v" by (rule UpdateEvent_ok(1) [OF a(1) v]) (use True e(1) a(6) in \<open>auto simp: same_event_def\<close>)
    moreover have "v = t\<lparr>Events := (Events s)(ev \<mapsto> e\<lparr>SignalCount := 1\<rparr>)\<rparr>" using v e a(6) True by (simp add: UpdateEvent_def)
    ultimately have v2: "events_ok v" "gEventQueueLock v = taken 31 (gEfiCurrentTpl s)" "rest v = rest s"
      "Events v = (Events s)(ev \<mapsto> e\<lparr>SignalCount := 1\<rparr>)" using a by simp_all
    have c: "(if EventType e AND EVT_NOTIFY_SIGNAL \<noteq> 0 then
       if ExFlag e AND EVT_EXFLAG_EVENT_GROUP \<noteq> 0 then do {
         s \<leftarrow> CoreReleaseEventLock run v;
         e \<leftarrow> Events s ev;
         s \<leftarrow> CoreNotifySignalList run P (EventGroup e) s;
         CoreAcquireEventLock P s }
       else CoreNotifyEvent ev v
     else Some v) = Some u" using u True by (simp add: SignalEvent_first_def v)
    show ?thesis
    proof (cases "EventType e AND EVT_NOTIFY_SIGNAL \<noteq> 0 \<and> ExFlag e AND EVT_EXFLAG_EVENT_GROUP \<noteq> 0")
      case True
      then obtain w f x where w: "CoreReleaseEventLock run v = Some w" and f: "Events w ev = Some f" and
        x: "CoreNotifySignalList run P (EventGroup f) w = Some x" "CoreAcquireEventLock P x = Some u"
        using c by (auto simp: bind_eq_Some_conv)
      note w' = resumedI [OF P s a(2) v2(1-3) w]
      have w2: "events_ok w" "may_lower (gEfiCurrentTpl w) w" using w'(1) resumed_lower [OF w'(1) s(2)] by (simp_all add: resumed_def)
      note x' = CoreNotifySignalList_ok [OF P x(1) w2]
      have x2: "events_ok x" "may_lower (gEfiCurrentTpl x) x" "gEfiCurrentTpl x = gEfiCurrentTpl s"
        using x' resumed_lower [of w x] w2 w'(1) by (auto simp: resumed_def)
      note b = acquire_event [OF x(2) x2(1)]
      note z = resumedI [OF P x2(1,2) b(2,1,3,5) r2]
      have "resumed s s'" using w'(1) x' z(1) resumed_again by blast
      moreover have "Events s' = (Events s)(ev \<mapsto> e\<lparr>SignalCount := 1\<rparr>)" if "30 \<le> gEfiCurrentTpl s"
      proof -
        have "gEfiCurrentTpl w = gEfiCurrentTpl s" using w'(1) by (simp add: resumed_def)
        then show ?thesis using that z(2) b(6) x' w'(2) v2(4) x2(3) by simp
      qed
      ultimately show ?thesis using e st by blast
    next
      case False
      then have u2: "u = v \<or> CoreNotifyEvent ev v = Some u \<and> EventType e AND EVT_NOTIFY_SIGNAL \<noteq> 0" using c by (auto split: if_splits)
      have "events_ok u \<and> gEventQueueLock u = gEventQueueLock v \<and> rest u = rest v \<and> Events u = Events v"
      proof (cases "u = v")
        case False
        then have n: "CoreNotifyEvent ev v = Some u" "EventType e AND EVT_NOTIFY_SIGNAL \<noteq> 0" using u2 by simp_all
        have "event_ok ev e" using s(1) e(1) by (simp add: events_ok_def)
        then have "notifiable (e\<lparr>SignalCount := 1\<rparr>)" using n(2) by (auto simp: event_ok_def notifiable_def)
        then have k: "events_ok u" "u = v\<lparr>gEventQueue := gEventQueue u, gEventPending := gEventPending u\<rparr>"
          using CoreNotifyEvent_ok [OF v2(1) n(1), of "e\<lparr>SignalCount := 1\<rparr>"] v2(4) by simp_all
        have "gEventQueueLock u = gEventQueueLock v" "rest u = rest v" "Events u = Events v" by (subst k(2), simp)+
        then show ?thesis using k(1) by blast
      qed (use v2 in simp)
      then have u3: "events_ok u" "gEventQueueLock u = taken 31 (gEfiCurrentTpl s)" "rest u = rest s"
        "Events u = (Events s)(ev \<mapsto> e\<lparr>SignalCount := 1\<rparr>)" using v2 by simp_all
      then show ?thesis using resumedI [OF P s a(2) u3(1-3) r2] st e by simp
    qed
  qed
qed

subsubsection \<open>Timers\<close>

text \<open>At the priority of the timers a signal runs nothing.\<close>

lemma signal_timer:
  assumes P: "driver_ok P" and r: "CoreSignalEvent run P ev s = Some (status, s')" and s: "run_before (CheckTimersLoop now) s"
  shows "run_before (CheckTimersLoop now) s'" "rest s' = rest s"
    "Events s' = Events s \<or> (\<exists>e. Events s ev = Some e \<and> Events s' = (Events s)(ev \<mapsto> e\<lparr>SignalCount := 1\<rparr>))"
proof -
  have "events_ok s" "may_lower (gEfiCurrentTpl s) s" "30 \<le> gEfiCurrentTpl s" using s by (simp_all add: may_lower_def)
  then have c: "s' = s \<or> resumed s s' \<and> rest s' = rest s \<and> (Events s' = Events s \<or>
      (\<exists>e. Events s ev = Some e \<and> Events s' = (Events s)(ev \<mapsto> e\<lparr>SignalCount := 1\<rparr>)))"
    using CoreSignalEvent_ok [OF P r] by (auto simp: resumed_def)
  then show "run_before (CheckTimersLoop now) s'" using s by (auto simp: resumed_def locks_kept_def lock_kept_def)
  show "rest s' = rest s"
    "Events s' = Events s \<or> (\<exists>e. Events s ev = Some e \<and> Events s' = (Events s)(ev \<mapsto> e\<lparr>SignalCount := 1\<rparr>))" using c by auto
qed

lemma signal_timer_event:
  assumes P: "driver_ok P" and r: "CoreSignalEvent run P ev s = Some (status, s')" and s: "run_before (CheckTimersLoop now) s"
    and e: "Events s x = Some e"
  shows "\<exists>n. Events s' x = Some (e\<lparr>SignalCount := n\<rparr>)"
  using signal_timer(3) [OF P r s] e by (cases "x = ev") (auto intro: exI [of _ "SignalCount e"])

text \<open>Putting back a periodic timer.\<close>

lemma requeue_timer:
  assumes P: "driver_ok P" and s: "run_before (CheckTimersLoop now) s" "ev \<notin> set (mEfiTimerList s)"
    and e: "Events s ev = Some e" "EventType e AND EVT_TIMER \<noteq> 0"
    and r: "SetPeriodicTimer run P now ev e s = Some s'"
  shows "run_before (CheckTimersLoop now) s' \<and> mEfiTimerLock s' = mEfiTimerLock s"
proof -
  obtain t u where t: "UpdateEvent ev (\<lambda>e. e\<lparr>TriggerTime := TriggerTime e + Period e\<rparr>) s = Some t"
    and u: "(if TriggerTime e + Period e \<le> now then LateTimer run P now ev t else Some t) = Some u" and i: "CoreInsertEventTimer ev u = Some s'"
    using r unfolding SetPeriodicTimer_def bind_eq_Some_conv by blast
  have ok: "events_ok s" "SignalCount e \<le> 1" using s(1) e(1) by (auto simp: events_ok_def event_ok_def)
  have t1: "events_ok t" by (rule UpdateEvent_ok(1) [OF ok(1) t]) (use ok(2) e s(2) in \<open>auto simp: same_event_def\<close>)
  have t2: "t = s\<lparr>Events := (Events s)(ev \<mapsto> e\<lparr>TriggerTime := TriggerTime e + Period e\<rparr>)\<rparr>"
    using t e(1) by (simp add: UpdateEvent_def)
  have "run_before (CheckTimersLoop now) u \<and> rest u = rest s \<and> (\<exists>f. Events u ev = Some f \<and> EventType f = EventType e)"
  proof (cases "TriggerTime e + Period e \<le> now")
    case False
    then show ?thesis using u t1 t2 s(1) by auto
  next
    case True
    then obtain v st where v: "UpdateEvent ev (\<lambda>e. e\<lparr>TriggerTime := now\<rparr>) t = Some v"
      "CoreSignalEvent run P (mEfiCheckTimerEvent v) v = Some (st, u)" using u by (auto simp: LateTimer_def bind_eq_Some_conv)
    have v1: "events_ok v" by (rule UpdateEvent_ok(1) [OF t1 v(1)]) (use ok(2) s(2) t2 in \<open>auto simp: same_event_def\<close>)
    have v2: "v = s\<lparr>Events := (Events s)(ev \<mapsto> e\<lparr>TriggerTime := now\<rparr>)\<rparr>" using v(1) t2 by (simp add: UpdateEvent_def)
    have v3: "run_before (CheckTimersLoop now) v" "Events v ev = Some (e\<lparr>TriggerTime := now\<rparr>)" using v1 v2 s(1) by simp_all
    show ?thesis using signal_timer [OF P v(2) v3(1)] signal_timer_event [OF P v(2) v3] v2 by auto
  qed
  then obtain f where u2: "run_before (CheckTimersLoop now) u" "rest u = rest s" "Events u ev = Some f" "EventType f = EventType e" by blast
  have u3: "events_ok u" "mEfiTimerList u = mEfiTimerList s" "mEfiTimerLock u = mEfiTimerLock s" using u2(1,2) by (simp_all add: rest_def)
  have "ev \<notin> set (mEfiTimerList u)" "EventType f AND EVT_TIMER \<noteq> 0" using u3(2) s(2) e(2) u2(4) by simp_all
  note z = CoreInsertEventTimer_ok [OF u3(1) this(1) u2(3) this(2) i]
  have "gEfiCurrentTpl s' = gEfiCurrentTpl u" "gEventQueueLock s' = gEventQueueLock u" "mEfiTimerLock s' = mEfiTimerLock u"
    "mEfiSystemTimeLock s' = mEfiSystemTimeLock u" by (subst z(2), simp)+
  then show ?thesis using z(1) u2(1) u3(3) by simp
qed

lemma CheckTimers_step_ok:
  assumes P: "driver_ok P" and r: "CheckTimers_step run P now s = Some s'" and s: "run_before (CheckTimersLoop now) s"
  shows "run_after (CheckTimersLoop now) s s'"
proof (cases "mEfiTimerList s")
  case Nil
  then show ?thesis using r s by (simp add: CheckTimers_step_def)
next
  case (Cons ev link)
  have tm: "timers_ok (Events s) (ev # link)" using s Cons by (simp add: events_ok_def)
  then obtain e where e: "Events s ev = Some e" "EventType e AND EVT_TIMER \<noteq> 0" by (auto simp: timers_ok_def)
  show ?thesis
  proof (cases "TriggerTime e > now")
    case True
    then show ?thesis using r s Cons e by (simp add: CheckTimers_step_def)
  next
    case False
    let ?s = "s\<lparr>mEfiTimerList := link\<rparr>"
    obtain st t f u where t: "CoreSignalEvent run P ev ?s = Some (st, t)" and f: "Events t ev = Some f" and u:
      "(if Period f \<noteq> 0 then SetPeriodicTimer run P now ev f t else Some t) = Some u" and r2: "run (CheckTimersLoop now) u = Some s'"
      using r Cons e(1) False by (auto simp: CheckTimers_step_def bind_eq_Some_conv)
    have "timers_ok (Events s) link" using tm by (simp add: timers_ok_def)
    then have s2: "run_before (CheckTimersLoop now) ?s" using s by (simp add: events_ok_def)
    have t2: "run_before (CheckTimersLoop now) t" "rest t = rest ?s" using signal_timer [OF P t s2] by simp_all
    have "EventType f = EventType e" using signal_timer_event [OF P t s2, of ev e] e(1) f by auto
    moreover have "ev \<notin> set (mEfiTimerList t)" using t2(2) tm by (simp add: rest_def timers_ok_def)
    ultimately have u2: "run_before (CheckTimersLoop now) u" "mEfiTimerLock u = mEfiTimerLock t"
      using requeue_timer [OF P t2(1) _ f, of u] e(2) u t2(1) by (cases "Period f = 0"; simp)+
    show ?thesis using run_keeps [OF P r2 u2(1)] u2(2) t2(2) s by (simp add: rest_def)
  qed
qed

lemma CoreCurrentSystemTime_ok:
  assumes P: "driver_ok P" and r: "CoreCurrentSystemTime run P s = Some (now, s')" and s: "run_before (CheckTimersLoop n) s"
  shows "run_before (CheckTimersLoop n) s'" "now = mEfiSystemTime s"
    "s' = s\<lparr>Interrupts := Interrupts s', mEfiSystemTimeLock := mEfiSystemTimeLock s'\<rparr>"
proof -
  obtain t where t: "AcquireSystemTimeLock P s = Some t" "ReleaseSystemTimeLock run t = Some s'" "now = mEfiSystemTime t"
    using r by (auto simp: CoreCurrentSystemTime_def bind_eq_Some_conv)
  have s2: "events_ok s" "gEfiCurrentTpl s = 30" using s by simp_all
  note a = AcquireSystemTimeLock_Some [OF t(1) s2(1), unfolded s2(2)]
  let ?t = "t\<lparr>mEfiSystemTimeLock := (taken 31 30)\<lparr>Acquired := False\<rparr>\<rparr>"
  have f: "mEfiSystemTimeLock t = taken 31 30" "mEfiSystemTime t = mEfiSystemTime s" "gEventQueueLock t = gEventQueueLock s"
    "mEfiTimerLock t = mEfiTimerLock s" by (subst a(1), simp)+
  have rt: "run (RestoreTpl 30) ?t = Some s'" using t(2) f(1) by (simp add: ReleaseSystemTimeLock_def)
  have "events_ok ?t" using a(3) f(1) by (simp add: events_ok_def)
  then have "run_before (RestoreTpl 30) ?t" using s f by (simp add: may_lower_def)
  from run_keeps [OF P rt this] have k: "events_ok s'" "locks_kept ?t s'" "gEfiCurrentTpl s' = 30"
    "s' = ?t\<lparr>gEfiCurrentTpl := 30, Interrupts := Interrupts s'\<rparr>"
    using drained_high [of ?t 30] \<open>events_ok ?t\<close> by simp_all
  then show "run_before (CheckTimersLoop n) s'" using s f by (simp add: locks_kept_def lock_kept_def)
  show "now = mEfiSystemTime s" using t(3) f(2) by simp
  have e: "s' = s\<lparr>gEfiCurrentTpl := 30, Interrupts := Interrupts s', mEfiSystemTimeLock := (taken 31 30)\<lparr>Acquired := False\<rparr>\<rparr>"
    by (subst k(4), subst a(1)) simp
  have l: "mEfiSystemTimeLock s' = (taken 31 30)\<lparr>Acquired := False\<rparr>" using arg_cong [OF e, of mEfiSystemTimeLock] by simp
  have "s\<lparr>gEfiCurrentTpl := 30, Interrupts := b, mEfiSystemTimeLock := l\<rparr> = s\<lparr>Interrupts := b, mEfiSystemTimeLock := l\<rparr>" for b l
    using s2(2) by (cases s) simp
  then show "s' = s\<lparr>Interrupts := Interrupts s', mEfiSystemTimeLock := mEfiSystemTimeLock s'\<rparr>"
    unfolding l by (rule trans [OF e])
qed

lemma CoreCheckTimers_ok:
  assumes P: "driver_ok P" and r: "CoreCheckTimers run P s = Some s'" and s: "events_ok s" "unlocked s"
  shows "events_ok s' \<and> unlocked s' \<and> gEfiCurrentTpl s' = gEfiCurrentTpl s"
proof -
  obtain t now u v where t: "AcquireTimerLock P s = Some t" and u: "CoreCurrentSystemTime run P t = Some (now, u)"
    and v: "run (CheckTimersLoop now) u = Some v" and rl: "ReleaseTimerLock run v = Some s'"
    using r by (auto simp: CoreCheckTimers_def bind_eq_Some_conv)
  note a = AcquireTimerLock_Some [OF t s(1)]
  have f: "gEfiCurrentTpl t = 30" "mEfiTimerLock t = taken 30 (gEfiCurrentTpl s)" "gEventQueueLock t = gEventQueueLock s"
    "mEfiSystemTimeLock t = mEfiSystemTimeLock s" by (subst a(1), simp)+
  then have "run_before (CheckTimersLoop now) t" using a(4) s(2) by (simp add: unlocked_def)
  note u' = CoreCurrentSystemTime_ok [OF P u this]
  have ul: "mEfiTimerLock u = mEfiTimerLock t" by (subst u'(3)) simp
  note v' = run_keeps [OF P v u'(1)]
  let ?v = "v\<lparr>mEfiTimerLock := (taken 30 (gEfiCurrentTpl s))\<lparr>Acquired := False\<rparr>\<rparr>"
  have rv: "run (RestoreTpl (gEfiCurrentTpl s)) ?v = Some s'" using rl v' ul f(2) by (simp add: ReleaseTimerLock_def)
  have "run_before (RestoreTpl (gEfiCurrentTpl s)) ?v" using v' by (simp add: events_ok_def may_lower_def)
  from run_keeps [OF P rv this] show ?thesis using v' by (simp add: locks_kept_def lock_kept_def unlocked_def)
qed

subsubsection \<open>Dispatching\<close>

lemma RunNotifyFunction_ok:
  assumes P: "driver_ok P" and r: "RunNotifyFunction run P ev e s = Some s'" and s: "events_ok s" "unlocked s"
  shows "events_ok s' \<and> unlocked s' \<and> gEfiCurrentTpl s' = gEfiCurrentTpl s"
proof (cases "NotifyFunction e")
  case None
  then show ?thesis using r by (simp add: RunNotifyFunction_def)
next
  case (Some f)
  then show ?thesis
  proof (cases f)
    case CheckTimersFunction
    then show ?thesis using CoreCheckTimers_ok [OF P _ s] r Some by (simp add: RunNotifyFunction_def)
  next
    case EmptyFunction
    then show ?thesis using r s Some by (simp add: RunNotifyFunction_def)
  next
    case (DriverFunction g)
    then have "Notify P g ev (NotifyContext e) s = Some s'" using r Some by (simp add: RunNotifyFunction_def)
    then show ?thesis using P s unfolding driver_ok_def by blast
  qed
qed

lemma DispatchEventNotifies_step_ok:
  assumes P: "driver_ok P" and r: "DispatchEventNotifies_step run P p s = Some s'" and s: "run_before (DispatchLoop p) s"
  shows "run_after (DispatchLoop p) s s'"
proof (cases "gEventQueue s ! unat p")
  case Nil
  then show ?thesis using r s by (simp add: DispatchEventNotifies_step_def)
next
  case (Cons ev link)
  let ?s = "s\<lparr>gEventQueue := (gEventQueue s)[unat p := link]\<rparr>"
  obtain t u e v w where t: "UpdateEvent ev (\<lambda>e. if EventType e AND EVT_NOTIFY_SIGNAL \<noteq> 0 then e\<lparr>SignalCount := 0\<rparr> else e) ?s = Some t"
    and u: "CoreReleaseEventLock run t = Some u" and v: "RunNotifyFunction run P ev e u = Some v"
    and w: "CoreAcquireEventLock P v = Some w" and r2: "run (DispatchLoop p) w = Some s'"
    using r Cons by (auto simp: DispatchEventNotifies_step_def bind_eq_Some_conv)
  have p: "unat p < 32" using s by (simp add: word_less_nat_alt)
  have q: "queues_ok (Events s) (gEventQueue s) (gEventPending s)" using s by (simp add: events_ok_def)
  have "distinct (ev # link) \<and> bit (gEventPending s) (unat p) \<and>
      (\<forall>x \<in> set (ev # link). \<exists>e. Events s x = Some e \<and> notifiable e \<and> unat (NotifyTpl e) = unat p)"
    using q p Cons unfolding queues_ok_def by (metis list.distinct(1))
  then have "queues_ok (Events s) ((gEventQueue s)[unat p := link]) (gEventPending s)"
    using q p unfolding queues_ok_def by (auto simp: nth_list_update)
  then have s2: "events_ok ?s" using s by (simp add: events_ok_def)
  have cnt: "SignalCount e \<le> 1" if "Events ?s ev = Some e" for e using s that by (auto simp: events_ok_def event_ok_def)
  note t' = UpdateEvent_ok [OF s2 t]
  have t2: "events_ok t" by (rule t'(1)) (use cnt in \<open>auto simp: same_event_def\<close>)
  have "\<exists>e. t = ?s\<lparr>Events := (Events ?s)(ev \<mapsto> e)\<rparr>" using t by (auto simp: UpdateEvent_def bind_eq_Some_conv)
  then have t3: "gEventQueueLock t = taken 31 p" "\<not> Acquired (mEfiTimerLock t)" "\<not> Acquired (mEfiSystemTimeLock t)" using s by auto
  note u' = release_event [OF P u t2 t3(1)]
  have u2: "events_ok u" "unlocked u" "gEfiCurrentTpl u = p" using u' t3 by (simp_all add: unlocked_def lock_kept_def)
  have v2: "events_ok v" "unlocked v" "gEfiCurrentTpl v = p" using RunNotifyFunction_ok [OF P v u2(1,2)] u2(3) by simp_all
  note a = acquire_event [OF w v2(1)]
  have "run_before (DispatchLoop p) w" using a v2 s by (simp add: rest_def unlocked_def)
  then show ?thesis using run_keeps [OF P r2] by simp
qed

lemma CoreDispatchEventNotifies_ok:
  assumes P: "driver_ok P" and r: "CoreDispatchEventNotifies run P p s = Some s'" and s: "events_ok s" "unlocked s" "gEfiCurrentTpl s = p" "p < 31"
  shows "events_ok s'" "unlocked s'" "gEfiCurrentTpl s' = p" "drained p s'"
proof -
  obtain t u b where t: "CoreAcquireEventLock P s = Some t" and u: "run (DispatchLoop p) t = Some u" and b: "PendingBit p = Some b"
    and r2: "CoreReleaseEventLock run (u\<lparr>gEventPending := gEventPending u AND NOT b\<rparr>) = Some s'"
    using r by (auto simp: CoreDispatchEventNotifies_def bind_eq_Some_conv split: if_splits)
  note a = acquire_event [OF t s(1)]
  have "run_before (DispatchLoop p) t" using a s by (simp add: rest_def unlocked_def)
  from run_keeps [OF P u this] have u2: "run_before (DispatchLoop p) u" "gEventQueue u ! unat p = []" by simp_all
  let ?u = "u\<lparr>gEventPending := gEventPending u AND NOT b\<rparr>"
  have "queues_ok (Events u) (gEventQueue u) (gEventPending u)" using u2(1) by (simp add: events_ok_def)
  then have "queues_ok (Events u) (gEventQueue u) (gEventPending u AND NOT b)"
    using u2(2) unfolding queues_ok_def by (auto simp: bit_simps bit_PendingBit [OF b])
  then have "events_ok ?u" using u2(1) by (simp add: events_ok_def)
  note e = release_event [OF P r2 this]
  show "events_ok s'" "unlocked s'" "gEfiCurrentTpl s' = p" "drained p s'" using e u2(1) by (simp_all add: unlocked_def lock_kept_def)
qed

lemma RestoreTpl_step_ok:
  assumes P: "driver_ok P" and r: "RestoreTpl_step run P t s = Some s'" and s: "run_before (RestoreTplLoop t) s"
  shows "run_after (RestoreTplLoop t) s s'"
proof (cases "HighBitSet64 (gEventPending s)")
  case None
  then have "s' = s" using r by (simp add: RestoreTpl_step_def)
  moreover have "gEventPending s = 0" using None HighBitSet64_None by blast
  ultimately show ?thesis using s by (simp add: drained_def)
next
  case (Some i)
  have ok: "events_ok s" "may_lower t s" "t \<le> 31" using s by simp_all
  note p = pending_top [OF ok(1) Some]
  let ?p = "of_nat i :: UINTN"
  show ?thesis
  proof (cases "?p \<le> t")
    case True
    then have "drained t s" using p(3,5) by (simp add: word_le_nat_alt)
    then show ?thesis using r Some s True by (simp add: RestoreTpl_step_def)
  next
    case False
    have lt: "t < ?p" "?p < 31" using False p(2,3) by (simp, simp add: word_less_nat_alt)
    then have "\<not> 30 \<le> t" "\<not> 31 \<le> t" using p(2,3) by (simp_all add: word_le_nat_alt word_less_nat_alt)
    then have un: "unlocked s" using ok(2) by (simp add: may_lower_def unlocked_def)
    let ?s = "CoreSetInterruptState P True (s\<lparr>gEfiCurrentTpl := ?p\<rparr>)"
    have "do { s \<leftarrow> CoreDispatchEventNotifies run P ?p ?s; run (RestoreTplLoop t) s } = Some s'"
      using r Some False lt(2) by (simp add: RestoreTpl_step_def Let_def TPL_HIGH_LEVEL_def)
    then obtain u where u: "CoreDispatchEventNotifies run P ?p ?s = Some u" "run (RestoreTplLoop t) u = Some s'"
      unfolding bind_eq_Some_conv by blast
    obtain b where b: "?s = s\<lparr>gEfiCurrentTpl := ?p, Interrupts := b\<rparr>" using CoreSetInterruptState_eq by blast
    have "events_ok ?s" "unlocked ?s" "gEfiCurrentTpl ?s = ?p" using ok(1) un lt(2) unfolding b by (simp_all add: events_ok_def unlocked_def)
    note d = CoreDispatchEventNotifies_ok [OF P u(1) this lt(2)]
    have "run_before (RestoreTplLoop t) u" using d ok(3) by (simp add: unlocked_lower)
    from run_keeps [OF P u(2) this] have "events_ok s'" "locks_kept u s'" "drained t s'" by simp_all
    moreover have "locks_kept s u" by (rule unlocked_kept [OF un d(2) ok(1) d(1)])
    moreover have "\<not> drained t s" using p(3,5) lt(1) by (simp add: word_less_nat_alt)
    ultimately show ?thesis using locks_kept_trans by auto
  qed
qed

lemma CoreRestoreTpl_ok:
  assumes P: "driver_ok P" and r: "CoreRestoreTpl run P t s = Some s'" and s: "run_before (RestoreTpl t) s"
  shows "run_after (RestoreTpl t) s s'"
proof -
  let ?s = "if gEfiCurrentTpl s \<ge> TPL_HIGH_LEVEL \<and> t < TPL_HIGH_LEVEL then s\<lparr>gEfiCurrentTpl := TPL_HIGH_LEVEL\<rparr> else s"
  have t: "\<not> (t > gEfiCurrentTpl s \<or> t > TPL_HIGH_LEVEL)" using r by (auto simp: CoreRestoreTpl_def Let_def)
  then obtain u where u: "run (RestoreTplLoop t) ?s = Some u"
    and s': "s' = (if t < TPL_HIGH_LEVEL then CoreSetInterruptState P True (u\<lparr>gEfiCurrentTpl := t\<rparr>) else u\<lparr>gEfiCurrentTpl := t\<rparr>)"
    using r unfolding CoreRestoreTpl_def Let_def if_not_P [OF t] bind_eq_Some_conv by blast
  have t: "t \<le> 31" using t by (simp add: TPL_HIGH_LEVEL_def not_less)
  have "run_before (RestoreTplLoop t) ?s" using s t by (auto simp: events_ok_def may_lower_def TPL_HIGH_LEVEL_def)
  from run_keeps [OF P u this] have u2: "events_ok u" "locks_kept ?s u" "drained t u" "drained t ?s \<longrightarrow> u = ?s" by simp_all
  obtain b where b: "s' = u\<lparr>gEfiCurrentTpl := t, Interrupts := b\<rparr>"
  proof (cases "t < TPL_HIGH_LEVEL")
    case True
    then show ?thesis using that CoreSetInterruptState_eq [of P True "u\<lparr>gEfiCurrentTpl := t\<rparr>"] unfolding s' by auto
  next
    case False
    then have "s' = u\<lparr>gEfiCurrentTpl := t, Interrupts := Interrupts u\<rparr>" unfolding s' by simp
    then show ?thesis using that by blast
  qed
  have same: "locks_kept ?s u = locks_kept s u" "drained t ?s = drained t s" by (simp_all add: locks_kept_def drained_def)
  have "locks_kept s s' = locks_kept s u" "drained t s' = drained t u" unfolding b by (simp_all add: locks_kept_def drained_def)
  moreover have "events_ok s'" using u2(1) t unfolding b by (simp add: events_ok_def)
  moreover have "s' = s\<lparr>gEfiCurrentTpl := t, Interrupts := Interrupts s'\<rparr>" if "drained t s"
    using that u2(4) same(2) unfolding b by simp
  ultimately show ?thesis using u2(2,3) same b by simp
qed

end

subsection \<open>The recursion meets it\<close>

lemma RunTpl_keeps:
  assumes P: "driver_ok P" and r: "RunTpl P call s = Some s'"
  shows "run_before call s \<longrightarrow> run_after call s s'"
proof -
  have "driver_ok P \<longrightarrow> run_before call s \<longrightarrow> run_after call s s'"
  proof (rule RunTpl.raw_induct [where Pa = "\<lambda>((Q, call), s) s'. driver_ok Q \<longrightarrow> run_before call s \<longrightarrow> run_after call s s'",
      OF _ r, unfolded prod.case], intro impI)
    fix run :: "'a DXE_PLATFORM \<Rightarrow> 'a run" and Q :: "'a DXE_PLATFORM" and call and s s' :: "'a dxe_events"
    assume IH: "\<And>Q call s s'. run Q call s = Some s' \<Longrightarrow> driver_ok Q \<longrightarrow> run_before call s \<longrightarrow> run_after call s s'"
      and r: "(case call of
         RestoreTpl newTpl \<Rightarrow> CoreRestoreTpl (run Q) Q newTpl s
       | RestoreTplLoop newTpl \<Rightarrow> RestoreTpl_step (run Q) Q newTpl s
       | DispatchLoop priority \<Rightarrow> DispatchEventNotifies_step (run Q) Q priority s
       | CheckTimersLoop systemTime \<Rightarrow> CheckTimers_step (run Q) Q systemTime s) = Some s'"
      and Q: "driver_ok Q" and s: "run_before call s"
    have run: "tpl_run (run Q) Q" by unfold_locales (use IH in blast)
    show "run_after call s s'"
      using r s tpl_run.CoreRestoreTpl_ok [OF run Q] tpl_run.RestoreTpl_step_ok [OF run Q] tpl_run.DispatchEventNotifies_step_ok [OF run Q]
        tpl_run.CheckTimers_step_ok [OF run Q]
      by (cases call) (simp_all del: run_before.simps run_after.simps)
  qed
  then show ?thesis using P by blast
qed

interpretation core: tpl_run "RunTpl P" P for P
  by unfold_locales (use RunTpl_keeps in blast)

end
