(* ===== verification/DxeEventServices.thy ===== *)
theory DxeEventServices
  imports DxeEventRun
begin

text \<open>
  The event services between calls: a step relation over all of them, and its invariant.
\<close>

text \<open>Between calls no lock is held, and nothing is pending above the current priority.\<close>

definition steady :: "'e dxe_events \<Rightarrow> bool" where
  "steady s \<longleftrightarrow> events_ok s \<and> unlocked s \<and> drained (gEfiCurrentTpl s) s"

lemma steady_resumed: "steady s \<Longrightarrow> resumed s s' \<Longrightarrow> steady s' \<and> gEfiCurrentTpl s' = gEfiCurrentTpl s"
  using locks_kept_unlocked [of s s'] by (simp add: steady_def resumed_def)

lemma steady_lower: "steady s \<Longrightarrow> may_lower t s"
  by (simp add: steady_def unlocked_lower)

subsection \<open>Priorities\<close>

lemma CoreRaiseTpl_steady: "steady s \<Longrightarrow> CoreRaiseTpl P t s = Some (old, s') \<Longrightarrow> steady s' \<and> old = gEfiCurrentTpl s \<and> gEfiCurrentTpl s' = t"
  by (auto simp: steady_def unlocked_def drained_def events_ok_tpl word_le_nat_alt dest!: CoreRaiseTpl_Some)

lemma RestoreTpl_steady:
  assumes "driver_ok P" "steady s" "RunTpl P (RestoreTpl t) s = Some s'"
  shows "steady s' \<and> gEfiCurrentTpl s' = t"
proof -
  have "run_before (RestoreTpl t) s" using assms(2) by (simp add: steady_def unlocked_lower)
  from core.run_keeps [OF assms(1,3) this] show ?thesis using assms(2) locks_kept_unlocked [of s s'] by (simp add: steady_def)
qed

subsection \<open>Signals\<close>

lemma CoreSignalEvent_steady:
  assumes "driver_ok P" "steady s" "CoreSignalEvent (RunTpl P) P ev s = Some (status, s')"
  shows "steady s' \<and> gEfiCurrentTpl s' = gEfiCurrentTpl s"
proof -
  have "events_ok s" using assms(2) by (simp add: steady_def)
  from core.CoreSignalEvent_ok [OF assms(1,3) this steady_lower [OF assms(2)]]
  show ?thesis using assms(2) steady_resumed by blast
qed

lemma CoreNotifySignalList_steady:
  assumes "driver_ok P" "steady s" "CoreNotifySignalList (RunTpl P) P guid s = Some s'"
  shows "steady s' \<and> gEfiCurrentTpl s' = gEfiCurrentTpl s"
proof -
  have "events_ok s" using assms(2) by (simp add: steady_def)
  from core.CoreNotifySignalList_ok [OF assms(1,3) this steady_lower [OF assms(2)]]
  show ?thesis using assms(2) steady_resumed by blast
qed

text \<open>A change under the lock of the event queue.\<close>

lemma locked_change:
  assumes P: "driver_ok P" and s: "steady s" and a: "CoreAcquireEventLock P s = Some t"
    and u: "events_ok u" "gEventQueueLock u = gEventQueueLock t" "mEfiTimerLock u = mEfiTimerLock t" "mEfiSystemTimeLock u = mEfiSystemTimeLock t"
    and r: "CoreReleaseEventLock (RunTpl P) u = Some s'"
  shows "steady s' \<and> gEfiCurrentTpl s' = gEfiCurrentTpl s"
proof -
  have "events_ok s" using s by (simp add: steady_def)
  note t = acquire_event [OF a this]
  have l: "\<not> Acquired (mEfiTimerLock u)" "\<not> Acquired (mEfiSystemTimeLock u)" using s t(5) u(3,4) by (simp_all add: steady_def unlocked_def rest_def)
  note e = core.release_event [OF P r u(1) trans [OF u(2) t(3)]]
  show ?thesis using e l by (simp add: steady_def unlocked_def lock_kept_def)
qed

lemma CoreCheckEvent_steady:
  assumes P: "driver_ok P" and s: "steady s" and r: "CoreCheckEvent P ev s = Some (status, s')"
  shows "steady s' \<and> gEfiCurrentTpl s' = gEfiCurrentTpl s"
proof (cases "ev = 0 \<or> (\<exists>e. Events s ev = Some e \<and> (Signature e \<noteq> EVENT_SIGNATURE \<or> EventType e AND EVT_NOTIFY_SIGNAL \<noteq> 0))")
  case True
  then have "CoreCheckEvent P ev s = Some (EFI_INVALID_PARAMETER, s)" by (auto simp: CoreCheckEvent_def)
  then show ?thesis using r s by simp
next
  case False
  then obtain e where e: "Events s ev = Some e" "Signature e = EVENT_SIGNATURE" "EventType e AND EVT_NOTIFY_SIGNAL = 0"
    using r by (auto simp: CoreCheckEvent_def bind_eq_Some_conv)
  define queue where "queue = (\<lambda>s. do { s \<leftarrow> CoreAcquireEventLock P s; s \<leftarrow> CoreNotifyEvent ev s; CoreReleaseEventLock (RunTpl P) s })"
  define clear where "clear = (\<lambda>s. do { s \<leftarrow> CoreAcquireEventLock P s; s \<leftarrow> UpdateEvent ev (\<lambda>e. e\<lparr>SignalCount := 0\<rparr>) s;
            s \<leftarrow> CoreReleaseEventLock (RunTpl P) s; Some (EFI_SUCCESS, s) })"
  have eq: "CoreCheckEvent P ev s = do {
      s \<leftarrow> (if SignalCount e = 0 \<and> EventType e AND EVT_NOTIFY_WAIT \<noteq> 0 then queue s else Some s);
      e \<leftarrow> Events s ev; if SignalCount e \<noteq> 0 then clear s else Some (EFI_NOT_READY, s) }"
    unfolding CoreCheckEvent_def queue_def clear_def using False e by simp
  obtain t f where t: "(if SignalCount e = 0 \<and> EventType e AND EVT_NOTIFY_WAIT \<noteq> 0 then queue s else Some s) = Some t"
    and f: "Events t ev = Some f" and r2: "(if SignalCount f \<noteq> 0 then clear t else Some (EFI_NOT_READY, t)) = Some (status, s')"
    using r unfolding eq bind_eq_Some_conv by blast
  have ok: "events_ok s" using s by (simp add: steady_def)
  have t2: "steady t \<and> gEfiCurrentTpl t = gEfiCurrentTpl s"
  proof (cases "SignalCount e = 0 \<and> EventType e AND EVT_NOTIFY_WAIT \<noteq> 0")
    case False
    then show ?thesis using t s by (simp split: if_splits)
  next
    case True
    then obtain u v where u: "CoreAcquireEventLock P s = Some u" "CoreNotifyEvent ev u = Some v" "CoreReleaseEventLock (RunTpl P) v = Some t"
      using t by (auto simp: queue_def bind_eq_Some_conv)
    note a = acquire_event [OF u(1) ok]
    have "notifiable e" using True ok e(1) by (auto simp: events_ok_def event_ok_def)
    note n = CoreNotifyEvent_ok [OF a(1) u(2) _ this]
    have "events_ok v" "v = u\<lparr>gEventQueue := gEventQueue v, gEventPending := gEventPending v\<rparr>" using n e(1) a(6) by simp_all
    then have v: "events_ok v" "gEventQueueLock v = gEventQueueLock u" "mEfiTimerLock v = mEfiTimerLock u" "mEfiSystemTimeLock v = mEfiSystemTimeLock u"
      by (auto dest: arg_cong [of v _ gEventQueueLock] arg_cong [of v _ mEfiTimerLock] arg_cong [of v _ mEfiSystemTimeLock])
    show ?thesis by (rule locked_change [OF P s u(1) v u(3)])
  qed
  show ?thesis
  proof (cases "SignalCount f = 0")
    case True
    then show ?thesis using r2 t2 by simp
  next
    case False
    then obtain u v where u: "CoreAcquireEventLock P t = Some u" "UpdateEvent ev (\<lambda>e. e\<lparr>SignalCount := 0\<rparr>) u = Some v"
      "CoreReleaseEventLock (RunTpl P) v = Some s'" using r2 by (auto simp: clear_def bind_eq_Some_conv)
    note a = acquire_event [OF u(1)]
    have "events_ok u" using a t2 by (simp add: steady_def)
    note v = UpdateEvent_ok [OF this u(2)]
    have "events_ok v" by (rule v(1)) (simp_all add: same_event_def)
    moreover have "gEventQueueLock v = gEventQueueLock u" "mEfiTimerLock v = mEfiTimerLock u" "mEfiSystemTimeLock v = mEfiSystemTimeLock u"
      using u(2) by (auto simp: UpdateEvent_def bind_eq_Some_conv)
    ultimately show ?thesis using locked_change [OF P _ u(1) _ _ _ _ u(3)] t2 by simp
  qed
qed

lemma WaitForEvent_check_steady:
  "driver_ok P \<Longrightarrow> steady s \<Longrightarrow> WaitForEvent_check P i evs s = Some (r, s') \<Longrightarrow> steady s' \<and> gEfiCurrentTpl s' = gEfiCurrentTpl s"
proof (induction P i evs s arbitrary: s' rule: WaitForEvent_check.induct)
  case (2 P i ev evs s)
  obtain st t where t: "CoreCheckEvent P ev s = Some (st, t)" using 2(4) by (cases "CoreCheckEvent P ev s") auto
  note c = CoreCheckEvent_steady [OF 2(2,3) t]
  show ?case
  proof (cases "st = EFI_NOT_READY")
    case True
    then have "WaitForEvent_check P (i + 1) evs t = Some (r, s')" using 2(4) t by simp
    then have "steady s' \<and> gEfiCurrentTpl s' = gEfiCurrentTpl t" using 2(1) [OF t refl _ 2(2)] True c by blast
    then show ?thesis using c by simp
  next
    case False
    then show ?thesis using 2(4) t c by simp
  qed
qed simp

lemma WaitForEvent_loop_steady:
  assumes P: "driver_ok P" and s: "steady s" and r: "WaitForEvent_loop P evs s = Some (st, i, s')"
  shows "steady s' \<and> gEfiCurrentTpl s' = gEfiCurrentTpl s"
proof -
  have "driver_ok P \<longrightarrow> steady s \<longrightarrow> steady (snd (snd (st, i, s'))) \<and> gEfiCurrentTpl (snd (snd (st, i, s'))) = gEfiCurrentTpl s"
  proof (rule WaitForEvent_loop.raw_induct [where Pa = "\<lambda>((P, evs), s) r. driver_ok P \<longrightarrow> steady s \<longrightarrow> steady (snd (snd r)) \<and>
      gEfiCurrentTpl (snd (snd r)) = gEfiCurrentTpl s", OF _ r, unfolded prod.case], intro impI)
    fix loop :: "'a DXE_PLATFORM \<Rightarrow> EFI_EVENT list \<Rightarrow> 'a dxe_events \<Rightarrow> (EFI_STATUS \<times> UINTN \<times> 'a dxe_events) option"
      and P evs and s :: "'a dxe_events" and r
    assume IH: "\<And>P evs s r. loop P evs s = Some r \<Longrightarrow> driver_ok P \<longrightarrow> steady s \<longrightarrow> steady (snd (snd r)) \<and>
        gEfiCurrentTpl (snd (snd r)) = gEfiCurrentTpl s"
      and r: "do {
     (r, s) \<leftarrow> WaitForEvent_check P 0 evs s;
     case r of
       Some (status, index) \<Rightarrow> Some (status, index, s)
     | None \<Rightarrow> do { (_, s) \<leftarrow> CoreSignalEvent (RunTpl P) P (gIdleLoopEvent s) s; loop P evs s } } = Some r"
      and P: "driver_ok P" and s: "steady s"
    obtain q t where t: "WaitForEvent_check P 0 evs s = Some (q, t)" using r by (auto simp: bind_eq_Some_conv)
    note c = WaitForEvent_check_steady [OF P s t]
    show "steady (snd (snd r)) \<and> gEfiCurrentTpl (snd (snd r)) = gEfiCurrentTpl s"
    proof (cases q)
      case (Some x)
      then show ?thesis using r t c by (auto split: prod.splits)
    next
      case None
      then obtain st u where u: "CoreSignalEvent (RunTpl P) P (gIdleLoopEvent t) t = Some (st, u)" "loop P evs u = Some r"
        using r t by (auto simp: bind_eq_Some_conv)
      have "steady u \<and> gEfiCurrentTpl u = gEfiCurrentTpl t" using CoreSignalEvent_steady [OF P _ u(1)] c by blast
      then show ?thesis using IH [OF u(2)] P c by simp
    qed
  qed
  then show ?thesis using P s by simp
qed

lemma CoreWaitForEvent_steady:
  assumes "driver_ok P" "steady s" "CoreWaitForEvent P n evs s = Some (st, i, s')"
  shows "steady s' \<and> gEfiCurrentTpl s' = gEfiCurrentTpl s"
proof -
  have "s' = s \<or> (\<exists>xs k. WaitForEvent_loop P xs s = Some (st, k, s'))"
    using assms(3) by (auto simp: CoreWaitForEvent_def bind_eq_Some_conv split: if_splits option.splits)
  then show ?thesis using WaitForEvent_loop_steady [OF assms(1,2)] assms(2) by blast
qed

subsection \<open>Timers\<close>

lemma CoreTimerTick_steady:
  assumes P: "driver_ok P" and s: "steady s" and r: "CoreTimerTick P d s = Some s'"
  shows "steady s' \<and> gEfiCurrentTpl s' = gEfiCurrentTpl s"
proof -
  have ok: "events_ok s" "unlocked s" using s by (simp_all add: steady_def)
  obtain t where t: "AcquireSystemTimeLock P s = Some t" using r by (auto simp: CoreTimerTick_def bind_eq_Some_conv)
  note a = AcquireSystemTimeLock_Some [OF t ok(1)]
  let ?t = "t\<lparr>mEfiSystemTime := mEfiSystemTime t + d\<rparr>"
  have t2: "mEfiSystemTimeLock t = taken 31 (gEfiCurrentTpl s)" "gEventQueueLock t = gEventQueueLock s" "mEfiTimerLock t = mEfiTimerLock s"
    "gEfiCurrentTpl t = 31" by (subst a(1), simp)+
  have tb: "events_ok ?t" "may_lower (gEfiCurrentTpl ?t) ?t" "30 \<le> gEfiCurrentTpl ?t" using a(3) t2 by (simp_all add: may_lower_def)
  obtain u where c: "(case mEfiTimerList ?t of [] \<Rightarrow> Some ?t
       | ev # _ \<Rightarrow> do { e \<leftarrow> Events ?t ev;
           if TriggerTime e \<le> mEfiSystemTime ?t then do { (_, s) \<leftarrow> CoreSignalEvent (RunTpl P) P (mEfiCheckTimerEvent ?t) ?t; Some s }
           else Some ?t }) = Some u" and u: "ReleaseSystemTimeLock (RunTpl P) u = Some s'"
    using r unfolding CoreTimerTick_def Let_def t bind.bind_lunit bind_eq_Some_conv [of "case_list _ _ _"] by blast
  have "u = ?t \<or> (\<exists>st. CoreSignalEvent (RunTpl P) P (mEfiCheckTimerEvent ?t) ?t = Some (st, u))"
    using c by (cases "mEfiTimerList ?t") (auto simp: bind_eq_Some_conv split: if_splits)
  note u = this u
  have "u = ?t \<or> resumed ?t u" using u(1) core.CoreSignalEvent_ok [OF P _ tb(1,2)] by blast
  then have u2: "events_ok u" "mEfiSystemTimeLock u = mEfiSystemTimeLock t" "\<not> Acquired (gEventQueueLock u)" "\<not> Acquired (mEfiTimerLock u)"
    using tb t2 ok(2) by (auto simp: resumed_def locks_kept_def lock_kept_def unlocked_def rest_def)
  let ?u = "u\<lparr>mEfiSystemTimeLock := (taken 31 (gEfiCurrentTpl s))\<lparr>Acquired := False\<rparr>\<rparr>"
  have ru: "RunTpl P (RestoreTpl (gEfiCurrentTpl s)) ?u = Some s'" using u(2) u2(2) t2(1) by (simp add: ReleaseSystemTimeLock_def)
  have "run_before (RestoreTpl (gEfiCurrentTpl s)) ?u" using u2 by (simp add: events_ok_def may_lower_def)
  from core.run_keeps [OF P ru this] show ?thesis using u2 by (simp add: steady_def locks_kept_def lock_kept_def unlocked_def)
qed

text \<open>While a timer that is not in the list is set.\<close>

definition arming :: "EFI_EVENT \<Rightarrow> EFI_LOCK \<Rightarrow> 'e dxe_events \<Rightarrow> bool" where
  "arming ev l s \<longleftrightarrow> run_before (CheckTimersLoop 0) s \<and> mEfiTimerLock s = l \<and> ev \<notin> set (mEfiTimerList s) \<and>
     (\<exists>e. Events s ev = Some e \<and> EventType e AND EVT_TIMER \<noteq> 0)"

lemma arming_update:
  assumes s: "arming ev l s" and u: "UpdateEvent ev f s = Some t" and f: "\<And>e. same_event e (f e) \<and> SignalCount (f e) = SignalCount e"
  shows "arming ev l t"
proof -
  obtain e where e: "Events s ev = Some e" "EventType e AND EVT_TIMER \<noteq> 0" "events_ok s" using s by (auto simp: arming_def)
  have t: "t = s\<lparr>Events := (Events s)(ev \<mapsto> f e)\<rparr>" using u e(1) by (simp add: UpdateEvent_def)
  have "SignalCount e \<le> 1" using e(1,3) by (auto simp: events_ok_def event_ok_def)
  then have "events_ok t" by (intro UpdateEvent_ok(1) [OF e(3) u]) (use f e(1) s in \<open>auto simp: arming_def\<close>)
  then show ?thesis using s e(2) f [of e] unfolding t by (auto simp: arming_def same_event_def)
qed

lemma ArmTimer_ok:
  assumes P: "driver_ok P" and s: "arming ev l s" and r: "ArmTimer P ev delay time s = Some s'"
  shows "run_before (CheckTimersLoop 0) s' \<and> mEfiTimerLock s' = l"
proof -
  let ?time = "if delay = TimerPeriodic \<and> time = 0 then GetTimerPeriod P (Drivers s) else time"
  obtain t now u v w where t: "(if delay = TimerPeriodic then UpdateEvent ev (\<lambda>e. e\<lparr>Period := ?time\<rparr>) s else Some s) = Some t"
    and u: "CoreCurrentSystemTime (RunTpl P) P t = Some (now, u)"
    and v: "UpdateEvent ev (\<lambda>e. e\<lparr>TriggerTime := now + ?time\<rparr>) u = Some v" and w: "CoreInsertEventTimer ev v = Some w"
    and x: "(if ?time = 0 then do { (_, s) \<leftarrow> CoreSignalEvent (RunTpl P) P (mEfiCheckTimerEvent w) w; Some s } else Some w) = Some s'"
    using r unfolding ArmTimer_def Let_def bind_eq_Some_conv [of "CoreCurrentSystemTime P' Q x" for P' Q x]
      bind_eq_Some_conv [of "UpdateEvent e f x" for e f x] bind_eq_Some_conv [of "CoreInsertEventTimer e x" for e x]
      bind_eq_Some_conv [of "if b then x else y" for b x y] split_paired_Ex prod.case by blast
  have t2: "arming ev l t"
    using t s arming_update [OF s, of "\<lambda>e. e\<lparr>Period := ?time\<rparr>" t] by (simp add: same_event_def split: if_splits)
  then have "run_before (CheckTimersLoop 0) t" by (auto simp: arming_def)
  note u' = core.CoreCurrentSystemTime_ok [OF P u this]
  have "mEfiTimerLock u = mEfiTimerLock t" "mEfiTimerList u = mEfiTimerList t" "Events u = Events t" by (subst u'(3), simp)+
  then have "arming ev l u" using t2 u'(1) by (simp add: arming_def)
  then have "arming ev l v" by (rule arming_update [OF _ v]) (simp add: same_event_def)
  then obtain e where e: "events_ok v" "ev \<notin> set (mEfiTimerList v)" "Events v ev = Some e" "EventType e AND EVT_TIMER \<noteq> 0"
    and v2: "run_before (CheckTimersLoop 0) v" "mEfiTimerLock v = l" by (auto simp: arming_def)
  note i = CoreInsertEventTimer_ok [OF e w]
  have "gEfiCurrentTpl w = gEfiCurrentTpl v" "gEventQueueLock w = gEventQueueLock v" "mEfiTimerLock w = mEfiTimerLock v"
    "mEfiSystemTimeLock w = mEfiSystemTimeLock v" by (subst i(2), simp)+
  then have w2: "run_before (CheckTimersLoop 0) w" "mEfiTimerLock w = l" using i(1) v2 by simp_all
  show ?thesis
  proof (cases "?time = 0")
    case True
    then obtain st where st: "CoreSignalEvent (RunTpl P) P (mEfiCheckTimerEvent w) w = Some (st, s')" using x by (auto simp: bind_eq_Some_conv)
    show ?thesis using core.signal_timer(1,2) [OF P st w2(1)] w2(2) by (simp add: rest_def)
  next
    case False
    then show ?thesis using x w2 by simp
  qed
qed

lemma release_timer:
  assumes P: "driver_ok P" and s: "run_before (CheckTimersLoop 0) s" "mEfiTimerLock s = taken 30 owner" and r: "ReleaseTimerLock (RunTpl P) s = Some s'"
  shows "steady s' \<and> gEfiCurrentTpl s' = owner"
proof -
  let ?s = "s\<lparr>mEfiTimerLock := (taken 30 owner)\<lparr>Acquired := False\<rparr>\<rparr>"
  have r: "RunTpl P (RestoreTpl owner) ?s = Some s'" using r s(2) by (simp add: ReleaseTimerLock_def)
  have "run_before (RestoreTpl owner) ?s" using s by (simp add: events_ok_def may_lower_def)
  from core.run_keeps [OF P r this] show ?thesis using s(1) by (simp add: steady_def locks_kept_def lock_kept_def unlocked_def)
qed

lemma timers_ok_removeAll:
  assumes "timers_ok events timers" shows "timers_ok events (removeAll ev timers)"
proof -
  have "sorted (map (trigger events) (removeAll ev timers))"
    using assms sorted_filter [of "trigger events" timers "\<lambda>x. ev \<noteq> x"] by (simp add: timers_ok_def removeAll_filter_not_eq)
  then show ?thesis using assms by (auto simp: timers_ok_def distinct_removeAll)
qed

lemma CoreSetTimer_steady:
  assumes P: "driver_ok P" and s: "steady s" and r: "CoreSetTimer P ev delay time s = Some (status, s')"
  shows "steady s' \<and> gEfiCurrentTpl s' = gEfiCurrentTpl s"
proof (cases "ev = 0 \<or> (\<exists>e. Events s ev = Some e \<and> (Signature e \<noteq> EVENT_SIGNATURE \<or> delay > TimerRelative \<or> EventType e AND EVT_TIMER = 0))")
  case True
  then have "CoreSetTimer P ev delay time s = Some (EFI_INVALID_PARAMETER, s)" by (auto simp: CoreSetTimer_def)
  then show ?thesis using r s by simp
next
  case False
  then obtain e where e: "Events s ev = Some e" "Signature e = EVENT_SIGNATURE" "\<not> delay > TimerRelative" "EventType e AND EVT_TIMER \<noteq> 0"
    using r by (cases "Events s ev") (auto simp: CoreSetTimer_def)
  have eq: "CoreSetTimer P ev delay time s = do {
          s \<leftarrow> AcquireTimerLock P s;
          s \<leftarrow> UpdateEvent ev (\<lambda>e. e\<lparr>TriggerTime := 0, Period := 0\<rparr>) (s\<lparr>mEfiTimerList := removeAll ev (mEfiTimerList s)\<rparr>);
          s \<leftarrow> (if delay \<noteq> TimerCancel then ArmTimer P ev delay time s else Some s);
          s \<leftarrow> ReleaseTimerLock (RunTpl P) s;
          Some (EFI_SUCCESS, s) }" unfolding CoreSetTimer_def using False e by simp
  obtain t u v where t: "AcquireTimerLock P s = Some t"
    and u: "UpdateEvent ev (\<lambda>e. e\<lparr>TriggerTime := 0, Period := 0\<rparr>) (t\<lparr>mEfiTimerList := removeAll ev (mEfiTimerList t)\<rparr>) = Some u"
    and v: "(if delay \<noteq> TimerCancel then ArmTimer P ev delay time u else Some u) = Some v" and r2: "ReleaseTimerLock (RunTpl P) v = Some s'"
    using r unfolding eq bind_eq_Some_conv by auto
  have ok: "events_ok s" "unlocked s" using s by (simp_all add: steady_def)
  note a = AcquireTimerLock_Some [OF t ok(1)]
  let ?l = "taken 30 (gEfiCurrentTpl s)" and ?t = "t\<lparr>mEfiTimerList := removeAll ev (mEfiTimerList t)\<rparr>"
  have t2: "gEfiCurrentTpl t = 30" "mEfiTimerLock t = ?l" "gEventQueueLock t = gEventQueueLock s" "mEfiSystemTimeLock t = mEfiSystemTimeLock s"
    "Events t = Events s" by (subst a(1), simp)+
  have "events_ok ?t" using a(4) by (intro events_ok_timers timers_ok_removeAll) (simp_all add: events_ok_def)
  then have "arming ev ?l ?t" using t2 ok(2) e by (simp add: arming_def unlocked_def)
  then have "arming ev ?l u" by (rule arming_update [OF _ u]) (simp add: same_event_def)
  then have "run_before (CheckTimersLoop 0) v \<and> mEfiTimerLock v = ?l"
    using v ArmTimer_ok [OF P, of ev ?l u delay time v] by (auto simp: arming_def split: if_splits)
  then show ?thesis using release_timer [OF P _ _ r2] by simp
qed

subsection \<open>Creating and closing events\<close>

text \<open>The pool gives memory that is not in use.\<close>

definition pool_fresh :: "'e DXE_PLATFORM \<Rightarrow> 'e dxe_events \<Rightarrow> bool" where
  "pool_fresh P s \<longleftrightarrow> (\<forall>runtime. Events s (fst (AllocateZeroPool P runtime (Drivers s))) = None)"

text \<open>The lists do not mind other events.\<close>

lemma lists_ok_cong:
  assumes q: "\<And>p x. p < 32 \<Longrightarrow> x \<in> set (q ! p) \<Longrightarrow> events' x = events x" and l: "\<And>x. x \<in> set l \<Longrightarrow> events' x = events x"
  shows "queues_ok events q bits \<Longrightarrow> queues_ok events' q bits" "signals_ok events l \<Longrightarrow> signals_ok events' l"
    "timers_ok events l \<Longrightarrow> timers_ok events' l"
proof -
  show "queues_ok events q bits \<Longrightarrow> queues_ok events' q bits" unfolding queues_ok_def using q by metis
  show "signals_ok events l \<Longrightarrow> signals_ok events' l" unfolding signals_ok_def using l by metis
  have "map (trigger events') l = map (trigger events) l" using l by (simp add: trigger_def)
  then show "timers_ok events l \<Longrightarrow> timers_ok events' l" unfolding timers_ok_def using l by metis
qed

lemma lists_live:
  assumes "events_ok s"
  shows "p < 32 \<Longrightarrow> x \<in> set (gEventQueue s ! p) \<Longrightarrow> Events s x \<noteq> None" "x \<in> set (gEventSignalQueue s) \<Longrightarrow> Events s x \<noteq> None"
    "x \<in> set (mEfiTimerList s) \<Longrightarrow> Events s x \<noteq> None"
  using assms by (fastforce simp: events_ok_def queues_ok_def, fastforce simp: events_ok_def signals_ok_def, fastforce simp: events_ok_def timers_ok_def)

lemma events_ok_new:
  assumes s: "events_ok s" and ev: "Events s ev = None" and e: "event_ok ev e"
  shows "events_ok (s\<lparr>Events := (Events s)(ev \<mapsto> e)\<rparr>)"
proof -
  have same: "((Events s)(ev \<mapsto> e)) x = Events s x" if "Events s x \<noteq> None" for x using that ev by auto
  have "queues_ok ((Events s)(ev \<mapsto> e)) (gEventQueue s) (gEventPending s)" "signals_ok ((Events s)(ev \<mapsto> e)) (gEventSignalQueue s)"
    "timers_ok ((Events s)(ev \<mapsto> e)) (mEfiTimerList s)"
    using lists_ok_cong [of "gEventQueue s" "(Events s)(ev \<mapsto> e)" "Events s" "gEventSignalQueue s"]
      lists_ok_cong [of "gEventQueue s" "(Events s)(ev \<mapsto> e)" "Events s" "mEfiTimerList s"] s same lists_live [OF s]
    by (simp_all add: events_ok_def)
  note l' = this
  have "\<forall>x f. ((Events s)(ev \<mapsto> e)) x = Some f \<longrightarrow> event_ok x f" using s e by (auto simp: events_ok_def)
  moreover have "\<exists>f. ((Events s)(ev \<mapsto> e)) (mEfiCheckTimerEvent s) = Some f \<and> check_event_ok f"
    using s same unfolding events_ok_def by (metis option.distinct(1))
  moreover have "((Events s)(ev \<mapsto> e)) (gIdleLoopEvent s) \<noteq> None" "set (RuntimeEvents s) \<subseteq> dom ((Events s)(ev \<mapsto> e))"
    using s by (auto simp: events_ok_def)
  ultimately show ?thesis using s l' unfolding events_ok_def by simp
qed

lemma EventTypeAndGroup_type:
  "EventTypeAndGroup ty guid = (ty', guid') \<Longrightarrow> ty \<in> set mEventTable \<Longrightarrow> ty' \<in> set mEventTable"
  by (auto simp: EventTypeAndGroup_def mEventTable_def split: option.splits if_splits)

lemma notifies_bits: "(ty :: UINT32) AND (EVT_NOTIFY_WAIT OR EVT_NOTIFY_SIGNAL) = 0 \<longleftrightarrow>
    ty AND EVT_NOTIFY_WAIT = 0 \<and> ty AND EVT_NOTIFY_SIGNAL = 0"
  by (simp add: bit.conj_disj_distrib or_eq_0_iff)

lemma CoreCreateEventInternal_steady:
  assumes P: "driver_ok P" and s: "steady s" "pool_fresh P s"
    and r: "CoreCreateEventInternal P ty tpl notify ctx guid stored s = Some (status, result, s')"
  shows "steady s' \<and> gEfiCurrentTpl s' = gEfiCurrentTpl s"
proof -
  obtain ty2 guid2 where tg: "EventTypeAndGroup ty guid = (ty2, guid2)" by (cases "EventTypeAndGroup ty guid")
  obtain ev d where ap: "AllocateZeroPool P (ty2 AND EVT_RUNTIME \<noteq> 0) (Drivers s) = (ev, d)" by (cases "AllocateZeroPool P (ty2 AND EVT_RUNTIME \<noteq> 0) (Drivers s)")
  let ?notifies = "ty2 AND (EVT_NOTIFY_WAIT OR EVT_NOTIFY_SIGNAL) \<noteq> 0"
  let ?refused = "\<not> stored \<or> ty \<notin> set mEventTable \<or> guid \<noteq> None \<and> (ty = EVT_SIGNAL_EXIT_BOOT_SERVICES \<or> ty = EVT_SIGNAL_VIRTUAL_ADDRESS_CHANGE) \<or>
    ?notifies \<and> (notify = None \<or> tpl \<le> TPL_APPLICATION \<or> tpl \<ge> TPL_HIGH_LEVEL)"
  let ?e = "if ?notifies then NewEvent ty2 tpl notify ctx guid2 else NewEvent ty2 0 None 0 guid2"
  let ?t = "s\<lparr>Drivers := d, Events := (Events s)(ev \<mapsto> ?e)\<rparr>"
  let ?u = "if ty2 AND EVT_RUNTIME \<noteq> 0 then ?t\<lparr>RuntimeEvents := RuntimeEvents ?t @ [ev]\<rparr> else ?t"
  have fine: "CoreCreateEventInternal P ty tpl notify ctx guid stored s =
      (if ev = 0 then Some (EFI_OUT_OF_RESOURCES, None, s\<lparr>Drivers := d\<rparr>)
       else do {
        s \<leftarrow> (if ty2 AND EVT_NOTIFY_SIGNAL \<noteq> 0 then do {
                s \<leftarrow> CoreAcquireEventLock P ?u;
                CoreReleaseEventLock (RunTpl P) (s\<lparr>gEventSignalQueue := ev # gEventSignalQueue s\<rparr>) }
              else Some ?u);
        Some (EFI_SUCCESS, Some ev, s) })" if n: "\<not> ?refused"
  proof -
    have n: "\<not> (\<not> stored \<or> ty \<notin> set mEventTable)"
      "\<not> (guid \<noteq> None \<and> (ty = EVT_SIGNAL_EXIT_BOOT_SERVICES \<or> ty = EVT_SIGNAL_VIRTUAL_ADDRESS_CHANGE))"
      "\<not> (?notifies \<and> (notify = None \<or> tpl \<le> TPL_APPLICATION \<or> tpl \<ge> TPL_HIGH_LEVEL))" using n by blast+
    show ?thesis unfolding CoreCreateEventInternal_def if_not_P [OF n(1)] if_not_P [OF n(2)] tg prod.case Let_def if_not_P [OF n(3)]
      by (cases ?notifies) (simp_all add: ap)
  qed
  consider "?refused" | "\<not> ?refused" "ev = 0" | "\<not> ?refused" "ev \<noteq> 0" by blast
  then show ?thesis
  proof cases
    case 1
    then have "CoreCreateEventInternal P ty tpl notify ctx guid stored s = Some (EFI_INVALID_PARAMETER, None, s)"
      by (elim disjE) (simp_all add: CoreCreateEventInternal_def tg)
    then show ?thesis using r s by simp
  next
    case 2
    then have "CoreCreateEventInternal P ty tpl notify ctx guid stored s = Some (EFI_OUT_OF_RESOURCES, None, s\<lparr>Drivers := d\<rparr>)"
      using fine by simp
    then show ?thesis using r s(1) by (simp add: steady_def unlocked_def drained_def)
  next
    case 3
    define u where "u = ?u"
    have eq: "CoreCreateEventInternal P ty tpl notify ctx guid stored s = do {
        s \<leftarrow> (if ty2 AND EVT_NOTIFY_SIGNAL \<noteq> 0 then do {
                s \<leftarrow> CoreAcquireEventLock P u;
                CoreReleaseEventLock (RunTpl P) (s\<lparr>gEventSignalQueue := ev # gEventSignalQueue s\<rparr>) }
              else Some u);
        Some (EFI_SUCCESS, Some ev, s) }"
      by (rule fine [OF 3(1), unfolded if_not_P [OF 3(2)], folded u_def])
    have ok: "events_ok s" "unlocked s" "drained (gEfiCurrentTpl s) s" using s(1) by (simp_all add: steady_def)
    have "Events s (fst (AllocateZeroPool P (ty2 AND EVT_RUNTIME \<noteq> 0) (Drivers s))) = None" using s(2) unfolding pool_fresh_def by blast
    then have new: "Events s ev = None" by (simp add: ap)
    have "event_ok ev ?e" using 3 by (auto simp: event_ok_def NewEvent_def notifiable_def notifies_bits)
    moreover have "events_ok (s\<lparr>Drivers := d, Events := (Events s)(ev \<mapsto> f)\<rparr>)" if "event_ok ev f" for f
      using events_ok_new [of "s\<lparr>Drivers := d\<rparr>" ev f] ok(1) new that by simp
    ultimately have t: "events_ok ?t" by blast
    then have u: "events_ok u" unfolding u_def by (auto simp: events_ok_def)
    have u2: "unlocked u" "drained (gEfiCurrentTpl s) u" "gEfiCurrentTpl u = gEfiCurrentTpl s" "Events u ev = Some ?e"
      "gEventSignalQueue u = gEventSignalQueue s" using ok(2,3) unfolding u_def by (simp_all add: unlocked_def drained_def)
    then have us: "steady u" using u by (simp add: steady_def)
    show ?thesis
    proof (cases "ty2 AND EVT_NOTIFY_SIGNAL = 0")
      case True
      then show ?thesis using r us u2(3) unfolding eq by auto
    next
      case False
      then obtain v where v: "CoreAcquireEventLock P u = Some v"
        "CoreReleaseEventLock (RunTpl P) (v\<lparr>gEventSignalQueue := ev # gEventSignalQueue v\<rparr>) = Some s'"
        using r unfolding eq by (auto simp: bind_eq_Some_conv)
      note a = acquire_event [OF v(1) u]
      have q: "gEventSignalQueue v = gEventSignalQueue s" "Events v ev = Some ?e" using a(5,6) u2(4,5) by (simp_all add: rest_def)
      have "ev \<notin> set (gEventSignalQueue s)" using ok(1) new unfolding events_ok_def signals_ok_def by auto
      moreover have "signals_ok (Events v) (gEventSignalQueue v)" using a(1) by (simp add: events_ok_def)
      moreover have "EventType ?e AND EVT_NOTIFY_SIGNAL \<noteq> 0" using False by (simp add: NewEvent_def)
      ultimately have "signals_ok (Events v) (ev # gEventSignalQueue v)" using q unfolding signals_ok_def by auto
      then have "events_ok (v\<lparr>gEventSignalQueue := ev # gEventSignalQueue v\<rparr>)" using a(1) by (simp add: events_ok_def)
      from locked_change [OF P us v(1) this _ _ _ v(2)] show ?thesis using u2(3) by simp
    qed
  qed
qed

text \<open>An event that is in no list can go.\<close>

lemma events_ok_free:
  assumes s: "events_ok s" and q: "\<And>p. p < 32 \<Longrightarrow> ev \<notin> set (gEventQueue s ! p)"
    and l: "ev \<notin> set (gEventSignalQueue s)" "ev \<notin> set (mEfiTimerList s)" "ev \<notin> set (RuntimeEvents s)"
    and core: "ev \<noteq> mEfiCheckTimerEvent s" "ev \<noteq> gIdleLoopEvent s"
  shows "events_ok (s\<lparr>Events := (Events s)(ev := None)\<rparr>)"
proof -
  have same: "((Events s)(ev := None)) x = Events s x" if "x \<noteq> ev" for x using that by simp
  have "queues_ok ((Events s)(ev := None)) (gEventQueue s) (gEventPending s)"
    by (rule lists_ok_cong(1) [where events = "Events s" and l = "[]"]) (use s q same in \<open>auto simp: events_ok_def\<close>)
  moreover have "signals_ok ((Events s)(ev := None)) (gEventSignalQueue s)"
    by (rule lists_ok_cong(2) [where events = "Events s" and q = "replicate 32 []"]) (use s l same in \<open>auto simp: events_ok_def\<close>)
  moreover have "timers_ok ((Events s)(ev := None)) (mEfiTimerList s)"
    by (rule lists_ok_cong(3) [where events = "Events s" and q = "replicate 32 []"]) (use s l same in \<open>auto simp: events_ok_def\<close>)
  ultimately show ?thesis using s l core by (auto simp: events_ok_def)
qed

text \<open>Cancelling a timer runs nothing: its lock is released to the priority from before.\<close>

lemma CoreSetTimer_cancel:
  assumes P: "driver_ok P" and s: "steady s" and e: "Events s ev = Some e" "EventType e AND EVT_TIMER \<noteq> 0"
    and r: "CoreSetTimer P ev TimerCancel 0 s = Some (status, s')"
  shows "steady s'" "gEfiCurrentTpl s' = gEfiCurrentTpl s" "Events s' = (Events s)(ev \<mapsto> e\<lparr>TriggerTime := 0, Period := 0\<rparr>)"
    "mEfiTimerList s' = removeAll ev (mEfiTimerList s)" "mEfiCheckTimerEvent s' = mEfiCheckTimerEvent s" "gIdleLoopEvent s' = gIdleLoopEvent s"
proof -
  have ok: "events_ok s" "unlocked s" "drained (gEfiCurrentTpl s) s" using s by (simp_all add: steady_def)
  have sig: "ev \<noteq> 0" "Signature e = EVENT_SIGNATURE" using ok(1) e(1) by (auto simp: events_ok_def event_ok_def)
  have eq: "CoreSetTimer P ev TimerCancel 0 s = do {
          s \<leftarrow> AcquireTimerLock P s;
          s \<leftarrow> UpdateEvent ev (\<lambda>e. e\<lparr>TriggerTime := 0, Period := 0\<rparr>) (s\<lparr>mEfiTimerList := removeAll ev (mEfiTimerList s)\<rparr>);
          s \<leftarrow> ReleaseTimerLock (RunTpl P) s;
          Some (EFI_SUCCESS, s) }" unfolding CoreSetTimer_def using sig e by (simp add: timer_delays)
  obtain t u where t: "AcquireTimerLock P s = Some t"
    and u: "UpdateEvent ev (\<lambda>e. e\<lparr>TriggerTime := 0, Period := 0\<rparr>) (t\<lparr>mEfiTimerList := removeAll ev (mEfiTimerList t)\<rparr>) = Some u"
    and r2: "ReleaseTimerLock (RunTpl P) u = Some s'"
    using r unfolding eq bind_eq_Some_conv by auto
  note a = AcquireTimerLock_Some [OF t ok(1)]
  have t2: "mEfiTimerLock t = taken 30 (gEfiCurrentTpl s)" "Events t = Events s" "mEfiTimerList t = mEfiTimerList s" "gEventPending t = gEventPending s"
    "mEfiCheckTimerEvent t = mEfiCheckTimerEvent s" "gIdleLoopEvent t = gIdleLoopEvent s" by (subst a(1), simp)+
  have u2: "u = t\<lparr>mEfiTimerList := removeAll ev (mEfiTimerList s), Events := (Events s)(ev \<mapsto> e\<lparr>TriggerTime := 0, Period := 0\<rparr>)\<rparr>"
    using u e(1) t2 by (simp add: UpdateEvent_def)
  note k = CoreSetTimer_steady [OF P s r]
  then show "steady s'" "gEfiCurrentTpl s' = gEfiCurrentTpl s" by simp_all
  let ?u = "u\<lparr>mEfiTimerLock := (taken 30 (gEfiCurrentTpl s))\<lparr>Acquired := False\<rparr>\<rparr>"
  have rt: "RunTpl P (RestoreTpl (gEfiCurrentTpl s)) ?u = Some s'" using r2 t2(1) u2 by (simp add: ReleaseTimerLock_def)
  have "events_ok (t\<lparr>mEfiTimerList := removeAll ev (mEfiTimerList t)\<rparr>)"
    using a(4) by (intro events_ok_timers timers_ok_removeAll) (simp_all add: events_ok_def)
  then have "events_ok u" by (rule UpdateEvent_ok(1) [OF _ u]) (use ok(1) t2(2) in \<open>auto simp: same_event_def events_ok_def event_ok_def\<close>)
  then have "events_ok ?u" using a(4) t2(1) by (simp add: events_ok_def)
  moreover have "may_lower (gEfiCurrentTpl s) ?u" using ok(2) unfolding u2 by (subst a(1)) (simp add: may_lower_def unlocked_def)
  ultimately have "run_before (RestoreTpl (gEfiCurrentTpl s)) ?u" by simp
  moreover have "drained (gEfiCurrentTpl s) ?u" using ok(3) t2(4) unfolding u2 by (simp add: drained_def)
  ultimately have f: "s' = ?u\<lparr>gEfiCurrentTpl := gEfiCurrentTpl s, Interrupts := Interrupts s'\<rparr>" using core.run_keeps [OF P rt] by simp
  show "Events s' = (Events s)(ev \<mapsto> e\<lparr>TriggerTime := 0, Period := 0\<rparr>)" "mEfiTimerList s' = removeAll ev (mEfiTimerList s)"
    "mEfiCheckTimerEvent s' = mEfiCheckTimerEvent s" "gIdleLoopEvent s' = gIdleLoopEvent s"
    by (subst f, simp add: u2 t2)+
qed

text \<open>A closed event is in no list any more.\<close>

lemma unlink_event:
  assumes P: "driver_ok P" and s: "steady s" and l: "ev \<notin> set (mEfiTimerList s)" and a: "CoreAcquireEventLock P s = Some u"
    and r: "CoreReleaseEventLock (RunTpl P) (u\<lparr>RuntimeEvents := removeAll ev (RuntimeEvents u),
      gEventQueue := map (removeAll ev) (gEventQueue u), gEventSignalQueue := removeAll ev (gEventSignalQueue u)\<rparr>) = Some v"
  shows "steady v" "gEfiCurrentTpl v = gEfiCurrentTpl s" "Events v = Events s" "p < 32 \<Longrightarrow> ev \<notin> set (gEventQueue v ! p)"
    "ev \<notin> set (gEventSignalQueue v)" "ev \<notin> set (mEfiTimerList v)" "ev \<notin> set (RuntimeEvents v)"
    "mEfiCheckTimerEvent v = mEfiCheckTimerEvent s" "gIdleLoopEvent v = gIdleLoopEvent s"
proof -
  have ok: "events_ok s" "unlocked s" "drained (gEfiCurrentTpl s) s" using s by (simp_all add: steady_def)
  note u = acquire_event [OF a ok(1)]
  let ?w = "u\<lparr>RuntimeEvents := removeAll ev (RuntimeEvents u), gEventQueue := map (removeAll ev) (gEventQueue u),
     gEventSignalQueue := removeAll ev (gEventSignalQueue u)\<rparr>"
  have q: "queues_ok (Events u) (gEventQueue u) (gEventPending u)" using u(1) by (simp add: events_ok_def)
  have len: "length (gEventQueue u) = 32" using q by (simp add: queues_ok_def)
  have "removeAll ev l \<noteq> [] \<Longrightarrow> l \<noteq> []" for l :: "EFI_EVENT list" by auto
  then have "queues_ok (Events u) (map (removeAll ev) (gEventQueue u)) (gEventPending u)"
    using q len unfolding queues_ok_def by (simp add: distinct_removeAll)
  moreover have "signals_ok (Events u) (removeAll ev (gEventSignalQueue u))" using u(1) by (simp add: events_ok_def signals_ok_def distinct_removeAll)
  moreover have "set (removeAll ev (RuntimeEvents u)) \<subseteq> dom (Events u)" using u(1) by (auto simp: events_ok_def)
  ultimately have w: "events_ok ?w" using u(1) by (simp add: events_ok_def)
  have "gEventQueueLock ?w = taken 31 (gEfiCurrentTpl s)" "mEfiTimerLock ?w = mEfiTimerLock s" "mEfiSystemTimeLock ?w = mEfiSystemTimeLock s"
    using u(3,5) by (simp_all add: rest_def)
  moreover have "drained (gEfiCurrentTpl s) ?w" using ok(3) u(8) by (simp add: drained_def)
  ultimately have e: "steady v" "gEfiCurrentTpl v = gEfiCurrentTpl s" "rest v = rest ?w \<and> Events v = Events ?w \<and> gEventQueue v = gEventQueue ?w"
    using core.release_event [OF P r w] ok(2) by (simp_all add: steady_def unlocked_def lock_kept_def)
  then show "steady v" "gEfiCurrentTpl v = gEfiCurrentTpl s" by simp_all
  show "Events v = Events s" "p < 32 \<Longrightarrow> ev \<notin> set (gEventQueue v ! p)"
    "ev \<notin> set (gEventSignalQueue v)" "ev \<notin> set (mEfiTimerList v)" "ev \<notin> set (RuntimeEvents v)"
    "mEfiCheckTimerEvent v = mEfiCheckTimerEvent s" "gIdleLoopEvent v = gIdleLoopEvent s"
    using e(3) u(5,6) len l by (simp_all add: rest_def)
qed

lemma CoreCloseEvent_steady:
  fixes s s' :: "'e dxe_events"
  assumes P: "driver_ok P" and s: "steady s" and core: "ev \<noteq> mEfiCheckTimerEvent s" "ev \<noteq> gIdleLoopEvent s"
    and r: "CoreCloseEvent P ev s = Some (status, s')"
  shows "steady s' \<and> gEfiCurrentTpl s' = gEfiCurrentTpl s \<and> (if Events s ev = None then s' = s else Events s' ev = None)"
proof (cases "ev = 0 \<or> (\<exists>e. Events s ev = Some e \<and> Signature e \<noteq> EVENT_SIGNATURE)")
  case True
  then have "CoreCloseEvent P ev s = Some (EFI_INVALID_PARAMETER, s)" by (auto simp: CoreCloseEvent_def)
  moreover have "Events s ev = None" using s True unfolding steady_def events_ok_def event_ok_def by (cases "Events s ev") blast+
  ultimately show ?thesis using r s by simp
next
  case False
  then obtain e where e: "Events s ev = Some e" "Signature e = EVENT_SIGNATURE"
    using r by (cases "Events s ev") (auto simp: CoreCloseEvent_def)
  define finish where "finish = (\<lambda>s :: 'e dxe_events. do { e \<leftarrow> Events s ev;
     let s = (if ExFlag e AND EVT_EXFLAG_EVENT_PROTOCOL_NOTIFICATION \<noteq> 0 then s\<lparr>Drivers := UnregisterProtocolNotify P ev (Drivers s)\<rparr> else s);
     case FreeEvent P ev (Drivers s) of (status, drivers) \<Rightarrow>
       if status AND EFI_ERROR_BIT \<noteq> 0 then None else Some (status, s\<lparr>Drivers := drivers, Events := (Events s)(ev := None)\<rparr>) })"
  have eq: "CoreCloseEvent P ev s = do {
     s \<leftarrow> (if EventType e AND EVT_TIMER \<noteq> 0 then do { (_, s) \<leftarrow> CoreSetTimer P ev TimerCancel 0 s; Some s } else Some s);
     s \<leftarrow> CoreAcquireEventLock P s;
     _ \<leftarrow> Events s ev;
     s \<leftarrow> CoreReleaseEventLock (RunTpl P) (s\<lparr>RuntimeEvents := removeAll ev (RuntimeEvents s),
        gEventQueue := map (removeAll ev) (gEventQueue s), gEventSignalQueue := removeAll ev (gEventSignalQueue s)\<rparr>);
     finish s }" unfolding CoreCloseEvent_def finish_def using False e by simp
  obtain t u v where t: "(if EventType e AND EVT_TIMER \<noteq> 0 then do { (_, s) \<leftarrow> CoreSetTimer P ev TimerCancel 0 s; Some s } else Some s) = Some t"
    and u: "CoreAcquireEventLock P t = Some u" and v: "CoreReleaseEventLock (RunTpl P) (u\<lparr>RuntimeEvents := removeAll ev (RuntimeEvents u),
      gEventQueue := map (removeAll ev) (gEventQueue u), gEventSignalQueue := removeAll ev (gEventSignalQueue u)\<rparr>) = Some v"
    and f: "finish v = Some (status, s')"
    using r unfolding eq bind_eq_Some_conv by blast
  have t2: "steady t" "gEfiCurrentTpl t = gEfiCurrentTpl s" "ev \<notin> set (mEfiTimerList t)" "mEfiCheckTimerEvent t = mEfiCheckTimerEvent s"
    "gIdleLoopEvent t = gIdleLoopEvent s"
  proof -
    have "steady t \<and> gEfiCurrentTpl t = gEfiCurrentTpl s \<and> ev \<notin> set (mEfiTimerList t) \<and> mEfiCheckTimerEvent t = mEfiCheckTimerEvent s \<and>
      gIdleLoopEvent t = gIdleLoopEvent s"
    proof (cases "EventType e AND EVT_TIMER = 0")
      case True
      have "timers_ok (Events s) (mEfiTimerList s)" using s by (simp add: steady_def events_ok_def)
      then have "ev \<notin> set (mEfiTimerList s)" using e(1) True by (auto simp: timers_ok_def)
      moreover have "t = s" using t True by simp
      ultimately show ?thesis using s by blast
    next
      case False
      obtain st where st: "CoreSetTimer P ev TimerCancel 0 s = Some (st, t)" using t False by (cases "CoreSetTimer P ev TimerCancel 0 s") auto
      show ?thesis using CoreSetTimer_cancel [OF P s e(1) False st] by simp
    qed
    then show "steady t" "gEfiCurrentTpl t = gEfiCurrentTpl s" "ev \<notin> set (mEfiTimerList t)" "mEfiCheckTimerEvent t = mEfiCheckTimerEvent s"
      "gIdleLoopEvent t = gIdleLoopEvent s" by simp_all
  qed
  note w = unlink_event [OF P t2(1,3) u v]
  obtain d where d: "s' = v\<lparr>Drivers := d, Events := (Events v)(ev := None)\<rparr>"
    using f by (cases "Events v ev") (auto simp: finish_def Let_def case_prod_beta split: if_splits)
  have "events_ok (v\<lparr>Events := (Events v)(ev := None)\<rparr>)"
    by (rule events_ok_free) (use w t2 core in \<open>auto simp: steady_def\<close>)
  then have "events_ok s'" unfolding d by (simp add: events_ok_def)
  then show ?thesis using w(1,2) t2(2) e(1) unfolding d by (simp add: steady_def unlocked_def drained_def)
qed

subsection \<open>All services\<close>

inductive event_service :: "'e DXE_PLATFORM \<Rightarrow> 'e dxe_events \<Rightarrow> 'e dxe_events \<Rightarrow> bool" for P where
  raise: "CoreRaiseTpl P t s = Some (old, s') \<Longrightarrow> event_service P s s'"
| restore: "RunTpl P (RestoreTpl t) s = Some s' \<Longrightarrow> event_service P s s'"
| create: "pool_fresh P s \<Longrightarrow> CoreCreateEventInternal P ty tpl notify ctx guid stored s = Some (status, ev, s') \<Longrightarrow> event_service P s s'"
| signal: "CoreSignalEvent (RunTpl P) P ev s = Some (status, s') \<Longrightarrow> event_service P s s'"
| signal_group: "CoreNotifySignalList (RunTpl P) P guid s = Some s' \<Longrightarrow> event_service P s s'"
| check: "CoreCheckEvent P ev s = Some (status, s') \<Longrightarrow> event_service P s s'"
| wait: "CoreWaitForEvent P n evs s = Some (status, i, s') \<Longrightarrow> event_service P s s'"
| set_timer: "CoreSetTimer P ev delay time s = Some (status, s') \<Longrightarrow> event_service P s s'"
| tick: "CoreTimerTick P duration s = Some s' \<Longrightarrow> event_service P s s'"
| close_event: "ev \<noteq> mEfiCheckTimerEvent s \<Longrightarrow> ev \<noteq> gIdleLoopEvent s \<Longrightarrow> CoreCloseEvent P ev s = Some (status, s') \<Longrightarrow> event_service P s s'"

lemma event_service_steady: "event_service P s s' \<Longrightarrow> driver_ok P \<Longrightarrow> steady s \<Longrightarrow> steady s'"
  by (induction rule: event_service.induct)
    (blast dest: CoreRaiseTpl_steady RestoreTpl_steady CoreCreateEventInternal_steady CoreSignalEvent_steady CoreNotifySignalList_steady
      CoreCheckEvent_steady CoreWaitForEvent_steady CoreSetTimer_steady CoreTimerTick_steady CoreCloseEvent_steady)+

lemma event_services_steady: "(event_service P)\<^sup>*\<^sup>* s s' \<Longrightarrow> driver_ok P \<Longrightarrow> steady s \<Longrightarrow> steady s'"
  by (induction rule: rtranclp_induct) (auto intro: event_service_steady)

end
