(* ===== verification/DxeEventOrder.thy ===== *)
theory DxeEventOrder
  imports DxeEventServices
begin

text \<open>
  The order of notifications: with drivers whose functions use none of these services, lowering the priority
  always returns, and runs exactly what was pending above the new one, from the highest priority down and
  within a priority in the order of the queue.
\<close>

subsection \<open>What returns\<close>

lemma restore_total:
  assumes "gEfiCurrentTpl s \<le> 31" "t \<le> gEfiCurrentTpl s" "drained t s"
  shows "\<exists>s'. RunTpl P (RestoreTpl t) s = Some s'"
proof -
  have loop: "RunTpl P (RestoreTplLoop t) x = Some x" if "gEventPending x = gEventPending s" for x
  proof (cases "HighBitSet64 (gEventPending s)")
    case None
    then show ?thesis using that by (simp add: RunTpl_eqs RestoreTpl_step_def)
  next
    case (Some i)
    then have "bit (gEventPending s) i" by (simp add: HighBitSet64_top top_bit_def)
    then have "i \<le> unat t" using assms(3) unfolding drained_def by (meson leI)
    moreover have "unat t \<le> 31" using assms(1,2) by (simp add: word_le_nat_alt)
    ultimately have "(of_nat i :: UINTN) \<le> t" by (simp add: word_le_nat_alt unat_of_nat_lt)
    then show ?thesis using that Some by (simp add: RunTpl_eqs RestoreTpl_step_def)
  qed
  show ?thesis using assms(1,2) loop by (simp add: RunTpl_eqs CoreRestoreTpl_def Let_def TPL_HIGH_LEVEL_def not_less order_trans)
qed

lemma acquire_total:
  assumes "events_ok s" "\<not> Acquired (gEventQueueLock s)"
  shows "\<exists>t. CoreAcquireEventLock P s = Some t"
  using assms by (auto simp: CoreAcquireEventLock_def CoreAcquireLock_def CoreRaiseTpl_def Let_def TPL_HIGH_LEVEL_def events_ok_def not_less)

lemma release_total:
  assumes "gEventQueueLock s = taken 31 owner" "gEfiCurrentTpl s = 31" "owner \<le> 31" "drained owner s"
  shows "\<exists>s'. CoreReleaseEventLock (RunTpl P) s = Some s'"
proof -
  have "drained owner (s\<lparr>gEventQueueLock := (taken 31 owner)\<lparr>Acquired := False\<rparr>\<rparr>)" using assms(4) by (simp add: drained_def)
  then show ?thesis using restore_total [of "s\<lparr>gEventQueueLock := (taken 31 owner)\<lparr>Acquired := False\<rparr>\<rparr>" owner P] assms(1-3)
    by (simp add: CoreReleaseEventLock_def)
qed

subsection \<open>Drivers that only work on their own state\<close>

definition own_state :: "'e DXE_PLATFORM \<Rightarrow> (ptr \<Rightarrow> EFI_EVENT \<Rightarrow> ptr \<Rightarrow> 'e \<Rightarrow> 'e) \<Rightarrow> bool" where
  "own_state P F \<longleftrightarrow> (\<forall>f ev ctx s. Notify P f ev ctx s = Some (s\<lparr>Drivers := F f ev ctx (Drivers s)\<rparr>))"

lemma own_state_driver_ok: "own_state P F \<Longrightarrow> driver_ok P"
  by (auto simp: own_state_def driver_ok_def unlocked_def)

text \<open>The effect of one notification on the drivers, and on the event itself.\<close>

definition deliver :: "(ptr \<Rightarrow> EFI_EVENT \<Rightarrow> ptr \<Rightarrow> 'e \<Rightarrow> 'e) \<Rightarrow> (EFI_EVENT \<rightharpoonup> IEVENT) \<Rightarrow> EFI_EVENT \<Rightarrow> 'e \<Rightarrow> 'e" where
  "deliver F events ev d = (case events ev of
     Some e \<Rightarrow> (case NotifyFunction e of Some (DriverFunction f) \<Rightarrow> F f ev (NotifyContext e) d | _ \<Rightarrow> d)
   | None \<Rightarrow> d)"

definition taken_off :: "EFI_EVENT \<Rightarrow> (EFI_EVENT \<rightharpoonup> IEVENT) \<Rightarrow> (EFI_EVENT \<rightharpoonup> IEVENT)" where
  "taken_off ev events = (case events ev of
     Some e \<Rightarrow> events(ev \<mapsto> (if EventType e AND EVT_NOTIFY_SIGNAL \<noteq> 0 then e\<lparr>SignalCount := 0\<rparr> else e))
   | None \<Rightarrow> events)"

text \<open>No event of the core's own timer check is among them.\<close>

definition drivers_only :: "(EFI_EVENT \<rightharpoonup> IEVENT) \<Rightarrow> EFI_EVENT list \<Rightarrow> bool" where
  "drivers_only events evs \<longleftrightarrow> (\<forall>ev \<in> set evs. \<forall>e. events ev = Some e \<longrightarrow> NotifyFunction e \<noteq> Some CheckTimersFunction)"

lemma drivers_only_append: "drivers_only events (xs @ ys) \<longleftrightarrow> drivers_only events xs \<and> drivers_only events ys"
  by (auto simp: drivers_only_def)

definition same_events :: "(EFI_EVENT \<rightharpoonup> IEVENT) \<Rightarrow> (EFI_EVENT \<rightharpoonup> IEVENT) \<Rightarrow> bool" where
  "same_events events events' \<longleftrightarrow> (\<forall>x. map_option (\<lambda>e. (NotifyFunction e, NotifyContext e, EventGroup e)) (events' x) =
     map_option (\<lambda>e. (NotifyFunction e, NotifyContext e, EventGroup e)) (events x))"

lemma same_events_taken_off: "same_events events (taken_off ev events)"
  by (auto simp: same_events_def taken_off_def split: option.split)

lemma same_events_trans: "same_events a b \<Longrightarrow> same_events b c \<Longrightarrow> same_events a c"
  by (simp add: same_events_def)

lemma same_events_fold: "same_events events (fold taken_off evs events)"
proof (induction evs arbitrary: events)
  case (Cons ev evs)
  show ?case using same_events_trans [OF same_events_taken_off [of events ev] Cons.IH] by simp
qed (simp add: same_events_def)

lemma same_events_deliver: "same_events events events' \<Longrightarrow> deliver F events' ev = deliver F events ev"
proof
  fix d assume "same_events events events'"
  then have "map_option (\<lambda>e. (NotifyFunction e, NotifyContext e, EventGroup e)) (events' ev) = map_option (\<lambda>e. (NotifyFunction e, NotifyContext e, EventGroup e)) (events ev)"
    by (simp add: same_events_def)
  then show "deliver F events' ev d = deliver F events ev d"
    by (cases "events ev"; cases "events' ev") (auto simp: deliver_def split: option.splits EFI_EVENT_NOTIFY.splits)
qed

lemma same_events_drivers_only: "same_events events events' \<Longrightarrow> drivers_only events' evs = drivers_only events evs"
proof -
  assume s: "same_events events events'"
  have "(\<forall>e. events' x = Some e \<longrightarrow> NotifyFunction e \<noteq> n) \<longleftrightarrow> (\<forall>e. events x = Some e \<longrightarrow> NotifyFunction e \<noteq> n)" for x n
  proof -
    have "map_option (\<lambda>e. (NotifyFunction e, NotifyContext e, EventGroup e)) (events' x) = map_option (\<lambda>e. (NotifyFunction e, NotifyContext e, EventGroup e)) (events x)"
      using s by (simp add: same_events_def)
    then show ?thesis by (cases "events x"; cases "events' x") simp_all
  qed
  then show ?thesis by (simp add: drivers_only_def)
qed

subsection \<open>One priority\<close>

text \<open>The variables that no notification of such a driver touches.\<close>

definition settled_part :: "'e dxe_events \<Rightarrow> _" where
  "settled_part s = (gEventSignalQueue s, gIdleLoopEvent s, mEfiTimerList s, mEfiTimerLock s, mEfiCheckTimerEvent s, mEfiSystemTimeLock s,
     mEfiSystemTime s, RuntimeEvents s)"

lemma rest_parts: "rest s = rest t \<longleftrightarrow> settled_part s = settled_part t \<and> Drivers s = Drivers t"
  by (auto simp: rest_def settled_part_def)

lemma RunNotifyFunction_own_state:
  assumes "own_state P F" "NotifyFunction e \<noteq> None" "NotifyFunction e \<noteq> Some CheckTimersFunction"
  shows "RunNotifyFunction run P ev e s = Some (s\<lparr>Drivers := deliver F (\<lambda>_. Some e) ev (Drivers s)\<rparr>)"
proof -
  obtain n where n: "NotifyFunction e = Some n" using assms(2) by blast
  then show ?thesis using assms(1,3) by (cases n) (simp_all add: RunNotifyFunction_def deliver_def own_state_def)
qed

lemma DispatchEventNotifies_first:
  assumes P: "own_state P F" and s: "run_before (DispatchLoop p) s" "drained p s" and q: "gEventQueue s ! unat p = ev # link"
    and d: "drivers_only (Events s) [ev]"
  shows "\<exists>w. RunTpl P (DispatchLoop p) s = RunTpl P (DispatchLoop p) w \<and> run_before (DispatchLoop p) w \<and> drained p w \<and>
    gEventQueue w = (gEventQueue s)[unat p := link] \<and> gEventPending w = gEventPending s \<and> settled_part w = settled_part s \<and>
    Events w = taken_off ev (Events s) \<and> Drivers w = deliver F (Events s) ev (Drivers s)"
proof -
  note D = own_state_driver_ok [OF P]
  have p: "unat p < 32" "p < 31" using s(1) by (auto simp: word_less_nat_alt)
  have qs: "queues_ok (Events s) (gEventQueue s) (gEventPending s)" using s(1) by (simp add: events_ok_def)
  then obtain e where e: "Events s ev = Some e" "notifiable e" using p(1) q unfolding queues_ok_def by (metis list.set_intros(1))
  let ?e = "if EventType e AND EVT_NOTIFY_SIGNAL \<noteq> 0 then e\<lparr>SignalCount := 0\<rparr> else e"
  let ?s = "s\<lparr>gEventQueue := (gEventQueue s)[unat p := link]\<rparr>"
  let ?t = "?s\<lparr>Events := (Events s)(ev \<mapsto> ?e)\<rparr>"
  have ut: "UpdateEvent ev (\<lambda>e. if EventType e AND EVT_NOTIFY_SIGNAL \<noteq> 0 then e\<lparr>SignalCount := 0\<rparr> else e) ?s = Some ?t"
    using e(1) by (simp add: UpdateEvent_def)
  have "distinct (ev # link) \<and> bit (gEventPending s) (unat p) \<and>
      (\<forall>x \<in> set (ev # link). \<exists>e. Events s x = Some e \<and> notifiable e \<and> unat (NotifyTpl e) = unat p)"
    using qs p(1) q unfolding queues_ok_def by (metis list.distinct(1))
  then have "queues_ok (Events s) ((gEventQueue s)[unat p := link]) (gEventPending s)"
    using qs p(1) unfolding queues_ok_def by (auto simp: nth_list_update)
  then have s2: "events_ok ?s" using s(1) by (simp add: events_ok_def)
  have cnt: "SignalCount e \<le> 1" using s(1) e(1) by (auto simp: events_ok_def event_ok_def)
  have t2: "events_ok ?t" by (rule UpdateEvent_ok(1) [OF s2 ut]) (use cnt e(1) in \<open>auto simp: same_event_def\<close>)
  have t3: "gEventQueueLock ?t = taken 31 p" "gEfiCurrentTpl ?t = 31" "p \<le> 31" "drained p ?t" using s p(2) by (auto simp: drained_def)
  obtain u where u: "CoreReleaseEventLock (RunTpl P) ?t = Some u" using release_total [OF t3] by blast
  have "\<not> Acquired (mEfiTimerLock ?t)" "\<not> Acquired (mEfiSystemTimeLock ?t)" using s(1) by simp_all
  then have u': "events_ok u" "unlocked u" "gEfiCurrentTpl u = p" "drained p u" "rest u = rest ?t" "Events u = Events ?t"
    "gEventQueue u = gEventQueue ?t" "gEventPending u = gEventPending ?t"
    using core.release_event [OF D u t2 t3(1)] t3(4) by (simp_all add: unlocked_def lock_kept_def)
  have e2: "Events u ev = Some ?e" "NotifyFunction ?e \<noteq> None" "NotifyFunction ?e \<noteq> Some CheckTimersFunction"
    using u'(6) e d by (auto simp: notifiable_def drivers_only_def)
  let ?v = "u\<lparr>Drivers := deliver F (Events s) ev (Drivers u)\<rparr>"
  have "deliver F (\<lambda>_. Some ?e) ev = deliver F (Events s) ev" by (rule ext) (simp add: deliver_def e(1) split: option.split EFI_EVENT_NOTIFY.split)
  then have v: "RunNotifyFunction (RunTpl P) P ev ?e u = Some ?v" using RunNotifyFunction_own_state [OF P e2(2,3)] by simp
  have v2: "events_ok ?v" "\<not> Acquired (gEventQueueLock ?v)" using u'(1,2) by (simp_all add: unlocked_def)
  obtain w where w: "CoreAcquireEventLock P ?v = Some w" using acquire_total [OF v2] by blast
  note a = acquire_event [OF w v2(1)]
  have "RunTpl P (DispatchLoop p) s = RunTpl P (DispatchLoop p) w"
    by (subst RunTpl_eqs(3)) (simp add: DispatchEventNotifies_step_def q ut u e2(1) v w)
  moreover have "run_before (DispatchLoop p) w" using a u'(2,3) p(2) by (simp add: rest_def unlocked_def)
  moreover have "drained p w" using a(8) u'(4) by (simp add: drained_def)
  moreover have "rest w = rest ?v" using a(5) .
  ultimately show ?thesis using a u'(5-8) e(1) by (intro exI [of _ w]) (simp add: rest_def settled_part_def taken_off_def)
qed

lemma DispatchLoop_order:
  assumes P: "own_state P F"
  shows "run_before (DispatchLoop p) s \<Longrightarrow> drained p s \<Longrightarrow> gEventQueue s ! unat p = evs \<Longrightarrow> drivers_only (Events s) evs \<Longrightarrow>
    \<exists>w. RunTpl P (DispatchLoop p) s = Some w \<and> run_before (DispatchLoop p) w \<and> drained p w \<and>
    gEventQueue w = (gEventQueue s)[unat p := []] \<and> gEventPending w = gEventPending s \<and> settled_part w = settled_part s \<and>
    Events w = fold taken_off evs (Events s) \<and> Drivers w = fold (deliver F (Events s)) evs (Drivers s)"
proof (induction evs arbitrary: s)
  case Nil
  then have "(gEventQueue s)[unat p := []] = gEventQueue s" by (metis list_update_id)
  then show ?case using Nil by (intro exI [of _ s]) (simp add: RunTpl_eqs(3) DispatchEventNotifies_step_def)
next
  case (Cons ev link)
  have "drivers_only (Events s) [ev]" "drivers_only (Events s) link" using Cons.prems(4) by (simp_all add: drivers_only_def)
  then obtain w where w: "RunTpl P (DispatchLoop p) s = RunTpl P (DispatchLoop p) w" "run_before (DispatchLoop p) w" "drained p w"
    "gEventQueue w = (gEventQueue s)[unat p := link]" "gEventPending w = gEventPending s" "settled_part w = settled_part s"
    "Events w = taken_off ev (Events s)" "Drivers w = deliver F (Events s) ev (Drivers s)" "drivers_only (Events w) link"
    using DispatchEventNotifies_first [OF P Cons.prems(1-3)] same_events_drivers_only [OF same_events_taken_off] by metis
  have "unat p < length (gEventQueue s)" using Cons.prems(1) by (simp add: events_ok_def queues_ok_def word_less_nat_alt)
  then have "gEventQueue w ! unat p = link" using w(4) by simp
  from Cons.IH [OF w(2,3) this w(9)] obtain x where x: "RunTpl P (DispatchLoop p) w = Some x" "run_before (DispatchLoop p) x" "drained p x"
    "gEventQueue x = (gEventQueue w)[unat p := []]" "gEventPending x = gEventPending w" "settled_part x = settled_part w"
    "Events x = fold taken_off link (Events w)" "Drivers x = fold (deliver F (Events w)) link (Drivers w)" by blast
  have "deliver F (Events w) = deliver F (Events s)" using same_events_deliver [OF same_events_taken_off] w(7) by (metis ext)
  then show ?case using w x by (intro exI [of _ x]) simp
qed

lemma CoreDispatchEventNotifies_order:
  assumes P: "own_state P F" and s: "events_ok s" "unlocked s" "gEfiCurrentTpl s = p" "p < 31" "drained p s"
    and d: "drivers_only (Events s) (gEventQueue s ! unat p)"
  shows "\<exists>w b. CoreDispatchEventNotifies (RunTpl P) P p s = Some w \<and> events_ok w \<and> unlocked w \<and> PendingBit p = Some b \<and>
    gEventPending w = gEventPending s AND NOT b \<and> gEventQueue w = (gEventQueue s)[unat p := []] \<and> settled_part w = settled_part s \<and>
    Events w = fold taken_off (gEventQueue s ! unat p) (Events s) \<and>
    Drivers w = fold (deliver F (Events s)) (gEventQueue s ! unat p) (Drivers s)"
proof -
  note D = own_state_driver_ok [OF P]
  have "\<not> Acquired (gEventQueueLock s)" using s(2) by (simp add: unlocked_def)
  then obtain t where t: "CoreAcquireEventLock P s = Some t" using acquire_total [OF s(1)] by blast
  note a = acquire_event [OF t s(1)]
  have t2: "run_before (DispatchLoop p) t" "drained p t" "drivers_only (Events t) (gEventQueue t ! unat p)"
    using a s d by (simp_all add: rest_def unlocked_def drained_def)
  obtain u where u: "RunTpl P (DispatchLoop p) t = Some u" "run_before (DispatchLoop p) u" "drained p u"
    "gEventQueue u = (gEventQueue t)[unat p := []]" "gEventPending u = gEventPending t" "settled_part u = settled_part t"
    "Events u = fold taken_off (gEventQueue t ! unat p) (Events t)" "Drivers u = fold (deliver F (Events t)) (gEventQueue t ! unat p) (Drivers t)"
    using DispatchLoop_order [OF P t2(1,2) refl t2(3)] by blast
  obtain b where b: "PendingBit p = Some b" using s(4) by (simp add: PendingBit_def)
  let ?u = "u\<lparr>gEventPending := gEventPending u AND NOT b\<rparr>"
  have len: "unat p < length (gEventQueue s)" "length (gEventQueue s) = 32"
    using s(1,4) by (simp_all add: events_ok_def queues_ok_def word_less_nat_alt)
  have "gEventQueue u ! unat p = []" using u(4) a(7) len by simp
  moreover have "queues_ok (Events u) (gEventQueue u) (gEventPending u)" using u(2) by (simp add: events_ok_def)
  ultimately have "queues_ok (Events u) (gEventQueue u) (gEventPending u AND NOT b)"
    unfolding queues_ok_def by (auto simp: bit_simps bit_PendingBit [OF b])
  then have u2: "events_ok ?u" "gEventQueueLock ?u = taken 31 p" "gEfiCurrentTpl ?u = 31" "p \<le> 31" using u(2) s(4) by (simp_all add: events_ok_def)
  have u3: "drained p ?u" using u(3) by (simp add: drained_def bit_simps)
  obtain w where w: "CoreReleaseEventLock (RunTpl P) ?u = Some w" using release_total [OF u2(2-4) u3] by blast
  have "\<not> Acquired (mEfiTimerLock ?u)" "\<not> Acquired (mEfiSystemTimeLock ?u)" using u(2) by simp_all
  then have w2: "events_ok w" "unlocked w" "rest w = rest ?u" "Events w = Events ?u" "gEventQueue w = gEventQueue ?u" "gEventPending w = gEventPending ?u"
    using core.release_event [OF D w u2(1,2)] u3 by (simp_all add: unlocked_def lock_kept_def)
  have "settled_part t = settled_part s" "Drivers t = Drivers s" "settled_part w = settled_part u" "Drivers w = Drivers u"
    using a(5) w2(3) by (simp_all add: rest_def settled_part_def)
  moreover have "CoreDispatchEventNotifies (RunTpl P) P p s = Some w"
    using t a(3,7) s(3) len(1) u(1) b w by (simp add: CoreDispatchEventNotifies_def)
  ultimately show ?thesis using w2 b u a by (intro exI [of _ w] exI [of _ b]) simp
qed

subsection \<open>All priorities above the new one\<close>

text \<open>The events that wait at the priorities from \<open>lo\<close> to below \<open>hi\<close>, in the order in which they are notified.\<close>

definition waiting :: "EFI_EVENT list list \<Rightarrow> nat \<Rightarrow> nat \<Rightarrow> EFI_EVENT list" where
  "waiting queues lo hi = concat (map (\<lambda>p. queues ! p) (rev [lo..<hi]))"

lemma waiting_step: "lo \<le> i \<Longrightarrow> i < hi \<Longrightarrow> \<forall>p. i < p \<and> p < hi \<longrightarrow> queues ! p = [] \<Longrightarrow>
  waiting queues lo hi = queues ! i @ waiting queues lo i"
proof -
  assume a: "lo \<le> i" "i < hi" "\<forall>p. i < p \<and> p < hi \<longrightarrow> queues ! p = []"
  have "[lo..<i + (hi - i)] = [lo..<i] @ [i..<i + (hi - i)]" by (rule upt_add_eq_append) (rule a(1))
  then have "[lo..<hi] = [lo..<i] @ [i] @ [Suc i..<hi]" using a(2) by (simp add: upt_conv_Cons)
  moreover have "concat (map (\<lambda>p. queues ! p) (rev [Suc i..<hi])) = []" using a(3) by auto
  ultimately show ?thesis by (simp add: waiting_def)
qed

lemma waiting_none: "\<forall>p. lo \<le> p \<and> p < hi \<longrightarrow> queues ! p = [] \<Longrightarrow> waiting queues lo hi = []"
  by (auto simp: waiting_def)

lemma waiting_update: "hi \<le> p \<Longrightarrow> waiting (queues[p := l]) lo hi = waiting queues lo hi"
proof -
  assume "hi \<le> p"
  then have "map (\<lambda>i. queues[p := l] ! i) (rev [lo..<hi]) = map (\<lambda>i. queues ! i) (rev [lo..<hi])" by (intro map_cong) auto
  then show ?thesis unfolding waiting_def by (rule arg_cong)
qed

lemma empty_above:
  assumes "events_ok s" "\<not> bit (gEventPending s) p" "p < 32" shows "gEventQueue s ! p = []"
  using assms by (auto simp: events_ok_def queues_ok_def)

lemma RestoreTplLoop_order:
  assumes P: "own_state P F"
  shows "events_ok s \<Longrightarrow> may_lower t s \<Longrightarrow> t \<le> 31 \<Longrightarrow> k \<le> 32 \<Longrightarrow> \<forall>p. bit (gEventPending s) p \<longrightarrow> p < k \<Longrightarrow>
    drivers_only (Events s) (waiting (gEventQueue s) (Suc (unat t)) k) \<Longrightarrow>
    \<exists>w. RunTpl P (RestoreTplLoop t) s = Some w \<and> settled_part w = settled_part s \<and>
      (\<forall>p \<le> unat t. gEventQueue w ! p = gEventQueue s ! p) \<and>
      Events w = fold taken_off (waiting (gEventQueue s) (Suc (unat t)) k) (Events s) \<and>
      Drivers w = fold (deliver F (Events s)) (waiting (gEventQueue s) (Suc (unat t)) k) (Drivers s)"
proof (induction k arbitrary: s rule: less_induct)
  case (less k s)
  note s = less.prems
  have quiet: ?case if "RunTpl P (RestoreTplLoop t) s = Some s" "drained t s"
  proof -
    have "waiting (gEventQueue s) (Suc (unat t)) k = []"
      using that(2) empty_above [OF s(1)] s(4) by (intro waiting_none) (auto simp: drained_def)
    then show ?thesis using that(1) by simp
  qed
  show ?case
  proof (cases "HighBitSet64 (gEventPending s)")
    case None
    then have "gEventPending s = 0" using HighBitSet64_None by blast
    moreover have "RunTpl P (RestoreTplLoop t) s = Some s" using None by (simp add: RunTpl_eqs RestoreTpl_step_def)
    ultimately show ?thesis by (intro quiet) (simp_all add: drained_def)
  next
    case (Some i)
    note p = pending_top [OF s(1) Some]
    let ?p = "of_nat i :: UINTN"
    have i: "i < k" "\<forall>p > i. \<not> bit (gEventPending s) p" using Some s(5) by (simp_all add: HighBitSet64_top top_bit_def)
    show ?thesis
    proof (cases "?p \<le> t")
      case True
      then have "drained t s" using p(3,5) by (simp add: word_le_nat_alt)
      moreover have "RunTpl P (RestoreTplLoop t) s = Some s" using True Some by (simp add: RunTpl_eqs RestoreTpl_step_def)
      ultimately show ?thesis by (rule quiet [rotated])
    next
      case False
      have lt: "t < ?p" "?p < 31" "unat t < i" using False p(2,3) by (simp, simp add: word_less_nat_alt, simp add: word_le_nat_alt)
      then have "\<not> 30 \<le> t" "\<not> 31 \<le> t" using p(2,3) by (simp_all add: word_le_nat_alt word_less_nat_alt)
      then have un: "unlocked s" using s(2) by (simp add: may_lower_def unlocked_def)
      have split: "waiting (gEventQueue s) (Suc (unat t)) k = gEventQueue s ! i @ waiting (gEventQueue s) (Suc (unat t)) i"
        by (rule waiting_step) (use lt(3) i s(4) empty_above [OF s(1)] in auto)
      let ?s = "CoreSetInterruptState P True (s\<lparr>gEfiCurrentTpl := ?p\<rparr>)"
      obtain b where b: "?s = s\<lparr>gEfiCurrentTpl := ?p, Interrupts := b\<rparr>" using CoreSetInterruptState_eq by blast
      have s2: "events_ok ?s" "unlocked ?s" "gEfiCurrentTpl ?s = ?p" "drained ?p ?s" "settled_part ?s = settled_part s"
        "gEventQueue ?s = gEventQueue s" "Events ?s = Events s" "Drivers ?s = Drivers s" "gEventPending ?s = gEventPending s"
        using s(1) un lt(2) p(4) unfolding b by (simp_all add: events_ok_def unlocked_def drained_def settled_part_def)
      have d: "drivers_only (Events s) (gEventQueue s ! i)" "drivers_only (Events s) (waiting (gEventQueue s) (Suc (unat t)) i)"
        using s(6) unfolding split by (simp_all add: drivers_only_append)
      then have "drivers_only (Events ?s) (gEventQueue ?s ! unat ?p)" unfolding s2(6,7) p(3) by blast
      then obtain u c where u: "CoreDispatchEventNotifies (RunTpl P) P ?p ?s = Some u" "events_ok u" "unlocked u" "PendingBit ?p = Some c"
        "gEventPending u = gEventPending s AND NOT c" "gEventQueue u = (gEventQueue s)[i := []]" "settled_part u = settled_part s"
        "Events u = fold taken_off (gEventQueue s ! i) (Events s)" "Drivers u = fold (deliver F (Events s)) (gEventQueue s ! i) (Drivers s)"
        using CoreDispatchEventNotifies_order [OF P s2(1-3) lt(2) s2(4)] s2(5-9) p(3) by auto
      have bits: "\<forall>p. bit (gEventPending u) p \<longrightarrow> p < i"
      proof (intro allI impI)
        fix q assume "bit (gEventPending u) q"
        then have "bit (gEventPending s) q" "q \<noteq> i" using u(5) p(2,3) by (auto simp: bit_simps bit_PendingBit [OF u(4)])
        then show "q < i" using i(2) by (metis nat_neq_iff)
      qed
      have wt: "waiting (gEventQueue u) (Suc (unat t)) i = waiting (gEventQueue s) (Suc (unat t)) i" using u(6) by (simp add: waiting_update)
      have se: "same_events (Events s) (Events u)" using u(8) same_events_fold by metis
      have "drivers_only (Events u) (waiting (gEventQueue u) (Suc (unat t)) i)"
        using d(2) same_events_drivers_only [OF se] wt by simp
      then obtain w where w: "RunTpl P (RestoreTplLoop t) u = Some w" "settled_part w = settled_part u"
        "\<forall>p \<le> unat t. gEventQueue w ! p = gEventQueue u ! p"
        "Events w = fold taken_off (waiting (gEventQueue s) (Suc (unat t)) i) (Events u)"
        "Drivers w = fold (deliver F (Events u)) (waiting (gEventQueue s) (Suc (unat t)) i) (Drivers u)"
        using less.IH [OF i(1) u(2) unlocked_lower [OF u(3)] s(3) _ bits] i(1) s(4) wt by auto
      have "deliver F (Events u) = deliver F (Events s)" using same_events_deliver [OF se] by (rule ext)
      moreover have "RunTpl P (RestoreTplLoop t) s = Some w"
        using Some False lt(2) u(1) w(1) by (subst RunTpl_eqs(2)) (simp add: RestoreTpl_step_def Let_def TPL_HIGH_LEVEL_def)
      ultimately show ?thesis using w u(6-9) lt(3) split by (intro exI [of _ w]) simp
    qed
  qed
qed

lemma RestoreTpl_order:
  assumes P: "own_state P F" and s: "events_ok s" "may_lower t s" "t \<le> gEfiCurrentTpl s"
    and d: "drivers_only (Events s) (waiting (gEventQueue s) (Suc (unat t)) 32)"
  shows "\<exists>w. RunTpl P (RestoreTpl t) s = Some w \<and> events_ok w \<and> gEfiCurrentTpl w = t \<and> drained t w \<and> settled_part w = settled_part s \<and>
      (\<forall>p \<le> unat t. gEventQueue w ! p = gEventQueue s ! p) \<and>
      Events w = fold taken_off (waiting (gEventQueue s) (Suc (unat t)) 32) (Events s) \<and>
      Drivers w = fold (deliver F (Events s)) (waiting (gEventQueue s) (Suc (unat t)) 32) (Drivers s)"
proof -
  have t: "t \<le> 31" using s(1,3) by (auto simp: events_ok_def)
  let ?s = "if gEfiCurrentTpl s \<ge> TPL_HIGH_LEVEL \<and> t < TPL_HIGH_LEVEL then s\<lparr>gEfiCurrentTpl := TPL_HIGH_LEVEL\<rparr> else s"
  have s2: "events_ok ?s" "may_lower t ?s" "\<forall>p. bit (gEventPending ?s) p \<longrightarrow> p < 32" "gEventQueue ?s = gEventQueue s" "Events ?s = Events s"
    "Drivers ?s = Drivers s" "settled_part ?s = settled_part s"
    using s(1,2) by (auto simp: events_ok_def may_lower_def TPL_HIGH_LEVEL_def queues_ok_def settled_part_def dest: less_trans)
  obtain u where u: "RunTpl P (RestoreTplLoop t) ?s = Some u" "settled_part u = settled_part s"
      "\<forall>p \<le> unat t. gEventQueue u ! p = gEventQueue s ! p"
      "Events u = fold taken_off (waiting (gEventQueue s) (Suc (unat t)) 32) (Events s)"
      "Drivers u = fold (deliver F (Events s)) (waiting (gEventQueue s) (Suc (unat t)) 32) (Drivers s)"
    using RestoreTplLoop_order [OF P s2(1,2) t _ s2(3)] d s2(4-7) by auto
  let ?w = "if t < TPL_HIGH_LEVEL then CoreSetInterruptState P True (u\<lparr>gEfiCurrentTpl := t\<rparr>) else u\<lparr>gEfiCurrentTpl := t\<rparr>"
  have r: "RunTpl P (RestoreTpl t) s = Some ?w"
    using u(1) s(3) t by (simp add: RunTpl_eqs CoreRestoreTpl_def Let_def TPL_HIGH_LEVEL_def not_less)
  have "run_before (RestoreTpl t) s" using s by simp
  from core.run_keeps [OF own_state_driver_ok [OF P] r this] have k: "events_ok ?w" "gEfiCurrentTpl ?w = t" "drained t ?w" by simp_all
  obtain b where "CoreSetInterruptState P True (u\<lparr>gEfiCurrentTpl := t\<rparr>) = u\<lparr>gEfiCurrentTpl := t, Interrupts := b\<rparr>"
    using CoreSetInterruptState_eq by blast
  then have "settled_part ?w = settled_part u" "gEventQueue ?w = gEventQueue u" "Events ?w = Events u" "Drivers ?w = Drivers u"
    by (simp_all add: settled_part_def)
  then show ?thesis using r k u(2-5) by (intro exI [of _ ?w]) simp
qed

subsection \<open>Signalling a group\<close>

lemma waiting_subset: "set (waiting queues lo hi) = (\<Union>p \<in> {lo..<hi}. set (queues ! p))"
  by (auto simp: waiting_def)

lemma CoreNotifyEvent_queues:
  assumes "CoreNotifyEvent ev s = Some s'" "p < length (gEventQueue s)"
  shows "set (gEventQueue s' ! p) \<subseteq> insert ev (set (gEventQueue s ! p))" "length (gEventQueue s') = length (gEventQueue s)"
  using assms by (auto simp: CoreNotifyEvent_def Let_def bind_eq_Some_conv nth_list_update split: if_splits)

lemma CoreNotifyEvent_total:
  assumes "events_ok s" "Acquired (gEventQueueLock s)" "Events s ev = Some e" "notifiable e"
  shows "\<exists>s'. CoreNotifyEvent ev s = Some s'"
proof -
  have "length (gEventQueue s) = 32" "unat (NotifyTpl e) < 31"
    using assms(1) notifiable_tpl [OF assms(4)] by (simp_all add: events_ok_def queues_ok_def)
  then show ?thesis using assms(2,3) by (simp add: CoreNotifyEvent_def PendingBit_def word_less_nat_alt Let_def)
qed

lemma NotifySignalList_loop_total:
  "events_ok s \<Longrightarrow> Acquired (gEventQueueLock s) \<Longrightarrow> set evs \<subseteq> set (gEventSignalQueue s) \<Longrightarrow>
   \<exists>s'. CoreNotifySignalList_loop guid evs s = Some s' \<and> length (gEventQueue s') = length (gEventQueue s) \<and>
     (\<forall>p < length (gEventQueue s). set (gEventQueue s' ! p) \<subseteq>
        set (gEventQueue s ! p) \<union> {ev. \<exists>e. Events s ev = Some e \<and> EventGroup e = guid})"
proof (induction evs arbitrary: s)
  case (Cons ev evs)
  obtain e where e: "Events s ev = Some e" "EventType e AND EVT_NOTIFY_SIGNAL \<noteq> 0"
    using Cons.prems(1,3) by (auto simp: events_ok_def signals_ok_def)
  then have n: "notifiable e" using Cons.prems(1) by (auto simp: events_ok_def event_ok_def)
  obtain t where t: "(if EventGroup e = guid then CoreNotifyEvent ev s else Some s) = Some t"
    using CoreNotifyEvent_total [OF Cons.prems(1,2) e(1) n] by (cases "EventGroup e = guid") auto
  have ok: "events_ok t \<and> t = s\<lparr>gEventQueue := gEventQueue t, gEventPending := gEventPending t\<rparr>"
    using t CoreNotifyEvent_ok [OF Cons.prems(1) _ e(1) n] Cons.prems(1) by (cases s) (auto split: if_splits)
  have same: "gEventSignalQueue t = gEventSignalQueue s" "gEventQueueLock t = gEventQueueLock s" "Events t = Events s"
    by (subst conjunct2 [OF ok], simp)+
  have q: "length (gEventQueue t) = length (gEventQueue s)" if "p < length (gEventQueue s)" for p
    using t CoreNotifyEvent_queues(2) [OF _ that, of ev t] by (auto split: if_splits)
  have q2: "set (gEventQueue t ! p) \<subseteq> set (gEventQueue s ! p) \<union> {ev. \<exists>e. Events s ev = Some e \<and> EventGroup e = guid}"
    if "p < length (gEventQueue s)" for p
    using t CoreNotifyEvent_queues(1) [OF _ that, of ev t] e(1) by (auto split: if_splits)
  have len: "length (gEventQueue t) = length (gEventQueue s)"
    using q [of 0] ok Cons.prems(1) by (auto simp: events_ok_def queues_ok_def)
  have "Acquired (gEventQueueLock t)" "set evs \<subseteq> set (gEventSignalQueue t)" using Cons.prems(2,3) same by auto
  from Cons.IH [OF conjunct1 [OF ok] this] obtain s' where s': "CoreNotifySignalList_loop guid evs t = Some s'"
    "length (gEventQueue s') = length (gEventQueue t)" "\<forall>p < length (gEventQueue t). set (gEventQueue s' ! p) \<subseteq>
        set (gEventQueue t ! p) \<union> {ev. \<exists>e. Events t ev = Some e \<and> EventGroup e = guid}" by blast
  have "CoreNotifySignalList_loop guid (ev # evs) s = Some s'" using e(1) t s'(1) by simp
  then show ?case using s'(2,3) len q2 unfolding same(3) by (intro exI [of _ s']) (simp, blast)
qed simp

text \<open>
  Signalling a group from outside of all locks returns, and runs functions of its members only; what
  was pending at lower priorities stays.
\<close>

lemma CoreNotifySignalList_order:
  assumes P: "own_state P F" and s: "steady s"
    and d: "\<And>ev e. Events s ev = Some e \<Longrightarrow> EventGroup e = guid \<Longrightarrow> NotifyFunction e \<noteq> Some CheckTimersFunction"
  shows "\<exists>w evs. CoreNotifySignalList (RunTpl P) P guid s = Some w \<and> steady w \<and> gEfiCurrentTpl w = gEfiCurrentTpl s \<and>
    settled_part w = settled_part s \<and> set evs \<subseteq> {ev. \<exists>e. Events s ev = Some e \<and> EventGroup e = guid} \<and>
    Events w = fold taken_off evs (Events s) \<and> Drivers w = fold (deliver F (Events s)) evs (Drivers s)"
proof -
  let ?t = "gEfiCurrentTpl s" and ?G = "{ev. \<exists>e. Events s ev = Some e \<and> EventGroup e = guid}"
  have ok: "events_ok s" "unlocked s" "drained ?t s" using s by (simp_all add: steady_def)
  have "\<not> Acquired (gEventQueueLock s)" using ok(2) by (simp add: unlocked_def)
  then obtain a where a: "CoreAcquireEventLock P s = Some a" using acquire_total [OF ok(1)] by blast
  note a' = acquire_event [OF a ok(1)]
  have "Acquired (gEventQueueLock a)" using a'(3) by simp
  then obtain b where b: "CoreNotifySignalList_loop guid (gEventSignalQueue a) a = Some b" "length (gEventQueue b) = length (gEventQueue a)"
    "\<forall>p < length (gEventQueue a). set (gEventQueue b ! p) \<subseteq> set (gEventQueue a ! p) \<union> {ev. \<exists>e. Events a ev = Some e \<and> EventGroup e = guid}"
    using NotifySignalList_loop_total [OF a'(1) _ subset_refl] by blast
  note ok2 = CoreNotifySignalList_loop_ok [OF b(1) a'(1) subset_refl]
  have same: "gEventQueueLock b = gEventQueueLock a" "Events b = Events a" "gEfiCurrentTpl b = gEfiCurrentTpl a" "rest b = rest a"
    by (subst conjunct2 [OF ok2], simp add: rest_def)+
  let ?c = "b\<lparr>gEventQueueLock := (taken 31 ?t)\<lparr>Acquired := False\<rparr>\<rparr>"
  have rel: "CoreReleaseEventLock (RunTpl P) b = RunTpl P (RestoreTpl ?t) ?c"
    using same(1) a'(3) by (simp add: CoreReleaseEventLock_def)
  have rests: "rest ?c = rest s" using same(4) a'(5) by (simp add: rest_def)
  have c: "events_ok ?c" "unlocked ?c" "?t \<le> gEfiCurrentTpl ?c" "Events ?c = Events s"
    using conjunct1 [OF ok2] ok(1,2) same a' rests by (simp_all add: events_ok_def unlocked_def rest_def)
  have len: "length (gEventQueue s) = 32" using ok(1) by (simp add: events_ok_def queues_ok_def)
  have q: "set (gEventQueue ?c ! p) \<subseteq> ?G" if "unat ?t < p" "p < 32" for p
  proof -
    have "gEventQueue s ! p = []" using that ok(3) by (intro empty_above [OF ok(1)]) (simp_all add: drained_def)
    moreover have "set (gEventQueue b ! p) \<subseteq> set (gEventQueue s ! p) \<union> ?G" using b(3) that(2) unfolding a'(6,7) len by blast
    ultimately show ?thesis by simp
  qed
  let ?w = "waiting (gEventQueue ?c) (Suc (unat ?t)) 32"
  have w: "set ?w \<subseteq> ?G" unfolding waiting_subset using q by (intro UN_least) simp
  then have "drivers_only (Events ?c) ?w" unfolding c(4) using d by (auto simp: drivers_only_def)
  moreover have "may_lower ?t ?c" using c(2) by (simp add: may_lower_def unlocked_def)
  ultimately obtain x where x: "RunTpl P (RestoreTpl ?t) ?c = Some x" "events_ok x"
    "gEfiCurrentTpl x = ?t" "drained ?t x" "settled_part x = settled_part ?c" "Events x = fold taken_off ?w (Events ?c)"
    "Drivers x = fold (deliver F (Events ?c)) ?w (Drivers ?c)" using RestoreTpl_order [OF P c(1) _ c(3)] by blast
  have r: "CoreNotifySignalList (RunTpl P) P guid s = Some x" using a b(1) rel x(1) by (simp add: CoreNotifySignalList_def)
  have "steady x" using CoreNotifySignalList_steady [OF own_state_driver_ok [OF P] s r] by blast
  moreover have "settled_part ?c = settled_part s \<and> Drivers ?c = Drivers s" using rests unfolding rest_parts .
  ultimately show ?thesis using r x w c(4) by (intro exI [of _ x] exI [of _ ?w]) simp
qed

end
