(* ===== verification/DxeExit.thy ===== *)
theory DxeExit
  imports DxeMapResult DxeEventOrder
begin

text \<open>
  Leaving boot services: \<open>CoreExitBootServices\<close> (\<^verbatim>\<open>src/edk2/MdeModulePkg/Core/Dxe/DxeMain/DxeMain.c\<close>), and the
  services of the DXE core as the firmware that the boot application calls in
  \<open>ExitBootServices_loop\<close> (\<^verbatim>\<open>src/BootApp.c\<close>).

  The state of the machine around the events: the variables of the memory services and of \<open>DxeMain.c\<close>, and whatever else
  the drivers have.  The timer's hardware, the status code, the checksum service and the page
  tables (\<open>MemoryProtectionExitBootServicesCallback\<close>) are parameters.
\<close>

subsection \<open>State\<close>

record EFI_SYSTEM_TABLE =
  HdrSignature :: UINT64
  HdrRevision :: UINT32
  HeaderSize :: UINT32
  CRC32 :: UINT32
  HdrReserved :: UINT32
  FirmwareVendor :: ptr
  FirmwareRevision :: UINT32
  ConsoleInHandle :: ptr
  ConIn :: ptr
  ConsoleOutHandle :: ptr
  ConOut :: ptr
  StandardErrorHandle :: ptr
  StdErr :: ptr
  RuntimeServices :: ptr
  BootServices :: ptr
  NumberOfTableEntries :: UINTN
  ConfigurationTable :: ptr

record 'e machine =
  MemoryServices :: dxe_memory
  mExitBootServicesCalled :: bool
  gMemoryMapTerminated :: bool
  gDxeCoreST :: EFI_SYSTEM_TABLE
  gBS :: ptr
  AtRuntime :: bool
  OwnState :: 'e

type_synonym 'e core = "'e machine dxe_events"

record 'e EXIT_PLATFORM =
  SetTimerPeriod :: "UINT64 \<Rightarrow> 'e \<Rightarrow> 'e"
  ReportStatusCode :: "UINT32 \<Rightarrow> UINT32 \<Rightarrow> 'e \<Rightarrow> 'e"
  MemoryProtectionExitBootServices :: "'e \<Rightarrow> 'e"
  SetDebugTimerInterrupt :: "bool \<Rightarrow> 'e \<Rightarrow> 'e"
  CalculateCrc32 :: "EFI_SYSTEM_TABLE \<Rightarrow> 'e \<Rightarrow> UINT32"

definition EFI_PROGRESS_CODE :: UINT32 where "EFI_PROGRESS_CODE = 1"
definition EFI_SOFTWARE_EFI_BOOT_SERVICE :: UINT32 where "EFI_SOFTWARE_EFI_BOOT_SERVICE = 0x03100000"
definition EFI_SW_BS_PC_EXIT_BOOT_SERVICES :: UINT32 where "EFI_SW_BS_PC_EXIT_BOOT_SERVICES = 0x1019"

definition OnMachine :: "('e machine \<Rightarrow> 'e machine) \<Rightarrow> 'e core \<Rightarrow> 'e core" where
  "OnMachine f s = s\<lparr>Drivers := f (Drivers s)\<rparr>"

definition OnOwn :: "('e \<Rightarrow> 'e) \<Rightarrow> 'e core \<Rightarrow> 'e core" where
  "OnOwn f = OnMachine (\<lambda>d. d\<lparr>OwnState := f (OwnState d)\<rparr>)"

subsection \<open>The service\<close>

definition CalculateEfiHdrCrc :: "'e EXIT_PLATFORM \<Rightarrow> 'e \<Rightarrow> EFI_SYSTEM_TABLE \<Rightarrow> EFI_SYSTEM_TABLE" where
  "CalculateEfiHdrCrc Q own hdr = (let hdr = hdr\<lparr>CRC32 := 0\<rparr> in hdr\<lparr>CRC32 := CalculateCrc32 Q hdr own\<rparr>)"

text \<open>What remains when the memory map has been terminated and the drivers notified.\<close>

definition EnterRuntime :: "'e EXIT_PLATFORM \<Rightarrow> 'e core \<Rightarrow> 'e core" where
  "EnterRuntime Q s =
     (let s = OnOwn (ReportStatusCode Q EFI_PROGRESS_CODE (EFI_SOFTWARE_EFI_BOOT_SERVICE OR EFI_SW_BS_PC_EXIT_BOOT_SERVICES)) s;
          s = OnOwn (MemoryProtectionExitBootServices Q) s;
          s = OnOwn (SetDebugTimerInterrupt Q False) s;
          s = s\<lparr>Interrupts := False\<rparr>
      in OnMachine (\<lambda>d. d\<lparr>
           gDxeCoreST := CalculateEfiHdrCrc Q (OwnState d) ((gDxeCoreST d)\<lparr>BootServices := 0, ConIn := 0, ConsoleInHandle := 0, ConOut := 0,
             ConsoleOutHandle := 0, StdErr := 0, StandardErrorHandle := 0\<rparr>),
           gBS := 0, AtRuntime := True\<rparr>) s)"

definition CoreExitBootServices :: "'e machine DXE_PLATFORM \<Rightarrow> 'e EXIT_PLATFORM \<Rightarrow> UINTN \<Rightarrow> 'e core \<Rightarrow> (EFI_STATUS \<times> 'e core) option" where
  "CoreExitBootServices P Q mapKey s = do {
     s \<leftarrow> (if mExitBootServicesCalled (Drivers s) then Some s
          else do {
            s \<leftarrow> CoreNotifySignalList (RunTpl P) P gEfiEventBeforeExitBootServicesGuid s;
            Some (OnMachine (\<lambda>d. d\<lparr>mExitBootServicesCalled := True\<rparr>) s) });
     let s = OnOwn (SetTimerPeriod Q 0) s;
     (status, memory) \<leftarrow> CoreTerminateMemoryMap mapKey (MemoryServices (Drivers s));
     let s = OnMachine (\<lambda>d. d\<lparr>MemoryServices := memory\<rparr>) s;
     if status AND EFI_ERROR_BIT \<noteq> 0 then do {
       s \<leftarrow> CoreNotifySignalList (RunTpl P) P gEventExitBootServicesFailedGuid s;
       Some (status, s) }
     else do {
       let s = OnMachine (\<lambda>d. d\<lparr>gMemoryMapTerminated := True\<rparr>) s;
       s \<leftarrow> CoreNotifySignalList (RunTpl P) P gEfiEventExitBootServicesGuid s;
       Some (status, EnterRuntime Q s) } }"

subsection \<open>The firmware of the boot application\<close>

definition EFI_MEMORY_DESCRIPTOR_VERSION :: UINT32 where "EFI_MEMORY_DESCRIPTOR_VERSION = 1"

text \<open>
  The two services that the loop calls.  A service that does not return leaves the machine in the state
  \<open>None\<close>; the status that is named with it is never seen.
\<close>

definition DxeGetMemoryMap :: "map_args \<Rightarrow> ptr \<Rightarrow> 'e core option \<Rightarrow> EFI_STATUS \<times> map_args \<times> 'e core option" where
  "DxeGetMemoryMap args memoryMap e =
     (case e of
        None \<Rightarrow> (EFI_UNSUPPORTED, args, None)
      | Some s \<Rightarrow>
          (case CoreGetMemoryMap (Some (MapSize args)) (memoryMap \<noteq> 0) (MemoryServices (Drivers s)) of
             Some (status, Some used, Some key, _, memory) \<Rightarrow>
               (status, args\<lparr>MapSize := used, MapKey := key, DescriptorSize := of_nat MapDescriptorSize,
                  DescriptorVersion := EFI_MEMORY_DESCRIPTOR_VERSION\<rparr>,
                Some (OnMachine (\<lambda>d. d\<lparr>MemoryServices := memory\<rparr>) s))
           | _ \<Rightarrow> (EFI_UNSUPPORTED, args, None)))"

definition DxeExitBootServices :: "'e machine DXE_PLATFORM \<Rightarrow> 'e EXIT_PLATFORM \<Rightarrow> UINTN \<Rightarrow> 'e core option \<Rightarrow> EFI_STATUS \<times> 'e core option" where
  "DxeExitBootServices P Q mapKey e =
     (case e of
        None \<Rightarrow> (EFI_UNSUPPORTED, None)
      | Some s \<Rightarrow> (case CoreExitBootServices P Q mapKey s of
            None \<Rightarrow> (EFI_UNSUPPORTED, None)
          | Some (status, s) \<Rightarrow> (status, Some s)))"

definition runs_on_dxe :: "'e machine DXE_PLATFORM \<Rightarrow> 'e EXIT_PLATFORM \<Rightarrow> 'e core option FIRMWARE \<Rightarrow> ptr \<Rightarrow> ptr \<Rightarrow> bool" where
  "runs_on_dxe P Q F getMemoryMap exitBootServices \<longleftrightarrow>
     (\<forall>args memoryMap e. GetMemoryMap F getMemoryMap args memoryMap e = DxeGetMemoryMap args memoryMap e) \<and>
     (\<forall>imageHandle mapKey e. ExitBootServices F exitBootServices imageHandle mapKey e = DxeExitBootServices P Q mapKey e)"

subsection \<open>What is asked of the drivers\<close>

text \<open>
  The functions that are notified when boot services end: they leave the variables of the core alone; those of the
  group before the end may use the memory services, and keep what the map service needs, with a map that
  fits in the buffer; those at the end do not touch the memory map, as the specification asks of
  them.
\<close>

definition map_fits :: "UINTN \<Rightarrow> dxe_memory \<Rightarrow> bool" where
  "map_fits limit m \<longleftrightarrow> map_ready m \<and> acpi_not_runtime m \<and> NeededSize m \<le> limit"

definition exit_drivers :: "(ptr \<Rightarrow> EFI_EVENT \<Rightarrow> ptr \<Rightarrow> 'e machine \<Rightarrow> 'e machine) \<Rightarrow> (EFI_EVENT \<rightharpoonup> IEVENT) \<Rightarrow> UINTN \<Rightarrow> bool" where
  "exit_drivers F events limit \<longleftrightarrow>
     (\<forall>f ev ctx d. \<exists>m own. F f ev ctx d = d\<lparr>MemoryServices := m, OwnState := own\<rparr>) \<and>
     (\<forall>ev e. events ev = Some e \<longrightarrow>
        (EventGroup e \<in> {gEfiEventBeforeExitBootServicesGuid, gEventExitBootServicesFailedGuid, gEfiEventExitBootServicesGuid} \<longrightarrow>
           NotifyFunction e \<noteq> Some CheckTimersFunction) \<and>
        (\<forall>f d. NotifyFunction e = Some (DriverFunction f) \<longrightarrow>
           (EventGroup e = gEfiEventBeforeExitBootServicesGuid \<longrightarrow> map_fits limit (MemoryServices d) \<longrightarrow>
              map_fits limit (MemoryServices (F f ev (NotifyContext e) d))) \<and>
           (EventGroup e \<in> {gEventExitBootServicesFailedGuid, gEfiEventExitBootServicesGuid} \<longrightarrow>
              MemoryServices (F f ev (NotifyContext e) d) = MemoryServices d)))"

lemma exit_drivers_same:
  assumes "exit_drivers F events limit" "same_events events events'" shows "exit_drivers F events' limit"
proof -
  have h: "\<exists>e0. events ev = Some e0 \<and> NotifyFunction e0 = NotifyFunction e \<and> NotifyContext e0 = NotifyContext e \<and> EventGroup e0 = EventGroup e"
    if "events' ev = Some e" for ev e
  proof -
    have "map_option (\<lambda>e. (NotifyFunction e, NotifyContext e, EventGroup e)) (events' ev) =
        map_option (\<lambda>e. (NotifyFunction e, NotifyContext e, EventGroup e)) (events ev)" using assms(2) unfolding same_events_def by blast
    with that show ?thesis by (cases "events ev") auto
  qed
  show ?thesis using assms(1) unfolding exit_drivers_def by (metis h)
qed

text \<open>The variables of the core that the drivers leave alone.\<close>

definition core_part :: "'e machine \<Rightarrow> _" where
  "core_part d = (mExitBootServicesCalled d, gMemoryMapTerminated d, gDxeCoreST d, gBS d, AtRuntime d)"

lemma deliver_cases:
  "deliver F events ev d = d \<or> (\<exists>e f. events ev = Some e \<and> NotifyFunction e = Some (DriverFunction f) \<and> deliver F events ev d = F f ev (NotifyContext e) d)"
  by (auto simp: deliver_def split: option.split EFI_EVENT_NOTIFY.split)

lemma deliver_core: "exit_drivers F events limit \<Longrightarrow> core_part (deliver F events ev d) = core_part d"
proof -
  assume x: "exit_drivers F events limit"
  have "core_part (F f ev ctx d) = core_part d" for f ctx
  proof -
    obtain m own where "F f ev ctx d = d\<lparr>MemoryServices := m, OwnState := own\<rparr>" using x unfolding exit_drivers_def by blast
    then show ?thesis by (simp add: core_part_def)
  qed
  then show ?thesis using deliver_cases [of F events ev d] by auto
qed

lemma deliver_memory:
  assumes x: "exit_drivers F events limit" and e: "events ev = Some e"
  shows "EventGroup e = gEfiEventBeforeExitBootServicesGuid \<Longrightarrow> map_fits limit (MemoryServices d) \<Longrightarrow>
      map_fits limit (MemoryServices (deliver F events ev d))"
    "EventGroup e \<in> {gEventExitBootServicesFailedGuid, gEfiEventExitBootServicesGuid} \<Longrightarrow>
      MemoryServices (deliver F events ev d) = MemoryServices d"
  using x e deliver_cases [of F events ev d] unfolding exit_drivers_def by (metis option.inject)+

lemma fold_deliver:
  assumes x: "exit_drivers F events limit"
  shows "core_part (fold (deliver F events) evs d) = core_part d"
    "set evs \<subseteq> {ev. \<exists>e. events ev = Some e \<and> EventGroup e = gEfiEventBeforeExitBootServicesGuid} \<Longrightarrow>
     map_fits limit (MemoryServices d) \<Longrightarrow> map_fits limit (MemoryServices (fold (deliver F events) evs d))"
    "set evs \<subseteq> {ev. \<exists>e. events ev = Some e \<and> EventGroup e = g} \<Longrightarrow> g \<in> {gEventExitBootServicesFailedGuid, gEfiEventExitBootServicesGuid} \<Longrightarrow>
     MemoryServices (fold (deliver F events) evs d) = MemoryServices d"
proof -
  show "core_part (fold (deliver F events) evs d) = core_part d"
    by (induction evs arbitrary: d) (simp_all add: deliver_core [OF x])
  show "set evs \<subseteq> {ev. \<exists>e. events ev = Some e \<and> EventGroup e = gEfiEventBeforeExitBootServicesGuid} \<Longrightarrow>
     map_fits limit (MemoryServices d) \<Longrightarrow> map_fits limit (MemoryServices (fold (deliver F events) evs d))"
  proof (induction evs arbitrary: d)
    case (Cons ev evs)
    then obtain e where "events ev = Some e" "EventGroup e = gEfiEventBeforeExitBootServicesGuid" by auto
    then show ?case using Cons deliver_memory(1) [OF x] by simp
  qed simp
  show "set evs \<subseteq> {ev. \<exists>e. events ev = Some e \<and> EventGroup e = g} \<Longrightarrow> g \<in> {gEventExitBootServicesFailedGuid, gEfiEventExitBootServicesGuid} \<Longrightarrow>
     MemoryServices (fold (deliver F events) evs d) = MemoryServices d"
  proof (induction evs arbitrary: d)
    case (Cons ev evs)
    then obtain e where "events ev = Some e" "EventGroup e = g" by auto
    then show ?case using Cons deliver_memory(2) [OF x] by simp
  qed simp
qed

subsection \<open>Leaving boot services\<close>

definition ready_to_exit :: "(ptr \<Rightarrow> EFI_EVENT \<Rightarrow> ptr \<Rightarrow> 'e machine \<Rightarrow> 'e machine) \<Rightarrow> UINTN \<Rightarrow> 'e core \<Rightarrow> bool" where
  "ready_to_exit F limit s \<longleftrightarrow> steady s \<and> exit_drivers F (Events s) limit \<and> map_fits limit (MemoryServices (Drivers s))"

text \<open>Boot services are gone: the core is at runtime, and the tables name no boot service and no console.\<close>

definition boot_services_gone :: "'e core \<Rightarrow> bool" where
  "boot_services_gone s \<longleftrightarrow> gMemoryMapTerminated (Drivers s) \<and> AtRuntime (Drivers s) \<and> gBS (Drivers s) = 0 \<and> \<not> Interrupts s \<and>
     BootServices (gDxeCoreST (Drivers s)) = 0 \<and> ConOut (gDxeCoreST (Drivers s)) = 0 \<and> ConIn (gDxeCoreST (Drivers s)) = 0 \<and>
     StdErr (gDxeCoreST (Drivers s)) = 0"

lemma steady_Drivers [simp]: "steady (s\<lparr>Drivers := d\<rparr>) = steady s"
  by (simp add: steady_def unlocked_def drained_def)

lemma ready_OnMachine:
  "MemoryServices (f (Drivers s)) = MemoryServices (Drivers s) \<Longrightarrow> ready_to_exit F limit (OnMachine f s) = ready_to_exit F limit s"
  by (simp add: ready_to_exit_def OnMachine_def)

lemma signal_group:
  assumes P: "own_state P F" and s: "ready_to_exit F limit s"
    and g: "g \<in> {gEfiEventBeforeExitBootServicesGuid, gEventExitBootServicesFailedGuid, gEfiEventExitBootServicesGuid}"
  shows "\<exists>w. CoreNotifySignalList (RunTpl P) P g s = Some w \<and> ready_to_exit F limit w \<and> core_part (Drivers w) = core_part (Drivers s) \<and>
    (g \<noteq> gEfiEventBeforeExitBootServicesGuid \<longrightarrow> MemoryServices (Drivers w) = MemoryServices (Drivers s))"
proof -
  have ok: "steady s" "exit_drivers F (Events s) limit" "map_fits limit (MemoryServices (Drivers s))" using s by (simp_all add: ready_to_exit_def)
  have n: "NotifyFunction e \<noteq> Some CheckTimersFunction" if "Events s ev = Some e" "EventGroup e = g" for ev e
    using ok(2) that g unfolding exit_drivers_def by blast
  obtain w evs where
    w: "CoreNotifySignalList (RunTpl P) P g s = Some w" "steady w" "set evs \<subseteq> {ev. \<exists>e. Events s ev = Some e \<and> EventGroup e = g}"
      "Events w = fold taken_off evs (Events s)" "Drivers w = fold (deliver F (Events s)) evs (Drivers s)"
    using CoreNotifySignalList_order [OF P ok(1), of g] n by blast
  note f = fold_deliver [OF ok(2)]
  have x: "exit_drivers F (Events w) limit" using exit_drivers_same [OF ok(2)] same_events_fold w(4) by metis
  have m: "MemoryServices (Drivers w) = MemoryServices (Drivers s)" if "g \<noteq> gEfiEventBeforeExitBootServicesGuid"
    using f(3) [OF w(3)] g that w(5) by simp
  have "map_fits limit (MemoryServices (Drivers w))"
    using f(2) [of evs] w(3,5) ok(3) m by (cases "g = gEfiEventBeforeExitBootServicesGuid") simp_all
  then show ?thesis using w(1,2,5) x m f(1) by (simp add: ready_to_exit_def)
qed

lemma group_guids [simp]:
  "gEventExitBootServicesFailedGuid \<noteq> gEfiEventBeforeExitBootServicesGuid" "gEfiEventExitBootServicesGuid \<noteq> gEfiEventBeforeExitBootServicesGuid"
  by (simp_all add: gEventExitBootServicesFailedGuid_def gEfiEventBeforeExitBootServicesGuid_def gEfiEventExitBootServicesGuid_def)

lemma EnterRuntime_gone:
  "gMemoryMapTerminated (Drivers s) \<Longrightarrow> boot_services_gone (EnterRuntime Q s)"
  "MemoryServices (Drivers (EnterRuntime Q s)) = MemoryServices (Drivers s)"
  by (simp_all add: EnterRuntime_def Let_def boot_services_gone_def OnMachine_def OnOwn_def CalculateEfiHdrCrc_def)

text \<open>When the drivers have been told before, the key decides.\<close>

lemma CoreExitBootServices_told:
  assumes P: "own_state P F" and s: "ready_to_exit F limit s" and told: "mExitBootServicesCalled (Drivers s)"
  shows "\<exists>s'. CoreExitBootServices P Q mapKey s =
      Some (if mapKey = mMemoryMapKey (MemoryServices (Drivers s)) then EFI_SUCCESS else EFI_INVALID_PARAMETER, s') \<and>
    MemoryServices (Drivers s') = MemoryServices (Drivers s) \<and>
    (if mapKey = mMemoryMapKey (MemoryServices (Drivers s)) then boot_services_gone s'
     else ready_to_exit F limit s' \<and> mExitBootServicesCalled (Drivers s'))"
proof -
  let ?m = "MemoryServices (Drivers s)"
  let ?t = "OnMachine (\<lambda>d. d\<lparr>MemoryServices := ?m\<rparr>) (OnOwn (SetTimerPeriod Q 0) s)"
  have t: "ready_to_exit F limit ?t" "MemoryServices (Drivers ?t) = ?m" "core_part (Drivers ?t) = core_part (Drivers s)"
    using s by (simp_all add: ready_to_exit_def OnOwn_def OnMachine_def core_part_def)
  have m: "idle ?m" "acpi_not_runtime ?m" using s by (simp_all add: ready_to_exit_def map_fits_def map_ready_def)
  have k: "CoreTerminateMemoryMap mapKey ?m = Some (if mapKey = mMemoryMapKey ?m then EFI_SUCCESS else EFI_INVALID_PARAMETER, ?m)"
    by (rule CoreTerminateMemoryMap_key [OF m])
  have own: "MemoryServices (Drivers (OnOwn (SetTimerPeriod Q 0) s)) = ?m" by (simp add: OnOwn_def OnMachine_def)
  show ?thesis
  proof (cases "mapKey = mMemoryMapKey ?m")
    case True
    let ?u = "OnMachine (\<lambda>d. d\<lparr>gMemoryMapTerminated := True\<rparr>) ?t"
    have "ready_to_exit F limit ?u" using t(1) by (simp add: ready_OnMachine)
    from signal_group [OF P this, of gEfiEventExitBootServicesGuid] obtain w where
      w: "CoreNotifySignalList (RunTpl P) P gEfiEventExitBootServicesGuid ?u = Some w" "core_part (Drivers w) = core_part (Drivers ?u)"
        "MemoryServices (Drivers w) = MemoryServices (Drivers ?u)" by auto
    have "gMemoryMapTerminated (Drivers w)" "MemoryServices (Drivers w) = ?m" using w(2,3) by (simp_all add: core_part_def OnMachine_def)
    moreover have "CoreExitBootServices P Q mapKey s = Some (EFI_SUCCESS, EnterRuntime Q w)"
      using told k own True w(1) by (simp add: CoreExitBootServices_def Let_def EFI_SUCCESS_def)
    ultimately show ?thesis using True EnterRuntime_gone [where s = w and Q = Q] by (intro exI [of _ "EnterRuntime Q w"]) simp
  next
    case False
    from signal_group [OF P t(1), of gEventExitBootServicesFailedGuid] obtain w where
      w: "CoreNotifySignalList (RunTpl P) P gEventExitBootServicesFailedGuid ?t = Some w" "core_part (Drivers w) = core_part (Drivers ?t)"
        "MemoryServices (Drivers w) = MemoryServices (Drivers ?t)" "ready_to_exit F limit w" by auto
    have "CoreExitBootServices P Q mapKey s = Some (EFI_INVALID_PARAMETER, w)"
      using told k own False w(1) by (simp add: CoreExitBootServices_def Let_def EFI_INVALID_PARAMETER_def EFI_ERROR_BIT_def)
    moreover have "mExitBootServicesCalled (Drivers w)" using w(2) t(3) told by (simp add: core_part_def)
    ultimately show ?thesis using False w(3,4) t(2) by (intro exI [of _ w]) simp
  qed
qed

text \<open>The first call tells the drivers; then it is as above.\<close>

lemma CoreExitBootServices_first:
  assumes P: "own_state P F" and s: "ready_to_exit F limit s" and first: "\<not> mExitBootServicesCalled (Drivers s)"
  shows "\<exists>t. CoreExitBootServices P Q mapKey s = CoreExitBootServices P Q mapKey t \<and> ready_to_exit F limit t \<and> mExitBootServicesCalled (Drivers t)"
proof -
  from signal_group [OF P s, of gEfiEventBeforeExitBootServicesGuid] obtain w where
    w: "CoreNotifySignalList (RunTpl P) P gEfiEventBeforeExitBootServicesGuid s = Some w" "ready_to_exit F limit w" by auto
  let ?t = "OnMachine (\<lambda>d. d\<lparr>mExitBootServicesCalled := True\<rparr>) w"
  have "mExitBootServicesCalled (Drivers ?t)" by (simp add: OnMachine_def)
  then have "CoreExitBootServices P Q mapKey s = CoreExitBootServices P Q mapKey ?t"
    using first w(1) by (simp add: CoreExitBootServices_def)
  then show ?thesis using w(2) \<open>mExitBootServicesCalled (Drivers ?t)\<close> by (intro exI [of _ ?t]) (simp add: ready_OnMachine)
qed

lemma CoreExitBootServices_result:
  assumes P: "own_state P F" and s: "ready_to_exit F limit s"
  shows "\<exists>status s'. CoreExitBootServices P Q mapKey s = Some (status, s') \<and>
    (status = EFI_SUCCESS \<and> boot_services_gone s' \<and> mMemoryMapKey (MemoryServices (Drivers s')) = mapKey \<or>
     status = EFI_INVALID_PARAMETER \<and> ready_to_exit F limit s' \<and> mExitBootServicesCalled (Drivers s'))"
proof (cases "mExitBootServicesCalled (Drivers s)")
  case True
  from CoreExitBootServices_told [OF P s True, of Q mapKey] show ?thesis by (auto split: if_splits)
next
  case False
  from CoreExitBootServices_first [OF P s False, of Q mapKey] obtain t where
    t: "CoreExitBootServices P Q mapKey s = CoreExitBootServices P Q mapKey t" "ready_to_exit F limit t" "mExitBootServicesCalled (Drivers t)" by blast
  from CoreExitBootServices_told [OF P t(2,3), of Q mapKey] show ?thesis unfolding t(1) by (auto split: if_splits)
qed

subsection \<open>The boot application's loop\<close>

lemma DxeGetMemoryMap_ready:
  assumes "ready_to_exit F limit s" "mm \<noteq> 0" "MapSize args = limit"
  shows "\<exists>used. DxeGetMemoryMap args mm (Some s) =
    (EFI_SUCCESS, args\<lparr>MapSize := used, MapKey := mMemoryMapKey (MemoryServices (Drivers s)), DescriptorSize := of_nat MapDescriptorSize,
       DescriptorVersion := EFI_MEMORY_DESCRIPTOR_VERSION\<rparr>, Some s)"
proof -
  let ?m = "MemoryServices (Drivers s)"
  have m: "map_ready ?m" "NeededSize ?m \<le> limit" using assms(1) by (simp_all add: ready_to_exit_def map_fits_def)
  from CoreGetMemoryMap_written [OF m] obtain ds where
    "CoreGetMemoryMap (Some limit) True ?m = Some (EFI_SUCCESS, Some (of_nat (MapDescriptorSize * length ds)), Some (mMemoryMapKey ?m), ds, ?m)"
    by blast
  moreover have "OnMachine (\<lambda>d. d\<lparr>MemoryServices := ?m\<rparr>) s = s" by (simp add: OnMachine_def)
  ultimately have "DxeGetMemoryMap args mm (Some s) =
    (EFI_SUCCESS, args\<lparr>MapSize := of_nat (MapDescriptorSize * length ds), MapKey := mMemoryMapKey ?m, DescriptorSize := of_nat MapDescriptorSize,
       DescriptorVersion := EFI_MEMORY_DESCRIPTOR_VERSION\<rparr>, Some s)" using assms(2,3) by (simp add: DxeGetMemoryMap_def)
  then show ?thesis by blast
qed

lemma loop_attempt_dxe:
  assumes P: "own_state P F" and dxe: "runs_on_dxe P Q fw gmm ebs" and s: "ready_to_exit F sz s" and mm: "mm \<noteq> 0"
  shows "(\<exists>b' s'. ExitAttempt fw ih gmm ebs mm sz (args, b, Some s) = Inl (EFI_SUCCESS, b', Some s') \<and> boot_services_gone s' \<and>
      MemoryMapKey b' = mMemoryMapKey (MemoryServices (Drivers s')) \<and> MemoryMap b' = mm) \<or>
    (\<not> mExitBootServicesCalled (Drivers s) \<and> (\<exists>args' b' s'. ExitAttempt fw ih gmm ebs mm sz (args, b, Some s) = Inr (args', b', Some s') \<and>
      ready_to_exit F sz s' \<and> mExitBootServicesCalled (Drivers s')))"
proof -
  let ?k = "mMemoryMapKey (MemoryServices (Drivers s))"
  have "MapSize (args\<lparr>MapSize := sz\<rparr>) = sz" by simp
  from DxeGetMemoryMap_ready [OF s mm this] obtain used where g: "DxeGetMemoryMap (args\<lparr>MapSize := sz\<rparr>) mm (Some s) =
    (EFI_SUCCESS, (args\<lparr>MapSize := sz\<rparr>)\<lparr>MapSize := used, MapKey := ?k, DescriptorSize := of_nat MapDescriptorSize,
       DescriptorVersion := EFI_MEMORY_DESCRIPTOR_VERSION\<rparr>, Some s)" by blast
  have gmm: "GetMemoryMap fw gmm a m e = DxeGetMemoryMap a m e" "ExitBootServices fw ebs h k e = DxeExitBootServices P Q k e" for a m e h k
    using dxe by (simp_all add: runs_on_dxe_def)
  obtain status s' where r: "CoreExitBootServices P Q ?k s = Some (status, s')"
    and c: "status = EFI_SUCCESS \<and> boot_services_gone s' \<and> mMemoryMapKey (MemoryServices (Drivers s')) = ?k \<or>
      status = EFI_INVALID_PARAMETER \<and> ready_to_exit F sz s' \<and> mExitBootServicesCalled (Drivers s')"
    using CoreExitBootServices_result [OF P s, of Q ?k] by blast
  have told: "status = EFI_SUCCESS" if "mExitBootServicesCalled (Drivers s)"
    using CoreExitBootServices_told [OF P s that, of Q ?k] r by simp
  have x: "DxeExitBootServices P Q ?k (Some s) = (status, Some s')" by (simp add: DxeExitBootServices_def r)
  show ?thesis
  proof (cases "status = EFI_SUCCESS")
    case True
    then show ?thesis using c by (simp add: ExitAttempt_def gmm g x Let_def efi_status_defs)
  next
    case False
    then show ?thesis using c told by (auto simp: ExitAttempt_def gmm g x Let_def efi_status_defs)
  qed
qed

text \<open>The loop ends in its first or second round, with success.\<close>

lemma ExitBootServices_loop_dxe:
  assumes P: "own_state P F" and dxe: "runs_on_dxe P Q fw gmm ebs" and s: "ready_to_exit F sz s" and mm: "mm \<noteq> 0"
  shows "\<exists>b' s'. ExitBootServices_loop fw ih gmm ebs mm sz args b (Some s) = Some (EFI_SUCCESS, b', Some s') \<and> boot_services_gone s' \<and>
      MemoryMapKey b' = mMemoryMapKey (MemoryServices (Drivers s')) \<and> MemoryMap b' = mm"
proof -
  have told: "\<exists>b' s'. ExitBootServices_loop fw ih gmm ebs mm sz args b (Some s) = Some (EFI_SUCCESS, b', Some s') \<and>
      boot_services_gone s' \<and> MemoryMapKey b' = mMemoryMapKey (MemoryServices (Drivers s')) \<and> MemoryMap b' = mm"
    if s: "ready_to_exit F sz s" "mExitBootServicesCalled (Drivers s)" for args b s
  proof -
    obtain b' s' where r: "ExitAttempt fw ih gmm ebs mm sz (args, b, Some s) = Inl (EFI_SUCCESS, b', Some s')" "boot_services_gone s'"
      "MemoryMapKey b' = mMemoryMapKey (MemoryServices (Drivers s'))" "MemoryMap b' = mm"
      using loop_attempt_dxe [OF P dxe s(1) mm, of ih args b] s(2) by blast
    have "ExitBootServices_loop fw ih gmm ebs mm sz args b (Some s) = Some (EFI_SUCCESS, b', Some s')"
      by (subst ExitBootServices_loop_attempt) (simp add: r(1))
    then show ?thesis using r(2-4) by blast
  qed
  from loop_attempt_dxe [OF P dxe s mm, of ih args b] show ?thesis
  proof (elim disjE exE conjE)
    fix b' s' assume r: "ExitAttempt fw ih gmm ebs mm sz (args, b, Some s) = Inl (EFI_SUCCESS, b', Some s')" and
      g: "boot_services_gone s'" "MemoryMapKey b' = mMemoryMapKey (MemoryServices (Drivers s'))" "MemoryMap b' = mm"
    have "ExitBootServices_loop fw ih gmm ebs mm sz args b (Some s) = Some (EFI_SUCCESS, b', Some s')"
      by (subst ExitBootServices_loop_attempt) (simp add: r)
    then show ?thesis using g by blast
  next
    fix args' b' s' assume r: "ExitAttempt fw ih gmm ebs mm sz (args, b, Some s) = Inr (args', b', Some s')"
      and s': "ready_to_exit F sz s'" "mExitBootServicesCalled (Drivers s')"
    have "ExitBootServices_loop fw ih gmm ebs mm sz args b (Some s) = ExitBootServices_loop fw ih gmm ebs mm sz args' b' (Some s')"
      by (subst ExitBootServices_loop_attempt) (simp add: r)
    then show ?thesis using told [OF s', of args' b'] by simp
  qed
qed

end
