(* ===== verification/DxeTimer.thy ===== *)
theory DxeTimer
  imports DxeEventOrder "HOL-Library.Multiset"
begin

text \<open>
  The check of the timers: at the priority of the timers a signal runs nothing, so that the loop over the expired
  timers ends, unless the time of a periodic timer wraps around, when it never does.
\<close>

subsection \<open>A signal at the priority of the timers\<close>

lemma release_high:
  assumes "events_ok s" "gEventQueueLock s = taken 31 30" "gEfiCurrentTpl s = 31"
  shows "\<exists>s'. CoreReleaseEventLock (RunTpl P) s = Some s'"
  by (rule release_total [OF assms(2,3)]) (use drained_high [OF assms(1)] in simp_all)

text \<open>The states of the loop, and what a signal in it does.\<close>

lemma notify_list_high:
  assumes P: "driver_ok P" and s: "run_before (CheckTimersLoop now) s"
  shows "\<exists>s'. CoreNotifySignalList (RunTpl P) P guid s = Some s' \<and> run_before (CheckTimersLoop now) s'"
proof -
  have ok: "events_ok s" "\<not> Acquired (gEventQueueLock s)" "gEfiCurrentTpl s = 30" using s by simp_all
  obtain t where t: "CoreAcquireEventLock P s = Some t" using acquire_total [OF ok(1,2)] by blast
  note a = acquire_event [OF t ok(1)]
  have "Acquired (gEventQueueLock t)" using a(3) by simp
  then obtain u where u: "CoreNotifySignalList_loop guid (gEventSignalQueue t) t = Some u"
    using NotifySignalList_loop_total [OF a(1) _ subset_refl] by blast
  note n = CoreNotifySignalList_loop_ok [OF u a(1) subset_refl]
  have "gEventQueueLock u = gEventQueueLock t" "gEfiCurrentTpl u = gEfiCurrentTpl t" by (subst conjunct2 [OF n], simp)+
  then obtain s' where s': "CoreReleaseEventLock (RunTpl P) u = Some s'"
    using release_high [OF conjunct1 [OF n]] a(3,4) ok(3) by auto
  have r: "CoreNotifySignalList (RunTpl P) P guid s = Some s'" using t u s' by (simp add: CoreNotifySignalList_def)
  have "may_lower (gEfiCurrentTpl s) s" using s by (simp add: may_lower_def)
  from core.CoreNotifySignalList_ok [OF P r ok(1) this] have "resumed s s'" by blast
  then have "run_before (CheckTimersLoop now) s'" using s by (auto simp: resumed_def locks_kept_def lock_kept_def)
  then show ?thesis using r by blast
qed

lemma signal_high:
  assumes P: "driver_ok P" and s: "run_before (CheckTimersLoop now) s" and e: "Events s ev = Some e"
  shows "\<exists>s'. CoreSignalEvent (RunTpl P) P ev s = Some (EFI_SUCCESS, s')"
proof -
  have ok: "events_ok s" "\<not> Acquired (gEventQueueLock s)" "gEfiCurrentTpl s = 30" using s by simp_all
  have sig: "ev \<noteq> 0" "Signature e = EVENT_SIGNATURE" "SignalCount e \<le> 1" using ok(1) e by (auto simp: events_ok_def event_ok_def)
  obtain t where t: "CoreAcquireEventLock P s = Some t" using acquire_total [OF ok(1,2)] by blast
  note a = acquire_event [OF t ok(1), unfolded ok(3)]
  have low: "\<not> Acquired (mEfiSystemTimeLock s)" using s by simp
  obtain u where u: "(if SignalCount e = 0 then SignalEvent_first (RunTpl P) P ev e t else Some t) = Some u"
    and u2: "events_ok u" "gEventQueueLock u = taken 31 30" "gEfiCurrentTpl u = 31"
  proof (cases "SignalCount e = 0")
    case False
    then show ?thesis using that a by simp
  next
    case True
    let ?v = "t\<lparr>Events := (Events s)(ev \<mapsto> e\<lparr>SignalCount := 1\<rparr>)\<rparr>"
    have v: "UpdateEvent ev (\<lambda>e. e\<lparr>SignalCount := SignalCount e + 1\<rparr>) t = Some ?v" using e a(6) True by (simp add: UpdateEvent_def)
    have v1: "events_ok ?v" by (rule UpdateEvent_ok(1) [OF a(1) v]) (use True e(1) a(6) in \<open>auto simp: same_event_def\<close>)
    have v2: "gEventQueueLock ?v = taken 31 30" "gEfiCurrentTpl ?v = 31" "rest ?v = rest s" using a by simp_all
    show ?thesis
    proof (cases "EventType e AND EVT_NOTIFY_SIGNAL \<noteq> 0")
      case False
      then have "SignalEvent_first (RunTpl P) P ev e t = Some ?v" unfolding SignalEvent_first_def v by simp
      then show ?thesis using that v1 v2 True by simp
    next
      case sg: True
      have nt: "notifiable (e\<lparr>SignalCount := 1\<rparr>)" using sg ok(1) e by (auto simp: events_ok_def event_ok_def notifiable_def)
      show ?thesis
      proof (cases "ExFlag e AND EVT_EXFLAG_EVENT_GROUP \<noteq> 0")
        case False
        have ev: "Events ?v ev = Some (e\<lparr>SignalCount := 1\<rparr>)" by simp
        have "Acquired (gEventQueueLock ?v)" using v2(1) by simp
        then obtain u where u: "CoreNotifyEvent ev ?v = Some u" using CoreNotifyEvent_total [OF v1 _ ev nt] by blast
        note k = CoreNotifyEvent_ok [OF v1 u ev nt]
        have "gEventQueueLock u = gEventQueueLock ?v" "gEfiCurrentTpl u = gEfiCurrentTpl ?v" by (subst k(2), simp)+
        moreover have "SignalEvent_first (RunTpl P) P ev e t = Some u" unfolding SignalEvent_first_def v using sg False u by simp
        ultimately show ?thesis using that k(1) v2(1,2) True by simp
      next
        case gr: True
        obtain w where w: "CoreReleaseEventLock (RunTpl P) ?v = Some w" using release_high [OF v1 v2(1,2)] by blast
        have m: "Acquired (mEfiTimerLock ?v) \<longrightarrow> 30 \<le> (30 :: EFI_TPL)" "Acquired (mEfiSystemTimeLock ?v) \<longrightarrow> 31 \<le> (30 :: EFI_TPL)"
          using low v2(3) by (simp_all add: rest_def)
        have "drained 30 ?v" by (rule drained_high [OF v1]) simp
        note w2 = core.release_event [OF P w v1 v2(1) m]
        have w3: "rest w = rest s" "Events w = Events ?v" using w2(7) [OF \<open>drained 30 ?v\<close>] v2(3) by simp_all
        have "run_before (CheckTimersLoop now) w" using w2(1,2,5) w3(1) s by (simp add: rest_def)
        then obtain x where x: "CoreNotifySignalList (RunTpl P) P (EventGroup e) w = Some x" "run_before (CheckTimersLoop now) x"
          using notify_list_high [OF P] by blast
        then have x2: "events_ok x" "\<not> Acquired (gEventQueueLock x)" "gEfiCurrentTpl x = 30" by simp_all
        obtain u where u: "CoreAcquireEventLock P x = Some u" using acquire_total [OF x2(1,2)] by blast
        note b = acquire_event [OF u x2(1), unfolded x2(3)]
        have "Events w ev = Some (e\<lparr>SignalCount := 1\<rparr>)" using w3(2) by simp
        then have "SignalEvent_first (RunTpl P) P ev e t = Some u" unfolding SignalEvent_first_def v using sg gr w x(1) u by simp
        then show ?thesis using that b True by simp
      qed
    qed
  qed
  obtain s' where "CoreReleaseEventLock (RunTpl P) u = Some s'" using release_high [OF u2] by blast
  then show ?thesis using sig e t u by (auto simp: CoreSignalEvent_def)
qed

text \<open>With what is known of a signal: it only counts.\<close>

lemma signal_counts:
  assumes P: "driver_ok P" and s: "run_before (CheckTimersLoop now) s" and e: "Events s ev = Some e"
  shows "\<exists>s'. CoreSignalEvent (RunTpl P) P ev s = Some (EFI_SUCCESS, s') \<and> run_before (CheckTimersLoop now) s' \<and> rest s' = rest s \<and>
    Events s' = (Events s)(ev \<mapsto> e\<lparr>SignalCount := 1\<rparr>)"
proof -
  obtain s' where r: "CoreSignalEvent (RunTpl P) P ev s = Some (EFI_SUCCESS, s')" using signal_high [OF assms] by blast
  have ok: "events_ok s" "may_lower (gEfiCurrentTpl s) s" "30 \<le> gEfiCurrentTpl s" using s by (simp_all add: may_lower_def)
  have "Events s' = (Events s)(ev \<mapsto> e\<lparr>SignalCount := 1\<rparr>)"
    using core.CoreSignalEvent_ok [OF P r ok(1,2)] ok(3) e by (auto simp: EFI_SUCCESS_def EFI_INVALID_PARAMETER_def EFI_ERROR_BIT_def)
  then show ?thesis using r core.signal_timer(1,2) [OF P r s] by blast
qed

subsection \<open>One timer\<close>

text \<open>The turns that a timer still takes in the loop: two for one that is late, whose time is set to now first.\<close>

definition turns :: "UINT64 \<Rightarrow> IEVENT \<Rightarrow> nat" where
  "turns now e = (if TriggerTime e > now then 0 else if Period e = 0 \<or> TriggerTime e + Period e > now then 1 else 2)"

definition next_time :: "UINT64 \<Rightarrow> IEVENT \<Rightarrow> UINT64" where
  "next_time now e = (if TriggerTime e + Period e \<le> now then now else TriggerTime e + Period e)"

text \<open>No time of a periodic timer wraps around.\<close>

definition no_wrap :: "UINT64 \<Rightarrow> IEVENT \<Rightarrow> bool" where
  "no_wrap now e \<longleftrightarrow> (Period e \<noteq> 0 \<longrightarrow> unat now + unat (Period e) < 2 ^ 64)"

lemma turns_less:
  assumes "no_wrap now e" "TriggerTime e \<le> now" "Period e \<noteq> 0"
  shows "turns now (e\<lparr>SignalCount := n, TriggerTime := next_time now e\<rparr>) < turns now e"
proof -
  have u: "unat now + unat (Period e) < 2 ^ 64" using assms(1,3) by (simp add: no_wrap_def)
  then have "unat (now + Period e) = unat now + unat (Period e)" by (simp add: unat_word_ariths)
  moreover have "0 < unat (Period e)" using assms(3) by (simp add: unat_gt_0)
  ultimately have "now < now + Period e" by (simp add: word_less_nat_alt)
  then show ?thesis using assms(2,3) by (auto simp: turns_def next_time_def not_le)
qed

lemma check_event_not_timer:
  assumes "events_ok s" "ev \<in> set (mEfiTimerList s) \<or> (\<exists>e. Events s ev = Some e \<and> EventType e AND EVT_TIMER \<noteq> 0)"
  shows "ev \<noteq> mEfiCheckTimerEvent s"
proof -
  obtain c where c: "Events s (mEfiCheckTimerEvent s) = Some c" "EventType c = EVT_NOTIFY_SIGNAL"
    using assms(1) by (auto simp: events_ok_def check_event_ok_def)
  obtain e where "Events s ev = Some e" "EventType e AND EVT_TIMER \<noteq> 0" using assms by (auto simp: events_ok_def timers_ok_def)
  then show ?thesis using c by (auto simp: evt_defs)
qed

text \<open>A periodic timer is put back behind all that are not later.\<close>

lemma requeue_total:
  assumes P: "driver_ok P" and s: "run_before (CheckTimersLoop now) s" "ev \<notin> set (mEfiTimerList s)"
    and e: "Events s ev = Some e" "EventType e AND EVT_TIMER \<noteq> 0"
  shows "\<exists>s'. SetPeriodicTimer (RunTpl P) P now ev e s = Some s' \<and> run_before (CheckTimersLoop now) s' \<and>
    mset (mEfiTimerList s') = add_mset ev (mset (mEfiTimerList s)) \<and> mEfiTimerLock s' = mEfiTimerLock s \<and>
    mEfiCheckTimerEvent s' = mEfiCheckTimerEvent s \<and>
    Events s' ev = Some (e\<lparr>TriggerTime := next_time now e\<rparr>) \<and>
    (\<forall>x. x \<noteq> ev \<longrightarrow> x \<noteq> mEfiCheckTimerEvent s \<longrightarrow> Events s' x = Events s x)"
proof -
  have ok: "events_ok s" "SignalCount e \<le> 1" using s(1) e(1) by (auto simp: events_ok_def event_ok_def)
  have ne: "ev \<noteq> mEfiCheckTimerEvent s" using check_event_not_timer [OF ok(1)] e by blast
  let ?t = "s\<lparr>Events := (Events s)(ev \<mapsto> e\<lparr>TriggerTime := TriggerTime e + Period e\<rparr>)\<rparr>"
  have t: "UpdateEvent ev (\<lambda>e. e\<lparr>TriggerTime := TriggerTime e + Period e\<rparr>) s = Some ?t" using e(1) by (simp add: UpdateEvent_def)
  have t1: "events_ok ?t" by (rule UpdateEvent_ok(1) [OF ok(1) t]) (use ok(2) e s(2) in \<open>auto simp: same_event_def\<close>)
  obtain u where u: "(if TriggerTime e + Period e \<le> now then LateTimer (RunTpl P) P now ev ?t else Some ?t) = Some u"
    and u2: "run_before (CheckTimersLoop now) u" "rest u = rest s" "Events u ev = Some (e\<lparr>TriggerTime := next_time now e\<rparr>)"
      "\<forall>x. x \<noteq> ev \<longrightarrow> x \<noteq> mEfiCheckTimerEvent s \<longrightarrow> Events u x = Events s x"
  proof (cases "TriggerTime e + Period e \<le> now")
    case False
    then show ?thesis using that t1 s(1) by (simp add: next_time_def)
  next
    case True
    let ?v = "s\<lparr>Events := (Events s)(ev \<mapsto> e\<lparr>TriggerTime := now\<rparr>)\<rparr>"
    have v: "UpdateEvent ev (\<lambda>e. e\<lparr>TriggerTime := now\<rparr>) ?t = Some ?v" by (simp add: UpdateEvent_def)
    have v1: "events_ok ?v" by (rule UpdateEvent_ok(1) [OF t1 v]) (use ok(2) s(2) in \<open>auto simp: same_event_def\<close>)
    have v2: "run_before (CheckTimersLoop now) ?v" using v1 s(1) by simp
    obtain c where c: "Events ?v (mEfiCheckTimerEvent ?v) = Some c" using ok(1) ne by (auto simp: events_ok_def)
    from signal_counts [OF P v2 c] obtain u where u: "CoreSignalEvent (RunTpl P) P (mEfiCheckTimerEvent ?v) ?v = Some (EFI_SUCCESS, u)"
      "run_before (CheckTimersLoop now) u" "rest u = rest ?v"
      "Events u = (Events ?v)(mEfiCheckTimerEvent ?v \<mapsto> c\<lparr>SignalCount := 1\<rparr>)" by blast
    have "LateTimer (RunTpl P) P now ev ?t = Some u" using u(1) by (simp add: LateTimer_def v)
    then show ?thesis using that True u(2-4) ne by (simp add: next_time_def)
  qed
  have u3: "events_ok u" "mEfiTimerList u = mEfiTimerList s" "mEfiTimerLock u = mEfiTimerLock s" "Acquired (mEfiTimerLock u)"
    "mEfiCheckTimerEvent u = mEfiCheckTimerEvent s" using u2(1,2) by (simp_all add: rest_def)
  have "timers_ok (Events u) (mEfiTimerList u)" using u3(1) by (simp add: events_ok_def)
  then have "\<forall>x \<in> set (mEfiTimerList u). Events u x \<noteq> None" by (auto simp: timers_ok_def)
  from CoreInsertEventTimer_loop_eq [OF this] obtain s' where i: "CoreInsertEventTimer ev u = Some s'"
    using u3(4) u2(3) by (simp add: CoreInsertEventTimer_def)
  have r: "SetPeriodicTimer (RunTpl P) P now ev e s = Some s'" using t u i by (simp add: SetPeriodicTimer_def)
  have "ev \<notin> set (mEfiTimerList u)" using u3(2) s(2) by simp
  moreover have "EventType (e\<lparr>TriggerTime := next_time now e\<rparr>) AND EVT_TIMER \<noteq> 0" using e(2) by simp
  ultimately have z0: "events_ok s'" "s' = u\<lparr>mEfiTimerList := mEfiTimerList s'\<rparr>"
    "mEfiTimerList s' = takeWhile (\<lambda>x. trigger (Events u) x \<le> next_time now e) (mEfiTimerList u) @ ev #
       dropWhile (\<lambda>x. trigger (Events u) x \<le> next_time now e) (mEfiTimerList u)"
    using CoreInsertEventTimer_ok [OF u3(1) _ u2(3) _ i] by simp_all
  have tw: "mset (takeWhile Q xs @ ev # dropWhile Q xs) = add_mset ev (mset xs)" for Q and xs :: "EFI_EVENT list"
  proof -
    have "mset (takeWhile Q xs) + mset (dropWhile Q xs) = mset xs" by (simp flip: mset_append)
    then show ?thesis by simp
  qed
  have m: "mset (mEfiTimerList s') = add_mset ev (mset (mEfiTimerList u))" unfolding z0(3) by (rule tw)
  have "Events s' = Events u" "mEfiTimerLock s' = mEfiTimerLock u" "mEfiCheckTimerEvent s' = mEfiCheckTimerEvent u"
    "gEfiCurrentTpl s' = gEfiCurrentTpl u" "gEventQueueLock s' = gEventQueueLock u" "mEfiSystemTimeLock s' = mEfiSystemTimeLock u"
    by (subst z0(2), simp)+
  then show ?thesis using r z0(1) m u2 u3 by simp
qed

subsection \<open>The loop\<close>

definition turns_left :: "UINT64 \<Rightarrow> 'e dxe_events \<Rightarrow> nat" where
  "turns_left now s = sum_list (map (\<lambda>ev. case Events s ev of None \<Rightarrow> 0 | Some e \<Rightarrow> turns now e) (mEfiTimerList s))"

text \<open>What the loop is to do: signal the timers whose time has come, and keep those that are later or periodic, all later than now.\<close>

definition periodic :: "(EFI_EVENT \<rightharpoonup> IEVENT) \<Rightarrow> EFI_EVENT \<Rightarrow> bool" where
  "periodic events ev \<longleftrightarrow> (\<exists>e. events ev = Some e \<and> Period e \<noteq> 0)"

definition fired :: "UINT64 \<Rightarrow> 'e dxe_events \<Rightarrow> 'e dxe_events \<Rightarrow> bool" where
  "fired now s s' \<longleftrightarrow>
     set (mEfiTimerList s') = {ev \<in> set (mEfiTimerList s). now < trigger (Events s) ev \<or> periodic (Events s) ev} \<and>
     (\<forall>ev \<in> set (mEfiTimerList s'). now < trigger (Events s') ev) \<and>
     (\<forall>ev \<in> set (mEfiTimerList s). trigger (Events s) ev \<le> now \<longrightarrow> (\<exists>e. Events s' ev = Some e \<and> SignalCount e = 1)) \<and>
     (\<forall>ev. ev \<noteq> mEfiCheckTimerEvent s \<longrightarrow> ev \<notin> set (mEfiTimerList s) \<or> now < trigger (Events s) ev \<longrightarrow> Events s' ev = Events s ev)"

lemma fired_none:
  assumes "\<forall>ev \<in> set (mEfiTimerList s). now < trigger (Events s) ev" shows "fired now s s"
  using assms by (auto simp: fired_def)

lemma CheckTimers_turn:
  assumes P: "driver_ok P" and s: "run_before (CheckTimersLoop now) s" and l: "mEfiTimerList s = ev # link"
    and e: "Events s ev = Some e" "TriggerTime e \<le> now" and w: "no_wrap now e"
  shows "\<exists>u f. RunTpl P (CheckTimersLoop now) s = RunTpl P (CheckTimersLoop now) u \<and> run_before (CheckTimersLoop now) u \<and>
    mEfiTimerLock u = mEfiTimerLock s \<and> mEfiCheckTimerEvent u = mEfiCheckTimerEvent s \<and>
    mset (mEfiTimerList u) = (if Period e = 0 then mset link else add_mset ev (mset link)) \<and>
    Events u ev = Some f \<and> SignalCount f = 1 \<and> Period f = Period e \<and> (Period e \<noteq> 0 \<longrightarrow> turns now f < turns now e) \<and>
    (\<forall>x. x \<noteq> ev \<longrightarrow> x \<noteq> mEfiCheckTimerEvent s \<longrightarrow> Events u x = Events s x)"
proof -
  let ?s = "s\<lparr>mEfiTimerList := link\<rparr>" and ?e = "e\<lparr>SignalCount := 1\<rparr>"
  have tm: "timers_ok (Events s) (ev # link)" using s l by (simp add: events_ok_def)
  then have ty: "EventType e AND EVT_TIMER \<noteq> 0" using e(1) by (auto simp: timers_ok_def)
  have "timers_ok (Events s) link" "ev \<notin> set link" using tm by (simp_all add: timers_ok_def)
  then have s2: "run_before (CheckTimersLoop now) ?s" "Events ?s ev = Some e" using s e(1) by (simp_all add: events_ok_def)
  from signal_counts [OF P s2] obtain t where t: "CoreSignalEvent (RunTpl P) P ev ?s = Some (EFI_SUCCESS, t)"
    "run_before (CheckTimersLoop now) t" "rest t = rest ?s" "Events t = (Events ?s)(ev \<mapsto> ?e)" by blast
  have t2: "Events t ev = Some ?e" "ev \<notin> set (mEfiTimerList t)" "mEfiTimerList t = link" "mEfiTimerLock t = mEfiTimerLock s"
    "mEfiCheckTimerEvent t = mEfiCheckTimerEvent s" using t(3,4) \<open>ev \<notin> set link\<close> by (simp_all add: rest_def)
  have step: "RunTpl P (CheckTimersLoop now) s = RunTpl P (CheckTimersLoop now) u"
    if "(if Period e \<noteq> 0 then SetPeriodicTimer (RunTpl P) P now ev ?e t else Some t) = Some u" for u
    by (subst RunTpl_eqs(4)) (use that t(1) t2(1) l e in \<open>simp add: CheckTimers_step_def not_less [symmetric] split: if_splits\<close>)
  show ?thesis
  proof (cases "Period e = 0")
    case True
    then have "RunTpl P (CheckTimersLoop now) s = RunTpl P (CheckTimersLoop now) t" by (intro step) simp
    then show ?thesis using t t2 True by (intro exI [of _ t] exI [of _ ?e]) simp
  next
    case False
    have "EventType ?e AND EVT_TIMER \<noteq> 0" using ty by simp
    from requeue_total [OF P t(2) t2(2,1) this] obtain u where u: "SetPeriodicTimer (RunTpl P) P now ev ?e t = Some u"
      "run_before (CheckTimersLoop now) u" "mset (mEfiTimerList u) = add_mset ev (mset link)" "mEfiTimerLock u = mEfiTimerLock s"
      "mEfiCheckTimerEvent u = mEfiCheckTimerEvent s" "Events u ev = Some (?e\<lparr>TriggerTime := next_time now ?e\<rparr>)"
      "\<forall>x. x \<noteq> ev \<longrightarrow> x \<noteq> mEfiCheckTimerEvent s \<longrightarrow> Events u x = Events t x" unfolding t2(3-5) by blast
    have "next_time now ?e = next_time now e" by (simp add: next_time_def)
    then have "turns now (?e\<lparr>TriggerTime := next_time now ?e\<rparr>) < turns now e" using turns_less [OF w e(2) False, of 1] by simp
    moreover have "RunTpl P (CheckTimersLoop now) s = RunTpl P (CheckTimersLoop now) u" using u(1) False by (intro step) simp
    ultimately show ?thesis using u(2-7) t(4) False
      by (intro exI [of _ u] exI [of _ "?e\<lparr>TriggerTime := next_time now ?e\<rparr>"]) simp
  qed
qed

lemma CheckTimersLoop_fires:
  assumes P: "driver_ok P"
  shows "run_before (CheckTimersLoop now) s \<Longrightarrow> \<forall>ev \<in> set (mEfiTimerList s). \<forall>e. Events s ev = Some e \<longrightarrow> no_wrap now e \<Longrightarrow>
    \<exists>s'. RunTpl P (CheckTimersLoop now) s = Some s' \<and> run_before (CheckTimersLoop now) s' \<and> mEfiTimerLock s' = mEfiTimerLock s \<and> fired now s s'"
proof (induction "turns_left now s" arbitrary: s rule: less_induct)
  case less
  note s = less.prems(1)
  have tm: "timers_ok (Events s) (mEfiTimerList s)" and ok: "events_ok s" using s by (simp_all add: events_ok_def)
  show ?case
  proof (cases "mEfiTimerList s")
    case Nil
    then have "RunTpl P (CheckTimersLoop now) s = Some s" by (simp add: RunTpl_eqs CheckTimers_step_def)
    then show ?thesis using s fired_none [of s now] Nil by auto
  next
    case (Cons ev link)
    obtain e where e: "Events s ev = Some e" using tm Cons by (auto simp: timers_ok_def)
    show ?thesis
    proof (cases "TriggerTime e > now")
      case True
      then have "RunTpl P (CheckTimersLoop now) s = Some s" using Cons e by (simp add: RunTpl_eqs CheckTimers_step_def)
      moreover have "\<forall>x \<in> set (mEfiTimerList s). now < trigger (Events s) x"
        using tm True e unfolding Cons timers_ok_def by (auto simp: trigger_def dest: less_le_trans)
      ultimately show ?thesis using s fired_none by blast
    next
      case False
      then have due: "TriggerTime e \<le> now" by simp
      have w: "no_wrap now e" using less.prems(2) Cons e by simp
      from CheckTimers_turn [OF P s Cons e due w] obtain u f where
        u: "RunTpl P (CheckTimersLoop now) s = RunTpl P (CheckTimersLoop now) u" "run_before (CheckTimersLoop now) u"
          "mEfiTimerLock u = mEfiTimerLock s" "mEfiCheckTimerEvent u = mEfiCheckTimerEvent s"
          "mset (mEfiTimerList u) = (if Period e = 0 then mset link else add_mset ev (mset link))"
        and f: "Events u ev = Some f" "SignalCount f = 1" "Period f = Period e" "Period e \<noteq> 0 \<longrightarrow> turns now f < turns now e"
        and same: "\<forall>x. x \<noteq> ev \<longrightarrow> x \<noteq> mEfiCheckTimerEvent s \<longrightarrow> Events u x = Events s x" by blast
      have link: "ev \<notin> set link" using tm Cons by (simp add: timers_ok_def)
      have set_u: "set (mEfiTimerList u) = (if Period e = 0 then set link else insert ev (set link))"
        using arg_cong [OF u(5), of set_mset] by (simp split: if_splits)
      have not_check: "x \<noteq> mEfiCheckTimerEvent s" if "x \<in> set (mEfiTimerList s)" for x using check_event_not_timer [OF ok] that by blast
      have others: "Events u x = Events s x" if "x \<in> set link" for x using same that link not_check [of x] Cons by auto
      have less_u: "turns_left now u < turns_left now s"
      proof -
        have pos: "0 < turns now e" using False by (simp add: turns_def)
        let ?g = "\<lambda>events ev. case events ev of None \<Rightarrow> 0 | Some e \<Rightarrow> turns now e"
        have "turns_left now u = sum_mset (image_mset (?g (Events u)) (mset (mEfiTimerList u)))"
          by (simp add: turns_left_def sum_mset_sum_list flip: mset_map)
        also have "\<dots> = (if Period e = 0 then 0 else turns now f) + sum_list (map (?g (Events u)) link)"
          using f(1) by (simp add: u(5) sum_mset_sum_list flip: mset_map)
        also have "map (?g (Events u)) link = map (?g (Events s)) link" using others by (intro map_cong) simp_all
        also have "(if Period e = 0 then 0 else turns now f) + sum_list (map (?g (Events s)) link) < turns_left now s"
          using f(4) e pos by (simp add: turns_left_def Cons)
        finally show ?thesis .
      qed
      have "\<forall>x \<in> set (mEfiTimerList u). \<forall>e. Events u x = Some e \<longrightarrow> no_wrap now e"
      proof (intro ballI allI impI)
        fix x d assume x: "x \<in> set (mEfiTimerList u)" "Events u x = Some d"
        show "no_wrap now d"
        proof (cases "x = ev")
          case True
          then show ?thesis using x(2) f(1,3) w by (simp add: no_wrap_def)
        next
          case False
          then have "x \<in> set link" using x(1) set_u by (simp split: if_splits)
          then show ?thesis using less.prems(2) x(2) others Cons by simp
        qed
      qed
      from less.hyps [OF less_u u(2) this] obtain s' where s': "RunTpl P (CheckTimersLoop now) u = Some s'"
        "run_before (CheckTimersLoop now) s'" "mEfiTimerLock s' = mEfiTimerLock u" "fired now u s'" by blast
      have tr: "trigger (Events u) x = trigger (Events s) x" "periodic (Events u) x = periodic (Events s) x" if "x \<in> set link" for x
        using others [OF that] by (simp_all add: trigger_def periodic_def)
      have pe: "periodic (Events u) ev \<longleftrightarrow> Period e \<noteq> 0" "periodic (Events s) ev \<longleftrightarrow> Period e \<noteq> 0" "trigger (Events s) ev = TriggerTime e"
        using e f(1,3) by (simp_all add: periodic_def trigger_def)
      have "fired now s s'"
        unfolding fired_def
      proof (intro conjI)
        have "set (mEfiTimerList s') = {x \<in> set (mEfiTimerList u). now < trigger (Events u) x \<or> periodic (Events u) x}"
          using s'(4) by (simp add: fired_def)
        then show "set (mEfiTimerList s') = {x \<in> set (mEfiTimerList s). now < trigger (Events s) x \<or> periodic (Events s) x}"
          using set_u Cons tr pe due by (auto split: if_splits)
        show "\<forall>x \<in> set (mEfiTimerList s'). now < trigger (Events s') x" using s'(4) by (simp add: fired_def)
        show "\<forall>x \<in> set (mEfiTimerList s). trigger (Events s) x \<le> now \<longrightarrow> (\<exists>e. Events s' x = Some e \<and> SignalCount e = 1)"
        proof (intro ballI impI)
          fix x assume x: "x \<in> set (mEfiTimerList s)" "trigger (Events s) x \<le> now"
          show "\<exists>e. Events s' x = Some e \<and> SignalCount e = 1"
          proof (cases "x \<in> set (mEfiTimerList u) \<and> trigger (Events u) x \<le> now")
            case True
            then show ?thesis using s'(4) by (simp add: fired_def)
          next
            case False
            have "x = ev" using x False set_u Cons tr by (auto split: if_splits)
            moreover have "Events s' x = Events u x" using s'(4) False not_check [OF x(1)] u(4) by (simp add: fired_def not_le)
            ultimately show ?thesis using f(1,2) by simp
          qed
        qed
        show "\<forall>x. x \<noteq> mEfiCheckTimerEvent s \<longrightarrow> x \<notin> set (mEfiTimerList s) \<or> now < trigger (Events s) x \<longrightarrow> Events s' x = Events s x"
        proof (intro allI impI)
          fix x assume x: "x \<noteq> mEfiCheckTimerEvent s" "x \<notin> set (mEfiTimerList s) \<or> now < trigger (Events s) x"
          have ne: "x \<noteq> ev" using x(2) pe(3) due Cons by auto
          then have "x \<notin> set (mEfiTimerList u) \<or> now < trigger (Events u) x" using x(2) set_u Cons tr by (auto split: if_splits)
          then have "Events s' x = Events u x" using s'(4) x(1) u(4) by (simp add: fired_def)
          then show "Events s' x = Events s x" using same x(1) ne by simp
        qed
      qed
      then show ?thesis using s' u(1,3) by auto
    qed
  qed
qed

subsection \<open>The whole check\<close>

lemma fired_cong:
  assumes "Events t = Events s" "mEfiTimerList t = mEfiTimerList s" "mEfiCheckTimerEvent t = mEfiCheckTimerEvent s"
    and "Events t' = Events s'" "mEfiTimerList t' = mEfiTimerList s'"
  shows "fired now t t' = fired now s s'"
  unfolding fired_def assms ..

lemma CurrentSystemTime_high:
  assumes P: "driver_ok P" and s: "run_before (CheckTimersLoop n) s"
  shows "\<exists>s'. CoreCurrentSystemTime (RunTpl P) P s = Some (mEfiSystemTime s, s')"
proof -
  have ok: "events_ok s" "gEfiCurrentTpl s = 30" "\<not> Acquired (mEfiSystemTimeLock s)" using s by simp_all
  obtain t where t: "AcquireSystemTimeLock P s = Some t"
    using ok by (auto simp: AcquireSystemTimeLock_def CoreAcquireLock_def CoreRaiseTpl_def Let_def TPL_HIGH_LEVEL_def events_ok_def)
  note a = AcquireSystemTimeLock_Some [OF t ok(1), unfolded ok(2)]
  let ?t = "t\<lparr>mEfiSystemTimeLock := (taken 31 30)\<lparr>Acquired := False\<rparr>\<rparr>"
  have f: "mEfiSystemTimeLock t = taken 31 30" "gEfiCurrentTpl t = 31" by (subst a(1), simp)+
  have "events_ok ?t" using a(3) f(1) by (simp add: events_ok_def)
  then have "drained 30 ?t" by (rule drained_high) simp
  then obtain s' where s': "RunTpl P (RestoreTpl 30) ?t = Some s'" using restore_total [of ?t 30 P] f(2) by auto
  then have c: "CoreCurrentSystemTime (RunTpl P) P s = Some (mEfiSystemTime t, s')"
    using t f(1) by (simp add: CoreCurrentSystemTime_def ReleaseSystemTimeLock_def)
  then show ?thesis using core.CoreCurrentSystemTime_ok(2) [OF P c s] by auto
qed

lemma CoreCheckTimers_fires:
  assumes P: "driver_ok P" and s: "events_ok s" "unlocked s" "gEfiCurrentTpl s = 30"
    and w: "\<forall>ev \<in> set (mEfiTimerList s). \<forall>e. Events s ev = Some e \<longrightarrow> no_wrap (mEfiSystemTime s) e"
  shows "\<exists>s'. CoreCheckTimers (RunTpl P) P s = Some s' \<and> events_ok s' \<and> unlocked s' \<and> fired (mEfiSystemTime s) s s'"
proof -
  let ?now = "mEfiSystemTime s"
  have "\<not> Acquired (mEfiTimerLock s)" using s(2) by (simp add: unlocked_def)
  then obtain t where t: "AcquireTimerLock P s = Some t"
    using s(1,3) by (auto simp: AcquireTimerLock_def CoreAcquireLock_def CoreRaiseTpl_def Let_def TPL_HIGH_LEVEL_def events_ok_def)
  note a = AcquireTimerLock_Some [OF t s(1), unfolded s(3)]
  have f: "gEfiCurrentTpl t = 30" "mEfiTimerLock t = taken 30 30" "gEventQueueLock t = gEventQueueLock s"
    "mEfiSystemTimeLock t = mEfiSystemTimeLock s" "mEfiSystemTime t = ?now" "Events t = Events s" "mEfiTimerList t = mEfiTimerList s"
    "mEfiCheckTimerEvent t = mEfiCheckTimerEvent s" by (subst a(1), simp)+
  have tb: "run_before (CheckTimersLoop ?now) t" using a(4) f s(2) by (simp add: unlocked_def)
  obtain u where u: "CoreCurrentSystemTime (RunTpl P) P t = Some (?now, u)" using CurrentSystemTime_high [OF P tb] f(5) by auto
  note u' = core.CoreCurrentSystemTime_ok [OF P u tb]
  have g: "Events u = Events s" "mEfiTimerList u = mEfiTimerList s" "mEfiCheckTimerEvent u = mEfiCheckTimerEvent s" "mEfiTimerLock u = taken 30 30"
    by (subst u'(3), simp add: f)+
  obtain v where v: "RunTpl P (CheckTimersLoop ?now) u = Some v" "run_before (CheckTimersLoop ?now) v" "mEfiTimerLock v = mEfiTimerLock u"
    "fired ?now u v" using CheckTimersLoop_fires [OF P u'(1)] w g by auto
  let ?v = "v\<lparr>mEfiTimerLock := (taken 30 30)\<lparr>Acquired := False\<rparr>\<rparr>"
  have v2: "events_ok ?v" "gEfiCurrentTpl ?v = 30" using v(2,3) g(4) by (simp_all add: events_ok_def)
  have d: "drained 30 ?v" by (rule drained_high [OF v2(1)]) simp
  obtain s' where s': "RunTpl P (RestoreTpl 30) ?v = Some s'" using restore_total [OF _ _ d, of P] v2(2) by auto
  have r: "CoreCheckTimers (RunTpl P) P s = Some s'" using t u v(1,3) g(4) s' by (simp add: CoreCheckTimers_def ReleaseTimerLock_def)
  have "run_before (RestoreTpl 30) ?v" using v2(1) v(2) by (simp add: may_lower_def)
  from core.run_keeps [OF P s' this] have e: "s' = ?v\<lparr>gEfiCurrentTpl := 30, Interrupts := Interrupts s'\<rparr>" using d by simp
  have "Events s' = Events v" "mEfiTimerList s' = mEfiTimerList v" by (subst e, simp)+
  then have "fired ?now s s'" using v(4) fired_cong [of u s v s' ?now] g by simp
  then show ?thesis using r core.CoreCheckTimers_ok [OF P r s(1,2)] by blast
qed

subsection \<open>A period that wraps around\<close>

text \<open>A timer in the list that has expired, and whose next time, from now on too, is not after now.\<close>

definition never_later :: "UINT64 \<Rightarrow> IEVENT \<Rightarrow> bool" where
  "never_later now e \<longleftrightarrow> Period e \<noteq> 0 \<and> TriggerTime e \<le> now \<and> TriggerTime e + Period e \<le> now \<and> now + Period e \<le> now"

definition stuck :: "UINT64 \<Rightarrow> 'e dxe_events \<Rightarrow> bool" where
  "stuck now s \<longleftrightarrow> (\<exists>ev \<in> set (mEfiTimerList s). \<exists>e. Events s ev = Some e \<and> never_later now e)"

lemma never_later_signal [simp]: "never_later now (e\<lparr>SignalCount := n\<rparr>) = never_later now e"
  by (simp add: never_later_def)

lemma never_later_next: "never_later now e \<Longrightarrow> never_later now (e\<lparr>TriggerTime := next_time now e, SignalCount := n\<rparr>)"
  by (simp add: never_later_def next_time_def)

context tpl_run
begin

lemma requeue_events:
  assumes P: "driver_ok P" and s: "run_before (CheckTimersLoop now) s" "ev \<notin> set (mEfiTimerList s)"
    and e: "Events s ev = Some e" "EventType e AND EVT_TIMER \<noteq> 0"
    and r: "SetPeriodicTimer run P now ev e s = Some s'"
  shows "set (mEfiTimerList s') = insert ev (set (mEfiTimerList s)) \<and> (\<exists>n. Events s' ev = Some (e\<lparr>TriggerTime := next_time now e, SignalCount := n\<rparr>)) \<and>
    (\<forall>x d. x \<noteq> ev \<longrightarrow> Events s x = Some d \<longrightarrow> (\<exists>n. Events s' x = Some (d\<lparr>SignalCount := n\<rparr>)))"
proof -
  let ?T = "TriggerTime e + Period e"
  let ?t = "s\<lparr>Events := (Events s)(ev \<mapsto> e\<lparr>TriggerTime := ?T\<rparr>)\<rparr>" and ?v = "s\<lparr>Events := (Events s)(ev \<mapsto> e\<lparr>TriggerTime := next_time now e\<rparr>)\<rparr>"
  have t: "UpdateEvent ev (\<lambda>e. e\<lparr>TriggerTime := TriggerTime e + Period e\<rparr>) s = Some ?t" using e(1) by (simp add: UpdateEvent_def)
  obtain u where u: "(if ?T \<le> now then LateTimer run P now ev ?t else Some ?t) = Some u" and i: "CoreInsertEventTimer ev u = Some s'"
    using r by (auto simp: SetPeriodicTimer_def t bind_eq_Some_conv)
  have ok: "events_ok s" "SignalCount e \<le> 1" using s(1) e(1) by (auto simp: events_ok_def event_ok_def)
  have t1: "events_ok ?t" by (rule UpdateEvent_ok(1) [OF ok(1) t]) (use ok(2) e s(2) in \<open>auto simp: same_event_def\<close>)
  have v: "UpdateEvent ev (\<lambda>e. e\<lparr>TriggerTime := next_time now e'\<rparr>) ?t = Some ?v" if "e' = e" for e' using that by (simp add: UpdateEvent_def)
  have v1: "events_ok ?v" by (rule UpdateEvent_ok(1) [OF t1 v [OF refl]]) (use ok(2) s(2) in \<open>auto simp: same_event_def\<close>)
  have v2: "run_before (CheckTimersLoop now) ?v" using v1 s(1) by simp
  have "run_before (CheckTimersLoop now) u \<and> rest u = rest s \<and> (u = ?v \<or> (\<exists>st. CoreSignalEvent run P (mEfiCheckTimerEvent ?v) ?v = Some (st, u)))"
  proof (cases "?T \<le> now")
    case False
    then have "u = ?v" using u by (simp add: next_time_def)
    then show ?thesis using v2 by simp
  next
    case True
    then have "LateTimer run P now ev ?t = Some u" using u by simp
    then obtain st where "CoreSignalEvent run P (mEfiCheckTimerEvent ?v) ?v = Some (st, u)"
      using True v [OF refl] by (auto simp: LateTimer_def next_time_def bind_eq_Some_conv)
    then show ?thesis using signal_timer [OF P _ v2] by fastforce
  qed
  then have u2: "events_ok u" "rest u = rest s" "u = ?v \<or> (\<exists>st. CoreSignalEvent run P (mEfiCheckTimerEvent ?v) ?v = Some (st, u))" by simp_all
  have sc: "\<exists>n. Events u x = Some (d\<lparr>SignalCount := n\<rparr>)" if "Events ?v x = Some d" for x d
    using u2(3) signal_timer_event [OF P _ v2 that] that by (auto intro: exI [of _ "SignalCount d"])
  have "Events ?v ev = Some (e\<lparr>TriggerTime := next_time now e\<rparr>)" by simp
  from sc [OF this] obtain n where n: "Events u ev = Some (e\<lparr>TriggerTime := next_time now e, SignalCount := n\<rparr>)" by auto
  have l: "mEfiTimerList u = mEfiTimerList s" using u2(2) by (simp add: rest_def)
  have "ev \<notin> set (mEfiTimerList u)" "EventType (e\<lparr>TriggerTime := next_time now e, SignalCount := n\<rparr>) AND EVT_TIMER \<noteq> 0"
    using l s(2) e(2) by simp_all
  note z = CoreInsertEventTimer_ok [OF u2(1) this(1) n this(2) i]
  have ev: "Events s' = Events u" by (subst z(2)) simp
  have "set (takeWhile Q xs @ ev # dropWhile Q xs) = insert ev (set xs)" for Q and xs :: "EFI_EVENT list"
  proof -
    have "set (takeWhile Q xs) \<union> set (dropWhile Q xs) = set xs" by (simp flip: set_append)
    then show ?thesis by auto
  qed
  then have "set (mEfiTimerList s') = insert ev (set (mEfiTimerList s))" unfolding z(3) l .
  moreover have "\<exists>n. Events u x = Some (d\<lparr>SignalCount := n\<rparr>)" if "x \<noteq> ev" "Events s x = Some d" for x d
    using sc [of x d] that by simp
  ultimately show ?thesis unfolding ev using n by blast
qed

lemma CheckTimers_step_stuck:
  assumes P: "driver_ok P" and r: "CheckTimers_step run P now s = Some s'" and s: "run_before (CheckTimersLoop now) s" and st: "stuck now s"
  shows "\<exists>u. run (CheckTimersLoop now) u = Some s' \<and> run_before (CheckTimersLoop now) u \<and> stuck now u"
proof -
  obtain x d where x: "x \<in> set (mEfiTimerList s)" "Events s x = Some d" "never_later now d" using st by (auto simp: stuck_def)
  then obtain ev link where Cons: "mEfiTimerList s = ev # link" by (cases "mEfiTimerList s") auto
  have tm: "timers_ok (Events s) (ev # link)" using s Cons by (simp add: events_ok_def)
  then obtain e where e: "Events s ev = Some e" "EventType e AND EVT_TIMER \<noteq> 0" by (auto simp: timers_ok_def)
  have "TriggerTime e \<le> TriggerTime d" using tm x(1,2) e(1) Cons by (auto simp: timers_ok_def trigger_def)
  moreover have "TriggerTime d \<le> now" using x(3) by (simp add: never_later_def)
  ultimately have due: "\<not> TriggerTime e > now" by (meson leD order_trans)
  let ?s = "s\<lparr>mEfiTimerList := link\<rparr>"
  obtain st t f u where t: "CoreSignalEvent run P ev ?s = Some (st, t)" and f: "Events t ev = Some f" and u:
    "(if Period f \<noteq> 0 then SetPeriodicTimer run P now ev f t else Some t) = Some u" and r2: "run (CheckTimersLoop now) u = Some s'"
    using r Cons e(1) due by (auto simp: CheckTimers_step_def bind_eq_Some_conv)
  have "timers_ok (Events s) link" using tm by (simp add: timers_ok_def)
  then have s2: "run_before (CheckTimersLoop now) ?s" using s by (simp add: events_ok_def)
  have t2: "run_before (CheckTimersLoop now) t" "rest t = rest ?s" using signal_timer [OF P t s2] by simp_all
  have tl: "mEfiTimerList t = link" "ev \<notin> set link" using t2(2) tm by (simp_all add: rest_def timers_ok_def)
  have keep: "\<exists>n. Events t y = Some (c\<lparr>SignalCount := n\<rparr>)" if "Events s y = Some c" for y c
    using signal_timer_event [OF P t s2, of y c] that by simp
  from keep [OF e(1)] obtain n where n: "f = e\<lparr>SignalCount := n\<rparr>" using f by auto
  then have ty: "EventType f AND EVT_TIMER \<noteq> 0" using e(2) by simp
  have nl: "ev \<notin> set (mEfiTimerList t)" using tl by simp
  show ?thesis
  proof (cases "Period f = 0")
    case True
    then have "u = t" using u by simp
    have "x \<noteq> ev" using True n x(2,3) e(1) by (auto simp: never_later_def)
    then have "x \<in> set (mEfiTimerList t)" using x(1) Cons tl(1) by simp
    moreover obtain m where "Events t x = Some (d\<lparr>SignalCount := m\<rparr>)" using keep [OF x(2)] by blast
    moreover have "never_later now (d\<lparr>SignalCount := m\<rparr>)" using x(3) by simp
    ultimately have "stuck now t" unfolding stuck_def by blast
    then show ?thesis using r2 t2(1) \<open>u = t\<close> by blast
  next
    case False
    then have q: "SetPeriodicTimer run P now ev f t = Some u" using u by simp
    have ub: "run_before (CheckTimersLoop now) u" using requeue_timer [OF P t2(1) nl f ty q] by blast
    note k = requeue_events [OF P t2(1) nl f ty q]
    have "stuck now u"
    proof (cases "x = ev")
      case True
      then have "never_later now f" using x(2,3) e(1) n by simp
      then show ?thesis using k unfolding stuck_def by (metis insertI1 never_later_next)
    next
      case False
      then have "x \<in> set (mEfiTimerList u)" using k x(1) Cons tl(1) by simp
      moreover from keep [OF x(2)] obtain m where m: "Events t x = Some (d\<lparr>SignalCount := m\<rparr>)" by blast
      moreover obtain m' where "Events u x = Some (d\<lparr>SignalCount := m\<rparr>\<lparr>SignalCount := m'\<rparr>)" using k False m by blast
      moreover have "never_later now (d\<lparr>SignalCount := m\<rparr>\<lparr>SignalCount := m'\<rparr>)" using x(3) by simp
      ultimately show ?thesis unfolding stuck_def by blast
    qed
    then show ?thesis using r2 ub by blast
  qed
qed

end

lemma CheckTimersLoop_stuck:
  assumes P: "driver_ok P" and s: "run_before (CheckTimersLoop now) s" "stuck now s"
  shows "RunTpl P (CheckTimersLoop now) s = None"
proof (rule ccontr)
  assume "RunTpl P (CheckTimersLoop now) s \<noteq> None"
  then obtain s' where r: "RunTpl P (CheckTimersLoop now) s = Some s'" by blast
  have "driver_ok P \<longrightarrow> run_before (CheckTimersLoop now) s \<longrightarrow> run_after (CheckTimersLoop now) s s' \<and>
      \<not> (\<exists>n. CheckTimersLoop now = CheckTimersLoop n \<and> stuck n s)"
  proof (rule RunTpl.raw_induct [where Pa = "\<lambda>((Q, call), s) s'. driver_ok Q \<longrightarrow> run_before call s \<longrightarrow> run_after call s s' \<and>
      \<not> (\<exists>n. call = CheckTimersLoop n \<and> stuck n s)", OF _ r, unfolded prod.case], intro impI conjI)
    fix run :: "'a DXE_PLATFORM \<Rightarrow> 'a run" and Q :: "'a DXE_PLATFORM" and call and s s' :: "'a dxe_events"
    assume IH: "\<And>Q call s s'. run Q call s = Some s' \<Longrightarrow> driver_ok Q \<longrightarrow> run_before call s \<longrightarrow> run_after call s s' \<and>
        \<not> (\<exists>n. call = CheckTimersLoop n \<and> stuck n s)"
      and r: "(case call of
         RestoreTpl newTpl \<Rightarrow> CoreRestoreTpl (run Q) Q newTpl s
       | RestoreTplLoop newTpl \<Rightarrow> RestoreTpl_step (run Q) Q newTpl s
       | DispatchLoop priority \<Rightarrow> DispatchEventNotifies_step (run Q) Q priority s
       | CheckTimersLoop systemTime \<Rightarrow> CheckTimers_step (run Q) Q systemTime s) = Some s'"
      and Q: "driver_ok Q" and s: "run_before call s"
    have run: "tpl_run (run Q) Q" by unfold_locales (use IH in blast)
    show "run_after call s s'"
      using r s tpl_run.CoreRestoreTpl_ok [OF run Q] tpl_run.RestoreTpl_step_ok [OF run Q] tpl_run.DispatchEventNotifies_step_ok [OF run Q]
        tpl_run.CheckTimers_step_ok [OF run Q]
      by (cases call) (simp_all del: run_before.simps run_after.simps)
    show "\<not> (\<exists>n. call = CheckTimersLoop n \<and> stuck n s)"
    proof
      assume "\<exists>n. call = CheckTimersLoop n \<and> stuck n s"
      then obtain n where n: "call = CheckTimersLoop n" "stuck n s" by blast
      then have "CheckTimers_step (run Q) Q n s = Some s'" "run_before (CheckTimersLoop n) s" using r s by simp_all
      from tpl_run.CheckTimers_step_stuck [OF run Q this n(2)] obtain u where
        "run Q (CheckTimersLoop n) u = Some s'" "run_before (CheckTimersLoop n) u" "stuck n u" by blast
      then show False using IH Q by blast
    qed
  qed
  then show False using P s by blast
qed

lemma CoreCheckTimers_stuck:
  assumes P: "driver_ok P" and s: "events_ok s" "unlocked s" "stuck (mEfiSystemTime s) s"
  shows "CoreCheckTimers (RunTpl P) P s = None"
proof (rule ccontr)
  assume "CoreCheckTimers (RunTpl P) P s \<noteq> None"
  then obtain s' t now u v where t: "AcquireTimerLock P s = Some t" and u: "CoreCurrentSystemTime (RunTpl P) P t = Some (now, u)"
    and v: "RunTpl P (CheckTimersLoop now) u = Some v"
    by (auto simp: CoreCheckTimers_def bind_eq_Some_conv)
  note a = AcquireTimerLock_Some [OF t s(1)]
  have f: "gEfiCurrentTpl t = 30" "mEfiTimerLock t = taken 30 (gEfiCurrentTpl s)" "gEventQueueLock t = gEventQueueLock s"
    "mEfiSystemTimeLock t = mEfiSystemTimeLock s" "mEfiSystemTime t = mEfiSystemTime s" "Events t = Events s" "mEfiTimerList t = mEfiTimerList s"
    by (subst a(1), simp)+
  then have tb: "run_before (CheckTimersLoop now) t" using a(4) s(2) by (simp add: unlocked_def)
  note u' = core.CoreCurrentSystemTime_ok [OF P u tb]
  have "Events u = Events s" "mEfiTimerList u = mEfiTimerList s" by (subst u'(3), simp add: f)+
  then have "stuck now u" using s(3) u'(2) f(5) by (simp add: stuck_def)
  from CheckTimersLoop_stuck [OF P u'(1) this] show False using v by simp
qed

end
