(* ===== verification/EventProperties.thy ===== *)
theory EventProperties
  imports DxeExit DxeTimer FirmwareProperties
begin

text \<open>
  What the event services of the DXE core promise, and how boot services end, each property applied to a
  small machine with four events: the core's own two, one of a driver that is told before boot services
  end, and one of another driver.
\<close>

subsection \<open>A small machine\<close>

text \<open>
  The drivers note which of their functions ran, one digit each; function 1 changes the memory map, so
  that its key becomes another one.
\<close>

definition demo_drivers :: "ptr \<Rightarrow> EFI_EVENT \<Rightarrow> ptr \<Rightarrow> nat machine \<Rightarrow> nat machine" where
  "demo_drivers f ev ctx d =
     d\<lparr>MemoryServices := (if f = 1 then (MemoryServices d)\<lparr>mMemoryMapKey := mMemoryMapKey (MemoryServices d) + 1\<rparr> else MemoryServices d),
       OwnState := 10 * OwnState d + unat f\<rparr>"

definition demo_platform :: "nat machine DXE_PLATFORM" where
  "demo_platform = \<lparr>Notify = (\<lambda>f ev ctx s. Some (s\<lparr>Drivers := demo_drivers f ev ctx (Drivers s)\<rparr>)), HasCpu = True, InSmm = (\<lambda>_. None),
     AllocateZeroPool = (\<lambda>runtime d. (0x5000, d)), FreeEvent = (\<lambda>ev d. (EFI_SUCCESS, d)), GetTimerPeriod = (\<lambda>d. 100000),
     UnregisterProtocolNotify = (\<lambda>ev d. d)\<rparr>"

definition demo_events :: "EFI_EVENT \<rightharpoonup> IEVENT" where
  "demo_events = [
     0x1000 \<mapsto> NewEvent EVT_NOTIFY_SIGNAL 30 (Some CheckTimersFunction) 0 None,
     0x2000 \<mapsto> NewEvent EVT_NOTIFY_SIGNAL TPL_NOTIFY (Some EmptyFunction) 0 (Some gIdleLoopEventGuid),
     0x3000 \<mapsto> NewEvent EVT_NOTIFY_SIGNAL TPL_CALLBACK (Some (DriverFunction 1)) 5 (Some gEfiEventBeforeExitBootServicesGuid),
     0x4000 \<mapsto> NewEvent EVT_NOTIFY_SIGNAL TPL_NOTIFY (Some (DriverFunction 2)) 6 None]"

definition demo_table :: EFI_SYSTEM_TABLE where
  "demo_table = \<lparr>HdrSignature = 0x5453595320494249, HdrRevision = 0x20046, HeaderSize = 120, CRC32 = 0, HdrReserved = 0, FirmwareVendor = 0x10,
     FirmwareRevision = 1, ConsoleInHandle = 0x11, ConIn = 0x12, ConsoleOutHandle = 0x13, ConOut = 0x14, StandardErrorHandle = 0x15,
     StdErr = 0x16, RuntimeServices = 0x17, BootServices = 0x18, NumberOfTableEntries = 0, ConfigurationTable = 0\<rparr>"

definition demo_core :: "nat core" where
  "demo_core = (events_at_start \<lparr>MemoryServices = demo_bins, mExitBootServicesCalled = False, gMemoryMapTerminated = False,
       gDxeCoreST = demo_table, gBS = 0x18, AtRuntime = False, OwnState = 0\<rparr>)
     \<lparr>Events := demo_events, gEventSignalQueue := [0x4000, 0x3000, 0x2000, 0x1000], mEfiCheckTimerEvent := 0x1000, gIdleLoopEvent := 0x2000, Interrupts := True\<rparr>"

lemma demo_own_state: "own_state demo_platform demo_drivers"
  by (simp add: own_state_def demo_platform_def)

lemma demo_core_steady: "steady demo_core"
proof -
  have ev: "event_ok ev e" if "demo_events ev = Some e" for ev e
    using that by (auto simp: demo_events_def NewEvent_def event_ok_def notifiable_def tpl_defs evt_defs split: if_splits)
  have "events_ok demo_core"
    unfolding events_ok_def
    by (intro conjI allI impI)
      (use ev in \<open>simp_all add: demo_core_def events_at_start_def queues_ok_def signals_ok_def timers_ok_def demo_events_def NewEvent_def
        check_event_ok_def EFI_INITIALIZE_LOCK_VARIABLE_def tpl_defs evt_defs\<close>)
  then show ?thesis
    by (simp add: steady_def unlocked_def drained_def demo_core_def events_at_start_def EFI_INITIALIZE_LOCK_VARIABLE_def)
qed

subsection \<open>Events\<close>

text \<open>
  C12: whatever sequence of event services the drivers, the boot application and the timer ask for
  (raising and restoring the priority, creating, signalling, checking, awaiting and closing events, setting timers, ticks),
  and whether they succeed or fail, when a service has returned every queued event is an event of its queue's
  priority that can be notified, the signal and timer lists hold events that exist, the timers are in the order of their times, no
  lock is held, and nothing is pending above the current priority.
\<close>

theorem event_services_keep:
  assumes "driver_ok P" "steady s" "(event_service P)\<^sup>*\<^sup>* s s'"
  shows "steady s' \<and> sorted (map (trigger (Events s')) (mEfiTimerList s')) \<and> set (mEfiTimerList s') \<subseteq> dom (Events s') \<and>
    (\<forall>p < 32. unat (gEfiCurrentTpl s') < p \<longrightarrow> gEventQueue s' ! p = [])"
proof -
  have st: "steady s'" by (rule event_services_steady [OF assms(3,1,2)])
  then have "gEventQueue s' ! p = []" if "p < 32" "unat (gEfiCurrentTpl s') < p" for p
    using that by (intro empty_above) (auto simp: steady_def drained_def)
  then show ?thesis using st by (auto simp: steady_def events_ok_def timers_ok_def)
qed

text \<open>Two signals at a raised priority run nothing; lowering it runs the functions, that of the higher priority first.\<close>

lemma demo_signalled:
  "\<exists>s1 s2 s3 s4. CoreRaiseTpl demo_platform TPL_NOTIFY demo_core = Some (TPL_APPLICATION, s1) \<and>
     CoreSignalEvent (RunTpl demo_platform) demo_platform 0x3000 s1 = Some (EFI_SUCCESS, s2) \<and>
     CoreSignalEvent (RunTpl demo_platform) demo_platform 0x4000 s2 = Some (EFI_SUCCESS, s3) \<and>
     RunTpl demo_platform (RestoreTpl TPL_APPLICATION) s3 = Some s4 \<and> OwnState (Drivers s3) = 0 \<and> OwnState (Drivers s4) = 21 \<and>
     waiting (gEventQueue s3) (Suc (unat TPL_APPLICATION)) 32 = [0x4000, 0x3000] \<and> gEfiCurrentTpl s3 = TPL_NOTIFY \<and>
     map_option NotifyFunction (Events s3 0x4000) = Some (Some (DriverFunction 2)) \<and> map_option NotifyFunction (Events s3 0x3000) = Some (Some (DriverFunction 1))"
proof -
  have "wp (\<lambda>(old, s1). old = TPL_APPLICATION \<and> wp (\<lambda>(st, s2). st = EFI_SUCCESS \<and>
       wp (\<lambda>(st, s3). st = EFI_SUCCESS \<and> wp (\<lambda>s4. OwnState (Drivers s3) = 0 \<and> OwnState (Drivers s4) = 21 \<and>
         waiting (gEventQueue s3) (Suc (unat TPL_APPLICATION)) 32 = [0x4000, 0x3000] \<and> gEfiCurrentTpl s3 = TPL_NOTIFY \<and>
         map_option NotifyFunction (Events s3 0x4000) = Some (Some (DriverFunction 2)) \<and> map_option NotifyFunction (Events s3 0x3000) = Some (Some (DriverFunction 1)))
          (RunTpl demo_platform (RestoreTpl TPL_APPLICATION) s3))
        (CoreSignalEvent (RunTpl demo_platform) demo_platform 0x4000 s2))
     (CoreSignalEvent (RunTpl demo_platform) demo_platform 0x3000 s1)) (CoreRaiseTpl demo_platform TPL_NOTIFY demo_core)"
    by code_simp
  then show ?thesis by (auto simp: wp_iff)
qed

lemma event_services_keep_witness:
  "\<exists>s1 s2 s3 s4. CoreRaiseTpl demo_platform TPL_NOTIFY demo_core = Some (TPL_APPLICATION, s1) \<and>
     CoreSignalEvent (RunTpl demo_platform) demo_platform 0x3000 s1 = Some (EFI_SUCCESS, s2) \<and>
     CoreSignalEvent (RunTpl demo_platform) demo_platform 0x4000 s2 = Some (EFI_SUCCESS, s3) \<and>
     RunTpl demo_platform (RestoreTpl TPL_APPLICATION) s3 = Some s4 \<and> steady s4 \<and> OwnState (Drivers s4) = 21"
proof -
  obtain s1 s2 s3 s4 where s: "CoreRaiseTpl demo_platform TPL_NOTIFY demo_core = Some (TPL_APPLICATION, s1)"
    "CoreSignalEvent (RunTpl demo_platform) demo_platform 0x3000 s1 = Some (EFI_SUCCESS, s2)"
    "CoreSignalEvent (RunTpl demo_platform) demo_platform 0x4000 s2 = Some (EFI_SUCCESS, s3)"
    "RunTpl demo_platform (RestoreTpl TPL_APPLICATION) s3 = Some s4" "OwnState (Drivers s4) = 21" using demo_signalled by blast
  note step = event_service.raise [OF s(1)] event_service.signal [OF s(2)] event_service.signal [OF s(3)] event_service.restore [OF s(4)]
  then have "(event_service demo_platform)\<^sup>*\<^sup>* demo_core s4" by (meson rtranclp.intros)
  from event_services_keep [OF own_state_driver_ok [OF demo_own_state] demo_core_steady this] show ?thesis using s by blast
qed



text \<open>
  C20: a closed event is gone.  When an event of a driver has been closed, its memory is free, and no list of the
  core points at it: not the timers, not the signal list, not the runtime events, and no queue.
\<close>

theorem closed_event_gone:
  assumes "driver_ok P" "steady s" "Events s ev \<noteq> None" "ev \<noteq> mEfiCheckTimerEvent s" "ev \<noteq> gIdleLoopEvent s"
    and "CoreCloseEvent P ev s = Some (status, s')"
  shows "steady s' \<and> Events s' ev = None \<and>
    ev \<notin> set (mEfiTimerList s') \<union> set (gEventSignalQueue s') \<union> set (RuntimeEvents s') \<union> set (concat (gEventQueue s'))"
proof -
  have c: "steady s'" "Events s' ev = None" using CoreCloseEvent_steady [OF assms(1,2,4,5,6)] assms(3) by simp_all
  then have ok: "timers_ok (Events s') (mEfiTimerList s')" "signals_ok (Events s') (gEventSignalQueue s')"
    "queues_ok (Events s') (gEventQueue s') (gEventPending s')" "set (RuntimeEvents s') \<subseteq> dom (Events s')"
    by (simp_all add: steady_def events_ok_def)
  have "ev \<notin> set (concat (gEventQueue s'))"
  proof
    assume "ev \<in> set (concat (gEventQueue s'))"
    then obtain q where q: "q \<in> set (gEventQueue s')" "ev \<in> set q" by auto
    obtain p where "p < length (gEventQueue s')" "q = gEventQueue s' ! p" using q(1) unfolding in_set_conv_nth by blast
    then have "p < 32" "ev \<in> set (gEventQueue s' ! p)" using ok(3) q(2) by (simp_all add: queues_ok_def)
    then show False using ok(3) c(2) unfolding queues_ok_def by fastforce
  qed
  then show ?thesis using c ok by (auto simp: timers_ok_def signals_ok_def)
qed

lemma closed_event_gone_witness:
  "\<exists>s'. CoreCloseEvent demo_platform 0x4000 demo_core = Some (EFI_SUCCESS, s') \<and> Events s' 0x4000 = None \<and> 0x4000 \<notin> set (gEventSignalQueue s')"
proof -
  have "wp (\<lambda>(status, s'). status = EFI_SUCCESS) (CoreCloseEvent demo_platform 0x4000 demo_core)" by code_simp
  then obtain s' where r: "CoreCloseEvent demo_platform 0x4000 demo_core = Some (EFI_SUCCESS, s')" by (auto simp: wp_iff)
  have "Events demo_core 0x4000 \<noteq> None" "0x4000 \<noteq> mEfiCheckTimerEvent demo_core" "0x4000 \<noteq> gIdleLoopEvent demo_core"
    by (simp_all add: demo_core_def demo_events_def)
  from closed_event_gone [OF own_state_driver_ok [OF demo_own_state] demo_core_steady this r] show ?thesis using r by simp
qed

subsection \<open>Timers\<close>

text \<open>
  C21: the check of the timers.  Called at its priority, with no period that wraps around, the check
  returns.  The timers whose time had come are signalled; of these those with a period stay in the list, the others
  leave it; every timer that is left is later than the system time; and no other event has changed, except
  the core's own.
\<close>

theorem timers_fire:
  assumes "driver_ok P" "events_ok s" "unlocked s" "gEfiCurrentTpl s = 30"
    and "\<forall>ev \<in> set (mEfiTimerList s). \<forall>e. Events s ev = Some e \<longrightarrow> no_wrap (mEfiSystemTime s) e"
  shows "\<exists>s'. CoreCheckTimers (RunTpl P) P s = Some s' \<and> events_ok s' \<and> unlocked s' \<and>
    set (mEfiTimerList s') = {ev \<in> set (mEfiTimerList s). mEfiSystemTime s < trigger (Events s) ev \<or> periodic (Events s) ev} \<and>
    (\<forall>ev \<in> set (mEfiTimerList s'). mEfiSystemTime s < trigger (Events s') ev) \<and>
    (\<forall>ev \<in> set (mEfiTimerList s). trigger (Events s) ev \<le> mEfiSystemTime s \<longrightarrow> (\<exists>e. Events s' ev = Some e \<and> SignalCount e = 1)) \<and>
    (\<forall>ev. ev \<noteq> mEfiCheckTimerEvent s \<longrightarrow> ev \<notin> set (mEfiTimerList s) \<or> mEfiSystemTime s < trigger (Events s) ev \<longrightarrow> Events s' ev = Events s ev)"
  using CoreCheckTimers_fires [OF assms] unfolding fired_def by blast

text \<open>A periodic timer that is late, and one that is not yet due.\<close>

definition demo_timers :: "UINT64 \<Rightarrow> nat core" where
  "demo_timers period = demo_core\<lparr>gEfiCurrentTpl := 30,
     Events := demo_events(0x6000 \<mapsto> (NewEvent EVT_TIMER 0 None 0 None)\<lparr>TriggerTime := 50, Period := period\<rparr>,
       0x7000 \<mapsto> (NewEvent EVT_TIMER 0 None 0 None)\<lparr>TriggerTime := 70\<rparr>),
     mEfiTimerList := [0x6000, 0x7000], mEfiSystemTime := 65\<rparr>"

lemma demo_timers_ok: "events_ok (demo_timers period)" "unlocked (demo_timers period)"
proof -
  have ev: "event_ok ev e" if "Events (demo_timers period) ev = Some e" for ev e
    using that by (auto simp: demo_timers_def demo_events_def NewEvent_def event_ok_def notifiable_def tpl_defs evt_defs split: if_splits)
  show "events_ok (demo_timers period)"
    unfolding events_ok_def
    by (intro conjI allI impI)
      (use ev in \<open>simp_all add: demo_timers_def demo_core_def events_at_start_def queues_ok_def signals_ok_def timers_ok_def trigger_def
        demo_events_def NewEvent_def check_event_ok_def EFI_INITIALIZE_LOCK_VARIABLE_def tpl_defs evt_defs\<close>)
  show "unlocked (demo_timers period)"
    by (simp add: unlocked_def demo_timers_def demo_core_def events_at_start_def EFI_INITIALIZE_LOCK_VARIABLE_def)
qed

lemma timers_fire_witness:
  "\<exists>s'. CoreCheckTimers (RunTpl demo_platform) demo_platform (demo_timers 10) = Some s' \<and> set (mEfiTimerList s') = {0x6000, 0x7000} \<and>
     65 < trigger (Events s') 0x6000 \<and> (\<exists>e. Events s' 0x6000 = Some e \<and> SignalCount e = 1) \<and> Events s' 0x7000 = Events (demo_timers 10) 0x7000"
proof -
  let ?s = "demo_timers 10"
  have f: "gEfiCurrentTpl ?s = 30" "mEfiSystemTime ?s = 65" "mEfiTimerList ?s = [0x6000, 0x7000]" "mEfiCheckTimerEvent ?s = 0x1000"
    "trigger (Events ?s) 0x6000 = 50" "trigger (Events ?s) 0x7000 = 70" "periodic (Events ?s) 0x6000"
    by (simp_all add: demo_timers_def demo_core_def trigger_def periodic_def)
  have w: "\<forall>ev \<in> set (mEfiTimerList ?s). \<forall>e. Events ?s ev = Some e \<longrightarrow> no_wrap (mEfiSystemTime ?s) e"
    by (auto simp: demo_timers_def demo_core_def no_wrap_def NewEvent_def)
  from timers_fire [OF own_state_driver_ok [OF demo_own_state] demo_timers_ok f(1) w] obtain s' where
    s': "CoreCheckTimers (RunTpl demo_platform) demo_platform ?s = Some s'"
      "set (mEfiTimerList s') = {ev \<in> set (mEfiTimerList ?s). mEfiSystemTime ?s < trigger (Events ?s) ev \<or> periodic (Events ?s) ev}"
      "\<forall>ev \<in> set (mEfiTimerList s'). mEfiSystemTime ?s < trigger (Events s') ev"
      "\<forall>ev \<in> set (mEfiTimerList ?s). trigger (Events ?s) ev \<le> mEfiSystemTime ?s \<longrightarrow> (\<exists>e. Events s' ev = Some e \<and> SignalCount e = 1)"
      "\<forall>ev. ev \<noteq> mEfiCheckTimerEvent ?s \<longrightarrow> ev \<notin> set (mEfiTimerList ?s) \<or> mEfiSystemTime ?s < trigger (Events ?s) ev \<longrightarrow> Events s' ev = Events ?s ev"
    by (elim exE conjE) (rule that)
  have l: "set (mEfiTimerList s') = {0x6000, 0x7000}"
    unfolding s'(2) f(2,3) using f(6,7) by (intro equalityI subsetI) (auto simp only: set_simps mem_Collect_eq insert_iff empty_iff, simp_all)
  moreover have "65 < trigger (Events s') 0x6000" using s'(3) l f(2) by simp
  moreover have "\<exists>e. Events s' 0x6000 = Some e \<and> SignalCount e = 1" using s'(4) f(2,3,5) by simp
  moreover have "Events s' 0x7000 = Events ?s 0x7000" using s'(5) f(2,4,6) by simp
  ultimately show ?thesis using s'(1) by (intro exI [of _ s'] conjI)
qed



subsection \<open>The end of boot services\<close>

text \<open>
  C4: leaving boot services.  The boot application's loop, with the services of the DXE core as its firmware, ends: if a
  driver that is told first changes the memory map, so that the key is refused, the next round succeeds.  The
  core is then at runtime, its tables name no boot services and no console, interrupts are off, and the key that
  the kernel's boot information holds is that of the memory map as it was left.
\<close>

theorem boot_services_end:
  assumes "own_state P F" "runs_on_dxe P Q fw getMemoryMap exitBootServices" "ready_to_exit F memoryMapSize s" "memoryMap \<noteq> 0"
  shows "\<exists>b' s'. ExitBootServices_loop fw imageHandle getMemoryMap exitBootServices memoryMap memoryMapSize args b (Some s) =
      Some (EFI_SUCCESS, b', Some s') \<and> boot_services_gone s' \<and>
    MemoryMapKey b' = mMemoryMapKey (MemoryServices (Drivers s')) \<and> MemoryMap b' = memoryMap"
  by (rule ExitBootServices_loop_dxe [OF assms])

definition demo_hardware :: "nat EXIT_PLATFORM" where
  "demo_hardware = \<lparr>SetTimerPeriod = (\<lambda>_ d. d), ReportStatusCode = (\<lambda>_ _ d. d), MemoryProtectionExitBootServices = id,
     SetDebugTimerInterrupt = (\<lambda>_ d. d), CalculateCrc32 = (\<lambda>t d. HeaderSize t)\<rparr>"

definition demo_dxe :: "nat core option FIRMWARE" where
  "demo_dxe = \<lparr>read64 = (\<lambda>e p. Some 0), read32 = (\<lambda>e p. Some 0), LocateProtocol = (\<lambda>p g e. (EFI_UNSUPPORTED, 0, e)), Stall = (\<lambda>p n e. e),
     GetMemoryMap = (\<lambda>p args mm e. DxeGetMemoryMap args mm e), AllocatePool = (\<lambda>p t n (h, e). (EFI_UNSUPPORTED, None, h, e)),
     FreePool = (\<lambda>p m e. e), HandleProtocol = (\<lambda>p h g e. (EFI_UNSUPPORTED, None, e)),
     LocateHandleBuffer = (\<lambda>p t g e. (EFI_UNSUPPORTED, 0, None, e)),
     ExitBootServices = (\<lambda>p h key e. DxeExitBootServices demo_platform demo_hardware key e), rdtsc = (\<lambda>e. (0, e))\<rparr>"

definition demo_info :: KERNEL_BOOT_INFO where
  "demo_info = \<lparr>BootFramebuffer = \<lparr>ScreenWidth = 640, ScreenHeight = 480, PixelsPerScanLine = 640, PixelFormat = 1, RedMask = 0, GreenMask = 0,
       BlueMask = 0, Framebuffer = 0x1000000\<rparr>, ShadowFramebuffer = 0, ComposeFramebuffer = 0, TscTicksPerSecond = 0, MemoryMap = 0,
     MemoryMapSize = 0, MemoryMapKey = 0, MemoryDescriptorSize = 0, MemoryDescriptorVersion = 0, MemoryDescriptorCount = 0, GpuCount = 0,
     AudioCount = 0, PciDeviceCount = 0, PciDevices = []\<rparr>"

lemma demo_ready_to_exit: "ready_to_exit demo_drivers 4096 demo_core"
proof -
  have m: "map_fits 4096 demo_bins"
  proof -
    have "acpi_not_runtime demo_bins"
      by (simp add: acpi_not_runtime_def demo_bins_def demo_statistics_def EfiACPIReclaimMemory_def EfiACPIMemoryNVS_def)
    moreover have "NeededSize demo_bins \<le> 4096" by code_simp
    ultimately show ?thesis using demo_bins_ready by (simp add: map_fits_def)
  qed
  have keep: "map_fits limit (m\<lparr>mMemoryMapKey := k\<rparr>) = map_fits limit m" for limit m k
    by (simp add: map_fits_def map_ready_def idle_def map_ok_def bins_placed_def bins_ok_def reported_ok_def descriptors_needed_def split_bins_def
        acpi_not_runtime_def NeededSize_def)
  have own: "\<exists>m own. demo_drivers f ev ctx d = d\<lparr>MemoryServices := m, OwnState := own\<rparr>" for f ev ctx d
    unfolding demo_drivers_def by blast
  have "exit_drivers demo_drivers demo_events 4096"
    unfolding exit_drivers_def
    by (intro conjI allI impI, rule own) (auto simp: demo_drivers_def demo_events_def NewEvent_def keep gIdleLoopEventGuid_def ZeroGuid_def
      gEfiEventBeforeExitBootServicesGuid_def gEventExitBootServicesFailedGuid_def gEfiEventExitBootServicesGuid_def split: if_splits)
  then show ?thesis using demo_core_steady m by (simp add: ready_to_exit_def demo_core_def events_at_start_def)
qed

lemma boot_services_end_witness:
  "\<exists>b' s'. ExitBootServices_loop demo_dxe 9 1 2 0x8000 4096 \<lparr>MapSize = 0, MapKey = 0, DescriptorSize = 48, DescriptorVersion = 1\<rparr> demo_info
       (Some demo_core) = Some (EFI_SUCCESS, b', Some s') \<and>
     boot_services_gone s' \<and> MemoryMapKey b' = mMemoryMapKey (MemoryServices (Drivers s')) \<and> MemoryMap b' = 0x8000"
proof -
  have r: "runs_on_dxe demo_platform demo_hardware demo_dxe 1 2" by (simp add: runs_on_dxe_def demo_dxe_def)
  have m: "(0x8000 :: ptr) \<noteq> 0" by simp
  show ?thesis by (rule boot_services_end [OF demo_own_state r demo_ready_to_exit m])
qed

end
