(* ===== verification/Spec2Isabelle.thy ===== *)
theory Spec2Isabelle
  imports PixelProperties DrawingProperties InputProperties StatusProperties BootProperties FirmwareProperties EventProperties
begin

text \<open>
  Dragon OS: the UEFI boot application and kernel of \<^verbatim>\<open>src/BootApp.c\<close>, and the services of the EDK II core
  under \<^verbatim>\<open>src/edk2\<close> on which its start and its exit from the firmware rest.

  The program.  The firmware calls \<open>EfiMain\<close>.  It finds the framebuffer, plays the splash animation,
  measures the time stamp counter, allocates two off-screen surfaces, lists the PCI display and sound
  controllers, reads the memory map and leaves the firmware with \<open>ExitBootServicesForKernel\<close>.  From
  then on the program is the kernel: \<open>RunKernelMouseLoop\<close> initialises the cursor, the PS/2 mouse and
  the set-up screen, draws it on the shadow surface, copies it to the screen, and then for ever polls
  the mouse, puts back the background under the cursor, repaints the buttons whose hover state
  changed, and composes the cursor over the shadow.  Everything else in the file is a routine that
  these two call, or an alternative front end (pointer protocols of the firmware, tween demo, status
  screen, mouse debug lines) that is compiled but not called at this commit.

  Theories, in the order of the calls.
  \<^item> \<open>Prelude\<close>: integer types, C loops as recursion, the postcondition \<open>wp\<close> of an option
    value (it demands that there is one), tables read with a bound, signed division.
  \<^item> \<open>Memory\<close>: \<open>FillPixels32\<close>, \<open>CopyPixels32\<close> on a heap of 4-byte cells.
  \<^item> \<open>Pixel\<close>: \<open>MaskShift\<close> to \<open>AlphaBlendPixel\<close>, \<open>BlendChannelOverBlack\<close>.
  \<^item> \<open>Surface\<close>: \<open>ClearScreen\<close>, \<open>ClearRect\<close>, \<open>BlitSurfaceRect\<close>; \<open>Shapes\<close>: rounded boxes; \<open>Glyphs\<close>, \<open>Text\<close>:
    the glyph and text routines; \<open>Tween\<close>: \<open>EvaluateTween\<close>; \<open>Image\<close>: image scaling and the splash;
    \<open>Cursor\<close>: the software cursor and \<open>BlitCursorComposite\<close>.
  \<^item> \<open>Console\<close>: \<open>AppendText\<close> to \<open>DrawMouseDebug\<close>; \<open>Pointer\<close>: clamping, mouse curve, acceleration and the two
    pointer protocols; \<open>Ps2\<close>: the mouse driver; \<open>SetupUi\<close>, \<open>TweenDemo\<close>, \<open>StatusScreen\<close>: the screens.
  \<^item> \<open>Boot\<close>: \<open>InitializeFramebuffer\<close>, \<open>EstimateTscTicksPerSecond\<close>, \<open>CollectPciDevices\<close>,
    \<open>ExitBootServicesForKernel\<close>; \<open>Kernel\<close>: \<open>RunKernelMouseLoop\<close> and \<open>EfiMain\<close>; \<open>Loader\<close>: the run from power-on to
    the hand-over.
  \<^item> \<open>Examples\<close>: concrete assets, memories and devices at which the properties are applied.
  \<^item> \<open>PixelProperties\<close>, \<open>DrawingProperties\<close>, \<open>InputProperties\<close>, \<open>StatusProperties\<close>, \<open>BootProperties\<close> and this
    theory: the properties of the boot application and the kernel.

  The firmware.  EDK II comes with the repository.  Modelled is the part of its DXE core
  (\<^verbatim>\<open>MdeModulePkg/Core/Dxe\<close>) that owns the memory map and ends boot services.
  \<^item> \<open>DxeMap\<close>: the map of memory types (\<open>CoreAddRange\<close>, \<open>CoreFreeMemoryMapStack\<close>); \<open>DxePages\<close>: search, conversion,
    promotion, \<open>CoreInternalAllocatePages\<close>, \<open>CoreInternalFreePages\<close>; \<open>DxeAllocate\<close>, \<open>DxeService\<close>, \<open>DxeSearch\<close>, \<open>DxeReturns\<close>:
    what these do to the map, and that they return (\<^verbatim>\<open>Mem/Page.c\<close>).
  \<^item> \<open>DxeMapService\<close>: \<open>CoreGetMemoryMap\<close>, \<open>CoreTerminateMemoryMap\<close>; \<open>DxeMapList\<close>, \<open>DxeMapSpec\<close>, \<open>DxeMapSplit\<close>, \<open>DxeMapResult\<close>:
    that the list it writes describes the map.
  \<^item> \<open>DxeEvent\<close>: task priorities, events and timers (\<^verbatim>\<open>Event/Tpl.c\<close>, \<^verbatim>\<open>Event/Event.c\<close>, \<^verbatim>\<open>Event/Timer.c\<close>, the locks of
    \<^verbatim>\<open>Library/Library.c\<close>); \<open>DxeEventOk\<close>, \<open>DxeEventRun\<close>, \<open>DxeEventServices\<close>: their invariant; \<open>DxeEventOrder\<close>: the order of
    notifications; \<open>DxeTimer\<close>: which timers fire.
  \<^item> \<open>DxeExit\<close>: \<open>CoreExitBootServices\<close> (\<^verbatim>\<open>DxeMain/DxeMain.c\<close>), and the loop of the boot application with these services
    as its firmware.
  \<^item> \<open>FirmwareProperties\<close>, \<open>EventProperties\<close>: the properties of the firmware.

  All 83 functions of \<^verbatim>\<open>src/BootApp.c\<close> have a definition of their name.  Where a loop or a group of statements
  of a function is a definition of its own, its name begins with the function's or says what
  it computes (\<open>KernelStep\<close> is the body of the loop of \<open>RunKernelMouseLoop\<close>, \<open>Ps2ReceiveByte\<close> the
  handling of a byte in \<open>UpdateCursorFromPs2Mouse\<close>).

  State.  Structs are records with the fields of the code (\<open>BootFramebuffer\<close> is the field
  \<open>Framebuffer\<close> of the boot information, \<open>MouseLeftButtonDown\<close> the field \<open>LeftButtonDown\<close> of the mouse
  state).  Integers are words of their width; \<open>INT32\<close> is the 32-bit word under signed operations, and
  signed overflow wraps around.  Pixels live in a heap, a partial map from byte addresses to 32-bit
  cells; a 64-bit store is two cells.  \<open>None\<close> is the result of every step that C leaves
  undefined (an access outside the mapped memory or a table, a shift by the width, a line that does not
  fit its buffer) and of a loop that never ends, so that a theorem which gives a result also says
  that none of this happens.  A pointer that the code tests for null is an option.  Strings
  are lists of characters, without the terminating zero.  The saved pixels of the cursor are addressed
  like a surface by the code, and therefore are in the heap too.  A local variable that the code does
  not initialise is an argument (\<open>c0\<close>, \<open>m0\<close>, \<open>ui0\<close>, \<open>fb0\<close>, \<open>b0\<close>); the one static variable that is written,
  the family name of the tween demo, is passed in and returned.  The record of a firmware protocol has
  the members that the program uses.

  State of the firmware.  The variables of \<^verbatim>\<open>Page.c\<close> are the record \<open>dxe_memory\<close>, those of the event services
  \<open>dxe_events\<close>, whose field \<open>Drivers\<close> is everything the drivers may change; at the exit this is the
  \<open>machine\<close>, with the memory services in it.  A linked list is the list of its members; a descriptor of the map is
  an entry with the slot it is stored in.  An event is a value under its address, and an address without one has
  been freed.  \<open>None\<close> is an assertion that fails, an access to freed memory, or a run that never ends.  The
  functions that call each other through \<open>CoreRestoreTpl\<close> (releasing a lock runs the pending notification functions,
  which use the services) are the modes \<open>TplCall\<close> of one partial function, \<open>RunTpl\<close>.  The drivers' functions are
  a parameter: \<open>Notify\<close> of \<open>DXE_PLATFORM\<close> changes the state of the event services as it likes.

  Parameters.  \<open>ASSETS\<close> is what the builder generates into \<^verbatim>\<open>generated_bitmap.h\<close>, and \<open>assets_ok\<close> that
  its tables are as long as it declares, its images at most 4096 pixels wide and high, and its tween
  samples at most 1024.  \<open>PORTS\<close> is the port input and output of the processor, with a device state
  of any type.  \<open>FIRMWARE\<close> is the boot services, over any environment; \<open>firmware_ok\<close> states what the
  UEFI specification says of them: \<open>AllocatePool\<close> gives out memory that nobody has, a handle buffer is
  as long as its count, the sizing call for the memory map fails, and a key read just before is
  refused only finitely often.  \<open>display_ok\<close> says of the display that its framebuffer is memory of the
  size it reports, its lines are at least as long as they are wide, and its masks name bits.

  The firmware has its own: \<open>DXE_PLATFORM\<close> (drivers' functions, the pool, the timer hardware) and \<open>EXIT_PLATFORM\<close>
  (the status code, the page tables, the checksum service).  \<open>driver_ok\<close> asks of a driver's function that it keeps
  the invariant of the events, leaves no lock taken and the priority as it was; \<open>own_state\<close> that it changes
  the drivers' own state only; \<open>pool_fresh\<close> that a new event has an address of its own.  The hypotheses on states are \<open>idle\<close>
  (no memory service is running, and the map, the stack and the spare descriptors are well formed), \<open>steady\<close> (no
  event service is running, nothing is pending above the priority), \<open>bins_ok\<close> and \<open>bins_placed\<close> (the tables of the
  bins are complete, and the bins that split entries are page ranges), \<open>gcd_ok\<close> and \<open>reported_ok\<close> (the GCD ranges
  do not overlap, and those that are promoted or reported are pages outside the map), \<open>map_ready\<close> which
  joins these, and \<open>exit_drivers\<close> (the functions that are told before the exit may change the memory map if it
  still fits the buffer, those that are told of the exit itself or of its failure leave it alone).

  Loops.  A counted loop is structural recursion or \<open>for32\<close>, which computes on words.  The waits of
  the mouse driver (100000 attempts, 64 bytes flushed, 96 bytes and 32 packets per update) and
  the 64 reports of the simple pointer are terminating functions on the code's own counters, so no
  fuel is added.  The two loops without a bound, the polling of the absolute pointer and the retries of
  \<open>ExitBootServices\<close>, are partial functions; the second is shown to end in \<open>Loader\<close>, by the measure that
  \<open>firmware_ok\<close> gives, and in \<open>DxeExit\<close> without that hypothesis, because the core tells its drivers once only.  The
  recursion of \<open>RunTpl\<close> and the loops of the page services are partial functions: \<open>DxeReturns\<close>, \<open>DxeEventOrder\<close> and \<open>DxeTimer\<close>
  show when they return, and the last that the check of the timers does not if a period wraps around.  The mouse loop is its initial state, one iteration, the number of
  iterations and a step relation with its invariant.

  What the lemmas show.  The drawing routines are specified by shaders: \<open>recolours fb s h h'\<close> says that
  each pixel on the screen has its colour changed by \<open>s\<close> and nothing else changed; the locale
  \<open>text_renderer\<close> derives the text routines from their glyph routines once for all six of them.
  \<open>cursor_updater\<close> is the contract of the three sources of motion.  The mouse driver refines a
  decoder on lists of bytes.  \<open>kernel_ok\<close> is the invariant of the kernel: the screen shows the shadow
  with the cursor on top, the shadow is not the screen, the whole cursor is on the screen, and the
  mouse driver is in step with the packets.  \<open>handover_ok\<close> connects the loader to it.
  \<open>types_of\<close> is the abstract map of the firmware, from addresses to a type and attributes: the page services refine an
  update of it on a range, and \<open>address_type\<close> of the list that \<open>CoreGetMemoryMap\<close> writes agrees with it.  The
  locale \<open>stack_freeing\<close> is the contract between the map and the stack of entries, \<open>tpl_run\<close> the contract of a run of
  notifications, under which the functions of the event services keep \<open>events_ok\<close>; \<open>RunTpl\<close> is shown to meet it.
  \<open>event_service\<close> and \<open>memory_service\<close> are step relations over all calls.

  Not modelled.  Of the DXE core: the heap guard, the code of debug builds, the contents of memory, the start-up
  functions that fill the map, the signal of the memory map change group, the raised priority while the memory lock
  is held (the lock is a flag), the link fields of a runtime event, and ticks in the middle of a service (a
  tick is a step between them).  The rest of EDK II is a general firmware kit, with which the boot
  application meets only through protocols: \<open>FIRMWARE\<close> states what it relies on.  The C# builder
  (\<^verbatim>\<open>src/Program.cs\<close> and its helpers), the plugin interface and the samples run on
  the development machine and produce the parameter \<open>ASSETS\<close>.  Out of the model of the boot application are the
  time that a busy wait takes, writes by the device behind the framebuffer, the contents of the memory map (it reads only
  the size, the key and the descriptor count), and the stack beyond the arrays that are addressed.
  With no shadow buffer the loop is defined but its display is not characterised: \<open>boot_ok\<close> asks for one.
\<close>

subsection \<open>The mouse loop\<close>

text \<open>
  C1: the kernel never stops, and never leaves the screen in a wrong state.  Given what the loader
  hands over, the mouse loop completes any number of iterations, whatever the mouse sends; after
  each, the whole bitmap of the cursor is on the screen, and every pixel of the screen shows the shadow
  surface with the cursor drawn on top of it.
\<close>

theorem kernel_runs_forever:
  assumes "boot_ok A b c0 m0 h"
  shows "\<exists>k. RunKernelMouseLoop A P n (Some b) c0 m0 ui0 (h, e) = Some (Inr k) \<and>
    in_bounds A (screen k) (pointer k) \<and> Visible (pointer k) = 1 \<and>
    (\<forall>x y. on_screen (screen k) x y \<longrightarrow> memory k (pixel_at (screen k) x y) =
       map_option (cursor_shader A (pointer k) x y) (memory k (pixel_at (shadow k) x y)))"
  using RunKernelMouseLoop_ok [OF assms, of P n ui0 e] by (auto simp: wp_iff kernel_ok_def displays_def)

lemma kernel_runs_forever_witness:
  "\<exists>k. RunKernelMouseLoop demo_assets fed_ports 1000 (Some demo_boot) demo_cursor demo_mouse demo_ui (ram, [0xFA]) = Some (Inr k) \<and>
    in_bounds demo_assets (screen k) (pointer k) \<and> Visible (pointer k) = 1 \<and>
    (\<forall>x y. on_screen (screen k) x y \<longrightarrow> memory k (pixel_at (screen k) x y) =
       map_option (cursor_shader demo_assets (pointer k) x y) (memory k (pixel_at (shadow k) x y)))"
  by (rule kernel_runs_forever [OF demo_boot_ok])

text \<open>
  C5: the invariant of the loop holds in every state that the loop reaches, no reachable state is
  stuck, and there is only one way on from it.
\<close>

theorem kernel_invariant:
  assumes "kernel_ok A k" "(kernel_step A P)\<^sup>*\<^sup>* k k'"
  shows "kernel_ok A k' \<and> (\<exists>!k''. kernel_step A P k' k'')"
proof -
  have "kernel_ok A k'" by (rule kernel_reachable_ok [OF assms(2,1)])
  then show ?thesis using kernel_progress kernel_deterministic by blast
qed

lemma kernel_invariant_witness:
  "\<exists>k. StartKernel demo_assets silent_ports demo_boot demo_cursor demo_mouse demo_ui (ram, 0 :: nat) = Some k \<and>
    kernel_ok demo_assets k \<and> (\<exists>!k'. kernel_step demo_assets silent_ports k k')"
proof -
  obtain k where k: "StartKernel demo_assets silent_ports demo_boot demo_cursor demo_mouse demo_ui (ram, 0 :: nat) = Some k"
    "kernel_ok demo_assets k" using StartKernel_ok [OF demo_boot_ok] by (rule wpE)
  from kernel_invariant [OF k(2) rtranclp.rtrancl_refl] k(1) show ?thesis by blast
qed




subsection \<open>From power-on to the kernel\<close>



end
